(* ===== verification/Prelude.thy ===== *)
theory Prelude
  imports Main "HOL-Library.Char_ord" "HOL-Library.List_Lexorder" "HOL-Library.Product_Lexorder"
begin

text \<open>
  Shared vocabulary of the development.
  \<^item> Results: a fallible Rust function returns \<open>'e + 'a\<close> (\<open>Inl\<close> the error);
    \<open>res_bind\<close> is the question mark operator and \<open>res_map\<close> a fallible traversal that
    stops at the first error.
  \<^item> Text: a Rust \<open>str\<close> is its UTF-8 byte sequence, a \<open>string\<close> of the logic. Equality,
    prefixes, suffixes and splits at ASCII separators are byte operations in Rust too;
    \<open>chars\<close> groups the bytes into scalar values for the operations that count or
    classify characters.
  \<^item> Ordered maps: a \<open>BTreeMap\<close> is an association list with strictly increasing keys.
\<close>

named_theorems text_simps \<open>evaluation rules for the text functions\<close>
named_theorems btm_simps \<open>rules for ordered maps\<close>

section \<open>Results\<close>

definition res_bind :: "'e + 'a \<Rightarrow> ('a \<Rightarrow> 'e + 'b) \<Rightarrow> 'e + 'b" where
  "res_bind m f = (case m of Inl e \<Rightarrow> Inl e | Inr x \<Rightarrow> f x)"

lemma res_bind_simps [simp]:
  "res_bind (Inl e) f = Inl e"
  "res_bind (Inr x) f = f x"
  by (simp_all add: res_bind_def)

lemma res_bind_eq_Inr_iff [simp]:
  "res_bind m f = Inr y \<longleftrightarrow> (\<exists>x. m = Inr x \<and> f x = Inr y)"
  by (cases m) auto

lemma res_bind_eq_Inl_iff:
  "res_bind m f = Inl e \<longleftrightarrow> m = Inl e \<or> (\<exists>x. m = Inr x \<and> f x = Inl e)"
  by (cases m) auto

text \<open>\<open>ok_or\<close> turns a missing value into an error; \<open>guard\<close> is an early \<open>bail!\<close>.\<close>

definition ok_or :: "'a option \<Rightarrow> 'e \<Rightarrow> 'e + 'a" where
  "ok_or v e = (case v of None \<Rightarrow> Inl e | Some x \<Rightarrow> Inr x)"

lemma ok_or_simps [simp]:
  "ok_or None e = Inl e"
  "ok_or (Some x) e = Inr x"
  by (simp_all add: ok_or_def)

lemma ok_or_eq_Inr_iff [simp]: "ok_or v e = Inr x \<longleftrightarrow> v = Some x"
  by (cases v) auto

definition guard :: "bool \<Rightarrow> 'e \<Rightarrow> 'e + unit" where
  "guard b e = (if b then Inr () else Inl e)"

lemma guard_eq_Inr_iff [simp]: "guard b e = Inr u \<longleftrightarrow> b"
  by (simp add: guard_def)

lemma guard_simps [simp]: "guard True e = Inr ()" "guard False e = Inl e"
  by (simp_all add: guard_def)

primrec res_map :: "('a \<Rightarrow> 'e + 'b) \<Rightarrow> 'a list \<Rightarrow> 'e + 'b list" where
  "res_map f [] = Inr []"
| "res_map f (x # xs) = res_bind (f x) (\<lambda>y. res_bind (res_map f xs) (\<lambda>ys. Inr (y # ys)))"

lemma res_map_Inr_list_all2:
  "res_map f xs = Inr ys \<longleftrightarrow> list_all2 (\<lambda>x y. f x = Inr y) xs ys"
  by (induction xs arbitrary: ys) (auto simp: list_all2_Cons1)

lemma res_map_length: "res_map f xs = Inr ys \<Longrightarrow> length ys = length xs"
  by (auto simp: res_map_Inr_list_all2 dest: list_all2_lengthD)

text \<open>A loop whose body may fail threads its state through \<open>res_fold\<close>.\<close>

primrec res_fold :: "('a \<Rightarrow> 's \<Rightarrow> 'e + 's) \<Rightarrow> 'a list \<Rightarrow> 's \<Rightarrow> 'e + 's" where
  "res_fold f [] s = Inr s"
| "res_fold f (x # xs) s = res_bind (f x s) (res_fold f xs)"

lemma res_fold_append [simp]:
  "res_fold f (xs @ ys) s = res_bind (res_fold f xs s) (res_fold f ys)"
proof (induction xs arbitrary: s)
  case (Cons x xs)
  then show ?case by (cases "f x s") auto
qed simp

lemma res_fold_invariant:
  assumes "res_fold f xs s = Inr s'" and "P s"
    and "\<And>x s s'. x \<in> set xs \<Longrightarrow> P s \<Longrightarrow> f x s = Inr s' \<Longrightarrow> P s'"
  shows "P s'"
  using assms
proof (induction xs arbitrary: s)
  case (Cons x xs)
  then obtain t where t: "f x s = Inr t" and rest: "res_fold f xs t = Inr s'" by auto
  have "P t" using Cons.prems(2,3) t by auto
  with Cons.IH [OF rest] Cons.prems(3) show ?case by auto
qed simp

lemma res_fold_total:
  assumes "P s"
    and "\<And>x s. x \<in> set xs \<Longrightarrow> P s \<Longrightarrow> \<exists>s'. f x s = Inr s' \<and> P s'"
  shows "\<exists>s'. res_fold f xs s = Inr s' \<and> P s'"
  using assms
proof (induction xs arbitrary: s)
  case (Cons x xs)
  then obtain t where "f x s = Inr t" "P t" by (meson list.set_intros(1))
  with Cons show ?case by auto
qed simp

text \<open>\<open>runs m P\<close>: the computation returns, and what it returns satisfies \<open>P\<close>.\<close>

definition runs :: "'e + 'a \<Rightarrow> ('a \<Rightarrow> bool) \<Rightarrow> bool" where
  "runs m P \<longleftrightarrow> (case m of Inl _ \<Rightarrow> False | Inr x \<Rightarrow> P x)"

lemma runs_simps [simp]:
  "runs (Inr x) P = P x" "\<not> runs (Inl e) P"
  "runs (res_bind m f) P = runs m (\<lambda>x. runs (f x) P)"
  by (simp_all add: runs_def res_bind_def split: sum.split)

lemma runs_mono: "runs m P \<Longrightarrow> (\<And>x. P x \<Longrightarrow> Q x) \<Longrightarrow> runs m Q"
  by (simp add: runs_def split: sum.splits)

lemma runs_bindI: "runs m P \<Longrightarrow> (\<And>x. P x \<Longrightarrow> runs (f x) Q) \<Longrightarrow> runs (res_bind m f) Q"
  by (simp add: runs_mono)

lemma runs_iff: "runs m P \<longleftrightarrow> (\<exists>x. m = Inr x \<and> P x)"
  by (simp add: runs_def split: sum.split)

lemma runs_if [simp]: "runs (if b then m else n) P = (if b then runs m P else runs n P)"
  by simp

lemma runs_fold:
  assumes "P 0 s"
    and "\<And>i s. i < length xs \<Longrightarrow> P i s \<Longrightarrow> runs (f (xs ! i) s) (P (Suc i))"
  shows "runs (res_fold f xs s) (P (length xs))"
  using assms
proof (induction xs arbitrary: s P)
  case (Cons x xs)
  have "runs (f x s) (P 1)" using Cons.prems(1) Cons.prems(2) [of 0] by simp
  then show ?case
  proof (simp, rule runs_mono)
    fix t assume "P 1 t"
    then have "runs (res_fold f xs t) (\<lambda>t. P (Suc (length xs)) t)"
      using Cons.IH [of "\<lambda>i. P (Suc i)" t] Cons.prems(2) [of "Suc _"] by simp
    then show "runs (res_fold f xs t) (P (Suc (length xs)))" by simp
  qed
qed simp

text \<open>A fallible loop against a loop that cannot fail: related states stay related.\<close>

lemma runs_fold_sim:
  assumes "R s a"
    and "\<And>x s a. x \<in> set xs \<Longrightarrow> R s a \<Longrightarrow> runs (f x s) (\<lambda>s'. R s' (g x a))"
  shows "runs (res_fold f xs s) (\<lambda>s'. R s' (fold g xs a))"
  using assms
proof (induction xs arbitrary: s a)
  case (Cons x xs)
  have "runs (f x s) (\<lambda>s'. R s' (g x a))" using Cons.prems by simp
  then show ?case
    by (simp, rule runs_mono) (use Cons in simp)
qed simp

section \<open>Text\<close>

text \<open>A continuation byte of UTF-8 is \<open>10xxxxxx\<close>; every other byte starts a character.\<close>

definition is_cont :: "char \<Rightarrow> bool" where
  "is_cont c \<longleftrightarrow> (let n = of_char c :: nat in 128 \<le> n \<and> n < 192)"

fun chars :: "string \<Rightarrow> string list" where
  "chars [] = []"
| "chars (c # s) =
     (case chars s of
        [] \<Rightarrow> [[c]]
      | g # gs \<Rightarrow> if g \<noteq> [] \<and> is_cont (hd g) then (c # g) # gs else [c] # g # gs)"

lemma concat_chars [simp]: "concat (chars s) = s"
proof (induction s)
  case (Cons c s)
  then show ?case by (cases "chars s") auto
qed simp

lemma chars_nonempty: "g \<in> set (chars s) \<Longrightarrow> g \<noteq> []"
proof (induction s arbitrary: g)
  case (Cons c s)
  then show ?case by (cases "chars s") (auto split: if_splits)
qed simp

definition char_count :: "string \<Rightarrow> nat" where
  "char_count s = length (chars s)"

lemma length_chars_le: "length (chars s) \<le> length s"
proof (induction s)
  case (Cons c s)
  then show ?case by (cases "chars s") auto
qed simp

lemma char_count_le_length: "char_count s \<le> length s"
  by (simp add: char_count_def length_chars_le)

lemma chars_eq_Nil_iff [simp]: "chars s = [] \<longleftrightarrow> s = []"
  by (metis concat.simps(1) concat_chars chars.simps(1))

text \<open>
  The code points with the property \<open>White_Space\<close>, as UTF-8: the ASCII ones (tab, line feed,
  vertical tab, form feed, carriage return, space) and U+0085, U+00A0, U+1680, U+2000 to U+200A,
  U+2028, U+2029, U+202F, U+205F and U+3000.
\<close>

definition is_whitespace :: "string \<Rightarrow> bool" where
  "is_whitespace g \<longleftrightarrow>
     (case map of_char g :: nat list of
        [a] \<Rightarrow> a = 32 \<or> (9 \<le> a \<and> a \<le> 13)
      | [a, b] \<Rightarrow> a = 194 \<and> (b = 133 \<or> b = 160)
      | [a, b, c] \<Rightarrow>
          (a = 225 \<and> b = 154 \<and> c = 128)
        \<or> (a = 226 \<and> b = 128 \<and> (128 \<le> c \<and> c \<le> 138 \<or> c = 168 \<or> c = 169 \<or> c = 175))
        \<or> (a = 226 \<and> b = 129 \<and> c = 159)
        \<or> (a = 227 \<and> b = 128 \<and> c = 128)
      | _ \<Rightarrow> False)"

definition trim_start :: "string \<Rightarrow> string" where
  "trim_start s = concat (dropWhile is_whitespace (chars s))"

definition trim_end :: "string \<Rightarrow> string" where
  "trim_end s = concat (rev (dropWhile is_whitespace (rev (chars s))))"

definition trim :: "string \<Rightarrow> string" where
  "trim s = concat (rev (dropWhile is_whitespace (rev (dropWhile is_whitespace (chars s)))))"

text \<open>\<open>str::split_whitespace\<close>: the maximal runs of non-whitespace characters.\<close>

fun ws_runs :: "string list \<Rightarrow> string \<Rightarrow> string list" where
  "ws_runs [] acc = (if acc = [] then [] else [acc])"
| "ws_runs (g # gs) acc =
     (if is_whitespace g then (if acc = [] then ws_runs gs [] else acc # ws_runs gs [])
      else ws_runs gs (acc @ g))"

definition split_whitespace :: "string \<Rightarrow> string list" where
  "split_whitespace s = ws_runs (chars s) []"

definition starts_with :: "string \<Rightarrow> string \<Rightarrow> bool" where
  "starts_with s p \<longleftrightarrow> take (length p) s = p"

definition strip_prefix :: "string \<Rightarrow> string \<Rightarrow> string option" where
  "strip_prefix s p = (if starts_with s p then Some (drop (length p) s) else None)"

definition ends_with :: "string \<Rightarrow> string \<Rightarrow> bool" where
  "ends_with s p \<longleftrightarrow> starts_with (rev s) (rev p)"

lemma starts_with_iff: "starts_with s p \<longleftrightarrow> (\<exists>t. s = p @ t)"
  by (metis append_eq_conv_conj append_take_drop_id starts_with_def)

lemma ends_with_iff: "ends_with s p \<longleftrightarrow> (\<exists>t. s = t @ p)"
  by (metis ends_with_def rev_append rev_rev_ident starts_with_iff)

lemma strip_prefix_Some_iff: "strip_prefix s p = Some t \<longleftrightarrow> s = p @ t"
  by (auto simp: strip_prefix_def starts_with_def) (metis append_take_drop_id)

fun str_contains :: "string \<Rightarrow> string \<Rightarrow> bool" where
  "str_contains s p = (starts_with s p \<or> (case s of [] \<Rightarrow> False | _ # t \<Rightarrow> str_contains t p))"

declare str_contains.simps [simp del]

lemma str_contains_iff: "str_contains s p \<longleftrightarrow> (\<exists>u v. s = u @ p @ v)"
proof (induction s)
  case Nil
  show ?case by (auto simp: str_contains.simps [of "[]"] starts_with_iff)
next
  case (Cons c s)
  note IH = Cons.IH
  show ?case
  proof
    assume "str_contains (c # s) p"
    then consider (here) "starts_with (c # s) p" | (later) "str_contains s p"
      by (auto simp: str_contains.simps [of "c # s"])
    then show "\<exists>u v. c # s = u @ p @ v"
    proof cases
      case here
      then show ?thesis by (metis append_Nil starts_with_iff)
    next
      case later
      then show ?thesis using Cons.IH by (metis append_Cons)
    qed
  next
    assume "\<exists>u v. c # s = u @ p @ v"
    then obtain u v where uv: "c # s = u @ p @ v" by blast
    show "str_contains (c # s) p"
    proof (cases u)
      case Nil
      with uv have "starts_with (c # s) p" by (auto simp: starts_with_iff)
      then show ?thesis by (simp add: str_contains.simps [of "c # s"])
    next
      case (Cons a u')
      with uv have "s = u' @ p @ v" by simp
      then have "str_contains s p" using IH by blast
      then show ?thesis by (simp add: str_contains.simps [of "c # s"])
    qed
  qed
qed

text \<open>\<open>split(sep)\<close> with a nonempty separator, and \<open>split_once\<close>.\<close>

function split_at :: "string \<Rightarrow> string \<Rightarrow> string \<Rightarrow> string list" where
  "split_at sep s acc =
     (if s = [] then [rev acc]
      else if sep \<noteq> [] \<and> starts_with s sep then rev acc # split_at sep (drop (length sep) s) []
      else split_at sep (tl s) (hd s # acc))"
  by pat_completeness auto
termination
  by (relation "measure (\<lambda>(sep, s, acc). length s)") auto

declare split_at.simps [simp del]

definition split_str :: "string \<Rightarrow> string \<Rightarrow> string list" where
  "split_str s sep = split_at sep s []"

fun split_once_at :: "string \<Rightarrow> string \<Rightarrow> string \<Rightarrow> (string \<times> string) option" where
  "split_once_at sep [] acc = (if sep = [] then Some (rev acc, []) else None)"
| "split_once_at sep (c # s) acc =
     (if starts_with (c # s) sep then Some (rev acc, drop (length sep) (c # s))
      else split_once_at sep s (c # acc))"

definition split_once :: "string \<Rightarrow> string \<Rightarrow> (string \<times> string) option" where
  "split_once s sep = split_once_at sep s []"

lemma split_once_at_Some:
  "split_once_at sep s acc = Some (a, b) \<Longrightarrow> rev acc @ s = a @ sep @ b"
proof (induction s arbitrary: acc)
  case Nil
  then show ?case by (auto split: if_splits)
next
  case (Cons c s)
  show ?case
  proof (cases "starts_with (c # s) sep")
    case True
    with Cons.prems show ?thesis by (auto simp: starts_with_iff)
  next
    case False
    with Cons.prems have "split_once_at sep s (c # acc) = Some (a, b)" by simp
    from Cons.IH [OF this] show ?thesis by simp
  qed
qed

lemma split_once_Some: "split_once s sep = Some (a, b) \<Longrightarrow> s = a @ sep @ b"
  unfolding split_once_def by (drule split_once_at_Some) simp

primrec join :: "string \<Rightarrow> string list \<Rightarrow> string" where
  "join sep [] = []"
| "join sep (x # xs) = (if xs = [] then x else x @ sep @ join sep xs)"

text \<open>\<open>str::lines().next()\<close>: the text before the first line feed, less a trailing carriage
  return; an empty text has no line.\<close>

definition first_line :: "string \<Rightarrow> string option" where
  "first_line s =
     (if s = [] then None
      else Some
        (let l = takeWhile (\<lambda>c. c \<noteq> CHR 0x0A) s
         in if length l < length s \<and> l \<noteq> [] \<and> last l = CHR 0x0D then butlast l else l))"

definition to_ascii_lowercase :: "string \<Rightarrow> string" where
  "to_ascii_lowercase = map (\<lambda>c. let n = of_char c :: nat
     in if 65 \<le> n \<and> n \<le> 90 then char_of (n + 32) else c)"

text \<open>The UTF-8 bytes of the non-ASCII characters the sources write.\<close>

definition ellipsis :: string where
  "ellipsis = [CHR 0xE2, CHR 0x80, CHR 0xA6]"

definition em_dash :: string where
  "em_dash = [CHR 0xE2, CHR 0x80, CHR 0x94]"

definition right_arrow :: string where
  "right_arrow = [CHR 0xE2, CHR 0x86, CHR 0x92]"

definition middle_dot :: string where
  "middle_dot = [CHR 0xC2, CHR 0xB7]"

text \<open>
  \<open>chars\<close> inverts concatenation on segments of its own result, so trimming is a function of the
  character list and trimming twice is trimming once.
\<close>

definition chars_wf :: "string list \<Rightarrow> bool" where
  "chars_wf gs \<longleftrightarrow> (\<forall>g \<in> set gs. g \<noteq> [] \<and> (\<forall>c \<in> set (tl g). is_cont c))
     \<and> (\<forall>g \<in> set (tl gs). \<not> is_cont (hd g))"

lemma chars_wf_chars: "chars_wf (chars s)"
proof (induction s)
  case IH: (Cons c s)
  show ?case
  proof (cases "chars s")
    case (Cons g gs)
    have g: "g \<noteq> []" "\<forall>x \<in> set (tl g). is_cont x" using IH Cons by (simp_all add: chars_wf_def)
    then have "is_cont (hd g) \<Longrightarrow> \<forall>x \<in> set g. is_cont x" by (cases g) simp_all
    with g IH Cons show ?thesis by (simp add: chars_wf_def)
  qed (simp add: chars_wf_def)
qed (simp add: chars_wf_def)

lemma chars_group:
  assumes "\<forall>c \<in> set cs. is_cont c" "gs = [] \<or> hd gs \<noteq> [] \<and> \<not> is_cont (hd (hd gs))" "chars s = gs"
  shows "chars (c # cs @ s) = (c # cs) # gs"
  using assms(1)
proof (induction cs arbitrary: c)
  case Nil
  then show ?case using assms(2,3) by (cases gs) auto
qed simp

lemma chars_concat: "chars_wf gs \<Longrightarrow> chars (concat gs) = gs"
proof (induction gs)
  case (Cons g gs)
  have wf: "chars_wf gs" using Cons.prems by (cases gs) (auto simp: chars_wf_def)
  obtain c cs where g: "g = c # cs" "\<forall>c \<in> set cs. is_cont c"
    using Cons.prems by (cases g) (auto simp: chars_wf_def)
  have "gs = [] \<or> hd gs \<noteq> [] \<and> \<not> is_cont (hd (hd gs))"
    using Cons.prems by (cases gs) (auto simp: chars_wf_def)
  with chars_group [OF g(2) _ Cons.IH [OF wf]] show ?case by (simp add: g(1))
qed simp

lemma chars_wf_append: "chars_wf (xs @ ys) \<Longrightarrow> chars_wf xs \<and> chars_wf ys"
  by (cases xs; cases ys) (auto simp: chars_wf_def)

definition trim_list :: "string list \<Rightarrow> string list" where
  "trim_list gs = rev (dropWhile is_whitespace (rev (dropWhile is_whitespace gs)))"

lemma trim_list_segment: "\<exists>xs ys. gs = xs @ trim_list gs @ ys"
proof -
  obtain xs where xs: "gs = xs @ dropWhile is_whitespace gs"
    by (metis takeWhile_dropWhile_id)
  obtain ys where "rev (dropWhile is_whitespace gs) = ys @ dropWhile is_whitespace (rev (dropWhile is_whitespace gs))"
    by (metis takeWhile_dropWhile_id)
  then have "dropWhile is_whitespace gs = trim_list gs @ rev ys"
    unfolding trim_list_def by (metis rev_append rev_rev_ident)
  with xs show ?thesis by metis
qed

lemma dropWhile_trim_list: "dropWhile is_whitespace (trim_list gs) = trim_list gs"
proof (cases "trim_list gs")
  case (Cons y ys)
  obtain zs where "rev (dropWhile is_whitespace gs) = zs @ dropWhile is_whitespace (rev (dropWhile is_whitespace gs))"
    by (metis takeWhile_dropWhile_id)
  then have "dropWhile is_whitespace gs = trim_list gs @ rev zs"
    unfolding trim_list_def by (metis rev_append rev_rev_ident)
  then have "\<not> is_whitespace y" using hd_dropWhile [of is_whitespace gs] Cons by auto
  with Cons show ?thesis by simp
qed simp

lemma trim_list_idem: "trim_list (trim_list gs) = trim_list gs"
proof -
  have "trim_list (trim_list gs) = rev (dropWhile is_whitespace (rev (trim_list gs)))"
    by (subst trim_list_def) (simp add: dropWhile_trim_list)
  then show ?thesis by (simp add: trim_list_def)
qed

lemma trim_idem [simp]: "trim (trim s) = trim s"
proof -
  obtain xs ys where "chars s = xs @ trim_list (chars s) @ ys" using trim_list_segment by blast
  then have "chars_wf (trim_list (chars s))" by (metis chars_wf_chars chars_wf_append)
  then have "chars (concat (trim_list (chars s))) = trim_list (chars s)" by (rule chars_concat)
  then show ?thesis by (simp add: trim_def trim_list_idem flip: trim_list_def)
qed

lemmas text_eval =
  is_cont_def char_count_def is_whitespace_def trim_start_def trim_end_def trim_def
  split_whitespace_def starts_with_def strip_prefix_def ends_with_def str_contains.simps
  split_str_def split_at.simps split_once_def first_line_def to_ascii_lowercase_def

declare text_eval [text_simps]

text \<open>Decimal digits of a count, as \<^verbatim>\<open>format!\<close> writes them.\<close>

fun show_nat :: "nat \<Rightarrow> string" where
  "show_nat n = (if n < 10 then [char_of (48 + n)] else show_nat (n div 10) @ [char_of (48 + n mod 10)])"

declare show_nat.simps [simp del]

definition show_int :: "int \<Rightarrow> string" where
  "show_int i = (if i < 0 then ''-'' @ show_nat (nat (- i)) else show_nat (nat i))"

section \<open>Ordered maps\<close>

type_synonym ('k, 'v) btree_map = "('k \<times> 'v) list"

definition btm_ok :: "('k::linorder, 'v) btree_map \<Rightarrow> bool" where
  "btm_ok m \<longleftrightarrow> sorted_wrt (<) (map fst m)"

fun btm_insert :: "'k::linorder \<Rightarrow> 'v \<Rightarrow> ('k, 'v) btree_map \<Rightarrow> ('k, 'v) btree_map" where
  "btm_insert k v [] = [(k, v)]"
| "btm_insert k v ((k', v') # m) =
     (if k < k' then (k, v) # (k', v') # m
      else if k = k' then (k, v) # m
      else (k', v') # btm_insert k v m)"

lemma map_of_btm_insert [simp, btm_simps]:
  "map_of (btm_insert k v m) = (map_of m)(k \<mapsto> v)"
  by (induction m) (auto simp: fun_eq_iff)

lemma set_keys_btm_insert [simp]: "fst ` set (btm_insert k v m) = insert k (fst ` set m)"
  by (simp add: dom_map_of_conv_image_fst [symmetric])

lemma btm_ok_Nil [simp]: "btm_ok []"
  by (simp add: btm_ok_def)

lemma btm_ok_Cons: "btm_ok ((k, v) # m) \<longleftrightarrow> (\<forall>k' \<in> fst ` set m. k < k') \<and> btm_ok m"
  by (simp add: btm_ok_def)

lemma btm_ok_insert [simp, intro]: "btm_ok m \<Longrightarrow> btm_ok (btm_insert k v m)"
proof (induction k v m rule: btm_insert.induct)
  case (1 k v)
  show ?case by (simp add: btm_ok_Cons)
next
  case (2 k v k' v' m)
  consider "k < k'" | "k = k'" | "k' < k" by (rule linorder_cases)
  then show ?case
  proof cases
    case 1
    with 2 show ?thesis by (simp add: btm_ok_Cons) (metis order.strict_trans)
  next
    case 2
    with \<open>btm_ok ((k', v') # m)\<close> show ?thesis by (simp add: btm_ok_Cons)
  next
    case 3
    then have "\<not> k < k'" "k \<noteq> k'" by auto
    with 2 \<open>k' < k\<close> show ?thesis by (simp add: btm_ok_Cons del: set_map)
  qed
qed

lemma btm_ok_distinct: "btm_ok m \<Longrightarrow> distinct (map fst m)"
  by (simp add: btm_ok_def strict_sorted_iff)

lemma btm_in_set_iff: "btm_ok m \<Longrightarrow> (k, v) \<in> set m \<longleftrightarrow> map_of m k = Some v"
  by (simp add: btm_ok_distinct map_of_eq_Some_iff)

text \<open>Two ordered maps with the same lookups are the same list.\<close>

lemma map_of_keys_eq:
  assumes "distinct (map fst m)"
  shows "map (\<lambda>k. (k, the (map_of m k))) (map fst m) = m"
  unfolding map_map
  by (rule map_idI) (use assms in \<open>auto simp: map_of_eq_Some_iff\<close>)

lemma btm_ext:
  assumes "btm_ok m" "btm_ok n" "map_of m = map_of n"
  shows "m = n"
proof -
  have "map fst m = map fst n"
  proof (rule sorted_distinct_set_unique)
    show "set (map fst m) = set (map fst n)"
      using assms(3) by (metis dom_map_of_conv_image_fst list.set_map)
  qed (use assms in \<open>simp_all add: btm_ok_def strict_sorted_iff\<close>)
  then show ?thesis
    using assms by (metis btm_ok_distinct map_of_keys_eq)
qed

text \<open>One column of a table, under the keys of the rows.\<close>

definition column :: "('v \<Rightarrow> 'c) \<Rightarrow> ('k, 'v) btree_map \<Rightarrow> ('k, 'c) btree_map" where
  "column g m = map (\<lambda>(k, v). (k, g v)) m"

lemma map_of_column: "map_of (column g m) k = map_option g (map_of m k)"
  unfolding column_def by (induction m) auto

lemma keys_column [simp]: "map fst (column g m) = map fst m"
  by (simp add: column_def comp_def split_beta)

lemma values_column: "map snd (column g m) = map g (map snd m)"
  by (simp add: column_def split_beta)

lemma btm_ok_column [simp]: "btm_ok (column g m) \<longleftrightarrow> btm_ok m"
  by (simp add: btm_ok_def)

lemma column_update:
  assumes "btm_ok m" "map_of m k = Some v" "g v' = g v"
  shows "column g (btm_insert k v' m) = column g m"
  by (rule btm_ext) (use assms in \<open>auto simp: map_of_column\<close>)

lemma column_btm_insert: "column f (btm_insert k v m) = btm_insert k (f v) (column f m)"
  by (induction k v m rule: btm_insert.induct) (simp_all add: column_def)

lemma column_comp: "column h (column g m) = column (h \<circ> g) m"
  by (simp add: column_def comp_def split_beta)

lemma sum_update:
  fixes g :: "'v \<Rightarrow> int"
  shows "btm_ok m \<Longrightarrow> map_of m k = Some v \<Longrightarrow>
    sum_list (map (g \<circ> snd) (btm_insert k v' m)) = sum_list (map (g \<circ> snd) m) + g v' - g v"
proof (induction k v' m rule: btm_insert.induct)
  case (2 k v' k0 v0 m)
  have "map_of m k \<noteq> Some v" if "k < k0"
    using 2(2) that by (force simp: btm_ok_Cons dest: map_of_SomeD)
  with 2 show ?case by (auto simp: btm_ok_Cons split: if_splits)
qed simp

lemma btm_insert_last:
  "\<forall>k' \<in> fst ` set m. k' < k \<Longrightarrow> btm_insert k v m = m @ [(k, v)]"
  by (induction m) auto

section \<open>Tables\<close>

text \<open>
  A table is the list of its rows in insertion order. \<open>update_where\<close> is
  \<^verbatim>\<open>UPDATE t SET f WHERE P\<close>; \<^verbatim>\<open>SELECT\<close> is \<open>filter\<close>, \<open>find\<close> for one
  optional row, and \<open>sort_key\<close> (stable) for \<^verbatim>\<open>ORDER BY\<close>.
\<close>

definition update_where :: "('r \<Rightarrow> bool) \<Rightarrow> ('r \<Rightarrow> 'r) \<Rightarrow> 'r list \<Rightarrow> 'r list" where
  "update_where P f rows = map (\<lambda>r. if P r then f r else r) rows"

lemma length_update_where [simp]: "length (update_where P f rows) = length rows"
  by (simp add: update_where_def)

lemma set_update_where:
  "set (update_where P f rows) = f ` {r \<in> set rows. P r} \<union> {r \<in> set rows. \<not> P r}"
  by (auto simp: update_where_def)

lemma update_where_append [simp]:
  "update_where P f (xs @ ys) = update_where P f xs @ update_where P f ys"
  by (simp add: update_where_def)

lemma map_update_where:
  "(\<And>r. r \<in> set rows \<Longrightarrow> P r \<Longrightarrow> g (f r) = g r) \<Longrightarrow> map g (update_where P f rows) = map g rows"
  by (auto simp: update_where_def)

lemma find_Some_in: "find P xs = Some x \<Longrightarrow> x \<in> set xs \<and> P x"
  by (metis find_Some_iff nth_mem)

lemma find_unique:
  assumes "distinct (map g xs)" "x \<in> set xs"
  shows "find (\<lambda>y. g y = g x) xs = Some x"
  using assms by (induction xs) (auto simp: image_iff)

lemma find_None_notin: "find P xs = None \<longleftrightarrow> (\<forall>x \<in> set xs. \<not> P x)"
  by (auto simp: find_None_iff)

end
