(* ===== verification/Plans_Model.thy ===== *)
theory Plans_Model
  imports Prelude
begin

text \<open>
  The data of published plans (\<^verbatim>\<open>plans/model.rs\<close>), their input validation
  (\<^verbatim>\<open>plans.rs\<close>, \<^verbatim>\<open>plans/phases.rs\<close>, \<^verbatim>\<open>plans/guidance.rs\<close>) and the tables the plan service
  reads and writes. Timestamps and identifiers are opaque numbers; statuses and kinds are the
  strings the code stores. The generator of random identifiers and the textual form of an
  identifier belong to a library: they are parameters, the fields of \<open>plan_env\<close>.
\<close>

section \<open>Rows and inputs\<close>

type_synonym uuid = nat
type_synonym timestamp = int

record plan_actor =
  ac_kind :: string
  ac_pty_session_id :: "uuid option"
  ac_agent_session_uuid :: "uuid option"

datatype boundary_source = UserRequirement | UserCorrection | AgentProposal

record plan_boundary =
  bd_source :: boundary_source
  bd_text :: string

record plan_guidance =
  gd_outcome :: string
  gd_principles :: "string list"
  gd_assumptions :: "string list"
  gd_boundaries :: "plan_boundary list"

definition default_guidance :: plan_guidance where
  "default_guidance = \<lparr>gd_outcome = [], gd_principles = [], gd_assumptions = [], gd_boundaries = []\<rparr>"

record new_phase =
  np_title :: string
  np_description :: string
  np_status :: "string option"
  np_size :: "string option"

record create_plan_input =
  ci_repo_name :: string
  ci_title :: string
  ci_summary :: string
  ci_guidance :: plan_guidance
  ci_phases :: "new_phase list"
  ci_all_pending :: bool
  ci_attach_current_pty :: bool

record branch_plan_input =
  bi_title :: string
  bi_summary :: string
  bi_guidance :: plan_guidance
  bi_phases :: "new_phase list"
  bi_all_pending :: bool
  bi_parent_phase_refs :: "string list"
  bi_note :: "string option"

record update_plan_input =
  ui_title :: "string option"
  ui_summary :: "string option"
  ui_outcome :: "string option"
  ui_principles :: "string list option"
  ui_assumptions :: "string list option"
  ui_boundaries :: "plan_boundary list option"
  ui_status :: "string option"
  ui_note :: "string option"
  ui_skip_remaining :: bool
  ui_require_branch :: bool

record update_phase_input =
  up_title :: "string option"
  up_description :: "string option"
  up_status :: "string option"
  up_status_note :: "string option"
  up_position :: "int option"
  up_size :: "string option"

record phase_row =
  ph_id :: uuid
  ph_plan_id :: uuid
  ph_position :: int
  ph_title :: string
  ph_description :: string
  ph_status :: string
  ph_status_note :: "string option"
  ph_size :: "string option"
  ph_started_at :: "timestamp option"
  ph_completed_at :: "timestamp option"
  ph_created_at :: timestamp
  ph_updated_at :: timestamp

record plan_row =
  pl_id :: uuid
  pl_repo_name :: string
  pl_title :: string
  pl_summary :: string
  pl_guidance :: plan_guidance
  pl_status :: string
  pl_revision :: int
  pl_parent_plan_id :: "uuid option"
  pl_root_plan_id :: uuid
  pl_depth :: int
  pl_created_by_pty_id :: "uuid option"
  pl_created_by_agent_session_uuid :: "uuid option"
  pl_created_at :: timestamp
  pl_updated_at :: timestamp
  pl_closed_at :: "timestamp option"

record attachment_row =
  at_id :: uuid
  at_plan_id :: uuid
  at_pty_session_id :: uuid
  at_agent_session_uuid :: "uuid option"
  at_attached_at :: timestamp
  at_detached_at :: "timestamp option"

record plan_event_row =
  ev_plan_id :: uuid
  ev_phase_id :: "uuid option"
  ev_event_type :: string
  ev_actor_kind :: string
  ev_pty_session_id :: "uuid option"
  ev_agent_session_uuid :: "uuid option"
  ev_from_status :: "string option"
  ev_to_status :: "string option"
  ev_note :: "string option"
  ev_guidance_before :: "plan_guidance option"
  ev_guidance_after :: "plan_guidance option"
  ev_created_at :: timestamp

record pty_row =
  pt_id :: uuid
  pt_repo :: string
  pt_state :: string
  pt_current_session_uuid :: "uuid option"

text \<open>
  The tables of the plan service. \<open>db_drawn\<close> counts the identifiers drawn from the generator.
\<close>

record plan_db =
  db_plans :: "plan_row list"
  db_phases :: "phase_row list"
  db_attachments :: "attachment_row list"
  db_events :: "plan_event_row list"
  db_anchors :: "(uuid \<times> uuid) list"
  db_ptys :: "pty_row list"
  db_drawn :: nat

text \<open>
  What an operation gets from outside: the transaction's \<^verbatim>\<open>NOW()\<close>, the stream of random
  identifiers (\<^verbatim>\<open>Uuid::new_v4\<close>), \<^verbatim>\<open>Uuid::parse_str\<close> and an identifier's textual form.
\<close>

record plan_env =
  env_now :: timestamp
  env_draw :: "nat \<Rightarrow> uuid"
  env_parse_uuid :: "string \<Rightarrow> uuid option"
  env_show_uuid :: "uuid \<Rightarrow> string"

datatype plan_error =
    InvalidActorKind string
  | TextRequired string
  | TextTooLong string nat
  | TooManyEntries string
  | InvalidPlanStatus string
  | InvalidPhaseStatus string
  | InvalidPhaseSize string
  | NoPhases
  | PlanNotFound uuid
  | PlanClosed string
  | PhaseNotFound uuid
  | PhaseReferenceNotFound string
  | PhaseNotFoundAtPosition int
  | BadPhaseReference
  | NoPhaseInProgress
  | NotABranch
  | OpenBranches "string list"
  | UnfinishedPhases nat
  | BranchTooDeep int
  | PtyNotLive uuid
  | RepoMismatch string string
  | NoPlanAttached
  | PlanNotInRepo uuid
  | RowNotFound

section \<open>Input validation\<close>

definition MAX_TITLE_CHARS :: nat where "MAX_TITLE_CHARS = 160"
definition MAX_SUMMARY_CHARS :: nat where "MAX_SUMMARY_CHARS = 1000"
definition MAX_DESCRIPTION_CHARS :: nat where "MAX_DESCRIPTION_CHARS = 1000"
definition MAX_NOTE_CHARS :: nat where "MAX_NOTE_CHARS = 1000"
definition MAX_BRANCH_DEPTH :: int where "MAX_BRANCH_DEPTH = 8"

lemmas plan_limits = MAX_TITLE_CHARS_def MAX_SUMMARY_CHARS_def MAX_DESCRIPTION_CHARS_def
  MAX_NOTE_CHARS_def MAX_BRANCH_DEPTH_def

definition validate_actor :: "plan_actor \<Rightarrow> plan_error + unit" where
  "validate_actor a =
     guard (ac_kind a \<in> {''agent'', ''user'', ''system''}) (InvalidActorKind (ac_kind a))"

definition limited_text :: "string \<Rightarrow> string \<Rightarrow> nat \<Rightarrow> plan_error + string" where
  "limited_text v label max_chars =
     (let v = trim v in
      if char_count v > max_chars then Inl (TextTooLong label max_chars) else Inr v)"

definition required_text :: "string \<Rightarrow> string \<Rightarrow> nat \<Rightarrow> plan_error + string" where
  "required_text v label max_chars =
     (let v = trim v in
      if v = [] then Inl (TextRequired label) else limited_text v label max_chars)"

definition clean_note :: "string option \<Rightarrow> plan_error + string option" where
  "clean_note v =
     (case v of
        None \<Rightarrow> Inr None
      | Some v \<Rightarrow> res_bind (limited_text v ''note'' MAX_NOTE_CHARS)
          (\<lambda>t. Inr (if t = [] then None else Some t)))"

definition validate_plan_status :: "string \<Rightarrow> plan_error + unit" where
  "validate_plan_status s =
     guard (s \<in> {''active'', ''paused'', ''completed'', ''canceled''}) (InvalidPlanStatus s)"

definition validate_phase_status :: "string \<Rightarrow> plan_error + unit" where
  "validate_phase_status s =
     guard (s \<in> {''pending'', ''in_progress'', ''blocked'', ''completed'', ''skipped''})
       (InvalidPhaseStatus s)"

definition validate_phase_size :: "string option \<Rightarrow> plan_error + string option" where
  "validate_phase_size sz =
     (case sz of
        None \<Rightarrow> Inr None
      | Some raw \<Rightarrow>
          (let normalized = to_ascii_lowercase (trim raw) in
           if normalized = [] then Inr None
           else if normalized \<in> {''s'', ''m'', ''l''} then Inr (Some normalized)
           else Inl (InvalidPhaseSize raw)))"

definition initial_phase_status :: "string option \<Rightarrow> nat \<Rightarrow> bool \<Rightarrow> plan_error + string" where
  "initial_phase_status requested index all_pending =
     (let status = (case requested of
          Some s \<Rightarrow> s
        | None \<Rightarrow> if index = 0 \<and> \<not> all_pending then ''in_progress'' else ''pending'')
      in res_bind (validate_phase_status status) (\<lambda>_. Inr status))"

text \<open>Title, description, initial status and size, ready to insert.\<close>

type_synonym checked_phase = "string \<times> string \<times> string \<times> string option"

definition check_phase :: "bool \<Rightarrow> nat \<times> new_phase \<Rightarrow> plan_error + checked_phase" where
  "check_phase all_pending = (\<lambda>(index, phase).
     res_bind (required_text (np_title phase) ''phase title'' MAX_TITLE_CHARS) (\<lambda>title.
     res_bind (limited_text (np_description phase) ''phase description'' MAX_DESCRIPTION_CHARS)
       (\<lambda>description.
     res_bind (initial_phase_status (np_status phase) index all_pending) (\<lambda>status.
     res_bind (validate_phase_size (np_size phase)) (\<lambda>size.
       Inr (title, description, status, size))))))"

definition validate_new_phases :: "new_phase list \<Rightarrow> bool \<Rightarrow> plan_error + checked_phase list" where
  "validate_new_phases phases all_pending =
     (if phases = [] then Inl NoPhases
      else res_map (check_phase all_pending) (enumerate 0 phases))"

definition validate_items :: "string list \<Rightarrow> string \<Rightarrow> plan_error + string list" where
  "validate_items items label =
     (if length items > 10 then Inl (TooManyEntries label)
      else res_map (\<lambda>item. required_text item label 500) items)"

definition guidance_validated :: "plan_guidance \<Rightarrow> plan_error + plan_guidance" where
  "guidance_validated g =
     (if length (gd_boundaries g) > 10 then Inl (TooManyEntries ''boundary'')
      else
        res_bind (limited_text (gd_outcome g) ''outcome'' 1000) (\<lambda>outcome.
        res_bind (validate_items (gd_principles g) ''principle'') (\<lambda>principles.
        res_bind (validate_items (gd_assumptions g) ''assumption'') (\<lambda>assumptions.
        res_bind (res_map (\<lambda>b. res_bind (required_text (bd_text b) ''boundary'' 500)
             (\<lambda>t. Inr \<lparr>bd_source = bd_source b, bd_text = t\<rparr>)) (gd_boundaries g)) (\<lambda>boundaries.
          Inr \<lparr>gd_outcome = outcome, gd_principles = principles, gd_assumptions = assumptions,
               gd_boundaries = boundaries\<rparr>)))))"

definition guidance_with_update ::
  "plan_guidance \<Rightarrow> update_plan_input \<Rightarrow> plan_error + plan_guidance" where
  "guidance_with_update g i = guidance_validated
     \<lparr>gd_outcome = (case ui_outcome i of None \<Rightarrow> gd_outcome g | Some v \<Rightarrow> v),
      gd_principles = (case ui_principles i of None \<Rightarrow> gd_principles g | Some v \<Rightarrow> v),
      gd_assumptions = (case ui_assumptions i of None \<Rightarrow> gd_assumptions g | Some v \<Rightarrow> v),
      gd_boundaries = (case ui_boundaries i of None \<Rightarrow> gd_boundaries g | Some v \<Rightarrow> v)\<rparr>"

text \<open>\<^verbatim>\<open>str::parse::<i32>\<close>: an optional sign, at least one decimal digit, in range.\<close>

definition digit_value :: "char \<Rightarrow> int option" where
  "digit_value c = (let n = of_char c :: int in if 48 \<le> n \<and> n \<le> 57 then Some (n - 48) else None)"

fun digits_value :: "int \<Rightarrow> string \<Rightarrow> int option" where
  "digits_value acc [] = Some acc"
| "digits_value acc (c # s) =
     (case digit_value c of None \<Rightarrow> None | Some d \<Rightarrow> digits_value (10 * acc + d) s)"

definition parse_i32 :: "string \<Rightarrow> int option" where
  "parse_i32 s =
     (let (neg, ds) = (case s of
          [] \<Rightarrow> (False, [])
        | c # cs \<Rightarrow> if c = CHR ''-'' then (True, cs) else if c = CHR ''+'' then (False, cs)
                   else (False, s))
      in if ds = [] then None
         else case digits_value 0 ds of
             None \<Rightarrow> None
           | Some n \<Rightarrow>
               (let v = (if neg then - n else n)
                in if - (2 ^ 31) \<le> v \<and> v < 2 ^ 31 then Some v else None))"

end
