(* ===== verification/Plans_Ops.thy ===== *)
theory Plans_Ops
  imports Plans_Model
begin

text \<open>
  The operations of the plan service (\<^verbatim>\<open>plans.rs\<close>, \<^verbatim>\<open>plans/phases.rs\<close>,
  \<^verbatim>\<open>plans/branches.rs\<close>). Each statement of the code is one step on the tables; a function that
  runs inside a transaction is a function \<open>plan_db \<Rightarrow> plan_error + plan_db\<close>, and an error
  anywhere in it leaves the committed tables as they were (\<open>commit\<close>).
  Where the code orders rows by a time, rows of one transaction share their \<^verbatim>\<open>NOW()\<close>; the model
  keeps such rows in insertion order.
\<close>

section \<open>Steps inside a transaction\<close>

definition plan_open_status :: "string \<Rightarrow> bool" where
  "plan_open_status s \<longleftrightarrow> s = ''active'' \<or> s = ''paused''"

definition plan_closed_status :: "string \<Rightarrow> bool" where
  "plan_closed_status s \<longleftrightarrow> s = ''completed'' \<or> s = ''canceled''"

definition phase_done_status :: "string \<Rightarrow> bool" where
  "phase_done_status s \<longleftrightarrow> s = ''completed'' \<or> s = ''skipped''"

definition find_plan :: "plan_db \<Rightarrow> uuid \<Rightarrow> plan_row option" where
  "find_plan db pid = find (\<lambda>p. pl_id p = pid) (db_plans db)"

definition plan_phases_of :: "plan_db \<Rightarrow> uuid \<Rightarrow> phase_row list" where
  "plan_phases_of db pid = filter (\<lambda>ph. ph_plan_id ph = pid) (db_phases db)"

definition find_live_pty :: "plan_db \<Rightarrow> uuid \<Rightarrow> pty_row option" where
  "find_live_pty db pty = find (\<lambda>r. pt_id r = pty \<and> pt_state r = ''live'') (db_ptys db)"

definition new_v4 :: "plan_env \<Rightarrow> plan_db \<Rightarrow> uuid \<times> plan_db" where
  "new_v4 env db = (env_draw env (db_drawn db), db\<lparr>db_drawn := Suc (db_drawn db)\<rparr>)"

definition insert_event ::
  "plan_env \<Rightarrow> uuid \<Rightarrow> uuid option \<Rightarrow> string \<Rightarrow> plan_actor \<Rightarrow> string option \<Rightarrow> string option \<Rightarrow>
   string option \<Rightarrow> plan_db \<Rightarrow> plan_db" where
  "insert_event env pid phase_id event_type actor from_status to_status note db =
     db\<lparr>db_events := db_events db @
       [\<lparr>ev_plan_id = pid, ev_phase_id = phase_id, ev_event_type = event_type,
         ev_actor_kind = ac_kind actor, ev_pty_session_id = ac_pty_session_id actor,
         ev_agent_session_uuid = ac_agent_session_uuid actor, ev_from_status = from_status,
         ev_to_status = to_status, ev_note = note, ev_guidance_before = None,
         ev_guidance_after = None, ev_created_at = env_now env\<rparr>]\<rparr>"

definition record_change ::
  "plan_env \<Rightarrow> uuid \<Rightarrow> plan_actor \<Rightarrow> plan_guidance option \<Rightarrow> plan_guidance \<Rightarrow> string option \<Rightarrow>
   plan_db \<Rightarrow> plan_db" where
  "record_change env pid actor before after note db =
     (if before = Some after \<or> (before = None \<and> after = default_guidance) then db
      else db\<lparr>db_events := db_events db @
       [\<lparr>ev_plan_id = pid, ev_phase_id = None, ev_event_type = ''guidance_changed'',
         ev_actor_kind = ac_kind actor, ev_pty_session_id = ac_pty_session_id actor,
         ev_agent_session_uuid = ac_agent_session_uuid actor, ev_from_status = None,
         ev_to_status = None, ev_note = note, ev_guidance_before = before,
         ev_guidance_after = Some after, ev_created_at = env_now env\<rparr>]\<rparr>)"

definition bump_revision :: "plan_env \<Rightarrow> uuid \<Rightarrow> plan_db \<Rightarrow> plan_db" where
  "bump_revision env pid db = db\<lparr>db_plans := update_where (\<lambda>p. pl_id p = pid)
     (\<lambda>p. p\<lparr>pl_revision := pl_revision p + 1, pl_updated_at := env_now env\<rparr>) (db_plans db)\<rparr>"

definition ensure_plan_open :: "uuid \<Rightarrow> plan_db \<Rightarrow> plan_error + unit" where
  "ensure_plan_open pid db =
     res_bind (ok_or (find_plan db pid) (PlanNotFound pid)) (\<lambda>p.
       guard (\<not> plan_closed_status (pl_status p)) (PlanClosed (pl_status p)))"

definition insert_plan ::
  "plan_env \<Rightarrow> uuid \<Rightarrow> string \<Rightarrow> string \<Rightarrow> string \<Rightarrow> plan_guidance \<Rightarrow> uuid option \<Rightarrow> uuid \<Rightarrow> int \<Rightarrow>
   plan_actor \<Rightarrow> plan_db \<Rightarrow> plan_db" where
  "insert_plan env pid repo title summary g parent root depth actor db =
     (let db = db\<lparr>db_plans := db_plans db @
            [\<lparr>pl_id = pid, pl_repo_name = repo, pl_title = title, pl_summary = summary,
              pl_guidance = g, pl_status = ''active'', pl_revision = 1,
              pl_parent_plan_id = parent, pl_root_plan_id = root, pl_depth = depth,
              pl_created_by_pty_id = ac_pty_session_id actor,
              pl_created_by_agent_session_uuid = ac_agent_session_uuid actor,
              pl_created_at = env_now env, pl_updated_at = env_now env, pl_closed_at = None\<rparr>]\<rparr>;
          db = insert_event env pid None
            (if parent \<noteq> None then ''branch_created'' else ''plan_created'') actor None
            (Some ''active'') None db
      in record_change env pid actor None g None db)"

definition insert_phase ::
  "plan_env \<Rightarrow> uuid \<Rightarrow> plan_actor \<Rightarrow> nat \<times> checked_phase \<Rightarrow> plan_db \<Rightarrow> plan_db" where
  "insert_phase env pid actor = (\<lambda>(index, (title, description, status, sz)) db.
     (let (phase_id, db) = new_v4 env db;
          db = db\<lparr>db_phases := db_phases db @
            [\<lparr>ph_id = phase_id, ph_plan_id = pid, ph_position = int index + 1, ph_title = title,
              ph_description = description, ph_status = status, ph_status_note = None,
              ph_size = sz,
              ph_started_at = (if status = ''in_progress'' then Some (env_now env) else None),
              ph_completed_at = None, ph_created_at = env_now env, ph_updated_at = env_now env\<rparr>]\<rparr>
      in insert_event env pid (Some phase_id) ''phase_added'' actor None (Some status) None db))"

definition insert_phases ::
  "plan_env \<Rightarrow> uuid \<Rightarrow> checked_phase list \<Rightarrow> plan_actor \<Rightarrow> plan_db \<Rightarrow> plan_db" where
  "insert_phases env pid phases actor db = fold (insert_phase env pid actor) (enumerate 0 phases) db"

text \<open>The attachment of a PTY: the row not yet detached.\<close>

definition active_attachment :: "plan_db \<Rightarrow> uuid \<Rightarrow> attachment_row option" where
  "active_attachment db pty =
     find (\<lambda>a. at_pty_session_id a = pty \<and> at_detached_at a = None) (db_attachments db)"

definition detach_where :: "plan_env \<Rightarrow> (attachment_row \<Rightarrow> bool) \<Rightarrow> plan_db \<Rightarrow> plan_db" where
  "detach_where env P db = db\<lparr>db_attachments :=
     update_where (\<lambda>a. P a \<and> at_detached_at a = None)
       (\<lambda>a. a\<lparr>at_detached_at := Some (env_now env)\<rparr>) (db_attachments db)\<rparr>"

definition attach_row :: "plan_env \<Rightarrow> uuid \<Rightarrow> uuid \<Rightarrow> uuid option \<Rightarrow> plan_db \<Rightarrow> plan_db" where
  "attach_row env pid pty session db =
     (let (aid, db) = new_v4 env db
      in db\<lparr>db_attachments := db_attachments db @
        [\<lparr>at_id = aid, at_plan_id = pid, at_pty_session_id = pty,
          at_agent_session_uuid = session, at_attached_at = env_now env, at_detached_at = None\<rparr>]\<rparr>)"

definition attach_in_tx ::
  "plan_env \<Rightarrow> uuid \<Rightarrow> uuid \<Rightarrow> plan_actor \<Rightarrow> bool \<Rightarrow> plan_db \<Rightarrow> plan_error + plan_db" where
  "attach_in_tx env pid pty actor bump db =
     res_bind (ok_or (find_plan db pid) RowNotFound) (\<lambda>p.
     res_bind (ok_or (find_live_pty db pty) (PtyNotLive pty)) (\<lambda>r.
       if pt_repo r \<noteq> pl_repo_name p then Inl (RepoMismatch (pt_repo r) (pl_repo_name p))
       else let existing = map_option at_plan_id (active_attachment db pty) in
         if existing = Some pid then Inr db
         else
           let db = (case existing of
                 None \<Rightarrow> db
               | Some old \<Rightarrow>
                   insert_event env old None ''plan_detached'' actor None None
                     (Some (''PTY '' @ env_show_uuid env pty @ '' attached to another plan''))
                     (bump_revision env old
                       (detach_where env (\<lambda>a. at_pty_session_id a = pty) db)));
               db = attach_row env pid pty (pt_current_session_uuid r) db;
               db = (if bump then bump_revision env pid db else db)
           in Inr (insert_event env pid None ''plan_attached'' actor None None
                     (Some (''PTY '' @ env_show_uuid env pty)) db)))"

section \<open>Reads\<close>

definition anchor_phase_ids :: "plan_db \<Rightarrow> uuid \<Rightarrow> uuid list" where
  "anchor_phase_ids db pid =
     map ph_id (sort_key ph_position
       (concat (map (\<lambda>(_, phid). filter (\<lambda>ph. ph_id ph = phid) (db_phases db))
          (filter (\<lambda>(branch, _). branch = pid) (db_anchors db)))))"

text \<open>
  The recursive query behind the breadcrumb: the row, then its parent, and so on. Nothing in the
  query bounds it, so not returning is the value \<open>None\<close>.
\<close>

partial_function (option) ancestor_chain :: "plan_row list \<Rightarrow> uuid \<Rightarrow> plan_row list option" where
  "ancestor_chain plans pid =
     (case find (\<lambda>p. pl_id p = pid) plans of
        None \<Rightarrow> Some []
      | Some p \<Rightarrow>
          (case pl_parent_plan_id p of
             None \<Rightarrow> Some [p]
           | Some parent \<Rightarrow> Option.bind (ancestor_chain plans parent) (\<lambda>ps. Some (p # ps))))"

declare ancestor_chain.simps [code]

type_synonym ancestor_view = "uuid \<times> string \<times> string \<times> int \<times> int \<times> plan_guidance"

definition ancestors :: "plan_db \<Rightarrow> uuid \<Rightarrow> ancestor_view list option" where
  "ancestors db pid = map_option (\<lambda>chain.
     map (\<lambda>p. (pl_id p, pl_title p, pl_status p, pl_depth p, pl_revision p, pl_guidance p))
       (sort_key pl_depth (filter (\<lambda>p. pl_id p \<noteq> pid) chain)))
     (ancestor_chain (db_plans db) pid)"

record branch_view =
  bv_id :: uuid
  bv_title :: string
  bv_summary :: string
  bv_status :: string
  bv_depth :: int
  bv_total_phases :: nat
  bv_completed_phases :: nat
  bv_anchor_phase_ids :: "uuid list"

definition count_phases :: "plan_db \<Rightarrow> uuid \<Rightarrow> (string \<Rightarrow> bool) \<Rightarrow> nat" where
  "count_phases db pid P = length (filter (\<lambda>ph. P (ph_status ph)) (plan_phases_of db pid))"

definition branch_views :: "plan_db \<Rightarrow> uuid \<Rightarrow> branch_view list" where
  "branch_views db pid =
     map (\<lambda>c. \<lparr>bv_id = pl_id c, bv_title = pl_title c, bv_summary = pl_summary c,
          bv_status = pl_status c, bv_depth = pl_depth c,
          bv_total_phases = count_phases db (pl_id c) (\<lambda>_. True),
          bv_completed_phases = count_phases db (pl_id c) phase_done_status,
          bv_anchor_phase_ids = anchor_phase_ids db (pl_id c)\<rparr>)
       (sort_key (\<lambda>c. (if plan_open_status (pl_status c) then 0 else 1 :: int, pl_created_at c))
          (filter (\<lambda>c. pl_parent_plan_id c = Some pid) (db_plans db)))"

definition active_attachments_of :: "plan_db \<Rightarrow> uuid \<Rightarrow> attachment_row list" where
  "active_attachments_of db pid =
     sort_key at_attached_at
       (filter (\<lambda>a. at_plan_id a = pid \<and> at_detached_at a = None) (db_attachments db))"

record tree_node_view =
  tn_id :: uuid
  tn_title :: string
  tn_status :: string
  tn_depth :: int
  tn_parent_plan_id :: "uuid option"
  tn_total_phases :: nat
  tn_completed_phases :: nat
  tn_blocked_phases :: nat
  tn_attached_pty_ids :: "uuid list"

definition plan_tree :: "plan_db \<Rightarrow> uuid \<Rightarrow> plan_error + tree_node_view list" where
  "plan_tree db pid =
     res_bind (ok_or (find_plan db pid) (PlanNotFound pid)) (\<lambda>p0.
       Inr (map (\<lambda>p. \<lparr>tn_id = pl_id p, tn_title = pl_title p, tn_status = pl_status p,
              tn_depth = pl_depth p, tn_parent_plan_id = pl_parent_plan_id p,
              tn_total_phases = count_phases db (pl_id p) (\<lambda>_. True),
              tn_completed_phases = count_phases db (pl_id p) phase_done_status,
              tn_blocked_phases = count_phases db (pl_id p) (\<lambda>s. s = ''blocked''),
              tn_attached_pty_ids =
                map at_pty_session_id (active_attachments_of db (pl_id p))\<rparr>)
         (sort_key (\<lambda>p. (pl_depth p, pl_created_at p))
           (filter (\<lambda>p. pl_root_plan_id p = pl_root_plan_id p0) (db_plans db)))))"

record plan_view =
  pv_row :: plan_row
  pv_phases :: "phase_row list"
  pv_attachments :: "attachment_row list"
  pv_anchor_phase_ids :: "uuid list"
  pv_ancestors :: "ancestor_view list"
  pv_branches :: "branch_view list"

definition hydrate :: "plan_db \<Rightarrow> plan_row \<Rightarrow> plan_view option" where
  "hydrate db row = map_option
     (\<lambda>ancs. \<lparr>pv_row = row, pv_phases = sort_key ph_position (plan_phases_of db (pl_id row)),
        pv_attachments = active_attachments_of db (pl_id row),
        pv_anchor_phase_ids = anchor_phase_ids db (pl_id row), pv_ancestors = ancs,
        pv_branches = branch_views db (pl_id row)\<rparr>)
     (if pl_parent_plan_id row \<noteq> None then ancestors db (pl_id row) else Some [])"

definition plan_get :: "plan_db \<Rightarrow> uuid \<Rightarrow> (plan_error + plan_view) option" where
  "plan_get db pid =
     (case find_plan db pid of
        None \<Rightarrow> Some (Inl (PlanNotFound pid))
      | Some row \<Rightarrow> map_option Inr (hydrate db row))"

definition current_for_pty :: "plan_db \<Rightarrow> uuid \<Rightarrow> (plan_error + plan_view) option" where
  "current_for_pty db pty =
     (case active_attachment db pty of
        None \<Rightarrow> Some (Inl NoPlanAttached)
      | Some a \<Rightarrow> plan_get db (at_plan_id a))"

definition list_for_repo :: "plan_db \<Rightarrow> string \<Rightarrow> bool \<Rightarrow> plan_view list option" where
  "list_for_repo db repo include_closed =
     those (map (hydrate db)
       (sort_key (\<lambda>p. (if pl_status p = ''active'' then 0
                       else if pl_status p = ''paused'' then 1 else 2 :: int, - pl_updated_at p))
         (filter (\<lambda>p. pl_repo_name p = repo \<and> (include_closed \<or> plan_open_status (pl_status p)))
           (db_plans db))))"

text \<open>The phase the interface calls current: the first blocked phase, else the first in progress.\<close>

definition current_phase :: "plan_db \<Rightarrow> uuid \<Rightarrow> phase_row option" where
  "current_phase db pid =
     (case sort_key (\<lambda>ph. (if ph_status ph = ''blocked'' then 0 else 1 :: int, ph_position ph))
         (filter (\<lambda>ph. ph_status ph = ''in_progress'' \<or> ph_status ph = ''blocked'')
           (plan_phases_of db pid)) of
        [] \<Rightarrow> None
      | ph # _ \<Rightarrow> Some ph)"

record plan_summary_view =
  sv_row :: plan_row
  sv_total_phases :: nat
  sv_completed_phases :: nat
  sv_blocked_phases :: nat
  sv_current_phase :: "(uuid \<times> string \<times> string) option"
  sv_attached_pty_ids :: "uuid list"
  sv_open_branches :: nat

definition list_open_summaries :: "plan_db \<Rightarrow> plan_summary_view list" where
  "list_open_summaries db =
     map (\<lambda>p. \<lparr>sv_row = p,
          sv_total_phases = count_phases db (pl_id p) (\<lambda>_. True),
          sv_completed_phases = count_phases db (pl_id p) (\<lambda>s. s = ''completed''),
          sv_blocked_phases = count_phases db (pl_id p) (\<lambda>s. s = ''blocked''),
          sv_current_phase =
            map_option (\<lambda>ph. (ph_id ph, ph_title ph, ph_status ph)) (current_phase db (pl_id p)),
          sv_attached_pty_ids = map at_pty_session_id (active_attachments_of db (pl_id p)),
          sv_open_branches = length (filter (\<lambda>c. pl_parent_plan_id c = Some (pl_id p)
             \<and> plan_open_status (pl_status c)) (db_plans db))\<rparr>)
       (sort_key (\<lambda>p. (pl_repo_name p, - pl_updated_at p))
         (filter (\<lambda>p. plan_open_status (pl_status p)) (db_plans db)))"

definition plan_events :: "plan_db \<Rightarrow> uuid \<Rightarrow> plan_event_row list" where
  "plan_events db pid =
     sort_key (\<lambda>e. - ev_created_at e) (rev (filter (\<lambda>e. ev_plan_id e = pid) (db_events db)))"

definition resolve_plan_id ::
  "plan_db \<Rightarrow> uuid \<Rightarrow> uuid option \<Rightarrow> string \<Rightarrow> plan_error + uuid" where
  "resolve_plan_id db pty requested repo =
     res_bind (case requested of
         Some i \<Rightarrow> Inr i
       | None \<Rightarrow> ok_or (map_option at_plan_id (active_attachment db pty)) NoPlanAttached) (\<lambda>i.
     res_bind (guard (\<exists>p \<in> set (db_plans db). pl_id p = i \<and> pl_repo_name p = repo)
       (PlanNotInRepo i)) (\<lambda>_. Inr i))"

definition resolve_phase_id ::
  "plan_env \<Rightarrow> plan_db \<Rightarrow> uuid \<Rightarrow> string \<Rightarrow> plan_error + uuid" where
  "resolve_phase_id env db pid reference =
     (case env_parse_uuid env reference of
        Some i \<Rightarrow>
          ok_or (map_option ph_id (find (\<lambda>ph. ph_plan_id ph = pid \<and> ph_id ph = i) (db_phases db)))
            (PhaseReferenceNotFound reference)
      | None \<Rightarrow>
          res_bind (ok_or (parse_i32 reference) BadPhaseReference) (\<lambda>position.
            ok_or (map_option ph_id
                (find (\<lambda>ph. ph_plan_id ph = pid \<and> ph_position ph = position) (db_phases db)))
              (PhaseNotFoundAtPosition position)))"

section \<open>Operations\<close>

text \<open>
  A committed transaction's tables and the view read from them; a failed one changes nothing.
\<close>

definition commit ::
  "plan_db \<Rightarrow> plan_error + (uuid \<times> plan_db) \<Rightarrow> plan_db \<times> (plan_error + plan_view) option" where
  "commit db r =
     (case r of
        Inl e \<Rightarrow> (db, Some (Inl e))
      | Inr (pid, db') \<Rightarrow> (db', plan_get db' pid))"

definition create_tx ::
  "plan_env \<Rightarrow> create_plan_input \<Rightarrow> plan_actor \<Rightarrow> plan_db \<Rightarrow> plan_error + (uuid \<times> plan_db)" where
  "create_tx env i actor db =
     res_bind (validate_actor actor) (\<lambda>_.
     res_bind (required_text (ci_repo_name i) ''repo name'' MAX_TITLE_CHARS) (\<lambda>repo.
     res_bind (required_text (ci_title i) ''plan title'' MAX_TITLE_CHARS) (\<lambda>title.
     res_bind (limited_text (ci_summary i) ''plan summary'' MAX_SUMMARY_CHARS) (\<lambda>summary.
     res_bind (guidance_validated (ci_guidance i)) (\<lambda>g.
     res_bind (validate_new_phases (ci_phases i) (ci_all_pending i)) (\<lambda>phases.
       let (pid, db) = new_v4 env db;
           db = insert_plan env pid repo title summary g None pid 0 actor db;
           db = insert_phases env pid phases actor db
       in res_bind
            (case (ci_attach_current_pty i, ac_pty_session_id actor) of
               (True, Some pty) \<Rightarrow> attach_in_tx env pid pty actor False db
             | _ \<Rightarrow> Inr db)
            (\<lambda>db. Inr (pid, db))))))))"

definition plan_create ::
  "plan_env \<Rightarrow> create_plan_input \<Rightarrow> plan_actor \<Rightarrow> plan_db \<Rightarrow> plan_db \<times> (plan_error + plan_view) option"
  where "plan_create env i actor db = commit db (create_tx env i actor db)"

text \<open>Moving a phase shifts the phases between its old and its new position by one.\<close>

definition move_phase ::
  "plan_env \<Rightarrow> uuid \<Rightarrow> uuid \<Rightarrow> int \<Rightarrow> int \<Rightarrow> plan_db \<Rightarrow> plan_db" where
  "move_phase env pid phase_id old_position requested_position db =
     (let count = int (length (plan_phases_of db pid));
          new_position = max 1 (min count requested_position)
      in if new_position = old_position then db
         else
           let shifted = (if new_position < old_position
             then update_where (\<lambda>ph. ph_plan_id ph = pid \<and> new_position \<le> ph_position ph
                    \<and> ph_position ph < old_position \<and> ph_id ph \<noteq> phase_id)
                  (\<lambda>ph. ph\<lparr>ph_position := ph_position ph + 1, ph_updated_at := env_now env\<rparr>)
                  (db_phases db)
             else update_where (\<lambda>ph. ph_plan_id ph = pid \<and> old_position < ph_position ph
                    \<and> ph_position ph \<le> new_position \<and> ph_id ph \<noteq> phase_id)
                  (\<lambda>ph. ph\<lparr>ph_position := ph_position ph - 1, ph_updated_at := env_now env\<rparr>)
                  (db_phases db))
           in db\<lparr>db_phases := update_where (\<lambda>ph. ph_plan_id ph = pid \<and> ph_id ph = phase_id)
                  (\<lambda>ph. ph\<lparr>ph_position := new_position\<rparr>) shifted\<rparr>)"

definition next_position :: "plan_db \<Rightarrow> uuid \<Rightarrow> int" where
  "next_position db pid =
     (case plan_phases_of db pid of
        [] \<Rightarrow> 0
      | phs \<Rightarrow> Max (ph_position ` set phs)) + 1"

definition add_phase_tx ::
  "plan_env \<Rightarrow> uuid \<Rightarrow> new_phase \<Rightarrow> plan_actor \<Rightarrow> plan_db \<Rightarrow> plan_error + (uuid \<times> plan_db)" where
  "add_phase_tx env pid phase actor db =
     res_bind (validate_actor actor) (\<lambda>_.
     res_bind (required_text (np_title phase) ''phase title'' MAX_TITLE_CHARS) (\<lambda>title.
     res_bind (limited_text (np_description phase) ''phase description'' MAX_DESCRIPTION_CHARS)
       (\<lambda>description.
     let status = (case np_status phase of None \<Rightarrow> ''pending'' | Some s \<Rightarrow> s) in
     res_bind (validate_phase_status status) (\<lambda>_.
     res_bind (validate_phase_size (np_size phase)) (\<lambda>sz.
     res_bind (ensure_plan_open pid db) (\<lambda>_.
       let position = next_position db pid;
           (phase_id, db) = new_v4 env db;
           db = db\<lparr>db_phases := db_phases db @
             [\<lparr>ph_id = phase_id, ph_plan_id = pid, ph_position = position, ph_title = title,
               ph_description = description, ph_status = status, ph_status_note = None,
               ph_size = sz,
               ph_started_at = (if status = ''in_progress'' then Some (env_now env) else None),
               ph_completed_at = (if phase_done_status status then Some (env_now env) else None),
               ph_created_at = env_now env, ph_updated_at = env_now env\<rparr>]\<rparr>;
           db = bump_revision env pid db
       in Inr (pid, insert_event env pid (Some phase_id) ''phase_added'' actor None
                     (Some status) None db)))))))"

definition add_phase ::
  "plan_env \<Rightarrow> uuid \<Rightarrow> new_phase \<Rightarrow> plan_actor \<Rightarrow> plan_db \<Rightarrow>
   plan_db \<times> (plan_error + plan_view) option" where
  "add_phase env pid phase actor db = commit db (add_phase_tx env pid phase actor db)"

text \<open>The row an accepted phase update writes (its position is moved separately).\<close>

definition phase_updated ::
  "plan_env \<Rightarrow> string \<Rightarrow> string \<Rightarrow> string \<Rightarrow> string option \<Rightarrow> string option \<Rightarrow> phase_row \<Rightarrow> phase_row"
  where
  "phase_updated env title description status note sz ph = ph\<lparr>
     ph_title := title, ph_description := description, ph_status := status,
     ph_status_note := note, ph_size := sz,
     ph_started_at :=
       (if status = ''in_progress'' \<or> status = ''blocked''
        then (case ph_started_at ph of None \<Rightarrow> Some (env_now env) | Some t \<Rightarrow> Some t)
        else if status = ''pending'' then None else ph_started_at ph),
     ph_completed_at :=
       (if phase_done_status status
        then (case ph_completed_at ph of None \<Rightarrow> Some (env_now env) | Some t \<Rightarrow> Some t)
        else None),
     ph_updated_at := env_now env\<rparr>"

definition update_phase_tx ::
  "plan_env \<Rightarrow> uuid \<Rightarrow> uuid \<Rightarrow> update_phase_input \<Rightarrow> plan_actor \<Rightarrow> plan_db \<Rightarrow>
   plan_error + (uuid \<times> plan_db)" where
  "update_phase_tx env pid phase_id i actor db =
     res_bind (validate_actor actor) (\<lambda>_.
     res_bind (ensure_plan_open pid db) (\<lambda>_.
     res_bind (ok_or (find (\<lambda>ph. ph_id ph = phase_id \<and> ph_plan_id ph = pid) (db_phases db))
       (PhaseNotFound phase_id)) (\<lambda>current.
     res_bind (case up_title i of
         Some v \<Rightarrow> required_text v ''phase title'' MAX_TITLE_CHARS
       | None \<Rightarrow> Inr (ph_title current)) (\<lambda>title.
     res_bind (case up_description i of
         Some v \<Rightarrow> limited_text v ''phase description'' MAX_DESCRIPTION_CHARS
       | None \<Rightarrow> Inr (ph_description current)) (\<lambda>description.
     let status = (case up_status i of Some s \<Rightarrow> s | None \<Rightarrow> ph_status current) in
     res_bind (validate_phase_status status) (\<lambda>_.
     res_bind (case up_status_note i of
         Some v \<Rightarrow> clean_note (Some v)
       | None \<Rightarrow> Inr (ph_status_note current)) (\<lambda>note.
     res_bind (case up_size i of
         Some v \<Rightarrow> validate_phase_size (Some v)
       | None \<Rightarrow> Inr (ph_size current)) (\<lambda>sz.
       let db = (case up_position i of
             Some position \<Rightarrow> move_phase env pid phase_id (ph_position current) position db
           | None \<Rightarrow> db);
           db = db\<lparr>db_phases := update_where (\<lambda>ph. ph_id ph = phase_id \<and> ph_plan_id ph = pid)
               (phase_updated env title description status note sz) (db_phases db)\<rparr>;
           db = bump_revision env pid db
       in Inr (pid, insert_event env pid (Some phase_id)
            (if status = ph_status current then ''phase_updated'' else ''phase_status_changed'')
            actor (Some (ph_status current)) (Some status) note db)))))))))"

definition update_phase ::
  "plan_env \<Rightarrow> uuid \<Rightarrow> uuid \<Rightarrow> update_phase_input \<Rightarrow> plan_actor \<Rightarrow> plan_db \<Rightarrow>
   plan_db \<times> (plan_error + plan_view) option" where
  "update_phase env pid phase_id i actor db = commit db (update_phase_tx env pid phase_id i actor db)"

definition skip_phase ::
  "plan_env \<Rightarrow> uuid \<Rightarrow> plan_actor \<Rightarrow> string option \<Rightarrow> phase_row \<Rightarrow> plan_db \<Rightarrow> plan_db" where
  "skip_phase env pid actor note row db =
     insert_event env pid (Some (ph_id row)) ''phase_status_changed'' actor
       (Some (ph_status row)) (Some ''skipped'') note
       (db\<lparr>db_phases := update_where (\<lambda>ph. ph_plan_id ph = pid \<and> ph_id ph = ph_id row)
          (\<lambda>ph. ph\<lparr>ph_status := ''skipped'',
             ph_status_note := (case note of None \<Rightarrow> ph_status_note ph | Some n \<Rightarrow> Some n),
             ph_completed_at := Some (env_now env), ph_updated_at := env_now env\<rparr>)
          (db_phases db)\<rparr>)"

definition skip_remaining_phases ::
  "plan_env \<Rightarrow> uuid \<Rightarrow> plan_actor \<Rightarrow> string option \<Rightarrow> plan_db \<Rightarrow> plan_db" where
  "skip_remaining_phases env pid actor note db =
     fold (skip_phase env pid actor note)
       (sort_key ph_position
         (filter (\<lambda>ph. \<not> phase_done_status (ph_status ph)) (plan_phases_of db pid))) db"

text \<open>Releasing the anchors of a completed branch, with one event for each.\<close>

definition release_anchors ::
  "plan_env \<Rightarrow> uuid \<Rightarrow> uuid \<Rightarrow> plan_actor \<Rightarrow> string option \<Rightarrow> plan_db \<Rightarrow> plan_db" where
  "release_anchors env pid parent actor note db =
     (let anchored = (\<lambda>ph. ph_status ph = ''blocked'' \<and> (pid, ph_id ph) \<in> set (db_anchors db));
          released = map ph_id (filter anchored (db_phases db));
          db = db\<lparr>db_phases := update_where anchored
                 (\<lambda>ph. ph\<lparr>ph_status := ''in_progress'', ph_updated_at := env_now env\<rparr>)
                 (db_phases db)\<rparr>
      in fold (\<lambda>phid. insert_event env parent (Some phid) ''phase_status_changed'' actor
            (Some ''blocked'') (Some ''in_progress'')
            (Some (case note of None \<Rightarrow> ''branch completed'' | Some n \<Rightarrow> n))) released db)"

definition pop_pty :: "plan_env \<Rightarrow> uuid \<Rightarrow> plan_actor \<Rightarrow> uuid \<Rightarrow> plan_db \<Rightarrow> plan_error + plan_db" where
  "pop_pty env parent actor pty db =
     (if find_live_pty db pty \<noteq> None then attach_in_tx env parent pty actor False db else Inr db)"

definition close_branch_into_parent ::
  "plan_env \<Rightarrow> uuid \<Rightarrow> uuid option \<Rightarrow> string \<Rightarrow> plan_actor \<Rightarrow> string option \<Rightarrow> plan_db \<Rightarrow>
   plan_error + plan_db" where
  "close_branch_into_parent env pid parent status actor note db =
     (let parent_open = (case parent of
            Some parent_id \<Rightarrow>
              (case find_plan db parent_id of
                 Some p \<Rightarrow> plan_open_status (pl_status p) | None \<Rightarrow> False)
          | None \<Rightarrow> False)
      in case (if parent_open then parent else None) of
           None \<Rightarrow> Inr (detach_where env (\<lambda>a. at_plan_id a = pid) db)
         | Some parent_id \<Rightarrow>
             (let db = (if status = ''completed''
                        then release_anchors env pid parent_id actor note db else db);
                  ptys = map at_pty_session_id (active_attachments_of db pid);
                  db = detach_where env (\<lambda>a. at_plan_id a = pid) db
              in res_bind (res_fold (pop_pty env parent_id actor) ptys db) (\<lambda>db.
                   Inr (insert_event env parent_id None ''branch_closed'' actor None (Some status)
                     note (bump_revision env parent_id db)))))"

definition open_branches :: "plan_db \<Rightarrow> uuid \<Rightarrow> plan_row list" where
  "open_branches db pid =
     sort_key pl_created_at (filter (\<lambda>c. pl_parent_plan_id c = Some pid
       \<and> plan_open_status (pl_status c)) (db_plans db))"

text \<open>The row an accepted plan update writes.\<close>

definition plan_updated ::
  "plan_env \<Rightarrow> string \<Rightarrow> string \<Rightarrow> plan_guidance \<Rightarrow> string \<Rightarrow> plan_row \<Rightarrow> plan_row" where
  "plan_updated env title summary g status p = p\<lparr>
     pl_title := title, pl_summary := summary, pl_guidance := g, pl_status := status,
     pl_revision := pl_revision p + 1,
     pl_closed_at :=
       (if plan_closed_status status
        then (case pl_closed_at p of None \<Rightarrow> Some (env_now env) | Some t \<Rightarrow> Some t) else None),
     pl_updated_at := env_now env\<rparr>"

text \<open>The writes of an accepted plan update, in the code's order.\<close>

definition update_write ::
  "plan_env \<Rightarrow> uuid \<Rightarrow> update_plan_input \<Rightarrow> plan_actor \<Rightarrow> plan_row \<Rightarrow> string \<Rightarrow> string \<Rightarrow>
   plan_guidance \<Rightarrow> string \<Rightarrow> string option \<Rightarrow> plan_db \<Rightarrow> plan_error + plan_db" where
  "update_write env pid i actor current title summary g status note db =
     (let db = (if plan_closed_status status \<and> ui_skip_remaining i
                then skip_remaining_phases env pid actor note db else db);
          db = db\<lparr>db_plans := update_where (\<lambda>p. pl_id p = pid)
                 (plan_updated env title summary g status) (db_plans db)\<rparr>;
          db = record_change env pid actor (Some (pl_guidance current)) g note db;
          db = insert_event env pid None
             (if status \<noteq> pl_status current
              then (if plan_closed_status status then ''plan_closed'' else ''plan_status_changed'')
              else ''plan_updated'')
             actor (Some (pl_status current)) (Some status) note db
      in if plan_closed_status status
         then close_branch_into_parent env pid (pl_parent_plan_id current) status actor note db
         else Inr db)"

definition update_tx ::
  "plan_env \<Rightarrow> uuid \<Rightarrow> update_plan_input \<Rightarrow> plan_actor \<Rightarrow> plan_db \<Rightarrow> plan_error + (uuid \<times> plan_db)"
  where
  "update_tx env pid i actor db =
     res_bind (validate_actor actor) (\<lambda>_.
     res_bind (ok_or (find_plan db pid) (PlanNotFound pid)) (\<lambda>current.
     res_bind (case ui_title i of
         Some v \<Rightarrow> required_text v ''plan title'' MAX_TITLE_CHARS
       | None \<Rightarrow> Inr (pl_title current)) (\<lambda>title.
     res_bind (case ui_summary i of
         Some v \<Rightarrow> limited_text v ''plan summary'' MAX_SUMMARY_CHARS
       | None \<Rightarrow> Inr (pl_summary current)) (\<lambda>summary.
     res_bind (guidance_with_update (pl_guidance current) i) (\<lambda>g.
     let status = (case ui_status i of Some s \<Rightarrow> s | None \<Rightarrow> pl_status current) in
     res_bind (validate_plan_status status) (\<lambda>_.
     res_bind (clean_note (ui_note i)) (\<lambda>note.
     res_bind (guard (\<not> (ui_require_branch i \<and> pl_parent_plan_id current = None)) NotABranch)
       (\<lambda>_.
     res_bind (guard (\<not> (plan_closed_status status \<and> open_branches db pid \<noteq> []))
       (OpenBranches (map pl_title (open_branches db pid)))) (\<lambda>_.
     let unfinished = count_phases db pid (\<lambda>s. \<not> phase_done_status s) in
     res_bind (guard (\<not> (status = ''completed'' \<and> unfinished > 0 \<and> \<not> ui_skip_remaining i))
       (UnfinishedPhases unfinished)) (\<lambda>_.
     res_bind (update_write env pid i actor current title summary g status note db)
       (\<lambda>db. Inr (pid, db))))))))))))"

definition plan_update ::
  "plan_env \<Rightarrow> uuid \<Rightarrow> update_plan_input \<Rightarrow> plan_actor \<Rightarrow> plan_db \<Rightarrow>
   plan_db \<times> (plan_error + plan_view) option" where
  "plan_update env pid i actor db = commit db (update_tx env pid i actor db)"

definition attach_tx ::
  "plan_env \<Rightarrow> uuid \<Rightarrow> uuid \<Rightarrow> plan_actor \<Rightarrow> plan_db \<Rightarrow> plan_error + (uuid \<times> plan_db)" where
  "attach_tx env pid pty actor db =
     res_bind (validate_actor actor) (\<lambda>_.
     res_bind (ensure_plan_open pid db) (\<lambda>_.
     res_bind (attach_in_tx env pid pty actor True db) (\<lambda>db. Inr (pid, db))))"

definition plan_attach ::
  "plan_env \<Rightarrow> uuid \<Rightarrow> uuid \<Rightarrow> plan_actor \<Rightarrow> plan_db \<Rightarrow> plan_db \<times> (plan_error + plan_view) option"
  where "plan_attach env pid pty actor db = commit db (attach_tx env pid pty actor db)"

definition detach_tx ::
  "plan_env \<Rightarrow> uuid \<Rightarrow> uuid \<Rightarrow> plan_actor \<Rightarrow> plan_db \<Rightarrow> plan_error + (uuid \<times> plan_db)" where
  "detach_tx env pid pty actor db =
     res_bind (validate_actor actor) (\<lambda>_.
       let mine = (\<lambda>a. at_plan_id a = pid \<and> at_pty_session_id a = pty);
           affected = filter (\<lambda>a. mine a \<and> at_detached_at a = None) (db_attachments db);
           db = detach_where env mine db
       in Inr (pid, if affected = [] then db
             else insert_event env pid None ''plan_detached'' actor None None
               (Some (''PTY '' @ env_show_uuid env pty)) (bump_revision env pid db)))"

definition plan_detach ::
  "plan_env \<Rightarrow> uuid \<Rightarrow> uuid \<Rightarrow> plan_actor \<Rightarrow> plan_db \<Rightarrow> plan_db \<times> (plan_error + plan_view) option"
  where "plan_detach env pid pty actor db = commit db (detach_tx env pid pty actor db)"

section \<open>Branches\<close>

definition branch_note :: "string \<Rightarrow> string option \<Rightarrow> string" where
  "branch_note title note =
     ''branched to '' @ [CHR 0x22] @ title @ [CHR 0x22] @
     (case note of None \<Rightarrow> [] | Some n \<Rightarrow> '': '' @ n)"

fun resolve_refs ::
  "plan_env \<Rightarrow> plan_db \<Rightarrow> uuid \<Rightarrow> string list \<Rightarrow> uuid list \<Rightarrow> plan_error + uuid list" where
  "resolve_refs env db parent [] out = Inr out"
| "resolve_refs env db parent (reference # refs) out =
     res_bind (resolve_phase_id env db parent reference) (\<lambda>phid.
       resolve_refs env db parent refs (if phid \<in> set out then out else out @ [phid]))"

definition resolve_anchor_phases ::
  "plan_env \<Rightarrow> plan_db \<Rightarrow> uuid \<Rightarrow> string list \<Rightarrow> plan_error + uuid list" where
  "resolve_anchor_phases env db parent refs =
     (if refs = []
      then res_bind (ok_or (map_option ph_id (current_phase db parent)) NoPhaseInProgress)
             (\<lambda>phid. Inr [phid])
      else resolve_refs env db parent refs [])"

definition open_anchor ::
  "plan_env \<Rightarrow> uuid \<Rightarrow> uuid \<Rightarrow> plan_actor \<Rightarrow> string \<Rightarrow> uuid \<Rightarrow> plan_db \<Rightarrow> plan_db" where
  "open_anchor env pid parent actor note anchor db =
     insert_event env parent (Some anchor) ''branch_opened'' actor None None (Some note)
       (db\<lparr>db_anchors := db_anchors db @ [(pid, anchor)],
           db_phases := update_where (\<lambda>ph. ph_id ph = anchor \<and> ph_status ph = ''pending'')
             (\<lambda>ph. ph\<lparr>ph_status := ''in_progress'',
                ph_started_at := (case ph_started_at ph of
                    None \<Rightarrow> Some (env_now env) | Some t \<Rightarrow> Some t),
                ph_updated_at := env_now env\<rparr>) (db_phases db)\<rparr>)"

definition branch_tx ::
  "plan_env \<Rightarrow> uuid \<Rightarrow> branch_plan_input \<Rightarrow> plan_actor \<Rightarrow> plan_db \<Rightarrow> plan_error + (uuid \<times> plan_db)"
  where
  "branch_tx env parent i actor db =
     res_bind (validate_actor actor) (\<lambda>_.
     res_bind (required_text (bi_title i) ''plan title'' MAX_TITLE_CHARS) (\<lambda>title.
     res_bind (limited_text (bi_summary i) ''plan summary'' MAX_SUMMARY_CHARS) (\<lambda>summary.
     res_bind (guidance_validated (bi_guidance i)) (\<lambda>g.
     res_bind (clean_note (bi_note i)) (\<lambda>note.
     res_bind (validate_new_phases (bi_phases i) (bi_all_pending i)) (\<lambda>phases.
     res_bind (ensure_plan_open parent db) (\<lambda>_.
     res_bind (ok_or (find_plan db parent) RowNotFound) (\<lambda>p.
     let depth = pl_depth p + 1 in
     res_bind (guard (depth \<le> MAX_BRANCH_DEPTH) (BranchTooDeep depth)) (\<lambda>_.
     res_bind (resolve_anchor_phases env db parent (bi_parent_phase_refs i)) (\<lambda>anchors.
       let (pid, db) = new_v4 env db;
           db = insert_plan env pid (pl_repo_name p) title summary g (Some parent)
                  (pl_root_plan_id p) depth actor db;
           db = insert_phases env pid phases actor db;
           db = fold (open_anchor env pid parent actor (branch_note title note)) anchors db;
           db = bump_revision env parent db
       in res_bind
            (case ac_pty_session_id actor of
               Some pty \<Rightarrow> attach_in_tx env pid pty actor False db
             | None \<Rightarrow> Inr db)
            (\<lambda>db. Inr (pid, db))))))))))))"

definition plan_branch ::
  "plan_env \<Rightarrow> uuid \<Rightarrow> branch_plan_input \<Rightarrow> plan_actor \<Rightarrow> plan_db \<Rightarrow>
   plan_db \<times> (plan_error + plan_view) option" where
  "plan_branch env parent i actor db = commit db (branch_tx env parent i actor db)"

end
