(* ===== verification/Plans_Inv.thy ===== *)
theory Plans_Inv
  imports Plans_Ops "HOL-Library.Multiset" "HOL-Library.Sublist"
begin

text \<open>
  The invariant of the plan tables and its preservation by every step. The invariant is stated on
  projections of the rows (\<open>plan_shape\<close>, \<open>phase_slot\<close>, the active attachments), so that a step
  that leaves a projection alone keeps the part of the invariant about it by one rewrite.
\<close>

named_theorems plan_frame \<open>what a step leaves unchanged\<close>

section \<open>Projections\<close>

type_synonym shape = "uuid \<times> string \<times> uuid option \<times> uuid \<times> int"
type_synonym slot = "uuid \<times> uuid \<times> int"

definition plan_shape :: "plan_row \<Rightarrow> shape" where
  "plan_shape p = (pl_id p, pl_repo_name p, pl_parent_plan_id p, pl_root_plan_id p, pl_depth p)"

definition phase_slot :: "phase_row \<Rightarrow> slot" where
  "phase_slot ph = (ph_id ph, ph_plan_id ph, ph_position ph)"

abbreviation shapes :: "plan_db \<Rightarrow> shape list" where
  "shapes db \<equiv> map plan_shape (db_plans db)"

abbreviation slots :: "plan_db \<Rightarrow> slot list" where
  "slots db \<equiv> map phase_slot (db_phases db)"

definition active_pairs :: "plan_db \<Rightarrow> (uuid \<times> uuid) list" where
  "active_pairs db = map (\<lambda>a. (at_pty_session_id a, at_plan_id a))
     (filter (\<lambda>a. at_detached_at a = None) (db_attachments db))"

definition plan_statuses :: "plan_db \<Rightarrow> (uuid \<times> string) list" where
  "plan_statuses db = map (\<lambda>p. (pl_id p, pl_status p)) (db_plans db)"

section \<open>The invariant\<close>

text \<open>
  Plan identifiers are unique; a root is its own root at depth 0; a branch lies one below its
  parent, in the same tree and repository, at most \<open>MAX_BRANCH_DEPTH\<close> deep.
\<close>

definition shape_ok :: "shape list \<Rightarrow> shape \<Rightarrow> bool" where
  "shape_ok shs = (\<lambda>(i, repo, par, root, d).
     case par of
       None \<Rightarrow> root = i \<and> d = 0
     | Some q \<Rightarrow> 1 \<le> d \<and> d \<le> MAX_BRANCH_DEPTH \<and>
         (\<exists>(j, repo', par', root', d') \<in> set shs.
            j = q \<and> repo' = repo \<and> root' = root \<and> d' = d - 1))"

definition tree_ok :: "shape list \<Rightarrow> bool" where
  "tree_ok shs \<longleftrightarrow> distinct (map fst shs) \<and> (\<forall>sh \<in> set shs. shape_ok shs sh)"

definition positions_of :: "slot list \<Rightarrow> uuid \<Rightarrow> int list" where
  "positions_of sls pid = map (\<lambda>(_, _, pos). pos) (filter (\<lambda>(_, p, _). p = pid) sls)"

text \<open>The positions of a plan's phases are 1, 2, \dots, n in some order.\<close>

definition positions_ok :: "int list \<Rightarrow> bool" where
  "positions_ok ps \<longleftrightarrow> sort ps = [1..int (length ps)]"

definition slots_ok :: "uuid list \<Rightarrow> slot list \<Rightarrow> bool" where
  "slots_ok pids sls \<longleftrightarrow> distinct (map fst sls)
     \<and> (\<forall>(_, p, _) \<in> set sls. p \<in> set pids)
     \<and> (\<forall>pid \<in> set pids. positions_ok (positions_of sls pid))"

text \<open>A PTY has at most one current plan, and that plan is open and in the repository of the PTY.\<close>

definition attachments_ok :: "plan_db \<Rightarrow> bool" where
  "attachments_ok db \<longleftrightarrow> distinct (map fst (active_pairs db))
     \<and> (\<forall>(pty, pid) \<in> set (active_pairs db). \<exists>p \<in> set (db_plans db).
          pl_id p = pid \<and> plan_open_status (pl_status p)
          \<and> (\<forall>r \<in> set (db_ptys db). pt_id r = pty \<longrightarrow> pt_repo r = pl_repo_name p))"

text \<open>Every anchor of a branch is a phase of its parent.\<close>

definition anchors_ok :: "plan_db \<Rightarrow> bool" where
  "anchors_ok db \<longleftrightarrow>
     (\<forall>(branch, phid) \<in> set (db_anchors db). \<exists>p \<in> set (db_plans db). pl_id p = branch \<and>
        (\<exists>ph \<in> set (db_phases db). ph_id ph = phid \<and> pl_parent_plan_id p = Some (ph_plan_id ph)))"

text \<open>Statuses are known ones, and the closing and completion times agree with them.\<close>

definition plan_status_ok :: "plan_row \<Rightarrow> bool" where
  "plan_status_ok p \<longleftrightarrow> pl_status p \<in> {''active'', ''paused'', ''completed'', ''canceled''}
     \<and> (pl_closed_at p \<noteq> None \<longleftrightarrow> plan_closed_status (pl_status p))"

definition phase_status_ok :: "phase_row \<Rightarrow> bool" where
  "phase_status_ok ph \<longleftrightarrow>
     ph_status ph \<in> {''pending'', ''in_progress'', ''blocked'', ''completed'', ''skipped''}
     \<and> (ph_completed_at ph \<noteq> None \<longrightarrow> phase_done_status (ph_status ph))"

definition statuses_ok :: "plan_db \<Rightarrow> bool" where
  "statuses_ok db \<longleftrightarrow>
     (\<forall>p \<in> set (db_plans db). plan_status_ok p) \<and> (\<forall>ph \<in> set (db_phases db). phase_status_ok ph)"

text \<open>The generator never repeats an identifier in use: what \<^verbatim>\<open>Uuid::new_v4\<close> is relied on for.\<close>

definition supply_ok :: "(nat \<Rightarrow> uuid) \<Rightarrow> plan_db \<Rightarrow> bool" where
  "supply_ok draw db \<longleftrightarrow>
     (\<forall>i \<in> pl_id ` set (db_plans db) \<union> ph_id ` set (db_phases db). \<forall>n \<ge> db_drawn db. draw n \<noteq> i)"

definition ptys_ok :: "plan_db \<Rightarrow> bool" where
  "ptys_ok db \<longleftrightarrow> distinct (map pt_id (db_ptys db))"

definition plans_inv :: "(nat \<Rightarrow> uuid) \<Rightarrow> plan_db \<Rightarrow> bool" where
  "plans_inv draw db \<longleftrightarrow> tree_ok (shapes db) \<and> slots_ok (map pl_id (db_plans db)) (slots db)
     \<and> attachments_ok db \<and> anchors_ok db \<and> statuses_ok db \<and> supply_ok draw db \<and> ptys_ok db"

section \<open>Positions\<close>

lemma positions_ok_iff_mset: "positions_ok ps \<longleftrightarrow> mset ps = mset [1..int (length ps)]"
  unfolding positions_ok_def
  by (metis mset_sort properties_for_sort sorted_upto)

lemma positions_ok_distinct: "positions_ok ps \<Longrightarrow> distinct ps"
  by (metis distinct_upto mset_eq_imp_distinct_iff positions_ok_iff_mset)

lemma positions_ok_set: "positions_ok ps \<Longrightarrow> set ps = {1..int (length ps)}"
  by (metis positions_ok_iff_mset set_mset_mset set_upto)

lemma positions_ok_I:
  assumes "distinct ps" "set ps = {1..int (length ps)}"
  shows "positions_ok ps"
  using assms by (simp add: positions_ok_iff_mset set_eq_iff_mset_eq_distinct flip: set_upto)

lemma positions_ok_Nil [simp]: "positions_ok []"
  by (simp add: positions_ok_def)

lemma positions_ok_snoc: "positions_ok ps \<Longrightarrow> positions_ok (ps @ [int (length ps) + 1])"
  by (rule positions_ok_I) (auto simp: positions_ok_distinct positions_ok_set)

text \<open>The renumbering a move performs, as a function of the old position.\<close>

definition shift_position :: "int \<Rightarrow> int \<Rightarrow> int \<Rightarrow> int" where
  "shift_position old new x =
     (if x = old then new
      else if new \<le> x \<and> x < old then x + 1
      else if old < x \<and> x \<le> new then x - 1 else x)"

lemma shift_position_bij:
  assumes "old \<in> {1..n}" "new \<in> {1..n}"
  shows "bij_betw (shift_position old new) {1..n} {1..n}"
proof (rule bij_betw_byWitness [where f' = "shift_position new old"])
  show "\<forall>a\<in>{1..n}. shift_position new old (shift_position old new a) = a"
    "\<forall>a'\<in>{1..n}. shift_position old new (shift_position new old a') = a'"
    by (auto simp: shift_position_def)
  show "shift_position old new ` {1..n} \<subseteq> {1..n}" "shift_position new old ` {1..n} \<subseteq> {1..n}"
    using assms by (auto simp: shift_position_def)
qed

lemma positions_ok_shift:
  assumes ok: "positions_ok ps" and "old \<in> set ps" "new \<in> {1..int (length ps)}"
  shows "positions_ok (map (shift_position old new) ps)"
proof (rule positions_ok_I)
  have bij: "bij_betw (shift_position old new) (set ps) (set ps)"
    using assms shift_position_bij [of old "int (length ps)" new] positions_ok_set [OF ok] by simp
  show "distinct (map (shift_position old new) ps)"
    using bij positions_ok_distinct [OF ok] by (simp add: distinct_map bij_betw_def)
  show "set (map (shift_position old new) ps)
      = {1..int (length (map (shift_position old new) ps))}"
    using bij positions_ok_set [OF ok] by (simp add: bij_betw_def)
qed

section \<open>Frame: what each step leaves alone\<close>

lemma insert_event_frame [simp]:
  "db_plans (insert_event env pid phid t a f to n db) = db_plans db"
  "db_phases (insert_event env pid phid t a f to n db) = db_phases db"
  "db_attachments (insert_event env pid phid t a f to n db) = db_attachments db"
  "db_anchors (insert_event env pid phid t a f to n db) = db_anchors db"
  "db_ptys (insert_event env pid phid t a f to n db) = db_ptys db"
  "db_drawn (insert_event env pid phid t a f to n db) = db_drawn db"
  by (simp_all add: insert_event_def)

lemma record_change_frame [simp]:
  "db_plans (record_change env pid a b af n db) = db_plans db"
  "db_phases (record_change env pid a b af n db) = db_phases db"
  "db_attachments (record_change env pid a b af n db) = db_attachments db"
  "db_anchors (record_change env pid a b af n db) = db_anchors db"
  "db_ptys (record_change env pid a b af n db) = db_ptys db"
  "db_drawn (record_change env pid a b af n db) = db_drawn db"
  by (simp_all add: record_change_def)

lemma bump_revision_frame [simp]:
  "db_phases (bump_revision env pid db) = db_phases db"
  "db_attachments (bump_revision env pid db) = db_attachments db"
  "db_anchors (bump_revision env pid db) = db_anchors db"
  "db_ptys (bump_revision env pid db) = db_ptys db"
  "db_drawn (bump_revision env pid db) = db_drawn db"
  "db_events (bump_revision env pid db) = db_events db"
  by (simp_all add: bump_revision_def)

lemma detach_where_frame [simp]:
  "db_plans (detach_where env P db) = db_plans db"
  "db_phases (detach_where env P db) = db_phases db"
  "db_anchors (detach_where env P db) = db_anchors db"
  "db_ptys (detach_where env P db) = db_ptys db"
  "db_drawn (detach_where env P db) = db_drawn db"
  "db_events (detach_where env P db) = db_events db"
  by (simp_all add: detach_where_def)

lemma attach_row_frame [simp]:
  "db_plans (attach_row env pid pty s db) = db_plans db"
  "db_phases (attach_row env pid pty s db) = db_phases db"
  "db_anchors (attach_row env pid pty s db) = db_anchors db"
  "db_ptys (attach_row env pid pty s db) = db_ptys db"
  "db_drawn (attach_row env pid pty s db) = Suc (db_drawn db)"
  "db_events (attach_row env pid pty s db) = db_events db"
  by (simp_all add: attach_row_def new_v4_def)

lemma active_pairs_attach_row [simp]:
  "active_pairs (attach_row env pid pty s db) = active_pairs db @ [(pty, pid)]"
  by (simp add: active_pairs_def attach_row_def new_v4_def)

lemma active_pairs_detach_where:
  "active_pairs (detach_where env P db) = map (\<lambda>a. (at_pty_session_id a, at_plan_id a))
     (filter (\<lambda>a. at_detached_at a = None \<and> \<not> P a) (db_attachments db))"
proof -
  have "filter (\<lambda>a. at_detached_at a = None) (update_where (\<lambda>a. P a \<and> at_detached_at a = None)
      (\<lambda>a. a\<lparr>at_detached_at := Some (env_now env)\<rparr>) rows)
    = filter (\<lambda>a. at_detached_at a = None \<and> \<not> P a) rows" for rows
    by (induction rows) (auto simp: update_where_def)
  then show ?thesis by (simp add: active_pairs_def detach_where_def)
qed

lemma bump_revision_rows [simp]:
  "map pl_id (db_plans (bump_revision env pid db)) = map pl_id (db_plans db)"
  "shapes (bump_revision env pid db) = shapes db"
  "plan_statuses (bump_revision env pid db) = plan_statuses db"
  by (simp_all add: bump_revision_def map_update_where plan_shape_def plan_statuses_def)

text \<open>The invariant reads a plan row through its shape, its status and its closing time.\<close>

definition plan_core :: "plan_row \<Rightarrow> shape \<times> string \<times> timestamp option" where
  "plan_core p = (plan_shape p, pl_status p, pl_closed_at p)"

definition phase_core :: "phase_row \<Rightarrow> slot \<times> string \<times> timestamp option" where
  "phase_core ph = (phase_slot ph, ph_status ph, ph_completed_at ph)"

definition plan_facts :: "plan_db \<Rightarrow> _" where
  "plan_facts db = (map plan_core (db_plans db), map phase_core (db_phases db), active_pairs db,
     db_anchors db, db_ptys db, db_drawn db)"

lemma map_core_eqD:
  assumes "map plan_core ps = map plan_core qs"
  shows "map plan_shape ps = map plan_shape qs" "map pl_id ps = map pl_id qs"
    "map pl_status ps = map pl_status qs"
proof -
  have *: "map f ps = map f qs" if "\<And>p. f p = g (plan_core p)" for f g
  proof -
    have "f = g \<circ> plan_core" using that by auto
    then show ?thesis using assms by (metis list.map_comp)
  qed
  show "map plan_shape ps = map plan_shape qs" by (rule * [of _ fst]) (simp add: plan_core_def)
  show "map pl_id ps = map pl_id qs"
    by (rule * [of _ "\<lambda>x. fst (fst x)"]) (simp add: plan_core_def plan_shape_def)
  show "map pl_status ps = map pl_status qs"
    by (rule * [of _ "\<lambda>x. fst (snd x)"]) (simp add: plan_core_def)
qed

text \<open>Rewriting the row predicates of the invariant over the cores.\<close>

lemma bex_plan_core:
  "(\<exists>p \<in> set ps. R (pl_id p) (pl_repo_name p) (pl_status p) (pl_parent_plan_id p)) \<longleftrightarrow>
   (\<exists>((i, repo, par, root, d), st, cl) \<in> set (map plan_core ps). R i repo st par)"
  by (auto simp: plan_core_def plan_shape_def)

lemma bex_phase_core:
  "(\<exists>ph \<in> set phs. R (ph_id ph) (ph_plan_id ph)) \<longleftrightarrow>
   (\<exists>((i, p, pos), st, c) \<in> set (map phase_core phs). R i p)"
  by (auto simp: phase_core_def phase_slot_def)

lemma statuses_ok_core:
  "statuses_ok db \<longleftrightarrow>
    (\<forall>(sh, st, cl) \<in> set (map plan_core (db_plans db)).
       st \<in> {''active'', ''paused'', ''completed'', ''canceled''} \<and> (cl \<noteq> None \<longleftrightarrow> plan_closed_status st)) \<and>
    (\<forall>(sl, st, c) \<in> set (map phase_core (db_phases db)).
       st \<in> {''pending'', ''in_progress'', ''blocked'', ''completed'', ''skipped''}
       \<and> (c \<noteq> None \<longrightarrow> phase_done_status st))"
  by (auto simp: statuses_ok_def plan_status_ok_def phase_status_ok_def plan_core_def phase_core_def)

lemma plans_inv_cong:
  assumes "plan_facts db = plan_facts db'"
  shows "plans_inv draw db \<longleftrightarrow> plans_inv draw db'"
proof -
  from assms have pc: "map plan_core (db_plans db) = map plan_core (db_plans db')"
    and fc: "map phase_core (db_phases db) = map phase_core (db_phases db')"
    and ac: "active_pairs db = active_pairs db'" and an: "db_anchors db = db_anchors db'"
    and pt: "db_ptys db = db_ptys db'" and dr: "db_drawn db = db_drawn db'"
    by (simp_all add: plan_facts_def)
  have fs: "slots db = slots db'" and fi: "map ph_id (db_phases db) = map ph_id (db_phases db')"
    using arg_cong [OF fc, of "map fst"] arg_cong [OF fc, of "map (\<lambda>x. fst (fst x))"]
    by (simp_all add: comp_def phase_core_def phase_slot_def [abs_def])
  have "attachments_ok db = attachments_ok db'"
    unfolding attachments_ok_def ac pt
    by (simp add: bex_plan_core [where R = "\<lambda>i repo st par. i = _ \<and> plan_open_status st
          \<and> (\<forall>r \<in> set (db_ptys db'). pt_id r = _ \<longrightarrow> pt_repo r = repo)"] pc)
  moreover have "(\<exists>ph \<in> set (db_phases db). ph_id ph = phid \<and> par = Some (ph_plan_id ph)) \<longleftrightarrow>
      (\<exists>ph \<in> set (db_phases db'). ph_id ph = phid \<and> par = Some (ph_plan_id ph))" for phid par
    by (simp only: bex_phase_core [where R = "\<lambda>i p. i = phid \<and> par = Some p"] fc)
  then have "anchors_ok db = anchors_ok db'"
    unfolding anchors_ok_def an
    by (simp only: bex_plan_core [where R = "\<lambda>i repo st par. i = branch \<and> (\<exists>ph \<in> set (db_phases db').
          ph_id ph = phid \<and> par = Some (ph_plan_id ph))" for branch phid] pc)
  moreover have "statuses_ok db = statuses_ok db'"
    by (simp only: statuses_ok_core pc fc)
  moreover have "supply_ok draw db = supply_ok draw db'"
    unfolding supply_ok_def dr
    by (metis (no_types, lifting) fi list.set_map map_core_eqD(2) [OF pc])
  ultimately show ?thesis
    unfolding plans_inv_def ptys_ok_def pt fs map_core_eqD [OF pc] by simp
qed

lemma active_pairs_bookkeeping [simp]:
  "active_pairs (insert_event env pid phid t a f to n db) = active_pairs db"
  "active_pairs (record_change env pid a b af n db) = active_pairs db"
  "active_pairs (bump_revision env pid db) = active_pairs db"
  by (simp_all add: active_pairs_def)

lemma plan_core_bump_revision [simp]:
  "map plan_core (db_plans (bump_revision env pid db)) = map plan_core (db_plans db)"
  by (simp add: bump_revision_def map_update_where plan_core_def plan_shape_def)

lemma plan_facts_insert_event [simp]:
  "plan_facts (insert_event env pid phid t a f to n db) = plan_facts db"
  by (simp add: plan_facts_def active_pairs_def)

lemma plan_facts_record_change [simp]:
  "plan_facts (record_change env pid a b af n db) = plan_facts db"
  by (simp add: plan_facts_def active_pairs_def)

lemma plan_facts_bump_revision [simp]: "plan_facts (bump_revision env pid db) = plan_facts db"
  by (simp add: plan_facts_def)

lemma plans_inv_bookkeeping [simp]:
  "plans_inv draw (insert_event env pid phid t a f to n db) = plans_inv draw db"
  "plans_inv draw (record_change env pid a b af n db) = plans_inv draw db"
  "plans_inv draw (bump_revision env pid db) = plans_inv draw db"
  by (rule plans_inv_cong, simp)+

section \<open>Attachments\<close>

lemma distinct_pairs_detach:
  assumes "distinct (map fst (active_pairs db))"
  shows "distinct (map fst (active_pairs (detach_where env P db)))"
proof -
  have *: "active_pairs (detach_where env P db) = map (\<lambda>a. (at_pty_session_id a, at_plan_id a))
      (filter (\<lambda>a. \<not> P a) (filter (\<lambda>a. at_detached_at a = None) (db_attachments db)))"
    by (simp add: active_pairs_detach_where)
  show ?thesis
    unfolding * using assms unfolding active_pairs_def map_map by (rule distinct_map_filter)
qed

lemma set_active_pairs_detach_subset:
  "set (active_pairs (detach_where env P db)) \<subseteq> set (active_pairs db)"
  unfolding active_pairs_detach_where unfolding active_pairs_def by auto

lemma attachments_ok_detach_where:
  "attachments_ok db \<Longrightarrow> attachments_ok (detach_where env P db)"
  using set_active_pairs_detach_subset [of env P db]
  unfolding attachments_ok_def by (auto simp: distinct_pairs_detach)

lemma plans_inv_detach_where: "plans_inv draw db \<Longrightarrow> plans_inv draw (detach_where env P db)"
  by (auto simp: plans_inv_def attachments_ok_detach_where anchors_ok_def statuses_ok_def
      supply_ok_def ptys_ok_def)

lemma active_attachment_None_iff:
  "active_attachment db pty = None \<longleftrightarrow> pty \<notin> fst ` set (active_pairs db)"
  by (force simp: active_attachment_def find_None_notin active_pairs_def)

lemma active_attachment_Some:
  assumes "active_attachment db pty = Some a"
  shows "(pty, at_plan_id a) \<in> set (active_pairs db)" "at_pty_session_id a = pty"
  using find_Some_in [OF assms [unfolded active_attachment_def]]
  by (force simp: active_pairs_def)+

lemma pty_free_after_detach:
  "pty \<notin> fst ` set (active_pairs (detach_where env (\<lambda>a. at_pty_session_id a = pty) db))"
  by (auto simp: active_pairs_detach_where)

lemma plans_inv_attach_row:
  assumes "plans_inv draw db" "pty \<notin> fst ` set (active_pairs db)"
    and "\<exists>p \<in> set (db_plans db). pl_id p = pid \<and> plan_open_status (pl_status p)
          \<and> (\<forall>r \<in> set (db_ptys db). pt_id r = pty \<longrightarrow> pt_repo r = pl_repo_name p)"
  shows "plans_inv draw (attach_row env pid pty s db)"
  using assms
  by (auto simp: plans_inv_def attachments_ok_def anchors_ok_def statuses_ok_def supply_ok_def
      ptys_ok_def)

lemma find_live_pty_Some:
  assumes "find_live_pty db pty = Some r"
  shows "r \<in> set (db_ptys db)" "pt_id r = pty" "pt_state r = ''live''"
  using find_Some_in [OF assms [unfolded find_live_pty_def]] by auto

lemma find_plan_Some:
  assumes "find_plan db pid = Some p"
  shows "p \<in> set (db_plans db)" "pl_id p = pid"
  using find_Some_in [OF assms [unfolded find_plan_def]] by auto

lemma ptys_ok_unique:
  "ptys_ok db \<Longrightarrow> r \<in> set (db_ptys db) \<Longrightarrow> r' \<in> set (db_ptys db) \<Longrightarrow> pt_id r' = pt_id r \<Longrightarrow> r' = r"
  by (auto simp: ptys_ok_def distinct_map inj_on_def)

text \<open>The tables a successful attachment produces, in one of two shapes.\<close>

lemma attach_in_tx_InrE:
  assumes "attach_in_tx env pid pty actor bump db = Inr db'"
  obtains (same) "db' = db" "map_option at_plan_id (active_attachment db pty) = Some pid"
  | (moved) p r db1 where
      "find_plan db pid = Some p" "find_live_pty db pty = Some r" "pt_repo r = pl_repo_name p"
      "plan_facts db' = plan_facts (attach_row env pid pty (pt_current_session_uuid r) db1)"
      "db1 = db \<and> active_attachment db pty = None \<or>
       (\<exists>old n. active_attachment db pty \<noteq> None \<and>
          db1 = insert_event env old None ''plan_detached'' actor None None n
           (bump_revision env old (detach_where env (\<lambda>a. at_pty_session_id a = pty) db)))"
proof -
  from assms obtain p r where
    p: "find_plan db pid = Some p" and r: "find_live_pty db pty = Some r"
    and repo: "pt_repo r = pl_repo_name p"
    by (auto simp: attach_in_tx_def split: if_splits)
  show thesis
  proof (cases "map_option at_plan_id (active_attachment db pty) = Some pid")
    case True
    with assms p r repo show thesis by (intro same) (auto simp: attach_in_tx_def)
  next
    case False
    define db1 where "db1 = (case map_option at_plan_id (active_attachment db pty) of
                 None \<Rightarrow> db
               | Some old \<Rightarrow>
                   insert_event env old None ''plan_detached'' actor None None
                     (Some (''PTY '' @ env_show_uuid env pty @ '' attached to another plan''))
                     (bump_revision env old
                       (detach_where env (\<lambda>a. at_pty_session_id a = pty) db)))"
    have "db' = insert_event env pid None ''plan_attached'' actor None None
        (Some (''PTY '' @ env_show_uuid env pty))
        (if bump then bump_revision env pid (attach_row env pid pty (pt_current_session_uuid r) db1)
         else attach_row env pid pty (pt_current_session_uuid r) db1)"
      using assms p r repo False
      by (cases "active_attachment db pty"; cases bump)
         (auto simp: attach_in_tx_def db1_def Let_def)
    then have "plan_facts db' = plan_facts (attach_row env pid pty (pt_current_session_uuid r) db1)"
      by simp
    with p r repo show thesis
      by (rule moved) (auto simp: db1_def split: option.splits)
  qed
qed

lemma plans_inv_attach_in_tx:
  assumes inv: "plans_inv draw db" and op: "attach_in_tx env pid pty actor bump db = Inr db'"
    and opn: "\<And>p. find_plan db pid = Some p \<Longrightarrow> plan_open_status (pl_status p)"
  shows "plans_inv draw db'"
  using op
proof (cases rule: attach_in_tx_InrE)
  case same
  with inv show ?thesis by simp
next
  case (moved p r db1)
  have plans: "map plan_core (db_plans db1) = map plan_core (db_plans db)" "db_ptys db1 = db_ptys db"
    and inv1: "plans_inv draw db1" and free: "pty \<notin> fst ` set (active_pairs db1)"
    using moved(5) inv pty_free_after_detach [of pty env db]
    by (auto simp: active_attachment_None_iff plans_inv_detach_where)
  have "\<exists>p \<in> set (db_plans db). pl_id p = pid \<and> plan_open_status (pl_status p)
      \<and> (\<forall>r \<in> set (db_ptys db). pt_id r = pty \<longrightarrow> pt_repo r = pl_repo_name p)"
    using moved(1-3) find_plan_Some [OF moved(1)] find_live_pty_Some [OF moved(2)] opn inv
    by (metis plans_inv_def ptys_ok_unique)
  then have "\<exists>p \<in> set (db_plans db1). pl_id p = pid \<and> plan_open_status (pl_status p)
      \<and> (\<forall>r \<in> set (db_ptys db1). pt_id r = pty \<longrightarrow> pt_repo r = pl_repo_name p)"
    unfolding plans(2) bex_plan_core [where R = "\<lambda>i repo st par. i = pid \<and> plan_open_status st
          \<and> (\<forall>r \<in> set (db_ptys db). pt_id r = pty \<longrightarrow> pt_repo r = repo)"] plans(1) .
  with inv1 free have "plans_inv draw (attach_row env pid pty (pt_current_session_uuid r) db1)"
    by (rule plans_inv_attach_row)
  with plans_inv_cong [OF moved(4)] show ?thesis by simp
qed

section \<open>New plans and phases\<close>

lemma shape_ok_mono: "shape_ok shs sh \<Longrightarrow> set shs \<subseteq> set shs' \<Longrightarrow> shape_ok shs' sh"
  by (auto simp: shape_ok_def split: option.splits) blast

lemma shape_ok_depth: "shape_ok shs (i, repo, par, root, d) \<Longrightarrow> 0 \<le> d"
  by (auto simp: shape_ok_def split: option.splits)

lemma tree_ok_snoc:
  assumes "tree_ok shs" "fst sh \<notin> fst ` set shs" "shape_ok (shs @ [sh]) sh"
  shows "tree_ok (shs @ [sh])"
proof -
  have "shape_ok (shs @ [sh]) x" if "x \<in> set shs" for x
    using assms(1) that shape_ok_mono [of shs x "shs @ [sh]"] by (force simp: tree_ok_def)
  with assms show ?thesis by (simp add: tree_ok_def)
qed

lemma tree_ok_snoc_root:
  "tree_ok shs \<Longrightarrow> i \<notin> fst ` set shs \<Longrightarrow> tree_ok (shs @ [(i, repo, None, i, 0)])"
  by (rule tree_ok_snoc) (auto simp: shape_ok_def)

lemma tree_ok_snoc_branch:
  assumes "tree_ok shs" "i \<notin> fst ` set shs" "(q, repo, par, root, d) \<in> set shs"
    "d + 1 \<le> MAX_BRANCH_DEPTH"
  shows "tree_ok (shs @ [(i, repo, Some q, root, d + 1)])"
proof (rule tree_ok_snoc)
  have "0 \<le> d" using assms(1,3) shape_ok_depth by (auto simp: tree_ok_def)
  then show "shape_ok (shs @ [(i, repo, Some q, root, d + 1)]) (i, repo, Some q, root, d + 1)"
    using assms(3,4) by (force simp: shape_ok_def)
qed (use assms in simp_all)

lemma positions_of_append [simp]:
  "positions_of (xs @ ys) pid = positions_of xs pid @ positions_of ys pid"
  by (simp add: positions_of_def)

lemma positions_of_other: "\<forall>(_, p, _) \<in> set sls. p \<noteq> pid \<Longrightarrow> positions_of sls pid = []"
  by (auto simp: positions_of_def filter_empty_conv)

lemma slots_ok_new_plan:
  assumes "slots_ok pids sls" "pid \<notin> set pids"
  shows "slots_ok (pids @ [pid]) sls"
proof -
  have "positions_of sls pid = []"
    using assms by (intro positions_of_other) (auto simp: slots_ok_def)
  with assms show ?thesis by (auto simp: slots_ok_def)
qed

lemma slots_ok_new_phase:
  assumes "slots_ok pids sls" "i \<notin> fst ` set sls" "pid \<in> set pids"
    "pos = int (length (positions_of sls pid)) + 1"
  shows "slots_ok pids (sls @ [(i, pid, pos)])"
proof -
  have "positions_of [(i, pid, pos)] q = (if q = pid then [pos] else [])" for q
    by (simp add: positions_of_def)
  with assms show ?thesis
    by (auto simp: slots_ok_def positions_ok_snoc)
qed

lemma positions_of_slots:
  "positions_of (slots db) pid = map ph_position (plan_phases_of db pid)"
  by (simp add: positions_of_def plan_phases_of_def filter_map comp_def phase_slot_def)

text \<open>A plan row appended under a fresh identifier.\<close>

lemma plans_inv_add_plan:
  assumes inv: "plans_inv draw db" and fresh: "pl_id p \<notin> pl_id ` set (db_plans db)"
    and tree: "tree_ok (shapes db @ [plan_shape p])"
    and unused: "\<forall>n \<ge> db_drawn db. draw n \<noteq> pl_id p"
    and st: "pl_status p = ''active''" "pl_closed_at p = None"
  shows "plans_inv draw (db\<lparr>db_plans := db_plans db @ [p]\<rparr>)"
proof -
  have ap: "active_pairs (db\<lparr>db_plans := db_plans db @ [p]\<rparr>) = active_pairs db"
    by (simp add: active_pairs_def)
  have "slots_ok (map pl_id (db_plans db) @ [pl_id p]) (slots db)"
    using inv fresh by (intro slots_ok_new_plan) (auto simp: plans_inv_def)
  moreover have "attachments_ok (db\<lparr>db_plans := db_plans db @ [p]\<rparr>)"
    using inv unfolding plans_inv_def attachments_ok_def ap by auto
  moreover have "anchors_ok (db\<lparr>db_plans := db_plans db @ [p]\<rparr>)"
    using inv by (fastforce simp: plans_inv_def anchors_ok_def)
  ultimately show ?thesis
    using inv tree unused st
    by (auto simp: plans_inv_def statuses_ok_def supply_ok_def ptys_ok_def plan_status_ok_def
        plan_closed_status_def)
qed

text \<open>A phase row appended at the end of its plan under a fresh identifier.\<close>

lemma plans_inv_add_phase:
  assumes inv: "plans_inv draw db" and fresh: "ph_id ph \<notin> ph_id ` set (db_phases db)"
    and plan: "ph_plan_id ph \<in> pl_id ` set (db_plans db)"
    and pos: "ph_position ph = int (length (plan_phases_of db (ph_plan_id ph))) + 1"
    and unused: "\<forall>n \<ge> db_drawn db. draw n \<noteq> ph_id ph"
    and st: "phase_status_ok ph"
  shows "plans_inv draw (db\<lparr>db_phases := db_phases db @ [ph]\<rparr>)"
proof -
  have ap: "active_pairs (db\<lparr>db_phases := db_phases db @ [ph]\<rparr>) = active_pairs db"
    by (simp add: active_pairs_def)
  have "slots_ok (map pl_id (db_plans db)) (slots db @ [(ph_id ph, ph_plan_id ph, ph_position ph)])"
    using inv fresh plan pos
    by (intro slots_ok_new_phase) (auto simp: plans_inv_def positions_of_slots phase_slot_def)
  moreover have "attachments_ok (db\<lparr>db_phases := db_phases db @ [ph]\<rparr>)"
    using inv unfolding plans_inv_def attachments_ok_def ap by auto
  moreover have "anchors_ok (db\<lparr>db_phases := db_phases db @ [ph]\<rparr>)"
    using inv by (fastforce simp: plans_inv_def anchors_ok_def)
  ultimately show ?thesis
    using inv unused st
    by (auto simp: plans_inv_def statuses_ok_def supply_ok_def ptys_ok_def phase_slot_def)
qed

lemma plans_inv_draw:
  assumes "plans_inv draw db" "inj draw"
  shows "plans_inv draw (db\<lparr>db_drawn := Suc (db_drawn db)\<rparr>)"
    "draw (db_drawn db) \<notin> pl_id ` set (db_plans db)"
    "draw (db_drawn db) \<notin> ph_id ` set (db_phases db)"
    "\<forall>n \<ge> Suc (db_drawn db). draw n \<noteq> draw (db_drawn db)"
proof -
  have "active_pairs (db\<lparr>db_drawn := Suc (db_drawn db)\<rparr>) = active_pairs db"
    by (simp add: active_pairs_def)
  moreover have "supply_ok draw (db\<lparr>db_drawn := Suc (db_drawn db)\<rparr>)"
    using assms(1) Suc_leD unfolding plans_inv_def supply_ok_def by simp
  ultimately show "plans_inv draw (db\<lparr>db_drawn := Suc (db_drawn db)\<rparr>)"
    using assms(1)
    by (simp add: plans_inv_def attachments_ok_def anchors_ok_def statuses_ok_def ptys_ok_def)
  show "draw (db_drawn db) \<notin> pl_id ` set (db_plans db)"
    "draw (db_drawn db) \<notin> ph_id ` set (db_phases db)"
    using assms(1) unfolding plans_inv_def supply_ok_def by blast+
  show "\<forall>n \<ge> Suc (db_drawn db). draw n \<noteq> draw (db_drawn db)"
    using assms(2) by (metis Suc_n_not_le_n injD)
qed

end
