(* ===== verification/Plans_Steps.thy ===== *)
theory Plans_Steps
  imports Plans_Inv
begin

text \<open>
  Every operation of the plan service keeps the invariant of \<^verbatim>\<open>Plans_Inv\<close>: one lemma per
  operation, then the step relation of the whole service, in which PTYs also start, end and change
  their agent session, and its reachable states.
\<close>

section \<open>Rows rewritten in place\<close>

lemma plans_inv_phases:
  assumes inv: "plans_inv draw db"
    and ids: "map (\<lambda>ph. (ph_id ph, ph_plan_id ph)) phs = map (\<lambda>ph. (ph_id ph, ph_plan_id ph)) (db_phases db)"
    and sl: "slots_ok (map pl_id (db_plans db)) (map phase_slot phs)"
    and st: "\<forall>ph \<in> set phs. phase_status_ok ph"
  shows "plans_inv draw (db\<lparr>db_phases := phs\<rparr>)"
proof -
  have ap: "active_pairs (db\<lparr>db_phases := phs\<rparr>) = active_pairs db"
    by (simp add: active_pairs_def)
  have pairs: "(\<exists>ph \<in> set phs. R (ph_id ph) (ph_plan_id ph)) \<longleftrightarrow>
      (\<exists>ph \<in> set (db_phases db). R (ph_id ph) (ph_plan_id ph))" for R
    using arg_cong [OF ids, of "\<lambda>xs. \<exists>(i, p) \<in> set xs. R i p"] by auto
  have "ph_id ` set phs = ph_id ` set (db_phases db)"
    using arg_cong [OF ids, of "\<lambda>xs. fst ` set xs"] by (simp add: image_image)
  then have "supply_ok draw (db\<lparr>db_phases := phs\<rparr>)"
    using inv by (simp add: plans_inv_def supply_ok_def)
  moreover have "anchors_ok (db\<lparr>db_phases := phs\<rparr>)"
    using inv unfolding plans_inv_def anchors_ok_def
    by (simp add: pairs [where R = "\<lambda>i p. i = _ \<and> _ = Some p"])
  moreover have "attachments_ok (db\<lparr>db_phases := phs\<rparr>)"
    using inv unfolding plans_inv_def attachments_ok_def ap by simp
  ultimately show ?thesis
    using inv sl st by (simp add: plans_inv_def statuses_ok_def ptys_ok_def)
qed

lemma plans_inv_update_phases:
  assumes inv: "plans_inv draw db"
    and f: "\<And>ph. ph \<in> set (db_phases db) \<Longrightarrow> P ph \<Longrightarrow>
      phase_slot (f ph) = phase_slot ph \<and> (phase_status_ok ph \<longrightarrow> phase_status_ok (f ph))"
  shows "plans_inv draw (db\<lparr>db_phases := update_where P f (db_phases db)\<rparr>)"
proof (rule plans_inv_phases [OF inv])
  have sl: "map phase_slot (update_where P f (db_phases db)) = slots db"
    by (rule map_update_where) (use f in auto)
  show "slots_ok (map pl_id (db_plans db)) (map phase_slot (update_where P f (db_phases db)))"
    using inv by (simp add: sl plans_inv_def)
  show "map (\<lambda>ph. (ph_id ph, ph_plan_id ph)) (update_where P f (db_phases db))
      = map (\<lambda>ph. (ph_id ph, ph_plan_id ph)) (db_phases db)"
    by (rule map_update_where) (use f in \<open>auto simp: phase_slot_def\<close>)
  show "\<forall>ph \<in> set (update_where P f (db_phases db)). phase_status_ok ph"
    using inv f by (auto simp: set_update_where plans_inv_def statuses_ok_def)
qed

lemma plans_inv_update_plans:
  assumes inv: "plans_inv draw db"
    and f: "\<And>p. p \<in> set (db_plans db) \<Longrightarrow> pl_id p = pid \<Longrightarrow>
      plan_shape (f p) = plan_shape p \<and> plan_status_ok (f p)
      \<and> (plan_open_status (pl_status (f p)) \<or> pid \<notin> snd ` set (active_pairs db))"
  shows "plans_inv draw (db\<lparr>db_plans := update_where (\<lambda>p. pl_id p = pid) f (db_plans db)\<rparr>)"
proof -
  let ?ps = "update_where (\<lambda>p. pl_id p = pid) f (db_plans db)"
  let ?db = "db\<lparr>db_plans := ?ps\<rparr>"
  have ap: "active_pairs ?db = active_pairs db" by (simp add: active_pairs_def)
  have sh: "map plan_shape ?ps = shapes db"
    by (rule map_update_where) (use f in auto)
  have ids: "map pl_id ?ps = map pl_id (db_plans db)"
    by (rule map_update_where) (use f in \<open>auto simp: plan_shape_def\<close>)
  have img: "(if pl_id p = pid then f p else p) \<in> set ?ps" if "p \<in> set (db_plans db)" for p
    using that by (auto simp: update_where_def)
  have "attachments_ok ?db"
    unfolding attachments_ok_def ap
  proof (intro conjI ballI, goal_cases)
    case 1
    show ?case using inv by (simp add: plans_inv_def attachments_ok_def)
  next
    case (2 x)
    obtain pty q where x: "x = (pty, q)" by (cases x)
    with inv 2 obtain p where p: "p \<in> set (db_plans db)" "pl_id p = q"
      "plan_open_status (pl_status p)" "\<forall>r \<in> set (db_ptys db). pt_id r = pty \<longrightarrow> pt_repo r = pl_repo_name p"
      by (auto simp: plans_inv_def attachments_ok_def)
    have "q \<in> snd ` set (active_pairs db)" using 2 x by force
    then have "pl_id p = pid \<Longrightarrow> plan_open_status (pl_status (f p))"
      using f [OF p(1)] p(2) by simp
    with p f [OF p(1)] show ?case
      unfolding x by (auto simp: plan_shape_def intro!: bexI [OF _ img [OF p(1)]])
  qed
  moreover have "anchors_ok ?db"
    using inv f img unfolding plans_inv_def anchors_ok_def
    by (fastforce simp: plan_shape_def split: if_splits)
  moreover have "supply_ok draw ?db"
    using inv arg_cong [OF ids, of set] by (simp add: plans_inv_def supply_ok_def)
  moreover have "statuses_ok ?db"
    using inv f by (auto simp: plans_inv_def statuses_ok_def set_update_where)
  ultimately show ?thesis
    using inv by (simp add: plans_inv_def sh ids ptys_ok_def)
qed

section \<open>Creating plans and phases\<close>

lemma limited_text_ok:
  "limited_text v label n = Inr t \<longleftrightarrow> t = trim v \<and> char_count (trim v) \<le> n"
  by (auto simp: limited_text_def Let_def)

lemma insert_plan_plans:
  "db_plans (insert_plan env pid repo title summary g parent root depth actor db) = db_plans db @
     [\<lparr>pl_id = pid, pl_repo_name = repo, pl_title = title, pl_summary = summary,
       pl_guidance = g, pl_status = ''active'', pl_revision = 1,
       pl_parent_plan_id = parent, pl_root_plan_id = root, pl_depth = depth,
       pl_created_by_pty_id = ac_pty_session_id actor,
       pl_created_by_agent_session_uuid = ac_agent_session_uuid actor,
       pl_created_at = env_now env, pl_updated_at = env_now env, pl_closed_at = None\<rparr>]"
  by (simp add: insert_plan_def Let_def)

lemma insert_plan_frame [simp]:
  "db_phases (insert_plan env pid repo title summary g parent root depth actor db) = db_phases db"
  "db_attachments (insert_plan env pid repo title summary g parent root depth actor db) = db_attachments db"
  "db_anchors (insert_plan env pid repo title summary g parent root depth actor db) = db_anchors db"
  "db_ptys (insert_plan env pid repo title summary g parent root depth actor db) = db_ptys db"
  "db_drawn (insert_plan env pid repo title summary g parent root depth actor db) = db_drawn db"
  by (simp_all add: insert_plan_def Let_def)

lemma plans_inv_insert_plan:
  assumes "plans_inv draw db" "pid \<notin> pl_id ` set (db_plans db)" "\<forall>n \<ge> db_drawn db. draw n \<noteq> pid"
    and "tree_ok (shapes db @ [(pid, repo, parent, root, depth)])"
  shows "plans_inv draw (insert_plan env pid repo title summary g parent root depth actor db)"
  using assms plans_inv_add_plan [of draw db]
  by (simp add: insert_plan_def Let_def plan_shape_def)

lemma insert_phase_tables:
  assumes "db' = insert_phase env pid actor (index, title, description, status, sz) db"
  shows "db_plans db' = db_plans db" "db_attachments db' = db_attachments db"
    "db_ptys db' = db_ptys db" "db_anchors db' = db_anchors db" "db_drawn db' = Suc (db_drawn db)"
    "map phase_slot (db_phases db') = slots db @ [(env_draw env (db_drawn db), pid, int index + 1)]"
  by (simp_all add: assms insert_phase_def new_v4_def Let_def phase_slot_def)

lemma plans_inv_insert_phase:
  assumes inv: "plans_inv (env_draw env) db" and inj: "inj (env_draw env)"
    and plan: "pid \<in> pl_id ` set (db_plans db)"
    and pos: "length (plan_phases_of db pid) = index"
    and st: "validate_phase_status status = Inr ()"
  shows "plans_inv (env_draw env) (insert_phase env pid actor (index, title, description, status, sz) db)"
proof -
  note d = plans_inv_draw [OF inv inj]
  let ?db = "db\<lparr>db_drawn := Suc (db_drawn db)\<rparr>"
  have "plan_phases_of ?db pid = plan_phases_of db pid" by (simp add: plan_phases_of_def)
  then have "plans_inv (env_draw env) (?db\<lparr>db_phases := db_phases ?db @
      [\<lparr>ph_id = env_draw env (db_drawn db), ph_plan_id = pid, ph_position = int index + 1,
        ph_title = title, ph_description = description, ph_status = status, ph_status_note = None,
        ph_size = sz, ph_started_at = (if status = ''in_progress'' then Some (env_now env) else None),
        ph_completed_at = None, ph_created_at = env_now env, ph_updated_at = env_now env\<rparr>]\<rparr>)"
    using plan pos st d
    by (intro plans_inv_add_phase [OF d(1)])
       (auto simp: phase_status_ok_def validate_phase_status_def)
  then show ?thesis by (simp add: insert_phase_def new_v4_def Let_def)
qed

text \<open>The phases of a new plan, numbered from 1.\<close>

lemma insert_phases_inv:
  assumes "plans_inv (env_draw env) db" "inj (env_draw env)" "pid \<in> pl_id ` set (db_plans db)"
    "length (plan_phases_of db pid) = k"
    "\<forall>(_, _, status, _) \<in> set phases. validate_phase_status status = Inr ()"
  shows "plans_inv (env_draw env) (fold (insert_phase env pid actor) (enumerate k phases) db)
    \<and> db_plans (fold (insert_phase env pid actor) (enumerate k phases) db) = db_plans db
    \<and> db_attachments (fold (insert_phase env pid actor) (enumerate k phases) db) = db_attachments db
    \<and> db_ptys (fold (insert_phase env pid actor) (enumerate k phases) db) = db_ptys db
    \<and> db_anchors (fold (insert_phase env pid actor) (enumerate k phases) db) = db_anchors db"
  using assms
proof (induction phases arbitrary: k db)
  case (Cons ph phases)
  obtain t d st sz where ph: "ph = (t, d, st, sz)" by (cases ph) auto
  let ?db = "insert_phase env pid actor (k, ph) db"
  note tabs = insert_phase_tables [of ?db env pid actor k t d st sz db, folded ph, OF refl]
  have "plans_inv (env_draw env) ?db"
    unfolding ph using Cons.prems ph by (intro plans_inv_insert_phase) auto
  moreover have "length (plan_phases_of ?db pid) = Suc k"
    using Cons.prems(4) arg_cong [OF positions_of_slots [of ?db pid], of length] tabs(6)
    by (simp add: positions_of_slots) (simp add: positions_of_def)
  ultimately show ?case
    using Cons.IH [of ?db "Suc k"] Cons.prems tabs by (auto simp: ph)
qed simp

lemma validate_new_phases_status:
  assumes "validate_new_phases phases all_pending = Inr checked"
  shows "\<forall>(_, _, status, _) \<in> set checked. validate_phase_status status = Inr ()"
proof -
  from assms have "list_all2 (\<lambda>x y. check_phase all_pending x = Inr y) (enumerate 0 phases) checked"
    by (auto simp: validate_new_phases_def res_map_Inr_list_all2 split: if_splits)
  then show ?thesis
    by (induction rule: list_all2_induct)
       (auto simp: check_phase_def initial_phase_status_def Let_def)
qed

text \<open>Opening a plan and its phases under a fresh identifier.\<close>

lemma open_plan_inv:
  assumes inv: "plans_inv (env_draw env) db" and inj: "inj (env_draw env)"
    and draw: "new_v4 env db = (pid, db1)"
    and tree: "tree_ok (shapes db @ [(pid, repo, parent, root, depth)])"
    and phases: "\<forall>(_, _, status, _) \<in> set phases. validate_phase_status status = Inr ()"
    and db2: "db2 = insert_phases env pid phases actor
      (insert_plan env pid repo title summary g parent root depth actor db1)"
  shows "plans_inv (env_draw env) db2"
    "shapes db2 = shapes db @ [(pid, repo, parent, root, depth)]"
    "\<exists>p. db_plans db2 = db_plans db @ [p] \<and> pl_status p = ''active'' \<and> pl_id p = pid
       \<and> pl_parent_plan_id p = parent"
    "db_ptys db2 = db_ptys db" "db_anchors db2 = db_anchors db" "active_pairs db2 = active_pairs db"
proof -
  from draw have pid: "pid = env_draw env (db_drawn db)"
    and db1: "db1 = db\<lparr>db_drawn := Suc (db_drawn db)\<rparr>" by (auto simp: new_v4_def)
  note d = plans_inv_draw [OF inv inj, folded pid db1]
  let ?db = "insert_plan env pid repo title summary g parent root depth actor db1"
  have inv2: "plans_inv (env_draw env) ?db"
    using d tree by (intro plans_inv_insert_plan) (auto simp: db1)
  have "pid \<notin> ph_plan_id ` set (db_phases db)"
    using inv d(2) by (fastforce simp: plans_inv_def slots_ok_def phase_slot_def)
  then have "plan_phases_of ?db pid = []"
    by (auto simp: plan_phases_of_def db1 filter_empty_conv)
  then have fin: "plans_inv (env_draw env) db2 \<and> db_plans db2 = db_plans ?db
      \<and> db_attachments db2 = db_attachments ?db \<and> db_ptys db2 = db_ptys ?db
      \<and> db_anchors db2 = db_anchors ?db"
    unfolding db2 insert_phases_def using inv2 inj phases
    by (intro insert_phases_inv) (auto simp: insert_plan_plans)
  then show "plans_inv (env_draw env) db2" by blast
  show "shapes db2 = shapes db @ [(pid, repo, parent, root, depth)]"
    using fin by (simp add: insert_plan_plans db1 plan_shape_def)
  show "\<exists>p. db_plans db2 = db_plans db @ [p] \<and> pl_status p = ''active'' \<and> pl_id p = pid
       \<and> pl_parent_plan_id p = parent"
    using fin by (simp add: insert_plan_plans db1)
  show "db_ptys db2 = db_ptys db" "db_anchors db2 = db_anchors db" "active_pairs db2 = active_pairs db"
    using fin by (simp_all add: db1 active_pairs_def)
qed

lemma find_plan_appended:
  assumes "tree_ok (shapes db)" "db_plans db = ps @ [p]"
  shows "find_plan db (pl_id p) = Some p"
  using assms find_unique [of pl_id "db_plans db" p]
  by (simp add: find_plan_def tree_ok_def comp_def plan_shape_def)

lemma create_tx_inv:
  assumes inv: "plans_inv (env_draw env) db" and inj: "inj (env_draw env)"
    and op: "create_tx env i actor db = Inr (pid, db')"
  shows "plans_inv (env_draw env) db'"
proof -
  obtain pid1 db1 where draw: "new_v4 env db = (pid1, db1)" by fastforce
  from op obtain repo title summary g phases where
    ph: "validate_new_phases (ci_phases i) (ci_all_pending i) = Inr phases"
    and att: "(case (ci_attach_current_pty i, ac_pty_session_id actor) of
         (True, Some pty) \<Rightarrow> attach_in_tx env pid1 pty actor False
            (insert_phases env pid1 phases actor (insert_plan env pid1 repo title summary g None pid1 0 actor db1))
       | _ \<Rightarrow> Inr (insert_phases env pid1 phases actor
            (insert_plan env pid1 repo title summary g None pid1 0 actor db1))) = Inr db'"
    by (auto simp: create_tx_def draw Let_def)
  let ?db = "insert_phases env pid1 phases actor
    (insert_plan env pid1 repo title summary g None pid1 0 actor db1)"
  have fresh: "pid1 \<notin> pl_id ` set (db_plans db)"
    using plans_inv_draw(2) [OF inv inj] draw by (auto simp: new_v4_def)
  have tree: "tree_ok (shapes db @ [(pid1, repo, None, pid1, 0)])"
    using inv fresh by (intro tree_ok_snoc_root) (auto simp: plans_inv_def plan_shape_def)
  note opened = open_plan_inv [OF inv inj draw tree validate_new_phases_status [OF ph],
      of ?db actor title summary g, OF refl]
  obtain p where p: "db_plans ?db = db_plans db @ [p]" "pl_status p = ''active''" "pl_id p = pid1"
    using opened(3) by blast
  have "find_plan ?db pid1 = Some p"
    using find_plan_appended [OF _ p(1)] opened(1) p(3) by (simp add: plans_inv_def)
  then show ?thesis
    using att opened(1) p(2)
    by (auto split: bool.splits option.splits intro: plans_inv_attach_in_tx simp: plan_open_status_def)
qed

lemma next_position_eq:
  assumes "plans_inv draw db" "pid \<in> pl_id ` set (db_plans db)"
  shows "next_position db pid = int (length (plan_phases_of db pid)) + 1"
proof -
  have ok: "positions_ok (map ph_position (plan_phases_of db pid))"
    using assms by (auto simp: plans_inv_def slots_ok_def positions_of_slots)
  show ?thesis
  proof (cases "plan_phases_of db pid")
    case Nil
    then show ?thesis by (simp add: next_position_def)
  next
    case (Cons ph phs)
    have "Max {1..int (Suc (length phs))} = int (Suc (length phs))"
      by (rule Max_eqI) auto
    then show ?thesis
      using positions_ok_set [OF ok] by (simp add: next_position_def Cons)
  qed
qed

lemma add_phase_tx_inv:
  assumes inv: "plans_inv (env_draw env) db" and inj: "inj (env_draw env)"
    and op: "add_phase_tx env pid phase actor db = Inr (pid', db')"
  shows "plans_inv (env_draw env) db'"
proof -
  note d = plans_inv_draw [OF inv inj]
  let ?db = "db\<lparr>db_drawn := Suc (db_drawn db)\<rparr>"
  from op obtain p title description status sz where
    p: "find_plan db pid = Some p" and st: "validate_phase_status status = Inr ()"
    and db': "db' = insert_event env pid (Some (env_draw env (db_drawn db))) ''phase_added'' actor None
      (Some status) None (bump_revision env pid (?db\<lparr>db_phases := db_phases ?db @
        [\<lparr>ph_id = env_draw env (db_drawn db), ph_plan_id = pid, ph_position = next_position db pid,
          ph_title = title, ph_description = description, ph_status = status, ph_status_note = None,
          ph_size = sz, ph_started_at = (if status = ''in_progress'' then Some (env_now env) else None),
          ph_completed_at = (if phase_done_status status then Some (env_now env) else None),
          ph_created_at = env_now env, ph_updated_at = env_now env\<rparr>]\<rparr>))"
    by (auto simp: add_phase_tx_def Let_def new_v4_def ensure_plan_open_def)
  have plan: "pid \<in> pl_id ` set (db_plans db)" using find_plan_Some [OF p] by auto
  have "plan_phases_of ?db pid = plan_phases_of db pid" by (simp add: plan_phases_of_def)
  then have "plans_inv (env_draw env) (?db\<lparr>db_phases := db_phases ?db @
        [\<lparr>ph_id = env_draw env (db_drawn db), ph_plan_id = pid, ph_position = next_position db pid,
          ph_title = title, ph_description = description, ph_status = status, ph_status_note = None,
          ph_size = sz, ph_started_at = (if status = ''in_progress'' then Some (env_now env) else None),
          ph_completed_at = (if phase_done_status status then Some (env_now env) else None),
          ph_created_at = env_now env, ph_updated_at = env_now env\<rparr>]\<rparr>)"
    using plan st d next_position_eq [OF inv plan]
    by (intro plans_inv_add_phase [OF d(1)])
       (auto simp: phase_status_ok_def validate_phase_status_def)
  then show ?thesis unfolding db' by simp
qed

section \<open>Moving and updating phases\<close>

definition renumbered :: "plan_env \<Rightarrow> uuid \<Rightarrow> uuid \<Rightarrow> int \<Rightarrow> int \<Rightarrow> phase_row \<Rightarrow> phase_row" where
  "renumbered env pid phid old new ph =
     (if ph_plan_id ph \<noteq> pid then ph
      else if ph_id ph = phid then ph\<lparr>ph_position := new\<rparr>
      else if new \<le> ph_position ph \<and> ph_position ph < old
        then ph\<lparr>ph_position := ph_position ph + 1, ph_updated_at := env_now env\<rparr>
      else if old < ph_position ph \<and> ph_position ph \<le> new
        then ph\<lparr>ph_position := ph_position ph - 1, ph_updated_at := env_now env\<rparr>
      else ph)"

lemma move_phase_renumbered:
  assumes "new = max 1 (min (int (length (plan_phases_of db pid))) requested)" "new \<noteq> old"
  shows "move_phase env pid phid old requested db
    = db\<lparr>db_phases := map (renumbered env pid phid old new) (db_phases db)\<rparr>"
proof (cases "new < old")
  case True
  have "update_where (\<lambda>ph. ph_plan_id ph = pid \<and> ph_id ph = phid) (\<lambda>ph. ph\<lparr>ph_position := new\<rparr>)
      (update_where (\<lambda>ph. ph_plan_id ph = pid \<and> new \<le> ph_position ph \<and> ph_position ph < old
          \<and> ph_id ph \<noteq> phid)
        (\<lambda>ph. ph\<lparr>ph_position := ph_position ph + 1, ph_updated_at := env_now env\<rparr>) (db_phases db))
    = map (renumbered env pid phid old new) (db_phases db)"
    using True by (auto simp: update_where_def renumbered_def)
  with True assms(2) show ?thesis
    unfolding move_phase_def Let_def assms(1) [symmetric] by simp
next
  case False
  have "update_where (\<lambda>ph. ph_plan_id ph = pid \<and> ph_id ph = phid) (\<lambda>ph. ph\<lparr>ph_position := new\<rparr>)
      (update_where (\<lambda>ph. ph_plan_id ph = pid \<and> old < ph_position ph \<and> ph_position ph \<le> new
          \<and> ph_id ph \<noteq> phid)
        (\<lambda>ph. ph\<lparr>ph_position := ph_position ph - 1, ph_updated_at := env_now env\<rparr>) (db_phases db))
    = map (renumbered env pid phid old new) (db_phases db)"
    using False assms(2) by (auto simp: update_where_def renumbered_def)
  with False assms(2) show ?thesis
    unfolding move_phase_def Let_def assms(1) [symmetric] by simp
qed

lemma renumbered_keeps [simp]:
  "ph_id (renumbered env pid phid old new ph) = ph_id ph"
  "ph_plan_id (renumbered env pid phid old new ph) = ph_plan_id ph"
  "ph_status (renumbered env pid phid old new ph) = ph_status ph"
  "ph_completed_at (renumbered env pid phid old new ph) = ph_completed_at ph"
  by (simp_all add: renumbered_def)

lemma renumbered_position:
  assumes "ph_plan_id ph = pid" "ph_id ph = phid \<longleftrightarrow> ph_position ph = old"
  shows "ph_position (renumbered env pid phid old new ph) = shift_position old new (ph_position ph)"
  using assms by (auto simp: renumbered_def shift_position_def)

lemma plan_phases_unique_position:
  assumes "plans_inv draw db" "pid \<in> pl_id ` set (db_plans db)"
    and "ph \<in> set (plan_phases_of db pid)" "ph' \<in> set (plan_phases_of db pid)"
  shows "ph_id ph' = ph_id ph \<longleftrightarrow> ph_position ph' = ph_position ph"
proof -
  have "distinct (map ph_position (plan_phases_of db pid))"
    using assms(1,2) by (intro positions_ok_distinct)
      (auto simp: plans_inv_def slots_ok_def positions_of_slots)
  moreover have "distinct (map ph_id (db_phases db))"
    using assms(1) by (simp add: plans_inv_def slots_ok_def comp_def phase_slot_def)
  ultimately show ?thesis
    using assms(3,4) by (auto simp: distinct_map inj_on_def plan_phases_of_def)
qed

lemma plan_phases_of_map:
  assumes "\<And>ph. ph_plan_id (f ph) = ph_plan_id ph"
  shows "plan_phases_of (db\<lparr>db_phases := map f (db_phases db)\<rparr>) pid = map f (plan_phases_of db pid)"
  by (simp add: plan_phases_of_def filter_map comp_def assms)

lemma move_phase_inv:
  assumes inv: "plans_inv draw db" and plan: "pid \<in> pl_id ` set (db_plans db)"
    and ph: "ph \<in> set (plan_phases_of db pid)"
  shows "plans_inv draw (move_phase env pid (ph_id ph) (ph_position ph) requested db)"
proof (cases "max 1 (min (int (length (plan_phases_of db pid))) requested) = ph_position ph")
  case True
  with inv show ?thesis by (simp add: move_phase_def Let_def)
next
  case False
  define new where "new = max 1 (min (int (length (plan_phases_of db pid))) requested)"
  let ?f = "renumbered env pid (ph_id ph) (ph_position ph) new"
  let ?db = "db\<lparr>db_phases := map ?f (db_phases db)\<rparr>"
  have ok: "positions_ok (map ph_position (plan_phases_of db q))" if "q \<in> pl_id ` set (db_plans db)" for q
    using inv that by (auto simp: plans_inv_def slots_ok_def positions_of_slots)
  have "length (plan_phases_of db pid) > 0" using ph by (auto simp: length_pos_if_in_set)
  then have new: "new \<in> {1..int (length (plan_phases_of db pid))}"
    unfolding new_def by (simp add: Suc_le_eq)
  have "positions_ok (positions_of (map phase_slot (map ?f (db_phases db))) q)"
    if q: "q \<in> pl_id ` set (db_plans db)" for q
  proof -
    have "positions_of (slots ?db) q = map ph_position (map ?f (plan_phases_of db q))"
      unfolding positions_of_slots by (simp only: plan_phases_of_map renumbered_keeps)
    also have "\<dots> = (if q = pid then map (shift_position (ph_position ph) new) (map ph_position (plan_phases_of db q))
        else map ph_position (plan_phases_of db q))"
    proof (cases "q = pid")
      case True
      have "ph_position (?f x) = shift_position (ph_position ph) new (ph_position x)"
        if "x \<in> set (plan_phases_of db pid)" for x
        using that plan_phases_unique_position [OF inv plan ph that]
        by (intro renumbered_position) (auto simp: plan_phases_of_def)
      with True show ?thesis by simp
    next
      case False
      then have "?f x = x" if "x \<in> set (plan_phases_of db q)" for x
        using that by (auto simp: plan_phases_of_def renumbered_def)
      with False show ?thesis by simp
    qed
    finally have "positions_of (slots ?db) q
      = (if q = pid then map (shift_position (ph_position ph) new) (map ph_position (plan_phases_of db q))
         else map ph_position (plan_phases_of db q))" .
    with ok [OF q] positions_ok_shift [OF ok [OF plan] _ , of "ph_position ph" new] ph new
    show ?thesis by (auto split: if_splits)
  qed
  then have "slots_ok (map pl_id (db_plans db)) (map phase_slot (map ?f (db_phases db)))"
    using inv by (auto simp: plans_inv_def slots_ok_def comp_def phase_slot_def)
  then have "plans_inv draw ?db"
    using inv by (intro plans_inv_phases)
      (auto simp: plans_inv_def statuses_ok_def phase_status_ok_def)
  with move_phase_renumbered [OF new_def] False show ?thesis by (simp add: new_def)
qed

lemma update_phase_tx_inv:
  assumes inv: "plans_inv draw db" and op: "update_phase_tx env pid phid i actor db = Inr (pid', db')"
  shows "plans_inv draw db'"
proof -
  from op obtain p current title description status nt sz where
    p: "find_plan db pid = Some p"
    and cur: "find (\<lambda>ph. ph_id ph = phid \<and> ph_plan_id ph = pid) (db_phases db) = Some current"
    and st: "validate_phase_status status = Inr ()"
    and facts: "plan_facts db' = plan_facts ((\<lambda>db. db\<lparr>db_phases :=
        update_where (\<lambda>ph. ph_id ph = phid \<and> ph_plan_id ph = pid)
          (phase_updated env title description status nt sz) (db_phases db)\<rparr>)
        (case up_position i of
           Some position \<Rightarrow> move_phase env pid phid (ph_position current) position db | None \<Rightarrow> db))"
    by (auto simp: update_phase_tx_def Let_def ensure_plan_open_def)
  have plan: "pid \<in> pl_id ` set (db_plans db)" using find_plan_Some [OF p] by auto
  have c: "current \<in> set (plan_phases_of db pid)" "ph_id current = phid"
    using find_Some_in [OF cur] by (auto simp: plan_phases_of_def)
  let ?db = "case up_position i of
       Some position \<Rightarrow> move_phase env pid phid (ph_position current) position db | None \<Rightarrow> db"
  have "plans_inv draw ?db"
    using inv move_phase_inv [OF inv plan c(1)] c(2) by (auto split: option.splits)
  then have "plans_inv draw (?db\<lparr>db_phases :=
        update_where (\<lambda>ph. ph_id ph = phid \<and> ph_plan_id ph = pid)
          (phase_updated env title description status nt sz) (db_phases ?db)\<rparr>)"
    using st by (intro plans_inv_update_phases)
      (auto simp: phase_updated_def phase_slot_def phase_status_ok_def validate_phase_status_def
        split: option.splits)
  with plans_inv_cong [OF facts] show ?thesis by simp
qed

section \<open>Closing plans\<close>

lemma skip_phase_inv: "plans_inv draw db \<Longrightarrow> plans_inv draw (skip_phase env pid actor note row db)"
  unfolding skip_phase_def plans_inv_bookkeeping
  by (rule plans_inv_update_phases)
     (auto simp: phase_slot_def phase_status_ok_def phase_done_status_def)

lemma skip_phase_frame [simp]:
  "db_plans (skip_phase env pid actor note row db) = db_plans db"
  "active_pairs (skip_phase env pid actor note row db) = active_pairs db"
  "db_ptys (skip_phase env pid actor note row db) = db_ptys db"
  "db_attachments (skip_phase env pid actor note row db) = db_attachments db"
  "db_anchors (skip_phase env pid actor note row db) = db_anchors db"
  by (simp_all add: skip_phase_def active_pairs_def)

lemma fold_frame: "(\<And>x s. g (f x s) = g s) \<Longrightarrow> g (fold f xs s) = g s"
  by (induction xs arbitrary: s) auto

lemma skip_remaining_frame [simp]:
  "db_plans (skip_remaining_phases env pid actor note db) = db_plans db"
  "active_pairs (skip_remaining_phases env pid actor note db) = active_pairs db"
  "db_ptys (skip_remaining_phases env pid actor note db) = db_ptys db"
  "db_attachments (skip_remaining_phases env pid actor note db) = db_attachments db"
  "db_anchors (skip_remaining_phases env pid actor note db) = db_anchors db"
  by (simp_all add: skip_remaining_phases_def fold_frame)

lemma fold_inv: "P s \<Longrightarrow> (\<And>x s. P s \<Longrightarrow> P (f x s)) \<Longrightarrow> P (fold f xs s)"
  by (induction xs arbitrary: s) auto

lemma skip_remaining_inv:
  "plans_inv draw db \<Longrightarrow> plans_inv draw (skip_remaining_phases env pid actor note db)"
  unfolding skip_remaining_phases_def by (rule fold_inv) (auto intro: skip_phase_inv)

lemma plan_facts_fold_events:
  "plan_facts (fold (\<lambda>phid. insert_event env parent (Some phid) t actor f to n) xs db) = plan_facts db"
  by (rule fold_frame) simp

lemma release_anchors_facts:
  "plan_facts (release_anchors env pid parent actor note db) = plan_facts (db\<lparr>db_phases :=
     update_where (\<lambda>ph. ph_status ph = ''blocked'' \<and> (pid, ph_id ph) \<in> set (db_anchors db))
       (\<lambda>ph. ph\<lparr>ph_status := ''in_progress'', ph_updated_at := env_now env\<rparr>) (db_phases db)\<rparr>)"
  by (simp add: release_anchors_def Let_def plan_facts_fold_events)

lemma release_anchors_inv:
  "plans_inv draw db \<Longrightarrow> plans_inv draw (release_anchors env pid parent actor note db)"
  unfolding plans_inv_cong [OF release_anchors_facts]
  by (rule plans_inv_update_phases)
     (auto simp: phase_slot_def phase_status_ok_def phase_done_status_def)

lemma release_anchors_frame [simp]:
  "db_plans (release_anchors env pid parent actor note db) = db_plans db"
  "db_attachments (release_anchors env pid parent actor note db) = db_attachments db"
  "db_ptys (release_anchors env pid parent actor note db) = db_ptys db"
  by (simp_all add: release_anchors_def Let_def fold_frame [where g = db_plans]
      fold_frame [where g = db_attachments] fold_frame [where g = db_ptys])

text \<open>Detaching commutes with the steps that touch other tables.\<close>

lemma detach_where_insert_event:
  "detach_where env P (insert_event env' pid phid t a f to n db)
    = insert_event env' pid phid t a f to n (detach_where env P db)"
  by (simp add: detach_where_def insert_event_def)

lemma detach_where_record_change:
  "detach_where env P (record_change env' pid a b af n db)
    = record_change env' pid a b af n (detach_where env P db)"
  by (simp add: detach_where_def record_change_def)

lemma detach_where_plans:
  "detach_where env P (db\<lparr>db_plans := ps\<rparr>) = (detach_where env P db)\<lparr>db_plans := ps\<rparr>"
  by (simp add: detach_where_def)

lemma detach_where_phases:
  "detach_where env P (db\<lparr>db_phases := phs\<rparr>) = (detach_where env P db)\<lparr>db_phases := phs\<rparr>"
  by (simp add: detach_where_def)

lemma detach_where_fold_events:
  "detach_where env P (fold (\<lambda>phid. insert_event env' parent (Some phid) t actor f to n) xs db)
    = fold (\<lambda>phid. insert_event env' parent (Some phid) t actor f to n) xs (detach_where env P db)"
  by (induction xs arbitrary: db) (simp_all add: detach_where_insert_event)

lemma detach_where_release_anchors:
  "detach_where env P (release_anchors env' pid parent actor note db)
    = release_anchors env' pid parent actor note (detach_where env P db)"
  by (simp add: release_anchors_def Let_def detach_where_fold_events detach_where_phases)

lemma no_pairs_after_detach_plan:
  "pid \<notin> snd ` set (active_pairs (detach_where env (\<lambda>a. at_plan_id a = pid) db))"
  by (auto simp: active_pairs_detach_where)

lemma find_plan_core:
  assumes "map plan_core (db_plans db') = map plan_core (db_plans db)" "find_plan db pid = Some p"
  shows "\<exists>p'. find_plan db' pid = Some p' \<and> plan_core p' = plan_core p"
proof -
  have "find (\<lambda>q. pl_id q = pid) xs = Some p \<Longrightarrow> map plan_core ys = map plan_core xs \<Longrightarrow>
      \<exists>p'. find (\<lambda>q. pl_id q = pid) ys = Some p' \<and> plan_core p' = plan_core p" for xs ys
  proof (induction xs arbitrary: ys)
    case (Cons x xs)
    then obtain y ys' where ys: "ys = y # ys'" "plan_core y = plan_core x"
      "map plan_core ys' = map plan_core xs" by (cases ys) auto
    then have "pl_id y = pl_id x" by (simp add: plan_core_def plan_shape_def)
    with Cons ys show ?case by (auto split: if_splits)
  qed simp
  with assms show ?thesis by (simp add: find_plan_def)
qed

lemma attach_in_tx_plan_core:
  assumes "attach_in_tx env pid pty actor bump db = Inr db'"
  shows "map plan_core (db_plans db') = map plan_core (db_plans db)" "db_ptys db' = db_ptys db"
  using assms by (cases rule: attach_in_tx_InrE; auto simp: plan_facts_def)+

text \<open>Popping PTYs onto an open parent keeps the invariant.\<close>

lemma pop_ptys_inv:
  assumes inv: "plans_inv draw db" and parent: "find_plan db parent = Some p"
    and opn: "plan_open_status (pl_status p)"
    and op: "res_fold (pop_pty env parent actor) ptys db = Inr db'"
  shows "plans_inv draw db' \<and> map plan_core (db_plans db') = map plan_core (db_plans db)
    \<and> db_ptys db' = db_ptys db"
proof (rule res_fold_invariant [OF op, where P = "\<lambda>db'. plans_inv draw db'
    \<and> map plan_core (db_plans db') = map plan_core (db_plans db) \<and> db_ptys db' = db_ptys db"])
  fix pty db1 db2
  assume P: "plans_inv draw db1 \<and> map plan_core (db_plans db1) = map plan_core (db_plans db)
      \<and> db_ptys db1 = db_ptys db" and step: "pop_pty env parent actor pty db1 = Inr db2"
  then obtain p1 where p1: "find_plan db1 parent = Some p1" "plan_core p1 = plan_core p"
    using find_plan_core [OF _ parent, of db1] by blast
  then have "plan_open_status (pl_status p1)" using opn by (simp add: plan_core_def)
  with P step p1 show "plans_inv draw db2 \<and> map plan_core (db_plans db2) = map plan_core (db_plans db)
      \<and> db_ptys db2 = db_ptys db"
    by (auto simp: pop_pty_def split: if_splits intro: plans_inv_attach_in_tx
        dest: attach_in_tx_plan_core)
qed (use inv in simp)

text \<open>
  Closing a plan: the closed row still has its attachments when \<open>close_branch_into_parent\<close>
  starts, so the invariant is assumed of the tables after the detachment.
\<close>

lemma close_branch_inv:
  assumes det: "plans_inv draw (detach_where env (\<lambda>a. at_plan_id a = pid) db)"
    and op: "close_branch_into_parent env pid parent status actor nt db = Inr db'"
  shows "plans_inv draw db'"
proof -
  let ?det = "detach_where env (\<lambda>a. at_plan_id a = pid)"
  define parent_open where "parent_open \<longleftrightarrow> (case parent of
      Some parent_id \<Rightarrow> (case find_plan db parent_id of
         Some p \<Rightarrow> plan_open_status (pl_status p) | None \<Rightarrow> False) | None \<Rightarrow> False)"
  show ?thesis
  proof (cases parent_open)
    case False
    with op det show ?thesis
      by (auto simp: close_branch_into_parent_def Let_def parent_open_def split: option.splits)
  next
    case True
    then obtain parent_id p where p: "parent = Some parent_id" "find_plan db parent_id = Some p"
      "plan_open_status (pl_status p)"
      by (auto simp: parent_open_def split: option.splits)
    define db1 where "db1 = (if status = ''completed''
        then release_anchors env pid parent_id actor nt db else db)"
    from op p obtain db2 where
      pops: "res_fold (pop_pty env parent_id actor)
        (map at_pty_session_id (active_attachments_of db1 pid)) (?det db1) = Inr db2"
      and db': "plan_facts db' = plan_facts db2"
      by (auto simp: close_branch_into_parent_def Let_def db1_def)
    have "plans_inv draw (?det db1)"
      using det by (simp add: db1_def detach_where_release_anchors release_anchors_inv)
    moreover have "find_plan (?det db1) parent_id = Some p"
      using p(2) by (simp add: find_plan_def db1_def)
    ultimately have "plans_inv draw db2"
      using pop_ptys_inv [OF _ _ p(3) pops] by blast
    with plans_inv_cong [OF db'] show ?thesis by simp
  qed
qed

lemma plan_updated_ok:
  "validate_plan_status status = Inr () \<Longrightarrow> plan_status_ok (plan_updated env title summary g status p)"
  by (auto simp: plan_status_ok_def plan_updated_def validate_plan_status_def split: option.splits)

lemma plan_updated_keeps [simp]:
  "plan_shape (plan_updated env title summary g status p) = plan_shape p"
  "pl_status (plan_updated env title summary g status p) = status"
  "pl_id (plan_updated env title summary g status p) = pl_id p"
  "pl_parent_plan_id (plan_updated env title summary g status p) = pl_parent_plan_id p"
  by (simp_all add: plan_shape_def plan_updated_def)

text \<open>What an accepted plan update has checked before it writes.\<close>

lemma update_tx_InrE:
  assumes "update_tx env pid i actor db = Inr (pid', db')"
  obtains current title summary g status nt where
    "pid' = pid" "find_plan db pid = Some current"
    "status = (case ui_status i of Some s \<Rightarrow> s | None \<Rightarrow> pl_status current)"
    "validate_plan_status status = Inr ()"
    "plan_closed_status status \<Longrightarrow> open_branches db pid = []"
    "status = ''completed'' \<Longrightarrow> \<not> ui_skip_remaining i \<Longrightarrow>
       count_phases db pid (\<lambda>s. \<not> phase_done_status s) = 0"
    "update_write env pid i actor current title summary g status nt db = Inr db'"
proof -
  let ?st = "\<lambda>c. case ui_status i of Some s \<Rightarrow> s | None \<Rightarrow> pl_status c"
  from assms obtain current title summary g nt u where
    "find_plan db pid = Some current" "validate_plan_status (?st current) = Inr u"
    "\<not> (plan_closed_status (?st current) \<and> open_branches db pid \<noteq> [])"
    "\<not> (?st current = ''completed'' \<and> 0 < count_phases db pid (\<lambda>s. \<not> phase_done_status s)
        \<and> \<not> ui_skip_remaining i)"
    "update_write env pid i actor current title summary g (?st current) nt db = Inr db'" "pid' = pid"
    unfolding update_tx_def Let_def
    by (simp only: res_bind_eq_Inr_iff ok_or_eq_Inr_iff guard_eq_Inr_iff sum.inject prod.inject) blast
  then show thesis by (intro that [of current "?st current"]) auto
qed

lemma update_write_inv:
  assumes inv: "plans_inv draw db" and st: "validate_plan_status status = Inr ()"
    and op: "update_write env pid i actor current title summary g status nt db = Inr db'"
  shows "plans_inv draw db'"
proof -
  define db1 where "db1 = (if plan_closed_status status \<and> ui_skip_remaining i
            then skip_remaining_phases env pid actor nt db else db)"
  define ps where "ps = update_where (\<lambda>p. pl_id p = pid)
     (plan_updated env title summary g status) (db_plans db1)"
  have inv1: "plans_inv draw db1"
    using inv by (simp add: db1_def skip_remaining_inv)
  from op obtain ty db2 where db2: "db2 = insert_event env pid None ty actor
      (Some (pl_status current)) (Some status) nt
      (record_change env pid actor (Some (pl_guidance current)) g nt (db1\<lparr>db_plans := ps\<rparr>))"
    and fin: "(if plan_closed_status status
         then close_branch_into_parent env pid (pl_parent_plan_id current) status actor nt db2
         else Inr db2) = Inr db'"
    unfolding update_write_def Let_def ps_def db1_def by blast
  show ?thesis
  proof (cases "plan_closed_status status")
    case False
    then have "plan_open_status status"
      using st by (auto simp: validate_plan_status_def plan_closed_status_def plan_open_status_def)
    then have "plans_inv draw db2"
      unfolding db2 plans_inv_bookkeeping ps_def
      by (intro plans_inv_update_plans [OF inv1]) (simp add: plan_updated_ok st)
    with False fin show ?thesis by simp
  next
    case True
    let ?det = "detach_where env (\<lambda>a. at_plan_id a = pid)"
    have "plans_inv draw ((?det db1)\<lparr>db_plans := update_where (\<lambda>p. pl_id p = pid)
           (plan_updated env title summary g status) (db_plans (?det db1))\<rparr>)"
      using no_pairs_after_detach_plan [of pid env db1]
      by (intro plans_inv_update_plans plans_inv_detach_where [OF inv1]) (simp add: plan_updated_ok st)
    then have "plans_inv draw (?det db2)"
      by (simp add: db2 detach_where_insert_event detach_where_record_change detach_where_plans ps_def)
    with True fin show ?thesis by (auto intro: close_branch_inv)
  qed
qed

lemma update_tx_inv:
  assumes "plans_inv draw db" "update_tx env pid i actor db = Inr (pid', db')"
  shows "plans_inv draw db'"
  using assms(2) by (cases rule: update_tx_InrE) (use assms(1) update_write_inv in blast)

section \<open>Attaching, detaching, branching\<close>

lemma ensure_plan_open_Inr:
  assumes "plans_inv draw db" "ensure_plan_open pid db = Inr u" "find_plan db pid = Some p"
  shows "plan_open_status (pl_status p)"
proof -
  have "plan_status_ok p"
    using assms(1) find_plan_Some(1) [OF assms(3)] by (auto simp: plans_inv_def statuses_ok_def)
  with assms(2,3) show ?thesis
    by (auto simp: ensure_plan_open_def plan_status_ok_def plan_open_status_def plan_closed_status_def)
qed

lemma attach_tx_inv:
  assumes "plans_inv draw db" "attach_tx env pid pty actor db = Inr (pid', db')"
  shows "plans_inv draw db'"
  using assms by (auto simp: attach_tx_def intro: plans_inv_attach_in_tx ensure_plan_open_Inr)

lemma detach_tx_inv:
  assumes "plans_inv draw db" "detach_tx env pid pty actor db = Inr (pid', db')"
  shows "plans_inv draw db'"
  using assms by (auto simp: detach_tx_def Let_def plans_inv_detach_where)

lemma plans_inv_add_anchor:
  assumes "plans_inv draw db"
    and "\<exists>p \<in> set (db_plans db). pl_id p = pid \<and>
        (\<exists>ph \<in> set (db_phases db). ph_id ph = phid \<and> pl_parent_plan_id p = Some (ph_plan_id ph))"
  shows "plans_inv draw (db\<lparr>db_anchors := db_anchors db @ [(pid, phid)]\<rparr>)"
proof -
  have "active_pairs (db\<lparr>db_anchors := db_anchors db @ [(pid, phid)]\<rparr>) = active_pairs db"
    by (simp add: active_pairs_def)
  moreover have "anchors_ok (db\<lparr>db_anchors := db_anchors db @ [(pid, phid)]\<rparr>)"
    using assms unfolding plans_inv_def anchors_ok_def by auto
  ultimately show ?thesis
    using assms by (simp add: plans_inv_def attachments_ok_def statuses_ok_def supply_ok_def ptys_ok_def)
qed

lemma insert_phases_keeps:
  "set (map (\<lambda>ph. (ph_id ph, ph_plan_id ph)) (db_phases db)) \<subseteq>
   set (map (\<lambda>ph. (ph_id ph, ph_plan_id ph)) (db_phases (insert_phases env pid phases actor db)))"
proof -
  have "set (db_phases db) \<subseteq> set (db_phases (fold (insert_phase env pid actor) xs db))" for xs
  proof (induction xs arbitrary: db)
    case (Cons x xs)
    obtain k t d st sz where x: "x = (k, t, d, st, sz)" by (cases x) auto
    have "set (db_phases db) \<subseteq> set (db_phases (insert_phase env pid actor x db))"
      by (auto simp: x insert_phase_def new_v4_def Let_def)
    with Cons.IH [of "insert_phase env pid actor x db"] show ?case by auto
  qed simp
  then show ?thesis by (force simp: insert_phases_def)
qed

text \<open>The anchors a branch names are phases of its parent.\<close>

lemma resolve_phase_id_in_plan:
  assumes "resolve_phase_id env db pid reference = Inr phid"
  shows "\<exists>ph \<in> set (plan_phases_of db pid). ph_id ph = phid"
  using assms
  by (auto simp: resolve_phase_id_def plan_phases_of_def split: option.splits dest!: find_Some_in)

lemma resolve_refs_in_plan:
  assumes "resolve_refs env db pid refs out = Inr anchors"
    "\<forall>phid \<in> set out. \<exists>ph \<in> set (plan_phases_of db pid). ph_id ph = phid"
  shows "\<forall>phid \<in> set anchors. \<exists>ph \<in> set (plan_phases_of db pid). ph_id ph = phid"
  using assms
proof (induction refs arbitrary: out)
  case (Cons reference refs)
  then obtain phid where phid: "resolve_phase_id env db pid reference = Inr phid"
    and rest: "resolve_refs env db pid refs (if phid \<in> set out then out else out @ [phid]) = Inr anchors"
    by auto
  show ?case
    by (rule Cons.IH [OF rest]) (use Cons.prems(2) resolve_phase_id_in_plan [OF phid] in auto)
qed simp

lemma current_phase_in_plan:
  assumes "current_phase db pid = Some ph"
  shows "ph \<in> set (plan_phases_of db pid)" "ph_status ph \<in> {''in_progress'', ''blocked''}"
proof -
  let ?xs = "filter (\<lambda>ph. ph_status ph = ''in_progress'' \<or> ph_status ph = ''blocked'') (plan_phases_of db pid)"
  have "ph \<in> set (sort_key (\<lambda>ph. (if ph_status ph = ''blocked'' then 0 else 1 :: int, ph_position ph)) ?xs)"
    using assms by (simp add: current_phase_def del: set_sort split: list.splits)
  then have "ph \<in> set ?xs" by (simp only: set_sort)
  then show "ph \<in> set (plan_phases_of db pid)" "ph_status ph \<in> {''in_progress'', ''blocked''}" by auto
qed

lemma resolve_anchor_phases_in_plan:
  assumes "resolve_anchor_phases env db pid refs = Inr anchors"
  shows "\<forall>phid \<in> set anchors. \<exists>ph \<in> set (plan_phases_of db pid). ph_id ph = phid"
  using assms current_phase_in_plan(1) [of db pid] resolve_refs_in_plan [of env db pid refs "[]"]
  by (auto simp: resolve_anchor_phases_def split: if_splits)

lemma open_anchor_inv:
  assumes "plans_inv draw db"
    and "\<exists>p \<in> set (db_plans db). pl_id p = pid \<and>
        (\<exists>ph \<in> set (db_phases db). ph_id ph = anchor \<and> pl_parent_plan_id p = Some (ph_plan_id ph))"
  shows "plans_inv draw (open_anchor env pid parent actor nt anchor db)"
proof -
  let ?db = "db\<lparr>db_anchors := db_anchors db @ [(pid, anchor)]\<rparr>"
  have "plans_inv draw (?db\<lparr>db_phases :=
      update_where (\<lambda>ph. ph_id ph = anchor \<and> ph_status ph = ''pending'')
        (\<lambda>ph. ph\<lparr>ph_status := ''in_progress'', ph_started_at := (case ph_started_at ph of
             None \<Rightarrow> Some (env_now env) | Some t \<Rightarrow> Some t), ph_updated_at := env_now env\<rparr>)
        (db_phases ?db)\<rparr>)"
    by (rule plans_inv_update_phases [OF plans_inv_add_anchor [OF assms]])
       (auto simp: phase_slot_def phase_status_ok_def phase_done_status_def)
  then show ?thesis by (simp add: open_anchor_def)
qed

lemma open_anchor_frame [simp]:
  "db_plans (open_anchor env pid parent actor nt anchor db) = db_plans db"
  "db_ptys (open_anchor env pid parent actor nt anchor db) = db_ptys db"
  "map (\<lambda>ph. (ph_id ph, ph_plan_id ph)) (db_phases (open_anchor env pid parent actor nt anchor db))
    = map (\<lambda>ph. (ph_id ph, ph_plan_id ph)) (db_phases db)"
  by (simp_all add: open_anchor_def map_update_where)

lemma open_anchors_inv:
  assumes "plans_inv draw db" "p \<in> set (db_plans db)" "pl_id p = pid" "pl_parent_plan_id p = Some parent"
    and "\<forall>phid \<in> set anchors. (phid, parent) \<in> set (map (\<lambda>ph. (ph_id ph, ph_plan_id ph)) (db_phases db))"
  shows "plans_inv draw (fold (open_anchor env pid parent actor nt) anchors db)
    \<and> db_plans (fold (open_anchor env pid parent actor nt) anchors db) = db_plans db"
  using assms
proof (induction anchors arbitrary: db)
  case (Cons a anchors)
  have "plans_inv draw (open_anchor env pid parent actor nt a db)"
    using Cons.prems by (intro open_anchor_inv) force+
  with Cons.IH [of "open_anchor env pid parent actor nt a db"] Cons.prems show ?case
    by (simp del: set_map)
qed simp

lemma shapes_find_plan:
  "find_plan db pid = Some p \<Longrightarrow>
    (pid, pl_repo_name p, pl_parent_plan_id p, pl_root_plan_id p, pl_depth p) \<in> set (shapes db)"
  using find_plan_Some [of db pid p] by (force simp: plan_shape_def)

lemma branch_tx_inv:
  assumes inv: "plans_inv (env_draw env) db" and inj: "inj (env_draw env)"
    and op: "branch_tx env parent i actor db = Inr (pid', db')"
  shows "plans_inv (env_draw env) db'"
proof -
  obtain pid db1 where draw: "new_v4 env db = (pid, db1)" by fastforce
  from op obtain p title summary g nt phases anchors where
    p: "find_plan db parent = Some p"
    and ph: "validate_new_phases (bi_phases i) (bi_all_pending i) = Inr phases"
    and deep: "pl_depth p + 1 \<le> MAX_BRANCH_DEPTH"
    and anc: "resolve_anchor_phases env db parent (bi_parent_phase_refs i) = Inr anchors"
    and att: "(case ac_pty_session_id actor of
        Some pty \<Rightarrow> attach_in_tx env pid pty actor False (bump_revision env parent
          (fold (open_anchor env pid parent actor (branch_note title nt)) anchors
            (insert_phases env pid phases actor (insert_plan env pid (pl_repo_name p) title summary g
              (Some parent) (pl_root_plan_id p) (pl_depth p + 1) actor db1))))
      | None \<Rightarrow> Inr (bump_revision env parent
          (fold (open_anchor env pid parent actor (branch_note title nt)) anchors
            (insert_phases env pid phases actor (insert_plan env pid (pl_repo_name p) title summary g
              (Some parent) (pl_root_plan_id p) (pl_depth p + 1) actor db1))))) = Inr db'"
    by (auto simp: branch_tx_def draw Let_def)
  let ?db = "insert_phases env pid phases actor (insert_plan env pid (pl_repo_name p) title summary g
              (Some parent) (pl_root_plan_id p) (pl_depth p + 1) actor db1)"
  let ?db2 = "fold (open_anchor env pid parent actor (branch_note title nt)) anchors ?db"
  have fresh: "pid \<notin> pl_id ` set (db_plans db)"
    using plans_inv_draw(2) [OF inv inj] draw by (auto simp: new_v4_def)
  have tree: "tree_ok (shapes db @ [(pid, pl_repo_name p, Some parent, pl_root_plan_id p, pl_depth p + 1)])"
    using inv fresh shapes_find_plan [OF p] deep
    by (intro tree_ok_snoc_branch) (auto simp: plans_inv_def plan_shape_def)
  note opened = open_plan_inv [OF inv inj draw tree validate_new_phases_status [OF ph],
      of ?db actor title summary g, OF refl]
  obtain q where q: "db_plans ?db = db_plans db @ [q]" "pl_status q = ''active''" "pl_id q = pid"
    "pl_parent_plan_id q = Some parent"
    using opened(3) by blast
  have "set (map (\<lambda>ph. (ph_id ph, ph_plan_id ph)) (db_phases db))
      \<subseteq> set (map (\<lambda>ph. (ph_id ph, ph_plan_id ph)) (db_phases ?db))"
    using insert_phases_keeps [of "insert_plan env pid (pl_repo_name p) title summary g
        (Some parent) (pl_root_plan_id p) (pl_depth p + 1) actor db1" env pid phases actor] draw
    by (auto simp: new_v4_def)
  then have "\<forall>phid \<in> set anchors. (phid, parent) \<in> set (map (\<lambda>ph. (ph_id ph, ph_plan_id ph)) (db_phases ?db))"
    using resolve_anchor_phases_in_plan [OF anc] by (fastforce simp: plan_phases_of_def)
  then have anchored: "plans_inv (env_draw env) ?db2 \<and> db_plans ?db2 = db_plans ?db"
    using q by (intro open_anchors_inv [OF opened(1)]) auto
  have "tree_ok (shapes ?db2)" using anchored unfolding plans_inv_def by blast
  moreover have "db_plans ?db2 = db_plans db @ [q]" using anchored q(1) by simp
  ultimately have "find_plan ?db2 pid = Some q"
    using find_plan_appended q(3) by blast
  then obtain q' where q': "find_plan (bump_revision env parent ?db2) pid = Some q'"
    "plan_core q' = plan_core q"
    using find_plan_core [of "bump_revision env parent ?db2" ?db2] by auto
  have inv2: "plans_inv (env_draw env) (bump_revision env parent ?db2)" using anchored by simp
  have opn: "plan_open_status (pl_status x)" if "find_plan (bump_revision env parent ?db2) pid = Some x" for x
    using that q' q(2) by (simp add: plan_open_status_def plan_core_def)
  show ?thesis
  proof (cases "ac_pty_session_id actor")
    case None
    with att inv2 show ?thesis by (simp only: option.case sum.inject)
  next
    case (Some pty)
    with att have "attach_in_tx env pid pty actor False (bump_revision env parent ?db2) = Inr db'"
      by (simp only: option.case)
    then show ?thesis using opn by (rule plans_inv_attach_in_tx [OF inv2])
  qed
qed

section \<open>The service\<close>

text \<open>
  One step of the service: an operation with any input, or a PTY starting (under a new identifier,
  not yet attached to anything), ending or changing its agent session. \<open>draw\<close> is the generator of
  identifiers, the same for every operation.
\<close>

inductive plan_step :: "(nat \<Rightarrow> uuid) \<Rightarrow> plan_db \<Rightarrow> plan_db \<Rightarrow> bool" for draw where
  create: "env_draw env = draw \<Longrightarrow> plan_step draw db (fst (plan_create env ci actor db))"
| update: "env_draw env = draw \<Longrightarrow> plan_step draw db (fst (plan_update env pid ui actor db))"
| attach: "env_draw env = draw \<Longrightarrow> plan_step draw db (fst (plan_attach env pid pty actor db))"
| detach: "env_draw env = draw \<Longrightarrow> plan_step draw db (fst (plan_detach env pid pty actor db))"
| add: "env_draw env = draw \<Longrightarrow> plan_step draw db (fst (add_phase env pid phase actor db))"
| edit: "env_draw env = draw \<Longrightarrow> plan_step draw db (fst (update_phase env pid phid pi actor db))"
| branch: "env_draw env = draw \<Longrightarrow> plan_step draw db (fst (plan_branch env pid bi actor db))"
| pty_start: "pt_id r \<notin> pt_id ` set (db_ptys db) \<Longrightarrow>
    pt_id r \<notin> at_pty_session_id ` set (db_attachments db) \<Longrightarrow>
    plan_step draw db (db\<lparr>db_ptys := db_ptys db @ [r]\<rparr>)"
| pty_change: "plan_step draw db (db\<lparr>db_ptys := update_where (\<lambda>r. pt_id r = pty)
    (\<lambda>r. r\<lparr>pt_state := st, pt_current_session_uuid := ses\<rparr>) (db_ptys db)\<rparr>)"

definition empty_plan_db :: plan_db where
  "empty_plan_db = \<lparr>db_plans = [], db_phases = [], db_attachments = [], db_events = [],
     db_anchors = [], db_ptys = [], db_drawn = 0\<rparr>"

inductive plan_reachable :: "(nat \<Rightarrow> uuid) \<Rightarrow> plan_db \<Rightarrow> bool" for draw where
  start: "plan_reachable draw empty_plan_db"
| step: "plan_reachable draw db \<Longrightarrow> plan_step draw db db' \<Longrightarrow> plan_reachable draw db'"

lemma plans_inv_empty: "plans_inv draw empty_plan_db"
  by (simp add: empty_plan_db_def plans_inv_def tree_ok_def slots_ok_def attachments_ok_def
      active_pairs_def anchors_ok_def statuses_ok_def supply_ok_def ptys_ok_def)

lemma commit_inv:
  assumes "plans_inv draw db" "\<And>pid db'. r = Inr (pid, db') \<Longrightarrow> plans_inv draw db'"
  shows "plans_inv draw (fst (commit db r))"
  using assms by (auto simp: commit_def split: sum.splits)

lemmas tx_inv = create_tx_inv update_tx_inv attach_tx_inv detach_tx_inv add_phase_tx_inv
  update_phase_tx_inv branch_tx_inv

lemma plans_inv_ptys:
  assumes inv: "plans_inv draw db" and ids: "distinct (map pt_id rs)"
    and repos: "\<And>r. r \<in> set rs \<Longrightarrow> pt_id r \<in> fst ` set (active_pairs db) \<Longrightarrow>
      \<exists>r' \<in> set (db_ptys db). pt_id r' = pt_id r \<and> pt_repo r' = pt_repo r"
  shows "plans_inv draw (db\<lparr>db_ptys := rs\<rparr>)"
proof -
  have ap: "active_pairs (db\<lparr>db_ptys := rs\<rparr>) = active_pairs db" by (simp add: active_pairs_def)
  have "attachments_ok (db\<lparr>db_ptys := rs\<rparr>)"
    unfolding attachments_ok_def ap
  proof (intro conjI ballI, goal_cases)
    case 1
    show ?case using inv by (simp add: plans_inv_def attachments_ok_def)
  next
    case (2 x)
    obtain pty q where x: "x = (pty, q)" by (cases x)
    with inv 2 obtain p where p: "p \<in> set (db_plans db)" "pl_id p = q"
      "plan_open_status (pl_status p)" "\<forall>r \<in> set (db_ptys db). pt_id r = pty \<longrightarrow> pt_repo r = pl_repo_name p"
      by (auto simp: plans_inv_def attachments_ok_def)
    have "pt_repo r = pl_repo_name p" if "r \<in> set rs" "pt_id r = pty" for r
      using repos [OF that(1)] that(2) 2 x p(4) by force
    with p show ?case unfolding x by auto
  qed
  with inv ids show ?thesis
    by (simp add: plans_inv_def anchors_ok_def statuses_ok_def supply_ok_def ptys_ok_def)
qed

lemma plan_step_inv:
  assumes "plan_step draw db db'" "inj draw" "plans_inv draw db"
  shows "plans_inv draw db'"
  using assms
proof (induction rule: plan_step.induct)
  case (pty_start r db)
  then have "pt_id r \<notin> fst ` set (active_pairs db)" by (auto simp: active_pairs_def)
  with pty_start show ?case
    by (intro plans_inv_ptys) (auto simp: plans_inv_def ptys_ok_def)
next
  case (pty_change db pty ses st)
  have "map pt_id (update_where (\<lambda>r. pt_id r = pty)
      (\<lambda>r. r\<lparr>pt_state := st, pt_current_session_uuid := ses\<rparr>) (db_ptys db)) = map pt_id (db_ptys db)"
    by (rule map_update_where) simp
  with pty_change show ?case
    by (intro plans_inv_ptys) (auto simp: plans_inv_def ptys_ok_def set_update_where)
qed (auto simp: plan_create_def plan_update_def plan_attach_def plan_detach_def add_phase_def
    update_phase_def plan_branch_def intro!: commit_inv intro: tx_inv)

lemma plan_reachable_inv: "plan_reachable draw db \<Longrightarrow> inj draw \<Longrightarrow> plans_inv draw db"
  by (induction rule: plan_reachable.induct) (auto simp: plans_inv_empty intro: plan_step_inv)

end
