(* ===== verification/Plans_History.thy ===== *)
theory Plans_History
  imports Plans_Steps
begin

text \<open>
  The history of the plan tables: the event log only grows, plans are never removed or moved in
  their tree, and a plan row that changes gets a larger revision. The rules for loops are stated
  once, for any reflexive and transitive growth relation.
\<close>

section \<open>Growth under loops\<close>

locale growth =
  fixes grows :: "'s \<Rightarrow> 's \<Rightarrow> bool"
  assumes grows_refl: "grows s s"
    and grows_trans: "grows s t \<Longrightarrow> grows t u \<Longrightarrow> grows s u"
begin

lemma fold_grows:
  assumes "\<And>x s. grows s (f x s)"
  shows "grows s (fold f xs s)"
proof (induction xs arbitrary: s)
  case (Cons x xs)
  then show ?case using assms grows_trans by fastforce
qed (simp add: grows_refl)

lemma res_fold_grows:
  assumes "res_fold f xs s = Inr t" "\<And>x s t. f x s = Inr t \<Longrightarrow> grows s t"
  shows "grows s t"
  using assms(1)
proof (induction xs arbitrary: s)
  case (Cons x xs)
  then show ?case using assms(2) grows_trans by fastforce
qed (simp add: grows_refl)

lemma steps_grow:
  assumes "step\<^sup>*\<^sup>* s t" "\<And>s t. step s t \<Longrightarrow> grows s t"
  shows "grows s t"
  using assms(1) by (induction rule: rtranclp_induct) (use assms(2) grows_refl grows_trans in blast)+

end

section \<open>Growth of the plan tables\<close>

definition row_grows :: "plan_row \<Rightarrow> plan_row \<Rightarrow> bool" where
  "row_grows p q \<longleftrightarrow> q = p \<or> plan_shape q = plan_shape p \<and> pl_revision p < pl_revision q"

definition plan_grows :: "plan_db \<Rightarrow> plan_db \<Rightarrow> bool" where
  "plan_grows db db' \<longleftrightarrow> prefix (db_events db) (db_events db')
     \<and> (\<forall>p \<in> set (db_plans db). \<exists>q \<in> set (db_plans db'). row_grows p q)"

lemma row_grows_trans: "row_grows p q \<Longrightarrow> row_grows q r \<Longrightarrow> row_grows p r"
  by (auto simp: row_grows_def)

interpretation plan_history: growth plan_grows
proof
  show "plan_grows s s" for s by (auto simp: plan_grows_def row_grows_def)
  show "plan_grows s u" if "plan_grows s t" "plan_grows t u" for s t u
    using that unfolding plan_grows_def
    by (meson prefix_order.trans row_grows_trans)
qed

lemma plan_grows_frame:
  "db_events db' = db_events db \<Longrightarrow> db_plans db' = db_plans db \<Longrightarrow> plan_grows db db'"
  by (auto simp: plan_grows_def row_grows_def)

lemma plan_grows_insert_event: "plan_grows db (insert_event env pid phid t a f to n db)"
  by (auto simp: plan_grows_def row_grows_def insert_event_def)

lemma plan_grows_record_change: "plan_grows db (record_change env pid a b af n db)"
  by (auto simp: plan_grows_def row_grows_def record_change_def)

lemma plan_grows_update_plans:
  assumes "\<And>p. P p \<Longrightarrow> row_grows p (f p)"
  shows "plan_grows db (db\<lparr>db_plans := update_where P f (db_plans db)\<rparr>)"
proof -
  have "row_grows p (if P p then f p else p)" for p using assms by (simp add: row_grows_def)
  moreover have "(if P p then f p else p) \<in> set (update_where P f (db_plans db))"
    if "p \<in> set (db_plans db)" for p
    using that by (auto simp: set_update_where)
  ultimately show ?thesis unfolding plan_grows_def by simp blast
qed

lemma plan_grows_bump_revision: "plan_grows db (bump_revision env pid db)"
  unfolding bump_revision_def
  by (rule plan_grows_update_plans) (simp add: row_grows_def plan_shape_def)

lemmas plan_grows_base [intro] = plan_history.grows_refl plan_grows_insert_event
  plan_grows_record_change plan_grows_bump_revision

lemma plan_grows_compose:
  "plan_grows db db1 \<Longrightarrow> plan_grows db (insert_event env pid phid t a f to n db1)"
  "plan_grows db db1 \<Longrightarrow> plan_grows db (record_change env pid a b af n db1)"
  "plan_grows db db1 \<Longrightarrow> plan_grows db (bump_revision env pid db1)"
  "plan_grows db db1 \<Longrightarrow> plan_grows db (detach_where env P db1)"
  "plan_grows db db1 \<Longrightarrow> plan_grows db (attach_row env pid pty ses db1)"
  "plan_grows db db1 \<Longrightarrow> plan_grows db (db1\<lparr>db_phases := phs\<rparr>)"
  "plan_grows db db1 \<Longrightarrow> plan_grows db (db1\<lparr>db_drawn := k\<rparr>)"
  "plan_grows db db1 \<Longrightarrow> plan_grows db (db1\<lparr>db_anchors := anc\<rparr>)"
  by (erule plan_history.grows_trans, (rule plan_grows_base | rule plan_grows_frame, simp, simp))+

lemma plan_grows_new_plan: "plan_grows db (db\<lparr>db_plans := db_plans db @ ps\<rparr>)"
  by (auto simp: plan_grows_def row_grows_def)

lemma plan_grows_insert_plan:
  "plan_grows db (insert_plan env pid repo title summary g parent root depth actor db)"
  unfolding insert_plan_def Let_def by (intro plan_grows_compose plan_grows_new_plan)

lemma plan_grows_insert_phases: "plan_grows db (insert_phases env pid phases actor db)"
  unfolding insert_phases_def
  by (rule plan_history.fold_grows)
     (auto simp: insert_phase_def new_v4_def Let_def split: prod.splits intro: plan_grows_compose)

lemma plan_grows_attach_in_tx:
  assumes "attach_in_tx env pid pty actor bump db = Inr db'"
  shows "plan_grows db db'"
  using assms
  by (auto simp: attach_in_tx_def Let_def split: if_splits option.splits intro!: plan_grows_compose)

lemma plan_grows_open_anchors: "plan_grows db (fold (open_anchor env pid parent actor nt) anchors db)"
  by (rule plan_history.fold_grows)
     (auto simp: open_anchor_def intro: plan_grows_compose plan_grows_frame)

lemma plan_grows_skip_remaining: "plan_grows db (skip_remaining_phases env pid actor nt db)"
  unfolding skip_remaining_phases_def
  by (rule plan_history.fold_grows) (auto simp: skip_phase_def intro: plan_grows_compose)

lemma plan_grows_release_anchors: "plan_grows db (release_anchors env pid parent actor nt db)"
  unfolding release_anchors_def Let_def
  by (rule plan_history.grows_trans [OF _ plan_history.fold_grows])
     (auto intro: plan_grows_frame)

lemma plan_grows_pop_ptys:
  assumes "res_fold (pop_pty env parent actor) ptys db = Inr db'"
  shows "plan_grows db db'"
  using assms
  by (rule plan_history.res_fold_grows)
     (auto simp: pop_pty_def split: if_splits intro: plan_grows_attach_in_tx)

lemma plan_grows_close_branch:
  assumes "close_branch_into_parent env pid parent status actor nt db = Inr db'"
  shows "plan_grows db db'"
proof -
  define parent_open where "parent_open \<longleftrightarrow> (case parent of
      Some q \<Rightarrow> (case find_plan db q of Some p \<Rightarrow> plan_open_status (pl_status p) | None \<Rightarrow> False)
    | None \<Rightarrow> False)"
  show ?thesis
  proof (cases "if parent_open then parent else None")
    case None
    then have "db' = detach_where env (\<lambda>a. at_plan_id a = pid) db"
      using assms by (auto simp: close_branch_into_parent_def parent_open_def Let_def)
    then show ?thesis by (auto intro: plan_grows_compose)
  next
    case (Some q)
    define db1 where "db1 = (if status = ''completed'' then release_anchors env pid q actor nt db else db)"
    obtain db2 where db2: "res_fold (pop_pty env q actor) (map at_pty_session_id (active_attachments_of db1 pid))
        (detach_where env (\<lambda>a. at_plan_id a = pid) db1) = Inr db2"
      and db': "db' = insert_event env q None ''branch_closed'' actor None (Some status) nt
        (bump_revision env q db2)"
      using assms Some by (auto simp: close_branch_into_parent_def parent_open_def Let_def db1_def)
    have "plan_grows db db1" by (simp add: db1_def plan_grows_release_anchors plan_history.grows_refl)
    then have "plan_grows db (detach_where env (\<lambda>a. at_plan_id a = pid) db1)" by (rule plan_grows_compose)
    with plan_grows_pop_ptys [OF db2] have "plan_grows db db2" by (rule plan_history.grows_trans [rotated])
    then show ?thesis unfolding db' by (intro plan_grows_compose)
  qed
qed

lemma plan_grows_update_write:
  assumes "update_write env pid i actor cur title summary g status nt db = Inr db'"
  shows "plan_grows db db'"
proof -
  define db1 where "db1 = (if plan_closed_status status \<and> ui_skip_remaining i
    then skip_remaining_phases env pid actor nt db else db)"
  define db2 where "db2 = db1\<lparr>db_plans := update_where (\<lambda>p. pl_id p = pid)
    (plan_updated env title summary g status) (db_plans db1)\<rparr>"
  define db3 where "db3 = insert_event env pid None
     (if status \<noteq> pl_status cur then (if plan_closed_status status then ''plan_closed'' else ''plan_status_changed'')
      else ''plan_updated'')
     actor (Some (pl_status cur)) (Some status) nt
     (record_change env pid actor (Some (pl_guidance cur)) g nt db2)"
  have "plan_grows db db1" by (simp add: db1_def plan_grows_skip_remaining plan_history.grows_refl)
  moreover have "plan_grows db1 db2" unfolding db2_def
    by (rule plan_grows_update_plans) (simp add: row_grows_def plan_updated_def plan_shape_def)
  ultimately have "plan_grows db db2" by (rule plan_history.grows_trans)
  then have "plan_grows db db3" unfolding db3_def by (intro plan_grows_compose)
  moreover have "db' = db3 \<or> close_branch_into_parent env pid (pl_parent_plan_id cur) status actor nt db3 = Inr db'"
    using assms by (auto simp: update_write_def Let_def db1_def db2_def db3_def split: if_splits)
  ultimately show ?thesis using plan_grows_close_branch plan_history.grows_trans by blast
qed

text \<open>Every transaction that commits grows the tables.\<close>

lemma create_tx_grows:
  assumes "create_tx env i actor db = Inr (pid, db')"
  shows "plan_grows db db'"
proof -
  from assms obtain q repo title summary g phases where
    "(case (ci_attach_current_pty i, ac_pty_session_id actor) of
        (True, Some pty) \<Rightarrow> attach_in_tx env q pty actor False
          (insert_phases env q phases actor (insert_plan env q repo title summary g None q 0 actor
            (db\<lparr>db_drawn := Suc (db_drawn db)\<rparr>)))
      | _ \<Rightarrow> Inr (insert_phases env q phases actor (insert_plan env q repo title summary g None q 0 actor
            (db\<lparr>db_drawn := Suc (db_drawn db)\<rparr>)))) = Inr db'"
    by (auto simp: create_tx_def new_v4_def Let_def)
  then have "plan_grows (insert_phases env q phases actor (insert_plan env q repo title summary g None q 0 actor
      (db\<lparr>db_drawn := Suc (db_drawn db)\<rparr>))) db'"
    by (auto split: bool.splits option.splits intro: plan_grows_attach_in_tx)
  then show ?thesis
    using plan_grows_insert_phases plan_grows_insert_plan plan_grows_compose(7) [OF plan_history.grows_refl]
      plan_history.grows_trans by metis
qed

lemma branch_tx_grows:
  assumes "branch_tx env parent i actor db = Inr (pid, db')"
  shows "plan_grows db db'"
proof -
  from assms obtain q repo title summary g root d nt phases anchors where
    att: "(case ac_pty_session_id actor of
        Some pty \<Rightarrow> attach_in_tx env q pty actor False (bump_revision env parent
          (fold (open_anchor env q parent actor nt) anchors
            (insert_phases env q phases actor (insert_plan env q repo title summary g
              (Some parent) root d actor (db\<lparr>db_drawn := Suc (db_drawn db)\<rparr>)))))
      | None \<Rightarrow> Inr (bump_revision env parent
          (fold (open_anchor env q parent actor nt) anchors
            (insert_phases env q phases actor (insert_plan env q repo title summary g
              (Some parent) root d actor (db\<lparr>db_drawn := Suc (db_drawn db)\<rparr>)))))) = Inr db'"
    by (auto simp: branch_tx_def new_v4_def Let_def)
  define db1 where "db1 = insert_phases env q phases actor (insert_plan env q repo title summary g
              (Some parent) root d actor (db\<lparr>db_drawn := Suc (db_drawn db)\<rparr>))"
  have "plan_grows db db1"
    unfolding db1_def using plan_grows_insert_phases plan_grows_insert_plan
      plan_grows_compose(7) [OF plan_history.grows_refl] plan_history.grows_trans by metis
  then have "plan_grows db (bump_revision env parent (fold (open_anchor env q parent actor nt) anchors db1))"
    using plan_grows_open_anchors plan_history.grows_trans plan_grows_compose(3) by blast
  moreover have "plan_grows (bump_revision env parent (fold (open_anchor env q parent actor nt) anchors db1)) db'"
    using att unfolding db1_def [symmetric]
    by (auto split: option.splits intro: plan_grows_attach_in_tx)
  ultimately show ?thesis by (rule plan_history.grows_trans)
qed

lemma update_phase_tx_grows:
  assumes "update_phase_tx env pid phid i actor db = Inr (pid', db')"
  shows "plan_grows db db'"
proof -
  have "plan_grows db (move_phase env pid phid old req db)" for old req
    by (rule plan_grows_frame) (simp_all add: move_phase_def Let_def)
  with assms show ?thesis
    by (auto simp: update_phase_tx_def Let_def split: option.splits
        intro!: plan_grows_compose plan_history.grows_refl)
qed

lemma other_tx_grows:
  "update_tx env pid ui actor db = Inr (pid', db') \<Longrightarrow> plan_grows db db'"
  "attach_tx env pid pty actor db = Inr (pid', db') \<Longrightarrow> plan_grows db db'"
  "detach_tx env pid pty actor db = Inr (pid', db') \<Longrightarrow> plan_grows db db'"
  "add_phase_tx env pid ph actor db = Inr (pid', db') \<Longrightarrow> plan_grows db db'"
  subgoal by (auto simp: update_tx_def Let_def intro: plan_grows_update_write)
  subgoal by (auto simp: attach_tx_def intro: plan_grows_attach_in_tx)
  subgoal by (auto simp: detach_tx_def Let_def intro!: plan_grows_compose)
  subgoal by (auto simp: add_phase_tx_def new_v4_def Let_def intro!: plan_grows_compose)
  done

lemmas tx_grows = create_tx_grows branch_tx_grows update_phase_tx_grows other_tx_grows

lemma commit_grows:
  "(\<And>pid db'. r = Inr (pid, db') \<Longrightarrow> plan_grows db db') \<Longrightarrow> plan_grows db (fst (commit db r))"
  by (auto simp: commit_def split: sum.splits)

lemma plan_step_grows: "plan_step draw db db' \<Longrightarrow> plan_grows db db'"
  by (induction rule: plan_step.induct)
     (auto simp: plan_create_def plan_update_def plan_attach_def plan_detach_def add_phase_def
        update_phase_def plan_branch_def intro!: commit_grows intro: tx_grows plan_grows_frame)

end
