(* ===== verification/Plans_Closing.thy ===== *)
theory Plans_Closing
  imports Plans_History
begin

text \<open>
  Closing a plan. The current plan of every PTY after each step, as a function of the one before
  (\<open>map_of (active_pairs db)\<close>), the rows a closing update leaves, and that popping the PTYs of a
  branch onto its parent cannot fail.
\<close>

abbreviation current_plan_of :: "plan_db \<Rightarrow> uuid \<Rightarrow> uuid option" where
  "current_plan_of db pty \<equiv> map_option at_plan_id (active_attachment db pty)"

lemma current_plan_of_eq: "current_plan_of db pty = map_of (active_pairs db) pty"
proof -
  have "map_option at_plan_id (find (\<lambda>a. at_pty_session_id a = pty \<and> at_detached_at a = None) rows)
    = map_of (map (\<lambda>a. (at_pty_session_id a, at_plan_id a)) (filter (\<lambda>a. at_detached_at a = None) rows)) pty"
    for rows by (induction rows) auto
  then show ?thesis by (simp add: active_attachment_def active_pairs_def)
qed

section \<open>Attaching and detaching\<close>

lemma map_of_detach_pty:
  "map_of (active_pairs (detach_where env (\<lambda>a. at_pty_session_id a = pty) db))
    = (map_of (active_pairs db))(pty := None)"
proof -
  have "map_of (map (\<lambda>a. (at_pty_session_id a, at_plan_id a))
      (filter (\<lambda>a. at_detached_at a = None \<and> at_pty_session_id a \<noteq> pty) rows))
    = (map_of (map (\<lambda>a. (at_pty_session_id a, at_plan_id a)) (filter (\<lambda>a. at_detached_at a = None) rows)))(pty := None)"
    for rows by (induction rows) auto
  then show ?thesis unfolding active_pairs_detach_where unfolding active_pairs_def .
qed

lemma map_of_detach_plan:
  assumes "distinct (map fst (active_pairs db))"
  shows "map_of (active_pairs (detach_where env (\<lambda>a. at_plan_id a = pid) db)) x
    = (if map_of (active_pairs db) x = Some pid then None else map_of (active_pairs db) x)"
proof -
  have *: "distinct (map fst xs) \<Longrightarrow> map_of (filter (\<lambda>(_, q). q \<noteq> pid) xs) x
      = (if map_of xs x = Some pid then None else map_of xs x)" for xs :: "(uuid \<times> uuid) list"
  proof (induction xs)
    case (Cons y ys)
    have "map_of (filter (\<lambda>(_, q). q \<noteq> pid) ys) (fst y) = None" using Cons.prems
      by (auto simp: map_of_eq_None_iff)
    with Cons show ?case by auto
  qed simp
  have "active_pairs (detach_where env (\<lambda>a. at_plan_id a = pid) db)
      = filter (\<lambda>(_, q). q \<noteq> pid) (active_pairs db)"
    unfolding active_pairs_detach_where unfolding active_pairs_def
    by (simp add: filter_map comp_def conj_commute)
  then show ?thesis using * [OF assms] by simp
qed

lemma map_of_attach_in_tx:
  assumes "attach_in_tx env pid pty actor bump db = Inr db'"
  shows "map_of (active_pairs db') = (map_of (active_pairs db))(pty \<mapsto> pid)"
  using assms
proof (cases rule: attach_in_tx_InrE)
  case same
  then show ?thesis by (auto simp: current_plan_of_eq)
next
  case (moved p r db1)
  have "active_pairs db' = active_pairs db1 @ [(pty, pid)]"
    using moved(4) by (simp add: plan_facts_def)
  moreover have "map_of (active_pairs db1) = (map_of (active_pairs db))(pty := None)"
    using moved(5) current_plan_of_eq [of db pty] by (auto simp: map_of_detach_pty)
  ultimately show ?thesis by (auto simp: map_add_def split: option.splits)
qed

section \<open>Popping PTYs onto the parent\<close>

abbreviation pty_live :: "plan_db \<Rightarrow> uuid \<Rightarrow> bool" where
  "pty_live db pty \<equiv> find_live_pty db pty \<noteq> None"

lemma find_live_pty_cong: "db_ptys db' = db_ptys db \<Longrightarrow> find_live_pty db' pty = find_live_pty db pty"
  by (simp add: find_live_pty_def)

lemma map_of_pop_ptys:
  assumes "res_fold (pop_pty env parent actor) ptys db = Inr db'"
  shows "map_of (active_pairs db') x
    = (if x \<in> set ptys \<and> pty_live db x then Some parent else map_of (active_pairs db) x)"
  using assms
proof (induction ptys arbitrary: db)
  case (Cons pty ptys)
  then obtain db1 where step: "pop_pty env parent actor pty db = Inr db1"
    and rest: "res_fold (pop_pty env parent actor) ptys db1 = Inr db'" by auto
  have "map_of (active_pairs db1) x = (if x = pty \<and> pty_live db pty then Some parent
      else map_of (active_pairs db) x) \<and> db_ptys db1 = db_ptys db"
    using step by (auto simp: pop_pty_def map_of_attach_in_tx attach_in_tx_plan_core split: if_splits)
  with Cons.IH [OF rest] find_live_pty_cong [of db1 db x] show ?case by auto
qed simp

lemma attach_in_tx_total:
  assumes "find_plan db pid = Some p" "find_live_pty db pty = Some r" "pt_repo r = pl_repo_name p"
  shows "\<exists>db'. attach_in_tx env pid pty actor bump db = Inr db'"
  using assms by (auto simp: attach_in_tx_def Let_def)

lemma pop_ptys_total:
  assumes p: "find_plan db parent = Some p"
    and repo: "\<And>x r. x \<in> set ptys \<Longrightarrow> find_live_pty db x = Some r \<Longrightarrow> pt_repo r = pl_repo_name p"
  shows "\<exists>db'. res_fold (pop_pty env parent actor) ptys db = Inr db'"
proof -
  define P where "P db1 \<longleftrightarrow> map plan_core (db_plans db1) = map plan_core (db_plans db)
    \<and> db_ptys db1 = db_ptys db" for db1 :: plan_db
  have "\<exists>db2. pop_pty env parent actor x db1 = Inr db2 \<and> P db2" if x: "x \<in> set ptys" and P: "P db1" for x db1
  proof (cases "find_live_pty db1 x")
    case None
    with P show ?thesis by (simp add: pop_pty_def)
  next
    case (Some r)
    obtain p1 where p1: "find_plan db1 parent = Some p1" "plan_core p1 = plan_core p"
      using find_plan_core [OF _ p, of db1] P by (auto simp: P_def)
    moreover have "pt_repo r = pl_repo_name p"
      using repo [OF x] Some P find_live_pty_cong [of db1 db x] by (simp add: P_def)
    ultimately obtain db2 where "attach_in_tx env parent x actor False db1 = Inr db2"
      using attach_in_tx_total [OF p1(1) Some, of env actor False]
      by (auto simp: plan_core_def plan_shape_def)
    with Some P attach_in_tx_plan_core show ?thesis by (auto simp: pop_pty_def P_def)
  qed
  moreover have "P db" by (simp add: P_def)
  ultimately show ?thesis using res_fold_total [of P db ptys "pop_pty env parent actor"] by blast
qed

section \<open>Closing into the parent\<close>

definition parent_if_open :: "plan_db \<Rightarrow> uuid option \<Rightarrow> uuid option" where
  "parent_if_open db parent = (case parent of
     Some q \<Rightarrow> (case find_plan db q of
        Some p \<Rightarrow> if plan_open_status (pl_status p) then Some q else None | None \<Rightarrow> None)
   | None \<Rightarrow> None)"

lemma parent_if_open_Some:
  "parent_if_open db parent = Some q \<longleftrightarrow>
     parent = Some q \<and> (\<exists>p. find_plan db q = Some p \<and> plan_open_status (pl_status p))"
  by (auto simp: parent_if_open_def split: option.splits)

abbreviation closed_phases ::
  "plan_env \<Rightarrow> uuid \<Rightarrow> uuid \<Rightarrow> plan_actor \<Rightarrow> string option \<Rightarrow> string \<Rightarrow> plan_db \<Rightarrow> plan_db" where
  "closed_phases env pid q actor nt status db \<equiv>
     (if status = ''completed'' then release_anchors env pid q actor nt db else db)"

lemma close_branch_into_parent_eq:
  "close_branch_into_parent env pid parent status actor nt db =
    (case parent_if_open db parent of
       None \<Rightarrow> Inr (detach_where env (\<lambda>a. at_plan_id a = pid) db)
     | Some q \<Rightarrow>
         res_bind (res_fold (pop_pty env q actor)
             (map at_pty_session_id (active_attachments_of db pid))
             (detach_where env (\<lambda>a. at_plan_id a = pid) (closed_phases env pid q actor nt status db)))
           (\<lambda>db. Inr (insert_event env q None ''branch_closed'' actor None (Some status)
                   nt (bump_revision env q db))))"
  by (auto simp: close_branch_into_parent_def parent_if_open_def Let_def active_attachments_of_def
      split: option.splits)

lemma active_pairs_release_anchors [simp]:
  "active_pairs (release_anchors env pid q actor nt db) = active_pairs db"
  by (simp add: active_pairs_def)

lemma set_attached_ptys:
  assumes "distinct (map fst (active_pairs db))"
  shows "x \<in> set (map at_pty_session_id (active_attachments_of db pid)) \<longleftrightarrow>
    map_of (active_pairs db) x = Some pid"
proof -
  have "x \<in> set (map at_pty_session_id (active_attachments_of db pid)) \<longleftrightarrow> (x, pid) \<in> set (active_pairs db)"
    by (auto simp: active_attachments_of_def active_pairs_def)
  then show ?thesis using assms by (simp add: map_of_eq_Some_iff)
qed

lemma current_after_close:
  assumes op: "close_branch_into_parent env pid parent status actor nt db = Inr db'"
    and d: "distinct (map fst (active_pairs db))"
  shows "map_of (active_pairs db') x =
    (if map_of (active_pairs db) x = Some pid
     then (if pty_live db x then parent_if_open db parent else None)
     else map_of (active_pairs db) x)"
proof (cases "parent_if_open db parent")
  case None
  with op show ?thesis by (auto simp: close_branch_into_parent_eq map_of_detach_plan [OF d])
next
  case (Some q)
  let ?db1 = "closed_phases env pid q actor nt status db"
  let ?det = "detach_where env (\<lambda>a. at_plan_id a = pid) ?db1"
  obtain db2 where pops: "res_fold (pop_pty env q actor) (map at_pty_session_id (active_attachments_of db pid)) ?det = Inr db2"
    and db': "active_pairs db' = active_pairs db2"
    using op Some by (auto simp: close_branch_into_parent_eq)
  have ap: "active_pairs ?db1 = active_pairs db" by simp
  have "find_live_pty ?det x = find_live_pty db x" by (rule find_live_pty_cong) simp
  then show ?thesis
    using map_of_pop_ptys [OF pops, of x] map_of_detach_plan [of ?db1 env pid x] d Some
      set_attached_ptys [OF d, of x pid]
    unfolding db' ap by (simp del: set_map)
qed

lemma close_branch_plan_core:
  assumes "close_branch_into_parent env pid parent status actor nt db = Inr db'"
  shows "map plan_core (db_plans db') = map plan_core (db_plans db)"
proof (cases "parent_if_open db parent")
  case (Some q)
  have pop: "map plan_core (db_plans db2) = map plan_core (db_plans db1)"
    if "res_fold (pop_pty env q actor) ptys db1 = Inr db2" for ptys db1 db2
    by (rule res_fold_invariant [OF that, where P = "\<lambda>s. map plan_core (db_plans s) = map plan_core (db_plans db1)"])
       (auto simp: pop_pty_def attach_in_tx_plan_core split: if_splits)
  from Some assms show ?thesis
    by (auto simp: close_branch_into_parent_eq dest!: pop)
qed (use assms in \<open>auto simp: close_branch_into_parent_eq\<close>)

lemma attach_in_tx_phases:
  assumes "attach_in_tx env pid pty actor bump db = Inr db'"
  shows "db_phases db' = db_phases db"
  using assms
  by (auto simp: attach_in_tx_def Let_def split: if_splits option.splits)

lemma attach_in_tx_anchors:
  assumes "attach_in_tx env pid pty actor bump db = Inr db'"
  shows "db_anchors db' = db_anchors db"
  using assms
  by (auto simp: attach_in_tx_def Let_def split: if_splits option.splits)

lemma close_branch_phases:
  assumes "close_branch_into_parent env pid parent status actor nt db = Inr db'"
  shows "db_phases db' = db_phases db \<or> (\<exists>q. db_phases db' = db_phases (release_anchors env pid q actor nt db))"
proof (cases "parent_if_open db parent")
  case (Some q)
  have pop: "db_phases db2 = db_phases db1"
    if "res_fold (pop_pty env q actor) ptys db1 = Inr db2" for ptys db1 db2
    by (rule res_fold_invariant [OF that, where P = "\<lambda>s. db_phases s = db_phases db1"])
       (auto simp: pop_pty_def attach_in_tx_phases split: if_splits)
  from Some assms show ?thesis
    by (auto simp: close_branch_into_parent_eq dest!: pop split: if_splits)
qed (use assms in \<open>auto simp: close_branch_into_parent_eq\<close>)

section \<open>A plan update\<close>

text \<open>The tables an accepted update has written when it comes to the closing of a branch.\<close>

definition update_rows ::
  "plan_env \<Rightarrow> uuid \<Rightarrow> update_plan_input \<Rightarrow> plan_actor \<Rightarrow> plan_row \<Rightarrow> string \<Rightarrow> string \<Rightarrow>
   plan_guidance \<Rightarrow> string \<Rightarrow> string option \<Rightarrow> plan_db \<Rightarrow> plan_db" where
  "update_rows env pid i actor current title summary g status nt db =
     (let db = (if plan_closed_status status \<and> ui_skip_remaining i
                then skip_remaining_phases env pid actor nt db else db)
      in insert_event env pid None
             (if status \<noteq> pl_status current
              then (if plan_closed_status status then ''plan_closed'' else ''plan_status_changed'')
              else ''plan_updated'')
             actor (Some (pl_status current)) (Some status) nt
           (record_change env pid actor (Some (pl_guidance current)) g nt
             (db\<lparr>db_plans := update_where (\<lambda>p. pl_id p = pid)
                 (plan_updated env title summary g status) (db_plans db)\<rparr>)))"

lemma update_write_eq:
  "update_write env pid i actor current title summary g status nt db =
    (if plan_closed_status status
     then close_branch_into_parent env pid (pl_parent_plan_id current) status actor nt
            (update_rows env pid i actor current title summary g status nt db)
     else Inr (update_rows env pid i actor current title summary g status nt db))"
  by (simp add: update_write_def update_rows_def Let_def)

lemma update_rows_tables [simp]:
  "db_plans (update_rows env pid i actor current title summary g status nt db)
    = update_where (\<lambda>p. pl_id p = pid) (plan_updated env title summary g status) (db_plans db)"
  "active_pairs (update_rows env pid i actor current title summary g status nt db) = active_pairs db"
  "db_ptys (update_rows env pid i actor current title summary g status nt db) = db_ptys db"
  "db_phases (update_rows env pid i actor current title summary g status nt db)
    = db_phases (if plan_closed_status status \<and> ui_skip_remaining i
        then skip_remaining_phases env pid actor nt db else db)"
proof -
  have ap: "active_pairs (d\<lparr>db_plans := ps\<rparr>) = active_pairs d" for d ps by (simp add: active_pairs_def)
  show "active_pairs (update_rows env pid i actor current title summary g status nt db) = active_pairs db"
    by (simp add: update_rows_def Let_def ap)
qed (simp_all add: update_rows_def Let_def)

lemma find_update_where:
  assumes "\<And>x. g (f x) = g x"
  shows "find (\<lambda>x. g x = k) (update_where (\<lambda>x. g x = j) f xs)
    = map_option (\<lambda>x. if k = j then f x else x) (find (\<lambda>x. g x = k) xs)"
  using assms by (induction xs) (auto simp: update_where_def)

lemma find_plan_update_rows:
  "find_plan (update_rows env pid i actor current title summary g status nt db) q
    = map_option (\<lambda>p. if q = pid then plan_updated env title summary g status p else p) (find_plan db q)"
  unfolding find_plan_def update_rows_tables
  by (rule find_update_where [where g = pl_id]) simp

lemma parent_if_open_update_rows:
  assumes "parent \<noteq> Some pid"
  shows "parent_if_open (update_rows env pid i actor current title summary g status nt db) parent
    = parent_if_open db parent"
  using assms by (auto simp: parent_if_open_def find_plan_update_rows split: option.splits)

lemma parent_not_self:
  assumes "plans_inv draw db" "find_plan db pid = Some p"
  shows "pl_parent_plan_id p \<noteq> Some pid"
proof
  assume par: "pl_parent_plan_id p = Some pid"
  have tree: "tree_ok (shapes db)" and p: "p \<in> set (db_plans db)" "pl_id p = pid"
    using assms find_plan_Some by (auto simp: plans_inv_def)
  then have "shape_ok (shapes db) (plan_shape p)" by (simp add: tree_ok_def)
  then obtain q where q: "q \<in> set (db_plans db)" "pl_id q = pid" "pl_depth q = pl_depth p - 1"
    using par by (auto simp: shape_ok_def plan_shape_def)
  have "distinct (map pl_id (db_plans db))" using tree by (simp add: tree_ok_def comp_def plan_shape_def)
  with q p have "q = p" by (auto simp: distinct_map inj_on_def)
  with q show False by simp
qed

lemma plan_ids_distinct: "plans_inv draw db \<Longrightarrow> distinct (map pl_id (db_plans db))"
  by (simp add: plans_inv_def tree_ok_def comp_def plan_shape_def)

lemma parent_same_repo:
  assumes inv: "plans_inv draw db" and cur: "find_plan db pid = Some c" "pl_parent_plan_id c = Some q"
    and p: "find_plan db q = Some p"
  shows "pl_repo_name p = pl_repo_name c"
proof -
  have "shape_ok (shapes db) (plan_shape c)"
    using inv find_plan_Some [OF cur(1)] by (simp add: plans_inv_def tree_ok_def)
  then obtain p' where p': "p' \<in> set (db_plans db)" "pl_id p' = q" "pl_repo_name p' = pl_repo_name c"
    using cur(2) by (auto simp: shape_ok_def plan_shape_def)
  with plan_ids_distinct [OF inv] find_plan_Some [OF p] show ?thesis
    by (metis distinct_map inj_onD)
qed

lemma attached_same_repo:
  assumes inv: "plans_inv draw db" and "(x, pid) \<in> set (active_pairs db)"
    and r: "find_live_pty db x = Some r" and c: "find_plan db pid = Some c"
  shows "pt_repo r = pl_repo_name c"
proof -
  obtain p where p: "p \<in> set (db_plans db)" "pl_id p = pid"
    "\<forall>r \<in> set (db_ptys db). pt_id r = x \<longrightarrow> pt_repo r = pl_repo_name p"
    using inv assms(2) by (auto simp: plans_inv_def attachments_ok_def)
  then have "p = c" using plan_ids_distinct [OF inv] find_plan_Some [OF c] by (metis distinct_map inj_onD)
  with p(3) find_live_pty_Some [OF r] show ?thesis by blast
qed

lemma current_after_update:
  assumes inv: "plans_inv draw db" and cur: "find_plan db pid = Some current"
    and op: "update_write env pid i actor current title summary g status nt db = Inr db'"
  shows "map_of (active_pairs db') x =
    (if plan_closed_status status \<and> map_of (active_pairs db) x = Some pid
     then (if pty_live db x then parent_if_open db (pl_parent_plan_id current) else None)
     else map_of (active_pairs db) x)"
proof (cases "plan_closed_status status")
  case True
  let ?r = "update_rows env pid i actor current title summary g status nt db"
  have d: "distinct (map fst (active_pairs ?r))"
    using inv by (simp add: plans_inv_def attachments_ok_def)
  have "find_live_pty ?r x = find_live_pty db x" by (rule find_live_pty_cong) simp
  moreover have "close_branch_into_parent env pid (pl_parent_plan_id current) status actor nt ?r = Inr db'"
    using op True by (simp add: update_write_eq)
  ultimately show ?thesis
    using current_after_close [OF _ d, of env pid _ status actor nt db' x] True
      parent_if_open_update_rows [OF parent_not_self [OF inv cur]] by simp
qed (use op in \<open>auto simp: update_write_eq\<close>)

text \<open>The writes of an accepted update cannot fail: every live PTY of the branch can be popped.\<close>

lemma update_write_total:
  assumes inv: "plans_inv draw db" and cur: "find_plan db pid = Some current"
  shows "\<exists>db'. update_write env pid i actor current title summary g status nt db = Inr db'"
proof (cases "plan_closed_status status")
  case True
  let ?r = "update_rows env pid i actor current title summary g status nt db"
  show ?thesis
  proof (cases "parent_if_open ?r (pl_parent_plan_id current)")
    case None
    with True show ?thesis by (simp add: update_write_eq close_branch_into_parent_eq)
  next
    case (Some q)
    let ?d = "detach_where env (\<lambda>a. at_plan_id a = pid) (closed_phases env pid q actor nt status ?r)"
    from Some obtain p where par: "pl_parent_plan_id current = Some q" and p: "find_plan db q = Some p"
      using parent_if_open_update_rows [OF parent_not_self [OF inv cur]] parent_if_open_Some by simp metis
    have pq: "q \<noteq> pid" using parent_not_self [OF inv cur] par by auto
    have pd: "find_plan ?d q = Some p"
      using find_plan_update_rows [of env pid i actor current title summary g status nt db q] p pq
      by (auto simp: find_plan_def)
    have repo_p: "pl_repo_name p = pl_repo_name current"
      using parent_same_repo [OF inv cur par p] .
    have "\<exists>db2. res_fold (pop_pty env q actor)
        (map at_pty_session_id (active_attachments_of ?r pid)) ?d = Inr db2"
    proof (rule pop_ptys_total [OF pd])
      fix x r
      assume x: "x \<in> set (map at_pty_session_id (active_attachments_of ?r pid))"
        and r: "find_live_pty ?d x = Some r"
      have "distinct (map fst (active_pairs ?r))" using inv by (simp add: plans_inv_def attachments_ok_def)
      then have "(x, pid) \<in> set (active_pairs db)"
        using x set_attached_ptys [of ?r x pid] by (auto dest: map_of_SomeD)
      moreover have "find_live_pty db x = Some r"
        using r find_live_pty_cong [of ?d db x] by simp
      ultimately show "pt_repo r = pl_repo_name p"
        using attached_same_repo [OF inv _ _ cur] repo_p by metis
    qed
    with True Some show ?thesis by (auto simp: update_write_eq close_branch_into_parent_eq)
  qed
qed (simp add: update_write_eq)

section \<open>What a closing update leaves behind\<close>

lemma update_write_core:
  assumes "update_write env pid i actor current title summary g status nt db = Inr db'"
  shows "map plan_core (db_plans db')
    = map plan_core (update_where (\<lambda>p. pl_id p = pid) (plan_updated env title summary g status) (db_plans db))"
  using assms by (auto simp: update_write_eq split: if_splits dest: close_branch_plan_core)

lemma update_write_row:
  assumes "find_plan db pid = Some current"
    and "update_write env pid i actor current title summary g status nt db = Inr db'"
  shows "\<exists>p. find_plan db' pid = Some p \<and> plan_core p = plan_core (plan_updated env title summary g status current)"
proof -
  let ?r = "update_rows env pid i actor current title summary g status nt db"
  have "find_plan ?r pid = Some (plan_updated env title summary g status current)"
    using assms(1) by (simp add: find_plan_update_rows)
  moreover have "map plan_core (db_plans db') = map plan_core (db_plans ?r)"
    using update_write_core [OF assms(2)] by simp
  ultimately show ?thesis using find_plan_core by blast
qed

lemma open_branches_core:
  "open_branches db pid = [] \<longleftrightarrow>
    (\<forall>((i, repo, par, root, d), st, cl) \<in> set (map plan_core (db_plans db)). \<not> (par = Some pid \<and> plan_open_status st))"
proof -
  have "open_branches db pid = [] \<longleftrightarrow> set (open_branches db pid) = {}" by simp
  also have "\<dots> \<longleftrightarrow> (\<forall>c \<in> set (db_plans db). \<not> (pl_parent_plan_id c = Some pid \<and> plan_open_status (pl_status c)))"
    unfolding open_branches_def by auto
  finally show ?thesis by (auto simp: plan_core_def plan_shape_def)
qed

lemma update_write_open_branches:
  assumes cur: "find_plan db pid = Some current"
    and op: "update_write env pid i actor current title summary g status nt db = Inr db'"
    and inv: "plans_inv draw db" and none: "open_branches db pid = []"
  shows "open_branches db' pid = []"
proof -
  have "pl_parent_plan_id p \<noteq> Some pid" if "p \<in> set (db_plans db)" "pl_id p = pid" for p
    using parent_not_self [OF inv, of pid p] find_unique [OF plan_ids_distinct [OF inv] that(1)] that(2)
    by (simp add: find_plan_def)
  then show ?thesis
    using none unfolding open_branches_core update_write_core [OF op]
    by (auto simp: set_update_where plan_core_def plan_shape_def plan_updated_def split: option.splits)
qed

lemma closed_plan_unattached:
  assumes inv: "plans_inv draw db" and cur: "find_plan db pid = Some current"
    and op: "update_write env pid i actor current title summary g status nt db = Inr db'"
    and st: "plan_closed_status status" "validate_plan_status status = Inr ()"
  shows "active_attachments_of db' pid = []"
proof -
  have inv': "plans_inv draw db'" using update_write_inv [OF inv st(2) op] .
  have "map_of (active_pairs db') x \<noteq> Some pid" for x
    using current_after_update [OF inv cur op, of x] st(1) parent_not_self [OF inv cur]
    by (auto simp: parent_if_open_Some split: if_splits)
  moreover have "distinct (map fst (active_pairs db'))"
    using inv' by (simp add: plans_inv_def attachments_ok_def)
  ultimately have "x \<notin> set (map at_pty_session_id (active_attachments_of db' pid))" for x
    by (simp only: set_attached_ptys not_False_eq_True)
  then have "map at_pty_session_id (active_attachments_of db' pid) = []"
    by (metis last_in_set)
  then show ?thesis by (rule map_is_Nil_conv [THEN iffD1])
qed

lemma in_update_where:
  assumes "x \<in> set (update_where P f rows)"
  obtains r where "r \<in> set rows" "P r" "x = f r" | "x \<in> set rows" "\<not> P x"
  using assms unfolding set_update_where by blast

lemma skip_phase_phases:
  assumes ph: "ph \<in> set (db_phases (skip_phase env pid actor nt row db))" "ph_plan_id ph = pid"
    "\<not> phase_done_status (ph_status ph)"
  shows "ph \<in> set (db_phases db) \<and> ph_id ph \<noteq> ph_id row"
proof -
  have "ph \<in> set (update_where (\<lambda>ph. ph_plan_id ph = pid \<and> ph_id ph = ph_id row)
          (\<lambda>ph. ph\<lparr>ph_status := ''skipped'',
             ph_status_note := (case nt of None \<Rightarrow> ph_status_note ph | Some n \<Rightarrow> Some n),
             ph_completed_at := Some (env_now env), ph_updated_at := env_now env\<rparr>)
          (db_phases db))" using ph(1) by (simp add: skip_phase_def)
  then show ?thesis
  proof (cases rule: in_update_where)
    case (1 r)
    then have "ph_status ph = ''skipped''" by simp
    with ph(3) show ?thesis by (simp add: phase_done_status_def)
  next
    case 2
    with ph(2) show ?thesis by simp
  qed
qed

lemma skip_phases_done:
  "ph \<in> set (db_phases (fold (skip_phase env pid actor nt) rows db)) \<Longrightarrow> ph_plan_id ph = pid \<Longrightarrow>
    \<not> phase_done_status (ph_status ph) \<Longrightarrow> ph \<in> set (db_phases db) \<and> ph_id ph \<notin> ph_id ` set rows"
proof (induction rows arbitrary: db)
  case (Cons row rows)
  then have "ph \<in> set (db_phases (skip_phase env pid actor nt row db)) \<and> ph_id ph \<notin> ph_id ` set rows"
    by simp
  then show ?case using skip_phase_phases Cons.prems(2,3) by auto
qed simp

lemma skip_remaining_done:
  "\<forall>ph \<in> set (plan_phases_of (skip_remaining_phases env pid actor nt db) pid). phase_done_status (ph_status ph)"
proof (rule ballI, rule ccontr)
  fix ph
  define rows where "rows = sort_key ph_position
    (filter (\<lambda>ph. \<not> phase_done_status (ph_status ph)) (plan_phases_of db pid))"
  assume "ph \<in> set (plan_phases_of (skip_remaining_phases env pid actor nt db) pid)"
    and nd: "\<not> phase_done_status (ph_status ph)"
  then have pid: "ph_plan_id ph = pid" and "ph \<in> set (db_phases (fold (skip_phase env pid actor nt) rows db))"
    by (simp_all add: skip_remaining_phases_def plan_phases_of_def rows_def)
  then have "ph \<in> set (db_phases db)" "ph_id ph \<notin> ph_id ` set rows"
    using skip_phases_done nd by blast+
  with pid nd show False by (simp add: rows_def plan_phases_of_def)
qed

lemma count_phases_zero:
  "count_phases db pid P = 0 \<longleftrightarrow> (\<forall>ph \<in> set (plan_phases_of db pid). \<not> P (ph_status ph))"
  by (auto simp: count_phases_def filter_empty_conv)

lemma release_anchors_phases:
  "db_phases (release_anchors env pid parent actor nt db) =
     update_where (\<lambda>ph. ph_status ph = ''blocked'' \<and> (pid, ph_id ph) \<in> set (db_anchors db))
       (\<lambda>ph. ph\<lparr>ph_status := ''in_progress'', ph_updated_at := env_now env\<rparr>) (db_phases db)"
  by (simp add: release_anchors_def Let_def fold_frame [where g = db_phases])

lemma update_write_done:
  assumes op: "update_write env pid i actor current title summary g ''completed'' nt db = Inr db'"
    and fin: "\<not> ui_skip_remaining i \<Longrightarrow> count_phases db pid (\<lambda>s. \<not> phase_done_status s) = 0"
  shows "count_phases db' pid (\<lambda>s. \<not> phase_done_status s) = 0"
proof -
  let ?r = "update_rows env pid i actor current title summary g ''completed'' nt db"
  have r: "\<forall>ph \<in> set (db_phases ?r). ph_plan_id ph = pid \<longrightarrow> phase_done_status (ph_status ph)"
    using fin skip_remaining_done [of env pid actor nt db]
    by (auto simp: count_phases_zero plan_phases_of_def plan_closed_status_def)
  have "close_branch_into_parent env pid (pl_parent_plan_id current) ''completed'' actor nt ?r = Inr db'"
    using op by (simp add: update_write_eq plan_closed_status_def)
  then consider "db_phases db' = db_phases ?r"
    | q where "db_phases db' = db_phases (release_anchors env pid q actor nt ?r)"
    using close_branch_phases by blast
  then have "\<forall>ph \<in> set (db_phases db'). ph_plan_id ph = pid \<longrightarrow> phase_done_status (ph_status ph)"
  proof cases
    case 2
    have "phase_done_status (ph_status ph)" if ph: "ph \<in> set (db_phases db')" "ph_plan_id ph = pid" for ph
    proof -
      obtain ph0 where "ph0 \<in> set (db_phases ?r)" "ph_plan_id ph0 = pid" "ph_status ph0 = ''blocked'' \<or> ph = ph0"
        using ph unfolding 2 release_anchors_phases set_update_where by auto
      with r show ?thesis by (auto simp: phase_done_status_def)
    qed
    then show ?thesis by blast
  qed (use r in simp)
  then show ?thesis by (simp add: count_phases_zero plan_phases_of_def)
qed

section \<open>Errors\<close>

text \<open>The errors an attachment can raise; input validation raises none of them.\<close>

definition late_error :: "plan_error \<Rightarrow> bool" where
  "late_error e = (case e of RowNotFound \<Rightarrow> True | PtyNotLive _ \<Rightarrow> True | RepoMismatch _ _ \<Rightarrow> True | _ \<Rightarrow> False)"

lemma text_errors:
  "limited_text v l n = Inl e \<Longrightarrow> \<not> late_error e"
  "required_text v l n = Inl e \<Longrightarrow> \<not> late_error e"
  "clean_note nt = Inl e \<Longrightarrow> \<not> late_error e"
  by (auto simp: limited_text_def required_text_def clean_note_def late_error_def Let_def
      res_bind_eq_Inl_iff split: if_splits option.splits)

lemma res_map_Inl: "res_map f xs = Inl e \<Longrightarrow> \<exists>x \<in> set xs. f x = Inl e"
  by (induction xs) (auto simp: res_bind_eq_Inl_iff)

lemma guidance_errors: "guidance_validated gd = Inl e \<Longrightarrow> \<not> late_error e"
  by (auto simp: guidance_validated_def validate_items_def res_bind_eq_Inl_iff late_error_def
      split: if_splits dest!: res_map_Inl dest: text_errors)
     (auto dest!: text_errors simp: late_error_def)

lemma guard_eq_Inl_iff [simp]: "guard b e = Inl e' \<longleftrightarrow> \<not> b \<and> e' = e"
  by (auto simp: guard_def)

lemma status_errors:
  "validate_actor actor = Inl e \<Longrightarrow> \<not> late_error e"
  "validate_plan_status s = Inl e \<Longrightarrow> \<not> late_error e"
  "ok_or (find_plan db pid) (PlanNotFound pid) = Inl e \<Longrightarrow> \<not> late_error e"
  by (auto simp: validate_actor_def validate_plan_status_def late_error_def ok_or_def split: option.splits)

text \<open>A computation that raises none of the late errors.\<close>

definition early :: "plan_error + 'a \<Rightarrow> bool" where
  "early r \<longleftrightarrow> (\<forall>e. r = Inl e \<longrightarrow> \<not> late_error e)"

lemma early_bind:
  "early m \<Longrightarrow> (\<And>x. m = Inr x \<Longrightarrow> early (f x)) \<Longrightarrow> early (res_bind m f)"
  by (cases m) (auto simp: early_def)

lemma early_basic:
  "early (Inr x)" "early (validate_actor actor)" "early (validate_plan_status st)"
  "early (limited_text v l n)" "early (required_text v l n)" "early (clean_note nt)"
  "early (guidance_with_update gd i)" "early (ok_or (find_plan db pid) (PlanNotFound pid))"
  "\<not> late_error e \<Longrightarrow> early (guard b e)"
  by (auto simp: early_def guidance_with_update_def dest: text_errors guidance_errors status_errors)

lemma update_tx_early:
  assumes inv: "plans_inv draw db"
  shows "early (update_tx env pid i actor db)"
proof -
  have wr: "early (update_write env pid i actor current title summary g status nt db)"
    if "find_plan db pid = Some current" for current title summary g status nt
    using update_write_total [OF inv that, of env i actor title summary g status nt]
    by (auto simp: early_def)
  show ?thesis
    unfolding update_tx_def Let_def
    by (intro early_bind early_basic; (rule wr | simp add: late_error_def early_basic split: option.split)?)
       (auto simp: early_basic)
qed

end
