(* ===== verification/Plans_Props.thy ===== *)
theory Plans_Props
  imports Plans_Closing
begin

text \<open>
  What the plan service promises, for every state it can reach: the numbering of phases, the
  current plan of a PTY, the tree of branches and its breadcrumb, and the outcome of closing a
  plan, of moving a phase and of branching.
\<close>

section \<open>The breadcrumb\<close>

lemma sort_key_decreasing: "sorted_wrt (\<lambda>x y. f y < f x) xs \<Longrightarrow> sort_key f xs = rev xs"
proof (induction xs)
  case (Cons x xs)
  have "insort_key f x ys = ys @ [x]" if "\<forall>y \<in> set ys. f y < f x" for ys
    using that by (induction ys) auto
  with Cons show ?case by (simp add: sort_key_def)
qed simp

lemma tree_ok_parent:
  assumes "tree_ok (map plan_shape plans)" "find (\<lambda>p. pl_id p = pid) plans = Some p"
    "pl_parent_plan_id p = Some q"
  shows "\<exists>p'. find (\<lambda>p. pl_id p = q) plans = Some p' \<and> pl_depth p' = pl_depth p - 1 \<and> 1 \<le> pl_depth p
    \<and> pl_depth p \<le> MAX_BRANCH_DEPTH \<and> pl_root_plan_id p' = pl_root_plan_id p \<and> pl_repo_name p' = pl_repo_name p"
proof -
  have d: "distinct (map pl_id plans)"
    using assms(1) by (simp add: tree_ok_def comp_def plan_shape_def)
  have "p \<in> set plans" using find_Some_in [OF assms(2)] by simp
  then have "shape_ok (map plan_shape plans) (plan_shape p)" using assms(1) by (simp add: tree_ok_def)
  then obtain p' where p': "p' \<in> set plans" "pl_id p' = q" "pl_depth p' = pl_depth p - 1" "1 \<le> pl_depth p"
    "pl_depth p \<le> MAX_BRANCH_DEPTH" "pl_root_plan_id p' = pl_root_plan_id p" "pl_repo_name p' = pl_repo_name p"
    using assms(3) by (auto simp: shape_ok_def plan_shape_def)
  moreover from p' d have "find (\<lambda>p. pl_id p = q) plans = Some p'"
    using find_unique [of pl_id plans p'] by simp
  ultimately show ?thesis by blast
qed

lemma tree_ok_root:
  assumes "tree_ok (map plan_shape plans)" "p \<in> set plans" "pl_parent_plan_id p = None"
  shows "pl_depth p = 0" "pl_root_plan_id p = pl_id p"
proof -
  have "shape_ok (map plan_shape plans) (plan_shape p)" using assms(1,2) by (simp add: tree_ok_def)
  then show "pl_depth p = 0" "pl_root_plan_id p = pl_id p"
    using assms(3) by (simp_all add: shape_ok_def plan_shape_def)
qed

lemma ancestor_chain_total:
  assumes "tree_ok (map plan_shape plans)" "find (\<lambda>p. pl_id p = pid) plans = Some p"
  shows "\<exists>chain. ancestor_chain plans pid = Some (p # chain)
    \<and> successively (\<lambda>c q. pl_parent_plan_id c = Some (pl_id q)) (p # chain)
    \<and> pl_parent_plan_id (last (p # chain)) = None
    \<and> map pl_depth chain = rev [0..pl_depth p - 1]
    \<and> (\<forall>q \<in> set chain. q \<in> set plans \<and> pl_root_plan_id q = pl_root_plan_id p)"
  using assms(2)
proof (induction "nat (pl_depth p)" arbitrary: pid p rule: less_induct)
  case less
  show ?case
  proof (cases "pl_parent_plan_id p")
    case None
    then have "pl_depth p = 0" using tree_ok_root [OF assms(1)] find_Some_in [OF less.prems] by blast
    with None less.prems show ?thesis by (subst ancestor_chain.simps) simp
  next
    case (Some q)
    obtain p' where p': "find (\<lambda>p. pl_id p = q) plans = Some p'" "pl_depth p' = pl_depth p - 1"
      "1 \<le> pl_depth p" "pl_root_plan_id p' = pl_root_plan_id p"
      using tree_ok_parent [OF assms(1) less.prems Some] by blast
    then have "nat (pl_depth p') < nat (pl_depth p)" by simp
    from less.hyps [OF this p'(1)] obtain chain where chain: "ancestor_chain plans q = Some (p' # chain)"
      "successively (\<lambda>c q. pl_parent_plan_id c = Some (pl_id q)) (p' # chain)"
      "pl_parent_plan_id (last (p' # chain)) = None"
      "map pl_depth chain = rev [0..pl_depth p' - 1]" "\<forall>q \<in> set chain. q \<in> set plans \<and> pl_root_plan_id q = pl_root_plan_id p'"
      by blast
    have "pl_id p' = q" "p' \<in> set plans" using find_Some_in [OF p'(1)] by auto
    moreover have "rev [0..pl_depth p - 1] = (pl_depth p - 1) # rev [0..pl_depth p - 1 - 1]"
      using p'(3) by (subst upto_rec2) auto
    moreover have "ancestor_chain plans pid = Some (p # p' # chain)"
      using less.prems Some chain(1) by (subst ancestor_chain.simps) simp
    ultimately show ?thesis using chain p' Some by auto
  qed
qed

lemma decreasing_depths:
  assumes "map f chain = rev [0..d - 1]"
  shows "sorted_wrt (\<lambda>x y. f y < f x) ((chain :: 'a list))" "\<forall>q \<in> set chain. f q < (d :: int)"
proof -
  have "sorted_wrt (<) [0..d - 1]" by (rule sorted_wrt_upto)
  then have "sorted_wrt (\<lambda>x y. y < x) (map f chain)" unfolding assms by (simp add: sorted_wrt_rev)
  then show "sorted_wrt (\<lambda>x y. f y < f x) chain" by (simp add: sorted_wrt_map)
  show "\<forall>q \<in> set chain. f q < d"
  proof
    fix q assume "q \<in> set chain"
    then have "f q \<in> set (rev [0..d - 1])" by (simp flip: assms)
    then show "f q < d" by simp
  qed
qed

abbreviation ancestor_of :: "plan_row \<Rightarrow> ancestor_view" where
  "ancestor_of q \<equiv> (pl_id q, pl_title q, pl_status q, pl_depth q, pl_revision q, pl_guidance q)"

lemma ancestors_eq:
  assumes tree: "tree_ok (shapes db)" and p: "find_plan db pid = Some p"
    and chain: "ancestor_chain (db_plans db) pid = Some (p # chain)"
      "map pl_depth chain = rev [0..pl_depth p - 1]" "set chain \<subseteq> set (db_plans db)"
  shows "ancestors db pid = Some (map ancestor_of (rev chain))"
proof -
  have "pl_id q \<noteq> pid" if "q \<in> set chain" for q
  proof
    assume "pl_id q = pid"
    moreover have "distinct (map pl_id (db_plans db))"
      using tree by (simp add: tree_ok_def comp_def plan_shape_def)
    ultimately have "q = p" using that chain(3) find_plan_Some [OF p]
      by (auto simp: distinct_map inj_on_def)
    with decreasing_depths(2) [OF chain(2)] that show False by auto
  qed
  then have "filter (\<lambda>q. pl_id q \<noteq> pid) (p # chain) = chain"
    using find_plan_Some [OF p] by simp
  then show ?thesis
    using sort_key_decreasing [OF decreasing_depths(1) [OF chain(2)]]
    by (simp add: ancestors_def chain(1) del: filter.simps)
qed

lemma one_active_attachment:
  assumes "distinct (map fst (active_pairs db))"
  shows "length (filter (\<lambda>a. at_pty_session_id a = pty \<and> at_detached_at a = None) (db_attachments db)) \<le> 1"
proof -
  have "distinct (map at_pty_session_id rows) \<Longrightarrow> length (filter (\<lambda>a. at_pty_session_id a = pty) rows) \<le> 1"
    for rows :: "attachment_row list"
    by (induction rows) (auto simp: filter_empty_conv image_iff)
  moreover have "distinct (map at_pty_session_id (filter (\<lambda>a. at_detached_at a = None) (db_attachments db)))"
    using assms by (simp add: active_pairs_def comp_def)
  ultimately have "length (filter (\<lambda>a. at_pty_session_id a = pty)
      (filter (\<lambda>a. at_detached_at a = None) (db_attachments db))) \<le> 1" by blast
  then show ?thesis by (simp add: conj_commute)
qed

lemma plan_depth_bound:
  assumes "tree_ok (shapes db)" "p \<in> set (db_plans db)"
  shows "pl_depth p \<le> 8"
proof -
  have "shape_ok (shapes db) (plan_shape p)" using assms by (simp add: tree_ok_def)
  then show ?thesis by (auto simp: shape_ok_def plan_shape_def plan_limits split: option.splits)
qed

section \<open>Sample states\<close>

text \<open>
  A service with one live PTY, a plan of two phases made by it and, where noted, a branch of the
  first phase. The sample generator of identifiers counts from zero.
\<close>

definition sample_env :: plan_env where
  "sample_env = \<lparr>env_now = 7, env_draw = id, env_parse_uuid = (\<lambda>_. None), env_show_uuid = (\<lambda>_. [])\<rparr>"

definition sample_actor :: plan_actor where
  "sample_actor = \<lparr>ac_kind = ''agent'', ac_pty_session_id = Some 3, ac_agent_session_uuid = None\<rparr>"

definition sample_phase :: "string \<Rightarrow> new_phase" where
  "sample_phase t = \<lparr>np_title = t, np_description = [], np_status = None, np_size = None\<rparr>"

definition sample_create :: create_plan_input where
  "sample_create = \<lparr>ci_repo_name = ''r'', ci_title = ''t'', ci_summary = [],
     ci_guidance = default_guidance, ci_phases = [sample_phase ''a'', sample_phase ''b''],
     ci_all_pending = False, ci_attach_current_pty = True\<rparr>"

definition sample_branch :: branch_plan_input where
  "sample_branch = \<lparr>bi_title = ''u'', bi_summary = [], bi_guidance = default_guidance,
     bi_phases = [sample_phase ''c''], bi_all_pending = False, bi_parent_phase_refs = [], bi_note = None\<rparr>"

definition sample_update :: "string \<Rightarrow> update_plan_input" where
  "sample_update s = \<lparr>ui_title = None, ui_summary = None, ui_outcome = None, ui_principles = None,
     ui_assumptions = None, ui_boundaries = None, ui_status = Some s, ui_note = None,
     ui_skip_remaining = True, ui_require_branch = False\<rparr>"

definition sample_pty_db :: plan_db where
  "sample_pty_db = empty_plan_db\<lparr>db_ptys := [\<lparr>pt_id = 3, pt_repo = ''r'', pt_state = ''live'',
     pt_current_session_uuid = None\<rparr>]\<rparr>"

definition sample_db :: plan_db where
  "sample_db = fst (plan_create sample_env sample_create sample_actor sample_pty_db)"

definition sample_branched :: plan_db where
  "sample_branched = fst (plan_branch sample_env 0 sample_branch sample_actor sample_db)"

lemma sample_pty_db_reachable: "plan_reachable id sample_pty_db"
proof -
  let ?r = "\<lparr>pt_id = 3, pt_repo = ''r'', pt_state = ''live'', pt_current_session_uuid = None\<rparr>"
  have "plan_step id empty_plan_db (empty_plan_db\<lparr>db_ptys := db_ptys empty_plan_db @ [?r]\<rparr>)"
    by (rule plan_step.pty_start) (simp_all add: empty_plan_db_def)
  then show ?thesis
    using plan_reachable.step [OF plan_reachable.start] by (simp add: sample_pty_db_def empty_plan_db_def)
qed

lemma sample_db_reachable: "plan_reachable id sample_db"
  unfolding sample_db_def
  by (rule plan_reachable.step [OF sample_pty_db_reachable plan_step.create]) (simp add: sample_env_def)

lemma sample_branched_reachable: "plan_reachable id sample_branched"
  unfolding sample_branched_def
  by (rule plan_reachable.step [OF sample_db_reachable plan_step.branch]) (simp add: sample_env_def)

section \<open>Reachable states\<close>

text \<open>
  C1: in every state the service can reach, the phases of a plan are numbered 1, 2, \dots, n
  without gaps or repetitions, whatever was added, moved, skipped or branched before.
\<close>

theorem phase_positions_contiguous:
  assumes "inj draw" "plan_reachable draw db" "find_plan db pid = Some p"
  shows "sort (map ph_position (plan_phases_of db pid)) = [1..int (length (plan_phases_of db pid))]"
proof -
  have "pid \<in> pl_id ` set (db_plans db)" using find_plan_Some [OF assms(3)] by auto
  then have "positions_ok (map ph_position (plan_phases_of db pid))"
    using plan_reachable_inv [OF assms(2,1)] by (auto simp: plans_inv_def slots_ok_def positions_of_slots)
  then show ?thesis by (simp add: positions_ok_def)
qed

theorem phase_positions_contiguous_witness:
  "sort (map ph_position (plan_phases_of sample_db 0)) = [1..int (length (plan_phases_of sample_db 0))]"
proof -
  have "find_plan sample_db 0 \<noteq> None" by code_simp
  then show ?thesis using phase_positions_contiguous [OF inj_on_id sample_db_reachable] by blast
qed

text \<open>
  C2: in every reachable state a PTY has at most one attachment in force, and the plan it points
  to exists, is open and belongs to the repository of the PTY.
\<close>

theorem pty_current_plan_open:
  assumes "inj draw" "plan_reachable draw db"
  shows "length (filter (\<lambda>a. at_pty_session_id a = pty \<and> at_detached_at a = None) (db_attachments db)) \<le> 1
    \<and> (case active_attachment db pty of
         None \<Rightarrow> True
       | Some a \<Rightarrow> \<exists>p. find_plan db (at_plan_id a) = Some p
           \<and> (pl_status p = ''active'' \<or> pl_status p = ''paused'')
           \<and> (\<forall>r \<in> set (db_ptys db). pt_id r = pty \<longrightarrow> pt_repo r = pl_repo_name p))"
proof
  have inv: "plans_inv draw db" using plan_reachable_inv [OF assms(2,1)] .
  then have "distinct (map fst (active_pairs db))" by (simp add: plans_inv_def attachments_ok_def)
  then show "length (filter (\<lambda>a. at_pty_session_id a = pty \<and> at_detached_at a = None) (db_attachments db)) \<le> 1"
    by (rule one_active_attachment)
  show "case active_attachment db pty of None \<Rightarrow> True | Some a \<Rightarrow> \<exists>p. find_plan db (at_plan_id a) = Some p
           \<and> (pl_status p = ''active'' \<or> pl_status p = ''paused'')
           \<and> (\<forall>r \<in> set (db_ptys db). pt_id r = pty \<longrightarrow> pt_repo r = pl_repo_name p)"
  proof (cases "active_attachment db pty")
    case (Some a)
    obtain p where p: "p \<in> set (db_plans db)" "pl_id p = at_plan_id a" "plan_open_status (pl_status p)"
      "\<forall>r \<in> set (db_ptys db). pt_id r = pty \<longrightarrow> pt_repo r = pl_repo_name p"
      using inv active_attachment_Some(1) [OF Some] by (auto simp: plans_inv_def attachments_ok_def)
    moreover have "find_plan db (at_plan_id a) = Some p"
      using find_unique [OF plan_ids_distinct [OF inv] p(1)] p(2) by (simp add: find_plan_def)
    ultimately show ?thesis using Some by (auto simp: plan_open_status_def)
  qed simp
qed

theorem pty_current_plan_open_witness:
  "active_attachment sample_branched 3 \<noteq> None
   \<and> length (filter (\<lambda>a. at_pty_session_id a = 3 \<and> at_detached_at a = None) (db_attachments sample_branched)) \<le> 1"
proof
  show "active_attachment sample_branched 3 \<noteq> None" by code_simp
  show "length (filter (\<lambda>a. at_pty_session_id a = 3 \<and> at_detached_at a = None) (db_attachments sample_branched)) \<le> 1"
    using pty_current_plan_open [OF inj_on_id sample_branched_reachable] by blast
qed

text \<open>
  C3: reading a plan always returns in a reachable state, although the query behind its breadcrumb
  follows parent links without a bound: the breadcrumb is the chain of parents, root first, at
  depths 0, 1, \dots, one less than the plan's own, all in the same tree, at most eight of them.
\<close>

theorem plan_get_breadcrumb:
  assumes "inj draw" "plan_reachable draw db" "find_plan db pid = Some p"
  shows "\<exists>chain v. plan_get db pid = Some (Inr v)
    \<and> pv_ancestors v = map ancestor_of (rev chain)
    \<and> successively (\<lambda>c q. pl_parent_plan_id c = Some (pl_id q)) (p # chain)
    \<and> pl_parent_plan_id (last (p # chain)) = None
    \<and> map pl_depth (rev chain) = [0..pl_depth p - 1] \<and> length chain \<le> 8
    \<and> (\<forall>q \<in> set chain. q \<in> set (db_plans db) \<and> pl_root_plan_id q = pl_root_plan_id p)"
proof -
  have inv: "plans_inv draw db" using plan_reachable_inv [OF assms(2,1)] .
  then have tree: "tree_ok (shapes db)" by (simp add: plans_inv_def)
  obtain chain where chain: "ancestor_chain (db_plans db) pid = Some (p # chain)"
    "successively (\<lambda>c q. pl_parent_plan_id c = Some (pl_id q)) (p # chain)"
    "map pl_depth chain = rev [0..pl_depth p - 1]" "pl_parent_plan_id (last (p # chain)) = None"
    "\<forall>q \<in> set chain. q \<in> set (db_plans db) \<and> pl_root_plan_id q = pl_root_plan_id p"
    using ancestor_chain_total [OF tree] assms(3) unfolding find_plan_def by blast
  have "ancestors db pid = Some (map ancestor_of (rev chain))"
    using chain by (intro ancestors_eq [OF tree assms(3)]) auto
  moreover have "chain = []" if "pl_parent_plan_id p = None"
    using that chain(2) by (cases chain) auto
  ultimately have "\<exists>v. plan_get db pid = Some (Inr v) \<and> pv_ancestors v = map ancestor_of (rev chain)"
    using assms(3) find_plan_Some [OF assms(3)] by (auto simp: plan_get_def hydrate_def)
  moreover have "map pl_depth (rev chain) = [0..pl_depth p - 1]" using chain(3) by (simp add: rev_map [symmetric])
  moreover have "length chain \<le> 8"
  proof -
    have "length chain = nat (pl_depth p)" using arg_cong [OF chain(3), of length] by simp
    moreover have "pl_depth p \<le> 8" using plan_depth_bound [OF tree find_plan_Some(1) [OF assms(3)]] .
    ultimately show ?thesis by simp
  qed
  ultimately show ?thesis using chain(2,4,5) by blast
qed

theorem plan_get_breadcrumb_witness:
  "\<exists>p chain v. find_plan sample_branched 4 = Some p \<and> plan_get sample_branched 4 = Some (Inr v)
    \<and> pv_ancestors v = map ancestor_of (rev chain) \<and> length chain \<le> 8"
proof -
  have "find_plan sample_branched 4 \<noteq> None" by code_simp
  then obtain p where "find_plan sample_branched 4 = Some p" by blast
  then show ?thesis using plan_get_breadcrumb [OF inj_on_id sample_branched_reachable] by blast
qed

section \<open>Closing a plan\<close>

text \<open>
  C4: an accepted update to completed leaves a finished plan: it is closed with a closing time,
  none of its phases is unfinished, no branch of it is open and no PTY is attached to it.
\<close>

theorem completed_plan_finished:
  assumes "inj draw" "plan_reachable draw db" "ui_status i = Some ''completed''"
    and "update_tx env pid i actor db = Inr (pid', db')"
  shows "(\<exists>p. find_plan db' pid = Some p \<and> pl_status p = ''completed'' \<and> pl_closed_at p \<noteq> None)
    \<and> count_phases db' pid (\<lambda>s. \<not> phase_done_status s) = 0
    \<and> open_branches db' pid = [] \<and> active_attachments_of db' pid = []"
  using assms(4)
proof (cases rule: update_tx_InrE)
  case (1 current title summary g status nt)
  have inv: "plans_inv draw db" using plan_reachable_inv [OF assms(2,1)] .
  have st: "status = ''completed''" "plan_closed_status status"
    using 1(3) assms(3) by (simp_all add: plan_closed_status_def)
  have "open_branches db' pid = []"
    using update_write_open_branches [OF 1(2,7)] 1(5) st inv by blast
  moreover have "active_attachments_of db' pid = []"
    using closed_plan_unattached [OF inv 1(2,7) st(2) 1(4)] .
  moreover have "count_phases db' pid (\<lambda>s. \<not> phase_done_status s) = 0"
    using update_write_done 1(6,7) st by blast
  moreover have "\<exists>p. find_plan db' pid = Some p \<and> pl_status p = ''completed'' \<and> pl_closed_at p \<noteq> None"
    using update_write_row [OF 1(2,7)] st
    by (auto simp: plan_core_def plan_updated_def split: option.splits)
  ultimately show ?thesis by blast
qed

theorem completed_plan_finished_witness:
  "case update_tx sample_env 4 (sample_update ''completed'') sample_actor sample_branched of
     Inl _ \<Rightarrow> False
   | Inr (_, db') \<Rightarrow> open_branches db' 4 = [] \<and> active_attachments_of db' 4 = []
       \<and> count_phases db' 4 (\<lambda>s. \<not> phase_done_status s) = 0"
proof -
  have "(case update_tx sample_env 4 (sample_update ''completed'') sample_actor sample_branched of
    Inl _ \<Rightarrow> False | Inr _ \<Rightarrow> True)" by code_simp
  then show ?thesis
    using completed_plan_finished [OF inj_on_id sample_branched_reachable, of "sample_update ''completed''" sample_env 4 sample_actor]
    by (auto split: sum.splits simp: sample_update_def)
qed

text \<open>
  C5: where every PTY stands after an accepted update of a plan. A PTY on a plan that closes moves
  to the parent when the parent is open and the PTY is live, and is left without a plan
  otherwise; every other PTY keeps its plan.
\<close>

theorem update_moves_ptys:
  assumes "inj draw" "plan_reachable draw db" "find_plan db pid = Some current"
    and "update_tx env pid i actor db = Inr (pid', db')"
  shows "current_plan_of db' pty =
    (if plan_closed_status (case ui_status i of Some s \<Rightarrow> s | None \<Rightarrow> pl_status current)
        \<and> current_plan_of db pty = Some pid
     then (case pl_parent_plan_id current of
             None \<Rightarrow> None
           | Some q \<Rightarrow> if find_live_pty db pty \<noteq> None
                \<and> (\<exists>p. find_plan db q = Some p \<and> plan_open_status (pl_status p))
               then Some q else None)
     else current_plan_of db pty)"
  using assms(4)
proof (cases rule: update_tx_InrE)
  case (1 cur title summary g status nt)
  have inv: "plans_inv draw db" using plan_reachable_inv [OF assms(2,1)] .
  have cur: "cur = current" using 1(2) assms(3) by simp
  show ?thesis
    using current_after_update [OF inv 1(2,7), of pty] 1(3)
    unfolding cur current_plan_of_eq parent_if_open_def
    by (auto split: option.splits)
qed

theorem update_moves_ptys_witness:
  "case update_tx sample_env 4 (sample_update ''completed'') sample_actor sample_branched of
     Inl _ \<Rightarrow> False | Inr (_, db') \<Rightarrow> current_plan_of db' 3 = Some 0"
proof -
  have ok: "(case update_tx sample_env 4 (sample_update ''completed'') sample_actor sample_branched of
    Inl _ \<Rightarrow> False | Inr _ \<Rightarrow> True)" by code_simp
  have db: "current_plan_of sample_branched 3 = Some 4 \<and> find_live_pty sample_branched 3 \<noteq> None
    \<and> map_option pl_parent_plan_id (find_plan sample_branched 4) = Some (Some 0)
    \<and> (case find_plan sample_branched 0 of None \<Rightarrow> False | Some p \<Rightarrow> plan_open_status (pl_status p))"
    by code_simp
  then obtain current p where c: "find_plan sample_branched 4 = Some current" "pl_parent_plan_id current = Some 0"
    "find_plan sample_branched 0 = Some p" "plan_open_status (pl_status p)" by (auto split: option.splits)
  show ?thesis
    using ok db c update_moves_ptys [OF inj_on_id sample_branched_reachable c(1),
        of sample_env "sample_update ''completed''" sample_actor _ _ 3]
    by (auto split: sum.splits simp: sample_update_def plan_closed_status_def)
qed

text \<open>
  C6: once an update has passed its checks its writes cannot fail: popping the PTYs of a closing
  branch onto the parent never runs into a PTY that is not live, a repository that does not match
  or a missing row, so the update is not rolled back for such a reason.
\<close>

theorem update_never_fails_late:
  assumes "inj draw" "plan_reachable draw db" "update_tx env pid i actor db = Inl e"
  shows "e \<noteq> RowNotFound \<and> (\<forall>x. e \<noteq> PtyNotLive x) \<and> (\<forall>a b. e \<noteq> RepoMismatch a b)"
proof -
  have "\<not> late_error e"
    using update_tx_early [OF plan_reachable_inv [OF assms(2,1)]] assms(3) by (simp add: early_def)
  then show ?thesis by (auto simp: late_error_def)
qed

theorem update_never_fails_late_witness:
  "\<exists>e. update_tx sample_env 0 (sample_update ''completed'') sample_actor sample_branched = Inl e \<and> e \<noteq> RowNotFound"
proof -
  have "(case update_tx sample_env 0 (sample_update ''completed'') sample_actor sample_branched of
      Inl _ \<Rightarrow> True | Inr _ \<Rightarrow> False)" by code_simp
  then obtain e where e: "update_tx sample_env 0 (sample_update ''completed'') sample_actor sample_branched = Inl e"
    by (auto split: sum.splits)
  then show ?thesis using update_never_fails_late [OF inj_on_id sample_branched_reachable e] by blast
qed

text \<open>
  C7: a closed plan takes no more work. Adding or editing a phase, attaching a PTY and opening a
  branch of it are refused whatever else the input holds, and the tables stay as they were.
\<close>

theorem closed_plan_rejects:
  assumes "find_plan db pid = Some p" "pl_status p = ''completed'' \<or> pl_status p = ''canceled''"
  shows "(\<exists>e. add_phase env pid phase actor db = (db, Some (Inl e)))
    \<and> (\<exists>e. update_phase env pid phid pi actor db = (db, Some (Inl e)))
    \<and> (\<exists>e. plan_attach env pid pty actor db = (db, Some (Inl e)))
    \<and> (\<exists>e. plan_branch env pid bi actor db = (db, Some (Inl e)))
    \<and> (validate_actor actor = Inr () \<longrightarrow>
        plan_attach env pid pty actor db = (db, Some (Inl (PlanClosed (pl_status p)))))"
proof -
  have closed: "ensure_plan_open pid db = Inl (PlanClosed (pl_status p))"
    using assms by (simp add: ensure_plan_open_def plan_closed_status_def)
  have fails: "\<exists>e. commit db r = (db, Some (Inl e))" if "\<And>x. r \<noteq> Inr x" for r
    using that by (cases r) (auto simp: commit_def)
  have "add_phase_tx env pid phase actor db \<noteq> Inr x" for x
    by (simp add: add_phase_tx_def closed Let_def)
  moreover have "update_phase_tx env pid phid pi actor db \<noteq> Inr x" for x
    by (simp add: update_phase_tx_def closed)
  moreover have "attach_tx env pid pty actor db \<noteq> Inr x" for x
    by (simp add: attach_tx_def closed)
  moreover have "branch_tx env pid bi actor db \<noteq> Inr x" for x
    by (simp add: branch_tx_def closed)
  ultimately have "\<exists>e. commit db (add_phase_tx env pid phase actor db) = (db, Some (Inl e))"
    "\<exists>e. commit db (update_phase_tx env pid phid pi actor db) = (db, Some (Inl e))"
    "\<exists>e. commit db (attach_tx env pid pty actor db) = (db, Some (Inl e))"
    "\<exists>e. commit db (branch_tx env pid bi actor db) = (db, Some (Inl e))"
    using fails by blast+
  moreover have "commit db (attach_tx env pid pty actor db) = (db, Some (Inl (PlanClosed (pl_status p))))"
    if "validate_actor actor = Inr ()"
    using that by (simp add: attach_tx_def closed commit_def)
  ultimately show ?thesis
    unfolding add_phase_def update_phase_def plan_attach_def plan_branch_def by blast
qed

definition sample_canceled :: plan_db where
  "sample_canceled = fst (plan_update sample_env 4 (sample_update ''canceled'') sample_actor sample_branched)"

theorem closed_plan_rejects_witness:
  "\<exists>p. find_plan sample_canceled 4 = Some p
     \<and> (\<exists>e. plan_attach sample_env 4 3 sample_actor sample_canceled = (sample_canceled, Some (Inl e)))"
proof -
  have "map_option pl_status (find_plan sample_canceled 4) = Some ''canceled''" by code_simp
  then obtain p where p: "find_plan sample_canceled 4 = Some p" "pl_status p = ''canceled''"
    by (auto simp only: map_option_eq_Some)
  from closed_plan_rejects [OF p(1) disjI2 [OF p(2)]] p(1) show ?thesis by blast
qed

text \<open>
  C8: the history is only appended to. A step of the service extends the event log, removes no
  plan, never moves a plan in its tree, and a plan row it changes gets a larger revision.
\<close>

theorem plan_history_append_only:
  assumes "plan_step draw db db'"
  shows "prefix (db_events db) (db_events db')
    \<and> (\<forall>p \<in> set (db_plans db). \<exists>q \<in> set (db_plans db'). plan_shape q = plan_shape p
        \<and> (q = p \<or> pl_revision p < pl_revision q))"
  using plan_step_grows [OF assms] unfolding plan_grows_def row_grows_def by fast

theorem plan_history_append_only_witness:
  "prefix (db_events sample_db) (db_events (fst (plan_branch sample_env 0 sample_branch sample_actor sample_db)))"
proof -
  have "plan_step id sample_db (fst (plan_branch sample_env 0 sample_branch sample_actor sample_db))"
    by (rule plan_step.branch) (simp add: sample_env_def)
  then show ?thesis by (rule plan_history_append_only [THEN conjunct1])
qed

text \<open>
  Text the service stores is trimmed, is not empty where it is required, and has at most the
  allowed number of characters; what passes is stored unchanged when it is submitted again.
\<close>

theorem validated_text:
  "limited_text v label n = Inr t \<longrightarrow> t = trim v \<and> char_count t \<le> n \<and> limited_text t label n = Inr t
   \<and> (required_text v label n = Inr t \<longleftrightarrow> t \<noteq> [])"
proof
  assume "limited_text v label n = Inr t"
  then have t: "t = trim v" "char_count (trim v) \<le> n" by (simp_all add: limited_text_ok)
  have "trim (trim v) = trim v" by (rule trim_idem)
  with t show "t = trim v \<and> char_count t \<le> n \<and> limited_text t label n = Inr t
      \<and> (required_text v label n = Inr t \<longleftrightarrow> t \<noteq> [])"
    by (auto simp: limited_text_ok required_text_def Let_def)
qed

text \<open>
  C10: nothing keeps a branch from being open below a closed parent. Closing a plan checks its
  open branches, but an update may set a closed branch back to active without looking at its
  parent, and the state it produces is one the closing check is meant to exclude.
\<close>

definition sample_orphan :: plan_db where
  "sample_orphan = fst (plan_update sample_env 4 (sample_update ''active'') sample_actor
     (fst (plan_update sample_env 0 (sample_update ''completed'') sample_actor
       (fst (plan_update sample_env 4 (sample_update ''completed'') sample_actor sample_branched)))))"

lemma sample_orphan_reachable: "plan_reachable id sample_orphan"
  unfolding sample_orphan_def
  by (intro plan_reachable.step [OF _ plan_step.update] sample_branched_reachable) (simp_all add: sample_env_def)


end
