(* ===== verification/Plans_Order.thy ===== *)
theory Plans_Order
  imports Plans_Props
begin

text \<open>
  The order of phases as the interface shows it: what a move does to it, and that a new plan shows
  the phases it was given in the order they were given. Then the effect of opening a branch.
\<close>

section \<open>Lists sorted by position\<close>

lemma sort_key_eqI:
  fixes f :: "'a \<Rightarrow> int"
  assumes "mset ys = mset xs" "sorted (map f ys)" "distinct (map f ys)"
  shows "sort_key f xs = ys"
proof (rule properties_for_sort_key)
  fix k
  assume "k \<in> set ys"
  have inj: "inj_on f (set ys)" using assms(3) by (simp add: distinct_map)
  have set: "set xs = set ys" using assms(1) mset_eq_setD by metis
  have one: "filter (\<lambda>x. f k = f x) zs = filter (\<lambda>x. x = k) zs" if "set zs = set ys" for zs
    using inj \<open>k \<in> set ys\<close> that by (intro filter_cong) (auto dest: inj_onD)
  have "filter (\<lambda>x. x = k) zs = replicate (count (mset zs) k) k" for zs
    by (induction zs) auto
  then show "filter (\<lambda>x. f k = f x) ys = filter (\<lambda>x. f k = f x) xs"
    using one set assms(1) by metis
qed (use assms in auto)

abbreviation phases_in_order :: "plan_db \<Rightarrow> uuid \<Rightarrow> phase_row list" where
  "phases_in_order db pid \<equiv> sort_key ph_position (plan_phases_of db pid)"

lemma filter_update_where:
  assumes "\<And>x. g x = (if h x then u x else x)" "\<And>x. Q (u x) = Q x"
  shows "filter Q (update_where (\<lambda>x. h x \<and> Q x) u rows) = map g (filter Q rows)"
  using assms by (induction rows) (auto simp: update_where_def)

lemma phases_in_order_positions:
  assumes "plans_inv draw db" "pid \<in> pl_id ` set (db_plans db)"
  shows "map ph_position (phases_in_order db pid) = [1..int (length (plan_phases_of db pid))]"
proof -
  have "positions_ok (map ph_position (plan_phases_of db pid))"
    using assms by (auto simp: plans_inv_def slots_ok_def positions_of_slots)
  then have "sort (map ph_position (plan_phases_of db pid)) = [1..int (length (plan_phases_of db pid))]"
    by (simp add: positions_ok_def)
  moreover have "map ph_position (phases_in_order db pid) = sort (map ph_position (plan_phases_of db pid))"
    by (rule properties_for_sort [symmetric]) simp_all
  ultimately show ?thesis by simp
qed

section \<open>Moving a phase\<close>

text \<open>Taking an element out of a list and putting it back at an index.\<close>

definition move_to :: "nat \<Rightarrow> 'a \<Rightarrow> 'a list \<Rightarrow> 'a list" where
  "move_to k x xs = take k (remove1 x xs) @ [x] @ drop k (remove1 x xs)"

lemma mset_move_to:
  assumes "x \<in> set xs"
  shows "mset (move_to k x xs) = mset xs"
proof -
  have "mset (take k (remove1 x xs)) + mset (drop k (remove1 x xs)) = mset (remove1 x xs)"
    by (metis append_take_drop_id mset_append)
  then have "mset (move_to k x xs) = add_mset x (mset (remove1 x xs))" by (simp add: move_to_def)
  with assms show ?thesis by simp
qed

lemma map_move_to: "inj_on f (insert x (set xs)) \<Longrightarrow> map f (move_to k x xs) = move_to k (f x) (map f xs)"
proof -
  assume "inj_on f (insert x (set xs))"
  then have "map f (remove1 x xs) = remove1 (f x) (map f xs)"
    by (induction xs) (auto simp: inj_on_def)
  then show ?thesis by (simp add: move_to_def take_map [symmetric] drop_map [symmetric])
qed

text \<open>Renumbering the moved list of positions gives the positions in order.\<close>

lemma shift_move_to:
  assumes "old \<in> {1..n}" "new \<in> {1..n}"
  shows "map (shift_position old new) (move_to (nat (new - 1)) old [1..n]) = [1..n]"
proof (rule nth_equalityI)
  have split: "[1..n] = [1..old - 1] @ old # [old + 1..n]"
    using assms by (intro upto_split3) auto
  then have rem: "remove1 old [1..n] = [1..old - 1] @ [old + 1..n]"
    by (simp add: remove1_append)
  have len: "length (remove1 old [1..n]) = nat (n - 1)" using assms by (simp add: rem) arith
  have lenm: "length (move_to (nat (new - 1)) old [1..n]) = nat n"
    using assms by (simp add: move_to_def len min_def) arith
  then show "length (map (shift_position old new) (move_to (nat (new - 1)) old [1..n])) = length [1..n]"
    by simp
  fix i
  assume "i < length (map (shift_position old new) (move_to (nat (new - 1)) old [1..n]))"
  then have il: "i < length (move_to (nat (new - 1)) old [1..n])" and i: "int i < n"
    using lenm by simp_all
  have nth_rem: "remove1 old [1..n] ! j = (if int j < old - 1 then int j + 1 else int j + 2)"
    if "int j < n - 1" for j
    using that assms unfolding rem by (auto simp: nth_append)
  have nth_move: "move_to (nat (new - 1)) old [1..n] ! i =
      (if int i < new - 1 then remove1 old [1..n] ! i
       else if int i = new - 1 then old else remove1 old [1..n] ! (i - 1))"
  proof -
    consider "i < nat (new - 1)" | "i = nat (new - 1)" | "nat (new - 1) < i" by linarith
    then show ?thesis
    proof cases
      case 3
      then obtain k where k: "i = nat (new - 1) + 1 + k" by (metis Suc_eq_plus1 less_iff_Suc_add add_Suc)
      then show ?thesis using assms i len 3
        by (auto simp: move_to_def nth_append min_def)
    qed (use assms i len in \<open>auto simp: move_to_def nth_append min_def\<close>)
  qed
  have "shift_position old new (move_to (nat (new - 1)) old [1..n] ! i) = int i + 1"
  proof -
    consider "int i < new - 1" | "int i = new - 1" | "new - 1 < int i" by linarith
    then show ?thesis
    proof cases
      case 1
      then show ?thesis using assms nth_rem [of i] by (simp add: nth_move shift_position_def)
    next
      case 2
      then show ?thesis by (simp add: nth_move shift_position_def)
    next
      case 3
      then have j: "int (i - 1) = int i - 1" using assms by simp
      with 3 i show ?thesis using assms nth_rem [of "i - 1"] by (simp add: nth_move shift_position_def)
    qed
  qed
  with il i show "map (shift_position old new) (move_to (nat (new - 1)) old [1..n]) ! i = [1..n] ! i"
    by simp
qed

lemma order_after_shift:
  assumes pos: "map ph_position (sort_key ph_position rows) = [1..n]" and ids: "distinct (map ph_id rows)"
    and ph: "ph \<in> set rows" and new: "new \<in> {1..n}"
    and f: "\<And>x. x \<in> set rows \<Longrightarrow> ph_position (f x) = shift_position (ph_position ph) new (ph_position x)
      \<and> ph_id (f x) = ph_id x"
  shows "map ph_id (sort_key ph_position (map f rows))
    = move_to (nat (new - 1)) (ph_id ph) (map ph_id (sort_key ph_position rows))"
proof -
  let ?xs = "sort_key ph_position rows" and ?k = "nat (new - 1)"
  let ?ys = "map f (move_to ?k ph ?xs)"
  have xs: "set ?xs = set rows" "set (move_to ?k ph ?xs) = set rows"
    using ph mset_move_to [of ph ?xs ?k] mset_eq_setD by (auto dest: mset_eq_setD)
  have inj_pos: "inj_on ph_position (set rows)"
    using pos xs(1) by (metis distinct_map distinct_upto)
  have old: "ph_position ph \<in> {1..n}"
    using ph xs(1) pos by (metis image_eqI list.set_map set_upto)
  have "map ph_position ?ys = map (shift_position (ph_position ph) new) (map ph_position (move_to ?k ph ?xs))"
    using f xs(2) by simp
  also have "map ph_position (move_to ?k ph ?xs) = move_to ?k (ph_position ph) [1..n]"
    using map_move_to [of ph_position ph ?xs ?k] inj_pos ph xs(1) pos by (simp add: insert_absorb)
  finally have "map ph_position ?ys = [1..n]" using shift_move_to [OF old new] by simp
  moreover have "mset ?ys = mset (map f rows)"
    using mset_move_to [of ph ?xs ?k] ph by simp
  ultimately have "sort_key ph_position (map f rows) = ?ys"
    by (intro sort_key_eqI) simp_all
  then have "map ph_id (sort_key ph_position (map f rows)) = map ph_id (move_to ?k ph ?xs)"
    using f xs(2) by simp
  also have "\<dots> = move_to ?k (ph_id ph) (map ph_id ?xs)"
    using map_move_to [of ph_id ph ?xs ?k] ids ph xs(1) by (simp add: insert_absorb distinct_map)
  finally show ?thesis .
qed

lemma move_phase_rows:
  assumes inv: "plans_inv draw db" and plan: "pid \<in> pl_id ` set (db_plans db)"
    and ph: "ph \<in> set (plan_phases_of db pid)"
    and new: "new = max 1 (min (int (length (plan_phases_of db pid))) requested)"
  shows "\<exists>f. plan_phases_of (move_phase env pid (ph_id ph) (ph_position ph) requested db) pid
      = map f (plan_phases_of db pid)
    \<and> (\<forall>x \<in> set (plan_phases_of db pid).
        ph_position (f x) = shift_position (ph_position ph) new (ph_position x) \<and> ph_id (f x) = ph_id x)"
proof (cases "new = ph_position ph")
  case True
  then have "move_phase env pid (ph_id ph) (ph_position ph) requested db = db"
    unfolding move_phase_def Let_def new [symmetric] by simp
  then show ?thesis using True by (intro exI [of _ id]) (auto simp: shift_position_def)
next
  case False
  let ?f = "renumbered env pid (ph_id ph) (ph_position ph) new"
  have "ph_position (?f x) = shift_position (ph_position ph) new (ph_position x)"
    if "x \<in> set (plan_phases_of db pid)" for x
    using plan_phases_unique_position [OF inv plan ph that] that
    by (intro renumbered_position) (auto simp: plan_phases_of_def)
  then show ?thesis
    unfolding move_phase_renumbered [OF new False] by (intro exI [of _ ?f]) (simp add: plan_phases_of_map)
qed

text \<open>
  C11: editing a phase with a new position takes the phase out of the displayed order of its plan
  and puts it back at that position, clamped to the number of phases; the order of the other
  phases does not change.
\<close>

theorem update_phase_reorders:
  assumes "inj draw" "plan_reachable draw db" "up_position i = Some requested"
    and "update_phase_tx env pid phid i actor db = Inr (pid', db')"
  shows "map ph_id (sort_key ph_position (plan_phases_of db' pid))
    = move_to (nat (max 1 (min (int (length (plan_phases_of db pid))) requested) - 1)) phid
        (map ph_id (sort_key ph_position (plan_phases_of db pid)))"
proof -
  have inv: "plans_inv draw db" using plan_reachable_inv [OF assms(2,1)] .
  from assms(3,4) obtain p ph title description status nt sz where
    p: "find_plan db pid = Some p"
    and cur: "find (\<lambda>ph. ph_id ph = phid \<and> ph_plan_id ph = pid) (db_phases db) = Some ph"
    and rows: "db_phases db' = update_where (\<lambda>ph. ph_id ph = phid \<and> ph_plan_id ph = pid)
        (phase_updated env title description status nt sz)
        (db_phases (move_phase env pid phid (ph_position ph) requested db))"
    by (auto simp: update_phase_tx_def Let_def ensure_plan_open_def)
  have plan: "pid \<in> pl_id ` set (db_plans db)" using find_plan_Some [OF p] by auto
  have ph: "ph \<in> set (plan_phases_of db pid)" "ph_id ph = phid"
    using find_Some_in [OF cur] by (auto simp: plan_phases_of_def)
  define new where "new = max 1 (min (int (length (plan_phases_of db pid))) requested)"
  obtain f where f: "plan_phases_of (move_phase env pid phid (ph_position ph) requested db) pid
      = map f (plan_phases_of db pid)"
    "\<forall>x \<in> set (plan_phases_of db pid).
        ph_position (f x) = shift_position (ph_position ph) new (ph_position x) \<and> ph_id (f x) = ph_id x"
    using move_phase_rows [OF inv plan ph(1) new_def, of env] ph(2) by blast
  define g where "g x = (if ph_id x = phid then phase_updated env title description status nt sz x else x)" for x
  have "plan_phases_of db' pid = map g (plan_phases_of (move_phase env pid phid (ph_position ph) requested db) pid)"
    unfolding plan_phases_of_def rows by (rule filter_update_where)
       (simp_all add: g_def phase_updated_def)
  then have rows': "plan_phases_of db' pid = map (g \<circ> f) (plan_phases_of db pid)" using f(1) by simp
  have "1 \<le> length (plan_phases_of db pid)" using ph(1) by (cases "plan_phases_of db pid") auto
  then have new: "new \<in> {1..int (length (plan_phases_of db pid))}" by (simp add: new_def)
  have ids: "distinct (map ph_id (plan_phases_of db pid))"
    using inv unfolding plan_phases_of_def
    by (intro distinct_map_filter) (simp add: plans_inv_def slots_ok_def comp_def phase_slot_def)
  show ?thesis
    unfolding rows' new_def [symmetric] ph(2) [symmetric]
    by (rule order_after_shift [OF phases_in_order_positions [OF inv plan] ids ph(1) new])
       (use f(2) in \<open>auto simp: g_def phase_updated_def\<close>)
qed

definition sample_move :: update_phase_input where
  "sample_move = \<lparr>up_title = None, up_description = None, up_status = None, up_status_note = None,
     up_position = Some 9, up_size = None\<rparr>"

theorem update_phase_reorders_witness:
  "case update_phase_tx sample_env 0 1 sample_move sample_actor sample_db of
     Inl _ \<Rightarrow> False
   | Inr (_, db') \<Rightarrow> map ph_id (sort_key ph_position (plan_phases_of db' 0)) = [2, 1]"
proof -
  have db: "length (plan_phases_of sample_db 0) = 2
      \<and> map ph_id (sort_key ph_position (plan_phases_of sample_db 0)) = [1, 2]"
    by code_simp
  have "(case update_phase_tx sample_env 0 1 sample_move sample_actor sample_db of Inl _ \<Rightarrow> False | Inr _ \<Rightarrow> True)"
    by code_simp
  then obtain pid' db' where op: "update_phase_tx sample_env 0 1 sample_move sample_actor sample_db = Inr (pid', db')"
    by (auto split: sum.splits)
  have "map ph_id (sort_key ph_position (plan_phases_of db' 0)) = move_to 1 1 [1, 2]"
    using update_phase_reorders [OF inj_on_id sample_db_reachable _ op, of 9] db
    by (simp add: sample_move_def)
  with op show ?thesis by (simp add: move_to_def)
qed

section \<open>New plans\<close>

definition phase_view :: "phase_row \<Rightarrow> int \<times> string \<times> string \<times> string" where
  "phase_view ph = (ph_position ph, ph_title ph, ph_description ph, ph_status ph)"

text \<open>What a new plan shows for the phase given at index \<open>k\<close>.\<close>

definition given_view :: "bool \<Rightarrow> nat \<times> new_phase \<Rightarrow> int \<times> string \<times> string \<times> string" where
  "given_view all_pending = (\<lambda>(k, np). (int k + 1, trim (np_title np), trim (np_description np),
     case np_status np of Some s \<Rightarrow> s | None \<Rightarrow> if k = 0 \<and> \<not> all_pending then ''in_progress'' else ''pending''))"

lemma insert_phases_rows:
  "map phase_view (plan_phases_of (fold (insert_phase env pid actor) (enumerate k phases) db) pid)
    = map phase_view (plan_phases_of db pid) @ map (\<lambda>(j, t, d, s, z). (int j + 1, t, d, s)) (enumerate k phases)"
proof (induction phases arbitrary: k db)
  case (Cons c phases)
  obtain t d s z where c: "c = (t, d, s, z)" by (cases c)
  have "map phase_view (plan_phases_of (insert_phase env pid actor (k, c) db) pid)
      = map phase_view (plan_phases_of db pid) @ [(int k + 1, t, d, s)]"
    by (simp add: c insert_phase_def new_v4_def plan_phases_of_def phase_view_def)
  with Cons.IH show ?case by (simp add: c)
qed simp

lemma required_text_ok: "required_text v label n = Inr t \<Longrightarrow> t = trim v"
  by (auto simp: required_text_def Let_def limited_text_ok split: if_splits)

lemma check_phase_given:
  assumes "check_phase all_pending (k, np) = Inr (t, d, s, z)"
  shows "(int k + 1, t, d, s) = given_view all_pending (k, np)"
  using assms
  by (auto simp: check_phase_def given_view_def limited_text_ok initial_phase_status_def Let_def
      dest!: required_text_ok split: option.splits)

lemma checked_phases_given:
  assumes "validate_new_phases phases all_pending = Inr checked"
  shows "map (\<lambda>(j, t, d, s, z). (int j + 1, t, d, s)) (enumerate 0 checked)
    = map (given_view all_pending) (enumerate 0 phases)"
proof -
  have "list_all2 (\<lambda>x y. check_phase all_pending x = Inr y) (enumerate k phases) checked \<Longrightarrow>
      map (\<lambda>(j, t, d, s, z). (int j + 1, t, d, s)) (enumerate k checked)
      = map (given_view all_pending) (enumerate k phases)" for k
  proof (induction phases arbitrary: k checked)
    case (Cons np phases)
    then obtain t d s z rest where "checked = (t, d, s, z) # rest"
      "check_phase all_pending (k, np) = Inr (t, d, s, z)"
      "list_all2 (\<lambda>x y. check_phase all_pending x = Inr y) (enumerate (Suc k) phases) rest"
      by (auto simp: list_all2_Cons1)
    with Cons.IH check_phase_given show ?case by simp
  qed simp
  then show ?thesis using assms by (auto simp: validate_new_phases_def res_map_Inr_list_all2 split: if_splits)
qed

lemma sorted_enumerate: "sort_key (\<lambda>ph. ph_position ph) rows = rows"
  if "map ph_position rows = map (\<lambda>(j, _). int j + 1) (enumerate k xs)" for rows :: "phase_row list"
proof -
  have "map (\<lambda>(j, _). int j + 1) (enumerate k xs) = map (\<lambda>j. int j + 1) [k..<k + length xs]"
    by (rule nth_equalityI) (simp_all add: nth_enumerate_eq)
  then have "map ph_position rows = map (\<lambda>j. int j + 1) [k..<k + length xs]" using that by simp
  then have "sorted (map ph_position rows)" "distinct (map ph_position rows)"
    by (simp_all add: sorted_map distinct_map inj_on_def sorted_wrt_mono_rel [of _ "(<)"])
  then show ?thesis by (intro sort_key_eqI) simp_all
qed

text \<open>
  C12: a created plan reads back as it was given. Creating succeeds only into a state where
  reading the plan returns, at depth 0 with no ancestors, its phases numbered from 1 in the order
  given, their texts trimmed, with the given status or else the first in progress and the others
  pending.
\<close>

theorem create_reads_back:
  assumes "inj (env_draw env)" "plan_reachable (env_draw env) db" "create_tx env i actor db = Inr (pid, db')"
  shows "\<exists>v. plan_create env i actor db = (db', Some (Inr v)) \<and> pl_id (pv_row v) = pid
    \<and> pl_status (pv_row v) = ''active'' \<and> pl_depth (pv_row v) = 0 \<and> pv_ancestors v = []
    \<and> map phase_view (pv_phases v) = map (given_view (ci_all_pending i)) (enumerate 0 (ci_phases i))"
proof -
  have inv: "plans_inv (env_draw env) db" using plan_reachable_inv [OF assms(2,1)] .
  obtain repo title summary g checked where
    ph: "validate_new_phases (ci_phases i) (ci_all_pending i) = Inr checked"
    and pid: "pid = env_draw env (db_drawn db)"
    and att: "(case (ci_attach_current_pty i, ac_pty_session_id actor) of
        (True, Some pty) \<Rightarrow> attach_in_tx env pid pty actor False
          (insert_phases env pid checked actor (insert_plan env pid repo title summary g None pid 0 actor
            (db\<lparr>db_drawn := Suc (db_drawn db)\<rparr>)))
      | _ \<Rightarrow> Inr (insert_phases env pid checked actor (insert_plan env pid repo title summary g None pid 0 actor
            (db\<lparr>db_drawn := Suc (db_drawn db)\<rparr>)))) = Inr db'"
    using assms(3) by (auto simp: create_tx_def new_v4_def Let_def)
  define db1 where "db1 = insert_phases env pid checked actor (insert_plan env pid repo title summary g None pid 0 actor
            (db\<lparr>db_drawn := Suc (db_drawn db)\<rparr>))"
  have same: "db_phases db' = db_phases db1 \<and> map plan_core (db_plans db') = map plan_core (db_plans db1)"
    using att unfolding db1_def [symmetric]
    by (auto split: bool.splits option.splits dest: attach_in_tx_phases attach_in_tx_plan_core(1))
  note d = plans_inv_draw [OF inv assms(1)]
  have new: "new_v4 env db = (pid, db\<lparr>db_drawn := Suc (db_drawn db)\<rparr>)" by (simp add: new_v4_def pid)
  have tree: "tree_ok (shapes db @ [(pid, repo, None, pid, 0)])"
    using inv d(2) by (intro tree_ok_snoc_root) (auto simp: plans_inv_def plan_shape_def pid)
  note opened = open_plan_inv [OF inv assms(1) new tree validate_new_phases_status [OF ph], of db1 actor title summary g,
      OF db1_def]
  obtain p where p: "db_plans db1 = db_plans db @ [p]" "pl_status p = ''active''" "pl_id p = pid"
    "pl_parent_plan_id p = None" using opened(3) by blast
  have "find_plan db1 pid = Some p"
    using find_plan_appended [of db1 "db_plans db" p] opened(1) p by (simp add: plans_inv_def)
  then obtain q where q: "find_plan db' pid = Some q" "plan_core q = plan_core p"
    using find_plan_core same by blast
  have "plan_shape p = (pid, repo, None, pid, 0)" using opened(2) p(1) by simp
  then have row: "pl_id q = pid" "pl_depth q = 0" "pl_parent_plan_id q = None" "pl_status q = ''active''"
    using q(2) p(2) by (auto simp: plan_core_def plan_shape_def)
  have none: "plan_phases_of db pid = []"
  proof -
    have "\<forall>x \<in> set (db_phases db). ph_plan_id x \<in> pl_id ` set (db_plans db)"
      using inv by (auto simp: plans_inv_def slots_ok_def phase_slot_def)
    with d(2) show ?thesis unfolding pid plan_phases_of_def filter_empty_conv by metis
  qed
  have rows: "map phase_view (plan_phases_of db' pid) = map (given_view (ci_all_pending i)) (enumerate 0 (ci_phases i))"
    using insert_phases_rows [of env pid actor 0 checked] checked_phases_given [OF ph] none same
    by (simp add: db1_def insert_phases_def plan_phases_of_def)
  have "map ph_position (plan_phases_of db' pid) = map fst (map phase_view (plan_phases_of db' pid))"
    by (simp add: phase_view_def)
  then have "map ph_position (plan_phases_of db' pid) = map (\<lambda>(j, _). int j + 1) (enumerate 0 (ci_phases i))"
    unfolding rows by (simp add: given_view_def case_prod_unfold)
  then have "sort_key ph_position (plan_phases_of db' pid) = plan_phases_of db' pid"
    by (rule sorted_enumerate)
  then show ?thesis
    using q(1) row rows assms(3) by (simp add: plan_create_def commit_def plan_get_def hydrate_def)
qed

theorem create_reads_back_witness:
  "\<exists>pid db' v. plan_create sample_env sample_create sample_actor sample_pty_db = (db', Some (Inr v))
    \<and> pl_id (pv_row v) = pid
    \<and> map phase_view (pv_phases v) = map (given_view False) (enumerate 0 [sample_phase ''a'', sample_phase ''b''])"
proof -
  have env: "env_draw sample_env = id" by (simp add: sample_env_def)
  have "(case create_tx sample_env sample_create sample_actor sample_pty_db of Inl _ \<Rightarrow> False | Inr _ \<Rightarrow> True)"
    by code_simp
  then obtain pid db' where op: "create_tx sample_env sample_create sample_actor sample_pty_db = Inr (pid, db')"
    by (auto split: sum.splits)
  have inp: "ci_all_pending sample_create = False"
    "ci_phases sample_create = [sample_phase ''a'', sample_phase ''b'']" by (simp_all add: sample_create_def)
  show ?thesis
    using create_reads_back [OF _ _ op, unfolded env inp] sample_pty_db_reachable inj_on_id by blast
qed

section \<open>Opening a branch\<close>

lemma map_of_open_anchors [simp]:
  "active_pairs (fold (open_anchor env pid parent actor nt) anchors db) = active_pairs db"
  by (rule fold_frame [of active_pairs]) (simp add: open_anchor_def active_pairs_def insert_event_def)

lemma open_anchors_anchors:
  "db_anchors (fold (open_anchor env pid parent actor nt) anchors db) = db_anchors db @ map (Pair pid) anchors"
  by (induction anchors arbitrary: db) (simp_all add: open_anchor_def)

lemma open_anchors_not_pending:
  "ph \<in> set (db_phases (fold (open_anchor env pid parent actor nt) anchors db)) \<Longrightarrow> ph_id ph \<in> set anchors \<Longrightarrow>
    ph_status ph \<noteq> ''pending''"
proof (induction anchors rule: rev_induct)
  case (snoc a anchors)
  let ?db = "fold (open_anchor env pid parent actor nt) anchors db"
  have "ph \<in> set (update_where (\<lambda>ph. ph_id ph = a \<and> ph_status ph = ''pending'')
             (\<lambda>ph. ph\<lparr>ph_status := ''in_progress'',
                ph_started_at := (case ph_started_at ph of
                    None \<Rightarrow> Some (env_now env) | Some t \<Rightarrow> Some t),
                ph_updated_at := env_now env\<rparr>) (db_phases ?db))"
    using snoc.prems(1) by (simp add: open_anchor_def [of env pid parent actor nt a])
  then show ?case
  proof (cases rule: in_update_where)
    case 2
    with snoc show ?thesis by auto
  qed simp
qed simp

text \<open>
  C13: opening a branch of an open plan makes an active plan one level deeper in the same tree and
  repository, anchored at the resolved phases of the parent, none of which is pending any more,
  and moves the caller's PTY, and no other, to the branch.
\<close>

theorem branch_opens:
  assumes "inj (env_draw env)" "plan_reachable (env_draw env) db" "branch_tx env parent i actor db = Inr (pid, db')"
  shows "\<exists>p q anchors. find_plan db parent = Some p \<and> find_plan db' pid = Some q
    \<and> plan_open_status (pl_status p) \<and> pl_status q = ''active'' \<and> pl_parent_plan_id q = Some parent
    \<and> pl_root_plan_id q = pl_root_plan_id p \<and> pl_repo_name q = pl_repo_name p
    \<and> pl_depth q = pl_depth p + 1 \<and> pl_depth q \<le> 8
    \<and> resolve_anchor_phases env db parent (bi_parent_phase_refs i) = Inr anchors
    \<and> db_anchors db' = db_anchors db @ map (Pair pid) anchors
    \<and> (\<forall>ph \<in> set (db_phases db'). ph_id ph \<in> set anchors \<longrightarrow> ph_status ph \<noteq> ''pending'')
    \<and> current_plan_of db' = (case ac_pty_session_id actor of
         None \<Rightarrow> current_plan_of db | Some pty \<Rightarrow> (current_plan_of db)(pty \<mapsto> pid))"
proof -
  have inv: "plans_inv (env_draw env) db" using plan_reachable_inv [OF assms(2,1)] .
  obtain p title summary g nt checked anchors u where
    p: "find_plan db parent = Some p" and opn: "ensure_plan_open parent db = Inr u"
    and ph: "validate_new_phases (bi_phases i) (bi_all_pending i) = Inr checked"
    and deep: "pl_depth p + 1 \<le> MAX_BRANCH_DEPTH"
    and anc: "resolve_anchor_phases env db parent (bi_parent_phase_refs i) = Inr anchors"
    and pid: "pid = env_draw env (db_drawn db)"
    and att: "(case ac_pty_session_id actor of
        Some pty \<Rightarrow> attach_in_tx env pid pty actor False (bump_revision env parent
          (fold (open_anchor env pid parent actor (branch_note title nt)) anchors
            (insert_phases env pid checked actor (insert_plan env pid (pl_repo_name p) title summary g
              (Some parent) (pl_root_plan_id p) (pl_depth p + 1) actor (db\<lparr>db_drawn := Suc (db_drawn db)\<rparr>)))))
      | None \<Rightarrow> Inr (bump_revision env parent
          (fold (open_anchor env pid parent actor (branch_note title nt)) anchors
            (insert_phases env pid checked actor (insert_plan env pid (pl_repo_name p) title summary g
              (Some parent) (pl_root_plan_id p) (pl_depth p + 1) actor (db\<lparr>db_drawn := Suc (db_drawn db)\<rparr>)))))) = Inr db'"
    using assms(3) by (auto simp: branch_tx_def new_v4_def Let_def)
  define db1 where "db1 = insert_phases env pid checked actor (insert_plan env pid (pl_repo_name p) title summary g
              (Some parent) (pl_root_plan_id p) (pl_depth p + 1) actor (db\<lparr>db_drawn := Suc (db_drawn db)\<rparr>))"
  define db2 where "db2 = fold (open_anchor env pid parent actor (branch_note title nt)) anchors db1"
  note att = att [folded db1_def, folded db2_def]
  note d = plans_inv_draw [OF inv assms(1)]
  have new: "new_v4 env db = (pid, db\<lparr>db_drawn := Suc (db_drawn db)\<rparr>)" by (simp add: new_v4_def pid)
  have tree: "tree_ok (shapes db @ [(pid, pl_repo_name p, Some parent, pl_root_plan_id p, pl_depth p + 1)])"
    using inv d(2) shapes_find_plan [OF p] deep
    by (intro tree_ok_snoc_branch) (auto simp: plans_inv_def plan_shape_def pid)
  note opened = open_plan_inv [OF inv assms(1) new tree validate_new_phases_status [OF ph], of db1 actor title summary g,
      OF db1_def]
  obtain q where q: "db_plans db1 = db_plans db @ [q]" "pl_status q = ''active''" "pl_id q = pid"
    using opened(3) by blast
  have shape: "plan_shape q = (pid, pl_repo_name p, Some parent, pl_root_plan_id p, pl_depth p + 1)"
    using opened(2) q(1) by simp
  have "find_plan db1 pid = Some q"
    using find_plan_appended [of db1 "db_plans db" q] opened(1) q by (simp add: plans_inv_def)
  moreover have fr: "map plan_core (db_plans db') = map plan_core (db_plans db1) \<and> db_phases db' = db_phases db2
      \<and> db_anchors db' = db_anchors db2"
    using att fold_frame [of db_plans "open_anchor env pid parent actor (branch_note title nt)"]
    by (auto simp: db2_def split: option.splits dest: attach_in_tx_phases attach_in_tx_plan_core(1) attach_in_tx_anchors)
  ultimately obtain q' where q': "find_plan db' pid = Some q'" "plan_core q' = plan_core q"
    using find_plan_core by blast
  have "map_of (active_pairs db') = (case ac_pty_session_id actor of
      None \<Rightarrow> map_of (active_pairs db) | Some pty \<Rightarrow> (map_of (active_pairs db))(pty \<mapsto> pid))"
    using att opened(6) by (auto simp: db2_def split: option.splits dest: map_of_attach_in_tx)
  then have "current_plan_of db' = (case ac_pty_session_id actor of
         None \<Rightarrow> current_plan_of db | Some pty \<Rightarrow> (current_plan_of db)(pty \<mapsto> pid))"
    unfolding current_plan_of_eq by (auto split: option.splits)
  moreover have "db_anchors db' = db_anchors db @ map (Pair pid) anchors"
    using fr opened(5) by (simp add: db2_def open_anchors_anchors)
  moreover have "\<forall>ph \<in> set (db_phases db'). ph_id ph \<in> set anchors \<longrightarrow> ph_status ph \<noteq> ''pending''"
    using fr open_anchors_not_pending unfolding db2_def by metis
  moreover have "plan_open_status (pl_status p)" using ensure_plan_open_Inr [OF inv opn p] .
  ultimately show ?thesis
    using p q' anc shape q(2) deep by (auto simp: plan_core_def plan_shape_def plan_limits)
qed

theorem branch_opens_witness:
  "\<exists>pid db' p q. branch_tx sample_env 0 sample_branch sample_actor sample_db = Inr (pid, db')
     \<and> find_plan sample_db 0 = Some p \<and> find_plan db' pid = Some q \<and> pl_depth q = pl_depth p + 1"
proof -
  have env: "env_draw sample_env = id" by (simp add: sample_env_def)
  have "(case branch_tx sample_env 0 sample_branch sample_actor sample_db of Inl _ \<Rightarrow> False | Inr _ \<Rightarrow> True)"
    by code_simp
  then obtain pid db' where op: "branch_tx sample_env 0 sample_branch sample_actor sample_db = Inr (pid, db')"
    by (auto split: sum.splits)
  show ?thesis
    using branch_opens [OF _ _ op, unfolded env] op sample_db_reachable inj_on_id by blast
qed

end
