(* ===== verification/Paths.thy ===== *)
theory Paths
  imports Prelude
begin

text \<open>
  Unix paths as \<^verbatim>\<open>std::path\<close> reads them: a path is its text, its components ignore repeated
  separators and inner dots, and comparison, prefixes and parents go by components while the text
  that is left stays as it was written.
\<close>

datatype component = RootDir | CurDir | ParentDir | Normal string

definition slash :: string where "slash = ''/''"

definition segments :: "string \<Rightarrow> string list" where
  "segments p = split_str p slash"

definition is_absolute :: "string \<Rightarrow> bool" where
  "is_absolute p = starts_with p slash"

definition silent :: "string \<Rightarrow> bool" where
  "silent g \<longleftrightarrow> g = [] \<or> g = ''.''"

definition component_of :: "string \<Rightarrow> component" where
  "component_of g = (if g = ''..'' then ParentDir else Normal g)"

definition components :: "string \<Rightarrow> component list" where
  "components p =
     (if is_absolute p then [RootDir]
      else if hd (segments p) = ''.'' then [CurDir] else [])
     @ map component_of (filter (\<lambda>g. \<not> silent g) (segments p))"

definition path_eq :: "string \<Rightarrow> string \<Rightarrow> bool" where
  "path_eq p q \<longleftrightarrow> components p = components q"

definition path_starts_with :: "string \<Rightarrow> string \<Rightarrow> bool" where
  "path_starts_with p base \<longleftrightarrow> take (length (components base)) (components p) = components base"

fun drop_components :: "nat \<Rightarrow> string list \<Rightarrow> string list" where
  "drop_components 0 gs = gs"
| "drop_components (Suc n) [] = []"
| "drop_components (Suc n) (g # gs) =
     (if silent g then drop_components (Suc n) gs else drop_components n gs)"

definition trim_silent :: "string list \<Rightarrow> string list" where
  "trim_silent gs = rev (dropWhile silent (rev (dropWhile silent gs)))"

text \<open>
  \<^verbatim>\<open>Path::strip_prefix\<close> of a base with at least one component: the rest of the text, less the
  separators and dots at its ends.
\<close>

definition path_strip_prefix :: "string \<Rightarrow> string \<Rightarrow> string option" where
  "path_strip_prefix p base =
     (if path_starts_with p base
      then Some (join slash (trim_silent
             (drop_components (length (filter (\<lambda>g. \<not> silent g) (segments base))) (segments p))))
      else None)"

definition path_push :: "string \<Rightarrow> string \<Rightarrow> string" where
  "path_push p seg =
     (if is_absolute seg then seg
      else if p = [] \<or> last p = CHR ''/'' then p @ seg else p @ slash @ seg)"

text \<open>
  \<^verbatim>\<open>PathBuf::pop\<close> on an absolute path: the last component goes, with the separators and dots
  around it; the root has no parent.
\<close>

definition path_pop :: "string \<Rightarrow> string option" where
  "path_pop p =
     (let kept = dropWhile silent (rev (tl (segments p)))
      in if kept = [] then None
         else Some (slash @ join slash (rev (dropWhile silent (tl kept)))))"

end
