(* ===== verification/Json.thy ===== *)
theory Json
  imports Prelude
begin

text \<open>
  JSON values as \<^verbatim>\<open>serde_json::Value\<close> presents them. An object is the association list of its
  members in iteration order, with distinct keys; inserting a new key appends it. A number is an
  integer, or the text of a number that is none (such numbers are only carried along).
\<close>

datatype json =
    JNull
  | JBool bool
  | JInt int
  | JFloat string
  | JStr string
  | JArr "json list"
  | JObj "(string \<times> json) list"

fun as_str :: "json \<Rightarrow> string option" where
  "as_str (JStr s) = Some s"
| "as_str _ = None"

fun as_array :: "json \<Rightarrow> json list option" where
  "as_array (JArr xs) = Some xs"
| "as_array _ = None"

fun as_object :: "json \<Rightarrow> (string \<times> json) list option" where
  "as_object (JObj ms) = Some ms"
| "as_object _ = None"

text \<open>\<^verbatim>\<open>as_i64\<close>: an integer in the range of \<^verbatim>\<open>i64\<close>.\<close>

fun as_i64 :: "json \<Rightarrow> int option" where
  "as_i64 (JInt n) = (if - (2 ^ 63) \<le> n \<and> n < 2 ^ 63 then Some n else None)"
| "as_i64 _ = None"

text \<open>\<^verbatim>\<open>value.get(key)\<close>, and \<^verbatim>\<open>value[key]\<close>, which is null where there is no member.\<close>

fun jget :: "json \<Rightarrow> string \<Rightarrow> json option" where
  "jget (JObj ms) k = map_of ms k"
| "jget _ k = None"

definition jat :: "json \<Rightarrow> string \<Rightarrow> json" where
  "jat v k = (case jget v k of Some x \<Rightarrow> x | None \<Rightarrow> JNull)"

definition is_object :: "json \<Rightarrow> bool" where
  "is_object v \<longleftrightarrow> as_object v \<noteq> None"

fun put_member :: "string \<Rightarrow> json \<Rightarrow> (string \<times> json) list \<Rightarrow> (string \<times> json) list" where
  "put_member k v [] = [(k, v)]"
| "put_member k v ((k', v') # ms) = (if k' = k then (k, v) # ms else (k', v') # put_member k v ms)"

text \<open>\<^verbatim>\<open>value[key] = x\<close> on an object; the code never assigns to a member of anything else.\<close>

fun jput :: "json \<Rightarrow> string \<Rightarrow> json \<Rightarrow> json" where
  "jput (JObj ms) k v = JObj (put_member k v ms)"
| "jput j k v = j"

lemma map_of_put_member [simp]: "map_of (put_member k v ms) = (map_of ms)(k \<mapsto> v)"
  by (induction ms) (auto simp: fun_eq_iff)

lemma put_member_keys: "map fst (put_member k v ms) = (if k \<in> fst ` set ms then map fst ms else map fst ms @ [k])"
  by (induction k v ms rule: put_member.induct) (force split: if_splits)+

lemma put_member_distinct: "distinct (map fst ms) \<Longrightarrow> distinct (map fst (put_member k v ms))"
  by (auto simp: put_member_keys)

lemma jget_jput [simp]: "is_object j \<Longrightarrow> jget (jput j k v) k' = (if k' = k then Some v else jget j k')"
  by (cases j) (auto simp: is_object_def)

lemma is_object_jput [simp]: "is_object (jput j k v) = is_object j"
  by (cases j) (auto simp: is_object_def)

text \<open>A value whose objects, at every level, have distinct keys.\<close>

fun json_ok :: "json \<Rightarrow> bool" where
  "json_ok (JArr xs) \<longleftrightarrow> (\<forall>x \<in> set xs. json_ok x)"
| "json_ok (JObj ms) \<longleftrightarrow> distinct (map fst ms) \<and> (\<forall>m \<in> set ms. json_ok (snd m))"
| "json_ok _ \<longleftrightarrow> True"

end
