(* ===== verification/Timeline_Types.thy ===== *)
theory Timeline_Types
  imports Json
begin

text \<open>
  Canonical blocks (\<^verbatim>\<open>canonical/types.rs\<close>), stored events and the visible items of a timeline
  (\<^verbatim>\<open>timeline/types.rs\<close>), and how the timeline reads an event (\<^verbatim>\<open>timeline/events.rs\<close>,
  \<^verbatim>\<open>timeline/agent_messages.rs\<close>). A timestamp is the number of microseconds since the epoch,
  the precision of the database the events are read from.
\<close>

type_synonym time = int

section \<open>Blocks\<close>

datatype block_kind = BText | BThinking | BToolUse | BToolResult | BUnknown

fun block_kind_as_str :: "block_kind \<Rightarrow> string" where
  "block_kind_as_str BText = ''text''"
| "block_kind_as_str BThinking = ''thinking''"
| "block_kind_as_str BToolUse = ''tool_use''"
| "block_kind_as_str BToolResult = ''tool_result''"
| "block_kind_as_str BUnknown = ''unknown''"

datatype operation_category =
  CreateContent | Inspect | Utility | Research | Delegate | Workflow | Plan | OtherCategory

fun category_as_str :: "operation_category \<Rightarrow> string" where
  "category_as_str CreateContent = ''create_content''"
| "category_as_str Inspect = ''inspect''"
| "category_as_str Utility = ''utility''"
| "category_as_str Research = ''research''"
| "category_as_str Delegate = ''delegate''"
| "category_as_str Workflow = ''workflow''"
| "category_as_str Plan = ''plan''"
| "category_as_str OtherCategory = ''other''"

definition category_parse :: "string \<Rightarrow> operation_category option" where
  "category_parse raw =
     (if raw = ''create_content'' then Some CreateContent
      else if raw = ''inspect'' then Some Inspect
      else if raw = ''utility'' then Some Utility
      else if raw = ''research'' then Some Research
      else if raw = ''delegate'' then Some Delegate
      else if raw = ''workflow'' then Some Workflow
      else if raw = ''plan'' then Some Plan
      else if raw = ''other'' then Some OtherCategory
      else None)"

lemma category_round_trip [simp]: "category_parse (category_as_str c) = Some c"
  by (cases c) (simp_all add: category_parse_def)

record block =
  bk_ord :: int
  bk_kind :: block_kind
  bk_text :: "string option"
  bk_tool_id :: "string option"
  bk_tool_name :: "string option"
  bk_tool_name_canonical :: "string option"
  bk_operation_type :: "string option"
  bk_operation_category :: "operation_category option"
  bk_tool_input :: "json option"
  bk_tool_output :: "json option"
  bk_is_error :: "bool option"
  bk_raw :: "json option"

definition block_text :: "int \<Rightarrow> string \<Rightarrow> block" where
  "block_text ord text = \<lparr>bk_ord = ord, bk_kind = BText, bk_text = Some text, bk_tool_id = None,
     bk_tool_name = None, bk_tool_name_canonical = None, bk_operation_type = None,
     bk_operation_category = None, bk_tool_input = None, bk_tool_output = None,
     bk_is_error = None, bk_raw = None\<rparr>"

definition block_unknown :: "int \<Rightarrow> json \<Rightarrow> block" where
  "block_unknown ord raw = \<lparr>bk_ord = ord, bk_kind = BUnknown, bk_text = None, bk_tool_id = None,
     bk_tool_name = None, bk_tool_name_canonical = None, bk_operation_type = None,
     bk_operation_category = None, bk_tool_input = None, bk_tool_output = None,
     bk_is_error = None, bk_raw = Some raw\<rparr>"

section \<open>Events\<close>

record stored_event =
  se_byte_offset :: int
  se_timestamp :: time
  se_kind :: string
  se_agent :: string
  se_speaker :: "string option"
  se_content_kind :: "string option"
  se_event_uuid :: "string option"
  se_parent_event_uuid :: "string option"
  se_related_tool_use_id :: "string option"
  se_is_sidechain :: bool
  se_is_meta :: bool
  se_subtype :: "string option"
  se_usage_json :: "json option"
  se_usage_message_id :: "string option"
  se_blocks :: "block list"

definition LOCAL_COMMAND_PREFIXES :: "string list" where
  "LOCAL_COMMAND_PREFIXES = [''<command-name>'', ''<command-message>'', ''<local-command-stdout>'',
     ''<local-command-stderr>'', ''<local-command-caveat>'']"

definition is_local_command_text :: "string \<Rightarrow> bool" where
  "is_local_command_text text = list_ex (starts_with (trim_start text)) LOCAL_COMMAND_PREFIXES"

definition BOOKKEEPING_SYSTEM_SUBTYPES :: "string list" where
  "BOOKKEEPING_SYSTEM_SUBTYPES = [''stop_hook_summary'', ''turn_duration'', ''runtime_evidence'']"

definition is_bookkeeping_system_subtype :: "string option \<Rightarrow> bool" where
  "is_bookkeeping_system_subtype subtype =
     (case subtype of None \<Rightarrow> False | Some s \<Rightarrow> List.member BOOKKEEPING_SYSTEM_SUBTYPES s)"

definition BOOKKEEPING_KINDS :: "string list" where
  "BOOKKEEPING_KINDS =
     [''agent-name'', ''api-request'', ''api-request-blob'', ''ai-title'', ''attachment'',
      ''bridge-session'', ''custom-title'', ''cost-state'', ''file-history-delta'',
      ''file-history-snapshot'', ''frame-link'', ''last-prompt'',
      ''inter_agent_communication_metadata'', ''mode'', ''permission-mode'', ''queue-operation'',
      ''world_state'', ''token_usage_record'', ''atis-latch'']"

definition record_speaker :: "string \<Rightarrow> string option \<Rightarrow> string" where
  "record_speaker kind speaker =
     (case speaker of
        Some s \<Rightarrow> s
      | None \<Rightarrow> if kind \<in> {''assistant'', ''user'', ''system'', ''summary''} then kind else ''other'')"

definition first_text_block :: "block list \<Rightarrow> string option" where
  "first_text_block blocks = Option.bind (find (\<lambda>b. bk_kind b = BText) blocks) bk_text"

definition is_bookkeeping_record ::
  "string \<Rightarrow> string option \<Rightarrow> string option \<Rightarrow> bool \<Rightarrow> block list \<Rightarrow> bool" where
  "is_bookkeeping_record kind speaker subtype is_meta blocks =
     (let speaker = record_speaker kind speaker in
        (speaker = ''other'' \<and> blocks = [])
      \<or> is_meta
      \<or> (List.member BOOKKEEPING_KINDS kind \<and> subtype \<noteq> Some ''queued_user_prompt'')
      \<or> (speaker = ''system'' \<and> is_bookkeeping_system_subtype subtype)
      \<or> (speaker = ''user''
          \<and> (case first_text_block blocks of None \<Rightarrow> False | Some t \<Rightarrow> is_local_command_text t)))"

definition event_speaker :: "stored_event \<Rightarrow> string" where
  "event_speaker e = record_speaker (se_kind e) (se_speaker e)"

definition is_bookkeeping_event :: "stored_event \<Rightarrow> bool" where
  "is_bookkeeping_event e =
     is_bookkeeping_record (se_kind e) (se_speaker e) (se_subtype e) (se_is_meta e) (se_blocks e)"

definition is_assistant_event :: "stored_event \<Rightarrow> bool" where
  "is_assistant_event e \<longleftrightarrow> event_speaker e = ''assistant''"

definition is_summary_event :: "stored_event \<Rightarrow> bool" where
  "is_summary_event e \<longleftrightarrow> event_speaker e = ''summary''"

definition is_system_event :: "stored_event \<Rightarrow> bool" where
  "is_system_event e \<longleftrightarrow> event_speaker e = ''system''"

definition is_tool_result_event :: "stored_event \<Rightarrow> bool" where
  "is_tool_result_event e = list_ex (\<lambda>b. bk_kind b = BToolResult) (se_blocks e)"

definition is_task_notification_text :: "string \<Rightarrow> bool" where
  "is_task_notification_text text =
     (let text = trim text in
      starts_with text ''<task-notification>'' \<and> ends_with text ''</task-notification>''
      \<and> str_contains text ''<task-id>'')"

definition is_claude_task_notification :: "stored_event \<Rightarrow> bool" where
  "is_claude_task_notification e \<longleftrightarrow> se_agent e = ''claude-code''
     \<and> list_ex (\<lambda>b. bk_kind b = BText
          \<and> (case bk_text b of None \<Rightarrow> False | Some t \<Rightarrow> is_task_notification_text t)) (se_blocks e)"

definition is_real_user_prompt :: "stored_event \<Rightarrow> bool" where
  "is_real_user_prompt e \<longleftrightarrow> event_speaker e = ''user'' \<and> \<not> is_bookkeeping_event e
     \<and> \<not> is_tool_result_event e \<and> \<not> is_claude_task_notification e"

definition advances_turn_time :: "stored_event \<Rightarrow> bool" where
  "advances_turn_time e \<longleftrightarrow>
     se_subtype e = Some ''turn_duration'' \<or> se_subtype e = Some ''stop_hook_summary''
     \<or> \<not> is_bookkeeping_event e"

definition text_blocks_in :: "stored_event \<Rightarrow> string list" where
  "text_blocks_in e = List.map_filter (\<lambda>b. if bk_kind b = BText then bk_text b else None) (se_blocks e)"

definition thinking_texts_in :: "stored_event \<Rightarrow> string list" where
  "thinking_texts_in e =
     filter (\<lambda>t. t \<noteq> [])
       (List.map_filter (\<lambda>b. if bk_kind b = BThinking then map_option trim (bk_text b) else None)
         (se_blocks e))"

definition has_useful_thinking :: "stored_event \<Rightarrow> bool" where
  "has_useful_thinking e \<longleftrightarrow> thinking_texts_in e \<noteq> []"

definition user_prompt_text :: "stored_event \<Rightarrow> string" where
  "user_prompt_text e = join '' '' (text_blocks_in e)"

record tool_use_view =
  tu_id :: "string option"
  tu_name :: string
  tu_raw_name :: "string option"
  tu_operation_type :: "string option"
  tu_category :: "operation_category option"
  tu_input :: "json option"
  tu_is_error :: bool

definition or_else :: "'a option \<Rightarrow> 'a option \<Rightarrow> 'a option" where
  "or_else a b = (case a of None \<Rightarrow> b | Some x \<Rightarrow> Some x)"

definition unwrap_or :: "'a option \<Rightarrow> 'a \<Rightarrow> 'a" where
  "unwrap_or a d = (case a of None \<Rightarrow> d | Some x \<Rightarrow> x)"

lemma unwrap_or_simps [simp]: "unwrap_or None d = d" "unwrap_or (Some x) d = x"
  by (simp_all add: unwrap_or_def)

definition tool_use_of :: "block \<Rightarrow> tool_use_view" where
  "tool_use_of b = \<lparr>tu_id = bk_tool_id b,
     tu_name = unwrap_or (or_else (bk_tool_name_canonical b) (bk_tool_name b)) ''unknown'',
     tu_raw_name = bk_tool_name b, tu_operation_type = bk_operation_type b,
     tu_category = bk_operation_category b, tu_input = bk_tool_input b,
     tu_is_error = unwrap_or (bk_is_error b) False\<rparr>"

definition tool_uses_in :: "stored_event \<Rightarrow> tool_use_view list" where
  "tool_uses_in e = map tool_use_of (filter (\<lambda>b. bk_kind b = BToolUse) (se_blocks e))"

section \<open>Shortened text\<close>

definition str_truncate :: "string \<Rightarrow> nat \<Rightarrow> string" where
  "str_truncate text n =
     (if char_count text \<le> n then text else concat (take (n - 1) (chars text)) @ ellipsis)"

definition first_paragraph :: "string \<Rightarrow> nat \<Rightarrow> string" where
  "first_paragraph text n =
     (let trimmed = trim text in
      if trimmed = [] then []
      else
        let paragraphs = split_str trimmed [CHR 0x0A, CHR 0x0A];
            first = join '' '' (split_whitespace (case paragraphs of p # _ \<Rightarrow> p | [] \<Rightarrow> trimmed));
            has_more = list_ex (\<lambda>part. trim part \<noteq> []) (tl paragraphs)
        in if char_count first \<le> n then (if has_more then first @ '' '' @ ellipsis else first)
           else str_truncate first n)"

section \<open>Visible items\<close>

datatype assistant_item = TextItem string | ToolItem string

record generic_details =
  gd_event_uuid :: "string option"
  gd_parent_event_uuid :: "string option"
  gd_related_tool_use_id :: "string option"
  gd_subtype :: "string option"
  gd_speaker :: "string option"
  gd_content_kind :: "string option"
  gd_blocks :: "block list"

datatype chunk =
    Assistant "assistant_item list" "string list"
  | Summary "string option" string
  | System "string option" string bool
  | AgentMessage string string "string option" string
  | Generic string generic_details bool

definition classify_bookkeeping :: "chunk \<Rightarrow> chunk" where
  "classify_bookkeeping c =
     (case c of
        System subtype text is_meta \<Rightarrow>
          System subtype text (is_meta \<or> is_bookkeeping_system_subtype subtype)
      | Generic label details is_meta \<Rightarrow>
          Generic label details
            (is_bookkeeping_record label (gd_speaker details) (gd_subtype details) is_meta
              (gd_blocks details))
      | _ \<Rightarrow> c)"

definition unwrap_envelope :: "string \<Rightarrow> (string \<times> string) option" where
  "unwrap_envelope text =
     Option.bind (strip_prefix text ''Message Type: '') (\<lambda>r.
     Option.bind (split_once r [CHR 0x0A]) (\<lambda>(message_type, rest).
     Option.bind (strip_prefix rest ''Task name: '') (\<lambda>r.
     Option.bind (split_once r [CHR 0x0A]) (\<lambda>(_, rest).
     Option.bind (strip_prefix rest ''Sender: '') (\<lambda>r.
     Option.bind (split_once r [CHR 0x0A]) (\<lambda>(_, rest).
     Option.bind (strip_prefix rest ''Payload:'') (\<lambda>body.
       Some (trim message_type,
         unwrap_or
           (or_else (strip_prefix body [CHR 0x0D, CHR 0x0A])
             (or_else (strip_prefix body [CHR 0x0A]) (strip_prefix body '' ''))) body))))))))"

definition agent_message_project :: "stored_event \<Rightarrow> chunk option" where
  "agent_message_project e =
     (if se_agent e \<noteq> ''codex'' \<or> se_subtype e \<noteq> Some ''agent_message'' then None
      else case text_blocks_in e of
          [] \<Rightarrow> None
        | head # rest \<Rightarrow>
            Option.bind (strip_prefix head ''Agent message: '') (\<lambda>route.
            Option.bind (split_once route ('' '' @ right_arrow @ '' '')) (\<lambda>(author, recipient).
              let text = join [CHR 0x0A, CHR 0x0A] rest;
                  envelope = unwrap_envelope text
              in Some (AgentMessage author recipient (map_option fst envelope)
                        (case envelope of None \<Rightarrow> text | Some (_, body) \<Rightarrow> body)))))"

definition assistant_item_of :: "block \<Rightarrow> assistant_item option" where
  "assistant_item_of b =
     (case bk_kind b of
        BText \<Rightarrow> (case bk_text b of Some t \<Rightarrow> if t = [] then None else Some (TextItem t) | None \<Rightarrow> None)
      | BToolUse \<Rightarrow> map_option ToolItem (bk_tool_id b)
      | _ \<Rightarrow> None)"

definition visible_item :: "stored_event \<Rightarrow> chunk option" where
  "visible_item e =
     (if is_tool_result_event e then None
      else if is_assistant_event e then
        (let items = List.map_filter assistant_item_of (se_blocks e);
             thinking = thinking_texts_in e
         in if items \<noteq> [] \<or> thinking \<noteq> [] then Some (Assistant items thinking) else None)
      else case agent_message_project e of
          Some message \<Rightarrow> Some message
        | None \<Rightarrow>
            (let text = join '' '' (text_blocks_in e)
             in Some
               (if is_summary_event e then Summary (se_subtype e) text
                else if is_system_event e
                  then System (se_subtype e) text (is_bookkeeping_event e)
                else Generic (se_kind e)
                  \<lparr>gd_event_uuid = se_event_uuid e, gd_parent_event_uuid = se_parent_event_uuid e,
                   gd_related_tool_use_id = se_related_tool_use_id e, gd_subtype = se_subtype e,
                   gd_speaker = se_speaker e, gd_content_kind = se_content_kind e,
                   gd_blocks = se_blocks e\<rparr> (is_bookkeeping_event e))))"

end
