(* ===== verification/Timeline_Rows.thy ===== *)
theory Timeline_Rows
  imports Timeline_Types
begin

text \<open>
  Runtime evidence (\<^verbatim>\<open>timeline/runtime.rs\<close>) and the rows of the timeline with the changes one
  event makes to a row (\<^verbatim>\<open>timeline/reduce.rs\<close>, \<^verbatim>\<open>timeline/reduce/operations.rs\<close>). Counters and
  token sums are integers: they are kept in \<^verbatim>\<open>i32\<close> and \<^verbatim>\<open>i64\<close> fields, which a session of
  fewer than two billion events does not exceed.
\<close>

section \<open>Runtime evidence\<close>

definition runtime_evidence :: "block \<Rightarrow> json option" where
  "runtime_evidence b =
     (case bk_tool_output b of
        None \<Rightarrow> None
      | Some v \<Rightarrow> if jget v ''runtime_item'' \<noteq> None then Some v else None)"

definition fails_call :: "operation_category option \<Rightarrow> json \<Rightarrow> bool" where
  "fails_call category evidence \<longleftrightarrow> category \<noteq> Some CreateContent
     \<or> as_str (jat (jat evidence ''runtime_item'') ''type'') = Some ''FileChange''"

definition mark_uncorrelated :: "stored_event \<Rightarrow> json \<Rightarrow> stored_event" where
  "mark_uncorrelated e evidence =
     (let item = jat evidence ''runtime_item'';
          text = ''Uncorrelated runtime evidence: ''
            @ unwrap_or (as_str (jat item ''type'')) ''unknown'' @ '' (''
            @ unwrap_or (as_str (jat item ''id'')) ''unknown id'' @ '') '' @ em_dash @ '' ''
            @ unwrap_or (as_str (jat item ''status'')) ''completed''
      in e\<lparr>se_blocks := [block_text 0 text, block_unknown 1 evidence], se_is_meta := True,
           se_content_kind := Some ''text'', se_subtype := Some ''runtime_evidence''\<rparr>)"

text \<open>\<^verbatim>\<open>push\<close>: append to the array member, made when missing; another kind of member stays.\<close>

definition jpush :: "json \<Rightarrow> string \<Rightarrow> json \<Rightarrow> json" where
  "jpush object key v =
     (case jget object key of
        None \<Rightarrow> jput object key (JArr [v])
      | Some (JArr xs) \<Rightarrow> jput object key (JArr (xs @ [v]))
      | Some _ \<Rightarrow> object)"

definition jopt :: "string option \<Rightarrow> json" where
  "jopt v = (case v of None \<Rightarrow> JNull | Some s \<Rightarrow> JStr s)"

definition file_edit :: "json \<Rightarrow> string \<Rightarrow> json \<Rightarrow> json" where
  "file_edit item path change =
     (let move_path = Option.bind (jget change ''move_path'') as_str
      in JObj [(''path'', JStr (unwrap_or move_path path)),
               (''old_path'', if move_path \<noteq> None then JStr path else JNull),
               (''operation'', jat change ''type''), (''diff'', jat change ''unified_diff''),
               (''content'', jat change ''content''), (''status'', jat item ''status'')])"

fun put_edit :: "json \<Rightarrow> json list \<Rightarrow> json list" where
  "put_edit edit [] = [edit]"
| "put_edit edit (e # es) = (if jat e ''path'' = jat edit ''path'' then edit # es else e # put_edit edit es)"

definition add_file_edit :: "json \<Rightarrow> string \<times> json \<Rightarrow> json \<Rightarrow> json" where
  "add_file_edit item = (\<lambda>(path, change) input.
     (let edit = file_edit item path change in
      case jget input ''file_edits'' of
        None \<Rightarrow> jput input ''file_edits'' (JArr [edit])
      | Some (JArr es) \<Rightarrow> jput input ''file_edits'' (JArr (put_edit edit es))
      | Some _ \<Rightarrow> input))"

definition ensure_object :: "string \<Rightarrow> json option \<Rightarrow> json" where
  "ensure_object wrap v =
     (case v of
        None \<Rightarrow> JObj []
      | Some j \<Rightarrow> if is_object j then j else JObj [(wrap, j)])"

definition attach_to_input :: "json option \<Rightarrow> json \<Rightarrow> json option" where
  "attach_to_input input evidence =
     (let item = jat evidence ''runtime_item'';
          input = jpush (ensure_object ''original_input'' input) ''runtime_items'' evidence;
          input =
            (if Option.bind (jget item ''type'') as_str = Some ''CommandExecution''
             then
               (let input =
                  (if jget input ''command'' = None
                   then (case Option.bind (jget item ''command'') as_array of
                       Some command \<Rightarrow>
                         jput input ''command'' (JStr (join '' '' (List.map_filter as_str command)))
                     | None \<Rightarrow> input)
                   else input)
                in if jget input ''cwd'' = None then jput input ''cwd'' (jat item ''cwd'') else input)
             else input)
      in Some (case Option.bind (jget item ''changes'') as_object of
           Some changes \<Rightarrow> fold (add_file_edit item) changes input
         | None \<Rightarrow> input))"

definition attach_to_output :: "json option \<Rightarrow> json \<Rightarrow> json option" where
  "attach_to_output output evidence =
     Some (jpush (ensure_object ''original_output'' output) ''runtime_items'' evidence)"

definition running_cell :: "string option \<Rightarrow> string option" where
  "running_cell text =
     Option.bind text (\<lambda>t.
     Option.bind (first_line t) (\<lambda>l.
     Option.bind (strip_prefix l ''Script running with cell ID '') (\<lambda>rest.
       case split_whitespace rest of [] \<Rightarrow> None | w # _ \<Rightarrow> Some w)))"

section \<open>Rows\<close>

record session_state =
  ss_projected_through :: int
  ss_next_turn_ord :: int
  ss_current_main :: "int option"
  ss_current_sidechain :: "int option"
  ss_codex_input_total :: "int option"
  ss_codex_output_total :: "int option"
  ss_total_event_count :: int
  ss_turn_count :: int
  ss_latest_turn_id :: "int option"
  ss_latest_event_at :: "time option"

definition default_state :: session_state where
  "default_state = \<lparr>ss_projected_through = -1, ss_next_turn_ord = 0, ss_current_main = None,
     ss_current_sidechain = None, ss_codex_input_total = None, ss_codex_output_total = None,
     ss_total_event_count = 0, ss_turn_count = 0, ss_latest_turn_id = None,
     ss_latest_event_at = None\<rparr>"

record turn_row =
  tr_turn_id :: int
  tr_turn_ord :: int
  tr_is_sidechain :: bool
  tr_preview :: string
  tr_user_prompt_text :: "string option"
  tr_prompt_event_uuid :: "string option"
  tr_start_timestamp :: time
  tr_end_timestamp :: time
  tr_duration_ms :: int
  tr_event_count :: int
  tr_operation_count :: int
  tr_thinking_count :: int
  tr_has_errors :: bool
  tr_input_tokens :: int
  tr_output_tokens :: int
  tr_usage_baseline_input :: int
  tr_usage_baseline_output :: int

record op_row =
  op_turn_id :: int
  op_operation_ord :: int
  op_pair_id :: string
  op_name :: string
  op_raw_name :: "string option"
  op_operation_type :: "string option"
  op_category :: "operation_category option"
  op_input :: "json option"
  op_result_content :: "string option"
  op_result_payload :: "json option"
  op_result_is_error :: bool
  op_is_error :: bool
  op_is_pending :: bool
  op_call_offset :: int
  op_call_at :: time
  op_changed_at :: int
  op_call_error :: bool
  op_running_cell :: "string option"
  op_finished_at :: "time option"

type_synonym op_key = "int \<times> int"

definition op_key :: "op_row \<Rightarrow> op_key" where
  "op_key op = (op_turn_id op, op_operation_ord op)"

record message_usage =
  mu_turn_id :: int
  mu_input_tokens :: int
  mu_output_tokens :: int

text \<open>A session is named by a number that stands for its UUID.\<close>

type_synonym session = nat

record child_link =
  cl_session_uuid :: session
  cl_pair_id :: string
  cl_child_session_uuid :: session
  cl_child_turn_id :: int

text \<open>\<^verbatim>\<open>name.rsplit('.').next()\<close>: what follows the last dot.\<close>

definition rsplit_dot :: "string \<Rightarrow> string" where
  "rsplit_dot s = rev (takeWhile (\<lambda>c. c \<noteq> CHR ''.'') (rev s))"

definition tool_short_name :: "op_row \<Rightarrow> string option" where
  "tool_short_name op = map_option rsplit_dot (op_raw_name op)"

definition timestamp_millis :: "time \<Rightarrow> int" where
  "timestamp_millis t = t div 1000"

definition encloses :: "op_row \<Rightarrow> time option \<Rightarrow> bool" where
  "encloses op started \<longleftrightarrow> tool_short_name op = Some ''exec'' \<and>
     (case started of
        Some start \<Rightarrow> timestamp_millis start \<ge> timestamp_millis (op_call_at op)
          \<and> (case op_finished_at op of
               None \<Rightarrow> True
             | Some fin \<Rightarrow> timestamp_millis start \<le> timestamp_millis fin)
      | None \<Rightarrow> op_finished_at op = None)"

section \<open>Changes to one row\<close>

definition NO_PROMPT_PREVIEW :: string where
  "NO_PROMPT_PREVIEW = ''(no user prompt)''"

definition seed_turn :: "session_state \<Rightarrow> stored_event \<Rightarrow> bool \<Rightarrow> bool \<Rightarrow> turn_row" where
  "seed_turn st first prompt sidechain =
     (let prompt_text = (if prompt then Some (user_prompt_text first) else None)
      in \<lparr>tr_turn_id = se_byte_offset first, tr_turn_ord = ss_next_turn_ord st,
          tr_is_sidechain = sidechain,
          tr_preview = (case prompt_text of
              Some text \<Rightarrow> if text = [] then NO_PROMPT_PREVIEW else first_paragraph text 280
            | None \<Rightarrow> NO_PROMPT_PREVIEW),
          tr_user_prompt_text = prompt_text,
          tr_prompt_event_uuid = (if prompt then se_event_uuid first else None),
          tr_start_timestamp = se_timestamp first, tr_end_timestamp = se_timestamp first,
          tr_duration_ms = 0, tr_event_count = (if prompt then 1 else 0),
          tr_operation_count = 0, tr_thinking_count = 0, tr_has_errors = False,
          tr_input_tokens = 0, tr_output_tokens = 0,
          tr_usage_baseline_input = unwrap_or (ss_codex_input_total st) 0,
          tr_usage_baseline_output = unwrap_or (ss_codex_output_total st) 0\<rparr>)"

text \<open>\<^verbatim>\<open>Option::max\<close>: \<open>None\<close> is below every value.\<close>

definition opt_max :: "'a::linorder option \<Rightarrow> 'a \<Rightarrow> 'a option" where
  "opt_max a b = Some (case a of None \<Rightarrow> b | Some x \<Rightarrow> max x b)"

definition seed_state :: "stored_event \<Rightarrow> bool \<Rightarrow> session_state \<Rightarrow> session_state" where
  "seed_state first prompt st = st\<lparr>
     ss_next_turn_ord := ss_next_turn_ord st + 1, ss_turn_count := ss_turn_count st + 1,
     ss_total_event_count := ss_total_event_count st + (if prompt then 1 else 0),
     ss_latest_turn_id := opt_max (ss_latest_turn_id st) (se_byte_offset first),
     ss_latest_event_at := opt_max (ss_latest_event_at st) (se_timestamp first)\<rparr>"

definition num_milliseconds :: "int \<Rightarrow> int" where
  "num_milliseconds d = (if 0 \<le> d then d div 1000 else - ((- d) div 1000))"

definition count_event :: "stored_event \<Rightarrow> turn_row \<Rightarrow> turn_row" where
  "count_event e turn =
     (let turn = turn\<lparr>tr_event_count := tr_event_count turn + 1\<rparr>
      in if advances_turn_time e
         then (let fin = max (tr_end_timestamp turn) (se_timestamp e)
               in turn\<lparr>tr_end_timestamp := fin,
                       tr_duration_ms := max (num_milliseconds (fin - tr_start_timestamp turn)) 0\<rparr>)
         else turn)"

definition count_state :: "stored_event \<Rightarrow> session_state \<Rightarrow> session_state" where
  "count_state e st = st\<lparr>ss_total_event_count := ss_total_event_count st + 1,
     ss_latest_event_at := opt_max (ss_latest_event_at st) (se_timestamp e)\<rparr>"

definition assistant_turn :: "stored_event \<Rightarrow> turn_row \<Rightarrow> turn_row" where
  "assistant_turn e turn =
     (let turn = turn\<lparr>tr_thinking_count :=
            tr_thinking_count turn + (if has_useful_thinking e then 1 else 0)\<rparr>;
          text = join '' '' (text_blocks_in e)
      in if tr_preview turn = NO_PROMPT_PREVIEW \<and> text \<noteq> []
         then turn\<lparr>tr_preview := ''(assistant) '' @ first_paragraph text 260\<rparr> else turn)"

definition flag_turn :: "bool \<Rightarrow> turn_row \<Rightarrow> turn_row" where
  "flag_turn err turn = turn\<lparr>tr_has_errors := (tr_has_errors turn \<or> err)\<rparr>"

definition call_turn :: "tool_use_view \<Rightarrow> turn_row \<Rightarrow> turn_row" where
  "call_turn tool turn = (flag_turn (tu_is_error tool) turn)
     \<lparr>tr_operation_count := tr_operation_count turn + 1\<rparr>"

definition call_row :: "int \<Rightarrow> int \<Rightarrow> stored_event \<Rightarrow> tool_use_view \<Rightarrow> op_row" where
  "call_row turn_id operation_ord e tool =
     \<lparr>op_turn_id = turn_id, op_operation_ord = operation_ord,
      op_pair_id = unwrap_or (tu_id tool) (''noid-'' @ show_int operation_ord),
      op_name = tu_name tool, op_raw_name = tu_raw_name tool,
      op_operation_type = tu_operation_type tool, op_category = tu_category tool,
      op_input = tu_input tool, op_result_content = None, op_result_payload = None,
      op_result_is_error = False, op_is_error = tu_is_error tool, op_is_pending = True,
      op_call_offset = se_byte_offset e, op_call_at = se_timestamp e,
      op_changed_at = se_byte_offset e, op_call_error = tu_is_error tool,
      op_running_cell = None, op_finished_at = None\<rparr>"

definition set_result :: "block \<Rightarrow> stored_event \<Rightarrow> op_row \<Rightarrow> op_row" where
  "set_result b e op =
     (let payload =
        (case Option.bind (Option.bind (op_input op) (\<lambda>i. jget i ''runtime_items'')) as_array of
           Some items \<Rightarrow> fold (\<lambda>evidence p. attach_to_output p evidence) items (bk_tool_output b)
         | None \<Rightarrow> bk_tool_output b);
          result_is_error = (unwrap_or (bk_is_error b) False \<or> op_call_error op)
      in op\<lparr>op_result_content := bk_text b, op_result_payload := payload,
            op_result_is_error := result_is_error, op_is_pending := False,
            op_is_error := (op_call_error op \<or> result_is_error),
            op_changed_at := se_byte_offset e,
            op_running_cell := running_cell (bk_text b),
            op_finished_at := (case running_cell (bk_text b) of
                Some _ \<Rightarrow> None | None \<Rightarrow> Some (se_timestamp e))\<rparr>)"

definition waited :: "stored_event \<Rightarrow> op_row \<Rightarrow> op_row" where
  "waited e op = op\<lparr>op_running_cell := None, op_finished_at := Some (se_timestamp e),
     op_changed_at := se_byte_offset e\<rparr>"

text \<open>The cell a completed \<^verbatim>\<open>wait\<close> waited on, when it ends calls that were still running.\<close>

definition waited_cell :: "op_row \<Rightarrow> block \<Rightarrow> string option" where
  "waited_cell wait b =
     (if tool_short_name wait \<noteq> Some ''wait'' \<or> running_cell (bk_text b) \<noteq> None then None
      else Option.bind (Option.bind (op_input wait) (\<lambda>i. jget i ''cell_id'')) as_str)"

definition fold_evidence :: "json \<Rightarrow> bool \<Rightarrow> int \<Rightarrow> op_row \<Rightarrow> op_row" where
  "fold_evidence evidence failed offset op =
     (let failed = (failed \<and> fails_call (op_category op) evidence);
          op = op\<lparr>op_call_error := (op_call_error op \<or> failed),
                  op_input := attach_to_input (op_input op) evidence\<rparr>;
          op = (if \<not> op_is_pending op
                then op\<lparr>op_result_payload := attach_to_output (op_result_payload op) evidence,
                        op_result_is_error := (op_result_is_error op \<or> failed)\<rparr>
                else op)
      in op\<lparr>op_is_error := (op_call_error op \<or> op_result_is_error op), op_changed_at := offset\<rparr>)"

definition token :: "json \<Rightarrow> string \<Rightarrow> int" where
  "token usage key = unwrap_or (Option.bind (jget usage key) as_i64) 0"

definition claude_input :: "json \<Rightarrow> int" where
  "claude_input usage = token usage ''input_tokens'' + token usage ''cache_read_input_tokens''
     + token usage ''cache_creation_input_tokens''"

definition add_tokens :: "int \<Rightarrow> int \<Rightarrow> turn_row \<Rightarrow> turn_row" where
  "add_tokens i out turn = turn\<lparr>tr_input_tokens := tr_input_tokens turn + i,
     tr_output_tokens := tr_output_tokens turn + out\<rparr>"

definition codex_tokens :: "int \<Rightarrow> int \<Rightarrow> turn_row \<Rightarrow> turn_row" where
  "codex_tokens total_in total_out turn = turn\<lparr>
     tr_input_tokens := max (total_in - tr_usage_baseline_input turn) 0,
     tr_output_tokens := max (total_out - tr_usage_baseline_output turn) 0\<rparr>"

end
