(* ===== verification/File_Touches.thy ===== *)
theory File_Touches
  imports Paths Timeline_Rows
begin

text \<open>
  Which files a tool call touched (\<^verbatim>\<open>timeline/file_touches.rs\<close>), and the containment check it
  shares with the workspace API (\<^verbatim>\<open>workspace.rs\<close>). The file system is a parameter: whether a path
  exists, whether it is a directory, and its canonical form. Repository roots are absolute.
\<close>

record file_system =
  fs_exists :: "string \<Rightarrow> bool"
  fs_is_dir :: "string \<Rightarrow> bool"
  fs_canonicalize :: "string \<Rightarrow> string option"

datatype workspace_error = AbsolutePath | PathEscape | CanonicalizeFailed | EscapeAfterCanonicalize

fun check_component :: "component \<Rightarrow> workspace_error + unit" where
  "check_component (Normal _) = Inr ()"
| "check_component CurDir = Inr ()"
| "check_component ParentDir = Inl PathEscape"
| "check_component RootDir = Inl AbsolutePath"

definition resolve_in_repo ::
  "file_system \<Rightarrow> string \<Rightarrow> string \<Rightarrow> workspace_error + (string \<times> string)" where
  "resolve_in_repo fs repo_root rel =
     res_bind (guard (\<not> starts_with rel ''/'') AbsolutePath) (\<lambda>_.
     res_bind (res_map check_component (components rel)) (\<lambda>_.
     let target = (if rel = [] \<or> rel = ''.'' then repo_root else path_push repo_root rel) in
     res_bind
       (if fs_exists fs target then
          res_bind (ok_or (fs_canonicalize fs repo_root) CanonicalizeFailed) (\<lambda>root_real.
          res_bind (ok_or (fs_canonicalize fs target) CanonicalizeFailed) (\<lambda>target_real.
            guard (path_starts_with target_real root_real) EscapeAfterCanonicalize))
        else Inr ()) (\<lambda>_.
       Inr (target, rel))))"

record tool_pair =
  tp_id :: string
  tp_name :: string
  tp_raw_name :: "string option"
  tp_operation_type :: "string option"
  tp_category :: "operation_category option"
  tp_input :: "json option"
  tp_result :: "(string option \<times> json option \<times> bool) option"
  tp_is_error :: bool
  tp_is_pending :: bool

definition op_pair :: "op_row \<Rightarrow> tool_pair" where
  "op_pair op = \<lparr>tp_id = op_pair_id op, tp_name = op_name op, tp_raw_name = op_raw_name op,
     tp_operation_type = op_operation_type op, tp_category = op_category op, tp_input = op_input op,
     tp_result =
       (if op_result_content op \<noteq> None \<or> op_result_payload op \<noteq> None
        then Some (op_result_content op, op_result_payload op, op_result_is_error op) else None),
     tp_is_error = op_is_error op, tp_is_pending = op_is_pending op\<rparr>"

record file_touch =
  ft_repo :: string
  ft_path :: string
  ft_touch_kind :: string
  ft_is_write :: bool

record file_touch_context =
  fc_repo_name :: string
  fc_repo_root :: string
  fc_working_dir :: string

definition pair_operation_type :: "tool_pair \<Rightarrow> string" where
  "pair_operation_type p = unwrap_or (tp_operation_type p) (tp_name p)"

definition command_text :: "json option \<Rightarrow> string option" where
  "command_text input =
     Option.bind input (\<lambda>i.
       if is_object i
       then or_else (Option.bind (jget i ''command'') as_str) (Option.bind (jget i ''cmd'') as_str)
       else None)"

definition write_types :: "string list" where
  "write_types = [''write'', ''edit'', ''multi_edit'', ''apply_patch'', ''create'', ''update'',
     ''delete'', ''add'', ''remove'']"

definition command_types :: "string list" where
  "command_types = [''bash'', ''exec'', ''exec_command'']"

definition touch_kind_for_pair :: "tool_pair \<Rightarrow> string" where
  "touch_kind_for_pair p =
     (if command_text (tp_input p) \<noteq> None then ''command''
      else let t = pair_operation_type p in
        if List.member write_types t then ''write''
        else if List.member command_types t then ''command''
        else ''inspect'')"

definition is_write_pair :: "tool_pair \<Rightarrow> bool" where
  "is_write_pair p = List.member write_types (pair_operation_type p)"

definition is_command_pair :: "tool_pair \<Rightarrow> bool" where
  "is_command_pair p \<longleftrightarrow> command_text (tp_input p) \<noteq> None
     \<or> List.member command_types (pair_operation_type p)"

definition command_quote :: "char \<Rightarrow> bool" where
  "command_quote c = List.member
     [CHR 0x22, CHR 0x27, CHR 0x60, CHR '','', CHR '';'', CHR '':'', CHR ''('', CHR '')'',
      CHR ''['', CHR '']'', CHR ''{'', CHR ''}'', CHR ''|''] c"

definition clean_command_token :: "string \<Rightarrow> string option" where
  "clean_command_token tok =
     (let t = rev (dropWhile command_quote (rev (dropWhile command_quote tok)))
      in if t = [] then None else Some t)"

definition ascii_alphabetic :: "char \<Rightarrow> bool" where
  "ascii_alphabetic c = (let n = of_char c :: nat in 65 \<le> n \<and> n \<le> 90 \<or> 97 \<le> n \<and> n \<le> 122)"

definition ascii_alphanumeric :: "char \<Rightarrow> bool" where
  "ascii_alphanumeric c = (let n = of_char c :: nat in ascii_alphabetic c \<or> 48 \<le> n \<and> n \<le> 57)"

text \<open>\<^verbatim>\<open>rsplit_once('.')\<close>.\<close>

definition rsplit_once_dot :: "string \<Rightarrow> (string \<times> string) option" where
  "rsplit_once_dot s =
     (if CHR ''.'' \<in> set s
      then (let ext = rev (takeWhile (\<lambda>c. c \<noteq> CHR ''.'') (rev s))
            in Some (take (length s - length ext - 1) s, ext))
      else None)"

definition is_path_like_token :: "string \<Rightarrow> bool" where
  "is_path_like_token tok =
     (if tok = [] \<or> \<not> list_all (\<lambda>c. ascii_alphanumeric c
            \<or> List.member [CHR ''/'', CHR ''.'', CHR ''_'', CHR ''-'', CHR ''+'', CHR ''@''] c) tok
      then False
      else if CHR ''/'' \<in> set tok then tok \<noteq> ''.'' \<and> tok \<noteq> ''..''
      else case rsplit_once_dot tok of
          None \<Rightarrow> False
        | Some (stem, ext) \<Rightarrow> stem \<noteq> [] \<and> list_ex ascii_alphabetic stem
            \<and> 1 \<le> length ext \<and> length ext \<le> 5 \<and> list_all ascii_alphanumeric ext)"

text \<open>Walking a relative candidate from a base directory, without leaving the repository upwards.\<close>

fun walk :: "string \<Rightarrow> component list \<Rightarrow> string \<Rightarrow> string option" where
  "walk repo_root [] current = Some current"
| "walk repo_root (CurDir # cs) current = walk repo_root cs current"
| "walk repo_root (Normal seg # cs) current = walk repo_root cs (path_push current seg)"
| "walk repo_root (ParentDir # cs) current =
     (if path_eq current repo_root then None
      else case path_pop current of None \<Rightarrow> None | Some parent \<Rightarrow> walk repo_root cs parent)"
| "walk repo_root (RootDir # cs) current = None"

definition normalize_relative_candidate ::
  "file_system \<Rightarrow> string \<Rightarrow> string \<Rightarrow> string \<Rightarrow> string option" where
  "normalize_relative_candidate fs repo_root base candidate =
     Option.bind (walk repo_root (components candidate) base) (\<lambda>current.
       if \<not> path_starts_with current repo_root then None
       else Option.bind (path_strip_prefix current repo_root) (\<lambda>rel.
         if rel = [] then None
         else case resolve_in_repo fs repo_root rel of
             Inl _ \<Rightarrow> None | Inr (_, rel) \<Rightarrow> Some rel))"

definition normalize_candidate :: "file_system \<Rightarrow> file_touch_context \<Rightarrow> string \<Rightarrow> string option" where
  "normalize_candidate fs ctx raw =
     (let candidate = trim raw; root = fc_repo_root ctx in
      if candidate = [] \<or> starts_with candidate ''-'' \<or> starts_with candidate ''http://''
        \<or> starts_with candidate ''https://'' \<or> starts_with candidate ''$''
        \<or> starts_with candidate ''~'' \<or> CHR 0x0A \<in> set candidate
      then None
      else
        Option.bind
          (if is_absolute candidate then path_strip_prefix candidate root
           else if ends_with candidate ''/'' then None
           else or_else (normalize_relative_candidate fs root root candidate)
                  (normalize_relative_candidate fs root (fc_working_dir ctx) candidate))
          (\<lambda>rel. if rel = [] then None
                 else if fs_is_dir fs (path_push root rel) then None
                 else Some rel))"

type_synonym touch_acc = "file_touch list \<times> (string \<times> string) set"

definition push_touch ::
  "file_system \<Rightarrow> file_touch_context \<Rightarrow> string \<Rightarrow> bool \<Rightarrow> string \<Rightarrow> touch_acc \<Rightarrow> touch_acc" where
  "push_touch fs ctx touch_kind is_write raw = (\<lambda>(out, seen).
     case normalize_candidate fs ctx raw of
       None \<Rightarrow> (out, seen)
     | Some path \<Rightarrow>
         if (path, touch_kind) \<in> seen then (out, seen)
         else (out @ [\<lparr>ft_repo = fc_repo_name ctx, ft_path = path, ft_touch_kind = touch_kind,
                       ft_is_write = is_write\<rparr>], insert (path, touch_kind) seen))"

text \<open>The texts a call names files by: its path members, its path lists, its edits, its command.\<close>

definition path_members :: "json \<Rightarrow> string list \<Rightarrow> string list" where
  "path_members obj keys = List.map_filter (\<lambda>k. Option.bind (jget obj k) as_str) keys"

definition path_lists :: "json \<Rightarrow> string list" where
  "path_lists obj = concat (map (\<lambda>k. case jget obj k of
     Some (JArr vs) \<Rightarrow> List.map_filter as_str vs | _ \<Rightarrow> []) [''paths'', ''files''])"

definition edit_entries :: "json \<Rightarrow> json list" where
  "edit_entries obj = (case jget obj ''file_edits'' of Some (JArr es) \<Rightarrow> es | _ \<Rightarrow> [])"

definition edit_paths :: "json \<Rightarrow> string list" where
  "edit_paths obj = concat (map (\<lambda>entry. path_members entry [''path'', ''old_path''])
     (filter is_object (edit_entries obj)))"

definition command_paths :: "tool_pair \<Rightarrow> string list" where
  "command_paths p =
     (let structured = (case tp_input p of None \<Rightarrow> False | Some i \<Rightarrow> edit_entries i \<noteq> [])
      in if is_command_pair p \<and> \<not> structured
         then (case command_text (tp_input p) of
             None \<Rightarrow> []
           | Some command \<Rightarrow> filter is_path_like_token
               (List.map_filter clean_command_token (split_whitespace command)))
         else [])"

definition extract_file_touches ::
  "file_system \<Rightarrow> tool_pair \<Rightarrow> file_touch_context option \<Rightarrow> file_touch list" where
  "extract_file_touches fs p context =
     (case context of
        None \<Rightarrow> []
      | Some ctx \<Rightarrow>
          (let kind = touch_kind_for_pair p; is_write = is_write_pair p;
               acc = (case tp_input p of
                 Some (JObj ms) \<Rightarrow>
                   fold (push_touch fs ctx ''write'' True) (edit_paths (JObj ms))
                     (fold (push_touch fs ctx kind is_write)
                       (path_members (JObj ms) [''path'', ''file_path'', ''old_path'', ''new_path'']
                        @ path_lists (JObj ms)) ([], {}))
               | _ \<Rightarrow> ([], {}))
           in fst (fold (push_touch fs ctx kind is_write) (command_paths p) acc)))"

end
