(* ===== verification/Timeline_Reduce.thy ===== *)
theory Timeline_Reduce
  imports File_Touches
begin

text \<open>
  The incremental timeline reducer (\<^verbatim>\<open>timeline/reduce.rs\<close>, \<^verbatim>\<open>timeline/reduce/operations.rs\<close>).
  Its state is the cache of the rows a batch has loaded or made, and what of them is to be
  written. Rows it does not hold are read through a \<open>backend\<close>, the \<^verbatim>\<open>Backend\<close> trait as a record of
  functions. A failing read, a missing turn and the panic of \<^verbatim>\<open>turn_mut\<close> on a turn that was not
  loaded are errors.
\<close>

datatype reduce_error = ReadFailed | TurnMissing int | TurnNotLoaded int

record backend =
  be_turn :: "int \<Rightarrow> reduce_error + turn_row option"
  be_ops_by_pair :: "string \<Rightarrow> int \<Rightarrow> reduce_error + op_row list"
  be_prompt_seen :: "string \<Rightarrow> reduce_error + bool"
  be_message_usage :: "string \<Rightarrow> reduce_error + message_usage option"
  be_exec_candidates :: "int \<Rightarrow> time option \<Rightarrow> reduce_error + op_row list"
  be_ops_by_running_cell :: "string \<Rightarrow> reduce_error + op_row list"

text \<open>\<^verbatim>\<open>Uuid::parse_str\<close> and \<^verbatim>\<open>from_timestamp_millis\<close> belong to libraries.\<close>

record reduce_env =
  re_parse_uuid :: "string \<Rightarrow> session option"
  re_from_millis :: "int \<Rightarrow> time option"

record reducer =
  rd_session_uuid :: session
  rd_state :: session_state
  rd_batch_start :: int
  rd_child_of :: "session option"
  rd_turns :: "(int, turn_row) btree_map"
  rd_dirty_turns :: "int set"
  rd_items :: "(int \<times> int \<times> chunk) list"
  rd_ops :: "(op_key, op_row) btree_map"
  rd_new_ops :: "op_key set"
  rd_updated_ops :: "op_key set"
  rd_input_changed :: "op_key set"
  rd_ops_by_pair :: "string \<Rightarrow> op_key set"
  rd_queried_pairs :: "string set"
  rd_prompts :: "string set"
  rd_usage :: "string \<rightharpoonup> message_usage"
  rd_dirty_usage :: "string set"
  rd_links :: "child_link set"

definition reducer_new :: "session \<Rightarrow> session_state \<Rightarrow> session option \<Rightarrow> reducer" where
  "reducer_new session st child_of =
     \<lparr>rd_session_uuid = session, rd_state = st, rd_batch_start = ss_projected_through st,
      rd_child_of = child_of, rd_turns = [], rd_dirty_turns = {}, rd_items = [], rd_ops = [],
      rd_new_ops = {}, rd_updated_ops = {}, rd_input_changed = {}, rd_ops_by_pair = (\<lambda>_. {}),
      rd_queried_pairs = {}, rd_prompts = {}, rd_usage = (\<lambda>_. None), rd_dirty_usage = {},
      rd_links = {}\<rparr>"

section \<open>Turns\<close>

definition load_turn :: "backend \<Rightarrow> int \<Rightarrow> reducer \<Rightarrow> reduce_error + (bool \<times> reducer)" where
  "load_turn be turn_id r =
     (if map_of (rd_turns r) turn_id \<noteq> None then Inr (True, r)
      else res_bind (be_turn be turn_id) (\<lambda>row.
        case row of
          Some row \<Rightarrow> Inr (True, r\<lparr>rd_turns := btm_insert turn_id row (rd_turns r)\<rparr>)
        | None \<Rightarrow> Inr (False, r)))"

definition turn_mut :: "int \<Rightarrow> (turn_row \<Rightarrow> turn_row) \<Rightarrow> reducer \<Rightarrow> reduce_error + reducer" where
  "turn_mut turn_id f r =
     res_bind (ok_or (map_of (rd_turns r) turn_id) (TurnNotLoaded turn_id)) (\<lambda>turn.
       Inr (r\<lparr>rd_dirty_turns := insert turn_id (rd_dirty_turns r),
              rd_turns := btm_insert turn_id (f turn) (rd_turns r)\<rparr>))"

definition create_turn :: "stored_event \<Rightarrow> bool \<Rightarrow> bool \<Rightarrow> reducer \<Rightarrow> reducer" where
  "create_turn first prompt sidechain r =
     r\<lparr>rd_turns := btm_insert (se_byte_offset first) (seed_turn (rd_state r) first prompt sidechain)
          (rd_turns r),
       rd_dirty_turns := insert (se_byte_offset first) (rd_dirty_turns r),
       rd_state := seed_state first prompt (rd_state r)\<rparr>"

section \<open>Operations\<close>

definition remember_op :: "op_row \<Rightarrow> reducer \<Rightarrow> reducer" where
  "remember_op op r =
     (let key = op_key op in
      if map_of (rd_ops r) key \<noteq> None then r
      else r\<lparr>rd_ops_by_pair := (rd_ops_by_pair r)
               (op_pair_id op := insert key (rd_ops_by_pair r (op_pair_id op))),
             rd_ops := btm_insert key op (rd_ops r)\<rparr>)"

definition put_op :: "op_row \<Rightarrow> bool \<Rightarrow> reducer \<Rightarrow> reducer" where
  "put_op op input_changed r =
     (let key = op_key op;
          r = r\<lparr>rd_ops_by_pair := (rd_ops_by_pair r)
                  (op_pair_id op := insert key (rd_ops_by_pair r (op_pair_id op))),
                rd_ops := btm_insert key op (rd_ops r)\<rparr>
      in if key \<notin> rd_new_ops r
         then r\<lparr>rd_updated_ops := insert key (rd_updated_ops r),
                rd_input_changed := (if input_changed then insert key (rd_input_changed r)
                                     else rd_input_changed r)\<rparr>
         else r)"

text \<open>The cached operations of a pair called before an offset, in the order of their keys.\<close>

definition local_ops :: "string \<Rightarrow> int \<Rightarrow> reducer \<Rightarrow> op_row list" where
  "local_ops pair_id before r =
     filter (\<lambda>op. op_call_offset op < before)
       (List.map_filter (map_of (rd_ops r)) (sorted_list_of_set (rd_ops_by_pair r pair_id)))"

definition ops_for_pair ::
  "backend \<Rightarrow> string \<Rightarrow> int \<Rightarrow> reducer \<Rightarrow> reduce_error + (op_row list \<times> reducer)" where
  "ops_for_pair be pair_id before r =
     res_bind (if pair_id \<notin> rd_queried_pairs r then be_ops_by_pair be pair_id before else Inr [])
       (\<lambda>ops.
         let r = fold remember_op ops (r\<lparr>rd_queried_pairs := insert pair_id (rd_queried_pairs r)\<rparr>)
         in Inr (sort_key op_call_offset (local_ops pair_id before r), r))"

text \<open>\<^verbatim>\<open>max_by_key\<close>: the last of the elements with the largest key.\<close>

definition max_by_offset :: "op_row list \<Rightarrow> op_row option" where
  "max_by_offset ops = (case rev (sort_key op_call_offset ops) of [] \<Rightarrow> None | op # _ \<Rightarrow> Some op)"

definition latest_op_for_pair ::
  "backend \<Rightarrow> string \<Rightarrow> int \<Rightarrow> reducer \<Rightarrow> reduce_error + (op_row option \<times> reducer)" where
  "latest_op_for_pair be pair_id before r =
     (let local = max_by_offset (local_ops pair_id before r) in
      if (case local of Some op \<Rightarrow> op_call_offset op > rd_batch_start r | None \<Rightarrow> False)
      then Inr (local, r)
      else res_bind (ops_for_pair be pair_id before r) (\<lambda>(ops, r).
        Inr (case rev ops of [] \<Rightarrow> None | op # _ \<Rightarrow> Some op, r)))"

definition apply_call :: "int \<Rightarrow> stored_event \<Rightarrow> tool_use_view \<Rightarrow> reducer \<Rightarrow> reduce_error + reducer"
  where
  "apply_call turn_id e tool r =
     res_bind (ok_or (map_of (rd_turns r) turn_id) (TurnNotLoaded turn_id)) (\<lambda>turn.
     res_bind (turn_mut turn_id (call_turn tool) r) (\<lambda>r.
       let op = call_row turn_id (tr_operation_count turn) e tool
       in Inr (put_op op True (r\<lparr>rd_new_ops := insert (op_key op) (rd_new_ops r)\<rparr>))))"

definition apply_calls :: "int \<Rightarrow> stored_event \<Rightarrow> reducer \<Rightarrow> reduce_error + reducer" where
  "apply_calls turn_id e r = res_fold (apply_call turn_id e) (tool_uses_in e) r"

definition close_waited_cells ::
  "backend \<Rightarrow> op_row \<Rightarrow> block \<Rightarrow> stored_event \<Rightarrow> reducer \<Rightarrow> reduce_error + reducer" where
  "close_waited_cells be wait b e r =
     (case waited_cell wait b of
        None \<Rightarrow> Inr r
      | Some cell \<Rightarrow>
          res_bind (be_ops_by_running_cell be cell) (\<lambda>ops.
            let r = fold remember_op ops r;
                running = filter (\<lambda>op. op_running_cell op = Some cell \<and> op_key op \<noteq> op_key wait)
                  (map snd (rd_ops r))
            in Inr (fold (\<lambda>op. put_op (waited e op) False) running r)))"

text \<open>Flag the turn an operation belongs to, when that turn exists.\<close>

definition flag_owner :: "backend \<Rightarrow> op_row \<Rightarrow> reducer \<Rightarrow> reduce_error + reducer" where
  "flag_owner be op r =
     res_bind (load_turn be (op_turn_id op) r) (\<lambda>(loaded, r).
       if loaded then turn_mut (op_turn_id op) (flag_turn (op_is_error op)) r else Inr r)"

definition apply_result ::
  "backend \<Rightarrow> int \<Rightarrow> stored_event \<Rightarrow> block \<Rightarrow> reducer \<Rightarrow> reduce_error + reducer" where
  "apply_result be turn_id e b r =
     res_bind (if unwrap_or (bk_is_error b) False then turn_mut turn_id (flag_turn True) r else Inr r)
       (\<lambda>r.
     case bk_tool_id b of
       None \<Rightarrow> Inr r
     | Some pair_id \<Rightarrow>
         res_bind (latest_op_for_pair be pair_id (se_byte_offset e) r) (\<lambda>(found, r).
           case found of
             None \<Rightarrow> Inr r
           | Some op \<Rightarrow>
               (let op = set_result b e op in
                res_bind (close_waited_cells be op b e r) (\<lambda>r.
                  flag_owner be op (put_op op False r)))))"

definition apply_results :: "backend \<Rightarrow> int \<Rightarrow> stored_event \<Rightarrow> reducer \<Rightarrow> reduce_error + reducer"
  where
  "apply_results be turn_id e r =
     res_fold (apply_result be turn_id e) (filter (\<lambda>b. bk_kind b = BToolResult) (se_blocks e)) r"

text \<open>The evidence blocks of an event, each with its error flag.\<close>

definition evidence_in :: "stored_event \<Rightarrow> (json \<times> bool) list" where
  "evidence_in e = List.map_filter
     (\<lambda>b. map_option (\<lambda>v. (v, unwrap_or (bk_is_error b) False)) (runtime_evidence b)) (se_blocks e)"

definition evidence_id :: "json \<Rightarrow> string option" where
  "evidence_id evidence = as_str (jat (jat evidence ''runtime_item'') ''id'')"

definition evidence_started :: "reduce_env \<Rightarrow> json \<Rightarrow> time option" where
  "evidence_started env evidence =
     Option.bind (Option.bind (jget evidence ''started_at_ms'') as_i64) (re_from_millis env)"

definition correlate_one ::
  "reduce_env \<Rightarrow> backend \<Rightarrow> int \<Rightarrow> json \<times> bool \<Rightarrow> stored_event \<times> reducer \<Rightarrow>
   reduce_error + (stored_event \<times> reducer)" where
  "correlate_one env be offset = (\<lambda>(evidence, failed) (out, r).
     (let item_id = evidence_id evidence; started = evidence_started env evidence in
      res_bind (case item_id of Some i \<Rightarrow> ops_for_pair be i offset r | None \<Rightarrow> Inr ([], r))
        (\<lambda>(exact, r).
      res_bind
        (if exact = []
         then res_bind (be_exec_candidates be offset started) (\<lambda>ops.
           let r = fold remember_op ops r
           in Inr (filter (\<lambda>op. op_call_offset op < offset \<and> Some (op_pair_id op) \<noteq> item_id
                       \<and> encloses op started) (map snd (rd_ops r)), r))
         else Inr (exact, r))
        (\<lambda>(candidates, r).
      case candidates of
        [op] \<Rightarrow>
          (let op = fold_evidence evidence failed offset op in
           res_bind (flag_owner be op (put_op op True r)) (\<lambda>r. Inr (out\<lparr>se_blocks := []\<rparr>, r)))
      | _ \<Rightarrow> Inr (mark_uncorrelated out evidence, r)))))"

definition correlate_runtime ::
  "reduce_env \<Rightarrow> backend \<Rightarrow> stored_event \<Rightarrow> reducer \<Rightarrow> reduce_error + (stored_event \<times> reducer)"
  where
  "correlate_runtime env be e r =
     res_fold (correlate_one env be (se_byte_offset e)) (evidence_in e) (e, r)"

section \<open>Child transcripts\<close>

definition record_links :: "reduce_env \<Rightarrow> stored_event \<Rightarrow> reducer \<Rightarrow> reducer" where
  "record_links env e r =
     (let me = rd_session_uuid r;
          r = (case (rd_child_of r, se_related_tool_use_id e) of
             (Some parent, Some pair_id) \<Rightarrow>
               r\<lparr>rd_links := insert \<lparr>cl_session_uuid = parent, cl_pair_id = pair_id,
                    cl_child_session_uuid = me, cl_child_turn_id = -1\<rparr> (rd_links r)\<rparr>
           | _ \<Rightarrow> r)
      in if se_agent e = ''codex'' \<and>
            (se_subtype e = Some ''collab_agent_spawn_end'' \<or> se_subtype e = Some ''item_completed'')
         then
           (case (Option.bind (se_event_uuid e) (re_parse_uuid env), se_related_tool_use_id e) of
              (Some child, Some pair_id) \<Rightarrow>
                if child \<noteq> me
                then r\<lparr>rd_links := insert \<lparr>cl_session_uuid = me, cl_pair_id = pair_id,
                       cl_child_session_uuid = child, cl_child_turn_id = -1\<rparr> (rd_links r)\<rparr>
                else r
            | _ \<Rightarrow> r)
         else r)"

definition link_sidechain_turn :: "int \<Rightarrow> stored_event \<Rightarrow> reducer \<Rightarrow> reducer" where
  "link_sidechain_turn turn_id seed r =
     (if rd_child_of r \<noteq> None then r
      else case se_related_tool_use_id seed of
          Some pair_id \<Rightarrow>
            r\<lparr>rd_links := insert \<lparr>cl_session_uuid = rd_session_uuid r, cl_pair_id = pair_id,
                 cl_child_session_uuid = rd_session_uuid r, cl_child_turn_id = turn_id\<rparr> (rd_links r)\<rparr>
        | None \<Rightarrow> r)"

section \<open>Usage\<close>

definition apply_usage :: "backend \<Rightarrow> int \<Rightarrow> stored_event \<Rightarrow> reducer \<Rightarrow> reduce_error + reducer" where
  "apply_usage be turn_id e r =
     (case se_usage_json e of
        None \<Rightarrow> Inr r
      | Some usage \<Rightarrow>
          if se_agent e = ''codex'' then
            (let total_in = token usage ''input_tokens''; total_out = token usage ''output_tokens'' in
             res_bind (turn_mut turn_id (codex_tokens total_in total_out) r) (\<lambda>r.
               Inr (r\<lparr>rd_state := (rd_state r)\<lparr>ss_codex_input_total := Some total_in,
                                             ss_codex_output_total := Some total_out\<rparr>\<rparr>)))
          else
            (let i = claude_input usage; out = token usage ''output_tokens'' in
             case se_usage_message_id e of
               None \<Rightarrow> turn_mut turn_id (add_tokens i out) r
             | Some message_id \<Rightarrow>
                 res_bind (case rd_usage r message_id of
                     Some prior \<Rightarrow> Inr (Some prior)
                   | None \<Rightarrow> be_message_usage be message_id) (\<lambda>prior.
                 res_bind (case prior of
                     Some p \<Rightarrow>
                       res_bind (load_turn be (mu_turn_id p) r) (\<lambda>(loaded, r).
                         Inr (if loaded then mu_turn_id p else turn_id, r))
                   | None \<Rightarrow> Inr (turn_id, r)) (\<lambda>(owner, r).
                 res_bind (turn_mut owner (\<lambda>turn.
                     add_tokens i out
                       (case prior of
                          Some p \<Rightarrow> if mu_turn_id p = owner
                            then add_tokens (- mu_input_tokens p) (- mu_output_tokens p) turn else turn
                        | None \<Rightarrow> turn)) r) (\<lambda>r.
                   Inr (r\<lparr>rd_usage := (rd_usage r)(message_id \<mapsto>
                            \<lparr>mu_turn_id = owner, mu_input_tokens = i, mu_output_tokens = out\<rparr>),
                          rd_dirty_usage := insert message_id (rd_dirty_usage r)\<rparr>))))))"

section \<open>One event\<close>

definition append_event :: "backend \<Rightarrow> int \<Rightarrow> stored_event \<Rightarrow> reducer \<Rightarrow> reduce_error + reducer" where
  "append_event be turn_id e r =
     res_bind (load_turn be turn_id r) (\<lambda>(loaded, r).
     res_bind (guard loaded (TurnMissing turn_id)) (\<lambda>_.
     res_bind (turn_mut turn_id (count_event e) r) (\<lambda>r.
     let r = r\<lparr>rd_state := count_state e (rd_state r)\<rparr> in
     res_bind (if is_assistant_event e
               then res_bind (apply_calls turn_id e r) (turn_mut turn_id (assistant_turn e))
               else Inr r) (\<lambda>r.
     res_bind (if is_tool_result_event e then apply_results be turn_id e r else Inr r) (\<lambda>r.
     let r = (case visible_item e of
            Some item \<Rightarrow> r\<lparr>rd_items := rd_items r @ [(turn_id, se_byte_offset e, item)]\<rparr>
          | None \<Rightarrow> r)
     in apply_usage be turn_id e r)))))"

text \<open>Where an event goes: nowhere, into an existing turn, or into a new one.\<close>

datatype route = Skip | Existing int | NewMain bool | NewSide bool

definition route_event :: "session_state \<Rightarrow> stored_event \<Rightarrow> bool \<Rightarrow> route" where
  "route_event st e is_prompt =
     (if se_is_sidechain e then
        (case (if is_prompt then None else ss_current_sidechain st) of
           Some turn_id \<Rightarrow> Existing turn_id
         | None \<Rightarrow> if is_bookkeeping_event e then Skip else NewSide is_prompt)
      else if is_prompt then NewMain True
      else
        (case ss_current_main st of
           Some turn_id \<Rightarrow> Existing turn_id
         | None \<Rightarrow> if is_bookkeeping_event e then Skip else NewMain False))"

definition open_main :: "stored_event \<Rightarrow> bool \<Rightarrow> reducer \<Rightarrow> reducer" where
  "open_main e prompt r =
     (let r = create_turn e prompt False r
      in r\<lparr>rd_state := (rd_state r)\<lparr>ss_current_main := Some (se_byte_offset e)\<rparr>\<rparr>)"

definition open_side :: "stored_event \<Rightarrow> bool \<Rightarrow> reducer \<Rightarrow> reducer" where
  "open_side e prompt r =
     (let r = create_turn e prompt True r;
          r = r\<lparr>rd_state := (rd_state r)\<lparr>ss_current_sidechain := Some (se_byte_offset e)\<rparr>\<rparr>
      in link_sidechain_turn (se_byte_offset e) e r)"

definition place_event :: "backend \<Rightarrow> stored_event \<Rightarrow> bool \<Rightarrow> reducer \<Rightarrow> reduce_error + reducer" where
  "place_event be e is_prompt r =
     (case route_event (rd_state r) e is_prompt of
        Skip \<Rightarrow> Inr r
      | Existing turn_id \<Rightarrow> append_event be turn_id e r
      | NewMain prompt \<Rightarrow>
          (let r = open_main e prompt r
           in if prompt then Inr r else append_event be (se_byte_offset e) e r)
      | NewSide prompt \<Rightarrow>
          (let r = open_side e prompt r
           in if prompt then Inr r else append_event be (se_byte_offset e) e r))"

definition apply_event ::
  "reduce_env \<Rightarrow> backend \<Rightarrow> stored_event \<Rightarrow> reducer \<Rightarrow> reduce_error + reducer" where
  "apply_event env be e r =
     (let r = r\<lparr>rd_state := (rd_state r)\<lparr>ss_projected_through :=
            max (ss_projected_through (rd_state r)) (se_byte_offset e)\<rparr>\<rparr> in
      if se_subtype e = Some ''inherited_history'' then Inr r
      else
        res_bind (correlate_runtime env be e r) (\<lambda>(e, r).
        let r = record_links env e r;
            is_prompt = is_real_user_prompt e in
        case (if is_prompt then se_event_uuid e else None) of
          None \<Rightarrow> place_event be e is_prompt r
        | Some i \<Rightarrow>
            res_bind (if i \<in> rd_prompts r then Inr True else be_prompt_seen be i) (\<lambda>seen.
              if seen then Inr r
              else place_event be e is_prompt (r\<lparr>rd_prompts := insert i (rd_prompts r)\<rparr>))))"

section \<open>What a batch changed\<close>

record changes =
  ch_state :: session_state
  ch_turns :: "turn_row list"
  ch_items :: "(int \<times> int \<times> chunk) list"
  ch_new_ops :: "op_row list"
  ch_updated_ops :: "(op_row \<times> bool) list"
  ch_touches :: "(int \<times> int \<times> file_touch list) list"
  ch_usage :: "(string \<times> message_usage) list"
  ch_links :: "child_link set"

definition into_changes ::
  "file_system \<Rightarrow> file_touch_context option \<Rightarrow> reducer \<Rightarrow> changes" where
  "into_changes fs context r =
     \<lparr>ch_state = rd_state r,
      ch_turns = List.map_filter (map_of (rd_turns r)) (sorted_list_of_set (rd_dirty_turns r)),
      ch_items = rd_items r,
      ch_new_ops = List.map_filter (map_of (rd_ops r)) (sorted_list_of_set (rd_new_ops r)),
      ch_updated_ops = List.map_filter
        (\<lambda>key. map_option (\<lambda>op. (op, key \<in> rd_input_changed r)) (map_of (rd_ops r) key))
        (filter (\<lambda>key. key \<notin> rd_new_ops r) (sorted_list_of_set (rd_updated_ops r))),
      ch_touches =
        map (\<lambda>op. (op_turn_id op, op_operation_ord op, extract_file_touches fs (op_pair op) context))
          (List.map_filter (map_of (rd_ops r))
            (sorted_list_of_set (rd_new_ops r \<union> rd_input_changed r))),
      ch_usage = List.map_filter (\<lambda>i. map_option (Pair i) (rd_usage r i))
        (sorted_list_of_set (rd_dirty_usage r)),
      ch_links = rd_links r\<rparr>"

definition changes_is_empty :: "changes \<Rightarrow> bool" where
  "changes_is_empty c \<longleftrightarrow> ch_turns c = [] \<and> ch_items c = [] \<and> ch_new_ops c = []
     \<and> ch_updated_ops c = [] \<and> ch_links c = {}"

end
