(* ===== verification/Timeline_Store.thy ===== *)
theory Timeline_Store
  imports Timeline_Reduce
begin

text \<open>
  The committed rows of one session's timeline and the single writer of them
  (\<^verbatim>\<open>projection/store.rs\<close>, \<^verbatim>\<open>projection/write.rs\<close>). A table is the ordered map from its primary
  key to its row. \<open>pg_backend\<close> answers the reducer's questions from the tables, \<open>persist\<close> writes
  what a batch changed, \<open>project_batch\<close> is one transaction and \<open>project_until_caught_up\<close> the
  loop over them. The retrieval index kept beside the operations is not part of the model.
\<close>

record timeline_tables =
  tb_turns :: "(int, turn_row) btree_map"
  tb_items :: "(op_key, chunk) btree_map"
  tb_ops :: "(op_key, op_row) btree_map"
  tb_touches :: "(op_key, op_key \<times> file_touch) btree_map"
  tb_usage :: "(string, message_usage) btree_map"
  tb_links :: "child_link set"

definition empty_tables :: timeline_tables where
  "empty_tables = \<lparr>tb_turns = [], tb_items = [], tb_ops = [], tb_touches = [], tb_usage = [],
     tb_links = {}\<rparr>"

section \<open>Reading\<close>

definition pg_ops :: "timeline_tables \<Rightarrow> (op_row \<Rightarrow> bool) \<Rightarrow> op_row list" where
  "pg_ops db P = filter P (map snd (tb_ops db))"

text \<open>
  \<^verbatim>\<open>raw_name = 'exec' OR raw_name LIKE '%.exec'\<close>, and a window with a millisecond of slack on
  either side.
\<close>

definition like_exec :: "string option \<Rightarrow> bool" where
  "like_exec raw = (case raw of None \<Rightarrow> False | Some s \<Rightarrow> s = ''exec'' \<or> ends_with s ''.exec'')"

definition exec_window :: "time option \<Rightarrow> op_row \<Rightarrow> bool" where
  "exec_window started op =
     (case started of
        None \<Rightarrow> op_finished_at op = None
      | Some s \<Rightarrow> op_call_at op \<le> s + 1000
          \<and> (case op_finished_at op of None \<Rightarrow> True | Some fin \<Rightarrow> fin \<ge> s - 1000))"

definition pg_backend :: "timeline_tables \<Rightarrow> backend" where
  "pg_backend db =
     \<lparr>be_turn = (\<lambda>turn_id. Inr (map_of (tb_turns db) turn_id)),
      be_ops_by_pair = (\<lambda>pair_id before.
        Inr (pg_ops db (\<lambda>op. op_pair_id op = pair_id \<and> op_call_offset op < before))),
      be_prompt_seen = (\<lambda>event_uuid.
        Inr (list_ex (\<lambda>t. tr_prompt_event_uuid t = Some event_uuid) (map snd (tb_turns db)))),
      be_message_usage = (\<lambda>message_id. Inr (map_of (tb_usage db) message_id)),
      be_exec_candidates = (\<lambda>before started.
        Inr (pg_ops db (\<lambda>op. like_exec (op_raw_name op) \<and> op_call_offset op < before
               \<and> exec_window started op))),
      be_ops_by_running_cell = (\<lambda>cell. Inr (pg_ops db (\<lambda>op. op_running_cell op = Some cell)))\<rparr>"

section \<open>Writing\<close>

text \<open>The columns an upsert of a known turn sets; the others keep what the turn began with.\<close>

definition turn_refreshed :: "turn_row \<Rightarrow> turn_row \<Rightarrow> turn_row" where
  "turn_refreshed old new = old\<lparr>tr_preview := tr_preview new,
     tr_end_timestamp := tr_end_timestamp new, tr_duration_ms := tr_duration_ms new,
     tr_event_count := tr_event_count new, tr_operation_count := tr_operation_count new,
     tr_thinking_count := tr_thinking_count new, tr_has_errors := tr_has_errors new,
     tr_input_tokens := tr_input_tokens new, tr_output_tokens := tr_output_tokens new\<rparr>"

definition upsert_turn :: "turn_row \<Rightarrow> timeline_tables \<Rightarrow> timeline_tables" where
  "upsert_turn turn db = db\<lparr>tb_turns := btm_insert (tr_turn_id turn)
     (case map_of (tb_turns db) (tr_turn_id turn) of
        None \<Rightarrow> turn | Some old \<Rightarrow> turn_refreshed old turn) (tb_turns db)\<rparr>"

definition insert_item :: "int \<times> int \<times> chunk \<Rightarrow> timeline_tables \<Rightarrow> timeline_tables" where
  "insert_item = (\<lambda>(turn_id, offset, item) db.
     if map_of (tb_items db) (turn_id, offset) \<noteq> None then db
     else db\<lparr>tb_items := btm_insert (turn_id, offset) item (tb_items db)\<rparr>)"

text \<open>Inserting a key that is taken violates the primary key and rolls the batch back.\<close>

datatype write_error = DuplicateOperation op_key | DuplicateTouch op_key | ReduceFailed reduce_error

definition insert_operation :: "op_row \<Rightarrow> timeline_tables \<Rightarrow> write_error + timeline_tables" where
  "insert_operation op db =
     res_bind (guard (map_of (tb_ops db) (op_key op) = None) (DuplicateOperation (op_key op))) (\<lambda>_.
       Inr (db\<lparr>tb_ops := btm_insert (op_key op) op (tb_ops db)\<rparr>))"

definition op_refreshed :: "bool \<Rightarrow> op_row \<Rightarrow> op_row \<Rightarrow> op_row" where
  "op_refreshed input_changed old new = old\<lparr>
     op_input := (if input_changed then op_input new else op_input old),
     op_result_content := op_result_content new, op_result_payload := op_result_payload new,
     op_result_is_error := op_result_is_error new, op_is_error := op_is_error new,
     op_is_pending := op_is_pending new, op_changed_at := op_changed_at new,
     op_call_error := op_call_error new, op_running_cell := op_running_cell new,
     op_finished_at := op_finished_at new\<rparr>"

definition update_operation :: "op_row \<times> bool \<Rightarrow> timeline_tables \<Rightarrow> timeline_tables" where
  "update_operation = (\<lambda>(op, input_changed) db.
     case map_of (tb_ops db) (op_key op) of
       None \<Rightarrow> db
     | Some old \<Rightarrow>
         db\<lparr>tb_ops := btm_insert (op_key op) (op_refreshed input_changed old op) (tb_ops db)\<rparr>)"

definition TOUCHES_PER_OPERATION :: nat where "TOUCHES_PER_OPERATION = 1024"

definition insert_touch ::
  "int \<Rightarrow> int \<Rightarrow> nat \<times> file_touch \<Rightarrow> timeline_tables \<Rightarrow> write_error + timeline_tables" where
  "insert_touch turn_id operation_ord = (\<lambda>(index, touch) db.
     (let key = (turn_id, operation_ord * int TOUCHES_PER_OPERATION + int index) in
      res_bind (guard (map_of (tb_touches db) key = None) (DuplicateTouch key)) (\<lambda>_.
        Inr (db\<lparr>tb_touches :=
          btm_insert key ((turn_id, operation_ord), touch) (tb_touches db)\<rparr>))))"

definition replace_file_touches ::
  "int \<times> int \<times> file_touch list \<Rightarrow> timeline_tables \<Rightarrow> write_error + timeline_tables" where
  "replace_file_touches = (\<lambda>(turn_id, operation_ord, touches) db.
     (let db = db\<lparr>tb_touches :=
            filter (\<lambda>(_, key, _). key \<noteq> (turn_id, operation_ord)) (tb_touches db)\<rparr>
      in res_fold (insert_touch turn_id operation_ord)
           (take TOUCHES_PER_OPERATION (enumerate 0 touches)) db))"

definition record_usage :: "string \<times> message_usage \<Rightarrow> timeline_tables \<Rightarrow> timeline_tables" where
  "record_usage = (\<lambda>(message_id, usage) db.
     db\<lparr>tb_usage := btm_insert message_id usage (tb_usage db)\<rparr>)"

definition persist :: "changes \<Rightarrow> timeline_tables \<Rightarrow> write_error + timeline_tables" where
  "persist c db =
     (let db = fold upsert_turn (ch_turns c) db;
          db = fold insert_item (ch_items c) db in
      res_bind (res_fold insert_operation (ch_new_ops c) db) (\<lambda>db.
      let db = fold update_operation (ch_updated_ops c) db in
      res_bind (res_fold replace_file_touches (ch_touches c) db) (\<lambda>db.
      let db = fold record_usage (ch_usage c) db
      in Inr (db\<lparr>tb_links := tb_links db \<union> ch_links c\<rparr>))))"

section \<open>Batches\<close>

record projection =
  pj_tables :: timeline_tables
  pj_state :: session_state
  pj_version :: int
  pj_revision :: int

definition REDUCER_VERSION :: int where "REDUCER_VERSION = 2"
definition BATCH_EVENTS :: nat where "BATCH_EVENTS = 500"

text \<open>
  What a batch reads besides the projection: whether the session was purged, the file system and
  context for file touches, the parent a subagent transcript links to, and the libraries of
  \<open>reduce_env\<close>.
\<close>

record batch_env =
  bt_reduce :: reduce_env
  bt_files :: file_system
  bt_context :: "file_touch_context option"
  bt_session :: session
  bt_purged :: bool
  bt_child_of :: "session option"

text \<open>\<^verbatim>\<open>load_session_events\<close>: the events after the cursor in the order of their offsets.\<close>

definition events_after :: "int \<Rightarrow> nat \<Rightarrow> stored_event list \<Rightarrow> stored_event list" where
  "events_after after limit events =
     take (min 5000 (max 1 limit))
       (sort_key se_byte_offset (filter (\<lambda>e. after < se_byte_offset e) events))"

definition apply_events ::
  "reduce_env \<Rightarrow> backend \<Rightarrow> stored_event list \<Rightarrow> reducer \<Rightarrow> reduce_error + reducer" where
  "apply_events env be es r = res_fold (apply_event env be) es r"

text \<open>A projection built by other reducer rules is emptied first; child links stay.\<close>

definition clear_stale :: "projection \<Rightarrow> projection" where
  "clear_stale pj =
     (if pj_version pj \<noteq> REDUCER_VERSION
      then \<lparr>pj_tables = empty_tables\<lparr>tb_links := tb_links (pj_tables pj)\<rparr>, pj_state = default_state,
            pj_version = REDUCER_VERSION, pj_revision = pj_revision pj + 1\<rparr>
      else pj)"

definition reduce_batch ::
  "batch_env \<Rightarrow> stored_event list \<Rightarrow> projection \<Rightarrow> write_error + projection" where
  "reduce_batch env es pj =
     (case apply_events (bt_reduce env) (pg_backend (pj_tables pj)) es
         (reducer_new (bt_session env) (pj_state pj) (bt_child_of env)) of
        Inl e \<Rightarrow> Inl (ReduceFailed e)
      | Inr r \<Rightarrow>
          (let c = into_changes (bt_files env) (bt_context env) r in
           res_bind (persist c (pj_tables pj)) (\<lambda>db.
             Inr (pj\<lparr>pj_tables := db, pj_state := ch_state c,
                     pj_revision := pj_revision pj + (if changes_is_empty c then 0 else 1)\<rparr>))))"

definition project_batch ::
  "batch_env \<Rightarrow> stored_event list \<Rightarrow> nat \<Rightarrow> projection \<Rightarrow> write_error + (projection \<times> nat \<times> bool)"
  where
  "project_batch env stored budget pj =
     (if bt_purged env then Inr (pj, 0, False)
      else
        let pj = clear_stale pj;
            es = events_after (ss_projected_through (pj_state pj)) budget stored
        in res_bind (if es = [] then Inr pj else reduce_batch env es pj) (\<lambda>pj.
             Inr (pj, length es, length es \<ge> budget)))"

partial_function (option) project_until_caught_up ::
  "batch_env \<Rightarrow> stored_event list \<Rightarrow> nat \<Rightarrow> projection \<Rightarrow> (write_error + (projection \<times> nat)) option"
  where
  "project_until_caught_up env stored n pj =
     (case project_batch env stored BATCH_EVENTS pj of
        Inl e \<Rightarrow> Some (Inl e)
      | Inr (pj, applied, waiting) \<Rightarrow>
          if \<not> waiting then Some (Inr (pj, n + applied))
          else project_until_caught_up env stored (n + applied) pj)"

declare project_until_caught_up.simps [code]

definition request_rebuild :: "projection \<Rightarrow> projection" where
  "request_rebuild pj = pj\<lparr>pj_version := 0\<rparr>"

end
