(* ===== verification/Timeline_Spec.thy ===== *)
theory Timeline_Spec
  imports Timeline_Store
begin

text \<open>
  What a timeline is, without batches and caches: the rows of a session as one state, and the
  change one event makes to it. Every row is at hand, so nothing is loaded, remembered or marked,
  and nothing can fail. The reducer is shown to implement this in \<open>Timeline_Refine\<close>.
\<close>

record timeline =
  tl_state :: session_state
  tl_turns :: "(int, turn_row) btree_map"
  tl_items :: "(op_key, chunk) btree_map"
  tl_ops :: "(op_key, op_row) btree_map"
  tl_usage :: "string \<rightharpoonup> message_usage"
  tl_links :: "child_link set"

definition timeline_of :: "projection \<Rightarrow> timeline" where
  "timeline_of pj = \<lparr>tl_state = pj_state pj, tl_turns = tb_turns (pj_tables pj),
     tl_items = tb_items (pj_tables pj), tl_ops = tb_ops (pj_tables pj),
     tl_usage = map_of (tb_usage (pj_tables pj)), tl_links = tb_links (pj_tables pj)\<rparr>"

definition sp_modify :: "int \<Rightarrow> (turn_row \<Rightarrow> turn_row) \<Rightarrow> timeline \<Rightarrow> timeline" where
  "sp_modify turn_id f v = v\<lparr>tl_turns :=
     (case map_of (tl_turns v) turn_id of
        None \<Rightarrow> tl_turns v | Some turn \<Rightarrow> btm_insert turn_id (f turn) (tl_turns v))\<rparr>"

definition sp_put :: "op_row \<Rightarrow> timeline \<Rightarrow> timeline" where
  "sp_put op v = v\<lparr>tl_ops := btm_insert (op_key op) op (tl_ops v)\<rparr>"

definition sp_select :: "(op_row \<Rightarrow> bool) \<Rightarrow> timeline \<Rightarrow> op_row list" where
  "sp_select P v = filter P (map snd (tl_ops v))"

abbreviation paired :: "string \<Rightarrow> int \<Rightarrow> op_row \<Rightarrow> bool" where
  "paired pair_id before \<equiv> \<lambda>op. op_pair_id op = pair_id \<and> op_call_offset op < before"

definition sp_matching :: "string \<Rightarrow> int \<Rightarrow> timeline \<Rightarrow> op_row list" where
  "sp_matching pair_id before v = sort_key op_call_offset (sp_select (paired pair_id before) v)"

definition sp_latest :: "string \<Rightarrow> int \<Rightarrow> timeline \<Rightarrow> op_row option" where
  "sp_latest pair_id before v =
     (case rev (sp_matching pair_id before v) of [] \<Rightarrow> None | op # _ \<Rightarrow> Some op)"

definition sp_flag :: "op_row \<Rightarrow> timeline \<Rightarrow> timeline" where
  "sp_flag op = sp_modify (op_turn_id op) (flag_turn (op_is_error op))"

definition sp_call :: "int \<Rightarrow> stored_event \<Rightarrow> tool_use_view \<Rightarrow> timeline \<Rightarrow> timeline" where
  "sp_call turn_id e tool v =
     (case map_of (tl_turns v) turn_id of
        None \<Rightarrow> v
      | Some turn \<Rightarrow>
          sp_put (call_row turn_id (tr_operation_count turn) e tool)
            (sp_modify turn_id (call_turn tool) v))"

definition running_in :: "string \<Rightarrow> op_key \<Rightarrow> op_row \<Rightarrow> bool" where
  "running_in cell wait op \<longleftrightarrow> op_running_cell op = Some cell \<and> op_key op \<noteq> wait"

definition sp_wait :: "op_row \<Rightarrow> block \<Rightarrow> stored_event \<Rightarrow> timeline \<Rightarrow> timeline" where
  "sp_wait wait b e v =
     (case waited_cell wait b of
        None \<Rightarrow> v
      | Some cell \<Rightarrow> fold (\<lambda>op. sp_put (waited e op)) (sp_select (running_in cell (op_key wait)) v) v)"

definition sp_result :: "int \<Rightarrow> stored_event \<Rightarrow> block \<Rightarrow> timeline \<Rightarrow> timeline" where
  "sp_result turn_id e b v =
     (let v = (if unwrap_or (bk_is_error b) False then sp_modify turn_id (flag_turn True) v else v) in
      case bk_tool_id b of
        None \<Rightarrow> v
      | Some pair_id \<Rightarrow>
          (case sp_latest pair_id (se_byte_offset e) v of
             None \<Rightarrow> v
           | Some op \<Rightarrow> (let op = set_result b e op in sp_flag op (sp_put op (sp_wait op b e v)))))"

text \<open>The one call a piece of evidence belongs to: the call with its id, else the enclosing exec.\<close>

definition enclosing :: "int \<Rightarrow> string option \<Rightarrow> time option \<Rightarrow> op_row \<Rightarrow> bool" where
  "enclosing offset item_id started op \<longleftrightarrow>
     op_call_offset op < offset \<and> Some (op_pair_id op) \<noteq> item_id \<and> encloses op started"

definition sp_candidates :: "reduce_env \<Rightarrow> int \<Rightarrow> json \<Rightarrow> timeline \<Rightarrow> op_row list" where
  "sp_candidates env offset evidence v =
     (let exact = (case evidence_id evidence of Some i \<Rightarrow> sp_matching i offset v | None \<Rightarrow> [])
      in if exact = []
         then sp_select (enclosing offset (evidence_id evidence) (evidence_started env evidence)) v
         else exact)"

definition sp_correlate_one ::
  "reduce_env \<Rightarrow> int \<Rightarrow> json \<times> bool \<Rightarrow> stored_event \<times> timeline \<Rightarrow> stored_event \<times> timeline" where
  "sp_correlate_one env offset = (\<lambda>(evidence, failed) (out, v).
     case sp_candidates env offset evidence v of
       [op] \<Rightarrow>
         (let op = fold_evidence evidence failed offset op
          in (out\<lparr>se_blocks := []\<rparr>, sp_flag op (sp_put op v)))
     | _ \<Rightarrow> (mark_uncorrelated out evidence, v))"

definition sp_correlate :: "reduce_env \<Rightarrow> stored_event \<Rightarrow> timeline \<Rightarrow> stored_event \<times> timeline" where
  "sp_correlate env e v = fold (sp_correlate_one env (se_byte_offset e)) (evidence_in e) (e, v)"

text \<open>The links an event establishes: a subagent's parent, a spawned Codex thread.\<close>

definition links_of :: "reduce_env \<Rightarrow> session \<Rightarrow> session option \<Rightarrow> stored_event \<Rightarrow> child_link set" where
  "links_of env me child_of e =
     (case (child_of, se_related_tool_use_id e) of
        (Some parent, Some pair_id) \<Rightarrow>
          {\<lparr>cl_session_uuid = parent, cl_pair_id = pair_id, cl_child_session_uuid = me,
            cl_child_turn_id = -1\<rparr>}
      | _ \<Rightarrow> {}) \<union>
     (if se_agent e = ''codex'' \<and>
         (se_subtype e = Some ''collab_agent_spawn_end'' \<or> se_subtype e = Some ''item_completed'')
      then (case (Option.bind (se_event_uuid e) (re_parse_uuid env), se_related_tool_use_id e) of
          (Some child, Some pair_id) \<Rightarrow>
            if child \<noteq> me
            then {\<lparr>cl_session_uuid = me, cl_pair_id = pair_id, cl_child_session_uuid = child,
                   cl_child_turn_id = -1\<rparr>} else {}
        | _ \<Rightarrow> {})
      else {})"

definition side_links :: "session \<Rightarrow> session option \<Rightarrow> stored_event \<Rightarrow> child_link set" where
  "side_links me child_of seed =
     (case (child_of, se_related_tool_use_id seed) of
        (None, Some pair_id) \<Rightarrow>
          {\<lparr>cl_session_uuid = me, cl_pair_id = pair_id, cl_child_session_uuid = me,
            cl_child_turn_id = se_byte_offset seed\<rparr>}
      | _ \<Rightarrow> {})"

text \<open>The turn a Claude response is charged to: that of its first receipt while it exists.\<close>

definition usage_owner :: "int \<Rightarrow> message_usage option \<Rightarrow> timeline \<Rightarrow> int" where
  "usage_owner turn_id prior v =
     (case prior of
        Some p \<Rightarrow> if map_of (tl_turns v) (mu_turn_id p) \<noteq> None then mu_turn_id p else turn_id
      | None \<Rightarrow> turn_id)"

definition recharge :: "int \<Rightarrow> message_usage option \<Rightarrow> int \<Rightarrow> int \<Rightarrow> turn_row \<Rightarrow> turn_row" where
  "recharge owner prior i out turn =
     add_tokens i out
       (case prior of
          Some p \<Rightarrow> if mu_turn_id p = owner
            then add_tokens (- mu_input_tokens p) (- mu_output_tokens p) turn else turn
        | None \<Rightarrow> turn)"

definition sp_usage :: "int \<Rightarrow> stored_event \<Rightarrow> timeline \<Rightarrow> timeline" where
  "sp_usage turn_id e v =
     (case se_usage_json e of
        None \<Rightarrow> v
      | Some usage \<Rightarrow>
          if se_agent e = ''codex'' then
            (let total_in = token usage ''input_tokens''; total_out = token usage ''output_tokens'';
                 v = sp_modify turn_id (codex_tokens total_in total_out) v
             in v\<lparr>tl_state := (tl_state v)\<lparr>ss_codex_input_total := Some total_in,
                                         ss_codex_output_total := Some total_out\<rparr>\<rparr>)
          else
            (let i = claude_input usage; out = token usage ''output_tokens'' in
             case se_usage_message_id e of
               None \<Rightarrow> sp_modify turn_id (add_tokens i out) v
             | Some message_id \<Rightarrow>
                 (let prior = tl_usage v message_id; owner = usage_owner turn_id prior v;
                      v = sp_modify owner (recharge owner prior i out) v
                  in v\<lparr>tl_usage := (tl_usage v)(message_id \<mapsto>
                       \<lparr>mu_turn_id = owner, mu_input_tokens = i, mu_output_tokens = out\<rparr>)\<rparr>)))"

definition sp_item :: "int \<Rightarrow> stored_event \<Rightarrow> timeline \<Rightarrow> timeline" where
  "sp_item turn_id e v =
     (case visible_item e of
        Some item \<Rightarrow>
          if map_of (tl_items v) (turn_id, se_byte_offset e) \<noteq> None then v
          else v\<lparr>tl_items := btm_insert (turn_id, se_byte_offset e) item (tl_items v)\<rparr>
      | None \<Rightarrow> v)"

definition sp_append :: "int \<Rightarrow> stored_event \<Rightarrow> timeline \<Rightarrow> timeline" where
  "sp_append turn_id e v =
     (let v = sp_modify turn_id (count_event e) v;
          v = v\<lparr>tl_state := count_state e (tl_state v)\<rparr>;
          v = (if is_assistant_event e
               then sp_modify turn_id (assistant_turn e) (fold (sp_call turn_id e) (tool_uses_in e) v)
               else v);
          v = (if is_tool_result_event e
               then fold (sp_result turn_id e) (filter (\<lambda>b. bk_kind b = BToolResult) (se_blocks e)) v
               else v)
      in sp_usage turn_id e (sp_item turn_id e v))"

definition sp_create :: "stored_event \<Rightarrow> bool \<Rightarrow> bool \<Rightarrow> timeline \<Rightarrow> timeline" where
  "sp_create first prompt sidechain v =
     v\<lparr>tl_turns := btm_insert (se_byte_offset first) (seed_turn (tl_state v) first prompt sidechain)
          (tl_turns v),
       tl_state := seed_state first prompt (tl_state v)\<rparr>"

definition sp_open_main :: "stored_event \<Rightarrow> bool \<Rightarrow> timeline \<Rightarrow> timeline" where
  "sp_open_main e prompt v =
     (let v = sp_create e prompt False v
      in v\<lparr>tl_state := (tl_state v)\<lparr>ss_current_main := Some (se_byte_offset e)\<rparr>\<rparr>)"

definition sp_open_side :: "session \<Rightarrow> session option \<Rightarrow> stored_event \<Rightarrow> bool \<Rightarrow> timeline \<Rightarrow> timeline"
  where
  "sp_open_side me child_of e prompt v =
     (let v = sp_create e prompt True v
      in v\<lparr>tl_state := (tl_state v)\<lparr>ss_current_sidechain := Some (se_byte_offset e)\<rparr>,
           tl_links := tl_links v \<union> side_links me child_of e\<rparr>)"

definition sp_place :: "session \<Rightarrow> session option \<Rightarrow> stored_event \<Rightarrow> bool \<Rightarrow> timeline \<Rightarrow> timeline" where
  "sp_place me child_of e is_prompt v =
     (case route_event (tl_state v) e is_prompt of
        Skip \<Rightarrow> v
      | Existing turn_id \<Rightarrow> sp_append turn_id e v
      | NewMain prompt \<Rightarrow>
          (let v = sp_open_main e prompt v in if prompt then v else sp_append (se_byte_offset e) e v)
      | NewSide prompt \<Rightarrow>
          (let v = sp_open_side me child_of e prompt v
           in if prompt then v else sp_append (se_byte_offset e) e v))"

definition prompt_known :: "string \<Rightarrow> timeline \<Rightarrow> bool" where
  "prompt_known i v = list_ex (\<lambda>t. tr_prompt_event_uuid t = Some i) (map snd (tl_turns v))"

definition sp_through :: "stored_event \<Rightarrow> timeline \<Rightarrow> timeline" where
  "sp_through e v = v\<lparr>tl_state := (tl_state v)\<lparr>ss_projected_through :=
     max (ss_projected_through (tl_state v)) (se_byte_offset e)\<rparr>\<rparr>"

definition sp_apply :: "reduce_env \<Rightarrow> session \<Rightarrow> session option \<Rightarrow> stored_event \<Rightarrow> timeline \<Rightarrow> timeline"
  where
  "sp_apply env me child_of e v =
     (let v = sp_through e v in
      if se_subtype e = Some ''inherited_history'' then v
      else
        let (e, v) = sp_correlate env e v;
            v = v\<lparr>tl_links := tl_links v \<union> links_of env me child_of e\<rparr>;
            is_prompt = is_real_user_prompt e
        in case (if is_prompt then se_event_uuid e else None) of
             None \<Rightarrow> sp_place me child_of e is_prompt v
           | Some i \<Rightarrow> if prompt_known i v then v else sp_place me child_of e is_prompt v)"

end
