(* ===== verification/Timeline_Inv.thy ===== *)
theory Timeline_Inv
  imports Timeline_Spec
begin

text \<open>
  The invariant of a timeline: rows sit under their own keys, no row is newer than the cursor, the
  operations of a turn are numbered 0, 1, \dots below its operation count, and the turns that take
  the next events exist. Every event keeps it.
\<close>

section \<open>What a change to one row keeps\<close>

definition turn_static :: "turn_row \<Rightarrow> _" where
  "turn_static t = (tr_turn_id t, tr_turn_ord t, tr_is_sidechain t, tr_user_prompt_text t,
     tr_prompt_event_uuid t, tr_start_timestamp t, tr_usage_baseline_input t, tr_usage_baseline_output t)"

definition op_static :: "op_row \<Rightarrow> _" where
  "op_static op = (op_turn_id op, op_operation_ord op, op_pair_id op, op_name op, op_raw_name op,
     op_operation_type op, op_category op, op_call_offset op, op_call_at op)"

named_theorems row_frame \<open>columns a change leaves alone\<close>

lemma turn_static_frame [row_frame, simp]:
  "turn_static (count_event e t) = turn_static t"
  "turn_static (assistant_turn e t) = turn_static t"
  "turn_static (flag_turn b t) = turn_static t"
  "turn_static (call_turn tool t) = turn_static t"
  "turn_static (add_tokens i out t) = turn_static t"
  "turn_static (codex_tokens i out t) = turn_static t"
  "turn_static (recharge own prior i out t) = turn_static t"
  by (auto simp: turn_static_def count_event_def assistant_turn_def flag_turn_def call_turn_def
      add_tokens_def codex_tokens_def recharge_def Let_def split: option.split)

lemma operation_count_frame [row_frame, simp]:
  "tr_operation_count (count_event e t) = tr_operation_count t"
  "tr_operation_count (assistant_turn e t) = tr_operation_count t"
  "tr_operation_count (flag_turn b t) = tr_operation_count t"
  "tr_operation_count (call_turn tool t) = tr_operation_count t + 1"
  "tr_operation_count (add_tokens i out t) = tr_operation_count t"
  "tr_operation_count (codex_tokens i out t) = tr_operation_count t"
  "tr_operation_count (recharge own prior i out t) = tr_operation_count t"
  by (auto simp: count_event_def assistant_turn_def flag_turn_def call_turn_def
      add_tokens_def codex_tokens_def recharge_def Let_def split: option.split)

lemma event_count_frame [row_frame, simp]:
  "tr_event_count (count_event e t) = tr_event_count t + 1"
  "tr_event_count (assistant_turn e t) = tr_event_count t"
  "tr_event_count (flag_turn b t) = tr_event_count t"
  "tr_event_count (call_turn tool t) = tr_event_count t"
  "tr_event_count (add_tokens i out t) = tr_event_count t"
  "tr_event_count (codex_tokens i out t) = tr_event_count t"
  "tr_event_count (recharge own prior i out t) = tr_event_count t"
  by (auto simp: count_event_def assistant_turn_def flag_turn_def call_turn_def
      add_tokens_def codex_tokens_def recharge_def Let_def split: option.split)

lemma turn_static_id: "turn_static t = turn_static u \<Longrightarrow> tr_turn_id t = tr_turn_id u"
  by (simp add: turn_static_def)

lemma op_static_frame [row_frame, simp]:
  "op_static (set_result b e op) = op_static op"
  "op_static (waited e op) = op_static op"
  "op_static (fold_evidence ev failed off op) = op_static op"
  by (simp_all add: op_static_def set_result_def waited_def fold_evidence_def Let_def)

lemma op_static_parts:
  assumes "op_static a = op_static b"
  shows "op_key a = op_key b" "op_pair_id a = op_pair_id b" "op_call_offset a = op_call_offset b"
    "op_turn_id a = op_turn_id b"
  using assms by (simp_all add: op_static_def op_key_def)

lemma op_input_frame [simp]:
  "op_input (set_result b e op) = op_input op" "op_input (waited e op) = op_input op"
  by (simp_all add: set_result_def waited_def Let_def)

lemma op_parts_frame [simp]:
  "op_key (set_result b e op) = op_key op" "op_key (waited e op) = op_key op"
  "op_key (fold_evidence ev failed off op) = op_key op"
  "op_pair_id (set_result b e op) = op_pair_id op" "op_pair_id (waited e op) = op_pair_id op"
  "op_pair_id (fold_evidence ev failed off op) = op_pair_id op"
  "op_call_offset (set_result b e op) = op_call_offset op" "op_call_offset (waited e op) = op_call_offset op"
  "op_call_offset (fold_evidence ev failed off op) = op_call_offset op"
  by (auto intro: op_static_parts)

lemma call_row_parts [simp]:
  "op_key (call_row t n e tool) = (t, n)" "op_call_offset (call_row t n e tool) = se_byte_offset e"
  by (simp_all add: call_row_def op_key_def)

section \<open>The invariant\<close>

definition turns_ok :: "int \<Rightarrow> (int, turn_row) btree_map \<Rightarrow> bool" where
  "turns_ok through turns \<longleftrightarrow> btm_ok turns \<and> (\<forall>t row. map_of turns t = Some row \<longrightarrow>
     tr_turn_id row = t \<and> t \<le> through \<and> 0 \<le> tr_operation_count row)"

definition ops_ok ::
  "int \<Rightarrow> (int, turn_row) btree_map \<Rightarrow> (op_key, op_row) btree_map \<Rightarrow> bool" where
  "ops_ok through turns ops \<longleftrightarrow> btm_ok ops
     \<and> (\<forall>k op. map_of ops k = Some op \<longrightarrow> op_key op = k \<and> op_call_offset op \<le> through)
     \<and> (\<forall>t n. map_of ops (t, n) \<noteq> None \<longleftrightarrow>
          (\<exists>row. map_of turns t = Some row \<and> 0 \<le> n \<and> n < tr_operation_count row))"

definition cursor_ok :: "session_state \<Rightarrow> (int, turn_row) btree_map \<Rightarrow> bool" where
  "cursor_ok st turns \<longleftrightarrow> (\<forall>t. ss_current_main st = Some t \<or> ss_current_sidechain st = Some t \<longrightarrow>
     map_of turns t \<noteq> None)"

definition tl_ok :: "timeline \<Rightarrow> bool" where
  "tl_ok v \<longleftrightarrow> turns_ok (ss_projected_through (tl_state v)) (tl_turns v)
     \<and> ops_ok (ss_projected_through (tl_state v)) (tl_turns v) (tl_ops v)
     \<and> cursor_ok (tl_state v) (tl_turns v) \<and> btm_ok (tl_items v)"

lemma tl_ok_btm:
  "tl_ok v \<Longrightarrow> btm_ok (tl_turns v)" "tl_ok v \<Longrightarrow> btm_ok (tl_ops v)" "tl_ok v \<Longrightarrow> btm_ok (tl_items v)"
  by (simp_all add: tl_ok_def turns_ok_def ops_ok_def)

lemma tl_ok_opD:
  "tl_ok v \<Longrightarrow> map_of (tl_ops v) k = Some op \<Longrightarrow>
    op_key op = k \<and> op_call_offset op \<le> ss_projected_through (tl_state v)"
  unfolding tl_ok_def ops_ok_def by blast

lemma tl_ok_turnD:
  "tl_ok v \<Longrightarrow> map_of (tl_turns v) t = Some row \<Longrightarrow>
    tr_turn_id row = t \<and> t \<le> ss_projected_through (tl_state v) \<and> 0 \<le> tr_operation_count row"
  unfolding tl_ok_def turns_ok_def by blast

lemma tl_ok_ordD:
  "tl_ok v \<Longrightarrow> map_of (tl_ops v) (t, n) \<noteq> None \<longleftrightarrow>
    (\<exists>row. map_of (tl_turns v) t = Some row \<and> 0 \<le> n \<and> n < tr_operation_count row)"
  unfolding tl_ok_def ops_ok_def by blast

lemma tl_ok_cursorD:
  "tl_ok v \<Longrightarrow> ss_current_main (tl_state v) = Some t \<or> ss_current_sidechain (tl_state v) = Some t \<Longrightarrow>
    map_of (tl_turns v) t \<noteq> None"
  unfolding tl_ok_def cursor_ok_def by blast

lemma tl_okI:
  assumes "btm_ok (tl_turns v)" "btm_ok (tl_ops v)" "btm_ok (tl_items v)"
    and "\<And>t row. map_of (tl_turns v) t = Some row \<Longrightarrow>
      tr_turn_id row = t \<and> t \<le> ss_projected_through (tl_state v) \<and> 0 \<le> tr_operation_count row"
    and "\<And>k op. map_of (tl_ops v) k = Some op \<Longrightarrow>
      op_key op = k \<and> op_call_offset op \<le> ss_projected_through (tl_state v)"
    and "\<And>t n. map_of (tl_ops v) (t, n) \<noteq> None \<longleftrightarrow>
      (\<exists>row. map_of (tl_turns v) t = Some row \<and> 0 \<le> n \<and> n < tr_operation_count row)"
    and "\<And>t. ss_current_main (tl_state v) = Some t \<or> ss_current_sidechain (tl_state v) = Some t \<Longrightarrow>
      map_of (tl_turns v) t \<noteq> None"
  shows "tl_ok v"
  using assms unfolding tl_ok_def turns_ok_def ops_ok_def cursor_ok_def by blast

lemma tl_ok_op:
  assumes "tl_ok v" "op \<in> set (map snd (tl_ops v))"
  shows "map_of (tl_ops v) (op_key op) = Some op" "op_call_offset op \<le> ss_projected_through (tl_state v)"
proof -
  obtain k where "(k, op) \<in> set (tl_ops v)" using assms(2) by auto
  then have "map_of (tl_ops v) k = Some op" using assms(1) by (simp add: tl_ok_btm flip: btm_in_set_iff)
  moreover from this have "op_key op = k" "op_call_offset op \<le> ss_projected_through (tl_state v)"
    using tl_ok_opD [OF assms(1)] by blast+
  ultimately show "map_of (tl_ops v) (op_key op) = Some op" "op_call_offset op \<le> ss_projected_through (tl_state v)"
    by simp_all
qed

lemma sp_select_in: "op \<in> set (sp_select P v) \<longleftrightarrow> op \<in> set (map snd (tl_ops v)) \<and> P op"
  by (auto simp: sp_select_def)

lemma sp_latest_in:
  assumes "sp_latest pair_id before v = Some op"
  shows "op \<in> set (map snd (tl_ops v))" "paired pair_id before op"
proof -
  have "op \<in> set (sp_matching pair_id before v)"
    using assms by (auto simp: sp_latest_def split: list.splits dest: arg_cong [where f = set])
  then show "op \<in> set (map snd (tl_ops v))" "paired pair_id before op"
    by (auto simp: sp_matching_def sp_select_def)
qed

section \<open>Preservation\<close>

lemma sp_modify_frame [simp]:
  "tl_state (sp_modify t f v) = tl_state v" "tl_ops (sp_modify t f v) = tl_ops v"
  "tl_items (sp_modify t f v) = tl_items v" "tl_usage (sp_modify t f v) = tl_usage v"
  "tl_links (sp_modify t f v) = tl_links v"
  by (simp_all add: sp_modify_def)

lemma sp_put_frame [simp]:
  "tl_state (sp_put op v) = tl_state v" "tl_turns (sp_put op v) = tl_turns v"
  "tl_items (sp_put op v) = tl_items v" "tl_usage (sp_put op v) = tl_usage v"
  "tl_links (sp_put op v) = tl_links v" "tl_ops (sp_put op v) = btm_insert (op_key op) op (tl_ops v)"
  by (simp_all add: sp_put_def)

lemma map_of_sp_modify:
  "map_of (tl_turns (sp_modify t f v)) x = (if x = t then map_option f (map_of (tl_turns v) t) else map_of (tl_turns v) x)"
  by (auto simp: sp_modify_def split: option.splits)

lemma tl_ok_modify:
  assumes ok: "tl_ok v" and f: "\<And>row. turn_static (f row) = turn_static row"
    "\<And>row. tr_operation_count (f row) = tr_operation_count row"
  shows "tl_ok (sp_modify t f v)"
proof -
  have id: "tr_turn_id (f row) = tr_turn_id row" for row using f(1) turn_static_id by blast
  have row: "\<exists>old. map_of (tl_turns v) x = Some old \<and> tr_turn_id row = tr_turn_id old
      \<and> tr_operation_count row = tr_operation_count old"
    if "map_of (tl_turns (sp_modify t f v)) x = Some row" for x row
    using that by (auto simp: map_of_sp_modify id f(2) split: if_splits)
  have row': "\<exists>new. map_of (tl_turns (sp_modify t f v)) x = Some new
      \<and> tr_operation_count new = tr_operation_count row"
    if "map_of (tl_turns v) x = Some row" for x row
    using that by (auto simp: map_of_sp_modify f(2))
  show ?thesis
  proof (rule tl_okI)
    show "btm_ok (tl_turns (sp_modify t f v))"
      using tl_ok_btm(1) [OF ok] by (auto simp: sp_modify_def split: option.splits)
    show "map_of (tl_ops (sp_modify t f v)) (x, n) \<noteq> None \<longleftrightarrow>
        (\<exists>row. map_of (tl_turns (sp_modify t f v)) x = Some row \<and> 0 \<le> n \<and> n < tr_operation_count row)" for x n
    proof -
      have "(\<exists>row. map_of (tl_turns (sp_modify t f v)) x = Some row \<and> 0 \<le> n \<and> n < tr_operation_count row)
          \<longleftrightarrow> (\<exists>row. map_of (tl_turns v) x = Some row \<and> 0 \<le> n \<and> n < tr_operation_count row)"
        using row row' by fastforce
      then show ?thesis using tl_ok_ordD [OF ok, of x n] by simp
    qed
    show "map_of (tl_turns (sp_modify t f v)) x \<noteq> None"
      if "ss_current_main (tl_state (sp_modify t f v)) = Some x
        \<or> ss_current_sidechain (tl_state (sp_modify t f v)) = Some x" for x
      using tl_ok_cursorD [OF ok, of x] that by (auto simp: map_of_sp_modify)
    show "tr_turn_id r = x \<and> x \<le> ss_projected_through (tl_state (sp_modify t f v)) \<and> 0 \<le> tr_operation_count r"
      if "map_of (tl_turns (sp_modify t f v)) x = Some r" for x r
      using row [OF that] tl_ok_turnD [OF ok] by force
  qed (use tl_ok_btm [OF ok] tl_ok_opD [OF ok] in simp_all)
qed

lemma tl_ok_put:
  assumes ok: "tl_ok v" and old: "map_of (tl_ops v) (op_key op) = Some old"
    "op_call_offset op = op_call_offset old"
  shows "tl_ok (sp_put op v)"
proof (rule tl_okI)
  show "op_key x = k \<and> op_call_offset x \<le> ss_projected_through (tl_state (sp_put op v))"
    if "map_of (tl_ops (sp_put op v)) k = Some x" for k x
    using that tl_ok_opD [OF ok] old by (auto split: if_splits)
  show "map_of (tl_ops (sp_put op v)) (t, n) \<noteq> None \<longleftrightarrow>
      (\<exists>row. map_of (tl_turns (sp_put op v)) t = Some row \<and> 0 \<le> n \<and> n < tr_operation_count row)" for t n
    using tl_ok_ordD [OF ok, of t n] old(1) by auto
  show "map_of (tl_turns (sp_put op v)) t \<noteq> None"
    if "ss_current_main (tl_state (sp_put op v)) = Some t \<or> ss_current_sidechain (tl_state (sp_put op v)) = Some t" for t
    using that tl_ok_cursorD [OF ok, of t] by simp
qed (use tl_ok_btm [OF ok] tl_ok_turnD [OF ok] in simp_all)

lemma tl_ok_flag: "tl_ok v \<Longrightarrow> tl_ok (sp_flag op v)"
  unfolding sp_flag_def by (rule tl_ok_modify) simp_all

lemma tl_ok_call:
  assumes ok: "tl_ok v" and off: "se_byte_offset e \<le> ss_projected_through (tl_state v)"
  shows "tl_ok (sp_call t e tool v)"
proof (cases "map_of (tl_turns v) t")
  case (Some turn)
  let ?op = "call_row t (tr_operation_count turn) e tool"
  define w where "w = sp_put ?op (sp_modify t (call_turn tool) v)"
  have turns: "map_of (tl_turns w) x = (if x = t then Some (call_turn tool turn) else map_of (tl_turns v) x)" for x
    using Some by (simp add: map_of_sp_modify w_def)
  have ops: "map_of (tl_ops w) k = (if k = (t, tr_operation_count turn) then Some ?op else map_of (tl_ops v) k)" for k
    by (simp add: w_def)
  have st: "tl_state w = tl_state v" "tl_items w = tl_items v" by (simp_all add: w_def)
  have "turn_static (call_turn tool turn) = turn_static turn" by simp
  then have id: "tr_turn_id (call_turn tool turn) = tr_turn_id turn" by (rule turn_static_id)
  note turnD = tl_ok_turnD [OF ok Some]
  have "tl_ok w"
  proof (rule tl_okI)
    show "btm_ok (tl_turns w)" "btm_ok (tl_ops w)"
      using tl_ok_btm [OF ok] Some by (auto simp: sp_modify_def w_def)
    show "btm_ok (tl_items w)" using tl_ok_btm [OF ok] st by simp
    show "tr_turn_id row = x \<and> x \<le> ss_projected_through (tl_state w) \<and> 0 \<le> tr_operation_count row"
      if "map_of (tl_turns w) x = Some row" for x row
      using that tl_ok_turnD [OF ok, of x] turnD id unfolding turns st by (auto split: if_splits)
    show "op_key x = k \<and> op_call_offset x \<le> ss_projected_through (tl_state w)"
      if "map_of (tl_ops w) k = Some x" for k x
      using that tl_ok_opD [OF ok, of k] off unfolding ops st by (auto split: if_splits)
    show "map_of (tl_turns w) x \<noteq> None"
      if "ss_current_main (tl_state w) = Some x \<or> ss_current_sidechain (tl_state w) = Some x" for x
      using that tl_ok_cursorD [OF ok, of x] unfolding turns st by auto
    show "map_of (tl_ops w) (x, n) \<noteq> None \<longleftrightarrow>
        (\<exists>row. map_of (tl_turns w) x = Some row \<and> 0 \<le> n \<and> n < tr_operation_count row)" for x n
      using tl_ok_ordD [OF ok, of x n] turnD Some unfolding turns ops by (cases "x = t") auto
  qed
  then show ?thesis using Some by (simp add: sp_call_def w_def)
qed (simp add: sp_call_def ok)

lemma sp_call_state [simp]: "tl_state (sp_call t e tool v) = tl_state v"
  by (simp add: sp_call_def split: option.split)

lemma tl_ok_calls:
  "tl_ok v \<Longrightarrow> se_byte_offset e \<le> ss_projected_through (tl_state v) \<Longrightarrow>
    tl_ok (fold (sp_call t e) tools v) \<and> tl_state (fold (sp_call t e) tools v) = tl_state v"
  by (induction tools arbitrary: v) (simp_all add: tl_ok_call)

text \<open>\<open>rewritten v w\<close>: \<open>w\<close> differs from \<open>v\<close> only in columns of operations that may change.\<close>

definition rewritten :: "timeline \<Rightarrow> timeline \<Rightarrow> bool" where
  "rewritten v w \<longleftrightarrow> tl_ok w \<and> tl_state w = tl_state v \<and> tl_turns w = tl_turns v
     \<and> (\<forall>k. map_option op_static (map_of (tl_ops w) k) = map_option op_static (map_of (tl_ops v) k))"

lemma rewritten_refl: "tl_ok v \<Longrightarrow> rewritten v v"
  by (simp add: rewritten_def)

lemma rewritten_put:
  assumes "rewritten v w" "map_of (tl_ops v) (op_key op) = Some op" "op_static op' = op_static op"
  shows "rewritten v (sp_put op' w)"
proof -
  have key: "op_key op' = op_key op" using assms(3) by (rule op_static_parts)
  have "map_option op_static (map_of (tl_ops w) (op_key op)) = Some (op_static op)"
    using assms(1,2) by (simp only: rewritten_def option.map)
  then obtain old where old: "map_of (tl_ops w) (op_key op') = Some old" "op_static old = op_static op"
    by (auto simp: key)
  have ok: "tl_ok w" using assms(1) by (simp only: rewritten_def)
  have "op_static op' = op_static old" using assms(3) old(2) by simp
  then have "op_call_offset op' = op_call_offset old" by (rule op_static_parts)
  with ok old(1) have "tl_ok (sp_put op' w)" by (rule tl_ok_put)
  then show ?thesis using assms by (simp add: rewritten_def key del: split_paired_All)
qed

lemma rewritten_puts:
  assumes "\<And>op. op_static (f op) = op_static op"
  shows "rewritten v w \<Longrightarrow> \<forall>op \<in> set ops. map_of (tl_ops v) (op_key op) = Some op \<Longrightarrow>
    rewritten v (fold (\<lambda>op. sp_put (f op)) ops w)"
  by (induction ops arbitrary: w) (simp_all add: rewritten_put [OF _ _ assms])

lemma rewritten_wait:
  assumes "tl_ok v"
  shows "rewritten v (sp_wait wait b e v)"
proof (cases "waited_cell wait b")
  case (Some cell)
  have "\<forall>op \<in> set (sp_select (running_in cell (op_key wait)) v). map_of (tl_ops v) (op_key op) = Some op"
    using tl_ok_op(1) [OF assms] sp_select_in by blast
  then show ?thesis
    using rewritten_puts [of "waited e", OF _ rewritten_refl [OF assms]] Some
    by (simp add: sp_wait_def)
qed (use assms in \<open>simp add: sp_wait_def rewritten_refl\<close>)

text \<open>Most changes leave the numbering of the turns and the counters of the session alone.\<close>

definition turn_key :: "turn_row \<Rightarrow> _" where
  "turn_key t = (turn_static t, tr_event_count t)"

definition marks :: "session_state \<Rightarrow> _" where
  "marks st = (ss_projected_through st, ss_next_turn_ord st, ss_current_main st,
     ss_current_sidechain st, ss_total_event_count st, ss_turn_count st, ss_latest_turn_id st)"

definition keeps :: "timeline \<Rightarrow> timeline \<Rightarrow> bool" where
  "keeps v w \<longleftrightarrow> tl_ok w \<and> marks (tl_state w) = marks (tl_state v)
     \<and> column turn_key (tl_turns w) = column turn_key (tl_turns v)"

lemma keepsD:
  assumes "keeps v w"
  shows "tl_ok w" "ss_projected_through (tl_state w) = ss_projected_through (tl_state v)"
    "marks (tl_state w) = marks (tl_state v)" "column turn_key (tl_turns w) = column turn_key (tl_turns v)"
    "map_of (tl_turns w) t = None \<longleftrightarrow> map_of (tl_turns v) t = None"
proof -
  have "map_option turn_key (map_of (tl_turns w) t) = map_option turn_key (map_of (tl_turns v) t)"
    using assms map_of_column unfolding keeps_def by metis
  then show "map_of (tl_turns w) t = None \<longleftrightarrow> map_of (tl_turns v) t = None"
    by (metis option.map_disc_iff)
qed (use assms in \<open>simp_all add: keeps_def marks_def\<close>)

lemma keeps_refl: "tl_ok v \<Longrightarrow> keeps v v"
  by (simp add: keeps_def)

lemma keeps_trans: "keeps u v \<Longrightarrow> keeps v w \<Longrightarrow> keeps u w"
  by (simp add: keeps_def)

lemma keeps_rewritten: "rewritten v w \<Longrightarrow> keeps v w"
  by (simp add: keeps_def rewritten_def)

lemma column_sp_modify:
  "btm_ok (tl_turns v) \<Longrightarrow> (\<And>row. g (f row) = g row) \<Longrightarrow>
    column g (tl_turns (sp_modify t f v)) = column g (tl_turns v)"
  by (simp add: sp_modify_def column_update split: option.split)

lemma keeps_modify:
  assumes "tl_ok v" "\<And>row. turn_key (f row) = turn_key row"
    "\<And>row. tr_operation_count (f row) = tr_operation_count row"
  shows "keeps v (sp_modify t f v)"
  using tl_ok_modify [of v f t] assms by (simp add: keeps_def column_sp_modify tl_ok_btm turn_key_def)

lemma keeps_fold:
  assumes "\<And>x w. x \<in> set xs \<Longrightarrow> tl_ok w \<Longrightarrow> off \<le> ss_projected_through (tl_state w) \<Longrightarrow> keeps w (f x w)"
  shows "tl_ok v \<Longrightarrow> off \<le> ss_projected_through (tl_state v) \<Longrightarrow> keeps v (fold f xs v)"
  using assms
proof (induction xs arbitrary: v)
  case (Cons x xs)
  have step: "keeps v (f x v)" using Cons.prems by simp
  then have "keeps (f x v) (fold f xs (f x v))"
    using Cons keepsD(1,2) [OF step] by simp
  with step show ?case by (simp add: keeps_trans)
qed (simp add: keeps_refl)

lemma keeps_call:
  assumes "tl_ok v" "se_byte_offset e \<le> ss_projected_through (tl_state v)"
  shows "keeps v (sp_call t e tool v)"
proof -
  have "column turn_key (tl_turns (sp_call t e tool v)) = column turn_key (tl_turns v)"
    using tl_ok_btm(1) [OF assms(1)]
    by (simp add: sp_call_def column_sp_modify turn_key_def split: option.split)
  then show ?thesis using tl_ok_call [of v e t tool] assms by (simp add: keeps_def)
qed

lemma keeps_op:
  assumes "tl_ok v" "op \<in> set (map snd (tl_ops v))" "op_static op' = op_static op" "rewritten v w"
  shows "keeps v (sp_flag op' (sp_put op' w))"
proof -
  have "rewritten v (sp_put op' w)"
    using assms tl_ok_op(1) [OF assms(1,2)] by (intro rewritten_put [of _ _ op]) simp_all
  moreover from this have "keeps (sp_put op' w) (sp_flag op' (sp_put op' w))"
    unfolding sp_flag_def by (intro keeps_modify) (auto simp: rewritten_def turn_key_def)
  ultimately show ?thesis using keeps_rewritten keeps_trans by blast
qed

lemma keeps_result:
  assumes "tl_ok v"
  shows "keeps v (sp_result t e b v)"
proof -
  define w where "w = (if unwrap_or (bk_is_error b) False then sp_modify t (flag_turn True) v else v)"
  have w: "keeps v w" unfolding w_def by (simp add: keeps_refl keeps_modify assms turn_key_def)
  then have ok: "tl_ok w" by (simp add: keeps_def)
  have "keeps w (sp_result t e b v)"
    using keeps_op [OF ok sp_latest_in(1) op_static_frame(1) rewritten_wait [OF ok]]
    by (auto simp: sp_result_def Let_def keeps_refl [OF ok] simp flip: w_def split: option.split)
  with w show ?thesis by (rule keeps_trans)
qed

lemma sp_candidates_in:
  assumes "op \<in> set (sp_candidates env off ev v)"
  shows "op \<in> set (map snd (tl_ops v))" "op_call_offset op < off"
  using assms
  by (auto simp: sp_candidates_def sp_matching_def sp_select_def enclosing_def Let_def
      split: if_splits option.splits)

lemma sp_candidates_one:
  "sp_candidates env off ev v = [op] \<Longrightarrow> op \<in> set (map snd (tl_ops v))"
  using sp_candidates_in(1) [of op env off ev v] by simp

lemma keeps_correlate_one:
  assumes "tl_ok v"
  shows "keeps v (snd (sp_correlate_one env off evd (out, v)))"
proof (cases evd)
  case (Pair ev failed)
  then show ?thesis
    using keeps_op [OF assms sp_candidates_one op_static_frame(3) rewritten_refl [OF assms]]
    by (auto simp: sp_correlate_one_def Let_def keeps_refl [OF assms] split: list.split)
qed

lemma keeps_correlate:
  "tl_ok v \<Longrightarrow> keeps v (snd (sp_correlate env e v))"
proof -
  have "tl_ok (snd ow) \<Longrightarrow> keeps (snd ow) (snd (fold (sp_correlate_one env off) evs ow))" for evs ow off
  proof (induction evs arbitrary: ow)
    case (Cons x evs)
    have step: "keeps (snd ow) (snd (sp_correlate_one env off x ow))"
      using keeps_correlate_one [OF Cons.prems, of env off x "fst ow"] by simp
    then have "tl_ok (snd (sp_correlate_one env off x ow))" by (simp add: keeps_def)
    then show ?case using keeps_trans [OF step] Cons.IH by simp
  qed (simp add: keeps_refl)
  from this [of "(e, v)"] show "tl_ok v \<Longrightarrow> keeps v (snd (sp_correlate env e v))"
    by (simp add: sp_correlate_def)
qed

lemma keeps_same:
  assumes "tl_ok v" "marks (tl_state w) = marks (tl_state v)" "tl_turns w = tl_turns v"
    "tl_ops w = tl_ops v" "btm_ok (tl_items w)"
  shows "keeps v w"
  using assms by (simp add: keeps_def tl_ok_def cursor_ok_def marks_def)

lemma keeps_tokens:
  assumes ok: "tl_ok v" and f: "\<And>row. turn_key (f row) = turn_key row"
    "\<And>row. tr_operation_count (f row) = tr_operation_count row"
    and st: "marks st = marks (tl_state v)"
  shows "keeps v ((sp_modify t f v)\<lparr>tl_state := st\<rparr>)" "keeps v ((sp_modify t f v)\<lparr>tl_usage := u\<rparr>)"
proof -
  have m: "keeps v (sp_modify t f v)" by (rule keeps_modify [OF ok f])
  show "keeps v ((sp_modify t f v)\<lparr>tl_state := st\<rparr>)" "keeps v ((sp_modify t f v)\<lparr>tl_usage := u\<rparr>)"
    by (rule keeps_trans [OF m keeps_same], use keepsD(1) [OF m] tl_ok_btm(3) [OF ok] st in simp_all)+
qed

lemma keeps_usage:
  assumes "tl_ok v"
  shows "keeps v (sp_usage t e v)"
proof -
  have fs: "turn_key (codex_tokens i out row) = turn_key row" "turn_key (recharge o' prior i out row) = turn_key row"
    "turn_key (add_tokens i out row) = turn_key row" for i out o' prior row
    by (simp_all add: turn_key_def)
  have st: "marks (tl_state v\<lparr>ss_codex_input_total := a, ss_codex_output_total := b\<rparr>) = marks (tl_state v)" for a b
    by (simp add: marks_def)
  show ?thesis
    unfolding sp_usage_def Let_def
    by (cases "se_usage_json e"; cases "se_usage_message_id e"; cases "se_agent e = ''codex''")
      (simp_all add: keeps_refl assms keeps_tokens fs st keeps_modify)
qed

lemma keeps_item: "tl_ok v \<Longrightarrow> keeps v (sp_item t e v)"
  by (auto simp: sp_item_def tl_ok_btm intro!: keeps_same split: option.split)

section \<open>Numbering\<close>

text \<open>
  Turns are numbered 0, 1, \dots in the order of their ids, the newest is known, and the counters of
  the session agree with the rows.
\<close>

definition tl_counts :: "timeline \<Rightarrow> bool" where
  "tl_counts v \<longleftrightarrow>
     ss_turn_count (tl_state v) = int (length (tl_turns v))
     \<and> ss_next_turn_ord (tl_state v) = int (length (tl_turns v))
     \<and> map (tr_turn_ord \<circ> snd) (tl_turns v) = map int [0..<length (tl_turns v)]
     \<and> ss_total_event_count (tl_state v) = sum_list (map (tr_event_count \<circ> snd) (tl_turns v))
     \<and> ss_latest_turn_id (tl_state v) =
         (if tl_turns v = [] then None else Some (fst (last (tl_turns v))))"

lemma column_eqD:
  assumes "column g m = column g n"
  shows "length m = length n" "map (h \<circ> g \<circ> snd) m = map (h \<circ> g \<circ> snd) n"
    "m = [] \<longleftrightarrow> n = []" "m \<noteq> [] \<Longrightarrow> fst (last m) = fst (last n)"
proof -
  have snd: "map g (map snd m) = map g (map snd n)" using arg_cong [OF assms, of "map snd"]
    by (simp only: values_column)
  have fst: "map fst m = map fst n" using arg_cong [OF assms, of "map fst"] by simp
  show "length m = length n" using arg_cong [OF fst, of length] by simp
  then show "m = [] \<longleftrightarrow> n = []" by auto
  show "map (h \<circ> g \<circ> snd) m = map (h \<circ> g \<circ> snd) n"
    using arg_cong [OF snd, of "map h"] by (simp add: comp_def)
  show "fst (last m) = fst (last n)" if "m \<noteq> []"
    using that \<open>m = [] \<longleftrightarrow> n = []\<close> arg_cong [OF fst, of last] by (simp add: last_map)
qed

lemma turn_key_parts:
  "(\<lambda>x. fst (snd (fst x))) \<circ> turn_key = tr_turn_ord" "snd \<circ> turn_key = tr_event_count"
  by (simp_all add: fun_eq_iff turn_key_def turn_static_def)

lemma tl_counts_keeps:
  assumes "keeps v w" "tl_counts v"
  shows "tl_counts w"
proof -
  note col = column_eqD [OF keepsD(4) [OF assms(1)]]
  show ?thesis
    using assms(2) keepsD(3) [OF assms(1)] col(1,3,4)
      col(2) [of "\<lambda>x. fst (snd (fst x))"] col(2) [of snd]
    unfolding tl_counts_def turn_key_parts by (auto simp: marks_def)
qed

section \<open>One event\<close>

definition sp_count :: "int \<Rightarrow> stored_event \<Rightarrow> timeline \<Rightarrow> timeline" where
  "sp_count t e v = (sp_modify t (count_event e) v)\<lparr>tl_state := count_state e (tl_state v)\<rparr>"

lemma tl_ok_count:
  assumes "tl_ok v"
  shows "tl_ok (sp_count t e v)"
proof -
  have "tl_ok (sp_modify t (count_event e) v)" by (rule tl_ok_modify) (simp_all add: assms)
  then show ?thesis
    by (simp add: sp_count_def tl_ok_def cursor_ok_def count_state_def)
qed

lemma tl_counts_count:
  assumes "tl_ok v" "tl_counts v" "map_of (tl_turns v) t \<noteq> None"
  shows "tl_counts (sp_count t e v)"
proof -
  obtain row where row: "map_of (tl_turns v) t = Some row" using assms(3) by auto
  have ok: "btm_ok (tl_turns v)" using assms(1) by (rule tl_ok_btm)
  have "column turn_static (tl_turns (sp_modify t (count_event e) v)) = column turn_static (tl_turns v)"
    using ok by (simp add: column_sp_modify)
  note col = column_eqD [OF this]
  have ord: "(\<lambda>x. fst (snd x)) \<circ> turn_static = tr_turn_ord" by (simp add: fun_eq_iff turn_static_def)
  show ?thesis
    using assms(2) col(1,3,4) col(2) [of "\<lambda>x. fst (snd x)"] sum_update [OF ok row, of tr_event_count]
    unfolding tl_counts_def ord by (auto simp: sp_count_def count_state_def sp_modify_def row)
qed

lemma keeps_append:
  assumes "tl_ok v" "se_byte_offset e \<le> ss_projected_through (tl_state v)"
  shows "keeps (sp_count t e v) (sp_append t e v)"
proof -
  define a where "a = sp_count t e v"
  define b where "b = (if is_assistant_event e
    then sp_modify t (assistant_turn e) (fold (sp_call t e) (tool_uses_in e) a) else a)"
  define c where "c = (if is_tool_result_event e
    then fold (sp_result t e) (filter (\<lambda>b. bk_kind b = BToolResult) (se_blocks e)) b else b)"
  have a: "tl_ok a" unfolding a_def using assms(1) by (rule tl_ok_count)
  have off: "se_byte_offset e \<le> ss_projected_through (tl_state a)"
    using assms(2) by (simp add: a_def sp_count_def count_state_def)
  have "keeps a (fold (sp_call t e) (tool_uses_in e) a)"
    by (rule keeps_fold [OF keeps_call a off])
  then have b: "keeps a b"
    using keeps_trans [OF _ keeps_modify] keepsD(1) by (auto simp: b_def turn_key_def keeps_refl [OF a])
  have "keeps b (fold (sp_result t e) (filter (\<lambda>b. bk_kind b = BToolResult) (se_blocks e)) b)"
    by (rule keeps_fold [OF keeps_result keepsD(1) [OF b] order_refl])
  then have c: "keeps b c" by (simp add: c_def keeps_refl [OF keepsD(1) [OF b]])
  have "keeps c (sp_item t e c)" using keeps_item keepsD(1) [OF c] by blast
  moreover from this have "keeps (sp_item t e c) (sp_usage t e (sp_item t e c))"
    using keeps_usage keepsD(1) by blast
  moreover have "sp_append t e v = sp_usage t e (sp_item t e c)"
    by (simp add: sp_append_def a_def b_def c_def sp_count_def Let_def)
  ultimately have "keeps c (sp_append t e v)" using keeps_trans by metis
  with c have "keeps b (sp_append t e v)" by (rule keeps_trans)
  with b show ?thesis using keeps_trans a_def by blast
qed

text \<open>The state in which an event is placed: the cursor has reached it, every turn is older.\<close>

definition at_event :: "stored_event \<Rightarrow> timeline \<Rightarrow> bool" where
  "at_event e v \<longleftrightarrow> tl_ok v \<and> ss_projected_through (tl_state v) = se_byte_offset e
     \<and> (\<forall>t. map_of (tl_turns v) t \<noteq> None \<longrightarrow> t < se_byte_offset e)"

lemma at_event_keeps:
  assumes "at_event e v" "keeps v w"
  shows "at_event e w"
  unfolding at_event_def
proof (intro conjI allI impI)
  show "t < se_byte_offset e" if "map_of (tl_turns w) t \<noteq> None" for t
    using that keepsD(5) [OF assms(2), of t] assms(1) unfolding at_event_def by metis
qed (use assms in \<open>simp_all add: at_event_def keepsD\<close>)

lemma sp_create_turns:
  assumes "at_event e v"
  shows "tl_turns (sp_create e prompt side v) = tl_turns v @ [(se_byte_offset e, seed_turn (tl_state v) e prompt side)]"
proof -
  have "\<forall>t \<in> fst ` set (tl_turns v). t < se_byte_offset e"
    using assms map_of_eq_None_iff [of "tl_turns v"] unfolding at_event_def by blast
  then show ?thesis by (simp add: sp_create_def btm_insert_last)
qed

lemma seed_turn_parts [simp]:
  "tr_turn_id (seed_turn st e prompt side) = se_byte_offset e"
  "tr_operation_count (seed_turn st e prompt side) = 0"
  "tr_turn_ord (seed_turn st e prompt side) = ss_next_turn_ord st"
  "tr_event_count (seed_turn st e prompt side) = (if prompt then 1 else 0)"
  by (simp_all add: seed_turn_def Let_def)

lemma seed_state_parts [simp]:
  "ss_projected_through (seed_state e prompt st) = ss_projected_through st"
  "ss_current_main (seed_state e prompt st) = ss_current_main st"
  "ss_current_sidechain (seed_state e prompt st) = ss_current_sidechain st"
  by (simp_all add: seed_state_def)

lemma tl_ok_create:
  assumes "at_event e v"
  shows "tl_ok (sp_create e prompt side v)"
proof -
  let ?w = "sp_create e prompt side v" and ?t = "se_byte_offset e"
  have ok: "tl_ok v" and thr: "ss_projected_through (tl_state v) = ?t" and new: "map_of (tl_turns v) ?t = None"
    using assms unfolding at_event_def by blast+
  have st: "ss_projected_through (tl_state ?w) = ss_projected_through (tl_state v)"
    "ss_current_main (tl_state ?w) = ss_current_main (tl_state v)"
    "ss_current_sidechain (tl_state ?w) = ss_current_sidechain (tl_state v)"
    "tl_ops ?w = tl_ops v" "tl_items ?w = tl_items v"
    by (simp_all add: sp_create_def)
  have turns: "map_of (tl_turns ?w) x = (if x = ?t then Some (seed_turn (tl_state v) e prompt side)
      else map_of (tl_turns v) x)" for x
    by (simp add: sp_create_def)
  show ?thesis
  proof (rule tl_okI, unfold st)
    show "btm_ok (tl_turns ?w)" using tl_ok_btm [OF ok] by (simp add: sp_create_def)
    show "tr_turn_id row = x \<and> x \<le> ss_projected_through (tl_state v) \<and> 0 \<le> tr_operation_count row"
      if "map_of (tl_turns ?w) x = Some row" for x row
      using that tl_ok_turnD [OF ok, of x row] thr unfolding turns by (auto split: if_splits)
    show "map_of (tl_ops v) (x, n) \<noteq> None \<longleftrightarrow>
        (\<exists>row. map_of (tl_turns ?w) x = Some row \<and> 0 \<le> n \<and> n < tr_operation_count row)" for x n
      using tl_ok_ordD [OF ok, of x n] new unfolding turns by (cases "x = ?t") auto
    show "map_of (tl_turns ?w) x \<noteq> None"
      if "ss_current_main (tl_state v) = Some x \<or> ss_current_sidechain (tl_state v) = Some x" for x
      using tl_ok_cursorD [OF ok that] unfolding turns by auto
  qed (use tl_ok_btm [OF ok] tl_ok_opD [OF ok] in simp_all)
qed

lemma tl_counts_create:
  assumes "at_event e v" "tl_counts v"
  shows "tl_counts (sp_create e prompt side v)"
proof -
  have ids: "last (tl_turns v) \<in> set (tl_turns v)" if "tl_turns v \<noteq> []" using that by simp
  have "fst (last (tl_turns v)) < se_byte_offset e" if "tl_turns v \<noteq> []"
    using assms(1) map_of_eq_None_iff [of "tl_turns v" "fst (last (tl_turns v))"] ids [OF that]
    unfolding at_event_def by blast
  then show ?thesis
    using assms(2) sp_create_turns [OF assms(1), of prompt side]
    by (auto simp: tl_counts_def sp_create_def seed_state_def opt_max_def)
qed

lemma tl_ok_cursor:
  assumes "tl_ok v" "map_of (tl_turns v) t \<noteq> None"
  shows "tl_ok (v\<lparr>tl_state := (tl_state v)\<lparr>ss_current_main := Some t\<rparr>\<rparr>)"
    "tl_ok (v\<lparr>tl_state := (tl_state v)\<lparr>ss_current_sidechain := Some t\<rparr>, tl_links := ls\<rparr>)"
  using assms by (auto simp: tl_ok_def cursor_ok_def)

lemma sp_open_ok:
  assumes "at_event e v"
  shows "tl_ok (sp_open_main e prompt v)" "tl_ok (sp_open_side me child_of e prompt v)"
    "map_of (tl_turns (sp_open_main e prompt v)) (se_byte_offset e) \<noteq> None"
    "map_of (tl_turns (sp_open_side me child_of e prompt v)) (se_byte_offset e) \<noteq> None"
    "ss_projected_through (tl_state (sp_open_main e prompt v)) = se_byte_offset e"
    "ss_projected_through (tl_state (sp_open_side me child_of e prompt v)) = se_byte_offset e"
proof -
  have some: "map_of (tl_turns (sp_create e prompt side v)) (se_byte_offset e) \<noteq> None" for side
    by (simp add: sp_create_def)
  note create = tl_ok_create [OF assms, of prompt]
  show "tl_ok (sp_open_main e prompt v)" "tl_ok (sp_open_side me child_of e prompt v)"
    using tl_ok_cursor(1) [OF create some] tl_ok_cursor(2) [OF create some]
    by (simp_all add: sp_open_main_def sp_open_side_def Let_def)
  show "map_of (tl_turns (sp_open_main e prompt v)) (se_byte_offset e) \<noteq> None"
    "map_of (tl_turns (sp_open_side me child_of e prompt v)) (se_byte_offset e) \<noteq> None"
    using some by (simp_all add: sp_open_main_def sp_open_side_def Let_def)
  show "ss_projected_through (tl_state (sp_open_main e prompt v)) = se_byte_offset e"
    "ss_projected_through (tl_state (sp_open_side me child_of e prompt v)) = se_byte_offset e"
    using assms by (simp_all add: sp_open_main_def sp_open_side_def sp_create_def Let_def at_event_def)
qed

lemma sp_open_counts:
  assumes "at_event e v" "tl_counts v"
  shows "tl_counts (sp_open_main e prompt v)" "tl_counts (sp_open_side me child_of e prompt v)"
  using tl_counts_create [OF assms] by (auto simp: sp_open_main_def sp_open_side_def Let_def tl_counts_def)

text \<open>What holds after an event was placed.\<close>

definition placed :: "stored_event \<Rightarrow> timeline \<Rightarrow> timeline \<Rightarrow> bool" where
  "placed e v w \<longleftrightarrow> tl_ok w \<and> ss_projected_through (tl_state w) = se_byte_offset e
     \<and> (tl_counts v \<longrightarrow> tl_counts w)"

lemma placed_append:
  assumes "tl_ok w" "ss_projected_through (tl_state w) = se_byte_offset e"
    "map_of (tl_turns w) t \<noteq> None" "tl_counts v \<Longrightarrow> tl_counts w"
  shows "placed e v (sp_append t e w)"
proof -
  have k: "keeps (sp_count t e w) (sp_append t e w)" using assms by (intro keeps_append) simp_all
  moreover have "ss_projected_through (tl_state (sp_count t e w)) = se_byte_offset e"
    using assms(2) by (simp add: sp_count_def count_state_def)
  ultimately show ?thesis
    using assms tl_counts_keeps [OF k] tl_counts_count [of w t e] by (simp add: placed_def keepsD)
qed

lemma route_existing:
  "route_event st e is_prompt = Existing t \<Longrightarrow> ss_current_main st = Some t \<or> ss_current_sidechain st = Some t"
  by (auto simp: route_event_def split: if_splits option.splits)

lemma placed_place:
  assumes "at_event e v"
  shows "placed e v (sp_place me child_of e is_prompt v)"
proof (cases "route_event (tl_state v) e is_prompt")
  case Skip
  with assms show ?thesis by (simp add: sp_place_def placed_def at_event_def)
next
  case (Existing t)
  then have "map_of (tl_turns v) t \<noteq> None"
    using tl_ok_cursorD route_existing assms unfolding at_event_def by blast
  with Existing assms show ?thesis by (simp add: sp_place_def placed_append at_event_def)
next
  case (NewMain prompt)
  then show ?thesis
    using sp_open_ok [OF assms, where prompt = prompt] sp_open_counts(1) [OF assms]
    by (cases prompt) (simp_all add: sp_place_def Let_def placed_append, simp add: placed_def)
next
  case (NewSide prompt)
  then show ?thesis
    using sp_open_ok [OF assms, where prompt = prompt] sp_open_counts(2) [OF assms]
    by (cases prompt) (simp_all add: sp_place_def Let_def placed_append, simp add: placed_def)
qed

lemma at_event_through:
  assumes "tl_ok v" "ss_projected_through (tl_state v) < se_byte_offset e"
  shows "at_event e (sp_through e v)"
proof -
  have "tl_ok (sp_through e v)"
    by (rule tl_okI) (use assms tl_ok_btm [OF assms(1)] tl_ok_turnD [OF assms(1)] tl_ok_opD [OF assms(1)]
      tl_ok_ordD [OF assms(1)] tl_ok_cursorD [OF assms(1)] in \<open>fastforce simp: sp_through_def\<close>)+
  moreover have "t < se_byte_offset e" if "map_of (tl_turns v) t \<noteq> None" for t
    using that tl_ok_turnD [OF assms(1), of t] assms(2) by fastforce
  ultimately show ?thesis using assms(2) by (auto simp: at_event_def sp_through_def)
qed

lemma correlated_offset: "se_byte_offset (fst (sp_correlate env e v)) = se_byte_offset e"
proof -
  have "se_byte_offset (fst (fold (sp_correlate_one env off) evs ow)) = se_byte_offset (fst ow)" for off evs ow
    by (induction evs arbitrary: ow)
      (auto simp: sp_correlate_one_def mark_uncorrelated_def Let_def split: prod.splits list.splits)
  then show ?thesis by (simp add: sp_correlate_def)
qed

lemma placed_apply:
  assumes "tl_ok v" "ss_projected_through (tl_state v) < se_byte_offset e"
  shows "placed e v (sp_apply env me child_of e v)"
proof -
  let ?v = "sp_through e v"
  obtain e' w where c: "sp_correlate env e ?v = (e', w)" by fastforce
  let ?w = "w\<lparr>tl_links := tl_links w \<union> links_of env me child_of e'\<rparr>"
  have at: "at_event e ?v" by (rule at_event_through [OF assms])
  have k: "keeps ?v w" using keeps_correlate [of ?v env e] at c by (simp add: at_event_def)
  have k': "keeps w ?w" using keepsD(1) [OF k] by (intro keeps_same) (simp_all add: tl_ok_btm)
  have off: "se_byte_offset e' = se_byte_offset e" using correlated_offset [of env e ?v] c by simp
  have at': "at_event e' ?w"
    using at_event_keeps [OF at_event_keeps [OF at k] k'] off by (simp add: at_event_def)
  have cnt: "tl_counts v \<Longrightarrow> tl_counts ?v" by (simp add: tl_counts_def sp_through_def)
  then have cnt': "tl_counts v \<Longrightarrow> tl_counts ?w"
    using tl_counts_keeps [OF k] tl_counts_keeps [OF k'] by blast
  have "placed e v (sp_place me child_of e' p ?w)" for p
    using placed_place [OF at', of me child_of p] cnt' off by (simp add: placed_def)
  moreover have "placed e v ?v" "placed e v ?w"
    using at at' cnt cnt' off by (simp_all add: at_event_def placed_def)
  ultimately show ?thesis by (simp add: sp_apply_def c Let_def split: option.split)
qed

definition sp_applies ::
  "reduce_env \<Rightarrow> session \<Rightarrow> session option \<Rightarrow> stored_event list \<Rightarrow> timeline \<Rightarrow> timeline" where
  "sp_applies env me child_of es v = fold (sp_apply env me child_of) es v"

abbreviation ordered_after :: "int \<Rightarrow> stored_event list \<Rightarrow> bool" where
  "ordered_after n es \<equiv> sorted_wrt (<) (n # map se_byte_offset es)"

lemma sp_applies_keep:
  assumes "tl_ok v" "ordered_after (ss_projected_through (tl_state v)) es"
  shows "tl_ok (sp_applies env me child_of es v)"
    "tl_counts v \<Longrightarrow> tl_counts (sp_applies env me child_of es v)"
    "ss_projected_through (tl_state (sp_applies env me child_of es v)) =
      (if es = [] then ss_projected_through (tl_state v) else se_byte_offset (last es))"
proof -
  have "tl_ok (sp_applies env me child_of es v)
      \<and> (tl_counts v \<longrightarrow> tl_counts (sp_applies env me child_of es v))
      \<and> ss_projected_through (tl_state (sp_applies env me child_of es v)) =
        (if es = [] then ss_projected_through (tl_state v) else se_byte_offset (last es))"
    using assms
  proof (induction es arbitrary: v)
    case (Cons e es)
    have p: "placed e v (sp_apply env me child_of e v)" using Cons.prems by (intro placed_apply) simp_all
    then have "ordered_after (ss_projected_through (tl_state (sp_apply env me child_of e v))) es"
      using Cons.prems by (simp add: placed_def)
    with Cons.IH [of "sp_apply env me child_of e v"] p show ?case
      by (simp add: sp_applies_def placed_def)
  qed (simp add: sp_applies_def)
  then show "tl_ok (sp_applies env me child_of es v)"
    "tl_counts v \<Longrightarrow> tl_counts (sp_applies env me child_of es v)"
    "ss_projected_through (tl_state (sp_applies env me child_of es v)) =
      (if es = [] then ss_projected_through (tl_state v) else se_byte_offset (last es))" by blast+
qed

end
