(* ===== verification/Timeline_Refine.thy ===== *)
theory Timeline_Refine
  imports Timeline_Inv
begin

text \<open>
  The reducer implements the specification. \<open>merge\<close> lays the rows of the cache over the committed
  rows; a cache is consistent with the committed rows when it was filled from them and records
  what it changed. Every step of the reducer keeps this and changes the merged rows as the
  specification says, whatever part of them happens to be cached. What the reducer needs of the
  committed rows is the interface \<open>timeline_backend\<close>; the database queries implement it.
\<close>

section \<open>Merging a cache over a table\<close>

definition merge :: "('k::linorder, 'v) btree_map \<Rightarrow> ('k, 'v) btree_map \<Rightarrow> ('k, 'v) btree_map" where
  "merge base over = fold (\<lambda>(k, v). btm_insert k v) over base"

lemma btm_ok_merge [simp]: "btm_ok base \<Longrightarrow> btm_ok (merge base over)"
  unfolding merge_def by (induction over arbitrary: base) auto

lemma map_of_merge:
  "distinct (map fst over) \<Longrightarrow> map_of (merge base over) = map_of base ++ map_of over"
proof (induction over arbitrary: base)
  case (Cons kv over)
  obtain k v where kv: "kv = (k, v)" by (cases kv)
  have none: "map_of over k = None" using Cons.prems kv by (simp add: map_of_eq_None_iff)
  have "map_of base ++ map_of (kv # over) = (map_of base)(k \<mapsto> v) ++ map_of over"
    unfolding kv by (rule ext) (simp add: map_add_def none split: option.split)
  moreover have "map_of (merge base (kv # over)) = map_of (merge (btm_insert k v base) over)"
    by (simp add: merge_def kv)
  moreover have "\<dots> = (map_of base)(k \<mapsto> v) ++ map_of over" using Cons by simp
  ultimately show ?case by metis
qed (simp add: merge_def)

lemma map_of_merge_ok [simp]: "btm_ok over \<Longrightarrow> map_of (merge base over) = map_of base ++ map_of over"
  by (simp add: map_of_merge btm_ok_distinct)

lemma merge_insert [simp]:
  assumes "btm_ok base" "btm_ok over"
  shows "merge base (btm_insert k v over) = btm_insert k v (merge base over)"
  by (rule btm_ext) (use assms in simp_all)

lemma merge_insert_base [simp]:
  assumes "btm_ok base" "btm_ok over" "map_of base k = Some v" "map_of over k = None"
  shows "btm_insert k v (merge base over) = merge base over"
  by (rule btm_ext) (use assms in \<open>auto simp: fun_eq_iff map_add_def\<close>)

lemma merge_Nil [simp]: "merge base [] = base"
  by (simp add: merge_def)

lemma btm_ok_filter: "btm_ok xs \<Longrightarrow> btm_ok (filter P xs)"
  unfolding btm_ok_def by (induction xs) auto

lemma map_of_btm_filter:
  "btm_ok xs \<Longrightarrow> map_of (filter (\<lambda>kv. P (snd kv)) xs) k = Some v \<longleftrightarrow> map_of xs k = Some v \<and> P v"
  by (simp add: btm_ok_filter flip: btm_in_set_iff)

lemma filter_map_snd: "filter P (map snd xs) = map snd (filter (\<lambda>kv. P (snd kv)) xs)"
  by (simp add: filter_map comp_def)

lemma btm_select_cong:
  assumes "btm_ok m" "btm_ok n"
    and "\<And>k v. map_of m k = Some v \<and> P v \<longleftrightarrow> map_of n k = Some v \<and> P v"
  shows "filter P (map snd m) = filter P (map snd n)"
proof -
  have "map_of (filter (\<lambda>kv. P (snd kv)) m) = map_of (filter (\<lambda>kv. P (snd kv)) n)"
  proof
    fix k
    show "map_of (filter (\<lambda>kv. P (snd kv)) m) k = map_of (filter (\<lambda>kv. P (snd kv)) n) k"
      using map_of_btm_filter [OF assms(1), of P k] map_of_btm_filter [OF assms(2), of P k] assms(3) [of k]
      by (metis option.exhaust)
  qed
  then have "filter (\<lambda>kv. P (snd kv)) m = filter (\<lambda>kv. P (snd kv)) n"
    using assms btm_ok_filter by (intro btm_ext) auto
  then show ?thesis by (simp add: filter_map_snd)
qed

lemma map_filter_keys: "btm_ok m \<Longrightarrow> set xs \<subseteq> set m \<Longrightarrow> List.map_filter (map_of m) (map fst xs) = map snd xs"
proof (induction xs)
  case (Cons x xs)
  obtain k v where x: "x = (k, v)" by (cases x)
  then have "map_of m k = Some v" using Cons.prems btm_in_set_iff [of m k v] by simp
  with Cons x show ?case by (simp add: List.map_filter_simps)
qed (simp add: List.map_filter_simps)

lemma select_sorted_keys:
  assumes "btm_ok m" "K = {k. \<exists>v. map_of m k = Some v \<and> P v}"
  shows "List.map_filter (map_of m) (sorted_list_of_set K) = filter P (map snd m)"
proof -
  let ?xs = "filter (\<lambda>kv. P (snd kv)) m"
  have "k \<in> set (map fst ?xs) \<longleftrightarrow> k \<in> K" for k
    using assms(2) btm_in_set_iff [OF assms(1), of k] by force
  then have "set (map fst ?xs) = K" by blast
  moreover have "sorted_wrt (<) (map fst ?xs)"
    using btm_ok_filter [OF assms(1)] by (simp add: btm_ok_def)
  ultimately have "sorted_list_of_set K = map fst ?xs"
    by (metis sorted_list_of_set.idem_if_sorted_distinct strict_sorted_iff)
  then show ?thesis using map_filter_keys [OF assms(1), of ?xs] by (simp add: filter_map_snd)
qed

section \<open>The last of the sorted\<close>

lemma last_sort_key:
  fixes f :: "'a \<Rightarrow> int"
  assumes "xs \<noteq> []"
  shows "last (sort_key f xs) = last (filter (\<lambda>x. f x = Max (f ` set xs)) xs)"
proof -
  let ?M = "Max (f ` set xs)" and ?ys = "sort_key f xs"
  have ne: "?ys \<noteq> []" using assms by (metis length_0_conv length_sort)
  have srt: "sorted (map f ?ys)" by simp
  have split: "?ys = butlast ?ys @ [last ?ys]" using ne by simp
  have "sorted (map f (butlast ?ys @ [last ?ys]))" using srt split by metis
  then have "\<forall>y \<in> set (butlast ?ys). f y \<le> f (last ?ys)" by (simp add: sorted_append)
  moreover have "set ?ys = insert (last ?ys) (set (butlast ?ys))"
    by (subst split) simp
  ultimately have le: "f y \<le> f (last ?ys)" if "y \<in> set ?ys" for y using that by auto
  have "f (last ?ys) = ?M"
  proof (rule Max_eqI [symmetric])
    show "f (last ?ys) \<in> f ` set xs" using ne by (metis imageI last_in_set set_sort)
    show "\<And>y. y \<in> f ` set xs \<Longrightarrow> y \<le> f (last ?ys)" using le by auto
  qed simp
  then have "filter (\<lambda>x. f x = ?M) (butlast ?ys @ [last ?ys])
      = filter (\<lambda>x. f x = ?M) (butlast ?ys) @ [last ?ys]" by simp
  then have "last (filter (\<lambda>x. f x = ?M) ?ys) = last ?ys" using split by (metis last_snoc)
  moreover have "filter (\<lambda>x. f x = ?M) ?ys = filter (\<lambda>x. f x = ?M) xs"
    by (rule sort_key_stable)
  ultimately show ?thesis by simp
qed

section \<open>Cached turns\<close>

text \<open>
  \<open>turns_sim T C D V\<close>: the cache \<open>C\<close> with the dirty turns \<open>D\<close> over the committed turns \<open>T\<close> stands
  for the turns \<open>V\<close>.
\<close>

definition turns_sim ::
  "(int, turn_row) btree_map \<Rightarrow> (int, turn_row) btree_map \<Rightarrow> int set \<Rightarrow> (int, turn_row) btree_map \<Rightarrow> bool"
  where
  "turns_sim T C D V \<longleftrightarrow> btm_ok T \<and> btm_ok C \<and> V = merge T C \<and> D \<subseteq> dom (map_of C)
     \<and> (\<forall>t row. map_of C t = Some row \<longrightarrow> (t \<notin> D \<longrightarrow> map_of T t = Some row)
          \<and> (\<forall>old. map_of T t = Some old \<longrightarrow> turn_static row = turn_static old))"

lemma turns_sim_lookup:
  "turns_sim T C D V \<Longrightarrow> map_of V t = (case map_of C t of Some row \<Rightarrow> Some row | None \<Rightarrow> map_of T t)"
  by (simp add: turns_sim_def map_add_def)

lemma turns_sim_modify:
  assumes "turns_sim T C D V" "map_of C t = Some row" "turn_static row' = turn_static row"
  shows "turns_sim T (btm_insert t row' C) (insert t D) (btm_insert t row' V)"
  using assms by (auto simp: turns_sim_def)

lemma turns_sim_load:
  assumes "turns_sim T C D V" "map_of C t = None" "map_of T t = Some row"
  shows "turns_sim T (btm_insert t row C) D V"
  using assms by (auto simp: turns_sim_def)

lemma turns_sim_create:
  assumes "turns_sim T C D V" "map_of V t = None"
  shows "turns_sim T (btm_insert t row C) (insert t D) (btm_insert t row V)"
  using assms by (auto simp: turns_sim_def)

section \<open>Cached operations\<close>

text \<open>
  \<open>ops_sim T s C N U I B Q V\<close>: the cache \<open>C\<close> over the committed operations \<open>T\<close>, which were called
  up to offset \<open>s\<close>, stands for the operations \<open>V\<close>. \<open>N\<close>, \<open>U\<close> and \<open>I\<close> are the new operations, the
  updated ones and those with a changed input; \<open>B\<close> finds the cached operations of a pair and \<open>Q\<close>
  are the pairs whose operations are all cached.
\<close>

definition cached_as :: "op_row option \<Rightarrow> int \<Rightarrow> bool \<Rightarrow> bool \<Rightarrow> op_row \<Rightarrow> bool" where
  "cached_as committed s upd inp op =
     (case committed of
        None \<Rightarrow> s < op_call_offset op
      | Some old \<Rightarrow> op_static op = op_static old \<and> (inp \<or> op_input op = op_input old) \<and> (upd \<or> op = old))"

definition ops_sim ::
  "(op_key, op_row) btree_map \<Rightarrow> int \<Rightarrow> (op_key, op_row) btree_map \<Rightarrow> op_key set \<Rightarrow> op_key set \<Rightarrow>
   op_key set \<Rightarrow> (string \<Rightarrow> op_key set) \<Rightarrow> string set \<Rightarrow> (op_key, op_row) btree_map \<Rightarrow> bool" where
  "ops_sim T s C N U I B Q V \<longleftrightarrow> btm_ok T \<and> btm_ok C \<and> V = merge T C
     \<and> (\<forall>k op. map_of T k = Some op \<longrightarrow> op_key op = k \<and> op_call_offset op \<le> s)
     \<and> (\<forall>k op. map_of C k = Some op \<longrightarrow> op_key op = k \<and> cached_as (map_of T k) s (k \<in> U) (k \<in> I) op)
     \<and> N = dom (map_of C) - dom (map_of T) \<and> U \<subseteq> dom (map_of C) \<inter> dom (map_of T) \<and> I \<subseteq> U
     \<and> (\<forall>p k. k \<in> B p \<longleftrightarrow> (\<exists>op. map_of C k = Some op \<and> op_pair_id op = p))
     \<and> (\<forall>p \<in> Q. \<forall>k op. map_of T k = Some op \<longrightarrow> op_pair_id op = p \<longrightarrow> k \<in> dom (map_of C))"

lemma ops_simI:
  assumes "btm_ok T" "btm_ok C" "V = merge T C"
    and "\<And>k op. map_of T k = Some op \<Longrightarrow> op_key op = k \<and> op_call_offset op \<le> s"
    and "\<And>k op. map_of C k = Some op \<Longrightarrow> op_key op = k \<and> cached_as (map_of T k) s (k \<in> U) (k \<in> I) op"
    and "N = dom (map_of C) - dom (map_of T)" "U \<subseteq> dom (map_of C) \<inter> dom (map_of T)" "I \<subseteq> U"
    and "\<And>p k. k \<in> B p \<longleftrightarrow> (\<exists>op. map_of C k = Some op \<and> op_pair_id op = p)"
    and "\<And>p k op. p \<in> Q \<Longrightarrow> map_of T k = Some op \<Longrightarrow> op_pair_id op = p \<Longrightarrow> k \<in> dom (map_of C)"
  shows "ops_sim T s C N U I B Q V"
  using assms unfolding ops_sim_def by blast

lemma ops_simD:
  assumes "ops_sim T s C N U I B Q V"
  shows "btm_ok T" "btm_ok C" "V = merge T C" "btm_ok V"
    "map_of T k = Some op \<Longrightarrow> op_key op = k \<and> op_call_offset op \<le> s"
    "map_of C k = Some op \<Longrightarrow> op_key op = k" "map_of C k = Some op \<Longrightarrow> cached_as (map_of T k) s (k \<in> U) (k \<in> I) op"
    "N = dom (map_of C) - dom (map_of T)" "U \<subseteq> dom (map_of C) \<inter> dom (map_of T)" "I \<subseteq> U"
    "k \<in> B p \<longleftrightarrow> (\<exists>op. map_of C k = Some op \<and> op_pair_id op = p)"
    "p \<in> Q \<Longrightarrow> map_of T k = Some op \<Longrightarrow> op_pair_id op = p \<Longrightarrow> k \<in> dom (map_of C)"
  using assms unfolding ops_sim_def by (blast, blast, blast, simp, blast+)

lemma ops_sim_lookup:
  "ops_sim T s C N U I B Q V \<Longrightarrow> map_of V k = (case map_of C k of Some op \<Rightarrow> Some op | None \<Rightarrow> map_of T k)"
  using ops_simD(2,3) by (metis map_add_def map_of_merge_ok)

abbreviation filed :: "(string \<Rightarrow> op_key set) \<Rightarrow> op_row \<Rightarrow> string \<Rightarrow> op_key set" where
  "filed B op \<equiv> B(op_pair_id op := insert (op_key op) (B (op_pair_id op)))"

lemma filed_step:
  assumes B: "\<And>p k. k \<in> B p \<longleftrightarrow> (\<exists>op. map_of C k = Some op \<and> op_pair_id op = p)"
    and old: "\<And>o'. map_of C (op_key op) = Some o' \<Longrightarrow> op_pair_id o' = op_pair_id op"
  shows "k \<in> filed B op p \<longleftrightarrow> (\<exists>o'. map_of (btm_insert (op_key op) op C) k = Some o' \<and> op_pair_id o' = p)"
proof (cases "k = op_key op")
  case True
  then show ?thesis using B [of k p] old by (cases "p = op_pair_id op") auto
next
  case False
  then show ?thesis using B [of k p] by (cases "p = op_pair_id op") auto
qed

lemma ops_sim_remember:
  assumes sim: "ops_sim T s C N U I B Q V" and row: "map_of T (op_key op) = Some op"
    and new: "map_of C (op_key op) = None"
  shows "ops_sim T s (btm_insert (op_key op) op C) N U I (filed B op) Q V"
proof (rule ops_simI)
  note D = ops_simD [OF sim]
  show "V = merge T (btm_insert (op_key op) op C)" using D(1-3) row new by simp
  show "op_key x = k \<and> cached_as (map_of T k) s (k \<in> U) (k \<in> I) x"
    if "map_of (btm_insert (op_key op) op C) k = Some x" for k x
    using that D(6,7) [of k x] row by (cases "k = op_key op") (auto simp: cached_as_def)
  show "N = dom (map_of (btm_insert (op_key op) op C)) - dom (map_of T)" using D(8) row by auto
  show "U \<subseteq> dom (map_of (btm_insert (op_key op) op C)) \<inter> dom (map_of T)" using D(9) by auto
  show "k \<in> filed B op p \<longleftrightarrow> (\<exists>o'. map_of (btm_insert (op_key op) op C) k = Some o' \<and> op_pair_id o' = p)" for p k
    by (rule filed_step) (simp_all add: D(11) new)
  show "k \<in> dom (map_of (btm_insert (op_key op) op C))"
    if "p \<in> Q" "map_of T k = Some x" "op_pair_id x = p" for p k x
    using D(12) [OF that] by simp
qed (use ops_simD [OF sim] in simp_all)

lemma ops_sim_put:
  assumes sim: "ops_sim T s C N U I B Q V" and old: "map_of C (op_key op) = Some old"
    and op: "op_static op = op_static old" "inp \<or> op_input op = op_input old"
    and U': "U' = (if op_key op \<in> N then U else insert (op_key op) U)"
    and I': "I' = (if op_key op \<notin> N \<and> inp then insert (op_key op) I else I)"
  shows "ops_sim T s (btm_insert (op_key op) op C) N U' I' (filed B op) Q (btm_insert (op_key op) op V)"
proof (rule ops_simI)
  note D = ops_simD [OF sim]
  show "btm_insert (op_key op) op V = merge T (btm_insert (op_key op) op C)" using D(1-3) by simp
  show "op_key x = k \<and> cached_as (map_of T k) s (k \<in> U') (k \<in> I') x"
    if x: "map_of (btm_insert (op_key op) op C) k = Some x" for k x
  proof (cases "k = op_key op")
    case True
    have "cached_as (map_of T k) s (k \<in> U) (k \<in> I) old" using D(7) [OF old] True by simp
    moreover have "op_call_offset op = op_call_offset old" using op(1) by (rule op_static_parts)
    moreover have "k \<in> N \<longleftrightarrow> map_of T k = None" using D(8) old True by auto
    ultimately show ?thesis using x True op U' I' by (auto simp: cached_as_def split: option.splits)
  next
    case False
    then have "map_of C k = Some x" using x by simp
    from D(6,7) [OF this] False show ?thesis by (auto simp: U' I')
  qed
  show "N = dom (map_of (btm_insert (op_key op) op C)) - dom (map_of T)" using D(8) old by auto
  show "U' \<subseteq> dom (map_of (btm_insert (op_key op) op C)) \<inter> dom (map_of T)" using D(8,9) old U' by auto
  show "I' \<subseteq> U'" using D(10) U' I' by auto
  have "op_pair_id op = op_pair_id old" using op(1) by (rule op_static_parts)
  then show "k \<in> filed B op p \<longleftrightarrow> (\<exists>o'. map_of (btm_insert (op_key op) op C) k = Some o' \<and> op_pair_id o' = p)" for p k
    by (intro filed_step) (simp_all add: D(11) old)
  show "k \<in> dom (map_of (btm_insert (op_key op) op C))"
    if "p \<in> Q" "map_of T k = Some x" "op_pair_id x = p" for p k x
    using D(12) [OF that] by simp
qed (use ops_simD [OF sim] in simp_all)

lemma ops_sim_new:
  assumes sim: "ops_sim T s C N U I B Q V" and new: "map_of V (op_key op) = None"
    and off: "s < op_call_offset op"
  shows "ops_sim T s (btm_insert (op_key op) op C) (insert (op_key op) N) U I (filed B op) Q
    (btm_insert (op_key op) op V)"
proof (rule ops_simI)
  note D = ops_simD [OF sim]
  have none: "map_of C (op_key op) = None" "map_of T (op_key op) = None"
    using ops_sim_lookup [OF sim, of "op_key op"] new by (auto split: option.splits)
  show "btm_insert (op_key op) op V = merge T (btm_insert (op_key op) op C)" using D(1-3) by simp
  show "op_key x = k \<and> cached_as (map_of T k) s (k \<in> U) (k \<in> I) x"
    if x: "map_of (btm_insert (op_key op) op C) k = Some x" for k x
    using x D(6,7) [of k x] none off by (cases "k = op_key op") (auto simp: cached_as_def)
  show "insert (op_key op) N = dom (map_of (btm_insert (op_key op) op C)) - dom (map_of T)"
    using D(8) none by auto
  show "U \<subseteq> dom (map_of (btm_insert (op_key op) op C)) \<inter> dom (map_of T)" using D(9) by auto
  show "k \<in> filed B op p \<longleftrightarrow> (\<exists>o'. map_of (btm_insert (op_key op) op C) k = Some o' \<and> op_pair_id o' = p)" for p k
    by (rule filed_step) (simp_all add: D(11) none)
  show "k \<in> dom (map_of (btm_insert (op_key op) op C))"
    if "p \<in> Q" "map_of T k = Some x" "op_pair_id x = p" for p k x
    using D(12) [OF that] by simp
qed (use ops_simD [OF sim] in simp_all)

text \<open>A selection sees the same rows in the cache once the cache holds every committed match.\<close>

lemma ops_sim_select:
  assumes sim: "ops_sim T s C N U I B Q V"
    and all: "\<And>k op. map_of T k = Some op \<Longrightarrow> P op \<Longrightarrow> k \<in> dom (map_of C)"
  shows "filter P (map snd C) = filter P (map snd V)"
proof (rule btm_select_cong)
  show "map_of C k = Some op \<and> P op \<longleftrightarrow> map_of V k = Some op \<and> P op" for k op
    using all [of k op] ops_sim_lookup [OF sim, of k] by (cases "map_of C k") auto
qed (use ops_simD [OF sim] in simp_all)

lemma ops_sim_local:
  assumes "ops_sim T s C N U I B Q V"
  shows "filter (\<lambda>op. op_call_offset op < n) (List.map_filter (map_of C) (sorted_list_of_set (B p)))
    = filter (paired p n) (map snd C)"
proof -
  have "B p = {k. \<exists>op. map_of C k = Some op \<and> op_pair_id op = p}" using ops_simD(11) [OF assms] by blast
  then have "List.map_filter (map_of C) (sorted_list_of_set (B p)) = filter (\<lambda>op. op_pair_id op = p) (map snd C)"
    using ops_simD(2) [OF assms] by (intro select_sorted_keys)
  then show ?thesis by (simp add: conj_commute)
qed

end
