(* ===== verification/Timeline_Sim.thy ===== *)
theory Timeline_Sim
  imports Timeline_Refine
begin

text \<open>
  The reducer simulates the specification step by step. \<open>sim\<close> relates its cache, laid over the
  committed rows, to a timeline; the interface \<open>timeline_backend\<close> says what its reads of committed
  rows return, and the database queries of \<open>pg_backend\<close> implement it.
\<close>

section \<open>The relation\<close>

definition fixed :: "reducer \<Rightarrow> session \<times> session option \<times> int \<times> string set" where
  "fixed r = (rd_session_uuid r, rd_child_of r, rd_batch_start r, rd_prompts r)"

definition add_item :: "int \<times> int \<times> chunk \<Rightarrow> (op_key, chunk) btree_map \<Rightarrow> (op_key, chunk) btree_map"
  where
  "add_item = (\<lambda>(turn_id, offset, item) m.
     if map_of m (turn_id, offset) \<noteq> None then m else btm_insert (turn_id, offset) item m)"

definition sim ::
  "timeline_tables \<Rightarrow> session \<times> session option \<times> int \<times> string set \<Rightarrow> int set \<Rightarrow> reducer \<Rightarrow> timeline \<Rightarrow> bool"
  where
  "sim db fx L r v \<longleftrightarrow> fixed r = fx \<and> tl_state v = rd_state r \<and> L \<subseteq> dom (map_of (rd_turns r))
     \<and> turns_sim (tb_turns db) (rd_turns r) (rd_dirty_turns r) (tl_turns v)
     \<and> ops_sim (tb_ops db) (rd_batch_start r) (rd_ops r) (rd_new_ops r) (rd_updated_ops r)
          (rd_input_changed r) (rd_ops_by_pair r) (rd_queried_pairs r) (tl_ops v)
     \<and> tl_items v = fold add_item (rd_items r) (tb_items db)
     \<and> tl_usage v = map_of (tb_usage db) ++ rd_usage r
     \<and> rd_dirty_usage r = dom (rd_usage r) \<and> finite (dom (rd_usage r))
     \<and> tl_links v = tb_links db \<union> rd_links r"

lemma simD:
  assumes "sim db fx L r v"
  shows "fixed r = fx" "tl_state v = rd_state r"
    "turns_sim (tb_turns db) (rd_turns r) (rd_dirty_turns r) (tl_turns v)"
    "ops_sim (tb_ops db) (rd_batch_start r) (rd_ops r) (rd_new_ops r) (rd_updated_ops r)
      (rd_input_changed r) (rd_ops_by_pair r) (rd_queried_pairs r) (tl_ops v)"
    "t \<in> L \<Longrightarrow> \<exists>row. map_of (rd_turns r) t = Some row"
    "tl_usage v = map_of (tb_usage db) ++ rd_usage r"
  using assms unfolding sim_def by blast+

lemma sim_weaken: "sim db fx L r v \<Longrightarrow> L' \<subseteq> L \<Longrightarrow> sim db fx L' r v"
  unfolding sim_def by blast

section \<open>Steps that read nothing\<close>

lemma sim_turn_mut:
  assumes sim: "sim db fx L r v" and t: "t \<in> L" and f: "\<And>row. turn_static (f row) = turn_static row"
  shows "runs (turn_mut t f r) (\<lambda>r'. sim db fx L r' (sp_modify t f v))"
proof -
  obtain row where row: "map_of (rd_turns r) t = Some row" using simD(5) [OF sim t] by blast
  then have "map_of (tl_turns v) t = Some row" using turns_sim_lookup [OF simD(3) [OF sim]] by simp
  then show ?thesis
    using sim row turns_sim_modify [OF simD(3) [OF sim] row f]
    by (auto simp: turn_mut_def ok_or_def sim_def fixed_def sp_modify_def)
qed

lemma sim_create_turn:
  assumes sim: "sim db fx L r v" and new: "map_of (tl_turns v) (se_byte_offset e) = None"
  shows "sim db fx (insert (se_byte_offset e) L) (create_turn e prompt side r) (sp_create e prompt side v)"
  using sim turns_sim_create [OF simD(3) [OF sim] new]
  by (auto simp: create_turn_def sim_def fixed_def sp_create_def)

lemma put_op_new:
  "op_key op \<in> rd_new_ops r \<Longrightarrow> put_op op b r =
    r\<lparr>rd_ops_by_pair := filed (rd_ops_by_pair r) op, rd_ops := btm_insert (op_key op) op (rd_ops r)\<rparr>"
  by (simp add: put_op_def Let_def)

lemma sim_put_op:
  assumes sim: "sim db fx L r v" and old: "map_of (rd_ops r) (op_key op) = Some old"
    and op: "op_static op = op_static old" "b \<or> op_input op = op_input old"
  shows "sim db fx L (put_op op b r) (sp_put op v)"
  using sim ops_sim_put [OF simD(4) [OF sim] old op refl refl]
  by (auto simp: put_op_def Let_def sim_def fixed_def)

lemma sim_new_op:
  assumes sim: "sim db fx L r v" and new: "map_of (tl_ops v) (op_key op) = None"
    and off: "rd_batch_start r < op_call_offset op"
  shows "sim db fx L (put_op op b (r\<lparr>rd_new_ops := insert (op_key op) (rd_new_ops r)\<rparr>)) (sp_put op v)"
  using sim ops_sim_new [OF simD(4) [OF sim] new off]
  by (simp add: put_op_new sim_def fixed_def)

lemma sim_remember_op:
  assumes sim: "sim db fx L r v" and op: "map_of (tb_ops db) (op_key op) = Some op"
  shows "sim db fx L (remember_op op r) v"
proof (cases "map_of (rd_ops r) (op_key op)")
  case None
  then show ?thesis
    using sim ops_sim_remember [OF simD(4) [OF sim] op None]
    by (auto simp: remember_op_def Let_def sim_def fixed_def)
qed (use sim in \<open>simp add: remember_op_def Let_def\<close>)

lemma remember_op_dom: "dom (map_of (rd_ops (remember_op op r))) = insert (op_key op) (dom (map_of (rd_ops r)))"
  by (auto simp: remember_op_def Let_def)

lemma remember_ops_dom:
  "dom (map_of (rd_ops (fold remember_op ops r))) = op_key ` set ops \<union> dom (map_of (rd_ops r))"
  by (induction ops arbitrary: r) (auto simp: remember_op_dom)

lemma sim_remember_ops:
  "sim db fx L r v \<Longrightarrow> \<forall>op \<in> set ops. map_of (tb_ops db) (op_key op) = Some op \<Longrightarrow>
    sim db fx L (fold remember_op ops r) v"
  by (induction ops arbitrary: r) (simp_all add: sim_remember_op)

lemma committed_op:
  assumes "sim db fx L r v" "op \<in> snd ` set (tb_ops db)"
  shows "map_of (tb_ops db) (op_key op) = Some op"
proof -
  obtain k where "(k, op) \<in> set (tb_ops db)" using assms(2) by auto
  then have "map_of (tb_ops db) k = Some op"
    using ops_simD(1) [OF simD(4) [OF assms(1)]] by (simp flip: btm_in_set_iff)
  moreover from this have "op_key op = k" using ops_simD(5) [OF simD(4) [OF assms(1)]] by blast
  ultimately show ?thesis by simp
qed

lemma cached_op:
  assumes "sim db fx L r v" "op \<in> set (map snd (rd_ops r))"
  shows "map_of (rd_ops r) (op_key op) = Some op"
proof -
  obtain k where "(k, op) \<in> set (rd_ops r)" using assms(2) by auto
  then have "map_of (rd_ops r) k = Some op"
    using ops_simD(2) [OF simD(4) [OF assms(1)]] by (simp flip: btm_in_set_iff)
  moreover from this have "op_key op = k" using ops_simD(6) [OF simD(4) [OF assms(1)]] by blast
  ultimately show ?thesis by simp
qed

text \<open>After reading rows that include every committed match, the cache selects like the timeline.\<close>

lemma sim_selects:
  assumes sim: "sim db fx L r v" and ops: "set ops \<subseteq> snd ` set (tb_ops db)"
    and all: "\<And>op. op \<in> snd ` set (tb_ops db) \<Longrightarrow> P op \<Longrightarrow> op \<in> set ops \<or> op_key op \<in> dom (map_of (rd_ops r))"
  shows "sim db fx L (fold remember_op ops r) v"
    "filter P (map snd (rd_ops (fold remember_op ops r))) = sp_select P v"
proof -
  have "\<forall>op \<in> set ops. map_of (tb_ops db) (op_key op) = Some op" using committed_op [OF sim] ops by blast
  with sim show sim': "sim db fx L (fold remember_op ops r) v" by (rule sim_remember_ops)
  have "k \<in> dom (map_of (rd_ops (fold remember_op ops r)))" if "map_of (tb_ops db) k = Some op" "P op" for k op
  proof -
    have "op \<in> snd ` set (tb_ops db)" using map_of_SomeD [OF that(1)] by force
    moreover have "op_key op = k" using ops_simD(5) [OF simD(4) [OF sim] that(1)] by blast
    ultimately show ?thesis using all [of op] that(2) unfolding remember_ops_dom by blast
  qed
  then show "filter P (map snd (rd_ops (fold remember_op ops r))) = sp_select P v"
    using ops_sim_select [OF simD(4) [OF sim']] unfolding sp_select_def by blast
qed

lemma sim_puts:
  assumes f: "\<And>op. op_static (f op) = op_static op" "\<And>op. op_input (f op) = op_input op"
  shows "sim db fx L r v \<Longrightarrow> \<forall>op \<in> set ops. \<exists>old. map_of (rd_ops r) (op_key op) = Some old
      \<and> op_static old = op_static op \<and> op_input old = op_input op \<Longrightarrow>
    sim db fx L (fold (\<lambda>op. put_op (f op) False) ops r) (fold (\<lambda>op. sp_put (f op)) ops v)"
proof (induction ops arbitrary: r v)
  case (Cons op ops)
  have key: "op_key (f x) = op_key x" for x using f(1) by (rule op_static_parts)
  obtain old where old: "map_of (rd_ops r) (op_key op) = Some old" "op_static old = op_static op"
      "op_input old = op_input op" using Cons.prems(2) by auto
  have "sim db fx L (put_op (f op) False r) (sp_put (f op) v)"
    using sim_put_op [OF Cons.prems(1), of "f op" old] old by (simp add: key f)
  moreover have "map_of (rd_ops (put_op (f op) False r)) k =
      (if k = op_key op then Some (f op) else map_of (rd_ops r) k)" for k
    by (auto simp: put_op_def Let_def key)
  then have "\<exists>old. map_of (rd_ops (put_op (f op) False r)) (op_key x) = Some old
      \<and> op_static old = op_static x \<and> op_input old = op_input x" if "x \<in> set ops" for x
    using that Cons.prems(2) old f by (cases "op_key x = op_key op") (auto simp: f)
  ultimately show ?case using Cons.IH by simp
qed simp

section \<open>The latest call of a pair\<close>

abbreviation start_of :: "session \<times> session option \<times> int \<times> string set \<Rightarrow> int" where
  "start_of fx \<equiv> fst (snd (snd fx))"

lemma sim_start: "sim db fx L r v \<Longrightarrow> rd_batch_start r = start_of fx"
  by (auto simp: sim_def fixed_def)

lemma rev_head: "(case rev xs of [] \<Rightarrow> None | x # _ \<Rightarrow> Some x) = (if xs = [] then None else Some (last xs))"
  by (cases xs rule: rev_cases) simp_all

lemma Max_filter:
  fixes f :: "'a \<Rightarrow> int"
  assumes "zs \<noteq> []" "s < Max (f ` set zs)"
  shows "Max (f ` set zs) = Max (f ` set (filter (\<lambda>x. s < f x) zs))"
proof (rule Max_eqI [symmetric])
  have "Max (f ` set zs) \<in> f ` set zs" using assms(1) by (intro Max_in) auto
  then show "Max (f ` set zs) \<in> f ` set (filter (\<lambda>x. s < f x) zs)" using assms(2) by auto
  show "y \<le> Max (f ` set zs)" if "y \<in> f ` set (filter (\<lambda>x. s < f x) zs)" for y
    using that by (intro Max_ge) auto
qed simp

text \<open>A cached call newer than the batch start is the latest of all: newer calls are all cached.\<close>

lemma latest_is_cached:
  assumes sim: "ops_sim T s C N U I B Q V" and xs: "xs = filter (paired p n) (map snd C)"
    and ys: "ys = filter (paired p n) (map snd V)"
    and op: "xs \<noteq> []" "s < op_call_offset (last (sort_key op_call_offset xs))"
  shows "ys \<noteq> []" "last (sort_key op_call_offset ys) = last (sort_key op_call_offset xs)"
proof -
  let ?M = "op_call_offset (last (sort_key op_call_offset xs))"
  have sel: "filter (\<lambda>op. paired p n op \<and> s < op_call_offset op) (map snd C)
      = filter (\<lambda>op. paired p n op \<and> s < op_call_offset op) (map snd V)"
    by (rule ops_sim_select [OF sim]) (use ops_simD(5) [OF sim] in force)
  then have new: "filter (\<lambda>op. s < op_call_offset op) xs = filter (\<lambda>op. s < op_call_offset op) ys"
    by (simp add: xs ys)
  have "last (sort_key op_call_offset xs) \<in> set xs" using op(1)
    by (metis last_in_set length_0_conv length_sort set_sort)
  then have last: "last (sort_key op_call_offset xs) \<in> set (filter (\<lambda>op. s < op_call_offset op) ys)"
    using op(2) by (simp flip: new)
  then show ne: "ys \<noteq> []" by auto
  have lastM: "last (sort_key op_call_offset zs) = last (filter (\<lambda>x. op_call_offset x =
      Max (op_call_offset ` set (filter (\<lambda>x. s < op_call_offset x) zs))) (filter (\<lambda>x. s < op_call_offset x) zs))"
    if "s < Max (op_call_offset ` set zs)" "zs \<noteq> []" for zs
  proof -
    have "Max (op_call_offset ` set zs) = Max (op_call_offset ` set (filter (\<lambda>x. s < op_call_offset x) zs))"
      using that by (intro Max_filter) auto
    then show ?thesis using last_sort_key [OF that(2), of op_call_offset] that(1)
      by (auto intro!: arg_cong [where f = last] filter_cong)
  qed
  have "last (sort_key op_call_offset xs) \<in> set xs" "last (sort_key op_call_offset xs) \<in> set ys"
    using last unfolding new [symmetric] using last by auto
  then have "?M \<le> Max (op_call_offset ` set xs)" "?M \<le> Max (op_call_offset ` set ys)"
    by simp_all
  then have "s < Max (op_call_offset ` set xs)" "s < Max (op_call_offset ` set ys)" using op(2) by linarith+
  from lastM [OF this(1) op(1)] lastM [OF this(2) ne]
  show "last (sort_key op_call_offset ys) = last (sort_key op_call_offset xs)"
    unfolding new by (simp only:)
qed

lemma remember_ops_keep:
  "map_of (rd_ops r) k = Some x \<Longrightarrow> map_of (rd_ops (fold remember_op ops r)) k = Some x"
proof (induction ops arbitrary: r)
  case (Cons op ops)
  have "map_of (rd_ops (remember_op op r)) k = Some x" using Cons.prems by (auto simp: remember_op_def Let_def)
  then show ?case using Cons.IH by simp
qed simp

lemma put_ops_other:
  assumes "\<And>op. op_key (f op) = op_key op"
  shows "k \<notin> op_key ` set ops \<Longrightarrow> map_of (rd_ops (fold (\<lambda>op. put_op (f op) b) ops r)) k = map_of (rd_ops r) k"
  by (induction ops arbitrary: r) (simp_all add: put_op_def Let_def assms)

section \<open>Links\<close>

lemma record_links_eq:
  "record_links env e r = r\<lparr>rd_links := rd_links r \<union> links_of env (rd_session_uuid r) (rd_child_of r) e\<rparr>"
proof -
  define spawn where "spawn \<longleftrightarrow> se_agent e = ''codex'' \<and>
    (se_subtype e = Some ''collab_agent_spawn_end'' \<or> se_subtype e = Some ''item_completed'')"
  show ?thesis
    unfolding record_links_def links_of_def Let_def spawn_def [symmetric]
    by (cases "rd_child_of r"; cases "se_related_tool_use_id e"; cases spawn;
        cases "Option.bind (se_event_uuid e) (re_parse_uuid env)")
      (simp_all add: insert_commute)
qed

lemma link_sidechain_turn_eq:
  "link_sidechain_turn (se_byte_offset e) e r =
    r\<lparr>rd_links := rd_links r \<union> side_links (rd_session_uuid r) (rd_child_of r) e\<rparr>"
  by (cases "rd_child_of r"; cases "se_related_tool_use_id e")
    (auto simp: link_sidechain_turn_def side_links_def)

lemma sim_links:
  "sim db fx L r v \<Longrightarrow> sim db fx L (r\<lparr>rd_links := rd_links r \<union> ls\<rparr>) (v\<lparr>tl_links := tl_links v \<union> ls\<rparr>)"
  by (auto simp: sim_def fixed_def)

lemma sim_state:
  "sim db fx L r v \<Longrightarrow> sim db fx L (r\<lparr>rd_state := f (rd_state r)\<rparr>) (v\<lparr>tl_state := f (tl_state v)\<rparr>)"
  by (auto simp: sim_def fixed_def)

lemma sim_session:
  "sim db (me, child_of, s, P) L r v \<Longrightarrow> rd_session_uuid r = me \<and> rd_child_of r = child_of"
  by (simp add: sim_def fixed_def)

lemma sim_open:
  assumes sim: "sim db (me, child_of, s, P) L r v" and new: "map_of (tl_turns v) (se_byte_offset e) = None"
  shows "sim db (me, child_of, s, P) (insert (se_byte_offset e) L) (open_main e prompt r) (sp_open_main e prompt v)"
    "sim db (me, child_of, s, P) (insert (se_byte_offset e) L) (open_side e prompt r)
      (sp_open_side me child_of e prompt v)"
proof -
  let ?t = "se_byte_offset e"
  note created = sim_create_turn [OF sim new, of prompt]
  show "sim db (me, child_of, s, P) (insert ?t L) (open_main e prompt r) (sp_open_main e prompt v)"
    unfolding open_main_def sp_open_main_def Let_def by (rule sim_state [OF created])
  have "sim db (me, child_of, s, P) (insert ?t L)
      ((create_turn e prompt True r)\<lparr>rd_state := (rd_state (create_turn e prompt True r))\<lparr>ss_current_sidechain := Some ?t\<rparr>\<rparr>)
      ((sp_create e prompt True v)\<lparr>tl_state := (tl_state (sp_create e prompt True v))\<lparr>ss_current_sidechain := Some ?t\<rparr>\<rparr>)"
    by (rule sim_state [OF created])
  from sim_links [OF this, of "side_links me child_of e"] sim_session [OF created]
  show "sim db (me, child_of, s, P) (insert ?t L) (open_side e prompt r) (sp_open_side me child_of e prompt v)"
    by (simp add: open_side_def sp_open_side_def Let_def link_sidechain_turn_eq)
qed

section \<open>Reading committed rows\<close>

text \<open>
  What the reducer needs of its backend over the committed tables: a read never fails, and it
  returns the rows it names. The candidates for evidence may be more than those that enclose it.
\<close>

locale timeline_backend =
  fixes be :: backend and db :: timeline_tables
  assumes turn_read: "be_turn be t = Inr (map_of (tb_turns db) t)"
    and pair_read: "runs (be_ops_by_pair be p n) (\<lambda>ops. set ops = {op \<in> snd ` set (tb_ops db). paired p n op})"
    and prompt_read: "be_prompt_seen be i = Inr (\<exists>row \<in> snd ` set (tb_turns db). tr_prompt_event_uuid row = Some i)"
    and usage_read: "be_message_usage be i = Inr (map_of (tb_usage db) i)"
    and exec_read: "runs (be_exec_candidates be n started) (\<lambda>ops. set ops \<subseteq> snd ` set (tb_ops db)
      \<and> {op \<in> snd ` set (tb_ops db). op_call_offset op < n \<and> encloses op started} \<subseteq> set ops)"
    and cell_read: "runs (be_ops_by_running_cell be cell)
      (\<lambda>ops. set ops = {op \<in> snd ` set (tb_ops db). op_running_cell op = Some cell})"
begin

lemma sim_load_turn:
  assumes sim: "sim db fx L r v"
  shows "runs (load_turn be t r) (\<lambda>(loaded, r'). (loaded \<longleftrightarrow> map_of (tl_turns v) t \<noteq> None)
    \<and> sim db fx (if loaded then insert t L else L) r' v)"
proof -
  note look = turns_sim_lookup [OF simD(3) [OF sim], of t]
  show ?thesis
  proof (cases "map_of (rd_turns r) t")
    case None
    then show ?thesis
      using sim look turns_sim_load [OF simD(3) [OF sim] None]
      by (auto simp: load_turn_def turn_read sim_def fixed_def split: option.split)
  next
    case (Some row)
    then show ?thesis using sim look by (auto simp: load_turn_def sim_def)
  qed
qed

lemma sim_flag_owner:
  assumes sim: "sim db fx L r v"
  shows "runs (flag_owner be op r) (\<lambda>r'. sim db fx L r' (sp_flag op v))"
proof -
  let ?t = "op_turn_id op" and ?f = "flag_turn (op_is_error op)"
  have mut: "runs (turn_mut ?t ?f r') (\<lambda>r'. sim db fx L r' (sp_flag op v))"
    if "sim db fx (insert ?t L) r' v" for r'
    using sim_turn_mut [OF that, of ?t ?f] unfolding sp_flag_def
    by (rule runs_mono) (simp, simp, erule sim_weaken, blast)
  have none: "sp_flag op v = v" if "map_of (tl_turns v) ?t = None"
    using that by (simp add: sp_flag_def sp_modify_def)
  show ?thesis
    unfolding flag_owner_def
    by (rule runs_bindI [OF sim_load_turn [OF sim, of ?t]]) (auto simp: mut none)
qed

lemma sim_remember_pair:
  assumes sim: "sim db fx L r v" and ops: "set ops \<subseteq> snd ` set (tb_ops db)"
    and all: "\<forall>op \<in> snd ` set (tb_ops db). op_pair_id op = p \<longrightarrow> op \<in> set ops \<or> op_key op \<in> dom (map_of (rd_ops r))"
    and r': "r' = fold remember_op ops (r\<lparr>rd_queried_pairs := insert p (rd_queried_pairs r)\<rparr>)"
  shows "sim db fx L r' v" "local_ops p n r' = sp_select (paired p n) v"
    "set (local_ops p n r') \<subseteq> set (map snd (rd_ops r'))"
proof -
  let ?r = "fold remember_op ops r"
  have q: "rd_queried_pairs (fold remember_op ops r) = rd_queried_pairs r" for r
    by (induction ops arbitrary: r) (simp_all add: remember_op_def Let_def)
  have "remember_op op (r\<lparr>rd_queried_pairs := Q\<rparr>) = (remember_op op r)\<lparr>rd_queried_pairs := Q\<rparr>" for op r Q
    by (simp add: remember_op_def Let_def)
  then have "fold remember_op ops (r\<lparr>rd_queried_pairs := Q\<rparr>) = (fold remember_op ops r)\<lparr>rd_queried_pairs := Q\<rparr>" for r Q
    by (induction ops arbitrary: r) simp_all
  then have r2: "r' = ?r\<lparr>rd_queried_pairs := insert p (rd_queried_pairs r)\<rparr>" by (simp add: r')
  have s1: "sim db fx L ?r v"
    using committed_op [OF sim] ops by (intro sim_remember_ops [OF sim]) blast
  have cached: "k \<in> dom (map_of (rd_ops ?r))" if "map_of (tb_ops db) k = Some op" "op_pair_id op = p" for k op
  proof -
    have "op \<in> snd ` set (tb_ops db)" using map_of_SomeD [OF that(1)] by force
    moreover have "op_key op = k" using ops_simD(5) [OF simD(4) [OF sim] that(1)] by blast
    ultimately show ?thesis using all that(2) unfolding remember_ops_dom by blast
  qed
  have "ops_sim (tb_ops db) (rd_batch_start ?r) (rd_ops ?r) (rd_new_ops ?r) (rd_updated_ops ?r)
      (rd_input_changed ?r) (rd_ops_by_pair ?r) (insert p (rd_queried_pairs r)) (tl_ops v)"
    by (rule ops_simI) (use ops_simD [OF simD(4) [OF s1]] q cached in blast)+
  then show "sim db fx L r' v" using s1 unfolding r2 sim_def fixed_def by simp
  have loc: "local_ops p n r' = filter (paired p n) (map snd (rd_ops ?r))"
    using ops_sim_local [OF simD(4) [OF s1]] unfolding local_ops_def r2 by simp
  then show "set (local_ops p n r') \<subseteq> set (map snd (rd_ops r'))" unfolding r2 by auto
  show "local_ops p n r' = sp_select (paired p n) v"
    unfolding loc sp_select_def by (rule ops_sim_select [OF simD(4) [OF s1]]) (use cached in blast)
qed

lemma sim_ops_for_pair:
  assumes sim: "sim db fx L r v" and n: "rd_batch_start r < n"
  shows "runs (ops_for_pair be p n r) (\<lambda>(ops, r'). ops = sp_matching p n v \<and> sim db fx L r' v
    \<and> set ops \<subseteq> set (map snd (rd_ops r')))"
proof -
  let ?Q = "\<lambda>ops. set ops \<subseteq> snd ` set (tb_ops db) \<and> (\<forall>op \<in> snd ` set (tb_ops db). op_pair_id op = p \<longrightarrow>
        op \<in> set ops \<or> op_key op \<in> dom (map_of (rd_ops r)))"
  note osim = simD(4) [OF sim]
  have old: "op_call_offset op < n" if "op \<in> snd ` set (tb_ops db)" for op
    using ops_simD(5) [OF osim committed_op [OF sim that]] n by simp
  have "?Q []" if "p \<in> rd_queried_pairs r"
    using ops_simD(12) [OF osim that committed_op [OF sim]] by simp
  moreover have "runs (be_ops_by_pair be p n) ?Q"
    by (rule runs_mono [OF pair_read]) (use old in blast)
  ultimately have "runs (if p \<notin> rd_queried_pairs r then be_ops_by_pair be p n else Inr []) ?Q" by simp
  then show ?thesis
    unfolding ops_for_pair_def Let_def
    by (rule runs_bindI)
      (use sim_remember_pair [OF sim _ _ refl] in \<open>simp add: sp_matching_def del: set_map\<close>)
qed

lemma sim_latest:
  assumes sim: "sim db fx L r v" and n: "start_of fx < n"
  shows "runs (latest_op_for_pair be p n r) (\<lambda>(found, r'). found = sp_latest p n v \<and> sim db fx L r' v
    \<and> (\<forall>op. found = Some op \<longrightarrow> op \<in> set (map snd (rd_ops r'))))"
proof -
  define xs where "xs = filter (paired p n) (map snd (rd_ops r))"
  have loc: "local_ops p n r = xs"
    unfolding local_ops_def xs_def by (rule ops_sim_local [OF simD(4) [OF sim]])
  note start = sim_start [OF sim]
  have last_xs: "last (sort_key op_call_offset xs) \<in> set (map snd (rd_ops r))" if "xs \<noteq> []"
  proof -
    have "last (sort_key op_call_offset xs) \<in> set xs"
      using that by (metis last_in_set length_0_conv length_sort set_sort)
    then show ?thesis by (auto simp: xs_def)
  qed
  have empty: "sort_key op_call_offset zs = [] \<longleftrightarrow> zs = []" for zs :: "op_row list"
    by (metis length_0_conv length_sort)
  show ?thesis
  proof (cases "xs \<noteq> [] \<and> start_of fx < op_call_offset (last (sort_key op_call_offset xs))")
    case True
    have "sp_latest p n v = Some (last (sort_key op_call_offset xs))"
      using latest_is_cached [OF simD(4) [OF sim] xs_def refl] True
      by (simp add: sp_latest_def sp_matching_def sp_select_def rev_head empty start)
    then show ?thesis
      using True sim last_xs
      by (simp add: latest_op_for_pair_def max_by_offset_def loc rev_head empty start del: set_map)
  next
    case False
    have "runs (ops_for_pair be p n r) (\<lambda>(ops, r'). ops = sp_matching p n v \<and> sim db fx L r' v
      \<and> set ops \<subseteq> set (map snd (rd_ops r')))" by (rule sim_ops_for_pair [OF sim]) (simp add: start n)
    then have "runs (res_bind (ops_for_pair be p n r) (\<lambda>(ops, r).
        Inr (case rev ops of [] \<Rightarrow> None | op # _ \<Rightarrow> Some op, r))) (\<lambda>(found, r'). found = sp_latest p n v
        \<and> sim db fx L r' v \<and> (\<forall>op. found = Some op \<longrightarrow> op \<in> set (map snd (rd_ops r'))))"
      by (rule runs_bindI)
        (auto simp: sp_latest_def rev_head simp del: set_map split: if_splits dest: subsetD [OF _ last_in_set])
    moreover have "latest_op_for_pair be p n r = res_bind (ops_for_pair be p n r) (\<lambda>(ops, r).
        Inr (case rev ops of [] \<Rightarrow> None | op # _ \<Rightarrow> Some op, r))"
      using False by (auto simp: latest_op_for_pair_def max_by_offset_def loc rev_head empty start)
    ultimately show ?thesis by simp
  qed
qed

lemma sim_close_waited:
  assumes sim: "sim db fx L r v" and op: "map_of (rd_ops r) (op_key wait) = Some old"
  shows "runs (close_waited_cells be wait b e r) (\<lambda>r'. sim db fx L r' (sp_wait wait b e v)
    \<and> map_of (rd_ops r') (op_key wait) = Some old)"
proof (cases "waited_cell wait b")
  case None
  then show ?thesis using sim op by (simp add: close_waited_cells_def sp_wait_def)
next
  case (Some cell)
  let ?P = "running_in cell (op_key wait)"
  have step: "sim db fx L (fold (\<lambda>op. put_op (waited e op) False) (filter ?P (map snd (rd_ops (fold remember_op ops r))))
        (fold remember_op ops r)) (sp_wait wait b e v)
      \<and> map_of (rd_ops (fold (\<lambda>op. put_op (waited e op) False)
          (filter ?P (map snd (rd_ops (fold remember_op ops r)))) (fold remember_op ops r))) (op_key wait) = Some old"
    if ops: "set ops = {op \<in> snd ` set (tb_ops db). op_running_cell op = Some cell}" for ops
  proof -
    let ?r = "fold remember_op ops r"
    have s: "sim db fx L ?r v" and sel: "filter ?P (map snd (rd_ops ?r)) = sp_select ?P v"
      using ops by (intro sim_selects [OF sim, of ops ?P]; auto simp: running_in_def)+
    have "\<forall>op \<in> set (filter ?P (map snd (rd_ops ?r))). \<exists>old. map_of (rd_ops ?r) (op_key op) = Some old
        \<and> op_static old = op_static op \<and> op_input old = op_input op"
      using cached_op [OF s] by (metis filter_is_subset subsetD)
    from sim_puts [of "waited e", OF op_static_frame(2) op_input_frame(2) s this]
    have "sim db fx L (fold (\<lambda>op. put_op (waited e op) False) (filter ?P (map snd (rd_ops ?r))) ?r)
        (sp_wait wait b e v)"
      using Some sel by (simp add: sp_wait_def)
    moreover have "op_key wait \<notin> op_key ` set (filter ?P (map snd (rd_ops ?r)))"
      by (auto simp: running_in_def)
    ultimately show ?thesis using remember_ops_keep [OF op] put_ops_other [of "waited e"] by simp
  qed
  have P: "(\<lambda>op. op_running_cell op = Some cell \<and> op_key op \<noteq> op_key wait) = ?P"
    by (simp add: fun_eq_iff running_in_def)
  have "close_waited_cells be wait b e r = res_bind (be_ops_by_running_cell be cell) (\<lambda>ops.
      Inr (fold (\<lambda>op. put_op (waited e op) False) (filter ?P (map snd (rd_ops (fold remember_op ops r))))
        (fold remember_op ops r)))"
    by (simp add: close_waited_cells_def Some Let_def P)
  then show ?thesis using step by (simp add: runs_mono [OF cell_read])
qed

lemma sim_op_result:
  assumes sim: "sim db fx L r v" and op: "op \<in> set (map snd (rd_ops r))"
  shows "runs (res_bind (close_waited_cells be (set_result b e op) b e r) (\<lambda>r.
      flag_owner be (set_result b e op) (put_op (set_result b e op) False r)))
    (\<lambda>r'. sim db fx L r' (sp_flag (set_result b e op) (sp_put (set_result b e op) (sp_wait (set_result b e op) b e v))))"
proof -
  have "map_of (rd_ops r) (op_key (set_result b e op)) = Some op" using cached_op [OF sim op] by simp
  from sim_close_waited [OF sim this, of b e] show ?thesis
    by (rule runs_bindI) (use sim_flag_owner [OF sim_put_op] in simp)
qed

lemma sim_apply_result:
  assumes sim: "sim db fx L r v" and t: "t \<in> L" and n: "start_of fx < se_byte_offset e"
  shows "runs (apply_result be t e b r) (\<lambda>r'. sim db fx L r' (sp_result t e b v))"
proof -
  define w where "w = (if unwrap_or (bk_is_error b) False then sp_modify t (flag_turn True) v else v)"
  have flagged: "runs (if unwrap_or (bk_is_error b) False then turn_mut t (flag_turn True) r else Inr r)
      (\<lambda>r'. sim db fx L r' w)"
    using sim_turn_mut [OF sim t, of "flag_turn True"] sim by (simp add: w_def)
  show ?thesis
  proof (cases "bk_tool_id b")
    case None
    then show ?thesis
      using flagged by (auto simp: apply_result_def sp_result_def w_def Let_def)
  next
    case (Some p)
    have found: "runs (res_bind (close_waited_cells be (set_result b e op) b e r') (\<lambda>r.
          flag_owner be (set_result b e op) (put_op (set_result b e op) False r)))
        (\<lambda>r'. sim db fx L r' (sp_result t e b v))"
      if "sim db fx L r' w" "op \<in> set (map snd (rd_ops r'))" "sp_latest p (se_byte_offset e) w = Some op" for r' op
      using sim_op_result [OF that(1,2), of b e] that(3) Some
      by (simp add: sp_result_def Let_def flip: w_def)
    have none: "sp_result t e b v = w" if "sp_latest p (se_byte_offset e) w = None"
      using that Some by (simp add: sp_result_def Let_def flip: w_def)
    have "runs (res_bind (latest_op_for_pair be p (se_byte_offset e) r') (\<lambda>(found, r).
           case found of
             None \<Rightarrow> Inr r
           | Some op \<Rightarrow>
               (let op = set_result b e op in
                res_bind (close_waited_cells be op b e r) (\<lambda>r. flag_owner be op (put_op op False r)))))
        (\<lambda>r'. sim db fx L r' (sp_result t e b v))" if "sim db fx L r' w" for r'
      by (rule runs_bindI [OF sim_latest [OF that n, of p]])
        (use found none in \<open>auto simp: Let_def simp del: set_map runs_simps(3) split: option.split\<close>)
    then show ?thesis
      unfolding apply_result_def by (intro runs_bindI [OF flagged]) (simp add: Some)
  qed
qed

lemma sim_apply_results:
  assumes sim: "sim db fx L r v" and t: "t \<in> L" and n: "start_of fx < se_byte_offset e"
  shows "runs (apply_results be t e r)
    (\<lambda>r'. sim db fx L r' (fold (sp_result t e) (filter (\<lambda>b. bk_kind b = BToolResult) (se_blocks e)) v))"
  unfolding apply_results_def
  using sim_apply_result [OF _ t n] sim by (intro runs_fold_sim) blast+

lemma sim_exact:
  assumes sim: "sim db fx L r v" and n: "start_of fx < off"
  shows "runs (case item_id of Some i \<Rightarrow> ops_for_pair be i off r | None \<Rightarrow> Inr ([], r))
    (\<lambda>(exact, r'). exact = (case item_id of Some i \<Rightarrow> sp_matching i off v | None \<Rightarrow> [])
      \<and> sim db fx L r' v \<and> set exact \<subseteq> set (map snd (rd_ops r')))"
  using sim sim_ops_for_pair [OF sim, of off] n sim_start [OF sim] by (auto split: option.split)

lemma sim_exec:
  assumes sim: "sim db fx L r v"
  shows "runs (res_bind (be_exec_candidates be off started) (\<lambda>ops.
           let r = fold remember_op ops r
           in Inr (filter (\<lambda>op. op_call_offset op < off \<and> Some (op_pair_id op) \<noteq> item_id
                       \<and> encloses op started) (map snd (rd_ops r)), r)))
    (\<lambda>(cands, r'). cands = sp_select (enclosing off item_id started) v \<and> sim db fx L r' v
      \<and> set cands \<subseteq> set (map snd (rd_ops r')))"
proof (rule runs_bindI [OF exec_read])
  fix ops
  let ?P = "enclosing off item_id started" and ?r = "fold remember_op ops r"
  assume ops: "set ops \<subseteq> snd ` set (tb_ops db)
    \<and> {op \<in> snd ` set (tb_ops db). op_call_offset op < off \<and> encloses op started} \<subseteq> set ops"
  have P: "(\<lambda>op. op_call_offset op < off \<and> Some (op_pair_id op) \<noteq> item_id \<and> encloses op started) = ?P"
    by (simp add: fun_eq_iff enclosing_def)
  have all: "op \<in> set ops \<or> op_key op \<in> dom (map_of (rd_ops r))"
    if "op \<in> snd ` set (tb_ops db)" "?P op" for op
    using ops that unfolding enclosing_def by blast
  have "sim db fx L ?r v" "filter ?P (map snd (rd_ops ?r)) = sp_select ?P v"
    using sim_selects [OF sim _ all] ops by blast+
  then show "runs (let r = ?r in Inr (filter (\<lambda>op. op_call_offset op < off \<and> Some (op_pair_id op) \<noteq> item_id
          \<and> encloses op started) (map snd (rd_ops r)), r))
      (\<lambda>(cands, r'). cands = sp_select ?P v \<and> sim db fx L r' v \<and> set cands \<subseteq> set (map snd (rd_ops r')))"
    unfolding P Let_def by (simp only: runs_simps prod.case) (metis filter_is_subset)
qed

lemma sim_fold_evidence:
  assumes sim: "sim db fx L r v" and op: "op \<in> set (map snd (rd_ops r))"
  shows "runs (flag_owner be (fold_evidence ev failed off op) (put_op (fold_evidence ev failed off op) True r))
    (\<lambda>r'. sim db fx L r' (sp_flag (fold_evidence ev failed off op) (sp_put (fold_evidence ev failed off op) v)))"
  by (rule sim_flag_owner [OF sim_put_op [OF sim]]) (use cached_op [OF sim op] in simp_all)

lemma sim_correlate_one:
  assumes sim: "sim db fx L r v" and n: "start_of fx < off"
  shows "runs (correlate_one env be off evd (out, r))
    (\<lambda>(out', r'). out' = fst (sp_correlate_one env off evd (out, v))
      \<and> sim db fx L r' (snd (sp_correlate_one env off evd (out, v))))"
proof (cases evd)
  case (Pair ev failed)
  let ?id = "evidence_id ev" and ?st = "evidence_started env ev"
  have placed: "runs (case cands of
        [op] \<Rightarrow>
          (let op = fold_evidence ev failed off op in
           res_bind (flag_owner be op (put_op op True r')) (\<lambda>r. Inr (out\<lparr>se_blocks := []\<rparr>, r)))
      | _ \<Rightarrow> Inr (mark_uncorrelated out ev, r'))
      (\<lambda>(out', r'). out' = fst (sp_correlate_one env off evd (out, v))
        \<and> sim db fx L r' (snd (sp_correlate_one env off evd (out, v))))"
    if "cands = sp_candidates env off ev v" "sim db fx L r' v" "set cands \<subseteq> set (map snd (rd_ops r'))" for cands r'
  proof (cases "\<exists>op. cands = [op]")
    case True
    then obtain op where "cands = [op]" by blast
    then show ?thesis
      using that sim_fold_evidence [OF that(2), of op ev failed off]
      by (simp add: sp_correlate_one_def Pair Let_def del: set_map)
  next
    case False
    then show ?thesis
      using that(1,2) by (auto simp: sp_correlate_one_def Pair split: list.split)
  qed
  show ?thesis
    unfolding correlate_one_def Pair prod.case Let_def [of ?id] Let_def [of ?st]
  proof (rule runs_bindI [OF sim_exact [OF sim n]], clarify)
    fix r1
    let ?exact = "case ?id of None \<Rightarrow> [] | Some i \<Rightarrow> sp_matching i off v"
    assume r1: "sim db fx L r1 v" "set ?exact \<subseteq> set (map snd (rd_ops r1))"
    have cands: "runs (if ?exact = []
         then res_bind (be_exec_candidates be off ?st) (\<lambda>ops.
           let r = fold remember_op ops r1
           in Inr (filter (\<lambda>op. op_call_offset op < off \<and> Some (op_pair_id op) \<noteq> ?id
                       \<and> encloses op ?st) (map snd (rd_ops r)), r))
         else Inr (?exact, r1))
      (\<lambda>(cands, r'). cands = sp_candidates env off ev v \<and> sim db fx L r' v \<and> set cands \<subseteq> set (map snd (rd_ops r')))"
      using sim_exec [OF r1(1), of off ?st ?id] r1
      by (simp add: sp_candidates_def Let_def del: set_map runs_simps(3))
    show "runs (res_bind (if ?exact = []
         then res_bind (be_exec_candidates be off ?st) (\<lambda>ops.
           let r = fold remember_op ops r1
           in Inr (filter (\<lambda>op. op_call_offset op < off \<and> Some (op_pair_id op) \<noteq> ?id
                       \<and> encloses op ?st) (map snd (rd_ops r)), r))
         else Inr (?exact, r1))
        (\<lambda>(candidates, r).
      case candidates of
        [op] \<Rightarrow>
          (let op = fold_evidence ev failed off op in
           res_bind (flag_owner be op (put_op op True r)) (\<lambda>r. Inr (out\<lparr>se_blocks := []\<rparr>, r)))
      | _ \<Rightarrow> Inr (mark_uncorrelated out ev, r)))
      (\<lambda>(out', r'). out' = fst (sp_correlate_one env off (ev, failed) (out, v))
        \<and> sim db fx L r' (snd (sp_correlate_one env off (ev, failed) (out, v))))"
      by (rule runs_bindI [OF cands]) (use placed Pair in \<open>auto simp del: set_map\<close>)
  qed
qed

lemma sim_correlate:
  assumes sim: "sim db fx L r v" and n: "start_of fx < se_byte_offset e"
  shows "runs (correlate_runtime env be e r) (\<lambda>(e', r'). e' = fst (sp_correlate env e v)
    \<and> sim db fx L r' (snd (sp_correlate env e v)))"
proof -
  let ?R = "\<lambda>(out' :: stored_event, r) (out, v). out' = out \<and> sim db fx L r v"
  have "runs (res_fold (correlate_one env be (se_byte_offset e)) (evidence_in e) (e, r))
      (\<lambda>s. ?R s (fold (sp_correlate_one env (se_byte_offset e)) (evidence_in e) (e, v)))"
  proof (rule runs_fold_sim)
    fix x s a assume "?R s a"
    then obtain out r v where s: "s = (out, r)" "a = (out, v)" "sim db fx L r v" by (cases s; cases a) auto
    show "runs (correlate_one env be (se_byte_offset e) x s)
        (\<lambda>s'. ?R s' (sp_correlate_one env (se_byte_offset e) x a))"
      unfolding s(1,2) by (rule runs_mono [OF sim_correlate_one [OF s(3) n]]) (auto split: prod.splits)
  qed (use sim in simp)
  then show ?thesis
    unfolding correlate_runtime_def sp_correlate_def by (rule runs_mono) (auto split: prod.splits)
qed

end

end
