(* ===== verification/Timeline_Apply.thy ===== *)
theory Timeline_Apply
  imports Timeline_Sim
begin

text \<open>
  The simulation of whole events: tool calls, usage, appending to a turn, opening one, and the
  prompts already seen.
\<close>

section \<open>Prompts\<close>

lemma prompt_known_column:
  "prompt_known i v \<longleftrightarrow> (\<exists>x \<in> set (map snd (column turn_static (tl_turns v))). fst (snd (snd (snd (snd x)))) = Some i)"
  by (force simp: prompt_known_def list_ex_iff column_def turn_static_def)

lemma prompt_known_static:
  "column turn_static (tl_turns w) = column turn_static (tl_turns v) \<Longrightarrow> prompt_known i w \<longleftrightarrow> prompt_known i v"
  by (simp only: prompt_known_column)

lemma keeps_static: "keeps v w \<Longrightarrow> column turn_static (tl_turns w) = column turn_static (tl_turns v)"
proof -
  assume "keeps v w"
  then have "column fst (column turn_key (tl_turns w)) = column fst (column turn_key (tl_turns v))"
    by (simp add: keeps_def)
  moreover have "fst \<circ> turn_key = turn_static" by (simp add: fun_eq_iff turn_key_def)
  ultimately show ?thesis by (simp add: column_comp)
qed

lemma prompt_known_keeps: "keeps v w \<Longrightarrow> prompt_known i w \<longleftrightarrow> prompt_known i v"
  by (intro prompt_known_static keeps_static)

lemma prompt_known_append:
  assumes "tl_ok v" "se_byte_offset e \<le> ss_projected_through (tl_state v)"
  shows "prompt_known i (sp_append t e v) \<longleftrightarrow> prompt_known i v"
proof -
  have "column turn_static (tl_turns (sp_count t e v)) = column turn_static (tl_turns v)"
    using tl_ok_btm(1) [OF assms(1)] by (simp add: sp_count_def column_sp_modify)
  then show ?thesis
    using prompt_known_keeps [OF keeps_append [OF assms]] prompt_known_static by blast
qed

lemma prompt_known_create:
  assumes "at_event e v"
  shows "prompt_known i (sp_create e prompt side v) \<longleftrightarrow>
    prompt_known i v \<or> (prompt \<and> se_event_uuid e = Some i)"
  using sp_create_turns [OF assms] by (auto simp: prompt_known_def seed_turn_def Let_def)

lemma prompt_known_open:
  assumes "at_event e v"
  shows "prompt_known i (sp_open_main e prompt v) \<longleftrightarrow> prompt_known i v \<or> (prompt \<and> se_event_uuid e = Some i)"
    "prompt_known i (sp_open_side me child_of e prompt v) \<longleftrightarrow> prompt_known i v \<or> (prompt \<and> se_event_uuid e = Some i)"
  using prompt_known_create [OF assms, of i]
  by (simp_all add: prompt_known_def sp_open_main_def sp_open_side_def Let_def)

text \<open>A prompt always opens a turn that carries its id, and no other event adds an id.\<close>

lemma prompt_known_place:
  assumes at: "at_event e v" and p: "p \<longleftrightarrow> is_real_user_prompt e"
  shows "prompt_known i (sp_place me child_of e p v) \<longleftrightarrow> prompt_known i v \<or> (p \<and> se_event_uuid e = Some i)"
proof -
  have "p \<Longrightarrow> \<not> is_bookkeeping_event e" using p by (simp add: is_real_user_prompt_def)
  then have route: "p \<Longrightarrow> route_event (tl_state v) e p \<in> {NewMain True, NewSide True}"
    "\<not> p \<Longrightarrow> route_event (tl_state v) e p \<notin> {NewMain True, NewSide True}"
    by (auto simp: route_event_def split: option.splits)
  note opened = sp_open_ok [OF at]
  have "prompt_known i (sp_append (se_byte_offset e) e (sp_open_main e False v)) \<longleftrightarrow> prompt_known i v"
    "prompt_known i (sp_append (se_byte_offset e) e (sp_open_side me child_of e False v)) \<longleftrightarrow> prompt_known i v"
    using prompt_known_append [OF opened(1)] prompt_known_append [OF opened(2)] opened(5,6)
      prompt_known_open [OF at, of i] by simp_all
  moreover have "prompt_known i (sp_append t e v) \<longleftrightarrow> prompt_known i v" for t
    using at by (intro prompt_known_append) (simp_all add: at_event_def)
  ultimately show ?thesis
    using route prompt_known_open [OF at, of i]
    by (cases p) (auto simp: sp_place_def Let_def split: route.split)
qed

section \<open>Calls\<close>

lemma sim_apply_call:
  assumes sim: "sim db fx L r v" and t: "t \<in> L" and ok: "tl_ok v"
    and off: "start_of fx < se_byte_offset e"
  shows "runs (apply_call t e tool r) (\<lambda>r'. sim db fx L r' (sp_call t e tool v))"
proof -
  obtain row where row: "map_of (rd_turns r) t = Some row" using simD(5) [OF sim t] by blast
  then have vrow: "map_of (tl_turns v) t = Some row" using turns_sim_lookup [OF simD(3) [OF sim]] by simp
  let ?op = "call_row t (tr_operation_count row) e tool"
  have new: "map_of (tl_ops v) (op_key ?op) = None"
    using tl_ok_ordD [OF ok, of t "tr_operation_count row"] vrow by auto
  have "runs (turn_mut t (call_turn tool) r) (\<lambda>r'. sim db fx L r' (sp_modify t (call_turn tool) v))"
    by (rule sim_turn_mut [OF sim t]) simp
  then have "runs (res_bind (turn_mut t (call_turn tool) r) (\<lambda>r.
      Inr (put_op ?op True (r\<lparr>rd_new_ops := insert (op_key ?op) (rd_new_ops r)\<rparr>))))
      (\<lambda>r'. sim db fx L r' (sp_put ?op (sp_modify t (call_turn tool) v)))"
  proof (rule runs_bindI)
    fix r' assume r': "sim db fx L r' (sp_modify t (call_turn tool) v)"
    then have "sim db fx L (put_op ?op True (r'\<lparr>rd_new_ops := insert (op_key ?op) (rd_new_ops r')\<rparr>))
        (sp_put ?op (sp_modify t (call_turn tool) v))"
      using new off sim_start [OF r'] by (intro sim_new_op) simp_all
    then show "runs (Inr (put_op ?op True (r'\<lparr>rd_new_ops := insert (op_key ?op) (rd_new_ops r')\<rparr>)))
        (\<lambda>r'. sim db fx L r' (sp_put ?op (sp_modify t (call_turn tool) v)))" by simp
  qed
  then show ?thesis
    by (simp add: apply_call_def row ok_or_def Let_def sp_call_def vrow del: runs_simps(3))
qed

lemma sim_apply_calls:
  assumes sim: "sim db fx L r v" and t: "t \<in> L" and ok: "tl_ok v"
    and off: "start_of fx < se_byte_offset e" "se_byte_offset e \<le> ss_projected_through (tl_state v)"
  shows "runs (apply_calls t e r) (\<lambda>r'. sim db fx L r' (fold (sp_call t e) (tool_uses_in e) v))"
proof -
  let ?R = "\<lambda>r v. sim db fx L r v \<and> tl_ok v \<and> se_byte_offset e \<le> ss_projected_through (tl_state v)"
  have "runs (res_fold (apply_call t e) (tool_uses_in e) r)
      (\<lambda>r'. ?R r' (fold (sp_call t e) (tool_uses_in e) v))"
  proof (rule runs_fold_sim [where R = ?R])
    fix tool r v assume R: "?R r v"
    then have k: "keeps v (sp_call t e tool v)" by (intro keeps_call) simp_all
    show "runs (apply_call t e tool r) (\<lambda>r'. ?R r' (sp_call t e tool v))"
      by (rule runs_mono [OF sim_apply_call [OF _ t _ off(1)]]) (use R keepsD(1,2) [OF k] in auto)
  qed (use sim ok off in simp)
  then show ?thesis unfolding apply_calls_def by (rule runs_mono) simp
qed

section \<open>Whole events\<close>

context timeline_backend begin

lemma sim_charge:
  assumes sim: "sim db fx L r v" and t: "owner \<in> L" and f: "\<And>row. turn_static (f row) = turn_static row"
  shows "runs (res_bind (turn_mut owner f r) (\<lambda>r.
      Inr (r\<lparr>rd_usage := (rd_usage r)(i \<mapsto> u), rd_dirty_usage := insert i (rd_dirty_usage r)\<rparr>)))
    (\<lambda>r'. sim db fx L r' ((sp_modify owner f v)\<lparr>tl_usage := (tl_usage v)(i \<mapsto> u)\<rparr>))"
  by (rule runs_bindI [OF sim_turn_mut [OF sim t f]]) (auto simp: sim_def fixed_def)

lemma sim_owner:
  assumes sim: "sim db fx L r v" and t: "t \<in> L"
  shows "runs (case prior of
      Some p \<Rightarrow> res_bind (load_turn be (mu_turn_id p) r) (\<lambda>(loaded, r). Inr (if loaded then mu_turn_id p else t, r))
    | None \<Rightarrow> Inr (t, r))
    (\<lambda>(owner, r'). owner = usage_owner t prior v \<and> sim db fx (insert owner L) r' v)"
proof (cases prior)
  case None
  then show ?thesis using sim t by (simp add: usage_owner_def insert_absorb)
next
  case (Some p)
  have "runs (res_bind (load_turn be (mu_turn_id p) r) (\<lambda>(loaded, r). Inr (if loaded then mu_turn_id p else t, r)))
      (\<lambda>(owner, r'). owner = usage_owner t prior v \<and> sim db fx (insert owner L) r' v)"
    by (rule runs_bindI [OF sim_load_turn [OF sim]])
      (use t in \<open>auto simp: usage_owner_def Some insert_absorb\<close>)
  then show ?thesis by (simp add: Some del: runs_simps(3))
qed

lemma sim_apply_usage:
  assumes sim: "sim db fx L r v" and t: "t \<in> L"
  shows "runs (apply_usage be t e r) (\<lambda>r'. sim db fx L r' (sp_usage t e v))"
proof (cases "se_usage_json e")
  case None
  then show ?thesis using sim by (simp add: apply_usage_def sp_usage_def)
next
  case (Some u)
  let ?i = "claude_input u" and ?out = "token u ''output_tokens''"
  show ?thesis
  proof (cases "se_agent e = ''codex''")
    case True
    let ?in = "token u ''input_tokens''"
    let ?f = "\<lambda>st. st\<lparr>ss_codex_input_total := Some ?in, ss_codex_output_total := Some ?out\<rparr>"
    let ?v = "sp_modify t (codex_tokens ?in ?out) v"
    have "runs (turn_mut t (codex_tokens ?in ?out) r)
        (\<lambda>r'. sim db fx L (r'\<lparr>rd_state := ?f (rd_state r')\<rparr>) (?v\<lparr>tl_state := ?f (tl_state ?v)\<rparr>))"
      by (rule runs_mono [OF sim_turn_mut [OF sim t]]) (simp, erule sim_state)
    then show ?thesis by (simp add: apply_usage_def sp_usage_def Some True Let_def)
  next
    case claude: False
    show ?thesis
    proof (cases "se_usage_message_id e")
      case None
      then show ?thesis
        using sim_turn_mut [OF sim t, of "add_tokens ?i ?out"] claude Some
        by (simp add: apply_usage_def sp_usage_def Let_def)
    next
      case msg: (Some i)
      let ?prior = "tl_usage v i"
      let ?own = "usage_owner t ?prior v"
      have prior: "(case rd_usage r i of Some prior \<Rightarrow> Inr (Some prior) | None \<Rightarrow> be_message_usage be i) = Inr ?prior"
        using simD(6) [OF sim] by (simp add: usage_read map_add_def split: option.split)
      have charge: "runs (res_bind (turn_mut ?own (recharge ?own ?prior ?i ?out) r') (\<lambda>r.
          Inr (r\<lparr>rd_usage := (rd_usage r)(i \<mapsto> \<lparr>mu_turn_id = ?own, mu_input_tokens = ?i, mu_output_tokens = ?out\<rparr>),
                 rd_dirty_usage := insert i (rd_dirty_usage r)\<rparr>)))
          (\<lambda>r'. sim db fx L r' (sp_usage t e v))" if "sim db fx (insert ?own L) r' v" for r'
        by (rule runs_mono [OF sim_charge [OF that insertI1, of "recharge ?own ?prior ?i ?out" i
              "\<lparr>mu_turn_id = ?own, mu_input_tokens = ?i, mu_output_tokens = ?out\<rparr>"]])
          (use claude Some msg in \<open>auto simp: sp_usage_def Let_def intro: sim_weaken\<close>)
      have "runs (res_bind (case ?prior of
          Some p \<Rightarrow> res_bind (load_turn be (mu_turn_id p) r) (\<lambda>(loaded, r). Inr (if loaded then mu_turn_id p else t, r))
        | None \<Rightarrow> Inr (t, r)) (\<lambda>(owner, r).
          res_bind (turn_mut owner (recharge owner ?prior ?i ?out) r) (\<lambda>r.
            Inr (r\<lparr>rd_usage := (rd_usage r)(i \<mapsto> \<lparr>mu_turn_id = owner, mu_input_tokens = ?i, mu_output_tokens = ?out\<rparr>),
                   rd_dirty_usage := insert i (rd_dirty_usage r)\<rparr>))))
        (\<lambda>r'. sim db fx L r' (sp_usage t e v))"
        by (rule runs_bindI [OF sim_owner [OF sim t]]) (use charge in \<open>auto simp del: runs_simps(3)\<close>)
      moreover have "(\<lambda>turn. add_tokens ?i ?out (case ?prior of
          Some p \<Rightarrow> if mu_turn_id p = owner then add_tokens (- mu_input_tokens p) (- mu_output_tokens p) turn else turn
        | None \<Rightarrow> turn)) = recharge owner ?prior ?i ?out" for owner
        by (simp add: fun_eq_iff recharge_def)
      ultimately show ?thesis
        using claude Some msg prior by (simp add: apply_usage_def Let_def del: runs_simps(3))
    qed
  qed
qed

text \<open>The tool calls and results of an event, once it was counted.\<close>

lemma sim_blocks:
  assumes sim: "sim db fx L r v" and t: "t \<in> L" and ok: "tl_ok v"
    and off: "start_of fx < se_byte_offset e" "se_byte_offset e \<le> ss_projected_through (tl_state v)"
    and w: "w = (if is_assistant_event e
      then sp_modify t (assistant_turn e) (fold (sp_call t e) (tool_uses_in e) v) else v)"
  shows "runs (if is_assistant_event e then res_bind (apply_calls t e r) (turn_mut t (assistant_turn e)) else Inr r)
      (\<lambda>r'. sim db fx L r' w)"
    "sim db fx L r' w \<Longrightarrow> runs (if is_tool_result_event e then apply_results be t e r' else Inr r')
      (\<lambda>r''. sim db fx L r'' (if is_tool_result_event e
        then fold (sp_result t e) (filter (\<lambda>b. bk_kind b = BToolResult) (se_blocks e)) w else w))"
proof -
  have "runs (res_bind (apply_calls t e r) (turn_mut t (assistant_turn e)))
      (\<lambda>r'. sim db fx L r' (sp_modify t (assistant_turn e) (fold (sp_call t e) (tool_uses_in e) v)))"
    by (rule runs_bindI [OF sim_apply_calls [OF sim t ok off]], erule sim_turn_mut [OF _ t]) simp
  with sim show "runs (if is_assistant_event e then res_bind (apply_calls t e r) (turn_mut t (assistant_turn e)) else Inr r)
      (\<lambda>r'. sim db fx L r' w)" by (simp add: w del: runs_simps(3))
  show "runs (if is_tool_result_event e then apply_results be t e r' else Inr r')
      (\<lambda>r''. sim db fx L r'' (if is_tool_result_event e
        then fold (sp_result t e) (filter (\<lambda>b. bk_kind b = BToolResult) (se_blocks e)) w else w))"
    if "sim db fx L r' w"
    using sim_apply_results [OF that t off(1)] that by simp
qed

lemma sim_item:
  assumes "sim db fx L r v"
  shows "sim db fx L (case visible_item e of
      Some item \<Rightarrow> r\<lparr>rd_items := rd_items r @ [(t, se_byte_offset e, item)]\<rparr> | None \<Rightarrow> r) (sp_item t e v)"
  using assms by (auto simp: sim_def fixed_def sp_item_def add_item_def split: option.split)

lemma sim_append:
  assumes sim: "sim db fx L r v" and ok: "tl_ok v" and turn: "map_of (tl_turns v) t \<noteq> None"
    and off: "start_of fx < se_byte_offset e" "se_byte_offset e \<le> ss_projected_through (tl_state v)"
  shows "runs (append_event be t e r) (\<lambda>r'. sim db fx L r' (sp_append t e v))"
proof -
  let ?L = "insert t L" and ?w = "sp_count t e v"
  have t: "t \<in> ?L" by simp
  have w: "tl_ok ?w" "se_byte_offset e \<le> ss_projected_through (tl_state ?w)"
    using tl_ok_count [OF ok] off(2) by (simp_all add: sp_count_def count_state_def)
  define b where "b = (if is_assistant_event e
    then sp_modify t (assistant_turn e) (fold (sp_call t e) (tool_uses_in e) ?w) else ?w)"
  define c where "c = (if is_tool_result_event e
    then fold (sp_result t e) (filter (\<lambda>b. bk_kind b = BToolResult) (se_blocks e)) b else b)"
  have spec: "sp_append t e v = sp_usage t e (sp_item t e c)"
    by (simp add: sp_append_def b_def c_def sp_count_def Let_def)
  have rest: "runs (apply_usage be t e (case visible_item e of
      Some item \<Rightarrow> r\<lparr>rd_items := rd_items r @ [(t, se_byte_offset e, item)]\<rparr> | None \<Rightarrow> r))
      (\<lambda>r'. sim db fx L r' (sp_append t e v))" if "sim db fx ?L r c" for r
    unfolding spec by (rule runs_mono [OF sim_apply_usage [OF sim_item [OF that] t]]) (erule sim_weaken, blast)
  have counted: "runs (res_bind (turn_mut t (count_event e) r1) (\<lambda>r.
     let r = r\<lparr>rd_state := count_state e (rd_state r)\<rparr> in
     res_bind (if is_assistant_event e
               then res_bind (apply_calls t e r) (turn_mut t (assistant_turn e)) else Inr r) (\<lambda>r.
     res_bind (if is_tool_result_event e then apply_results be t e r else Inr r) (\<lambda>r.
     let r = (case visible_item e of
            Some item \<Rightarrow> r\<lparr>rd_items := rd_items r @ [(t, se_byte_offset e, item)]\<rparr>
          | None \<Rightarrow> r)
     in apply_usage be t e r)))) (\<lambda>r'. sim db fx L r' (sp_append t e v))" if r1: "sim db fx ?L r1 v" for r1
  proof (rule runs_bindI [OF sim_turn_mut [OF r1 t]])
    fix r2 assume "sim db fx ?L r2 (sp_modify t (count_event e) v)"
    from sim_state [OF this, of "count_state e"]
    have r2: "sim db fx ?L (r2\<lparr>rd_state := count_state e (rd_state r2)\<rparr>) ?w" by (simp add: sp_count_def)
    show "runs (let r = r2\<lparr>rd_state := count_state e (rd_state r2)\<rparr> in
     res_bind (if is_assistant_event e
               then res_bind (apply_calls t e r) (turn_mut t (assistant_turn e)) else Inr r) (\<lambda>r.
     res_bind (if is_tool_result_event e then apply_results be t e r else Inr r) (\<lambda>r.
     let r = (case visible_item e of
            Some item \<Rightarrow> r\<lparr>rd_items := rd_items r @ [(t, se_byte_offset e, item)]\<rparr>
          | None \<Rightarrow> r)
     in apply_usage be t e r))) (\<lambda>r'. sim db fx L r' (sp_append t e v))"
      unfolding Let_def
      by (intro runs_bindI [OF sim_blocks(1) [OF r2 t w(1) off(1) w(2) b_def]]
          runs_bindI [OF sim_blocks(2) [OF r2 t w(1) off(1) w(2) b_def]])
        (use rest in \<open>auto simp: c_def\<close>)
  qed simp
  show ?thesis
    unfolding append_event_def
    by (rule runs_bindI [OF sim_load_turn [OF sim, of t]]) (use turn counted in \<open>auto simp: guard_def simp del: runs_simps(3)\<close>)
qed

lemma sim_place:
  assumes sim: "sim db (me, child_of, s, P) {} r v" and at: "at_event e v" and s: "s < se_byte_offset e"
  shows "runs (place_event be e p r) (\<lambda>r'. sim db (me, child_of, s, P) {} r' (sp_place me child_of e p v))"
proof -
  let ?fx = "(me, child_of, s, P)" and ?t = "se_byte_offset e"
  have new: "map_of (tl_turns v) ?t = None" using at unfolding at_event_def by blast
  note opened = sp_open_ok [OF at] and opens = sim_open [OF sim new, THEN sim_weaken, OF empty_subsetI]
  show ?thesis
  proof (cases "route_event (tl_state v) e p")
    case Skip
    then show ?thesis using sim simD(2) [OF sim] by (simp add: place_event_def sp_place_def)
  next
    case (Existing t)
    then have "map_of (tl_turns v) t \<noteq> None"
      using tl_ok_cursorD route_existing at unfolding at_event_def by blast
    then have "runs (append_event be t e r) (\<lambda>r'. sim db ?fx {} r' (sp_append t e v))"
      using at s by (intro sim_append [OF sim]) (simp_all add: at_event_def)
    then show ?thesis using Existing simD(2) [OF sim] by (simp add: place_event_def sp_place_def)
  next
    case (NewMain prompt)
    have "runs (append_event be ?t e (open_main e prompt r)) (\<lambda>r'. sim db ?fx {} r' (sp_append ?t e (sp_open_main e prompt v)))"
      using opened s by (intro sim_append [OF opens(1)]) simp_all
    then show ?thesis
      using NewMain simD(2) [OF sim] opens(1)
      by (cases prompt) (simp_all add: place_event_def sp_place_def Let_def)
  next
    case (NewSide prompt)
    have "runs (append_event be ?t e (open_side e prompt r))
        (\<lambda>r'. sim db ?fx {} r' (sp_append ?t e (sp_open_side me child_of e prompt v)))"
      using opened s by (intro sim_append [OF opens(2)]) simp_all
    then show ?thesis
      using NewSide simD(2) [OF sim] opens(2)
      by (cases prompt) (simp_all add: place_event_def sp_place_def Let_def)
  qed
qed

abbreviation committed_prompt :: "string \<Rightarrow> bool" where
  "committed_prompt i \<equiv> \<exists>row \<in> snd ` set (tb_turns db). tr_prompt_event_uuid row = Some i"

definition follows :: "session \<Rightarrow> session option \<Rightarrow> int \<Rightarrow> reducer \<Rightarrow> timeline \<Rightarrow> bool" where
  "follows me child_of s r v \<longleftrightarrow> (\<exists>P. sim db (me, child_of, s, P) {} r v
     \<and> (\<forall>i. prompt_known i v \<longleftrightarrow> i \<in> P \<or> committed_prompt i))"

lemma sim_prompts:
  "sim db (me, child_of, s, P) L r v \<Longrightarrow> rd_prompts r = P"
  "sim db (me, child_of, s, P) L r v \<Longrightarrow> sim db (me, child_of, s, Q) L (r\<lparr>rd_prompts := Q\<rparr>) v"
  by (auto simp: sim_def fixed_def)

lemma follows_place:
  assumes sim: "sim db (me, child_of, s, P) {} r v" and at: "at_event e v" and s: "s < se_byte_offset e"
    and p: "p \<longleftrightarrow> is_real_user_prompt e"
    and known: "\<And>i. prompt_known i v \<or> (p \<and> se_event_uuid e = Some i) \<longleftrightarrow> i \<in> P \<or> committed_prompt i"
  shows "runs (place_event be e p r) (\<lambda>r'. follows me child_of s r' (sp_place me child_of e p v))"
  by (rule runs_mono [OF sim_place [OF sim at s]])
    (use known prompt_known_place [OF at p] in \<open>auto simp: follows_def\<close>)

lemma follows_event:
  assumes r: "follows me child_of s r v" and ok: "tl_ok v"
    and off: "s \<le> ss_projected_through (tl_state v)" "ss_projected_through (tl_state v) < se_byte_offset e"
  shows "runs (apply_event env be e r) (\<lambda>r'. follows me child_of s r' (sp_apply env me child_of e v))"
proof -
  obtain P where sim: "sim db (me, child_of, s, P) {} r v"
    and known: "\<And>i. prompt_known i v \<longleftrightarrow> i \<in> P \<or> committed_prompt i"
    using r unfolding follows_def by blast
  let ?thr = "\<lambda>st. st\<lparr>ss_projected_through := max (ss_projected_through st) (se_byte_offset e)\<rparr>"
  define r1 where "r1 = r\<lparr>rd_state := ?thr (rd_state r)\<rparr>"
  define v1 where "v1 = sp_through e v"
  have r1: "sim db (me, child_of, s, P) {} r1 v1"
    using sim_state [OF sim, of ?thr] by (simp add: r1_def v1_def sp_through_def)
  have at: "at_event e v1" unfolding v1_def by (rule at_event_through [OF ok off(2)])
  have known1: "prompt_known i v1 \<longleftrightarrow> i \<in> P \<or> committed_prompt i" for i
    using known by (simp add: v1_def sp_through_def prompt_known_def)
  obtain e' w where c: "sp_correlate env e v1 = (e', w)" by fastforce
  define w' where "w' = w\<lparr>tl_links := tl_links w \<union> links_of env me child_of e'\<rparr>"
  have k: "keeps v1 w" using keeps_correlate [of v1 env e] at c by (simp add: at_event_def)
  have "keeps w w'" using keepsD(1) [OF k] unfolding w'_def by (intro keeps_same) (simp_all add: tl_ok_btm)
  with k have k': "keeps v1 w'" by (rule keeps_trans)
  have e': "se_byte_offset e' = se_byte_offset e" using correlated_offset [of env e v1] c by simp
  have at': "at_event e' w'" using at_event_keeps [OF at k'] e' by (simp add: at_event_def)
  have known': "prompt_known i w' \<longleftrightarrow> i \<in> P \<or> committed_prompt i" for i
    using known1 prompt_known_keeps [OF k'] by blast
  have s: "s < se_byte_offset e'" using off e' by linarith
  let ?p = "is_real_user_prompt e'"
  have rest: "runs (case (if ?p then se_event_uuid e' else None) of
          None \<Rightarrow> place_event be e' ?p r2
        | Some i \<Rightarrow>
            res_bind (if i \<in> rd_prompts r2 then Inr True else be_prompt_seen be i) (\<lambda>seen.
              if seen then Inr r2
              else place_event be e' ?p (r2\<lparr>rd_prompts := insert i (rd_prompts r2)\<rparr>)))
      (\<lambda>r'. follows me child_of s r' (case (if ?p then se_event_uuid e' else None) of
             None \<Rightarrow> sp_place me child_of e' ?p w'
           | Some i \<Rightarrow> if prompt_known i w' then w' else sp_place me child_of e' ?p w'))"
    if r2: "sim db (me, child_of, s, P) {} r2 w'" for r2
  proof (cases "if ?p then se_event_uuid e' else None")
    case None
    then have "runs (place_event be e' ?p r2) (\<lambda>r'. follows me child_of s r' (sp_place me child_of e' ?p w'))"
      using known' by (intro follows_place [OF r2 at' s]) (auto split: if_splits)
    with None show ?thesis by simp
  next
    case (Some i)
    then have p: "?p" "se_event_uuid e' = Some i" by (auto split: if_splits)
    have seen: "(if i \<in> rd_prompts r2 then Inr True else be_prompt_seen be i) = Inr (prompt_known i w')"
      using known' [of i] sim_prompts(1) [OF r2] by (simp add: prompt_read)
    have "runs (place_event be e' ?p (r2\<lparr>rd_prompts := insert i P\<rparr>))
        (\<lambda>r'. follows me child_of s r' (sp_place me child_of e' ?p w'))"
      using known' p by (intro follows_place [OF sim_prompts(2) [OF r2] at' s]) auto
    moreover have "follows me child_of s r2 w'" using r2 known' unfolding follows_def by blast
    ultimately show ?thesis using Some seen sim_prompts(1) [OF r2] by simp
  qed
  have inh: "follows me child_of s r1 v1" using r1 known1 unfolding follows_def by blast
  have spec: "sp_apply env me child_of e v = (if se_subtype e = Some ''inherited_history'' then v1 else
      case (if ?p then se_event_uuid e' else None) of
             None \<Rightarrow> sp_place me child_of e' ?p w'
           | Some i \<Rightarrow> if prompt_known i w' then w' else sp_place me child_of e' ?p w')"
    by (simp only: sp_apply_def Let_def v1_def [symmetric] c prod.case w'_def)
  have links: "sim db (me, child_of, s, P) {} (record_links env e' r2) w'"
    if "sim db (me, child_of, s, P) {} r2 w" for r2
    using sim_links [OF that] sim_session [OF that] by (simp add: record_links_eq w'_def)
  have corr: "runs (correlate_runtime env be e r1) (\<lambda>(x, r2). x = e' \<and> sim db (me, child_of, s, P) {} r2 w)"
    using sim_correlate [OF r1, of e env] off by (simp add: c)
  have "runs (res_bind (correlate_runtime env be e r1) (\<lambda>(e, r).
        let r = record_links env e r;
            is_prompt = is_real_user_prompt e in
        case (if is_prompt then se_event_uuid e else None) of
          None \<Rightarrow> place_event be e is_prompt r
        | Some i \<Rightarrow>
            res_bind (if i \<in> rd_prompts r then Inr True else be_prompt_seen be i) (\<lambda>seen.
              if seen then Inr r
              else place_event be e is_prompt (r\<lparr>rd_prompts := insert i (rd_prompts r)\<rparr>))))
      (\<lambda>r'. follows me child_of s r' (case (if ?p then se_event_uuid e' else None) of
             None \<Rightarrow> sp_place me child_of e' ?p w'
           | Some i \<Rightarrow> if prompt_known i w' then w' else sp_place me child_of e' ?p w'))"
  proof (rule runs_bindI [OF corr], clarify)
    fix r2 assume "sim db (me, child_of, s, P) {} r2 w"
    from rest [OF links [OF this]]
    show "runs (let r = record_links env e' r2; is_prompt = ?p in
        case (if is_prompt then se_event_uuid e' else None) of
          None \<Rightarrow> place_event be e' is_prompt r
        | Some i \<Rightarrow>
            res_bind (if i \<in> rd_prompts r then Inr True else be_prompt_seen be i) (\<lambda>seen.
              if seen then Inr r
              else place_event be e' is_prompt (r\<lparr>rd_prompts := insert i (rd_prompts r)\<rparr>)))
      (\<lambda>r'. follows me child_of s r' (case (if ?p then se_event_uuid e' else None) of
             None \<Rightarrow> sp_place me child_of e' ?p w'
           | Some i \<Rightarrow> if prompt_known i w' then w' else sp_place me child_of e' ?p w'))"
      unfolding Let_def .
  qed
  then show ?thesis
    unfolding apply_event_def spec r1_def [symmetric] Let_def using inh by (simp del: runs_simps(3))
qed

lemma follows_events:
  assumes "follows me child_of s r v" "tl_ok v" "s \<le> ss_projected_through (tl_state v)"
    "ordered_after (ss_projected_through (tl_state v)) es"
  shows "runs (apply_events env be es r) (\<lambda>r'. follows me child_of s r' (sp_applies env me child_of es v))"
  using assms
proof (induction es arbitrary: r v)
  case (Cons e es)
  have p: "placed e v (sp_apply env me child_of e v)" using Cons.prems by (intro placed_apply) simp_all
  have "runs (apply_event env be e r) (\<lambda>r'. follows me child_of s r' (sp_apply env me child_of e v))"
    using Cons.prems by (intro follows_event) simp_all
  then have "runs (res_bind (apply_event env be e r) (res_fold (apply_event env be) es))
      (\<lambda>r'. follows me child_of s r' (sp_applies env me child_of es (sp_apply env me child_of e v)))"
    by (rule runs_bindI)
      (use Cons.IH [of _ "sp_apply env me child_of e v"] Cons.prems p in \<open>simp add: placed_def apply_events_def\<close>)
  then show ?case by (simp add: apply_events_def sp_applies_def del: runs_simps(3))
qed (simp add: apply_events_def sp_applies_def)

end

end
