(* ===== verification/Timeline_Persist.thy ===== *)
theory Timeline_Persist
  imports Timeline_Apply
begin

text \<open>
  What a batch writes. The writer of \<open>Timeline_Store\<close> applied to the changes of a reducer that
  follows a timeline leaves exactly the rows of that timeline, and the file touches its operations
  name; no statement of the batch fails.
\<close>

section \<open>Rows chosen by key\<close>

definition chosen :: "('k::linorder, 'v) btree_map \<Rightarrow> 'k set \<Rightarrow> 'v list" where
  "chosen C K = List.map_filter (map_of C) (sorted_list_of_set K)"

lemma map_filter_all:
  "\<forall>k \<in> set ks. k \<in> dom m \<Longrightarrow> List.map_filter m ks = map (\<lambda>k. the (m k)) ks"
  by (induction ks) (auto simp: List.map_filter_simps)

lemma chosen_map:
  assumes "K \<subseteq> dom (map_of C)"
  shows "chosen C K = map (\<lambda>k. the (map_of C k)) (sorted_list_of_set K)"
proof -
  have "finite K" using assms finite_dom_map_of finite_subset by blast
  then show ?thesis unfolding chosen_def using assms by (intro map_filter_all) auto
qed

lemma set_chosen:
  assumes "K \<subseteq> dom (map_of C)"
  shows "x \<in> set (chosen C K) \<longleftrightarrow> (\<exists>k \<in> K. map_of C k = Some x)"
proof -
  have "finite K" using assms finite_dom_map_of finite_subset by blast
  then have "set (chosen C K) = (\<lambda>k. the (map_of C k)) ` K" by (simp add: chosen_map [OF assms])
  then show ?thesis using assms by force
qed

lemma map_of_chosen:
  assumes "K \<subseteq> dom (map_of C)" "\<And>k x. map_of C k = Some x \<Longrightarrow> key x = k"
  shows "map_of (map (\<lambda>x. (key x, x)) (chosen C K)) = map_of C |` K"
    "map key (chosen C K) = sorted_list_of_set K" "distinct (map key (chosen C K))"
proof -
  have fin: "finite K" using assms(1) finite_dom_map_of finite_subset by blast
  have key: "key (the (map_of C k)) = k" if "k \<in> K" for k using assms that by force
  show keys: "map key (chosen C K) = sorted_list_of_set K"
    unfolding chosen_map [OF assms(1)] using key fin by (simp add: list_eq_iff_nth_eq) (metis length_sorted_list_of_set nth_mem set_sorted_list_of_set)
  then show "distinct (map key (chosen C K))" by simp
  then have dist: "distinct (map fst (map (\<lambda>x. (key x, x)) (chosen C K)))" by (simp add: comp_def)
  show "map_of (map (\<lambda>x. (key x, x)) (chosen C K)) = map_of C |` K"
  proof
    fix k
    have "map_of (map (\<lambda>x. (key x, x)) (chosen C K)) k = Some x \<longleftrightarrow> (map_of C |` K) k = Some x" for x
      using set_chosen [OF assms(1)] assms(2)
      by (auto simp: map_of_eq_Some_iff [OF dist] restrict_map_def)
    then show "map_of (map (\<lambda>x. (key x, x)) (chosen C K)) k = (map_of C |` K) k"
      by (metis option.exhaust)
  qed
qed

section \<open>Turns and items\<close>

lemma turn_refreshed_static: "turn_static new = turn_static old \<Longrightarrow> turn_refreshed old new = new"
  by (cases old, cases new) (simp add: turn_static_def turn_refreshed_def)

lemma upsert_turns:
  assumes "\<forall>row \<in> set rows. \<forall>old. map_of (tb_turns db) (tr_turn_id row) = Some old \<longrightarrow> turn_static row = turn_static old"
    "distinct (map tr_turn_id rows)"
  shows "fold upsert_turn rows db = db\<lparr>tb_turns := merge (tb_turns db) (map (\<lambda>row. (tr_turn_id row, row)) rows)\<rparr>"
  using assms
proof (induction rows arbitrary: db)
  case (Cons row rows)
  have "upsert_turn row db = db\<lparr>tb_turns := btm_insert (tr_turn_id row) row (tb_turns db)\<rparr>"
    using Cons.prems(1)
    by (auto simp: upsert_turn_def turn_refreshed_static split: option.split)
  moreover have "\<forall>x \<in> set rows. tr_turn_id x \<noteq> tr_turn_id row" using Cons.prems(2) by (auto simp: image_iff)
  ultimately show ?case using Cons by (simp add: merge_def)
qed (simp add: merge_def)

lemma turns_sim_persist:
  assumes sim: "turns_sim T C D V" and key: "\<And>t row. map_of V t = Some row \<Longrightarrow> tr_turn_id row = t"
  shows "\<forall>row \<in> set (chosen C D). \<forall>old. map_of T (tr_turn_id row) = Some old \<longrightarrow> turn_static row = turn_static old"
    "distinct (map tr_turn_id (chosen C D))"
    "merge T (map (\<lambda>row. (tr_turn_id row, row)) (chosen C D)) = V"
proof -
  have D: "D \<subseteq> dom (map_of C)" using sim by (simp add: turns_sim_def)
  have C: "tr_turn_id row = t" if "map_of C t = Some row" for t row
    using key turns_sim_lookup [OF sim, of t] that by simp
  note ch = map_of_chosen [OF D C]
  show "\<forall>row \<in> set (chosen C D). \<forall>old. map_of T (tr_turn_id row) = Some old \<longrightarrow> turn_static row = turn_static old"
    using set_chosen [OF D] C sim unfolding turns_sim_def by metis
  show "distinct (map tr_turn_id (chosen C D))" by (rule ch)
  show "merge T (map (\<lambda>row. (tr_turn_id row, row)) (chosen C D)) = V"
  proof (rule btm_ext)
    have "map_of T ++ (map_of C |` D) = map_of V"
    proof
      fix t
      show "(map_of T ++ (map_of C |` D)) t = map_of V t"
        using sim turns_sim_lookup [OF sim, of t]
        by (cases "t \<in> D"; cases "map_of C t") (auto simp: map_add_def turns_sim_def)
    qed
    then show "map_of (merge T (map (\<lambda>row. (tr_turn_id row, row)) (chosen C D))) = map_of V"
      using ch by (subst map_of_merge) (simp_all add: comp_def)
  qed (use sim in \<open>simp_all add: turns_sim_def\<close>)
qed

lemma insert_items: "fold insert_item items db = db\<lparr>tb_items := fold add_item items (tb_items db)\<rparr>"
  by (induction items arbitrary: db) (auto simp: insert_item_def add_item_def)

section \<open>Operations\<close>

lemma op_refreshed_static:
  "op_static new = op_static old \<Longrightarrow> inp \<or> op_input new = op_input old \<Longrightarrow> op_refreshed inp old new = new"
  by (cases old, cases new) (auto simp: op_static_def op_refreshed_def)

lemma insert_operations:
  assumes "\<forall>op \<in> set ops. map_of (tb_ops db) (op_key op) = None" "distinct (map op_key ops)"
  shows "res_fold insert_operation ops db =
    Inr (db\<lparr>tb_ops := merge (tb_ops db) (map (\<lambda>op. (op_key op, op)) ops)\<rparr>)"
  using assms
proof (induction ops arbitrary: db)
  case (Cons op ops)
  have "insert_operation op db = Inr (db\<lparr>tb_ops := btm_insert (op_key op) op (tb_ops db)\<rparr>)"
    using Cons.prems(1) by (simp add: insert_operation_def guard_def)
  moreover have "\<forall>x \<in> set ops. op_key x \<noteq> op_key op" using Cons.prems(2) by (auto simp: image_iff)
  ultimately show ?case using Cons by (simp add: merge_def)
qed (simp add: merge_def)

lemma update_operations:
  assumes "\<forall>(op, inp) \<in> set ups. \<exists>old. map_of (tb_ops db) (op_key op) = Some old \<and> op_refreshed inp old op = op"
    "distinct (map (op_key \<circ> fst) ups)"
  shows "fold update_operation ups db = db\<lparr>tb_ops := merge (tb_ops db) (map (\<lambda>op. (op_key op, op)) (map fst ups))\<rparr>"
  using assms
proof (induction ups arbitrary: db)
  case (Cons up ups)
  obtain op inp where up: "up = (op, inp)" by (cases up)
  have "update_operation up db = db\<lparr>tb_ops := btm_insert (op_key op) op (tb_ops db)\<rparr>"
    using Cons.prems(1) up by (auto simp: update_operation_def)
  moreover have "\<forall>(x, inp) \<in> set ups. \<exists>old.
      map_of (tb_ops (db\<lparr>tb_ops := btm_insert (op_key op) op (tb_ops db)\<rparr>)) (op_key x) = Some old
      \<and> op_refreshed inp old x = x"
  proof (clarify)
    fix x inp' assume x: "(x, inp') \<in> set ups"
    then have "op_key x \<noteq> op_key op" using Cons.prems(2) by (force simp: up)
    then show "\<exists>old. map_of (tb_ops (db\<lparr>tb_ops := btm_insert (op_key op) op (tb_ops db)\<rparr>)) (op_key x) = Some old
        \<and> op_refreshed inp' old x = x"
      using Cons.prems(1) x by force
  qed
  ultimately show ?case
    using Cons.IH [of "db\<lparr>tb_ops := btm_insert (op_key op) op (tb_ops db)\<rparr>"] Cons.prems(2)
    by (simp add: merge_def up)
qed (simp add: merge_def)

lemma fst_updated:
  "map fst (List.map_filter (\<lambda>k. map_option (\<lambda>op. (op, k \<in> I)) (m k)) ks) = List.map_filter m ks"
  by (induction ks) (auto simp: List.map_filter_simps split: option.split)

lemma set_updated:
  assumes "x \<in> set (List.map_filter (\<lambda>k. map_option (\<lambda>op. (op, k \<in> I)) (m k)) ks)"
  shows "\<exists>k \<in> set ks. m k = Some (fst x) \<and> snd x = (k \<in> I)"
  using assms by (induction ks) (auto simp: List.map_filter_simps split: option.splits)

lemma ops_sim_persist:
  assumes sim: "ops_sim T s C N U I B Q V"
    and ups: "ups = List.map_filter (\<lambda>k. map_option (\<lambda>op. (op, k \<in> I)) (map_of C k))
      (filter (\<lambda>k. k \<notin> N) (sorted_list_of_set U))"
    and T': "T' = merge T (map (\<lambda>op. (op_key op, op)) (chosen C N))"
  shows "\<forall>op \<in> set (chosen C N). map_of T (op_key op) = None" "distinct (map op_key (chosen C N))"
    "\<forall>(op, inp) \<in> set ups. \<exists>old. map_of T' (op_key op) = Some old \<and> op_refreshed inp old op = op"
    "distinct (map (op_key \<circ> fst) ups)"
    "merge T' (map (\<lambda>op. (op_key op, op)) (map fst ups)) = V"
proof -
  note D = ops_simD [OF sim]
  have N: "N \<subseteq> dom (map_of C)" and U: "U \<subseteq> dom (map_of C)" "U \<inter> N = {}" using D(8,9) by auto
  note new = map_of_chosen [OF N D(6)] and upd = map_of_chosen [OF U(1) D(6)]
  have fin: "finite U" using U(1) finite_dom_map_of finite_subset by blast
  have "filter (\<lambda>k. k \<notin> N) (sorted_list_of_set U) = sorted_list_of_set U"
    using U(2) fin by (intro filter_True) auto
  then have fsts: "map fst ups = chosen C U" and
    ups': "x \<in> set ups \<Longrightarrow> \<exists>k \<in> U. map_of C k = Some (fst x) \<and> snd x = (k \<in> I)" for x
    unfolding ups chosen_def using set_updated [of x I "map_of C" "sorted_list_of_set U" for x] fin
    by (auto simp: fst_updated)
  show "\<forall>op \<in> set (chosen C N). map_of T (op_key op) = None"
  proof
    fix op assume "op \<in> set (chosen C N)"
    then obtain k where "k \<in> N" "map_of C k = Some op" using set_chosen [OF N] by blast
    then show "map_of T (op_key op) = None" using D(6) [of k op] D(8) by auto
  qed
  show "distinct (map op_key (chosen C N))" by (rule new)
  have "map (op_key \<circ> fst) ups = map op_key (chosen C U)" using fsts by (metis map_map)
  then show "distinct (map (op_key \<circ> fst) ups)" using upd by simp
  have T'': "map_of T' = map_of T ++ (map_of C |` N)"
    unfolding T' using new by (subst map_of_merge) (simp_all add: comp_def)
  show "\<forall>(op, inp) \<in> set ups. \<exists>old. map_of T' (op_key op) = Some old \<and> op_refreshed inp old op = op"
  proof (clarify)
    fix op inp assume "(op, inp) \<in> set ups"
    then obtain k where k: "k \<in> U" "map_of C k = Some op" "inp = (k \<in> I)" using ups' by fastforce
    have key: "op_key op = k" using D(6) [OF k(2)] .
    obtain old where old: "map_of T k = Some old" using D(9) k(1) by blast
    have "op_static op = op_static old" "inp \<or> op_input op = op_input old"
      using D(7) [OF k(2)] old k(3) by (auto simp: cached_as_def)
    moreover have "k \<notin> N" using k(1) U(2) by blast
    ultimately show "\<exists>old. map_of T' (op_key op) = Some old \<and> op_refreshed inp old op = op"
      using old op_refreshed_static by (auto simp: T'' key map_add_def restrict_map_def)
  qed
  show "merge T' (map (\<lambda>op. (op_key op, op)) (map fst ups)) = V"
  proof (rule btm_ext)
    have "(map_of T ++ (map_of C |` N)) ++ (map_of C |` U) = map_of V"
    proof
      fix k
      have "map_of T k = Some op" if "map_of C k = Some op" "k \<notin> N" "k \<notin> U" for op
        using D(7) [OF that(1)] that D(8) by (auto simp: cached_as_def split: option.splits)
      then show "((map_of T ++ (map_of C |` N)) ++ (map_of C |` U)) k = map_of V k"
        using ops_sim_lookup [OF sim, of k] N U(1)
        by (cases "map_of C k") (auto simp: map_add_def restrict_map_def split: option.splits)
    qed
    then show "map_of (merge T' (map (\<lambda>op. (op_key op, op)) (map fst ups))) = map_of V"
      using upd by (subst map_of_merge) (simp_all add: fsts T'' comp_def)
  qed (use D(1,4) in \<open>simp_all add: T'\<close>)
qed

section \<open>File touches\<close>

text \<open>
  The touches of an operation are numbered from its own block of 1024 ordinals, so the operation a
  row belongs to can be read off its key.
\<close>

definition touch_at :: "file_touch list \<Rightarrow> op_key \<Rightarrow> (op_key \<times> file_touch) option" where
  "touch_at ts = (\<lambda>(t, x).
     (let i = nat (x mod int TOUCHES_PER_OPERATION) in
      if i < length ts then Some ((t, x div int TOUCHES_PER_OPERATION), ts ! i) else None))"

definition touch_owner :: "op_key \<Rightarrow> op_key" where
  "touch_owner = (\<lambda>(t, x). (t, x div int TOUCHES_PER_OPERATION))"

definition touches_of ::
  "file_system \<Rightarrow> file_touch_context option \<Rightarrow> (op_key, op_row) btree_map \<Rightarrow> op_key \<Rightarrow>
   (op_key \<times> file_touch) option" where
  "touches_of fs context ops k =
     (case map_of ops (touch_owner k) of
        None \<Rightarrow> None
      | Some op \<Rightarrow> touch_at (extract_file_touches fs (op_pair op) context) k)"

definition touches_keyed :: "(op_key, op_key \<times> file_touch) btree_map \<Rightarrow> bool" where
  "touches_keyed m \<longleftrightarrow> btm_ok m \<and> (\<forall>k x. map_of m k = Some x \<longrightarrow> fst x = touch_owner k)"

lemma touch_at_owner: "touch_at ts k = Some x \<Longrightarrow> fst x = touch_owner k"
  by (auto simp: touch_at_def touch_owner_def Let_def split: if_splits prod.splits)

definition touch_rows :: "int \<Rightarrow> int \<Rightarrow> (nat \<times> file_touch) list \<Rightarrow> (op_key, op_key \<times> file_touch) btree_map" where
  "touch_rows t n xs = map (\<lambda>(i, f). ((t, n * int TOUCHES_PER_OPERATION + int i), ((t, n), f))) xs"

lemma insert_touches:
  assumes "\<forall>x \<in> set (touch_rows t n xs). map_of (tb_touches db) (fst x) = None" "distinct (map fst xs)"
  shows "res_fold (insert_touch t n) xs db = Inr (db\<lparr>tb_touches := merge (tb_touches db) (touch_rows t n xs)\<rparr>)"
  using assms
proof (induction xs arbitrary: db)
  case (Cons x xs)
  obtain i f where x: "x = (i, f)" by (cases x)
  let ?k = "(t, n * int TOUCHES_PER_OPERATION + int i)"
  let ?db = "db\<lparr>tb_touches := btm_insert ?k ((t, n), f) (tb_touches db)\<rparr>"
  have "insert_touch t n x db = Inr ?db"
    using Cons.prems(1) by (simp add: insert_touch_def guard_def x touch_rows_def)
  moreover have "\<forall>y \<in> set (touch_rows t n xs). map_of (tb_touches ?db) (fst y) = None"
    using Cons.prems by (auto simp: touch_rows_def x image_iff)
  ultimately show ?case
    using Cons.IH [of ?db] Cons.prems(2) by (simp add: touch_rows_def x merge_def)
qed (simp add: merge_def touch_rows_def)

lemma touch_rows_at:
  "map_of (touch_rows t n (take TOUCHES_PER_OPERATION (enumerate 0 ts))) k =
    (if touch_owner k = (t, n) then touch_at ts k else None)"
proof -
  let ?xs = "take TOUCHES_PER_OPERATION (enumerate 0 ts)" and ?m = "int TOUCHES_PER_OPERATION"
  have xs: "(i, f) \<in> set ?xs \<longleftrightarrow> i < length ts \<and> i < TOUCHES_PER_OPERATION \<and> f = ts ! i" for i f
    by (auto simp: in_set_conv_nth nth_enumerate_eq)
  have "distinct (map fst ?xs)" by (simp add: take_map [symmetric])
  then have dist: "distinct (map fst (touch_rows t n ?xs))"
    by (auto simp: touch_rows_def distinct_map inj_on_def split_beta)
  obtain t' x where k: "k = (t', x)" by (cases k)
  have m: "0 < ?m" by (simp add: TOUCHES_PER_OPERATION_def)
  have "map_of (touch_rows t n ?xs) k = Some y \<longleftrightarrow>
      (if touch_owner k = (t, n) then touch_at ts k else None) = Some y" for y
  proof -
    have "map_of (touch_rows t n ?xs) k = Some y \<longleftrightarrow>
        (\<exists>i < TOUCHES_PER_OPERATION. i < length ts \<and> t' = t \<and> x = n * ?m + int i \<and> y = ((t, n), ts ! i))"
    proof -
      have "(k, y) \<in> set (touch_rows t n ?xs) \<longleftrightarrow>
          (\<exists>i f. (i, f) \<in> set ?xs \<and> (k, y) = ((t, n * ?m + int i), ((t, n), f)))"
        unfolding touch_rows_def by (force simp: image_iff)
      then show ?thesis unfolding map_of_eq_Some_iff [OF dist] k xs by blast
    qed
    also have "\<dots> \<longleftrightarrow> t' = t \<and> x div ?m = n \<and> nat (x mod ?m) < length ts \<and> y = ((t, n), ts ! nat (x mod ?m))"
    proof (intro iffI; elim exE conjE)
      fix i assume i: "i < TOUCHES_PER_OPERATION" "i < length ts" "t' = t" "x = n * ?m + int i" "y = ((t, n), ts ! i)"
      then have "x div ?m = n" "x mod ?m = int i" by (simp_all add: div_add1_eq)
      with i show "t' = t \<and> x div ?m = n \<and> nat (x mod ?m) < length ts \<and> y = ((t, n), ts ! nat (x mod ?m))" by simp
    next
      assume "t' = t" "x div ?m = n" "nat (x mod ?m) < length ts" "y = ((t, n), ts ! nat (x mod ?m))"
      moreover have "x = x div ?m * ?m + int (nat (x mod ?m))" using m by simp
      moreover have "nat (x mod ?m) < TOUCHES_PER_OPERATION"
        using m pos_mod_bound [of ?m x] by (simp add: nat_less_iff)
      ultimately show "\<exists>i < TOUCHES_PER_OPERATION. i < length ts \<and> t' = t \<and> x = n * ?m + int i \<and> y = ((t, n), ts ! i)"
        by blast
    qed
    finally show ?thesis by (auto simp: touch_owner_def touch_at_def k Let_def)
  qed
  then show ?thesis by (metis option.exhaust)
qed

lemma replace_touches:
  assumes "touches_keyed (tb_touches db)"
  shows "runs (replace_file_touches (t, n, ts) db) (\<lambda>db'. \<exists>m. db' = db\<lparr>tb_touches := m\<rparr> \<and> touches_keyed m
    \<and> map_of m = (\<lambda>k. if touch_owner k = (t, n) then touch_at ts k else map_of (tb_touches db) k))"
proof -
  let ?rows = "touch_rows t n (take TOUCHES_PER_OPERATION (enumerate 0 ts))"
  define kept where "kept = filter (\<lambda>kv. fst (snd kv) \<noteq> (t, n)) (tb_touches db)"
  have ok: "btm_ok (tb_touches db)" and own: "\<And>k x. map_of (tb_touches db) k = Some x \<Longrightarrow> fst x = touch_owner k"
    using assms unfolding touches_keyed_def by blast+
  have kept: "map_of kept k = (if touch_owner k = (t, n) then None else map_of (tb_touches db) k)" for k
    using map_of_btm_filter [OF ok, of "\<lambda>x. fst x \<noteq> (t, n)" k] own [of k] unfolding kept_def
    by (metis (no_types, lifting) not_None_eq)
  have filt: "filter (\<lambda>(_, key, _). key \<noteq> (t, n)) (tb_touches db) = kept"
    unfolding kept_def by (rule filter_cong) auto
  have rows: "touch_owner (fst x) = (t, n)" if "x \<in> set ?rows" for x
  proof -
    have "map_of ?rows (fst x) \<noteq> None" using that by (simp add: map_of_eq_None_iff)
    then show ?thesis unfolding touch_rows_at by (meson option.distinct)
  qed
  have "distinct (map fst (take TOUCHES_PER_OPERATION (enumerate 0 ts)))" by (simp add: take_map [symmetric])
  then have res: "replace_file_touches (t, n, ts) db = Inr (db\<lparr>tb_touches := merge kept ?rows\<rparr>)"
    using insert_touches [of t n _ "db\<lparr>tb_touches := kept\<rparr>"] rows kept
    by (simp add: replace_file_touches_def Let_def filt)
  have dist: "distinct (map fst ?rows)"
  proof -
    have "distinct (map fst (take TOUCHES_PER_OPERATION (enumerate 0 ts)))" by (simp add: take_map [symmetric])
    then show ?thesis by (auto simp: touch_rows_def distinct_map inj_on_def split_beta)
  qed
  have m: "map_of (merge kept ?rows) = (\<lambda>k. if touch_owner k = (t, n) then touch_at ts k else map_of (tb_touches db) k)"
    unfolding map_of_merge [OF dist] by (rule ext) (simp add: map_add_def touch_rows_at kept split: option.split)
  have "btm_ok (merge kept ?rows)" using btm_ok_filter [OF ok] by (simp add: kept_def)
  moreover have "fst x = touch_owner k" if "map_of (merge kept ?rows) k = Some x" for k x
    using that own touch_at_owner unfolding m by (metis (full_types))
  ultimately show ?thesis unfolding res touches_keyed_def using m by auto
qed

lemma replace_all_touches:
  assumes "touches_keyed (tb_touches db)" "distinct (map (\<lambda>(t, n, _). (t, n)) xs)"
  shows "runs (res_fold replace_file_touches xs db) (\<lambda>db'. \<exists>m. db' = db\<lparr>tb_touches := m\<rparr> \<and> touches_keyed m
    \<and> map_of m = (\<lambda>k. case map_of (map (\<lambda>(t, n, ts). ((t, n), ts)) xs) (touch_owner k) of
        Some ts \<Rightarrow> touch_at ts k | None \<Rightarrow> map_of (tb_touches db) k))"
  using assms
proof (induction xs arbitrary: db)
  case (Cons x xs)
  obtain t n ts where x: "x = (t, n, ts)" by (cases x)
  have "map_of (map (\<lambda>(t, n, ts). ((t, n), ts)) xs) (t, n) = None"
    using Cons.prems(2) by (force simp: x map_of_eq_None_iff)
  then have cons: "(\<lambda>k. case map_of (map (\<lambda>(t, n, ts). ((t, n), ts)) xs) (touch_owner k) of
        Some ts \<Rightarrow> touch_at ts k
      | None \<Rightarrow> if touch_owner k = (t, n) then touch_at ts k else map_of (tb_touches db) k) =
      (\<lambda>k. case map_of (map (\<lambda>(t, n, ts). ((t, n), ts)) (x # xs)) (touch_owner k) of
        Some ts \<Rightarrow> touch_at ts k | None \<Rightarrow> map_of (tb_touches db) k)"
    by (auto simp: x fun_eq_iff split: option.split)
  have "distinct (map (\<lambda>(t, n, _). (t, n)) xs)" using Cons.prems(2) by simp
  note IH = Cons.IH [OF _ this]
  show ?case
    unfolding res_fold.simps
  proof (rule runs_bindI [OF replace_touches [OF Cons.prems(1), of t n ts, folded x]], elim exE conjE)
    fix db' m
    assume m: "db' = db\<lparr>tb_touches := m\<rparr>" "touches_keyed m"
      "map_of m = (\<lambda>k. if touch_owner k = (t, n) then touch_at ts k else map_of (tb_touches db) k)"
    show "runs (res_fold replace_file_touches xs db') (\<lambda>db'. \<exists>m. db' = db\<lparr>tb_touches := m\<rparr> \<and> touches_keyed m
      \<and> map_of m = (\<lambda>k. case map_of (map (\<lambda>(t, n, ts). ((t, n), ts)) (x # xs)) (touch_owner k) of
        Some ts \<Rightarrow> touch_at ts k | None \<Rightarrow> map_of (tb_touches db) k))"
      unfolding cons [symmetric] using IH [of "db\<lparr>tb_touches := m\<rparr>"] m by (simp cong: option.case_cong)
  qed
next
  case Nil
  then show ?case by simp (rule exI [of _ "tb_touches db"], simp)
qed

lemma extract_static:
  assumes "op_static a = op_static b" "op_input a = op_input b"
  shows "extract_file_touches fs (op_pair a) context = extract_file_touches fs (op_pair b) context"
proof -
  have eq: "tp_name (op_pair a) = tp_name (op_pair b)" "tp_operation_type (op_pair a) = tp_operation_type (op_pair b)"
    "tp_input (op_pair a) = tp_input (op_pair b)"
    using assms by (simp_all add: op_pair_def op_static_def)
  then have "pair_operation_type (op_pair a) = pair_operation_type (op_pair b)"
    by (simp add: pair_operation_type_def)
  with eq have "touch_kind_for_pair (op_pair a) = touch_kind_for_pair (op_pair b)"
    "is_write_pair (op_pair a) = is_write_pair (op_pair b)" "command_paths (op_pair a) = command_paths (op_pair b)"
    by (simp_all add: touch_kind_for_pair_def is_write_pair_def command_paths_def is_command_pair_def)
  with eq(3) show ?thesis unfolding extract_file_touches_def by (simp only:)
qed

lemma ops_sim_touches:
  assumes sim: "ops_sim T s C N U I B Q V"
    and ks: "ks = map (\<lambda>op. (op_turn_id op, op_operation_ord op, extract_file_touches fs (op_pair op) context))
      (chosen C (N \<union> I))"
  shows "distinct (map (\<lambda>(t, n, _). (t, n)) ks)"
    "(case map_of (map (\<lambda>(t, n, ts). ((t, n), ts)) ks) (touch_owner k) of
        Some ts \<Rightarrow> touch_at ts k | None \<Rightarrow> touches_of fs context T k) = touches_of fs context V k"
proof -
  note D = ops_simD [OF sim]
  have K: "N \<union> I \<subseteq> dom (map_of C)" using D(8-10) by auto
  note ch = map_of_chosen [OF K D(6)]
  have "map (\<lambda>(t, n, _). (t, n)) ks = map op_key (chosen C (N \<union> I))"
    by (simp add: ks op_key_def comp_def)
  then show "distinct (map (\<lambda>(t, n, _). (t, n)) ks)" using ch(3) by simp
  let ?ex = "\<lambda>op. extract_file_touches fs (op_pair op) context"
  have "map (\<lambda>(t, n, ts). ((t, n), ts)) ks = map (\<lambda>(x, op). (x, ?ex op)) (map (\<lambda>op. (op_key op, op)) (chosen C (N \<union> I)))"
    by (simp add: ks op_key_def comp_def)
  then have at: "map_of (map (\<lambda>(t, n, ts). ((t, n), ts)) ks) x = map_option ?ex ((map_of C |` (N \<union> I)) x)" for x
    using ch(1) by (simp only: map_of_map comp_def)
  define own where "own = touch_owner k"
  show "(case map_of (map (\<lambda>(t, n, ts). ((t, n), ts)) ks) (touch_owner k) of
        Some ts \<Rightarrow> touch_at ts k | None \<Rightarrow> touches_of fs context T k) = touches_of fs context V k"
  proof (cases "own \<in> N \<union> I")
    case True
    then obtain op where "map_of C own = Some op" using K by blast
    then show ?thesis
      using True ops_sim_lookup [OF sim, of own] by (simp add: at touches_of_def flip: own_def)
  next
    case False
    have "map_option ?ex (map_of T own) = map_option ?ex (map_of V own)"
    proof (cases "map_of C own")
      case (Some op)
      then obtain old where old: "map_of T own = Some old" using False D(8) by blast
      then have "op_static op = op_static old" "op_input op = op_input old"
        using D(7) [OF Some] False by (auto simp: cached_as_def)
      then show ?thesis using old Some ops_sim_lookup [OF sim, of own] by (simp add: extract_static [of op old])
    qed (simp add: ops_sim_lookup [OF sim])
    then have "touches_of fs context T k = touches_of fs context V k"
      unfolding touches_of_def own_def [symmetric] by (cases "map_of T own"; cases "map_of V own") auto
    with False show ?thesis unfolding own_def [symmetric] at by simp
  qed
qed

section \<open>Usage\<close>

lemma record_usages: "fold record_usage us db = db\<lparr>tb_usage := merge (tb_usage db) us\<rparr>"
  by (induction us arbitrary: db) (auto simp: record_usage_def merge_def)

lemma usage_rows:
  assumes "finite (dom u)"
  shows "distinct (map fst (List.map_filter (\<lambda>i. map_option (Pair i) (u i)) (sorted_list_of_set (dom u))))"
    "map_of (List.map_filter (\<lambda>i. map_option (Pair i) (u i)) (sorted_list_of_set (dom u))) = u"
proof -
  let ?xs = "sorted_list_of_set (dom u)"
  have xs: "List.map_filter (\<lambda>i. map_option (Pair i) (u i)) ?xs = map (\<lambda>i. (i, the (u i))) ?xs"
    using assms by (subst map_filter_all) (auto intro!: map_cong)
  then show "distinct (map fst (List.map_filter (\<lambda>i. map_option (Pair i) (u i)) ?xs))" by (simp add: comp_def)
  show "map_of (List.map_filter (\<lambda>i. map_option (Pair i) (u i)) ?xs) = u"
    unfolding xs map_of_map_restrict using assms by (auto simp: fun_eq_iff restrict_map_def dom_def)
qed

section \<open>A whole batch\<close>

text \<open>
  The tables hold a timeline, and the touches of its operations. \<open>rows_of\<close> reads the timeline back.
\<close>

definition rows_of :: "session_state \<Rightarrow> timeline_tables \<Rightarrow> timeline" where
  "rows_of st db = \<lparr>tl_state = st, tl_turns = tb_turns db, tl_items = tb_items db, tl_ops = tb_ops db,
     tl_usage = map_of (tb_usage db), tl_links = tb_links db\<rparr>"

lemma timeline_of_rows: "timeline_of pj = rows_of (pj_state pj) (pj_tables pj)"
  by (simp add: timeline_of_def rows_of_def)

definition writable :: "timeline_tables \<Rightarrow> bool" where
  "writable db \<longleftrightarrow> btm_ok (tb_usage db) \<and> touches_keyed (tb_touches db)"

definition touches_match :: "file_system \<Rightarrow> file_touch_context option \<Rightarrow> timeline_tables \<Rightarrow> bool" where
  "touches_match fs context db \<longleftrightarrow> map_of (tb_touches db) = touches_of fs context (tb_ops db)"

lemma persist_rows:
  assumes sim: "sim db fx L r v" and ok: "tl_ok v" and db: "writable db"
  shows "runs (persist (into_changes fs context r) db) (\<lambda>db'. rows_of (rd_state r) db' = v \<and> writable db'
    \<and> (touches_match fs context db \<longrightarrow> touches_match fs context db'))"
proof -
  let ?C = "rd_ops r"
  define ups where "ups = List.map_filter (\<lambda>k. map_option (\<lambda>op. (op, k \<in> rd_input_changed r)) (map_of ?C k))
      (filter (\<lambda>k. k \<notin> rd_new_ops r) (sorted_list_of_set (rd_updated_ops r)))"
  define ks where "ks = map (\<lambda>op. (op_turn_id op, op_operation_ord op, extract_file_touches fs (op_pair op) context))
      (chosen ?C (rd_new_ops r \<union> rd_input_changed r))"
  define us where "us = List.map_filter (\<lambda>i. map_option (Pair i) (rd_usage r i)) (sorted_list_of_set (rd_dirty_usage r))"
  have turnkey: "tr_turn_id row = t" if "map_of (tl_turns v) t = Some row" for t row
    using tl_ok_turnD [OF ok that] by blast
  note T = turns_sim_persist [OF simD(3) [OF sim] turnkey]
  note O = ops_sim_persist [OF simD(4) [OF sim] ups_def refl]
  note F = ops_sim_touches [OF simD(4) [OF sim] ks_def]
  have c: "into_changes fs context r = \<lparr>ch_state = rd_state r, ch_turns = chosen (rd_turns r) (rd_dirty_turns r),
      ch_items = rd_items r, ch_new_ops = chosen ?C (rd_new_ops r), ch_updated_ops = ups, ch_touches = ks,
      ch_usage = us, ch_links = rd_links r\<rparr>"
    by (simp add: into_changes_def chosen_def ups_def ks_def us_def)
  define db1 where "db1 = db\<lparr>tb_turns := tl_turns v, tb_items := tl_items v\<rparr>"
  have items: "tl_items v = fold add_item (rd_items r) (tb_items db)" using sim by (simp add: sim_def)
  have d1: "fold insert_item (rd_items r) (fold upsert_turn (chosen (rd_turns r) (rd_dirty_turns r)) db) = db1"
  proof -
    have "fold upsert_turn (chosen (rd_turns r) (rd_dirty_turns r)) db = db\<lparr>tb_turns := tl_turns v\<rparr>"
      using upsert_turns [OF T(1,2)] T(3) by simp
    then show ?thesis by (simp add: insert_items db1_def items)
  qed
  have ops1: "tb_ops db1 = tb_ops db" by (simp add: db1_def)
  define db2 where "db2 = db1\<lparr>tb_ops := tl_ops v\<rparr>"
  let ?mid = "db1\<lparr>tb_ops := merge (tb_ops db1) (map (\<lambda>op. (op_key op, op)) (chosen ?C (rd_new_ops r)))\<rparr>"
  have d2: "res_fold insert_operation (chosen ?C (rd_new_ops r)) db1 = Inr ?mid"
    using O(1,2) by (intro insert_operations) (simp_all add: ops1)
  have d3: "fold update_operation ups ?mid = db2"
    using O(3-5) by (subst update_operations) (simp_all add: ops1 db2_def)
  have keyed: "touches_keyed (tb_touches db2)" "tb_touches db2 = tb_touches db"
    using db by (auto simp: writable_def db2_def db1_def)
  have d4: "runs (res_fold replace_file_touches ks db2) (\<lambda>db'. \<exists>m. db' = db2\<lparr>tb_touches := m\<rparr> \<and> touches_keyed m
      \<and> (touches_match fs context db \<longrightarrow> map_of m = touches_of fs context (tl_ops v)))"
  proof (rule runs_mono [OF replace_all_touches [OF keyed(1) F(1)]], elim exE conjE)
    fix db' m
    assume m: "db' = db2\<lparr>tb_touches := m\<rparr>" "touches_keyed m"
      "map_of m = (\<lambda>k. case map_of (map (\<lambda>(t, n, ts). ((t, n), ts)) ks) (touch_owner k) of
        Some ts \<Rightarrow> touch_at ts k | None \<Rightarrow> map_of (tb_touches db2) k)"
    have "map_of m = touches_of fs context (tl_ops v)" if "touches_match fs context db"
    proof -
      have "map_of (tb_touches db2) = touches_of fs context (tb_ops db)"
        using that keyed(2) by (simp add: touches_match_def)
      then show ?thesis unfolding m(3) using F(2) by (simp only:)
    qed
    then show "\<exists>m. db' = db2\<lparr>tb_touches := m\<rparr> \<and> touches_keyed m
        \<and> (touches_match fs context db \<longrightarrow> map_of m = touches_of fs context (tl_ops v))"
      using m by blast
  qed
  have fin: "rd_dirty_usage r = dom (rd_usage r)" "finite (dom (rd_usage r))" using sim by (simp_all add: sim_def)
  note U = usage_rows [OF fin(2), folded fin(1), folded us_def]
  have usage: "map_of (merge (tb_usage db) us) = tl_usage v"
    using U by (simp add: map_of_merge simD(6) [OF sim])
  have links: "tb_links db \<union> rd_links r = tl_links v" using sim by (simp add: sim_def)
  have st: "tl_state v = rd_state r" by (rule simD(2) [OF sim])
  have final: "rows_of (rd_state r) (let db = fold record_usage us (db2\<lparr>tb_touches := m\<rparr>)
        in db\<lparr>tb_links := tb_links db \<union> rd_links r\<rparr>) = v"
    "writable (let db = fold record_usage us (db2\<lparr>tb_touches := m\<rparr>)
        in db\<lparr>tb_links := tb_links db \<union> rd_links r\<rparr>)"
    "map_of m = touches_of fs context (tl_ops v) \<Longrightarrow>
      touches_match fs context (let db = fold record_usage us (db2\<lparr>tb_touches := m\<rparr>)
        in db\<lparr>tb_links := tb_links db \<union> rd_links r\<rparr>)"
    if "touches_keyed m" for m
    using that usage links st db
    by (simp_all add: record_usages rows_of_def Let_def db2_def db1_def writable_def touches_match_def)
  show ?thesis
    unfolding persist_def c changes.simps Let_def [of "fold upsert_turn _ _"] Let_def [of "fold insert_item _ _"] d1 d2
      res_bind_simps Let_def [of "fold update_operation _ _"] d3
    by (rule runs_bindI [OF d4], elim exE conjE) (use final in \<open>simp add: Let_def\<close>)
qed

end
