(* ===== verification/Timeline_Batch.thy ===== *)
theory Timeline_Batch
  imports Timeline_Persist
begin

text \<open>
  The database queries implement the interface of the reducer, so one batch refines the
  specification, and so does the loop over batches until the projection has caught up.
\<close>

section \<open>The queries\<close>

text \<open>The candidates the query for evidence returns include every call that encloses it.\<close>

lemma rsplit_exec:
  assumes "rsplit_dot s = ''exec''"
  shows "s = ''exec'' \<or> ends_with s ''.exec''"
proof -
  have "takeWhile (\<lambda>c. c \<noteq> CHR ''.'') (rev s) @ dropWhile (\<lambda>c. c \<noteq> CHR ''.'') (rev s) = rev s"
    by (rule takeWhile_dropWhile_id)
  moreover have "takeWhile (\<lambda>c. c \<noteq> CHR ''.'') (rev s) = rev ''exec''"
    using assms by (simp add: rsplit_dot_def rev_swap)
  ultimately have rev: "rev s = rev ''exec'' @ dropWhile (\<lambda>c. c \<noteq> CHR ''.'') (rev s)" by simp
  show ?thesis
  proof (cases "dropWhile (\<lambda>c. c \<noteq> CHR ''.'') (rev s)")
    case Nil
    with rev have "rev s = rev ''exec''" by simp
    then show ?thesis by simp
  next
    case (Cons c cs)
    then have "c = CHR ''.''" using hd_dropWhile [of "\<lambda>c. c \<noteq> CHR ''.''" "rev s"] by simp
    with rev Cons have "rev s = rev ''.exec'' @ cs" by simp
    then show ?thesis unfolding ends_with_def starts_with_iff by blast
  qed
qed

lemma encloses_candidate:
  assumes "encloses op started"
  shows "like_exec (op_raw_name op)" "exec_window started op"
proof -
  obtain s where "op_raw_name op = Some s" "rsplit_dot s = ''exec''"
    using assms by (auto simp: encloses_def tool_short_name_def)
  with rsplit_exec show "like_exec (op_raw_name op)" by (simp add: like_exec_def)
  have ms: "a \<le> b + 1000" if "a div 1000 \<le> b div 1000" for a b :: int using that by linarith
  show "exec_window started op"
    using assms ms by (auto simp: encloses_def exec_window_def timestamp_millis_def split: option.splits)
qed

interpretation pg: timeline_backend "pg_backend db" db for db
proof
  fix started n
  show "runs (be_exec_candidates (pg_backend db) n started) (\<lambda>ops. set ops \<subseteq> snd ` set (tb_ops db)
      \<and> {op \<in> snd ` set (tb_ops db). op_call_offset op < n \<and> encloses op started} \<subseteq> set ops)"
    using encloses_candidate by (auto simp: pg_backend_def pg_ops_def)
qed (auto simp: pg_backend_def pg_ops_def list_ex_iff)

section \<open>One batch\<close>

definition pj_ok :: "projection \<Rightarrow> bool" where
  "pj_ok pj \<longleftrightarrow> tl_ok (timeline_of pj) \<and> writable (pj_tables pj)"

abbreviation touches_right :: "batch_env \<Rightarrow> projection \<Rightarrow> bool" where
  "touches_right env pj \<equiv> touches_match (bt_files env) (bt_context env) (pj_tables pj)"

abbreviation sp_events :: "batch_env \<Rightarrow> stored_event list \<Rightarrow> timeline \<Rightarrow> timeline" where
  "sp_events env \<equiv> sp_applies (bt_reduce env) (bt_session env) (bt_child_of env)"

lemma new_reducer_follows:
  assumes ok: "tl_ok (rows_of st db)"
  shows "pg.follows db me child_of (ss_projected_through st) (reducer_new me st child_of) (rows_of st db)"
proof -
  have rows: "tl_turns (rows_of st db) = tb_turns db" "tl_ops (rows_of st db) = tb_ops db"
    "tl_state (rows_of st db) = st" "tl_items (rows_of st db) = tb_items db"
    "tl_usage (rows_of st db) = map_of (tb_usage db)" "tl_links (rows_of st db) = tb_links db"
    by (simp_all add: rows_of_def)
  have "turns_sim (tb_turns db) [] {} (tb_turns db)"
    using tl_ok_btm(1) [OF ok] by (simp add: turns_sim_def rows)
  moreover have "ops_sim (tb_ops db) (ss_projected_through st) [] {} {} {} (\<lambda>_. {}) {} (tb_ops db)"
    by (rule ops_simI) (use tl_ok_btm(2) [OF ok] tl_ok_opD [OF ok] in \<open>simp_all add: rows\<close>)
  ultimately have "sim db (me, child_of, ss_projected_through st, {}) {} (reducer_new me st child_of) (rows_of st db)"
    by (simp add: sim_def fixed_def reducer_new_def rows)
  moreover have "prompt_known i (rows_of st db) \<longleftrightarrow>
      (\<exists>row \<in> snd ` set (tb_turns db). tr_prompt_event_uuid row = Some i)" for i
    by (simp add: prompt_known_def list_ex_iff rows)
  ultimately show ?thesis unfolding pg.follows_def by blast
qed

lemma batch_refines:
  assumes ok: "pj_ok pj" and ord: "ordered_after (ss_projected_through (pj_state pj)) es"
  shows "\<exists>pj'. reduce_batch env es pj = Inr pj' \<and> timeline_of pj' = sp_events env es (timeline_of pj)
    \<and> pj_ok pj' \<and> (touches_right env pj \<longrightarrow> touches_right env pj') \<and> pj_version pj' = pj_version pj"
proof -
  let ?db = "pj_tables pj" and ?st = "pj_state pj" and ?v = "timeline_of pj"
  let ?w = "sp_events env es ?v"
  have v: "?v = rows_of ?st ?db" by (rule timeline_of_rows)
  have st: "tl_state ?v = ?st" by (simp add: v rows_of_def)
  have tl: "tl_ok ?v" and tab: "writable ?db"
    using ok by (simp_all add: pj_ok_def)
  have "runs (apply_events (bt_reduce env) (pg_backend ?db) es (reducer_new (bt_session env) ?st (bt_child_of env)))
      (\<lambda>r. pg.follows ?db (bt_session env) (bt_child_of env) (ss_projected_through ?st) r ?w)"
    using new_reducer_follows tl ord st unfolding v by (intro pg.follows_events) simp_all
  then obtain r where r: "apply_events (bt_reduce env) (pg_backend ?db) es
        (reducer_new (bt_session env) ?st (bt_child_of env)) = Inr r"
      "pg.follows ?db (bt_session env) (bt_child_of env) (ss_projected_through ?st) r ?w"
    by (auto simp: runs_iff)
  then obtain fx where sim: "sim ?db fx {} r ?w" unfolding pg.follows_def by blast
  have w: "tl_ok ?w" using sp_applies_keep(1) [OF tl, of es] ord st by simp
  obtain db' where db': "persist (into_changes (bt_files env) (bt_context env) r) ?db = Inr db'"
      "rows_of (rd_state r) db' = ?w" "writable db'"
      "touches_match (bt_files env) (bt_context env) ?db \<longrightarrow> touches_match (bt_files env) (bt_context env) db'"
    using persist_rows [OF sim w tab] by (auto simp: runs_iff)
  let ?c = "into_changes (bt_files env) (bt_context env) r"
  define pj' where "pj' = pj\<lparr>pj_tables := db', pj_state := rd_state r,
    pj_revision := pj_revision pj + (if changes_is_empty ?c then 0 else 1)\<rparr>"
  have "reduce_batch env es pj = Inr pj'"
    by (simp add: reduce_batch_def r(1) db'(1) Let_def pj'_def, simp add: into_changes_def)
  moreover have "timeline_of pj' = ?w" using db'(2) by (simp add: timeline_of_rows pj'_def)
  ultimately show ?thesis using w db'(3,4) by (simp add: pj_ok_def) (simp add: pj'_def)
qed

section \<open>Until caught up\<close>

text \<open>The events still to be applied, in the order of their offsets.\<close>

definition pending :: "stored_event list \<Rightarrow> int \<Rightarrow> stored_event list" where
  "pending stored n = sort_key se_byte_offset (filter (\<lambda>e. n < se_byte_offset e) stored)"

lemma pending_ordered:
  assumes "distinct (map se_byte_offset stored)"
  shows "ordered_after n (pending stored n)"
proof -
  have "sorted (map se_byte_offset (pending stored n))" by (simp add: pending_def)
  moreover have "distinct (map se_byte_offset (pending stored n))"
    using assms by (simp add: pending_def distinct_map inj_on_def)
  ultimately have "sorted_wrt (<) (map se_byte_offset (pending stored n))" by (simp add: strict_sorted_iff)
  then show ?thesis by (auto simp: pending_def)
qed

lemma pending_split:
  assumes dist: "distinct (map se_byte_offset stored)" and split: "pending stored n = xs @ ys" "xs \<noteq> []"
  shows "pending stored (se_byte_offset (last xs)) = ys"
proof -
  let ?m = "se_byte_offset (last xs)"
  have sorted: "sorted_wrt (<) (map se_byte_offset (xs @ ys))" and low: "\<forall>e \<in> set (xs @ ys). n < se_byte_offset e"
    using pending_ordered [OF dist, of n] split by auto
  have "n < ?m" using low split(2) by simp
  then have "filter (\<lambda>e. ?m < se_byte_offset e) stored =
      filter (\<lambda>e. ?m < se_byte_offset e) (filter (\<lambda>e. n < se_byte_offset e) stored)"
    by (auto intro!: filter_cong)
  then have "pending stored ?m = filter (\<lambda>e. ?m < se_byte_offset e) (pending stored n)"
    by (simp only: pending_def filter_sort)
  moreover have "se_byte_offset e \<le> ?m" if "e \<in> set xs" for e
  proof -
    have "sorted (map se_byte_offset xs)" using sorted by (simp add: sorted_wrt_append strict_sorted_imp_sorted)
    then show ?thesis using that
      by (cases xs rule: rev_cases) (auto simp: sorted_append)
  qed
  then have "filter (\<lambda>e. ?m < se_byte_offset e) xs = []" by (force simp: filter_empty_conv)
  moreover have "filter (\<lambda>e. ?m < se_byte_offset e) ys = ys"
    using sorted split(2) by (intro filter_True) (auto simp: sorted_wrt_append)
  ultimately show ?thesis using split by simp
qed

lemma empty_timeline_ok: "pj_ok \<lparr>pj_tables = empty_tables\<lparr>tb_links := ls\<rparr>, pj_state = default_state,
    pj_version = ver, pj_revision = rev'\<rparr>"
  by (auto simp: pj_ok_def timeline_of_def empty_tables_def default_state_def writable_def touches_keyed_def
      intro!: tl_okI)

lemma pj_ok_clear_stale: "pj_ok pj \<Longrightarrow> pj_ok (clear_stale pj)"
  using empty_timeline_ok by (simp add: clear_stale_def)

lemma clear_stale_version [simp]: "pj_version (clear_stale pj) = REDUCER_VERSION"
  by (simp add: clear_stale_def)

lemma clear_stale_current [simp]: "pj_version pj = REDUCER_VERSION \<Longrightarrow> clear_stale pj = pj"
  by (simp add: clear_stale_def)

lemma touches_right_clear_stale:
  "touches_right env pj \<Longrightarrow> touches_right env (clear_stale pj)"
  by (auto simp: clear_stale_def touches_match_def empty_tables_def touches_of_def fun_eq_iff)

abbreviation cursor :: "projection \<Rightarrow> int" where
  "cursor pj \<equiv> ss_projected_through (pj_state pj)"

lemma cursor_after:
  assumes "pj_ok pj" "timeline_of pj' = sp_events env es (timeline_of pj)" "ordered_after (cursor pj) es"
  shows "cursor pj' = (if es = [] then cursor pj else se_byte_offset (last es))"
proof -
  have st: "tl_state (timeline_of x) = pj_state x" for x by (simp add: timeline_of_def)
  have "tl_ok (timeline_of pj)" using assms(1) by (simp add: pj_ok_def)
  from sp_applies_keep(3) [OF this, of es] assms(2,3) show ?thesis by (simp add: st [symmetric])
qed

lemma project_batch_refines:
  assumes ok: "pj_ok pj" and live: "\<not> bt_purged env" and dist: "distinct (map se_byte_offset stored)"
    and todo: "todo = pending stored (cursor (clear_stale pj))" and k: "k = min 5000 (max 1 budget)"
  shows "\<exists>pj'. project_batch env stored budget pj = Inr (pj', min (length todo) k, budget \<le> min (length todo) k)
    \<and> timeline_of pj' = sp_events env (take k todo) (timeline_of (clear_stale pj)) \<and> pj_ok pj'
    \<and> (touches_right env pj \<longrightarrow> touches_right env pj')
    \<and> pj_version pj' = REDUCER_VERSION \<and> pending stored (cursor pj') = drop k todo"
proof -
  define q where "q = clear_stale pj"
  let ?es = "take k todo"
  have q: "pj_ok q" "pj_version q = REDUCER_VERSION" "touches_right env pj \<longrightarrow> touches_right env q"
    using pj_ok_clear_stale [OF ok] touches_right_clear_stale by (simp_all add: q_def)
  have es: "events_after (cursor q) budget stored = ?es"
    by (simp add: events_after_def todo pending_def q_def k)
  have "ordered_after (cursor q) todo" unfolding todo q_def by (rule pending_ordered [OF dist])
  then have ord: "ordered_after (cursor q) ?es"
    by (auto simp: take_map [symmetric] sorted_wrt_take dest!: in_set_takeD)
  obtain pj' where b: "reduce_batch env ?es q = Inr pj'" "timeline_of pj' = sp_events env ?es (timeline_of q)"
      "pj_ok pj'" "touches_right env q \<longrightarrow> touches_right env pj'" "pj_version pj' = pj_version q"
    using batch_refines [OF q(1) ord] by blast
  have st: "tl_state (timeline_of x) = pj_state x" for x by (simp add: timeline_of_def)
  have run: "project_batch env stored budget pj = res_bind (if ?es = [] then Inr q else reduce_batch env ?es q)
      (\<lambda>pj. Inr (pj, length ?es, length ?es \<ge> budget))"
    using live by (simp add: project_batch_def Let_def es flip: q_def)
  show ?thesis
  proof (cases "?es = []")
    case True
    then have "todo = []" using k by (auto simp: min_def split: if_splits)
    then show ?thesis using run q todo by (simp add: sp_applies_def q_def)
  next
    case False
    have "tl_ok (timeline_of q)" using q by (simp add: pj_ok_def)
    from sp_applies_keep(3) [OF this, of ?es] ord st
    have "ss_projected_through (tl_state (sp_events env ?es (timeline_of q))) = se_byte_offset (last ?es)"
      using False by simp
    then have "cursor pj' = se_byte_offset (last ?es)" using b(2) st by metis
    moreover have "pending stored (se_byte_offset (last ?es)) = drop k todo"
      using pending_split [OF dist, of "cursor q" ?es "drop k todo"] todo False by (simp add: q_def)
    ultimately show ?thesis using run b q False by (simp add: q_def)
  qed
qed

lemma caught_up:
  assumes "pj_ok pj" and live: "\<not> bt_purged env" and dist: "distinct (map se_byte_offset stored)"
    and "todo = pending stored (cursor (clear_stale pj))"
  shows "\<exists>pj'. project_until_caught_up env stored n pj = Some (Inr (pj', n + length todo))
    \<and> timeline_of pj' = sp_events env todo (timeline_of (clear_stale pj)) \<and> pj_ok pj'
    \<and> (touches_right env pj \<longrightarrow> touches_right env pj')
    \<and> pj_version pj' = REDUCER_VERSION \<and> pending stored (cursor pj') = []"
  using assms(1,4)
proof (induction "length todo" arbitrary: todo pj n rule: less_induct)
  case less
  note unfold = project_until_caught_up.simps [of env stored n pj]
  have k: "(500::nat) = min 5000 (max 1 BATCH_EVENTS)" by (simp add: BATCH_EVENTS_def)
  have bl: "(BATCH_EVENTS \<le> min (length todo) 500) = (500 \<le> length todo)" by (simp add: BATCH_EVENTS_def)
  obtain pj1 where b: "project_batch env stored BATCH_EVENTS pj = Inr (pj1, min (length todo) 500, 500 \<le> length todo)"
      "timeline_of pj1 = sp_events env (take 500 todo) (timeline_of (clear_stale pj))" "pj_ok pj1"
      "touches_right env pj \<longrightarrow> touches_right env pj1"
      "pj_version pj1 = REDUCER_VERSION" "pending stored (cursor pj1) = drop 500 todo"
    using project_batch_refines [OF less.prems(1) live dist less.prems(2) k] unfolding bl by blast
  show ?case
  proof (cases "500 \<le> length todo")
    case False
    then have "project_until_caught_up env stored n pj = Some (Inr (pj1, n + length todo))"
      by (subst unfold) (simp add: b(1))
    then show ?thesis using b False by simp
  next
    case True
    let ?rest = "drop 500 todo"
    have "length ?rest < length todo" using True by auto
    moreover have "?rest = pending stored (cursor (clear_stale pj1))" using b(5,6) by simp
    ultimately obtain pj' where r:
        "project_until_caught_up env stored (n + 500) pj1 = Some (Inr (pj', n + 500 + length ?rest))"
        "timeline_of pj' = sp_events env ?rest (timeline_of (clear_stale pj1))" "pj_ok pj'"
        "touches_right env pj1 \<longrightarrow> touches_right env pj'" "pj_version pj' = REDUCER_VERSION"
        "pending stored (cursor pj') = []"
      using less.hyps [OF _ b(3), of ?rest "n + 500"] by blast
    have "sp_events env ?rest (timeline_of (clear_stale pj1)) = sp_events env todo (timeline_of (clear_stale pj))"
    proof -
      have "fold f todo v = fold f ?rest (fold f (take 500 todo) v)" for f :: "stored_event \<Rightarrow> timeline \<Rightarrow> timeline" and v
        using fold_append [of f "take 500 todo" ?rest] by simp
      then show ?thesis using b(2,5) unfolding sp_applies_def by simp
    qed
    moreover have "n + 500 + length ?rest = n + length todo" using True by simp
    moreover have "project_until_caught_up env stored n pj = project_until_caught_up env stored (n + 500) pj1"
      by (subst unfold) (simp add: b(1) True)
    ultimately show ?thesis using r b(4) by simp
  qed
qed

section \<open>Reachable projections\<close>

text \<open>
  A session starts with an empty projection. Batches of any size run on whatever the event log then
  holds, with whatever the file system then shows, and a rebuild may be requested at any time.
\<close>

definition fresh_projection :: projection where
  "fresh_projection = \<lparr>pj_tables = empty_tables, pj_state = default_state, pj_version = REDUCER_VERSION,
     pj_revision = 0\<rparr>"

inductive projected :: "projection \<Rightarrow> bool" where
  fresh: "projected fresh_projection"
| batch: "projected pj \<Longrightarrow> distinct (map se_byte_offset stored) \<Longrightarrow>
    project_batch env stored budget pj = Inr (pj', n, waiting) \<Longrightarrow> projected pj'"
| rebuild: "projected pj \<Longrightarrow> projected (request_rebuild pj)"

lemma timeline_of_rebuild [simp]: "timeline_of (request_rebuild pj) = timeline_of pj"
  by (simp add: timeline_of_def request_rebuild_def)

lemma tl_counts_clear_stale: "tl_counts (timeline_of pj) \<Longrightarrow> tl_counts (timeline_of (clear_stale pj))"
  by (simp add: clear_stale_def tl_counts_def timeline_of_def empty_tables_def default_state_def)

lemma fresh_ok: "pj_ok fresh_projection" "tl_counts (timeline_of fresh_projection)"
  using empty_timeline_ok [of "{}"]
  by (simp_all add: fresh_projection_def empty_tables_def tl_counts_def timeline_of_def default_state_def)

lemma projected_ok: "projected pj \<Longrightarrow> pj_ok pj \<and> tl_counts (timeline_of pj)"
proof (induction rule: projected.induct)
  case fresh
  then show ?case using fresh_ok by simp
next
  case (batch pj stored env budget pj' n waiting)
  show ?case
  proof (cases "bt_purged env")
    case True
    then show ?thesis using batch by (simp add: project_batch_def)
  next
    case False
    let ?todo = "pending stored (cursor (clear_stale pj))" and ?k = "min 5000 (max 1 budget)"
    obtain q where "project_batch env stored budget pj = Inr (q, min (length ?todo) ?k, budget \<le> min (length ?todo) ?k)"
        "timeline_of q = sp_events env (take ?k ?todo) (timeline_of (clear_stale pj))" "pj_ok q"
      using project_batch_refines [OF _ False batch.hyps(2) refl refl, of pj budget] batch.IH by blast
    then have res: "timeline_of pj' = sp_events env (take ?k ?todo) (timeline_of (clear_stale pj))" "pj_ok pj'"
      using batch.hyps(3) by simp_all
    have "ordered_after (cursor (clear_stale pj)) ?todo" by (rule pending_ordered [OF batch.hyps(2)])
    then have "ordered_after (cursor (clear_stale pj)) (take ?k ?todo)"
      by (auto simp: take_map [symmetric] sorted_wrt_take dest!: in_set_takeD)
    moreover have "tl_state (timeline_of (clear_stale pj)) = pj_state (clear_stale pj)" by (simp add: timeline_of_def)
    moreover have "tl_ok (timeline_of (clear_stale pj))" using pj_ok_clear_stale batch.IH by (simp add: pj_ok_def)
    ultimately show ?thesis
      using sp_applies_keep(2) tl_counts_clear_stale batch.IH res by simp
  qed
next
  case (rebuild pj)
  then show ?case by (simp add: pj_ok_def) (simp add: request_rebuild_def)
qed

end
