(* ===== verification/Timeline_Totals.thy ===== *)
theory Timeline_Totals
  imports Timeline_Batch
begin

text \<open>
  Two facts about whole logs: child links accumulate and nothing else depends on them, and the tokens
  charged to turns are those of the usage records, each message once.
\<close>

section \<open>Links\<close>

definition add_links :: "child_link set \<Rightarrow> timeline \<Rightarrow> timeline" where
  "add_links X v = v\<lparr>tl_links := tl_links v \<union> X\<rparr>"

lemma add_links_frame [simp]:
  "tl_state (add_links X v) = tl_state v" "tl_turns (add_links X v) = tl_turns v"
  "tl_items (add_links X v) = tl_items v" "tl_ops (add_links X v) = tl_ops v"
  "tl_usage (add_links X v) = tl_usage v" "tl_links (add_links X v) = tl_links v \<union> X"
  by (simp_all add: add_links_def)

named_theorems link_free \<open>steps that do not depend on links\<close>

lemma sp_modify_links [link_free]: "sp_modify t f (add_links X v) = add_links X (sp_modify t f v)"
  by (simp add: sp_modify_def add_links_def split: option.split)

lemma sp_put_links [link_free]: "sp_put op (add_links X v) = add_links X (sp_put op v)"
  by (simp add: sp_put_def add_links_def)

lemma sp_selects_links [link_free]:
  "sp_select P (add_links X v) = sp_select P v" "sp_matching p n (add_links X v) = sp_matching p n v"
  "sp_latest p n (add_links X v) = sp_latest p n v"
  "sp_candidates env n ev (add_links X v) = sp_candidates env n ev v"
  "usage_owner t prior (add_links X v) = usage_owner t prior v" "prompt_known i (add_links X v) = prompt_known i v"
  unfolding sp_candidates_def sp_latest_def sp_matching_def sp_select_def usage_owner_def prompt_known_def
    add_links_frame by (rule refl)+

lemma fold_links:
  assumes "\<And>x v. x \<in> set xs \<Longrightarrow> f x (add_links X v) = add_links X (f x v)"
  shows "fold f xs (add_links X v) = add_links X (fold f xs v)"
  using assms by (induction xs arbitrary: v) simp_all

lemma sp_flag_links [link_free]: "sp_flag op (add_links X v) = add_links X (sp_flag op v)"
  by (simp add: sp_flag_def link_free)

lemma sp_call_links [link_free]: "sp_call t e tool (add_links X v) = add_links X (sp_call t e tool v)"
  by (simp add: sp_call_def link_free split: option.split)

lemma sp_wait_links [link_free]: "sp_wait wait b e (add_links X v) = add_links X (sp_wait wait b e v)"
  by (simp add: sp_wait_def link_free fold_links split: option.split)

lemma sp_result_links [link_free]: "sp_result t e b (add_links X v) = add_links X (sp_result t e b v)"
  by (cases "unwrap_or (bk_is_error b) False"; cases "bk_tool_id b")
    (simp_all add: sp_result_def Let_def link_free split: option.split)

lemma sp_usage_links [link_free]: "sp_usage t e (add_links X v) = add_links X (sp_usage t e v)"
proof -
  have "(add_links X v)\<lparr>tl_usage := u\<rparr> = add_links X (v\<lparr>tl_usage := u\<rparr>)"
    "(add_links X v)\<lparr>tl_state := st\<rparr> = add_links X (v\<lparr>tl_state := st\<rparr>)" for v u st
    by (simp_all add: add_links_def)
  then show ?thesis by (simp add: sp_usage_def Let_def link_free split: option.split)
qed

lemma sp_item_links [link_free]: "sp_item t e (add_links X v) = add_links X (sp_item t e v)"
  by (simp add: sp_item_def add_links_def split: option.split)

lemma sp_append_links [link_free]: "sp_append t e (add_links X v) = add_links X (sp_append t e v)"
proof -
  have st: "(add_links X v)\<lparr>tl_state := st\<rparr> = add_links X (v\<lparr>tl_state := st\<rparr>)" for v st
    by (simp add: add_links_def)
  have folds: "fold (sp_call t e) xs (add_links X v) = add_links X (fold (sp_call t e) xs v)"
    "fold (sp_result t e) bs (add_links X v) = add_links X (fold (sp_result t e) bs v)" for xs bs v
    by (rule fold_links, rule link_free)+
  show ?thesis
    unfolding sp_append_def Let_def
    by (cases "is_assistant_event e"; cases "is_tool_result_event e") (simp_all only: st folds link_free add_links_frame if_True if_False)
qed

lemma sp_create_links [link_free]: "sp_create e p s (add_links X v) = add_links X (sp_create e p s v)"
  by (simp add: sp_create_def add_links_def)

lemma sp_open_links [link_free]:
  "sp_open_main e p (add_links X v) = add_links X (sp_open_main e p v)"
  "sp_open_side me child_of e p (add_links X v) = add_links X (sp_open_side me child_of e p v)"
  by (simp_all add: sp_open_main_def sp_open_side_def Let_def link_free) (simp_all add: add_links_def Un_ac)

lemma sp_place_links [link_free]: "sp_place me child_of e p (add_links X v) = add_links X (sp_place me child_of e p v)"
  by (cases "route_event (tl_state v) e p") (simp_all add: sp_place_def Let_def link_free)

lemma sp_correlate_one_links:
  "sp_correlate_one env n evd (out, add_links X v) =
    (let (out', v') = sp_correlate_one env n evd (out, v) in (out', add_links X v'))"
  by (cases evd) (simp add: sp_correlate_one_def Let_def link_free split: list.split)

lemma sp_correlate_links [link_free]:
  "sp_correlate env e (add_links X v) = (fst (sp_correlate env e v), add_links X (snd (sp_correlate env e v)))"
proof -
  have "fold (sp_correlate_one env n) evs (out, add_links X v) =
      (fst (fold (sp_correlate_one env n) evs (out, v)), add_links X (snd (fold (sp_correlate_one env n) evs (out, v))))"
    for n evs out v
  proof (induction evs arbitrary: out v)
    case (Cons ev evs)
    obtain out' v' where "sp_correlate_one env n ev (out, v) = (out', v')" by fastforce
    then show ?case using Cons by (simp add: sp_correlate_one_links)
  qed simp
  then show ?thesis by (simp add: sp_correlate_def)
qed

lemma sp_apply_links [link_free]: "sp_apply env me child_of e (add_links X v) = add_links X (sp_apply env me child_of e v)"
proof -
  have thr: "sp_through e (add_links X v) = add_links X (sp_through e v)" by (simp add: sp_through_def add_links_def)
  obtain e' w where c: "sp_correlate env e (sp_through e v) = (e', w)" by fastforce
  have ls: "(add_links X w)\<lparr>tl_links := tl_links (add_links X w) \<union> L\<rparr> = add_links X (w\<lparr>tl_links := tl_links w \<union> L\<rparr>)" for L
    by (simp add: add_links_def Un_ac)
  show ?thesis
    unfolding sp_apply_def Let_def thr
    by (simp only: link_free c fst_conv snd_conv prod.case ls if_distrib [of "add_links X"]
        option.case_distrib [of "add_links X"])
qed

lemma sp_applies_links: "sp_applies env me child_of es (add_links X v) = add_links X (sp_applies env me child_of es v)"
  unfolding sp_applies_def by (rule fold_links) (rule sp_apply_links)

section \<open>Tokens\<close>

definition tok :: "turn_row \<Rightarrow> int \<times> int" where
  "tok row = (tr_input_tokens row, tr_output_tokens row)"

lemma tok_frame [simp]:
  "tok (count_event e t) = tok t" "tok (assistant_turn e t) = tok t" "tok (flag_turn b t) = tok t"
  "tok (call_turn tool t) = tok t"
  by (simp_all add: tok_def count_event_def assistant_turn_def flag_turn_def call_turn_def Let_def)

definition keeps_tok :: "timeline \<Rightarrow> timeline \<Rightarrow> bool" where
  "keeps_tok v w \<longleftrightarrow> (btm_ok (tl_turns v) \<longrightarrow> btm_ok (tl_turns w)
     \<and> column tok (tl_turns w) = column tok (tl_turns v)) \<and> tl_usage w = tl_usage v"

named_theorems tok_intros \<open>steps that charge nothing\<close>

lemma keeps_tok_refl [tok_intros, simp]: "keeps_tok v v"
  by (simp add: keeps_tok_def)

lemma keeps_tok_trans: "keeps_tok u v \<Longrightarrow> keeps_tok v w \<Longrightarrow> keeps_tok u w"
  by (simp add: keeps_tok_def)

lemma keeps_tok_same: "tl_turns w = tl_turns v \<Longrightarrow> tl_usage w = tl_usage v \<Longrightarrow> keeps_tok v w"
  by (simp add: keeps_tok_def)

lemma keeps_tok_modify [tok_intros]: "(\<And>row. tok (f row) = tok row) \<Longrightarrow> keeps_tok v (sp_modify t f v)"
  by (auto simp: keeps_tok_def column_sp_modify) (simp add: sp_modify_def btm_ok_insert split: option.split)

lemma keeps_tok_put [tok_intros]: "keeps_tok v (sp_put op v)"
  by (rule keeps_tok_same) simp_all

lemma keeps_tok_fold:
  "(\<And>x w. keeps_tok w (f x w)) \<Longrightarrow> keeps_tok v (fold f xs v)"
  by (induction xs arbitrary: v) (auto intro: keeps_tok_trans)

lemma keeps_tok_call [tok_intros]: "keeps_tok v (sp_call t e tool v)"
  by (auto simp: sp_call_def intro!: keeps_tok_trans [OF keeps_tok_modify keeps_tok_put] split: option.split)

lemma keeps_tok_flag [tok_intros]: "keeps_tok v (sp_flag op v)"
  by (simp add: sp_flag_def keeps_tok_modify)

lemma keeps_tok_wait [tok_intros]: "keeps_tok v (sp_wait wait b e v)"
  by (auto simp: sp_wait_def intro!: keeps_tok_fold keeps_tok_put split: option.split)

lemma keeps_tok_put_flag: "keeps_tok v w \<Longrightarrow> keeps_tok v (sp_flag op (sp_put op w))"
  using keeps_tok_trans [OF _ keeps_tok_trans [OF keeps_tok_put keeps_tok_flag]] .

lemma keeps_tok_result [tok_intros]: "keeps_tok v (sp_result t e b v)"
proof -
  define w where "w = (if unwrap_or (bk_is_error b) False then sp_modify t (flag_turn True) v else v)"
  have w: "keeps_tok v w" by (simp add: w_def keeps_tok_modify)
  show ?thesis
    using w keeps_tok_trans [OF w keeps_tok_put_flag [OF keeps_tok_wait]]
    by (auto simp: sp_result_def Let_def simp flip: w_def split: option.split)
qed

lemma keeps_tok_correlate: "keeps_tok v (snd (sp_correlate env e v))"
proof -
  have one: "keeps_tok (snd s) (snd (sp_correlate_one env n ev s))" for n ev s
    by (cases s; cases ev) (auto simp: sp_correlate_one_def Let_def keeps_tok_put_flag split: list.split)
  have "keeps_tok (snd s) (snd (fold (sp_correlate_one env n) evs s))" for n evs s
  proof (induction evs arbitrary: s)
    case (Cons ev evs)
    then show ?case using keeps_tok_trans [OF one [of s n ev]] by simp
  qed simp
  from this [of "(e, v)"] show ?thesis by (simp add: sp_correlate_def)
qed

lemma correlated_usage:
  "se_agent (fst (sp_correlate env e v)) = se_agent e" "se_usage_json (fst (sp_correlate env e v)) = se_usage_json e"
  "se_usage_message_id (fst (sp_correlate env e v)) = se_usage_message_id e"
proof -
  define same where "same a b \<longleftrightarrow> se_agent a = se_agent b \<and> se_usage_json a = se_usage_json b
    \<and> se_usage_message_id a = se_usage_message_id b" for a b :: stored_event
  have one: "same (fst (sp_correlate_one env n ev s)) (fst s)" for n ev s
    by (cases s; cases ev) (auto simp: same_def sp_correlate_one_def mark_uncorrelated_def Let_def split: list.split)
  have "same (fst (fold (sp_correlate_one env n) evs s)) (fst s)" for n evs s
  proof (induction evs arbitrary: s)
    case (Cons ev evs)
    then show ?case using one [of n ev s] by (simp add: same_def)
  qed (simp add: same_def)
  from this [of _ _ "(e, v)"] show "se_agent (fst (sp_correlate env e v)) = se_agent e"
    "se_usage_json (fst (sp_correlate env e v)) = se_usage_json e"
    "se_usage_message_id (fst (sp_correlate env e v)) = se_usage_message_id e"
    by (simp_all add: sp_correlate_def same_def)
qed

text \<open>Every usage record belongs to a turn, and the turns were charged exactly the records.\<close>

abbreviation turn_total :: "(turn_row \<Rightarrow> int) \<Rightarrow> timeline \<Rightarrow> int" where
  "turn_total g v \<equiv> sum_list (map (g \<circ> snd) (tl_turns v))"

abbreviation usage_total :: "(message_usage \<Rightarrow> int) \<Rightarrow> timeline \<Rightarrow> int" where
  "usage_total g v \<equiv> (\<Sum>i \<in> dom (tl_usage v). g (the (tl_usage v i)))"

definition charged :: "timeline \<Rightarrow> bool" where
  "charged v \<longleftrightarrow> btm_ok (tl_turns v) \<and> finite (dom (tl_usage v))
     \<and> (\<forall>i p. tl_usage v i = Some p \<longrightarrow> map_of (tl_turns v) (mu_turn_id p) \<noteq> None)
     \<and> turn_total tr_input_tokens v = usage_total mu_input_tokens v
     \<and> turn_total tr_output_tokens v = usage_total mu_output_tokens v"

lemma column_total:
  assumes "column tok m = column tok n"
  shows "map (tr_input_tokens \<circ> snd) m = map (tr_input_tokens \<circ> snd) n"
    "map (tr_output_tokens \<circ> snd) m = map (tr_output_tokens \<circ> snd) n"
    "map_of m t = None \<longleftrightarrow> map_of n t = None"
proof -
  have "fst \<circ> tok = tr_input_tokens" "snd \<circ> tok = tr_output_tokens" by (auto simp: tok_def)
  then show "map (tr_input_tokens \<circ> snd) m = map (tr_input_tokens \<circ> snd) n"
    "map (tr_output_tokens \<circ> snd) m = map (tr_output_tokens \<circ> snd) n"
    using column_eqD(2) [OF assms, of fst] column_eqD(2) [OF assms, of snd] by simp_all
  show "map_of m t = None \<longleftrightarrow> map_of n t = None"
    using map_of_column [of tok m t] map_of_column [of tok n t] assms by (metis option.map_disc_iff)
qed

lemma charged_keeps:
  assumes "charged v" "keeps_tok v w"
  shows "charged w"
proof -
  have ok: "btm_ok (tl_turns w)" "column tok (tl_turns w) = column tok (tl_turns v)" "tl_usage w = tl_usage v"
    using assms by (auto simp: charged_def keeps_tok_def)
  note col = column_total [OF ok(2)]
  show ?thesis
    using assms(1) ok(1,3) col(1,2) unfolding charged_def by (simp add: col(3) del: not_None_eq)
qed

lemma sum_map_upd:
  fixes g :: "'b \<Rightarrow> int"
  assumes "finite (dom m)"
  shows "(\<Sum>j \<in> dom (m(i \<mapsto> x)). g (the ((m(i \<mapsto> x)) j))) =
    (\<Sum>j \<in> dom m. g (the (m j))) + g x - (case m i of Some p \<Rightarrow> g p | None \<Rightarrow> 0)"
proof -
  have "(\<Sum>j \<in> dom (m(i \<mapsto> x)). g (the ((m(i \<mapsto> x)) j))) = g x + (\<Sum>j \<in> dom m - {i}. g (the ((m(i \<mapsto> x)) j)))"
    using assms by (simp add: sum.insert_remove)
  also have "(\<Sum>j \<in> dom m - {i}. g (the ((m(i \<mapsto> x)) j))) = (\<Sum>j \<in> dom m - {i}. g (the (m j)))"
    by (rule sum.cong) auto
  also have "\<dots> = (\<Sum>j \<in> dom m. g (the (m j))) - (case m i of Some p \<Rightarrow> g p | None \<Rightarrow> 0)"
    using assms by (cases "m i") (auto simp: sum_diff1 domIff)
  finally show ?thesis by linarith
qed

text \<open>A receipt replaces what its message was charged before, on the turn that was charged.\<close>

lemma charged_usage:
  assumes ch: "charged v" and t: "map_of (tl_turns v) t \<noteq> None"
    and claude: "se_agent e \<noteq> ''codex''" "se_usage_json e \<noteq> None \<longrightarrow> se_usage_message_id e \<noteq> None"
  shows "charged (sp_usage t e v)"
proof (cases "se_usage_json e")
  case None
  then show ?thesis using ch by (simp add: sp_usage_def)
next
  case (Some u)
  then obtain i where i: "se_usage_message_id e = Some i" using claude(2) by auto
  let ?in = "claude_input u" and ?out = "token u ''output_tokens''"
  let ?prior = "tl_usage v i" and ?own = "usage_owner t (tl_usage v i) v"
  let ?new = "\<lparr>mu_turn_id = ?own, mu_input_tokens = ?in, mu_output_tokens = ?out\<rparr>"
  let ?row' = "recharge ?own ?prior ?in ?out"
  have prior: "map_of (tl_turns v) (mu_turn_id p) \<noteq> None" if "?prior = Some p" for p
    using ch that unfolding charged_def by blast
  then have own: "?own = (case ?prior of Some p \<Rightarrow> mu_turn_id p | None \<Rightarrow> t)"
    by (simp add: usage_owner_def split: option.split)
  then obtain row where row: "map_of (tl_turns v) ?own = Some row"
    using prior t by (cases ?prior) auto
  have spec: "sp_usage t e v = v\<lparr>tl_turns := btm_insert ?own (?row' row) (tl_turns v),
      tl_usage := (tl_usage v)(i \<mapsto> ?new)\<rparr>"
    using Some i claude(1) row by (simp add: sp_usage_def Let_def sp_modify_def)
  have ok: "btm_ok (tl_turns v)" and fin: "finite (dom (tl_usage v))" using ch by (simp_all add: charged_def)
  have row': "tr_input_tokens (?row' row) = tr_input_tokens row + ?in - (case ?prior of Some p \<Rightarrow> mu_input_tokens p | None \<Rightarrow> 0)"
    "tr_output_tokens (?row' row) = tr_output_tokens row + ?out - (case ?prior of Some p \<Rightarrow> mu_output_tokens p | None \<Rightarrow> 0)"
    using own by (auto simp: recharge_def add_tokens_def split: option.split)
  have usage: "(\<Sum>j \<in> dom ((tl_usage v)(i \<mapsto> ?new)). g (the (((tl_usage v)(i \<mapsto> ?new)) j))) =
      usage_total g v + g ?new - (case ?prior of Some p \<Rightarrow> g p | None \<Rightarrow> 0)" for g :: "message_usage \<Rightarrow> int"
    by (rule sum_map_upd [OF fin])
  have owners: "map_of (btm_insert ?own (?row' row) (tl_turns v)) (mu_turn_id p) \<noteq> None"
    if "((tl_usage v)(i \<mapsto> ?new)) j = Some p" for j p
    using that ch unfolding charged_def by (auto split: if_splits)
  show ?thesis
    unfolding charged_def spec
    using ok fin owners usage [of mu_input_tokens] usage [of mu_output_tokens] row' ch
      sum_update [OF ok row, of tr_input_tokens "?row' row"] sum_update [OF ok row, of tr_output_tokens "?row' row"]
    by (auto simp: charged_def)
qed

text \<open>Claude events that report usage name their message.\<close>

definition claude_event :: "stored_event \<Rightarrow> bool" where
  "claude_event e \<longleftrightarrow> se_agent e \<noteq> ''codex'' \<and> (se_usage_json e \<noteq> None \<longrightarrow> se_usage_message_id e \<noteq> None)"

lemma charged_append:
  assumes ch: "charged v" and t: "map_of (tl_turns v) t \<noteq> None" and e: "claude_event e"
  shows "charged (sp_append t e v)"
proof -
  define a where "a = sp_count t e v"
  define b where "b = (if is_assistant_event e
    then sp_modify t (assistant_turn e) (fold (sp_call t e) (tool_uses_in e) a) else a)"
  define c where "c = (if is_tool_result_event e
    then fold (sp_result t e) (filter (\<lambda>b. bk_kind b = BToolResult) (se_blocks e)) b else b)"
  have "keeps_tok v (sp_modify t (count_event e) v)" by (rule keeps_tok_modify) simp
  then have a: "keeps_tok v a" by (simp add: a_def sp_count_def keeps_tok_def)
  have "keeps_tok a (fold (sp_call t e) (tool_uses_in e) a)" by (rule keeps_tok_fold) (rule keeps_tok_call)
  then have b: "keeps_tok a b" using keeps_tok_trans [OF _ keeps_tok_modify] by (simp add: b_def)
  have "keeps_tok b (fold (sp_result t e) bs b)" for bs by (rule keeps_tok_fold) (rule keeps_tok_result)
  then have c: "keeps_tok b c" by (simp add: c_def)
  have "keeps_tok c (sp_item t e c)" by (rule keeps_tok_same) (simp_all add: sp_item_def split: option.split)
  with a b c have k: "keeps_tok v (sp_item t e c)" using keeps_tok_trans by blast
  then have "map_of (tl_turns (sp_item t e c)) t \<noteq> None"
    using column_total(3) [of "tl_turns (sp_item t e c)" "tl_turns v" t] ch t
    by (simp add: keeps_tok_def charged_def)
  then have "charged (sp_usage t e (sp_item t e c))"
    using charged_usage [OF charged_keeps [OF ch k]] e by (simp add: claude_event_def)
  moreover have "sp_append t e v = sp_usage t e (sp_item t e c)"
    by (simp add: sp_append_def a_def b_def c_def sp_count_def Let_def)
  ultimately show ?thesis by simp
qed

lemma charged_create:
  assumes "charged v" "at_event e v"
  shows "charged (sp_create e p s v)"
proof -
  have turns: "tl_turns (sp_create e p s v) = tl_turns v @ [(se_byte_offset e, seed_turn (tl_state v) e p s)]"
    by (rule sp_create_turns [OF assms(2)])
  have tok: "tr_input_tokens (seed_turn st e p s) = 0" "tr_output_tokens (seed_turn st e p s) = 0" for st
    by (simp_all add: seed_turn_def Let_def)
  have usage: "tl_usage (sp_create e p s v) = tl_usage v" by (simp add: sp_create_def)
  have ok: "btm_ok (tl_turns (sp_create e p s v))"
    using assms(1) by (auto simp: charged_def sp_create_def)
  have owners: "map_of (tl_turns (sp_create e p s v)) (mu_turn_id q) \<noteq> None" if "tl_usage v i = Some q" for i q
    using assms(1) that unfolding charged_def by (auto simp: sp_create_def)
  have totals: "turn_total tr_input_tokens (sp_create e p s v) = turn_total tr_input_tokens v"
    "turn_total tr_output_tokens (sp_create e p s v) = turn_total tr_output_tokens v"
    by (simp_all add: turns tok)
  show ?thesis using assms(1) ok owners unfolding charged_def usage totals by blast
qed

lemma charged_place:
  assumes ch: "charged v" and at: "at_event e v" and e: "claude_event e"
  shows "charged (sp_place me child_of e p v)"
proof -
  have opened: "charged (sp_open_main e q v)" "charged (sp_open_side me child_of e q v)" for q
    using charged_create [OF ch at] by (simp_all add: sp_open_main_def sp_open_side_def Let_def charged_def)
  have "map_of (tl_turns v) t \<noteq> None" if "route_event (tl_state v) e p = Existing t" for t
    using that tl_ok_cursorD route_existing at unfolding at_event_def by blast
  then show ?thesis
    using opened sp_open_ok(3,4) [OF at] charged_append [OF _ _ e] ch
    by (cases "route_event (tl_state v) e p") (simp_all add: sp_place_def Let_def)
qed

lemma charged_apply:
  assumes ch: "charged v" and ok: "tl_ok v" and off: "ss_projected_through (tl_state v) < se_byte_offset e"
    and e: "claude_event e"
  shows "charged (sp_apply env me child_of e v)"
proof -
  let ?v = "sp_through e v"
  obtain e' w where c: "sp_correlate env e ?v = (e', w)" by fastforce
  let ?w = "w\<lparr>tl_links := tl_links w \<union> links_of env me child_of e'\<rparr>"
  have v: "charged ?v" using ch by (simp add: charged_def sp_through_def)
  then have "charged w" using charged_keeps [OF _ keeps_tok_correlate [of ?v env e]] c by simp
  then have w: "charged ?w" by (simp add: charged_def)
  have at: "at_event e ?v" by (rule at_event_through [OF ok off])
  have k: "keeps ?v w" using keeps_correlate [of ?v env e] at c by (simp add: at_event_def)
  have k': "keeps w ?w" using keepsD(1) [OF k] by (intro keeps_same) (simp_all add: tl_ok_btm)
  have "se_byte_offset e' = se_byte_offset e" using correlated_offset [of env e ?v] c by simp
  then have at': "at_event e' ?w"
    using at_event_keeps [OF at_event_keeps [OF at k] k'] by (simp add: at_event_def)
  have e': "claude_event e'" using correlated_usage [of env e ?v] c e by (simp add: claude_event_def)
  show ?thesis
    using v w charged_place [OF w at' e'] by (simp add: sp_apply_def c Let_def split: option.split)
qed

lemma charged_applies:
  assumes "charged v" "tl_ok v" "ordered_after (ss_projected_through (tl_state v)) es" "\<forall>e \<in> set es. claude_event e"
  shows "charged (sp_applies env me child_of es v)"
  using assms
proof (induction es arbitrary: v)
  case (Cons e es)
  have p: "placed e v (sp_apply env me child_of e v)" using Cons.prems by (intro placed_apply) simp_all
  have "charged (sp_apply env me child_of e v)" using Cons.prems by (intro charged_apply) simp_all
  then show ?case
    using Cons.IH [of "sp_apply env me child_of e v"] Cons.prems p by (simp add: sp_applies_def placed_def)
qed (simp add: sp_applies_def)

end
