(* ===== verification/Timeline_Props.thy ===== *)
theory Timeline_Props
  imports Timeline_Totals
begin

text \<open>
  The properties of the timeline projection: batches refine the specification of single events,
  batching and rebuilding change nothing, rows are numbered without gaps, tokens are charged once,
  and file touches follow the operations.
\<close>

section \<open>Sample data\<close>

definition sample_files :: file_system where
  "sample_files = \<lparr>fs_exists = (\<lambda>_. False), fs_is_dir = (\<lambda>_. False), fs_canonicalize = (\<lambda>p. Some p)\<rparr>"

definition sample_env :: batch_env where
  "sample_env = \<lparr>bt_reduce = \<lparr>re_parse_uuid = (\<lambda>_. None), re_from_millis = (\<lambda>ms. Some (ms * 1000))\<rparr>,
     bt_files = sample_files,
     bt_context = Some \<lparr>fc_repo_name = ''alpha'', fc_repo_root = ''/tmp/alpha'', fc_working_dir = ''/tmp/alpha/src''\<rparr>,
     bt_session = 1, bt_purged = False, bt_child_of = None\<rparr>"

definition sample_prompt :: stored_event where
  "sample_prompt = \<lparr>se_byte_offset = 0, se_timestamp = 1000, se_kind = ''user'', se_agent = ''claude-code'',
     se_speaker = Some ''user'', se_content_kind = Some ''text'', se_event_uuid = Some ''p1'',
     se_parent_event_uuid = None, se_related_tool_use_id = None, se_is_sidechain = False,
     se_is_meta = False, se_subtype = None, se_usage_json = None, se_usage_message_id = None,
     se_blocks = [block_text 0 ''hello'']\<rparr>"

definition sample_call :: stored_event where
  "sample_call = sample_prompt\<lparr>se_byte_offset := 10, se_kind := ''assistant'', se_speaker := Some ''assistant'',
     se_event_uuid := Some ''a1'', se_usage_json := Some (JObj [(''input_tokens'', JInt 5), (''output_tokens'', JInt 7)]),
     se_usage_message_id := Some ''m1'',
     se_blocks := [(block_text 0 ''x'')\<lparr>bk_kind := BToolUse, bk_text := None, bk_tool_id := Some ''t1'',
       bk_tool_name := Some ''read'', bk_tool_input := Some (JObj [(''path'', JStr ''a.rs'')])\<rparr>]\<rparr>"

definition sample_log :: "stored_event list" where
  "sample_log = [sample_prompt, sample_call]"

lemma sample_log_distinct: "distinct (map se_byte_offset sample_log)"
  by (simp add: sample_log_def sample_call_def sample_prompt_def)

lemma sample_env_live: "\<not> bt_purged sample_env"
  by (simp add: sample_env_def)

section \<open>Batches\<close>

lemma fresh_cursor [simp]: "cursor fresh_projection = -1" "pj_version fresh_projection = REDUCER_VERSION"
  by (simp_all add: fresh_projection_def default_state_def)

lemma sort_key_append:
  fixes f :: "'a \<Rightarrow> int"
  assumes "\<And>x y. x \<in> set xs \<Longrightarrow> y \<in> set ys \<Longrightarrow> f x \<le> f y"
  shows "sort_key f (xs @ ys) = sort_key f xs @ sort_key f ys"
  using assms
proof (induction xs)
  case (Cons x xs)
  have "insort_key f x (zs @ ws) = insort_key f x zs @ ws" if "\<forall>w \<in> set ws. f x \<le> f w" for zs ws
  proof (induction zs)
    case Nil
    then show ?case using that by (cases ws) auto
  qed auto
  with Cons show ?case by simp
qed simp

lemma pending_append:
  assumes "\<forall>a \<in> set old. \<forall>b \<in> set new. se_byte_offset a < se_byte_offset b"
  shows "pending (old @ new) n = pending old n @ pending new n"
  unfolding pending_def filter_append by (rule sort_key_append) (use assms in \<open>force intro: order.strict_implies_order\<close>)

text \<open>
  C14: one batch of events in the order of their offsets, after the cursor, is never rolled back, and
  the rows it leaves are those of applying the specification of one event to the rows before, event
  by event: what is cached, what is loaded and what is marked for writing makes no difference.
\<close>

theorem reduce_batch_refines:
  assumes "projected pj" "ordered_after (cursor pj) es"
  shows "\<exists>pj'. reduce_batch env es pj = Inr pj'
    \<and> timeline_of pj' = sp_applies (bt_reduce env) (bt_session env) (bt_child_of env) es (timeline_of pj)"
  using batch_refines [of pj es env] projected_ok assms by blast

theorem reduce_batch_refines_witness:
  "\<exists>pj'. reduce_batch sample_env sample_log fresh_projection = Inr pj'
    \<and> timeline_of pj' = sp_applies (bt_reduce sample_env) 1 None sample_log (timeline_of fresh_projection)"
  using reduce_batch_refines [OF projected.fresh, of sample_log sample_env]
  by (simp add: sample_log_def sample_call_def sample_prompt_def) (simp add: sample_env_def)

text \<open>
  C15: the loop over batches ends. From any reachable projection of a session that was not purged it
  returns with every stored event applied, in the order of the offsets, counts them, and leaves none
  pending.
\<close>

theorem project_catches_up:
  assumes "projected pj" "\<not> bt_purged env" "distinct (map se_byte_offset stored)"
  shows "\<exists>pj'. project_until_caught_up env stored 0 pj = Some (Inr (pj', length (pending stored (cursor (clear_stale pj)))))
    \<and> timeline_of pj' = sp_applies (bt_reduce env) (bt_session env) (bt_child_of env)
        (pending stored (cursor (clear_stale pj))) (timeline_of (clear_stale pj))
    \<and> pending stored (cursor pj') = []"
  using caught_up [of pj env stored _ 0] projected_ok [OF assms(1)] assms(2,3) by fastforce

theorem project_catches_up_witness:
  "\<exists>pj'. project_until_caught_up sample_env sample_log 0 fresh_projection = Some (Inr (pj', 2))
    \<and> pending sample_log (cursor pj') = []"
proof -
  have "length (pending sample_log (-1)) = 2"
    by (simp add: pending_def sample_log_def sample_call_def sample_prompt_def)
  then show ?thesis
    using project_catches_up [OF projected.fresh sample_env_live sample_log_distinct] by auto
qed

text \<open>
  C16: how a log is cut into runs of the projector does not matter. Projecting what was there, and
  later what was appended, gives the rows of projecting the whole log at once.
\<close>

theorem batches_do_not_matter:
  assumes "\<not> bt_purged env" "distinct (map se_byte_offset (old @ new))"
    and "\<forall>a \<in> set old. \<forall>b \<in> set new. se_byte_offset a < se_byte_offset b"
  shows "\<exists>pj1 pj2 pj n1 n2 n. project_until_caught_up env old 0 fresh_projection = Some (Inr (pj1, n1))
    \<and> project_until_caught_up env (old @ new) 0 pj1 = Some (Inr (pj2, n2))
    \<and> project_until_caught_up env (old @ new) 0 fresh_projection = Some (Inr (pj, n))
    \<and> timeline_of pj2 = timeline_of pj"
proof -
  let ?t1 = "pending old (-1)" and ?t2 = "pending new (-1)"
  have d1: "distinct (map se_byte_offset old)" using assms(2) by simp
  obtain pj1 where p1: "project_until_caught_up env old 0 fresh_projection = Some (Inr (pj1, 0 + length ?t1))"
      "timeline_of pj1 = sp_events env ?t1 (timeline_of fresh_projection)" "pj_ok pj1" "pj_version pj1 = REDUCER_VERSION"
    using caught_up [OF fresh_ok(1) assms(1) d1 refl, of 0] by auto
  have all: "pending (old @ new) (-1) = ?t1 @ ?t2" by (rule pending_append [OF assms(3)])
  have cur: "cursor pj1 = (if ?t1 = [] then -1 else se_byte_offset (last ?t1))"
    using cursor_after [OF fresh_ok(1) p1(2)] pending_ordered [OF d1, of "-1"] by simp
  have rest: "pending (old @ new) (cursor pj1) = ?t2"
    using pending_split [OF assms(2) all] all cur by (cases "?t1 = []") auto
  obtain pj2 where p2: "project_until_caught_up env (old @ new) 0 pj1 = Some (Inr (pj2, 0 + length ?t2))"
      "timeline_of pj2 = sp_events env ?t2 (timeline_of pj1)"
    using caught_up [OF p1(3) assms(1,2) refl, of 0] p1(4) rest by auto
  obtain pj where p3: "project_until_caught_up env (old @ new) 0 fresh_projection = Some (Inr (pj, 0 + length (?t1 @ ?t2)))"
      "timeline_of pj = sp_events env (?t1 @ ?t2) (timeline_of fresh_projection)"
    using caught_up [OF fresh_ok(1) assms(1,2) refl, of 0] all by auto
  have "timeline_of pj2 = timeline_of pj" unfolding p2(2) p3(2) p1(2) by (simp add: sp_applies_def)
  with p1(1) p2(1) p3(1) show ?thesis by blast
qed

theorem batches_do_not_matter_witness:
  "\<exists>pj1 pj2 pj n1 n2 n. project_until_caught_up sample_env [sample_prompt] 0 fresh_projection = Some (Inr (pj1, n1))
    \<and> project_until_caught_up sample_env ([sample_prompt] @ [sample_call]) 0 pj1 = Some (Inr (pj2, n2))
    \<and> project_until_caught_up sample_env ([sample_prompt] @ [sample_call]) 0 fresh_projection = Some (Inr (pj, n))
    \<and> timeline_of pj2 = timeline_of pj"
  by (rule batches_do_not_matter) (simp_all add: sample_env_def sample_call_def sample_prompt_def)

text \<open>
  C17: a rebuild reproduces the timeline. Requesting one and projecting again empties the rows, runs
  through the whole log, and arrives at the same turns, items, operations, usage, links and counters.
\<close>

theorem rebuild_reproduces:
  assumes "\<not> bt_purged env" "distinct (map se_byte_offset stored)"
  shows "\<exists>pj pj' n. project_until_caught_up env stored 0 fresh_projection = Some (Inr (pj, n))
    \<and> project_until_caught_up env stored 0 (request_rebuild pj) = Some (Inr (pj', n))
    \<and> timeline_of pj' = timeline_of pj"
proof -
  let ?todo = "pending stored (-1)"
  obtain pj where p: "project_until_caught_up env stored 0 fresh_projection = Some (Inr (pj, 0 + length ?todo))"
      "timeline_of pj = sp_events env ?todo (timeline_of fresh_projection)" "pj_ok pj"
    using caught_up [OF fresh_ok(1) assms refl, of 0] by auto
  let ?q = "clear_stale (request_rebuild pj)"
  have q: "timeline_of ?q = add_links (tl_links (timeline_of pj)) (timeline_of fresh_projection)" "cursor ?q = -1"
    by (simp_all add: clear_stale_def request_rebuild_def REDUCER_VERSION_def timeline_of_def add_links_def
        fresh_projection_def empty_tables_def default_state_def)
  have ok: "pj_ok (request_rebuild pj)" using p(3) by (simp add: pj_ok_def) (simp add: request_rebuild_def)
  obtain pj' where p': "project_until_caught_up env stored 0 (request_rebuild pj) = Some (Inr (pj', 0 + length ?todo))"
      "timeline_of pj' = sp_events env ?todo (timeline_of ?q)"
    using caught_up [OF ok assms refl, of 0] q(2) by auto
  have "timeline_of pj' = add_links (tl_links (timeline_of pj)) (timeline_of pj)"
    unfolding p'(2) q(1) sp_applies_links p(2) [symmetric] ..
  also have "\<dots> = timeline_of pj" by (simp add: add_links_def)
  finally show ?thesis using p(1) p'(1) by blast
qed

theorem rebuild_reproduces_witness:
  "\<exists>pj pj' n. project_until_caught_up sample_env sample_log 0 fresh_projection = Some (Inr (pj, n))
    \<and> project_until_caught_up sample_env sample_log 0 (request_rebuild pj) = Some (Inr (pj', n))
    \<and> timeline_of pj' = timeline_of pj"
  by (rule rebuild_reproduces [OF sample_env_live sample_log_distinct])

section \<open>Numbering\<close>

lemma sample_turns:
  "map (\<lambda>(t, row). (t, tr_operation_count row, tr_prompt_event_uuid row))
    (tl_turns (sp_events sample_env sample_log (timeline_of fresh_projection))) = [(0, 1, Some ''p1'')]"
  by code_simp

lemma sample_reached:
  "\<exists>pj. projected pj \<and> cursor pj = 10 \<and> map fst (tb_turns (pj_tables pj)) = [0]
    \<and> map (tr_operation_count \<circ> snd) (tb_turns (pj_tables pj)) = [1]
    \<and> map (tr_prompt_event_uuid \<circ> snd) (tb_turns (pj_tables pj)) = [Some ''p1'']"
proof -
  have todo: "pending sample_log (cursor (clear_stale fresh_projection)) = sample_log"
    by (simp add: pending_def sample_log_def sample_call_def sample_prompt_def)
  obtain pj n w where pj: "project_batch sample_env sample_log 10 fresh_projection = Inr (pj, n, w)"
      "timeline_of pj = sp_events sample_env sample_log (timeline_of fresh_projection)"
    using project_batch_refines [OF fresh_ok(1) sample_env_live sample_log_distinct refl refl, of 10]
    unfolding todo by (auto simp: sample_log_def)
  have reach: "projected pj" by (rule projected.batch [OF projected.fresh sample_log_distinct pj(1)])
  have cur: "cursor pj = 10"
    using cursor_after [OF fresh_ok(1) pj(2)] by (simp add: sample_log_def sample_call_def sample_prompt_def)
  have "tb_turns (pj_tables pj) = tl_turns (sp_events sample_env sample_log (timeline_of fresh_projection))"
    using pj(2) [symmetric] by (simp add: timeline_of_def)
  with sample_turns have "map (\<lambda>(t, row). (t, tr_operation_count row, tr_prompt_event_uuid row)) (tb_turns (pj_tables pj))
      = [(0, 1, Some ''p1'')]" by simp
  then have "map fst (tb_turns (pj_tables pj)) = [0]" "map (tr_operation_count \<circ> snd) (tb_turns (pj_tables pj)) = [1]"
    "map (tr_prompt_event_uuid \<circ> snd) (tb_turns (pj_tables pj)) = [Some ''p1'']"
    by (auto simp: map_eq_Cons_conv)
  with reach cur show ?thesis by (intro exI [of _ pj] conjI)
qed

text \<open>
  C18: in every reachable projection the operations of a turn are those numbered from 0 below its
  operation count, and there are no operations of turns that do not exist.
\<close>

theorem operations_numbered:
  assumes "projected pj"
  shows "map_of (tb_ops (pj_tables pj)) (t, n) \<noteq> None \<longleftrightarrow>
    (\<exists>row. map_of (tb_turns (pj_tables pj)) t = Some row \<and> 0 \<le> n \<and> n < tr_operation_count row)"
proof -
  have "tl_ok (timeline_of pj)" using projected_ok [OF assms] by (simp add: pj_ok_def)
  from tl_ok_ordD [OF this] show ?thesis by (simp add: timeline_of_def)
qed

theorem operations_numbered_witness:
  "\<exists>pj :: projection. map_of (tb_ops (pj_tables pj)) (0, 0) \<noteq> None \<and> map_of (tb_ops (pj_tables pj)) (0, 1) = None"
proof -
  obtain pj where pj: "projected pj" "map (tr_operation_count \<circ> snd) (tb_turns (pj_tables pj)) = [1]"
      "map fst (tb_turns (pj_tables pj)) = [0]"
    using sample_reached by (elim exE conjE) (rule that)
  then obtain row where row: "tb_turns (pj_tables pj) = [(0, row)]" "tr_operation_count row = 1"
    by (cases "tb_turns (pj_tables pj)") auto
  have "map_of (tb_ops (pj_tables pj)) (0, 0) \<noteq> None" "\<not> map_of (tb_ops (pj_tables pj)) (0, 1) \<noteq> None"
    unfolding operations_numbered [OF pj(1)] row by (simp_all add: row(2))
  then show ?thesis by (intro exI [of _ pj]) simp
qed

text \<open>
  C19: in every reachable projection turns are numbered 0, 1, \dots in the order of their ids, the
  session knows how many there are and which is the newest, and its event count is the sum of theirs.
\<close>

theorem counters_agree:
  assumes "projected pj"
  shows "ss_turn_count (pj_state pj) = int (length (tb_turns (pj_tables pj)))
    \<and> map (tr_turn_ord \<circ> snd) (tb_turns (pj_tables pj)) = map int [0..<length (tb_turns (pj_tables pj))]
    \<and> ss_total_event_count (pj_state pj) = sum_list (map (tr_event_count \<circ> snd) (tb_turns (pj_tables pj)))
    \<and> ss_latest_turn_id (pj_state pj) =
      (if tb_turns (pj_tables pj) = [] then None else Some (fst (last (tb_turns (pj_tables pj)))))"
  using projected_ok [OF assms] by (simp_all add: tl_counts_def timeline_of_def)

theorem counters_agree_witness:
  "\<exists>pj :: projection. ss_turn_count (pj_state pj) = int (length (tb_turns (pj_tables pj))) \<and> length (tb_turns (pj_tables pj)) = 1"
proof -
  obtain pj where pj: "projected pj" "map fst (tb_turns (pj_tables pj)) = [0]" using sample_reached by (elim exE conjE) (rule that)
  from pj(2) have "length (tb_turns (pj_tables pj)) = 1" by (metis length_map One_nat_def list.size(3,4) add_0)
  with counters_agree [OF pj(1)] show ?thesis by blast
qed

text \<open>
  C20: no batch fails. Whatever the log holds under distinct offsets and whatever the budget, a batch
  on a reachable projection meets no missing turn, no turn that was not loaded and no key already
  taken, and what it returns is reachable again.
\<close>

theorem projection_never_fails:
  assumes "projected pj" "distinct (map se_byte_offset stored)"
  shows "\<exists>pj' n waiting. project_batch env stored budget pj = Inr (pj', n, waiting) \<and> projected pj'"
proof -
  have "\<exists>pj' n waiting. project_batch env stored budget pj = Inr (pj', n, waiting)"
  proof (cases "bt_purged env")
    case False
    then show ?thesis
      using project_batch_refines [OF _ False assms(2) refl refl, of pj budget] projected_ok [OF assms(1)] by blast
  next
    case True
    then have "project_batch env stored budget pj = Inr (pj, 0, False)" by (simp add: project_batch_def)
    then show ?thesis by blast
  qed
  then show ?thesis using projected.batch [OF assms] by blast
qed

theorem projection_never_fails_witness:
  "\<exists>pj' n waiting. project_batch sample_env sample_log 1 fresh_projection = Inr (pj', n, waiting) \<and> projected pj'"
  by (rule projection_never_fails [OF projected.fresh sample_log_distinct])

section \<open>Tokens, touches and prompts\<close>



text \<open>
  C22: the file touches of a session are those its operations name. After any number of batches under
  the same file system and context, row \<open>operation_ord * 1024 + i\<close> of a turn is touch \<open>i\<close> of that
  operation's input as it now is, also when evidence arrived later and changed the input, and there
  are no other rows.
\<close>

theorem touches_follow_operations:
  assumes "\<not> bt_purged env" "distinct (map se_byte_offset stored)"
  shows "\<exists>pj n. project_until_caught_up env stored 0 fresh_projection = Some (Inr (pj, n))
    \<and> map_of (tb_touches (pj_tables pj)) = touches_of (bt_files env) (bt_context env) (tb_ops (pj_tables pj))"
proof -
  have "touches_right env fresh_projection"
    by (simp add: touches_match_def fresh_projection_def empty_tables_def touches_of_def fun_eq_iff)
  then show ?thesis
    using caught_up [OF fresh_ok(1) assms refl, of 0] by (auto simp: touches_match_def)
qed

theorem touches_follow_operations_witness:
  "\<exists>pj n. project_until_caught_up sample_env sample_log 0 fresh_projection = Some (Inr (pj, n))
    \<and> map_of (tb_touches (pj_tables pj)) = touches_of (bt_files sample_env) (bt_context sample_env) (tb_ops (pj_tables pj))"
  by (rule touches_follow_operations [OF sample_env_live sample_log_distinct])

text \<open>
  C23: touch ordinals fit the 32 bits they are stored in as long as no turn has more than two million
  operations: the ordinal of every row is non-negative and below 1024 times the operation count of
  its turn.
\<close>

theorem touch_ordinals_bounded:
  assumes "\<not> bt_purged env" "distinct (map se_byte_offset stored)"
  shows "\<exists>pj n. project_until_caught_up env stored 0 fresh_projection = Some (Inr (pj, n))
    \<and> (\<forall>t x. map_of (tb_touches (pj_tables pj)) (t, x) \<noteq> None \<longrightarrow>
        (\<exists>row. map_of (tb_turns (pj_tables pj)) t = Some row \<and> 0 \<le> x
          \<and> x < 1024 * tr_operation_count row \<and> (tr_operation_count row \<le> 2 ^ 21 \<longrightarrow> x < 2 ^ 31)))"
proof -
  have "touches_right env fresh_projection"
    by (simp add: touches_match_def fresh_projection_def empty_tables_def touches_of_def fun_eq_iff)
  then obtain pj n where pj: "project_until_caught_up env stored 0 fresh_projection = Some (Inr (pj, n))"
      "pj_ok pj" "map_of (tb_touches (pj_tables pj)) = touches_of (bt_files env) (bt_context env) (tb_ops (pj_tables pj))"
    using caught_up [OF fresh_ok(1) assms refl, of 0] by (auto simp: touches_match_def)
  have ok: "tl_ok (timeline_of pj)" using pj(2) by (simp add: pj_ok_def)
  have "\<exists>row. map_of (tb_turns (pj_tables pj)) t = Some row \<and> 0 \<le> x
      \<and> x < 1024 * tr_operation_count row \<and> (tr_operation_count row \<le> 2 ^ 21 \<longrightarrow> x < 2 ^ 31)"
    if x: "map_of (tb_touches (pj_tables pj)) (t, x) \<noteq> None" for t x
  proof -
    have "map_of (tb_ops (pj_tables pj)) (t, x div 1024) \<noteq> None"
      using x unfolding pj(3) touches_of_def touch_owner_def TOUCHES_PER_OPERATION_def
      by (auto split: option.splits)
    then obtain row where row: "map_of (tb_turns (pj_tables pj)) t = Some row" "0 \<le> x div 1024"
        "x div 1024 < tr_operation_count row"
      using tl_ok_ordD [OF ok, of t "x div 1024"] by (auto simp: timeline_of_def)
    then have "0 \<le> x" "x < 1024 * tr_operation_count row" by linarith+
    with row(1) show ?thesis by auto
  qed
  with pj(1) show ?thesis by blast
qed

lemma sample_touch:
  "touches_of (bt_files sample_env) (bt_context sample_env)
    (tl_ops (sp_events sample_env sample_log (timeline_of fresh_projection))) (0, 0) \<noteq> None"
  by code_simp

lemma sample_touched:
  "\<exists>pj n. project_until_caught_up sample_env sample_log 0 fresh_projection = Some (Inr (pj, n))
    \<and> map_of (tb_touches (pj_tables pj)) (0, 0) \<noteq> None"
proof -
  have todo: "pending sample_log (cursor (clear_stale fresh_projection)) = sample_log"
    by (simp add: pending_def sample_log_def sample_call_def sample_prompt_def)
  have "touches_right sample_env fresh_projection"
    by (simp add: touches_match_def fresh_projection_def empty_tables_def touches_of_def fun_eq_iff)
  then obtain pj n where pj: "project_until_caught_up sample_env sample_log 0 fresh_projection = Some (Inr (pj, n))"
      "timeline_of pj = sp_events sample_env sample_log (timeline_of fresh_projection)"
      "map_of (tb_touches (pj_tables pj)) =
        touches_of (bt_files sample_env) (bt_context sample_env) (tb_ops (pj_tables pj))"
    using caught_up [OF fresh_ok(1) sample_env_live sample_log_distinct refl, of 0] unfolding todo
    by (auto simp: touches_match_def)
  have "tb_ops (pj_tables pj) = tl_ops (sp_events sample_env sample_log (timeline_of fresh_projection))"
    using pj(2) [symmetric] by (simp add: timeline_of_def)
  then have "map_of (tb_touches (pj_tables pj)) (0, 0) \<noteq> None" using sample_touch pj(3) by simp
  with pj(1) show ?thesis by (intro exI [of _ pj] exI [of _ n]) simp
qed

theorem touch_ordinals_bounded_witness:
  "\<exists>pj n row. project_until_caught_up sample_env sample_log 0 fresh_projection = Some (Inr (pj, n))
    \<and> map_of (tb_touches (pj_tables pj)) (0, 0) \<noteq> None
    \<and> map_of (tb_turns (pj_tables pj)) 0 = Some row \<and> 0 < 1024 * tr_operation_count row"
proof -
  obtain pj n where pj: "project_until_caught_up sample_env sample_log 0 fresh_projection = Some (Inr (pj, n))"
      "map_of (tb_touches (pj_tables pj)) (0, 0) \<noteq> None" using sample_touched by (elim exE conjE) (rule that)
  obtain pj' n' where "project_until_caught_up sample_env sample_log 0 fresh_projection = Some (Inr (pj', n'))"
      and all: "\<And>t x. map_of (tb_touches (pj_tables pj')) (t, x) \<noteq> None \<Longrightarrow>
        \<exists>row. map_of (tb_turns (pj_tables pj')) t = Some row \<and> 0 \<le> x \<and> x < 1024 * tr_operation_count row
          \<and> (tr_operation_count row \<le> 2 ^ 21 \<longrightarrow> x < 2 ^ 31)"
    using touch_ordinals_bounded [OF sample_env_live sample_log_distinct] by (elim exE conjE) (rule that, assumption, blast)
  with pj(1) have "pj' = pj" by simp
  with all [of 0 0] pj(2) obtain row where "map_of (tb_turns (pj_tables pj)) 0 = Some row" "0 < 1024 * tr_operation_count row"
    by blast
  with pj show ?thesis by (intro exI [of _ pj] exI [of _ n] exI [of _ row]) simp
qed

text \<open>
  A prompt that was already projected under its id, as when a transcript repeats its history,
  opens no second turn and adds no item or operation; only the cursor moves past it, and a link it
  carries is kept.
\<close>

theorem duplicate_prompt_ignored:
  assumes "projected pj" "cursor pj < se_byte_offset e"
    and "is_real_user_prompt e" "se_event_uuid e = Some i" "evidence_in e = []" "se_subtype e \<noteq> Some ''inherited_history''"
    and "row \<in> snd ` set (tb_turns (pj_tables pj))" "tr_prompt_event_uuid row = Some i"
  shows "\<exists>pj'. reduce_batch env [e] pj = Inr pj'
    \<and> pj_state pj' = (pj_state pj)\<lparr>ss_projected_through := se_byte_offset e\<rparr>
    \<and> tb_turns (pj_tables pj') = tb_turns (pj_tables pj) \<and> tb_items (pj_tables pj') = tb_items (pj_tables pj)
    \<and> tb_ops (pj_tables pj') = tb_ops (pj_tables pj)"
proof -
  let ?v = "timeline_of pj"
  obtain pj' where p: "reduce_batch env [e] pj = Inr pj'" "timeline_of pj' = sp_events env [e] ?v"
    using batch_refines [of pj "[e]" env] projected_ok [OF assms(1)] assms(2) by auto
  have "sp_correlate (bt_reduce env) e w = (e, w)" for w using assms(5) by (simp add: sp_correlate_def)
  moreover have "prompt_known i ((sp_through e ?v)\<lparr>tl_links := ls\<rparr>)" for ls
    using assms(7,8) by (auto simp: prompt_known_def list_ex_iff sp_through_def timeline_of_def)
  ultimately have "sp_events env [e] ?v = (sp_through e ?v)\<lparr>tl_links := tl_links (sp_through e ?v)
      \<union> links_of (bt_reduce env) (bt_session env) (bt_child_of env) e\<rparr>"
    using assms(3,4,6) by (simp add: sp_applies_def sp_apply_def Let_def)
  with p show ?thesis
    using assms(2) by (auto simp: timeline_of_def sp_through_def max_def)
qed

end
