(* ===== verification/Text_Ops.thy ===== *)
theory Text_Ops
  imports Prelude
begin

text \<open>
  The operations of \<^verbatim>\<open>str\<close> that the transcript code uses beyond those of the prelude: lines,
  splits from the right, searches and trims at given characters. Tests for ASCII classes are
  byte tests, since no byte of a longer UTF-8 sequence is ASCII.
\<close>

definition ascii_upper :: "char \<Rightarrow> bool" where
  "ascii_upper c \<longleftrightarrow> (let n = of_char c :: nat in 65 \<le> n \<and> n \<le> 90)"

definition ascii_lower :: "char \<Rightarrow> bool" where
  "ascii_lower c \<longleftrightarrow> (let n = of_char c :: nat in 97 \<le> n \<and> n \<le> 122)"

definition ascii_digit :: "char \<Rightarrow> bool" where
  "ascii_digit c \<longleftrightarrow> (let n = of_char c :: nat in 48 \<le> n \<and> n \<le> 57)"

definition ascii_alphanumeric :: "char \<Rightarrow> bool" where
  "ascii_alphanumeric c \<longleftrightarrow> ascii_upper c \<or> ascii_lower c \<or> ascii_digit c"

text \<open>Space, tab, line feed, form feed and carriage return.\<close>

definition ascii_whitespace :: "char \<Rightarrow> bool" where
  "ascii_whitespace c \<longleftrightarrow> (let n = of_char c :: nat in n = 32 \<or> n = 9 \<or> n = 10 \<or> n = 12 \<or> n = 13)"

definition ascii_lower_of :: "char \<Rightarrow> char" where
  "ascii_lower_of c = (if ascii_upper c then char_of ((of_char c :: nat) + 32) else c)"

abbreviation newline :: char where "newline \<equiv> CHR 0x0A"

section \<open>Lines\<close>

fun split_inclusive :: "char \<Rightarrow> string \<Rightarrow> string list" where
  "split_inclusive c [] = []"
| "split_inclusive c (x # s) =
     (if x = c then [x] # split_inclusive c s
      else case split_inclusive c s of [] \<Rightarrow> [[x]] | l # ls \<Rightarrow> (x # l) # ls)"

definition strip_line_end :: "string \<Rightarrow> string" where
  "strip_line_end l =
     (if l \<noteq> [] \<and> last l = newline
      then let l = butlast l in if l \<noteq> [] \<and> last l = CHR 0x0D then butlast l else l
      else l)"

definition lines :: "string \<Rightarrow> string list" where
  "lines s = map strip_line_end (split_inclusive newline s)"

lemma split_inclusive_eq_Nil [simp]: "split_inclusive c s = [] \<longleftrightarrow> s = []"
  by (cases s) (auto split: list.split)

lemma concat_split_inclusive [simp]: "concat (split_inclusive c s) = s"
  by (induction s) (auto split: list.split)

lemma split_inclusive_nonempty: "l \<in> set (split_inclusive c s) \<Longrightarrow> l \<noteq> []"
  by (induction s arbitrary: l) (auto split: list.splits if_splits)

lemma split_inclusive_line:
  "c \<notin> set l \<Longrightarrow> split_inclusive c (l @ c # s) = (l @ [c]) # split_inclusive c s"
  by (induction l) auto

lemma split_inclusive_last: "c \<notin> set l \<Longrightarrow> l \<noteq> [] \<Longrightarrow> split_inclusive c l = [l]"
proof (induction l)
  case (Cons x l)
  then show ?case by (cases l) auto
qed simp

text \<open>A text ending in a line feed splits before what follows it.\<close>

lemma split_inclusive_append:
  "split_inclusive c (s @ c # t) = split_inclusive c (s @ [c]) @ split_inclusive c t"
proof (induction s)
  case (Cons x s)
  then show ?case by (cases "split_inclusive c (s @ [c])") (auto split: list.split)
qed simp

lemma lines_line [simp]:
  assumes "newline \<notin> set l" "l = [] \<or> last l \<noteq> CHR 0x0D"
  shows "lines (l @ newline # s) = l # lines s"
  using assms by (auto simp: lines_def split_inclusive_line strip_line_end_def)

section \<open>Searching, splitting and trimming\<close>

text \<open>\<^verbatim>\<open>s.find(p)\<close>, and \<^verbatim>\<open>s.rsplit(p).next()\<close>: what follows the last \<open>p\<close>.\<close>

definition str_find :: "string \<Rightarrow> string \<Rightarrow> nat option" where
  "str_find s p = map_option (\<lambda>(a, _). length a) (split_once s p)"

definition rsplit_last :: "string \<Rightarrow> string \<Rightarrow> string" where
  "rsplit_last s p = (case split_once (rev s) (rev p) of Some (a, _) \<Rightarrow> rev a | None \<Rightarrow> s)"

definition strip_suffix :: "string \<Rightarrow> string \<Rightarrow> string option" where
  "strip_suffix s p = (if ends_with s p then Some (take (length s - length p) s) else None)"

definition trim_end_matches :: "char list \<Rightarrow> string \<Rightarrow> string" where
  "trim_end_matches cs s = rev (dropWhile (\<lambda>c. c \<in> set cs) (rev s))"

definition trim_matches :: "char list \<Rightarrow> string \<Rightarrow> string" where
  "trim_matches cs s = trim_end_matches cs (dropWhile (\<lambda>c. c \<in> set cs) s)"

lemma str_find_bound: "str_find s p = Some n \<Longrightarrow> n + length p \<le> length s"
  by (auto simp: str_find_def dest!: split_once_Some)

lemma trim_end_matches_prefix: "\<exists>t. s = trim_end_matches cs s @ t"
proof -
  have "rev s = takeWhile (\<lambda>c. c \<in> set cs) (rev s) @ dropWhile (\<lambda>c. c \<in> set cs) (rev s)" by simp
  then have "s = trim_end_matches cs s @ rev (takeWhile (\<lambda>c. c \<in> set cs) (rev s))"
    unfolding trim_end_matches_def by (metis rev_append rev_rev_ident)
  then show ?thesis ..
qed

lemma trim_end_matches_id: "s = [] \<or> last s \<notin> set cs \<Longrightarrow> trim_end_matches cs s = s"
  by (cases s rule: rev_cases) (auto simp: trim_end_matches_def)

lemma trim_end_matches_snoc: "c \<in> set cs \<Longrightarrow> trim_end_matches cs (s @ [c]) = trim_end_matches cs s"
  by (simp add: trim_end_matches_def)

section \<open>Snake case\<close>

text \<open>\<open>prev_lower\<close> remembers whether the character before was a lower-case letter or a digit.\<close>

fun snake_from :: "bool \<Rightarrow> string \<Rightarrow> string" where
  "snake_from prev_lower [] = []"
| "snake_from prev_lower (c # s) =
     (if ascii_upper c
      then (if prev_lower then ''_'' else []) @ ascii_lower_of c # snake_from False s
      else if c = CHR ''-'' \<or> c = CHR '' '' then CHR ''_'' # snake_from False s
      else c # snake_from (ascii_lower c \<or> ascii_digit c) s)"

definition to_snake_case :: "string \<Rightarrow> string" where
  "to_snake_case s = snake_from False s"

definition snake_char :: "char \<Rightarrow> bool" where
  "snake_char c \<longleftrightarrow> \<not> ascii_upper c \<and> c \<noteq> CHR ''-'' \<and> c \<noteq> CHR '' ''"

lemma of_char_ascii_lower_of: "ascii_upper c \<Longrightarrow> of_char (ascii_lower_of c) = (of_char c :: nat) + 32"
  by (simp add: ascii_lower_of_def ascii_upper_def Let_def)

lemma not_ascii_upper_lower_of: "\<not> ascii_upper (ascii_lower_of c)"
proof (cases "ascii_upper c")
  case True
  with of_char_ascii_lower_of [OF True] show ?thesis by (simp add: ascii_upper_def Let_def)
qed (simp add: ascii_lower_of_def)

lemma snake_char_lower_of: "ascii_upper c \<Longrightarrow> snake_char (ascii_lower_of c)"
  using of_char_ascii_lower_of [of c] not_ascii_upper_lower_of [of c]
  by (auto simp: snake_char_def ascii_upper_def)

lemma snake_from_chars: "c \<in> set (snake_from b s) \<Longrightarrow> snake_char c"
proof (induction b s rule: snake_from.induct)
  case (2 b x s)
  then show ?case
    by (auto simp: snake_char_lower_of split: if_splits) (auto simp: snake_char_def ascii_upper_def)
qed simp

lemma snake_from_id: "\<forall>c \<in> set s. snake_char c \<Longrightarrow> snake_from b s = s"
  by (induction s arbitrary: b) (auto simp: snake_char_def)

text \<open>Names already in snake case stay as they are.\<close>

lemma to_snake_case_idem [simp]: "to_snake_case (to_snake_case s) = to_snake_case s"
  unfolding to_snake_case_def by (rule snake_from_id) (auto dest: snake_from_chars)

lemmas text_ops_eval = ascii_upper_def ascii_lower_def ascii_digit_def ascii_alphanumeric_def
  ascii_whitespace_def ascii_lower_of_def strip_line_end_def lines_def str_find_def rsplit_last_def
  strip_suffix_def trim_end_matches_def trim_matches_def to_snake_case_def

declare text_ops_eval [text_simps]

end
