(* ===== verification/Code_Mode.thy ===== *)
theory Code_Mode
  imports Timeline_Types Text_Ops
begin

text \<open>
  The tool calls inside a Codex Code Mode snippet (\<^verbatim>\<open>canonical/code_mode.rs\<close>). The JavaScript
  grammar and the JSON text format are libraries: \<open>syntax_lib\<close> holds what the code calls of
  them, the parse of a snippet as a syntax tree, and the parsing and printing of JSON. A node has
  its kind, its text (none where the bytes are not UTF-8) and its children, each with its field
  name and whether it is named. A slice out of range is a panic of the program, an error here.
\<close>

datatype js_node =
  JsNode (node_kind: string) (node_text: "string option")
    (node_children: "(string option \<times> bool \<times> js_node) list")

record syntax_lib =
  js_parse :: "string \<Rightarrow> js_node option"
  from_str :: "string \<Rightarrow> json option"
  to_json_string :: "json \<Rightarrow> string"

datatype panic = SliceOutOfRange | StackOverflow

definition from_str_string :: "syntax_lib \<Rightarrow> string \<Rightarrow> string option" where
  "from_str_string lib raw = Option.bind (from_str lib raw) as_str"

definition named_children :: "js_node \<Rightarrow> js_node list" where
  "named_children n = map (\<lambda>(_, _, c). c) (filter (\<lambda>(_, named, _). named) (node_children n))"

definition named_child_0 :: "js_node \<Rightarrow> js_node option" where
  "named_child_0 n = (case named_children n of [] \<Rightarrow> None | c # _ \<Rightarrow> Some c)"

definition child_by_field_name :: "js_node \<Rightarrow> string \<Rightarrow> js_node option" where
  "child_by_field_name n field =
     map_option (\<lambda>(_, _, c). c) (find (\<lambda>(f, _, _). f = Some field) (node_children n))"

text \<open>A weight that every child is below, for the recursion over trees.\<close>

primrec node_weight :: "js_node \<Rightarrow> nat" where
  "node_weight (JsNode k t cs) = Suc (sum_list (map (\<lambda>(_, _, w). Suc w) (map (map_prod id (map_prod id node_weight)) cs)))"

definition nodes_weight :: "js_node list \<Rightarrow> nat" where
  "nodes_weight ns = sum_list (map (\<lambda>n. Suc (node_weight n)) ns)"

lemma nodes_weight_simps [simp]:
  "nodes_weight [] = 0" "nodes_weight (n # ns) = Suc (node_weight n + nodes_weight ns)"
  by (simp_all add: nodes_weight_def)

lemma node_weight_eq:
  "node_weight n = Suc (nodes_weight (map (\<lambda>(_, _, c). c) (node_children n)))"
proof (cases n)
  case (JsNode k t cs)
  then show ?thesis by (induction cs arbitrary: n) (auto simp: nodes_weight_def)
qed

lemma nodes_weight_filter: "nodes_weight (map f (filter P xs)) \<le> nodes_weight (map f xs)"
  by (induction xs) auto

lemma nodes_weight_mem: "n \<in> set ns \<Longrightarrow> node_weight n < nodes_weight ns"
  by (induction ns) auto

lemma named_children_weight [simp]: "nodes_weight (named_children n) < node_weight n"
  using nodes_weight_filter [of "\<lambda>(_, _, c). c" "\<lambda>(_, named, _). named" "node_children n"]
  by (simp add: named_children_def node_weight_eq)

lemma named_child_0_weight: "named_child_0 n = Some c \<Longrightarrow> node_weight c < node_weight n"
  using order.strict_trans [OF nodes_weight_mem named_children_weight, of c n]
  by (auto simp: named_child_0_def split: list.splits)

lemma child_by_field_weight:
  assumes "child_by_field_name n f = Some c"
  shows "node_weight c < node_weight n"
proof -
  obtain g b where "(g, b, c) \<in> set (node_children n)"
    using assms by (auto simp: child_by_field_name_def dest!: find_Some_in)
  then have "c \<in> set (map (\<lambda>(_, _, c). c) (node_children n))" by force
  from nodes_weight_mem [OF this] show ?thesis by (simp add: node_weight_eq)
qed

section \<open>Literals\<close>

definition strip_nul :: "string \<Rightarrow> string" where
  "strip_nul s = filter (\<lambda>c. c \<noteq> CHR 0x00) s"

text \<open>The text between the first and the last byte, \<^verbatim>\<open>raw[1..raw.len().saturating_sub(1)]\<close>.\<close>

definition inner_slice :: "string \<Rightarrow> panic + string" where
  "inner_slice raw = (if length raw < 2 then Inl SliceOutOfRange else Inr (butlast (tl raw)))"

fun decode_single_quoted :: "string \<Rightarrow> string" where
  "decode_single_quoted [] = []"
| "decode_single_quoted [c] = [c]"
| "decode_single_quoted (c # d # s) =
     (if c \<noteq> CHR 0x5C then c # decode_single_quoted (d # s)
      else if d = CHR ''n'' then newline # decode_single_quoted s
      else if d = CHR ''r'' then CHR 0x0D # decode_single_quoted s
      else if d = CHR ''t'' then CHR 0x09 # decode_single_quoted s
      else if d = CHR 0x27 then CHR 0x27 # decode_single_quoted s
      else if d = CHR 0x5C then CHR 0x5C # decode_single_quoted s
      else CHR 0x5C # d # decode_single_quoted s)"

definition decode_string :: "syntax_lib \<Rightarrow> string \<Rightarrow> panic + string option" where
  "decode_string lib raw =
     (if starts_with raw [CHR 0x22] then Inr (map_option strip_nul (from_str_string lib raw))
      else if starts_with raw [CHR 0x27] \<and> ends_with raw [CHR 0x27]
        then res_bind (inner_slice raw) (\<lambda>body. Inr (Some (strip_nul (decode_single_quoted body))))
      else Inr None)"

definition decode_template :: "string \<Rightarrow> panic + string option" where
  "decode_template raw =
     (if \<not> starts_with raw [CHR 0x60] \<or> \<not> ends_with raw [CHR 0x60] \<or> str_contains raw ''${''
      then Inr None
      else res_bind (inner_slice raw) (\<lambda>body. Inr (Some (strip_nul body))))"

definition property_name :: "syntax_lib \<Rightarrow> js_node \<Rightarrow> panic + string option" where
  "property_name lib n =
     (case node_text n of
        None \<Rightarrow> Inr None
      | Some text \<Rightarrow> if node_kind n = ''string'' then decode_string lib text else Inr (Some text))"

text \<open>The literal of a node: \<open>js_items\<close> is the traversal of an array, \<open>js_object\<close> the loop of an
  object. An absent result skips the element, the pair or the whole literal.\<close>

function (sequential)
  js_literal :: "syntax_lib \<Rightarrow> js_node \<Rightarrow> panic + json option"
  and js_items :: "syntax_lib \<Rightarrow> js_node list \<Rightarrow> panic + json list"
  and js_object :: "syntax_lib \<Rightarrow> js_node list \<Rightarrow> (string \<times> json) list \<Rightarrow> panic + (string \<times> json) list"
where
  "js_literal lib n =
     (if node_kind n = ''object'' then
        res_bind (js_object lib (named_children n) []) (\<lambda>ms. Inr (Some (JObj ms)))
      else if node_kind n = ''array'' then
        res_bind (js_items lib (named_children n)) (\<lambda>xs. Inr (Some (JArr xs)))
      else if node_kind n = ''string'' then
        (case node_text n of
           None \<Rightarrow> Inr None
         | Some t \<Rightarrow> res_bind (decode_string lib t) (\<lambda>s. Inr (map_option JStr s)))
      else if node_kind n = ''template_string'' then
        (case node_text n of
           None \<Rightarrow> Inr None
         | Some t \<Rightarrow> res_bind (decode_template t) (\<lambda>s. Inr (map_option JStr s)))
      else if node_kind n = ''number'' then Inr (Option.bind (node_text n) (from_str lib))
      else if node_kind n = ''true'' then Inr (Some (JBool True))
      else if node_kind n = ''false'' then Inr (Some (JBool False))
      else if node_kind n = ''null'' then Inr (Some JNull)
      else if node_kind n = ''parenthesized_expression'' then
        (case named_child_0 n of None \<Rightarrow> Inr None | Some c \<Rightarrow> js_literal lib c)
      else if node_kind n = ''unary_expression'' then Inr (Option.bind (node_text n) (from_str lib))
      else Inr None)"
| "js_items lib [] = Inr []"
| "js_items lib (c # cs) =
     res_bind (js_literal lib c) (\<lambda>v.
     res_bind (js_items lib cs) (\<lambda>vs. Inr (case v of None \<Rightarrow> vs | Some x \<Rightarrow> x # vs)))"
| "js_object lib [] obj = Inr obj"
| "js_object lib (c # cs) obj =
     (case (if node_kind c = ''pair''
            then (child_by_field_name c ''key'', child_by_field_name c ''value'') else (None, None)) of
        (Some key_node, Some value_node) \<Rightarrow>
          res_bind (property_name lib key_node) (\<lambda>key.
            case key of
              None \<Rightarrow> js_object lib cs obj
            | Some k \<Rightarrow>
                res_bind (js_literal lib value_node) (\<lambda>v.
                  case v of
                    None \<Rightarrow> js_object lib cs obj
                  | Some x \<Rightarrow> js_object lib cs (put_member k x obj)))
      | _ \<Rightarrow> js_object lib cs obj)"
  by pat_completeness auto
termination
  by (relation "measure (case_sum (\<lambda>(_, n). node_weight n)
        (case_sum (\<lambda>(_, ns). nodes_weight ns) (\<lambda>(_, ns, _). nodes_weight ns)))")
    (auto simp: named_child_0_weight less_Suc_eq_le split: if_splits
      dest!: sym [of "Some _"] child_by_field_weight)

declare js_literal.simps [simp del]

section \<open>Calls\<close>

record code_mode_call =
  cm_raw_name :: string
  cm_input :: json

definition tool_call :: "syntax_lib \<Rightarrow> js_node \<Rightarrow> panic + code_mode_call option" where
  "tool_call lib n =
     (case Option.bind (child_by_field_name n ''function'') (\<lambda>function.
           if node_kind function \<noteq> ''member_expression'' then None
           else Option.bind (child_by_field_name function ''object'') (\<lambda>object.
           if node_text object \<noteq> Some ''tools'' then None
           else Option.bind (child_by_field_name function ''property'') (\<lambda>property.
           Option.bind (node_text property) (\<lambda>raw_name.
           map_option (Pair raw_name) (child_by_field_name n ''arguments''))))) of
        None \<Rightarrow> Inr None
      | Some (raw_name, arguments) \<Rightarrow>
          res_bind (case named_child_0 arguments of
              None \<Rightarrow> Inr None
            | Some argument \<Rightarrow> js_literal lib argument) (\<lambda>input.
            Inr (Some \<lparr>cm_raw_name = raw_name, cm_input = unwrap_or input (JObj [])\<rparr>)))"

function (sequential)
  collect_tool_calls :: "syntax_lib \<Rightarrow> js_node \<Rightarrow> panic + code_mode_call list"
  and collect_children :: "syntax_lib \<Rightarrow> js_node list \<Rightarrow> panic + code_mode_call list"
where
  "collect_tool_calls lib n =
     res_bind (if node_kind n = ''call_expression'' then tool_call lib n else Inr None) (\<lambda>call.
       case call of
         Some c \<Rightarrow> Inr [c]
       | None \<Rightarrow> collect_children lib (named_children n))"
| "collect_children lib [] = Inr []"
| "collect_children lib (c # cs) =
     res_bind (collect_tool_calls lib c) (\<lambda>xs.
     res_bind (collect_children lib cs) (\<lambda>ys. Inr (xs @ ys)))"
  by pat_completeness auto
termination
  by (relation "measure (case_sum (\<lambda>(_, n). node_weight n) (\<lambda>(_, ns). nodes_weight ns))") auto

declare collect_tool_calls.simps [simp del]

definition parse_tool_calls :: "syntax_lib \<Rightarrow> string \<Rightarrow> panic + code_mode_call list" where
  "parse_tool_calls lib code =
     (case js_parse lib code of None \<Rightarrow> Inr [] | Some tree \<Rightarrow> collect_tool_calls lib tree)"

section \<open>The executable of a shell command\<close>

definition is_assignment :: "string \<Rightarrow> bool" where
  "is_assignment token =
     (case split_once token ''='' of
        None \<Rightarrow> False
      | Some (name, _) \<Rightarrow> name \<noteq> [] \<and> list_all (\<lambda>c. ascii_alphanumeric c \<or> c = CHR ''_'') name)"

text \<open>The tokens of the first command of a line: the characters left, the token being read, the
  quote that is open and whether a backslash came before.\<close>

fun command_tokens :: "string list \<Rightarrow> string \<Rightarrow> string option \<Rightarrow> bool \<Rightarrow> string list" where
  "command_tokens [] token quote escaped = (if token = [] then [] else [token])"
| "command_tokens (g # gs) token quote escaped =
     (if escaped then command_tokens gs (token @ g) quote False
      else if g = [CHR 0x5C] \<and> quote \<noteq> Some [CHR 0x27] then command_tokens gs token quote True
      else case quote of
        Some delimiter \<Rightarrow>
          if g = delimiter then command_tokens gs token None False
          else command_tokens gs (token @ g) quote False
      | None \<Rightarrow>
          if g = [CHR 0x27] \<or> g = [CHR 0x22] \<or> g = [CHR 0x60]
            then command_tokens gs token (Some g) False
          else if is_whitespace g
            then (if token = [] then command_tokens gs [] None False
                  else token # command_tokens gs [] None False)
          else if g = '';'' \<or> g = ''|'' \<or> g = ''&'' then (if token = [] then [] else [token])
          else command_tokens gs (token @ g) None False)"

definition first_command_tokens :: "string \<Rightarrow> string list" where
  "first_command_tokens command = command_tokens (chars command) [] None False"

definition is_option_token :: "string \<Rightarrow> bool" where
  "is_option_token token \<longleftrightarrow> starts_with token ''-''"

text \<open>The loop over wrappers, on the tokens from the index on.\<close>

function skip_wrappers :: "string list \<Rightarrow> string option" where
  "skip_wrappers [] = None"
| "skip_wrappers (executable # rest) =
     (if executable \<in> {''env'', ''command'', ''sudo''} then
        skip_wrappers (dropWhile is_assignment (dropWhile is_option_token rest))
      else if executable = ''with-cred'' then
        (if ''--'' \<in> set rest then skip_wrappers (tl (dropWhile (\<lambda>t. t \<noteq> ''--'') rest))
         else skip_wrappers (tl rest))
      else if executable = ''timeout'' then skip_wrappers (tl (dropWhile is_option_token rest))
      else Some (to_ascii_lowercase (rsplit_last executable ''/'')))"
  by pat_completeness auto
termination
  by (relation "measure length")
    (auto simp: less_Suc_eq_le intro: order_trans [OF length_dropWhile_le] order_trans [OF diff_le_self])

definition shell_executable :: "string \<Rightarrow> string option" where
  "shell_executable command = skip_wrappers (dropWhile is_assignment (first_command_tokens command))"

end
