(* ===== verification/Canonical_Tools.thy ===== *)
theory Canonical_Tools
  imports Code_Mode
begin

text \<open>
  Canonical tool names, inputs and results (\<^verbatim>\<open>canonical/tools.rs\<close>): the names of the agents'
  tools, the shape of their inputs, Codex patches as file edits, Code Mode snippets as the calls
  they make, and the keys of tool results.
\<close>

section \<open>Names\<close>

definition KNOWN_TOOLS :: "(string \<times> string) list" where
  "KNOWN_TOOLS = [
     (''Read'', ''read''), (''read_file'', ''read''),
     (''Write'', ''write''), (''write_file'', ''write''),
     (''Edit'', ''edit''), (''apply_diff'', ''edit''),
     (''MultiEdit'', ''multi_edit''),
     (''Bash'', ''bash''), (''shell'', ''bash''), (''execute_shell'', ''bash''),
     (''Grep'', ''grep''), (''grep_search'', ''grep''),
     (''Glob'', ''glob''), (''glob_files'', ''glob''),
     (''Task'', ''task''), (''Agent'', ''task''), (''spawn_agent'', ''task''),
     (''TodoWrite'', ''todo_write''), (''todo_update'', ''todo_write''),
     (''WebFetch'', ''web_fetch''), (''fetch_url'', ''web_fetch''),
     (''WebSearch'', ''web_search''), (''web_search_query'', ''web_search''),
     (''NotebookEdit'', ''notebook_edit''),
     (''BashOutput'', ''bash_output''),
     (''KillShell'', ''kill_shell''), (''killShell'', ''kill_shell''),
     (''ExitPlanMode'', ''exit_plan_mode''), (''exitPlanMode'', ''exit_plan_mode'')]"

definition canonicalize_tool_name :: "string \<Rightarrow> string" where
  "canonicalize_tool_name raw =
     (let name = rsplit_last raw ''.''
      in case map_of KNOWN_TOOLS name of Some canonical \<Rightarrow> canonical | None \<Rightarrow> to_snake_case name)"

section \<open>Patches\<close>

record file_edit_buf =
  fe_path :: string
  fe_operation :: string
  fe_old_path :: "string option"
  fe_diff :: string

definition file_edit_new :: "string \<Rightarrow> string \<Rightarrow> string option \<Rightarrow> file_edit_buf" where
  "file_edit_new path operation old_path =
     \<lparr>fe_path = path, fe_operation = operation, fe_old_path = old_path, fe_diff = []\<rparr>"

definition file_edit_value :: "file_edit_buf \<Rightarrow> json" where
  "file_edit_value b = JObj ([(''path'', JStr (fe_path b)), (''operation'', JStr (fe_operation b))]
     @ (case fe_old_path b of None \<Rightarrow> [] | Some p \<Rightarrow> [(''old_path'', JStr p)])
     @ [(''diff'', JStr (trim_end_matches [newline] (fe_diff b)))])"

definition split_move :: "string \<Rightarrow> (string \<times> string) option" where
  "split_move rest =
     Option.bind (split_once rest '' to '') (\<lambda>(a, b).
       let from = trim a; target = trim b in if from = [] \<or> target = [] then None else Some (from, target))"

text \<open>The buffer a directive opens, if it is one of the four that name a file.\<close>

definition patch_directive :: "string \<Rightarrow> file_edit_buf option" where
  "patch_directive header =
     (case strip_prefix header ''Update File: '' of
        Some path \<Rightarrow> Some (file_edit_new (trim path) ''update'' None)
      | None \<Rightarrow>
     (case strip_prefix header ''Add File: '' of
        Some path \<Rightarrow> Some (file_edit_new (trim path) ''add'' None)
      | None \<Rightarrow>
     (case strip_prefix header ''Delete File: '' of
        Some path \<Rightarrow> Some (file_edit_new (trim path) ''delete'' None)
      | None \<Rightarrow>
     (case strip_prefix header ''Move File: '' of
        Some rest \<Rightarrow>
          (let (from, target) = unwrap_or (split_move rest) (trim rest, trim rest)
           in Some (file_edit_new target ''move'' (Some from)))
      | None \<Rightarrow> None))))"

fun patch_lines :: "string list \<Rightarrow> file_edit_buf option \<Rightarrow> json list" where
  "patch_lines [] current = (case current of None \<Rightarrow> [] | Some b \<Rightarrow> [file_edit_value b])"
| "patch_lines (line # ls) current =
     (case strip_prefix line ''*** '' of
        Some header \<Rightarrow>
          (case current of None \<Rightarrow> [] | Some b \<Rightarrow> [file_edit_value b]) @
          patch_lines ls
            (if header = ''Begin Patch'' \<or> header = ''End Patch'' then None else patch_directive header)
      | None \<Rightarrow>
          patch_lines ls (map_option (\<lambda>b. b\<lparr>fe_diff := fe_diff b @ line @ [newline]\<rparr>) current))"

definition parse_apply_patch :: "string \<Rightarrow> json" where
  "parse_apply_patch raw = JObj [(''file_edits'', JArr (patch_lines (lines raw) None))]"

section \<open>Inputs\<close>

definition copy_key ::
  "(string \<times> json) list \<Rightarrow> string \<Rightarrow> (string \<times> json) list \<Rightarrow> (string \<times> json) list" where
  "copy_key src key dst = (case map_of src key of Some v \<Rightarrow> put_member key v dst | None \<Rightarrow> dst)"

fun copy_first ::
  "(string \<times> json) list \<Rightarrow> string \<Rightarrow> string list \<Rightarrow> (string \<times> json) list \<Rightarrow> (string \<times> json) list" where
  "copy_first src tgt [] dst = dst"
| "copy_first src tgt (key # keys) dst =
     (case map_of src key of
        Some v \<Rightarrow> put_member tgt v dst
      | None \<Rightarrow> copy_first src tgt keys dst)"

definition get_either :: "(string \<times> json) list \<Rightarrow> string \<Rightarrow> string \<Rightarrow> json \<Rightarrow> json" where
  "get_either obj a b d = unwrap_or (or_else (map_of obj a) (map_of obj b)) d"

text \<open>One entry of \<^verbatim>\<open>file_edits\<close> for a replacement of \<^verbatim>\<open>old_text\<close> by \<^verbatim>\<open>new_text\<close>.\<close>

definition in_out_entry :: "json \<Rightarrow> (string \<times> json) list \<Rightarrow> json" where
  "in_out_entry path obj =
     JObj ([(''path'', path), (''operation'', JStr ''update''),
       (''in_out'', JObj [(''old_text'', get_either obj ''old_text'' ''old_string'' (JStr [])),
                         (''new_text'', get_either obj ''new_text'' ''new_string'' (JStr []))])]
      @ (case map_of obj ''replace_all'' of None \<Rightarrow> [] | Some v \<Rightarrow> [(''replace_all'', v)]))"

definition multi_edit_to_file_edit :: "json \<Rightarrow> json \<Rightarrow> json" where
  "multi_edit_to_file_edit path edit =
     (case edit of JObj obj \<Rightarrow> in_out_entry path obj | _ \<Rightarrow> JNull)"

definition canonical_object :: "string \<Rightarrow> (string \<times> json) list \<Rightarrow> (string \<times> json) list" where
  "canonical_object canonical_name obj =
     (if canonical_name = ''read'' then
        copy_key obj ''limit'' (copy_key obj ''offset''
          (copy_first obj ''path'' [''path'', ''file_path''] []))
      else if canonical_name = ''write'' then
        copy_key obj ''content'' (copy_first obj ''path'' [''path'', ''file_path''] [])
      else if canonical_name = ''edit'' then
        [(''file_edits'', JArr [in_out_entry (get_either obj ''path'' ''file_path'' JNull) obj])]
      else if canonical_name = ''multi_edit'' then
        [(''file_edits'', JArr
           (case map_of obj ''edits'' of
              Some (JArr edits) \<Rightarrow>
                map (multi_edit_to_file_edit (get_either obj ''path'' ''file_path'' JNull)) edits
            | _ \<Rightarrow> []))]
      else if canonical_name = ''bash'' then
        copy_key obj ''description'' (copy_key obj ''command'' [])
      else if canonical_name = ''grep'' then
        copy_first obj ''mode'' [''mode'', ''output_mode'']
          (copy_first obj ''path'' [''path'', ''glob''] (copy_key obj ''pattern'' []))
      else if canonical_name = ''glob'' then
        copy_key obj ''path'' (copy_key obj ''pattern'' [])
      else if canonical_name = ''task'' then
        copy_first obj ''prompt'' [''prompt'', ''message'']
          (copy_first obj ''description'' [''description'', ''task_name'']
            (copy_first obj ''agent'' [''agent'', ''subagent_type''] []))
      else if canonical_name = ''todo_write'' then copy_key obj ''todos'' []
      else if canonical_name = ''web_fetch'' then
        copy_key obj ''prompt'' (copy_key obj ''url'' [])
      else if canonical_name = ''web_search'' then
        copy_key obj ''prompt'' (copy_key obj ''query'' [])
      else obj)"

text \<open>
  The input of a call. The snippet of an \<^verbatim>\<open>exec\<close> call is handed to \<open>exec\<close>, which is
  \<open>parse_exec_code\<close> below: a snippet can itself call \<^verbatim>\<open>tools.exec\<close> with a snippet.
\<close>

definition canonicalize_input_with ::
  "(string \<Rightarrow> panic + json) \<Rightarrow> string \<Rightarrow> json \<Rightarrow> panic + json" where
  "canonicalize_input_with exec canonical_name input =
     (case input of
        JStr raw \<Rightarrow>
          if canonical_name = ''apply_patch'' then Inr (parse_apply_patch raw)
          else if canonical_name = ''exec'' then exec raw
          else Inr input
      | JObj obj \<Rightarrow> Inr (JObj (canonical_object canonical_name obj))
      | _ \<Rightarrow> Inr input)"

section \<open>Code Mode snippets\<close>

definition code_mode_tool_name :: "string \<Rightarrow> string" where
  "code_mode_tool_name raw_name = canonicalize_tool_name (rsplit_last raw_name ''__'')"

definition WEB_ACTIONS :: "string list" where
  "WEB_ACTIONS = [''search_query'', ''image_query'', ''open'', ''click'', ''find'', ''screenshot'',
     ''weather'', ''finance'', ''sports'', ''time'']"

definition code_mode_operation_name :: "string \<Rightarrow> string \<Rightarrow> json \<Rightarrow> string" where
  "code_mode_operation_name raw_name tool_name input =
     (if tool_name = ''exec_command'' then
        unwrap_or (Option.bind (Option.bind (or_else (jget input ''cmd'') (jget input ''command''))
          as_str) shell_executable) tool_name
      else if raw_name = ''web__run'' then
        (case filter (\<lambda>key. case jget input key of None \<Rightarrow> False | Some v \<Rightarrow> v \<noteq> JNull) WEB_ACTIONS of
           [] \<Rightarrow> tool_name
         | [action] \<Rightarrow> action
         | _ \<Rightarrow> ''parallel'')
      else tool_name)"

text \<open>The index of the quote that closes a literal, walking from \<open>idx\<close>.\<close>

fun closing_quote :: "nat \<Rightarrow> bool \<Rightarrow> string \<Rightarrow> nat option" where
  "closing_quote idx escaped [] = None"
| "closing_quote idx escaped (c # s) =
     (if escaped then closing_quote (Suc idx) False s
      else if c = CHR 0x5C then closing_quote (Suc idx) True s
      else if c = CHR 0x22 then Some idx
      else closing_quote (Suc idx) False s)"

definition js_string_literal_at :: "syntax_lib \<Rightarrow> string \<Rightarrow> nat \<Rightarrow> (string \<times> nat) option" where
  "js_string_literal_at lib code start =
     (if start \<ge> length code \<or> code ! start \<noteq> CHR 0x22 then None
      else Option.bind (closing_quote (Suc start) False (drop (Suc start) code)) (\<lambda>idx.
           Option.bind (from_str_string lib (take (Suc idx - start) (drop start code))) (\<lambda>decoded.
             Some (strip_nul decoded, Suc idx))))"

lemma closing_quote_ge: "closing_quote idx escaped s = Some n \<Longrightarrow> idx \<le> n"
  by (induction idx escaped s rule: closing_quote.induct) (auto split: if_splits)

lemma js_string_literal_advances: "js_string_literal_at lib code start = Some (s, e) \<Longrightarrow> start < e"
  by (auto simp: js_string_literal_at_def bind_eq_Some_conv split: if_splits dest: closing_quote_ge)

definition PATCH_LITERAL :: string where
  "PATCH_LITERAL = CHR 0x22 # ''*** Begin Patch''"

text \<open>The file edits of the patch literals of a snippet, from a position on.\<close>

function patch_edits :: "syntax_lib \<Rightarrow> string \<Rightarrow> nat \<Rightarrow> json list" where
  "patch_edits lib code search_from =
     (case str_find (drop search_from code) PATCH_LITERAL of
        None \<Rightarrow> []
      | Some found \<Rightarrow>
          (let literal_start = search_from + found
           in case js_string_literal_at lib code literal_start of
                None \<Rightarrow> patch_edits lib code (Suc literal_start)
              | Some (patch, end_index) \<Rightarrow>
                  (case jget (parse_apply_patch patch) ''file_edits'' of
                     Some (JArr entries) \<Rightarrow> entries
                   | _ \<Rightarrow> []) @ patch_edits lib code end_index))"
  by pat_completeness auto
termination
  by (relation "measure (\<lambda>(_, code, from). length code - from)")
    (auto dest!: str_find_bound js_string_literal_advances simp: PATCH_LITERAL_def)

declare patch_edits.simps [simp del]

record exec_operation =
  eo_raw_name :: string
  eo_tool_name :: string
  eo_input :: json
  eo_name :: string

definition exec_operation_value :: "exec_operation \<Rightarrow> json" where
  "exec_operation_value op = JObj [(''name'', JStr (eo_name op)), (''raw_name'', JStr (eo_raw_name op)),
     (''input'', eo_input op)]"

definition exec_commands :: "exec_operation list \<Rightarrow> string list" where
  "exec_commands ops = List.map_filter (\<lambda>op.
     if eo_tool_name op = ''exec_command''
     then Option.bind (or_else (jget (eo_input op) ''command'') (jget (eo_input op) ''cmd'')) as_str
     else None) ops"

definition extend_members ::
  "(string \<times> json) list \<Rightarrow> (string \<times> json) list \<Rightarrow> (string \<times> json) list" where
  "extend_members ms out = fold (\<lambda>(k, v). put_member k v) ms out"

definition exec_value :: "syntax_lib \<Rightarrow> string \<Rightarrow> exec_operation list \<Rightarrow> json" where
  "exec_value lib code ops =
     (let commands = exec_commands ops;
          single_input = (case ops of [op] \<Rightarrow> Some (eo_input op) | _ \<Rightarrow> None);
          file_edits = patch_edits lib code 0;
          out = (case single_input of
                   Some (JObj input) \<Rightarrow> extend_members input []
                 | _ \<Rightarrow> if ops \<noteq> [] then [(''operations'', JArr (map exec_operation_value ops))] else []);
          out = (if length commands > 1 \<or> (single_input = None \<and> commands \<noteq> [])
                 then put_member ''command'' (JStr (join '' && '' commands)) out else out);
          out = (if file_edits \<noteq> [] then put_member ''file_edits'' (JArr file_edits) out else out);
          edits = (map_of out ''file_edits'' \<noteq> None);
          out = (case map eo_name ops of
                   [] \<Rightarrow> out
                 | first # names \<Rightarrow>
                     put_member ''operation_name''
                       (JStr (if \<not> edits \<and> list_all (\<lambda>n. n = first) names then first
                              else if edits then ''apply_patch'' else ''parallel'')) out)
      in JObj (put_member ''code'' (JStr code) out))"

text \<open>
  \<open>depth\<close> bounds how deep snippets may nest; the program has its stack for it. The bound taken by
  \<open>canonicalize_tool_input\<close>, one more than the length of the snippet, is never reached when the
  libraries behave as documented, because a literal inside a snippet is shorter than the snippet.
\<close>

primrec parse_exec_code :: "syntax_lib \<Rightarrow> nat \<Rightarrow> string \<Rightarrow> panic + json" where
  "parse_exec_code lib 0 code = Inl StackOverflow"
| "parse_exec_code lib (Suc depth) code =
     res_bind (parse_tool_calls lib code) (\<lambda>calls.
     res_bind (res_map (\<lambda>call.
         let tool_name = code_mode_tool_name (cm_raw_name call) in
         res_bind (canonicalize_input_with (parse_exec_code lib depth) tool_name (cm_input call))
           (\<lambda>input. Inr \<lparr>eo_raw_name = cm_raw_name call, eo_tool_name = tool_name, eo_input = input,
              eo_name = code_mode_operation_name (cm_raw_name call) tool_name input\<rparr>)) calls)
       (\<lambda>ops. Inr (exec_value lib code ops)))"

definition canonicalize_tool_input :: "syntax_lib \<Rightarrow> string \<Rightarrow> json \<Rightarrow> panic + json" where
  "canonicalize_tool_input lib canonical_name input =
     canonicalize_input_with (\<lambda>code. parse_exec_code lib (Suc (length code)) code) canonical_name input"

text \<open>\<^verbatim>\<open>Map::remove\<close> puts the last member into the place of the one removed.\<close>

definition swap_remove :: "string \<Rightarrow> (string \<times> json) list \<Rightarrow> (string \<times> json) list" where
  "swap_remove k ms =
     (if map_of ms k = None then ms
      else butlast (ms[length (takeWhile (\<lambda>m. fst m \<noteq> k) ms) := last ms]))"

definition canonicalize_tool_use :: "syntax_lib \<Rightarrow> string \<Rightarrow> json \<Rightarrow> panic + (string \<times> json)" where
  "canonicalize_tool_use lib raw_name input =
     (let canonical_name = canonicalize_tool_name raw_name in
      res_bind (canonicalize_tool_input lib canonical_name input) (\<lambda>input.
        Inr (if canonical_name = ''exec''
             then (case input of
                     JObj ms \<Rightarrow>
                       (unwrap_or (Option.bind (map_of ms ''operation_name'') as_str) canonical_name,
                        JObj (swap_remove ''operation_name'' ms))
                   | _ \<Rightarrow> (canonical_name, input))
             else (canonical_name, input))))"

section \<open>Results\<close>

definition normalize_result_key :: "string \<Rightarrow> string" where
  "normalize_result_key raw =
     (if raw = ''filePath'' \<or> raw = ''file_path'' then ''path''
      else if raw = ''oldString'' \<or> raw = ''old_string'' then ''old_text''
      else if raw = ''newString'' \<or> raw = ''new_string'' then ''new_text''
      else if raw = ''replaceAll'' \<or> raw = ''replace_all'' then ''replace_all''
      else if raw = ''originalFile'' \<or> raw = ''original_file'' then ''original_file''
      else if raw = ''structuredPatch'' \<or> raw = ''structured_patch'' then ''structured_patch''
      else if raw = ''userModified'' \<or> raw = ''user_modified'' then ''user_modified''
      else to_snake_case raw)"

fun normalize_result_value :: "json \<Rightarrow> json" where
  "normalize_result_value (JArr xs) = JArr (map normalize_result_value xs)"
| "normalize_result_value (JObj ms) =
     JObj (fold (\<lambda>(k, v). put_member (normalize_result_key k) v)
       (map (\<lambda>m. (fst m, normalize_result_value (snd m))) ms) [])"
| "normalize_result_value v = v"

definition canonicalize_tool_result_payload :: "json \<Rightarrow> json" where
  "canonicalize_tool_result_payload payload = normalize_result_value payload"

end
