(* ===== verification/Canonical.thy ===== *)
theory Canonical
  imports Canonical_Tools
begin

text \<open>
  The canonical event of a transcript record: its model (\<^verbatim>\<open>canonical/types.rs\<close>) and the parsers
  of the two agents (\<^verbatim>\<open>claude.rs\<close>, \<^verbatim>\<open>claude_text.rs\<close>, \<^verbatim>\<open>codex.rs\<close>). A parser fails only
  with a panic of the tool canonicalization.
\<close>

section \<open>Events and blocks\<close>

datatype speaker = SpUser | SpAssistant | SpSystem | SpSummary | SpOther

fun speaker_as_str :: "speaker \<Rightarrow> string" where
  "speaker_as_str SpUser = ''user''"
| "speaker_as_str SpAssistant = ''assistant''"
| "speaker_as_str SpSystem = ''system''"
| "speaker_as_str SpSummary = ''summary''"
| "speaker_as_str SpOther = ''other''"

datatype content_kind = CkNone | CkText | CkThinking | CkToolUse | CkToolResult | CkMixed

fun content_kind_as_str :: "content_kind \<Rightarrow> string" where
  "content_kind_as_str CkNone = ''none''"
| "content_kind_as_str CkText = ''text''"
| "content_kind_as_str CkThinking = ''thinking''"
| "content_kind_as_str CkToolUse = ''tool_use''"
| "content_kind_as_str CkToolResult = ''tool_result''"
| "content_kind_as_str CkMixed = ''mixed''"

definition block_thinking :: "int \<Rightarrow> string \<Rightarrow> block" where
  "block_thinking ord text = \<lparr>bk_ord = ord, bk_kind = BThinking, bk_text = Some text,
     bk_tool_id = None, bk_tool_name = None, bk_tool_name_canonical = None,
     bk_operation_type = None, bk_operation_category = None, bk_tool_input = None,
     bk_tool_output = None, bk_is_error = None, bk_raw = None\<rparr>"

definition block_tool_use :: "syntax_lib \<Rightarrow> int \<Rightarrow> string \<Rightarrow> string \<Rightarrow> json \<Rightarrow> panic + block" where
  "block_tool_use lib ord tool_id name input =
     res_bind (canonicalize_tool_use lib name input) (\<lambda>(canonical_name, canonical_input).
       Inr \<lparr>bk_ord = ord, bk_kind = BToolUse, bk_text = None, bk_tool_id = Some tool_id,
         bk_tool_name = Some name, bk_tool_name_canonical = Some canonical_name,
         bk_operation_type = None, bk_operation_category = None,
         bk_tool_input = Some canonical_input, bk_tool_output = None, bk_is_error = None,
         bk_raw = None\<rparr>)"

definition block_tool_result ::
  "int \<Rightarrow> string \<Rightarrow> string option \<Rightarrow> bool \<Rightarrow> json option \<Rightarrow> block" where
  "block_tool_result ord tool_id text is_error tool_output =
     \<lparr>bk_ord = ord, bk_kind = BToolResult, bk_text = text, bk_tool_id = Some tool_id,
      bk_tool_name = None, bk_tool_name_canonical = None, bk_operation_type = None,
      bk_operation_category = None, bk_tool_input = None, bk_tool_output = tool_output,
      bk_is_error = Some is_error, bk_raw = None\<rparr>"

record canonical_event =
  ce_agent :: string
  ce_speaker :: speaker
  ce_content_kind :: content_kind
  ce_event_uuid :: "string option"
  ce_parent_event_uuid :: "string option"
  ce_related_tool_use_id :: "string option"
  ce_is_sidechain :: bool
  ce_is_meta :: bool
  ce_subtype :: "string option"
  ce_blocks :: "block list"

definition nonblank :: "string option \<Rightarrow> string list" where
  "nonblank text = (case text of Some t \<Rightarrow> if trim t = [] then [] else [t] | None \<Rightarrow> [])"

definition serialized :: "syntax_lib \<Rightarrow> json option \<Rightarrow> string list" where
  "serialized lib v =
     (case v of
        Some j \<Rightarrow>
          (let s = to_json_string lib j in if s = ''null'' \<or> trim s = [] then [] else [s])
      | None \<Rightarrow> [])"

definition block_search_parts :: "syntax_lib \<Rightarrow> block \<Rightarrow> string list" where
  "block_search_parts lib b =
     (case bk_kind b of
        BToolUse \<Rightarrow>
          (case bk_tool_name_canonical b of Some name \<Rightarrow> [name] | None \<Rightarrow> [])
          @ nonblank (bk_tool_name b) @ serialized lib (bk_tool_input b)
      | BUnknown \<Rightarrow> nonblank (map_option (to_json_string lib) (bk_raw b))
      | _ \<Rightarrow> nonblank (bk_text b) @ serialized lib (bk_tool_output b))"

definition search_text :: "syntax_lib \<Rightarrow> canonical_event \<Rightarrow> string" where
  "search_text lib e =
     join [newline] ([speaker_as_str (ce_speaker e)] @ nonblank (ce_subtype e)
       @ concat (map (block_search_parts lib) (ce_blocks e)))"

definition content_kind_of :: "block list \<Rightarrow> content_kind" where
  "content_kind_of blocks =
     (let has = (\<lambda>k. list_ex (\<lambda>b. bk_kind b = k) blocks);
          one = (\<lambda>k. if has k then 1 else 0 :: nat);
          count = one BText + one BThinking + one BToolUse + one BToolResult
      in if count = 0 then CkNone
         else if count > 1 then CkMixed
         else if has BText then CkText
         else if has BThinking then CkThinking
         else if has BToolUse then CkToolUse
         else CkToolResult)"

section \<open>JSON access\<close>

fun as_bool :: "json \<Rightarrow> bool option" where
  "as_bool (JBool b) = Some b"
| "as_bool _ = None"

fun as_u64 :: "json \<Rightarrow> int option" where
  "as_u64 (JInt n) = (if 0 \<le> n \<and> n < 2 ^ 64 then Some n else None)"
| "as_u64 _ = None"

text \<open>A member that is a string or a Boolean, and \<^verbatim>\<open>pointer\<close> on a path of member names.\<close>

definition get_str :: "json \<Rightarrow> string \<Rightarrow> string option" where
  "get_str v k = Option.bind (jget v k) as_str"

definition get_bool :: "json \<Rightarrow> string \<Rightarrow> bool option" where
  "get_bool v k = Option.bind (jget v k) as_bool"

fun jpath :: "json \<Rightarrow> string list \<Rightarrow> json option" where
  "jpath v [] = Some v"
| "jpath v (k # ks) = Option.bind (jget v k) (\<lambda>w. jpath w ks)"

definition path_str :: "json \<Rightarrow> string list \<Rightarrow> string option" where
  "path_str v ks = Option.bind (jpath v ks) as_str"

fun string_field :: "json \<Rightarrow> string list \<Rightarrow> string option" where
  "string_field v [] = None"
| "string_field v (k # ks) = or_else (get_str v k) (string_field v ks)"

section \<open>Pasted content in user text\<close>

definition CLOSE_PREFIX :: string where "CLOSE_PREFIX = ''</pasted_content id='' @ [CHR 0x22]"
definition OPEN_PREFIX :: string where "OPEN_PREFIX = ''<pasted_content id='' @ [CHR 0x22]"
definition TAG_SUFFIX :: string where "TAG_SUFFIX = [CHR 0x22, CHR ''>'']"

record paste_scan =
  ps_fence :: "(char \<times> nat) option"
  ps_opening :: "(nat \<times> string) option"
  ps_remove :: "nat list"

definition paste_id :: "string \<Rightarrow> string option" where
  "paste_id trimmed =
     Option.bind (Option.bind (strip_prefix trimmed OPEN_PREFIX) (\<lambda>s. strip_suffix s TAG_SUFFIX))
       (\<lambda>name. if name \<noteq> [] \<and> list_all (\<lambda>c. ascii_alphanumeric c \<or> c = CHR ''-'' \<or> c = CHR ''_'') name
             then Some name else None)"

definition is_fence_line :: "string \<Rightarrow> bool" where
  "is_fence_line trimmed \<longleftrightarrow>
     starts_with trimmed [CHR 0x60, CHR 0x60, CHR 0x60] \<or> starts_with trimmed ''~~~''"

definition fence_line :: "string \<Rightarrow> (char \<times> nat) option \<Rightarrow> (char \<times> nat) option" where
  "fence_line trimmed fence =
     (let marker = hd trimmed; run = length (takeWhile (\<lambda>c. c = marker) trimmed)
      in case fence of
           None \<Rightarrow> Some (marker, run)
         | Some (opened, width) \<Rightarrow>
             if opened = marker \<and> run \<ge> width \<and> trim (drop run trimmed) = [] then None else fence)"

definition scan_line :: "nat \<times> string \<Rightarrow> paste_scan \<Rightarrow> paste_scan" where
  "scan_line = (\<lambda>(index, line) st.
     (let trimmed = trim line in
      if is_fence_line trimmed then st\<lparr>ps_fence := fence_line trimmed (ps_fence st)\<rparr>
      else if ps_fence st \<noteq> None then st
      else case ps_opening st of
        Some (start, opened) \<Rightarrow>
          if trimmed = CLOSE_PREFIX @ opened @ TAG_SUFFIX
          then st\<lparr>ps_remove := ps_remove st @ [start, index], ps_opening := None\<rparr>
          else st
      | None \<Rightarrow> st\<lparr>ps_opening := map_option (Pair index) (paste_id trimmed)\<rparr>))"

definition removed_lines :: "string list \<Rightarrow> nat list" where
  "removed_lines ls =
     ps_remove (fold scan_line (enumerate 0 ls) \<lparr>ps_fence = None, ps_opening = None, ps_remove = []\<rparr>)"

definition normalize_user_text :: "string \<Rightarrow> string" where
  "normalize_user_text text =
     (let ls = split_inclusive newline text; remove = removed_lines ls
      in if remove = [] then text
         else trim_matches [CHR 0x0D, newline]
           (concat (map snd (filter (\<lambda>(i, _). i \<notin> set remove) (enumerate 0 ls)))))"

section \<open>Claude\<close>

definition claude_compaction_subtype :: "json \<Rightarrow> string option" where
  "claude_compaction_subtype value =
     (if get_bool value ''isCompactSummary'' = Some True then Some ''compact_summary''
      else if get_str value ''type'' \<noteq> Some ''system'' then None
      else if get_str value ''subtype'' = Some ''compact_boundary'' then Some ''compact_boundary''
      else if get_str value ''subtype'' = Some ''informational''
           \<and> (case get_str value ''content'' of
                None \<Rightarrow> False | Some text \<Rightarrow> starts_with text ''Compacted while idle,'')
        then Some ''compact_status''
      else None)"

definition result_parts_text :: "json list \<Rightarrow> string option" where
  "result_parts_text parts =
     (let buf = fold (\<lambda>p buf.
          case get_str p ''text'' of
            Some s \<Rightarrow> (if buf = [] then buf else buf @ [newline]) @ s
          | None \<Rightarrow> buf) parts []
      in if buf = [] then None else Some buf)"

definition tool_result_text :: "syntax_lib \<Rightarrow> json \<Rightarrow> string option" where
  "tool_result_text lib raw =
     (case jget raw ''content'' of
        Some (JStr s) \<Rightarrow> Some s
      | Some (JArr parts) \<Rightarrow> result_parts_text parts
      | Some v \<Rightarrow> Some (to_json_string lib v)
      | None \<Rightarrow> None)"

text \<open>One block; \<open>payload\<close> is the tool result payload while no block has taken it.\<close>

definition parse_block :: "syntax_lib \<Rightarrow> json option \<Rightarrow> int \<Rightarrow> json \<Rightarrow> panic + (block \<times> json option)" where
  "parse_block lib payload ord raw =
     (case get_str raw ''type'' of
        None \<Rightarrow> Inr (block_unknown ord raw, payload)
      | Some ty \<Rightarrow>
          if ty = ''text'' then
            Inr (block_text ord (unwrap_or (get_str raw ''text'') []), payload)
          else if ty = ''thinking'' then
            Inr (block_thinking ord (unwrap_or (get_str raw ''thinking'') []), payload)
          else if ty = ''tool_use'' then
            res_bind (block_tool_use lib ord (unwrap_or (get_str raw ''id'') [])
                (unwrap_or (get_str raw ''name'') []) (unwrap_or (jget raw ''input'') JNull))
              (\<lambda>b. Inr (b, payload))
          else if ty = ''tool_result'' then
            Inr (block_tool_result ord (unwrap_or (get_str raw ''tool_use_id'') [])
                   (tool_result_text lib raw) (unwrap_or (get_bool raw ''is_error'') False) payload,
                 None)
          else Inr (block_unknown ord raw, payload))"

fun parse_blocks :: "syntax_lib \<Rightarrow> json option \<Rightarrow> int \<Rightarrow> json list \<Rightarrow> panic + block list" where
  "parse_blocks lib payload ord [] = Inr []"
| "parse_blocks lib payload ord (raw # arr) =
     res_bind (parse_block lib payload ord raw) (\<lambda>(b, payload).
     res_bind (parse_blocks lib payload (ord + 1) arr) (\<lambda>bs. Inr (b # bs)))"

definition claude_queued_human :: "json \<Rightarrow> bool" where
  "claude_queued_human value \<longleftrightarrow>
     claude_compaction_subtype value = None \<and> get_str value ''type'' = Some ''attachment''
     \<and> (case jget value ''attachment'' of
          None \<Rightarrow> False
        | Some a \<Rightarrow> get_str a ''type'' = Some ''queued_command''
            \<and> get_str a ''commandMode'' = Some ''prompt''
            \<and> (path_str a [''origin'', ''kind''] = Some ''human''
               \<or> get_bool a ''humanTurn'' = Some True))"

definition claude_speaker :: "json \<Rightarrow> speaker" where
  "claude_speaker value =
     (let kind = unwrap_or (get_str value ''type'') [] in
      if claude_compaction_subtype value \<noteq> None then SpSystem
      else if kind = ''attachment'' then (if claude_queued_human value then SpUser else SpSystem)
      else if kind = ''user'' then SpUser
      else if kind = ''assistant'' then SpAssistant
      else if kind = ''system'' then SpSystem
      else if kind = ''summary'' then SpSummary
      else SpOther)"

definition claude_content :: "json \<Rightarrow> json option" where
  "claude_content value =
     (if claude_queued_human value
      then Option.bind (jget value ''attachment'') (\<lambda>a. jget a ''prompt'')
      else or_else (jpath value [''message'', ''content''])
             (if claude_compaction_subtype value \<noteq> None then jget value ''content'' else None))"

definition normalize_user_block :: "block \<Rightarrow> block" where
  "normalize_user_block b =
     (if bk_kind b = BText then b\<lparr>bk_text := map_option normalize_user_text (bk_text b)\<rparr> else b)"

definition rendered_blocks :: "json \<Rightarrow> block list" where
  "rendered_blocks value =
     (case Option.bind (jget value ''rendered'') as_array of
        None \<Rightarrow> []
      | Some parts \<Rightarrow>
          map (\<lambda>(i, text). block_text (int i) text)
            (enumerate 0 (List.map_filter (\<lambda>part. get_str part ''content'') parts)))"

definition claude_blocks :: "syntax_lib \<Rightarrow> json \<Rightarrow> panic + block list" where
  "claude_blocks lib value =
     (let kind = unwrap_or (get_str value ''type'') [];
          payload = (case jget value ''toolUseResult'' of
            Some p \<Rightarrow> if p = JNull then None else Some (canonicalize_tool_result_payload p)
          | None \<Rightarrow> None)
      in res_bind
           (case claude_content value of
              Some (JArr arr) \<Rightarrow> parse_blocks lib payload 0 arr
            | Some (JStr s) \<Rightarrow> Inr [block_text 0 s]
            | _ \<Rightarrow> Inr []) (\<lambda>blocks.
         let blocks = (if blocks = [] \<and> kind = ''summary''
                       then (case get_str value ''summary'' of
                               Some summary \<Rightarrow> [block_text 0 summary] | None \<Rightarrow> [])
                       else blocks);
             blocks = (if kind = ''attachment'' \<and> \<not> claude_queued_human value
                       then blocks @ rendered_blocks value else blocks);
             blocks = (if claude_speaker value = SpUser then map normalize_user_block blocks
                       else blocks)
         in Inr blocks))"

definition claude_parse :: "syntax_lib \<Rightarrow> json \<Rightarrow> panic + canonical_event" where
  "claude_parse lib value =
     res_bind (claude_blocks lib value) (\<lambda>blocks.
       let compaction = claude_compaction_subtype value;
           queued_human = claude_queued_human value;
           attachment = jget value ''attachment''
       in Inr \<lparr>ce_agent = ''claude-code'', ce_speaker = claude_speaker value,
         ce_content_kind = content_kind_of blocks,
         ce_event_uuid =
           or_else (if queued_human
                    then Option.bind attachment (\<lambda>a. string_field a [''source_uuid'']) else None)
             (string_field value [''uuid'']),
         ce_parent_event_uuid = string_field value [''parentUuid'', ''parent_uuid''],
         ce_related_tool_use_id = string_field value [''tool_use_id''],
         ce_is_sidechain = unwrap_or (get_bool value ''isSidechain'') False,
         ce_is_meta =
           (if queued_human then False
            else compaction \<noteq> None \<or> get_str value ''type'' = Some ''attachment''
                 \<or> unwrap_or (get_bool value ''isMeta'') False),
         ce_subtype =
           (case compaction of
              Some subtype \<Rightarrow> Some subtype
            | None \<Rightarrow>
                if queued_human then Some ''queued_user_prompt''
                else or_else (string_field value [''subtype''])
                       (Option.bind attachment (\<lambda>a. string_field a [''type'']))),
         ce_blocks = blocks\<rparr>)"

section \<open>Codex\<close>

definition codex_record_kind :: "json \<Rightarrow> string option" where
  "codex_record_kind value = or_else (get_str value ''kind'') (get_str value ''type'')"

definition codex_payload :: "json \<Rightarrow> json" where
  "codex_payload value = unwrap_or (jget value ''payload'') JNull"

definition codex_event :: "speaker \<Rightarrow> string \<Rightarrow> block list \<Rightarrow> canonical_event" where
  "codex_event spk subtype blocks = \<lparr>ce_agent = ''codex'', ce_speaker = spk,
     ce_content_kind = content_kind_of blocks, ce_event_uuid = None, ce_parent_event_uuid = None,
     ce_related_tool_use_id = None, ce_is_sidechain = False, ce_is_meta = False,
     ce_subtype = Some subtype, ce_blocks = blocks\<rparr>"

definition codex_message_item :: "nat \<times> json \<Rightarrow> block" where
  "codex_message_item = (\<lambda>(i, item).
     (let ty = unwrap_or (get_str item ''type'') [] in
      if ty = ''input_text'' \<or> ty = ''output_text''
      then block_text (int i) (unwrap_or (get_str item ''text'') [])
      else block_unknown (int i) item))"

definition parse_codex_message_items :: "json list \<Rightarrow> block list" where
  "parse_codex_message_items items = map codex_message_item (enumerate 0 items)"

definition codex_reasoning_text :: "json \<Rightarrow> string option" where
  "codex_reasoning_text payload =
     Option.bind (Option.bind (jget payload ''summary'') as_array) (\<lambda>summary.
       let parts = concat (map (\<lambda>item.
             case as_str item of
               Some s \<Rightarrow> nonblank (Some s)
             | None \<Rightarrow> nonblank (get_str item ''text'')) summary)
       in if parts = [] then None else Some (join [newline] parts))"

definition parse_json_string :: "syntax_lib \<Rightarrow> json option \<Rightarrow> json" where
  "parse_json_string lib value =
     (case value of
        Some (JStr raw) \<Rightarrow> unwrap_or (from_str lib raw) (JStr raw)
      | Some v \<Rightarrow> v
      | None \<Rightarrow> JNull)"

fun value_to_text :: "syntax_lib \<Rightarrow> json \<Rightarrow> string option" where
  "value_to_text lib JNull = None"
| "value_to_text lib (JStr s) = Some s"
| "value_to_text lib (JArr parts) =
     (let out = concat (map nonblank (map (value_to_text lib) parts))
      in if out = [] then None else Some (join [newline] out))"
| "value_to_text lib (JObj obj) =
     or_else (get_str (JObj obj) ''text'') (Some (to_json_string lib (JObj obj)))"
| "value_to_text lib v = Some (to_json_string lib v)"

definition agent_message_block :: "nat \<times> json \<Rightarrow> block" where
  "agent_message_block = (\<lambda>(i, item).
     (case or_else (get_str item ''text'')
          (if get_str item ''type'' = Some ''encrypted_content''
           then Some ''[Encrypted agent message; plaintext unavailable]'' else None) of
        Some text \<Rightarrow> block_text (int i) text
      | None \<Rightarrow> block_unknown (int i) item))"

definition codex_agent_message :: "json \<Rightarrow> canonical_event" where
  "codex_agent_message payload =
     (let author = unwrap_or (get_str payload ''author'') ''unknown agent'';
          recipient = unwrap_or (get_str payload ''recipient'') ''unknown recipient'';
          items = unwrap_or (Option.bind (jget payload ''content'') as_array) []
      in (codex_event SpSystem ''agent_message''
            (block_text 0 (''Agent message: '' @ author @ '' '' @ right_arrow @ '' '' @ recipient)
             # map agent_message_block (enumerate 1 items)))
           \<lparr>ce_event_uuid := get_str payload ''id''\<rparr>)"

definition codex_message :: "json \<Rightarrow> canonical_event" where
  "codex_message payload =
     (let role = unwrap_or (get_str payload ''role'') ''other'';
          spk = (if role = ''user'' then SpUser
                 else if role = ''assistant'' then SpAssistant
                 else if role = ''developer'' \<or> role = ''system'' then SpSystem
                 else SpOther);
          blocks = (case jget payload ''content'' of
                      Some (JArr items) \<Rightarrow> parse_codex_message_items items
                    | Some (JStr s) \<Rightarrow> [block_text 0 s]
                    | _ \<Rightarrow> [])
      in (codex_event spk ''message'' blocks)
           \<lparr>ce_is_meta := (role = ''developer'' \<or> role = ''system'')\<rparr>)"

definition codex_tool_call :: "syntax_lib \<Rightarrow> string \<Rightarrow> json \<Rightarrow> panic + canonical_event" where
  "codex_tool_call lib subtype payload =
     (let call_id = unwrap_or (get_str payload ''call_id'') [];
          name = unwrap_or (get_str payload ''name'') subtype;
          name = (case get_str payload ''namespace'' of
                    Some ns \<Rightarrow> if ns = [] then name else ns @ ''.'' @ name
                  | None \<Rightarrow> name);
          input = (if subtype = ''function_call'' then parse_json_string lib (jget payload ''arguments'')
                   else unwrap_or (jget payload ''input'') JNull)
      in res_bind (block_tool_use lib 0 call_id name input) (\<lambda>b.
           Inr (codex_event SpAssistant subtype [b])))"

definition codex_tool_output :: "syntax_lib \<Rightarrow> string \<Rightarrow> json \<Rightarrow> canonical_event" where
  "codex_tool_output lib subtype payload =
     (let call_id = unwrap_or (get_str payload ''call_id'') [];
          text = Option.bind (jget payload ''output'') (value_to_text lib);
          is_error = unwrap_or (get_bool payload ''is_error'') False
            \<or> (case Option.bind text first_line of
                 None \<Rightarrow> False | Some line \<Rightarrow> trim_end line = ''Script failed'')
      in (codex_event SpSystem subtype [block_tool_result 0 call_id text is_error None])
           \<lparr>ce_related_tool_use_id := Some call_id\<rparr>)"

definition parse_codex_response_item :: "syntax_lib \<Rightarrow> json \<Rightarrow> panic + canonical_event" where
  "parse_codex_response_item lib value =
     (let payload = codex_payload value;
          subtype = unwrap_or (get_str payload ''type'') ''response_item''
      in if subtype = ''agent_message'' then Inr (codex_agent_message payload)
         else if subtype = ''message'' then Inr (codex_message payload)
         else if subtype = ''reasoning'' then
           Inr (codex_event SpAssistant subtype
                  [block_thinking 0 (unwrap_or (codex_reasoning_text payload) [])])
         else if subtype = ''function_call'' \<or> subtype = ''custom_tool_call'' then
           codex_tool_call lib subtype payload
         else if subtype = ''function_call_output'' \<or> subtype = ''custom_tool_call_output'' then
           Inr (codex_tool_output lib subtype payload)
         else Inr ((codex_event SpSystem subtype [])\<lparr>ce_is_meta := True\<rparr>))"

definition runtime_item_failed :: "json \<Rightarrow> bool" where
  "runtime_item_failed item \<longleftrightarrow>
     (case Option.bind (jget item ''exit_code'') as_i64 of None \<Rightarrow> False | Some n \<Rightarrow> n \<noteq> 0)
     \<or> get_str item ''status'' = Some ''failed''"

definition runtime_item_blocks :: "json \<Rightarrow> block list" where
  "runtime_item_blocks payload =
     (case jget payload ''item'' of
        None \<Rightarrow> []
      | Some item \<Rightarrow>
          if get_str item ''type'' \<in> Some ` {''CommandExecution'', ''FileChange'', ''Extension'', ''ImageView''}
          then [block_tool_result 0 (unwrap_or (get_str item ''id'') []) None (runtime_item_failed item)
            (Some (JObj [(''runtime_item'', item), (''started_at_ms'', jat payload ''started_at_ms''),
               (''completed_at_ms'', jat payload ''completed_at_ms'')]))]
          else [])"

definition parse_codex_event_msg :: "json \<Rightarrow> canonical_event" where
  "parse_codex_event_msg value =
     (let payload = codex_payload value;
          subtype = unwrap_or (get_str payload ''type'') ''event_msg'';
          blocks = (if subtype = ''item_completed'' then runtime_item_blocks payload else [])
      in (codex_event SpSystem subtype blocks)
           \<lparr>ce_related_tool_use_id := get_str payload ''call_id'', ce_is_meta := True\<rparr>)"

definition codex_parse :: "syntax_lib \<Rightarrow> json \<Rightarrow> panic + canonical_event" where
  "codex_parse lib value =
     (let kind = unwrap_or (codex_record_kind value) [] in
      if kind = ''response_item'' then parse_codex_response_item lib value
      else if kind = ''event_msg'' then Inr (parse_codex_event_msg value)
      else if kind \<in> {''session_meta'', ''turn_context'', ''compacted'', ''token_usage_record''} then
        Inr ((codex_event SpSystem kind [])\<lparr>ce_is_meta := True\<rparr>)
      else Inr ((codex_event SpOther kind [block_unknown 0 value])
                  \<lparr>ce_content_kind := CkNone, ce_is_meta := True\<rparr>))"

end
