(* ===== verification/Canonical_Safe.thy ===== *)
theory Canonical_Safe
  imports Canonical
begin

text \<open>
  The parsers return for every record. What they rely on is documented behaviour of the libraries:
  the text of a syntax node is a slice of the snippet, a string or template node has its two
  delimiters, and the text of a JSON string is longer than the string.
\<close>

fun node_ok :: "nat \<Rightarrow> js_node \<Rightarrow> bool" where
  "node_ok n (JsNode k t cs) \<longleftrightarrow>
     (case t of
        None \<Rightarrow> True
      | Some x \<Rightarrow> length x \<le> n \<and> (k \<in> {''string'', ''template_string''} \<longrightarrow> 2 \<le> length x))
     \<and> (\<forall>c \<in> set cs. node_ok n (snd (snd c)))"

definition json_text_ok :: "syntax_lib \<Rightarrow> bool" where
  "json_text_ok lib \<longleftrightarrow> (\<forall>x s. from_str lib x = Some (JStr s) \<longrightarrow> length s < length x)"

definition lib_ok :: "syntax_lib \<Rightarrow> bool" where
  "lib_ok lib \<longleftrightarrow> json_text_ok lib
     \<and> (\<forall>code t. js_parse lib code = Some t \<longrightarrow> node_ok (length code) t)"

lemma runs_True: "runs m P \<Longrightarrow> runs m (\<lambda>_. True)"
  by (erule runs_mono) simp

lemma node_ok_text: "node_ok n node \<Longrightarrow> node_text node = Some x \<Longrightarrow> length x \<le> n"
  by (cases node) auto

lemma node_ok_quoted:
  "node_ok n node \<Longrightarrow> node_text node = Some x \<Longrightarrow> node_kind node \<in> {''string'', ''template_string''}
    \<Longrightarrow> 2 \<le> length x"
  by (cases node) auto

lemma node_ok_named: "node_ok n node \<Longrightarrow> c \<in> set (named_children node) \<Longrightarrow> node_ok n c"
  by (cases node) (force simp: named_children_def)

lemma node_ok_named_0: "node_ok n node \<Longrightarrow> named_child_0 node = Some c \<Longrightarrow> node_ok n c"
  by (auto simp: named_child_0_def intro: node_ok_named split: list.splits)

lemma node_ok_field: "node_ok n node \<Longrightarrow> child_by_field_name node f = Some c \<Longrightarrow> node_ok n c"
proof (cases node)
  case (JsNode k t cs)
  assume ok: "node_ok n node" and "child_by_field_name node f = Some c"
  then obtain g b where "(g, b, c) \<in> set cs"
    by (auto simp: child_by_field_name_def JsNode dest!: find_Some_in)
  with ok show ?thesis by (auto simp: JsNode)
qed

section \<open>Literals\<close>

lemma length_decode_single_quoted: "length (decode_single_quoted s) \<le> length s"
  by (induction s rule: decode_single_quoted.induct) (simp_all add: le_SucI)

lemma length_strip_nul: "length (strip_nul s) \<le> length s"
  by (simp add: strip_nul_def)

definition short :: "nat \<Rightarrow> string option \<Rightarrow> bool" where
  "short n v \<longleftrightarrow> (\<forall>s. v = Some s \<longrightarrow> length s < n)"

definition short_json :: "nat \<Rightarrow> json option \<Rightarrow> bool" where
  "short_json n v \<longleftrightarrow> (\<forall>s. v = Some (JStr s) \<longrightarrow> length s < n)"

lemma from_str_string_short: "json_text_ok lib \<Longrightarrow> from_str_string lib x = Some s \<Longrightarrow> length s < length x"
  unfolding from_str_string_def json_text_ok_def
  by (cases "from_str lib x") (auto elim: as_str.elims)

lemma inner_slice_runs: "2 \<le> length x \<Longrightarrow> runs (inner_slice x) (\<lambda>s. length s < length x)"
  by (cases x) (auto simp: inner_slice_def)

lemma decode_string_runs:
  assumes "json_text_ok lib" "2 \<le> length x"
  shows "runs (decode_string lib x) (short (length x))"
proof -
  have nul: "length (strip_nul s) < length x" if "length s < length x" for s
    using length_strip_nul [of s] that by (rule le_less_trans)
  have "runs (inner_slice x) (\<lambda>body. length (strip_nul (decode_single_quoted body)) < length x)"
    using inner_slice_runs [OF assms(2)]
  proof (rule runs_mono)
    fix s :: string
    assume "length s < length x"
    then show "length (strip_nul (decode_single_quoted s)) < length x"
      using length_decode_single_quoted [of s] nul by (meson le_less_trans)
  qed
  then show ?thesis
    using from_str_string_short [OF assms(1)] nul by (auto simp: decode_string_def short_def)
qed

lemma decode_template_runs: "2 \<le> length x \<Longrightarrow> runs (decode_template x) (short (length x))"
  using inner_slice_runs [of x] length_strip_nul
  by (auto simp: decode_template_def short_def elim!: runs_mono intro: le_less_trans)

lemma property_name_runs:
  assumes "json_text_ok lib" "node_ok n node"
  shows "runs (property_name lib node) (\<lambda>_. True)"
  using node_ok_quoted [OF assms(2)]
  by (auto simp: property_name_def split: option.split
      intro: runs_mono [OF decode_string_runs [OF assms(1)]])

lemma number_short:
  assumes "json_text_ok lib" "node_ok n node"
  shows "short_json n (Option.bind (node_text node) (from_str lib))"
  using assms node_ok_text [OF assms(2)] less_le_trans
  by (force simp: short_json_def json_text_ok_def bind_eq_Some_conv)

lemma quoted_runs:
  assumes "node_ok n node" "node_text node = Some x" "runs m (short (length x))"
  shows "runs m (\<lambda>s. short_json n (map_option JStr s))"
  using node_ok_text [OF assms(1,2)] assms(3)
  by (auto simp: short_def short_json_def elim!: runs_mono intro: less_le_trans)

lemma js_literal_runs_aux:
  "json_text_ok lib \<Longrightarrow> node_ok n node \<Longrightarrow> runs (js_literal lib node) (short_json n)"
  "json_text_ok lib \<Longrightarrow> \<forall>c \<in> set cs. node_ok n c \<Longrightarrow> runs (js_items lib cs) (\<lambda>_. True)"
  "json_text_ok lib \<Longrightarrow> \<forall>c \<in> set ds. node_ok n c \<Longrightarrow> runs (js_object lib ds obj) (\<lambda>_. True)"
proof (induction lib node and lib cs and lib ds obj rule: js_literal_js_items_js_object.induct)
  case (1 lib node)
  have named: "\<forall>c \<in> set (named_children node). node_ok n c" using node_ok_named "1.prems"(2) by blast
  have const: "short_json n (Some v)" if "\<And>s. v \<noteq> JStr s" for v using that by (simp add: short_json_def)
  have str: "runs (decode_string lib t) (\<lambda>s. short_json n (map_option JStr s))"
    if "node_kind node = ''string''" "node_text node = Some t" for t
    by (rule quoted_runs [OF "1.prems"(2) that(2) decode_string_runs [OF "1.prems"(1)
          node_ok_quoted [OF "1.prems"(2) that(2)]]]) (simp add: that)
  have tmpl: "runs (decode_template t) (\<lambda>s. short_json n (map_option JStr s))"
    if "node_kind node = ''template_string''" "node_text node = Some t" for t
    by (rule quoted_runs [OF "1.prems"(2) that(2) decode_template_runs
          [OF node_ok_quoted [OF "1.prems"(2) that(2)]]]) (simp add: that)
  note num = number_short [OF "1.prems"]
  show ?case
    using "1.IH" "1.prems" named str tmpl num node_ok_named_0 [OF "1.prems"(2)]
    by (subst js_literal.simps)
      (auto simp: const short_json_def [of n None] split: option.split elim!: runs_mono)
next
  case (3 lib c cs)
  then show ?case by (auto elim!: runs_mono)
next
  case (5 lib c cs obj)
  have "node_ok n c" using "5.prems" by simp
  note field = node_ok_field [OF this]
  show ?case
    using 5
    by (auto split: option.split
        intro!: runs_mono [OF property_name_runs [OF "5.prems"(1) node_ok_field, of n c]])
      (metis field runs_True)
qed simp_all

section \<open>Calls\<close>

definition calls_short :: "nat \<Rightarrow> code_mode_call list \<Rightarrow> bool" where
  "calls_short n calls \<longleftrightarrow> (\<forall>c \<in> set calls. short_json n (Some (cm_input c)))"

lemma tool_call_runs:
  assumes "json_text_ok lib" "node_ok n node"
  shows "runs (tool_call lib node) (\<lambda>c. case c of None \<Rightarrow> True | Some c \<Rightarrow> short_json n (Some (cm_input c)))"
proof -
  have arg: "runs (js_literal lib argument) (\<lambda>v. short_json n (Some (unwrap_or v (JObj []))))"
    if "child_by_field_name node f = Some arguments" "named_child_0 arguments = Some argument"
    for f arguments argument
    using js_literal_runs_aux(1) [OF assms(1) node_ok_named_0 [OF node_ok_field [OF assms(2) that(1)] that(2)]]
    by (rule runs_mono) (auto simp: short_json_def unwrap_or_def split: option.splits)
  show ?thesis
    using arg
    by (auto simp: tool_call_def bind_eq_Some_conv short_json_def [of n "Some (JObj [])"]
        split: option.split if_splits)
qed

lemma collect_runs:
  "json_text_ok lib \<Longrightarrow> node_ok n node \<Longrightarrow> runs (collect_tool_calls lib node) (calls_short n)"
  "json_text_ok lib \<Longrightarrow> \<forall>c \<in> set cs. node_ok n c \<Longrightarrow> runs (collect_children lib cs) (calls_short n)"
proof (induction lib node and lib cs rule: collect_tool_calls_collect_children.induct)
  case (1 lib node)
  have "runs (collect_children lib (named_children node)) (calls_short n)" if "m = None" for m :: "code_mode_call option"
    using 1 node_ok_named that by blast
  then show ?case
    by (subst collect_tool_calls.simps)
      (auto simp: calls_short_def split: option.split intro!: runs_mono [OF tool_call_runs [OF "1.prems"]])
next
  case (3 lib c cs)
  then show ?case by (auto simp: calls_short_def elim!: runs_mono)
qed (simp_all add: calls_short_def)

lemma parse_exec_code_runs:
  assumes "lib_ok lib" "length code < depth"
  shows "runs (parse_exec_code lib depth code) (\<lambda>_. True)"
  using assms(2)
proof (induction depth arbitrary: code)
  case (Suc depth)
  have calls: "runs (parse_tool_calls lib code) (calls_short (length code))"
    using assms(1) collect_runs(1)
    by (auto simp: parse_tool_calls_def lib_ok_def calls_short_def split: option.split)
  have one: "runs (canonicalize_input_with (parse_exec_code lib depth) name input) (\<lambda>_. True)"
    if "short_json (length code) (Some input)" for name input
    using that Suc.IH Suc.prems
    by (auto simp: canonicalize_input_with_def short_json_def split: json.split)
  have "runs (res_map f cs) (\<lambda>_. True)" if "\<forall>c \<in> set cs. runs (f c) (\<lambda>_. True)"
    for f :: "code_mode_call \<Rightarrow> panic + exec_operation" and cs
    using that by (induction cs) (auto elim: runs_mono)
  then show ?case
    using one by (auto simp: Let_def calls_short_def intro!: runs_mono [OF calls])
qed simp

section \<open>Events\<close>

lemma tool_use_runs:
  assumes "lib_ok lib"
  shows "runs (block_tool_use lib ord i name input) (\<lambda>_. True)"
proof -
  have "runs (canonicalize_tool_use lib name input) (\<lambda>_. True)"
    using parse_exec_code_runs [OF assms]
    by (auto simp: canonicalize_tool_use_def canonicalize_tool_input_def canonicalize_input_with_def Let_def
        simp del: parse_exec_code.simps split: json.split)
  then show ?thesis by (auto simp: block_tool_use_def split: prod.split elim!: runs_mono)
qed

lemma parse_blocks_runs:
  assumes "lib_ok lib"
  shows "runs (parse_blocks lib payload ord arr) (\<lambda>_. True)"
proof (induction arr arbitrary: payload ord)
  case (Cons raw arr)
  have one: "runs (parse_block lib payload ord raw) (\<lambda>_. True)"
    by (auto simp: parse_block_def split: option.split intro!: runs_mono [OF tool_use_runs [OF assms]])
  show ?case
    by (auto intro!: runs_mono [OF one] runs_mono [OF Cons.IH])
qed simp

lemma claude_parse_runs: "lib_ok lib \<Longrightarrow> runs (claude_parse lib value) (\<lambda>_. True)"
  by (auto simp: claude_parse_def claude_blocks_def Let_def split: option.split json.split
      intro!: runs_mono [OF parse_blocks_runs])

lemma codex_parse_runs: "lib_ok lib \<Longrightarrow> runs (codex_parse lib value) (\<lambda>_. True)"
  by (auto simp: codex_parse_def parse_codex_response_item_def codex_tool_call_def Let_def
      intro!: runs_mono [OF tool_use_runs])

end
