(* ===== verification/Canonical_Props.thy ===== *)
theory Canonical_Props
  imports Canonical_Safe
begin

text \<open>
  What the canonical parsers guarantee: they return for every record, the blocks of an event are
  numbered from zero, a patch reads back as the edits it was written from, and the normalization of
  user text removes paired paste delimiters and nothing else.
\<close>

section \<open>Parsing returns\<close>

definition sample_snippet :: string where "sample_snippet = ''tools.exec_command({cmd: 1})''"

definition sample_tree :: js_node where
  "sample_tree = JsNode ''program'' (Some sample_snippet) [(None, True,
     JsNode ''call_expression'' (Some sample_snippet)
       [(Some ''function'', True, JsNode ''member_expression'' (Some ''tools.exec_command'')
          [(Some ''object'', True, JsNode ''identifier'' (Some ''tools'') []),
           (Some ''property'', True, JsNode ''property_identifier'' (Some ''exec_command'') [])]),
        (Some ''arguments'', True, JsNode ''arguments'' (Some ''({cmd: 1})'')
          [(None, True, JsNode ''object'' (Some ''{cmd: 1}'')
             [(None, True, JsNode ''pair'' (Some ''cmd: 1'')
                [(Some ''key'', True, JsNode ''property_identifier'' (Some ''cmd'') []),
                 (Some ''value'', True, JsNode ''number'' (Some ''1'') [])])])])])]"

definition sample_lib :: syntax_lib where
  "sample_lib = \<lparr>js_parse = (\<lambda>code. if code = sample_snippet then Some sample_tree else None),
     from_str = (\<lambda>x. if x = ''1'' then Some (JInt 1) else None), to_json_string = (\<lambda>_. ''1'')\<rparr>"

lemma sample_lib_ok: "lib_ok sample_lib"
  by (auto simp: lib_ok_def json_text_ok_def sample_lib_def sample_tree_def sample_snippet_def)



section \<open>Numbering of blocks\<close>

abbreviation numbered :: "block list \<Rightarrow> bool" where
  "numbered bs \<equiv> map bk_ord bs = map int [0..<length bs]"

lemma block_ords [simp]:
  "bk_ord (block_text i t) = i" "bk_ord (block_thinking i t) = i" "bk_ord (block_unknown i r) = i"
  "bk_ord (block_tool_result i a b c d) = i" "bk_ord (normalize_user_block x) = bk_ord x"
  by (simp_all add: block_text_def block_thinking_def block_unknown_def block_tool_result_def
      normalize_user_block_def)

lemma tool_use_ord: "block_tool_use lib ord i name input = Inr b \<Longrightarrow> bk_ord b = ord"
  by (auto simp: block_tool_use_def)

lemma parse_blocks_ords:
  "parse_blocks lib payload ord arr = Inr bs \<Longrightarrow> map bk_ord bs = map (\<lambda>i. ord + int i) [0..<length bs]"
proof (induction arr arbitrary: payload ord bs)
  case (Cons raw arr)
  have shift: "map (\<lambda>i. ord + int i) [0..<Suc n] = ord # map (\<lambda>i. ord + 1 + int i) [0..<n]" for n
    by (simp add: upt_rec [of 0 "Suc n"] map_Suc_upt [symmetric] comp_def algebra_simps del: upt_Suc)
  from Cons.prems obtain b p cs where b: "parse_block lib payload ord raw = Inr (b, p)"
      and cs: "parse_blocks lib p (ord + 1) arr = Inr cs" and bs: "bs = b # cs" by auto
  have "bk_ord b = ord"
    using b by (auto simp: parse_block_def tool_use_ord split: option.splits if_splits)
  with Cons.IH [OF cs] show ?case by (simp add: bs shift del: upt_Suc)
qed simp

lemma enumerate_ords:
  assumes "\<And>i x. bk_ord (f (i, x)) = int i"
  shows "map bk_ord (map f (enumerate n xs)) = map int [n..<n + length xs]"
  using assms by (induction xs arbitrary: n) (auto simp: upt_rec simp del: upt_Suc)

lemma codex_blocks_numbered:
  assumes "codex_parse lib value = Inr e"
  shows "numbered (ce_blocks e)"
proof -
  have items: "numbered (parse_codex_message_items items)" for items
    unfolding parse_codex_message_items_def
    by (subst enumerate_ords) (auto simp: codex_message_item_def Let_def)
  have agent: "map bk_ord (map agent_message_block (enumerate 1 items)) = map int [1..<Suc (length items)]" for items
    by (subst enumerate_ords) (auto simp: agent_message_block_def split: option.split)
  show ?thesis
    using assms items agent
    by (auto simp: codex_parse_def parse_codex_response_item_def codex_event_def Let_def
        codex_agent_message_def codex_message_def codex_tool_call_def codex_tool_output_def
        parse_codex_event_msg_def runtime_item_blocks_def upt_rec [of 0] tool_use_ord
        simp del: upt_Suc split: if_splits option.splits json.splits)
qed

text \<open>
  C26: the blocks of an event carry the ordinals zero, one and so on, in order, so that no two of
  them share a key of the block table. This holds for every Codex record, and for every Claude
  record but an attachment that has both message content and rendered parts.
\<close>

theorem blocks_numbered:
  assumes "claude_parse lib value = Inr c" "codex_parse lib value' = Inr e"
    and "claude_content value = None \<or> rendered_blocks value = [] \<or> claude_queued_human value
      \<or> get_str value ''type'' \<noteq> Some ''attachment''"
  shows "map bk_ord (ce_blocks c) = map int [0..<length (ce_blocks c)]
    \<and> map bk_ord (ce_blocks e) = map int [0..<length (ce_blocks e)]"
proof
  have rendered: "numbered (rendered_blocks value)"
    unfolding rendered_blocks_def
    using enumerate_ords [of "\<lambda>(i, text). block_text (int i) text" 0] by (simp split: option.split)
  have users: "numbered bs \<Longrightarrow> numbered (map normalize_user_block bs)" for bs by (simp add: comp_def)
  have arr: "parse_blocks lib p 0 arr = Inr bs \<Longrightarrow> numbered bs" for p arr bs
    using parse_blocks_ords [of lib p 0 arr bs] by simp
  define m where "m p = (case claude_content value of
      Some (JArr arr) \<Rightarrow> parse_blocks lib p 0 arr
    | Some (JStr s) \<Rightarrow> Inr [block_text 0 s]
    | _ \<Rightarrow> Inr [])" for p
  have m: "numbered bs \<and> (claude_content value = None \<longrightarrow> bs = [])" if "m p = Inr bs" for p bs
    using that arr by (auto simp: m_def split: option.splits json.splits)
  obtain p b0 where b0: "m p = Inr b0" and c: "ce_blocks c = (let
        b1 = (if b0 = [] \<and> unwrap_or (get_str value ''type'') [] = ''summary''
              then (case get_str value ''summary'' of Some summary \<Rightarrow> [block_text 0 summary] | None \<Rightarrow> []) else b0);
        b2 = (if unwrap_or (get_str value ''type'') [] = ''attachment'' \<and> \<not> claude_queued_human value
              then b1 @ rendered_blocks value else b1)
      in if claude_speaker value = SpUser then map normalize_user_block b2 else b2)"
    using assms(1) by (auto simp: claude_parse_def claude_blocks_def Let_def simp flip: m_def)
  have kind: "unwrap_or (get_str value ''type'') [] = ''attachment'' \<longleftrightarrow> get_str value ''type'' = Some ''attachment''"
    by (cases "get_str value ''type''") simp_all
  define b1 where "b1 = (if b0 = [] \<and> unwrap_or (get_str value ''type'') [] = ''summary''
      then (case get_str value ''summary'' of Some summary \<Rightarrow> [block_text 0 summary] | None \<Rightarrow> []) else b0)"
  have b1: "numbered b1" using m [OF b0] by (simp add: b1_def split: option.split)
  have "b1 = []" if "claude_content value = None" "get_str value ''type'' = Some ''attachment''"
    using m [OF b0] that by (simp add: b1_def)
  then show "numbered (ce_blocks c)"
    using c b1 rendered users assms(3) kind by (auto simp: Let_def simp flip: b1_def)
  show "numbered (ce_blocks e)" by (rule codex_blocks_numbered [OF assms(2)])
qed

definition sample_user_record :: json where
  "sample_user_record = JObj [(''type'', JStr ''user''), (''message'', JObj [(''content'',
     JArr [JObj [(''type'', JStr ''text''), (''text'', JStr ''hello'')], JObj []])])]"

theorem blocks_numbered_witness:
  "\<exists>c e. claude_parse sample_lib sample_user_record = Inr c \<and> codex_parse sample_lib sample_user_record = Inr e
    \<and> map bk_ord (ce_blocks c) = map int [0..<length (ce_blocks c)]
    \<and> map bk_ord (ce_blocks e) = map int [0..<length (ce_blocks e)]"
proof -
  obtain c e where ce: "claude_parse sample_lib sample_user_record = Inr c"
      "codex_parse sample_lib sample_user_record = Inr e"
    using claude_parse_runs [OF sample_lib_ok] codex_parse_runs [OF sample_lib_ok] by (metis runs_iff)
  have "get_str sample_user_record ''type'' \<noteq> Some ''attachment''"
    by (simp add: sample_user_record_def get_str_def)
  with blocks_numbered [OF ce] ce show ?thesis by blast
qed

section \<open>Patches\<close>

text \<open>A file edit as it is written: operation, path, the path moved from, and the lines of the diff.\<close>

record patch_edit =
  pe_operation :: string
  pe_path :: string
  pe_old_path :: "string option"
  pe_lines :: "string list"

definition patch_header :: "patch_edit \<Rightarrow> string" where
  "patch_header e =
     (if pe_operation e = ''update'' then ''*** Update File: '' @ pe_path e
      else if pe_operation e = ''add'' then ''*** Add File: '' @ pe_path e
      else if pe_operation e = ''delete'' then ''*** Delete File: '' @ pe_path e
      else ''*** Move File: '' @ unwrap_or (pe_old_path e) [] @ '' to '' @ pe_path e)"

definition unlines :: "string list \<Rightarrow> string" where
  "unlines ls = concat (map (\<lambda>l. l @ [newline]) ls)"

definition render_patch :: "patch_edit list \<Rightarrow> string" where
  "render_patch es = unlines
     (''*** Begin Patch'' # concat (map (\<lambda>e. patch_header e # pe_lines e) es) @ [''*** End Patch''])"

definition edit_value :: "patch_edit \<Rightarrow> json" where
  "edit_value e = JObj ([(''path'', JStr (pe_path e)), (''operation'', JStr (pe_operation e))]
     @ (case pe_old_path e of None \<Rightarrow> [] | Some p \<Rightarrow> [(''old_path'', JStr p)])
     @ [(''diff'', JStr (join [newline] (pe_lines e)))])"

definition one_line :: "string \<Rightarrow> bool" where
  "one_line l \<longleftrightarrow> newline \<notin> set l \<and> (l = [] \<or> last l \<noteq> CHR 0x0D)"

text \<open>
  The edits a patch can carry: trimmed paths on one line, diff lines that are no directives, no
  trailing empty diff line, and for a move paths that the separator \<^verbatim>\<open> to \<close> tells apart.
\<close>

definition edit_ok :: "patch_edit \<Rightarrow> bool" where
  "edit_ok e \<longleftrightarrow> one_line (pe_path e) \<and> pe_path e \<noteq> [] \<and> trim (pe_path e) = pe_path e
     \<and> (\<forall>l \<in> set (pe_lines e). one_line l \<and> \<not> starts_with l ''*** '')
     \<and> (pe_lines e = [] \<or> last (pe_lines e) \<noteq> [])
     \<and> (if pe_operation e = ''move''
        then (\<exists>old. pe_old_path e = Some old \<and> one_line old \<and> old \<noteq> [] \<and> trim old = old
              \<and> split_once (old @ '' to '' @ pe_path e) '' to '' = Some (old, pe_path e))
        else pe_operation e \<in> {''update'', ''add'', ''delete''} \<and> pe_old_path e = None)"

lemma lines_unlines: "\<forall>l \<in> set ls. one_line l \<Longrightarrow> lines (unlines ls) = ls"
  by (induction ls) (simp_all add: unlines_def one_line_def, simp add: lines_def)

lemma patch_lines_diff:
  "\<forall>l \<in> set ds. \<not> starts_with l ''*** '' \<Longrightarrow>
    patch_lines (ds @ rest) (Some b) = patch_lines rest (Some (b\<lparr>fe_diff := fe_diff b @ unlines ds\<rparr>))"
  by (induction ds arbitrary: b) (simp_all add: unlines_def strip_prefix_def)

lemma trim_unlines:
  assumes "\<forall>l \<in> set ds. one_line l" "ds = [] \<or> last ds \<noteq> []"
  shows "trim_end_matches [newline] (unlines ds) = join [newline] ds"
proof (cases ds rule: rev_cases)
  case (snoc init d)
  have join: "join [newline] (xs @ [d]) = unlines xs @ d" for xs
    by (induction xs) (auto simp: unlines_def)
  have "last d \<noteq> newline" "d \<noteq> []" using assms by (auto simp: snoc one_line_def dest: last_in_set)
  then have "trim_end_matches [newline] (unlines init @ d) = unlines init @ d"
    by (intro trim_end_matches_id) auto
  then show ?thesis by (simp add: snoc join unlines_def trim_end_matches_snoc flip: append_assoc)
qed (simp add: unlines_def trim_end_matches_def)

lemma patch_header_opens:
  assumes "edit_ok e"
  shows "\<exists>header. strip_prefix (patch_header e) ''*** '' = Some header
    \<and> header \<noteq> ''Begin Patch'' \<and> header \<noteq> ''End Patch''
    \<and> patch_directive header = Some (file_edit_new (pe_path e) (pe_operation e) (pe_old_path e))"
proof (cases "pe_operation e = ''move''")
  case True
  then obtain old where "pe_old_path e = Some old" "old \<noteq> []" "trim old = old"
      "split_once (old @ '' to '' @ pe_path e) '' to '' = Some (old, pe_path e)"
    using assms by (auto simp: edit_ok_def)
  with True assms show ?thesis
    by (auto simp: patch_header_def strip_prefix_def starts_with_def patch_directive_def split_move_def
        edit_ok_def)
next
  case False
  then show ?thesis
    using assms by (auto simp: patch_header_def strip_prefix_def starts_with_def patch_directive_def edit_ok_def)
qed

lemma patch_lines_edits:
  assumes "\<forall>e \<in> set es. edit_ok e"
  shows "patch_lines (concat (map (\<lambda>e. patch_header e # pe_lines e) es) @ [''*** End Patch'']) current
    = (case current of None \<Rightarrow> [] | Some b \<Rightarrow> [file_edit_value b]) @ map edit_value es"
  using assms
proof (induction es arbitrary: current)
  case (Cons e es)
  obtain header where h: "strip_prefix (patch_header e) ''*** '' = Some header"
      "header \<noteq> ''Begin Patch''" "header \<noteq> ''End Patch''"
      "patch_directive header = Some (file_edit_new (pe_path e) (pe_operation e) (pe_old_path e))"
    using patch_header_opens Cons.prems by (metis list.set_intros(1))
  let ?b = "(file_edit_new (pe_path e) (pe_operation e) (pe_old_path e))\<lparr>fe_diff := unlines (pe_lines e)\<rparr>"
  have ok: "\<forall>l \<in> set (pe_lines e). one_line l \<and> \<not> starts_with l ''*** ''" "pe_lines e = [] \<or> last (pe_lines e) \<noteq> []"
    using Cons.prems by (auto simp: edit_ok_def)
  then have "file_edit_value ?b = edit_value e"
    by (simp add: file_edit_value_def edit_value_def file_edit_new_def trim_unlines)
  moreover have "fe_diff (file_edit_new (pe_path e) (pe_operation e) (pe_old_path e)) = []"
    by (simp add: file_edit_new_def)
  ultimately show ?case
    using Cons.IH [of "Some ?b"] Cons.prems h ok by (simp add: patch_lines_diff)
qed (simp add: strip_prefix_def starts_with_def)

text \<open>
  C27: parsing a patch gives back the edits it was written from, in order: paths, operations, the
  path a file was moved from, and the lines of every diff.
\<close>

theorem patch_reads_back:
  assumes "\<forall>e \<in> set es. edit_ok e"
  shows "parse_apply_patch (render_patch es) = JObj [(''file_edits'', JArr (map edit_value es))]"
proof -
  have old: "one_line (unwrap_or (pe_old_path e) [])" if "edit_ok e" for e
    using that by (auto simp: edit_ok_def one_line_def split: if_splits)
  have header: "one_line (patch_header e)" if "edit_ok e" for e
    using that old [OF that] by (auto simp: patch_header_def edit_ok_def one_line_def)
  let ?ls = "''*** Begin Patch'' # concat (map (\<lambda>e. patch_header e # pe_lines e) es) @ [''*** End Patch'']"
  have "\<forall>l \<in> set ?ls. one_line l"
    using assms header by (auto simp: edit_ok_def) (simp_all add: one_line_def)
  then show ?thesis
    using patch_lines_edits [OF assms, of None]
    by (simp add: parse_apply_patch_def render_patch_def lines_unlines strip_prefix_def starts_with_def)
qed

theorem patch_reads_back_witness:
  "parse_apply_patch (render_patch [\<lparr>pe_operation = ''move'', pe_path = ''b.rs'', pe_old_path = Some ''a.rs'',
      pe_lines = [''+x'', [], '' y'']\<rparr>])
    = JObj [(''file_edits'', JArr [JObj [(''path'', JStr ''b.rs''), (''operation'', JStr ''move''),
        (''old_path'', JStr ''a.rs''),
        (''diff'', JStr (''+x'' @ [newline, newline] @ '' y''))]])]"
proof -
  let ?e = "\<lparr>pe_operation = ''move'', pe_path = ''b.rs'', pe_old_path = Some ''a.rs'',
      pe_lines = [''+x'', [], '' y'']\<rparr>"
  have "edit_ok ?e" by (simp add: edit_ok_def one_line_def text_simps)
  then show ?thesis using patch_reads_back [of "[?e]"] by (simp add: edit_value_def)
qed

section \<open>User text\<close>

text \<open>
  The pairs of lines a scan has removed so far, in order: an opening delimiter and the closing one
  with the same id after it, each pair after the one before.
\<close>

definition paste_pair :: "string list \<Rightarrow> nat \<times> nat \<Rightarrow> bool" where
  "paste_pair ls = (\<lambda>(a, b). a < b \<and> b < length ls
     \<and> (\<exists>name. name \<noteq> [] \<and> trim (ls ! a) = OPEN_PREFIX @ name @ TAG_SUFFIX
          \<and> trim (ls ! b) = CLOSE_PREFIX @ name @ TAG_SUFFIX))"

fun pairs_after :: "nat \<Rightarrow> (nat \<times> nat) list \<Rightarrow> bool" where
  "pairs_after n [] \<longleftrightarrow> True"
| "pairs_after n ((a, b) # ps) \<longleftrightarrow> n \<le> a \<and> a < b \<and> pairs_after (Suc b) ps"

definition scan_ok :: "string list \<Rightarrow> nat \<Rightarrow> paste_scan \<Rightarrow> bool" where
  "scan_ok ls n st \<longleftrightarrow>
     (\<exists>ps. ps_remove st = concat (map (\<lambda>(a, b). [a, b]) ps) \<and> pairs_after 0 ps
        \<and> list_all (paste_pair ls) ps
        \<and> (\<forall>p \<in> set ps. snd p < (case ps_opening st of None \<Rightarrow> n | Some (a, _) \<Rightarrow> a)))
     \<and> (case ps_opening st of
          None \<Rightarrow> True
        | Some (a, name) \<Rightarrow> a < n \<and> name \<noteq> [] \<and> trim (ls ! a) = OPEN_PREFIX @ name @ TAG_SUFFIX)"

lemma pairs_after_snoc:
  "pairs_after n ps \<Longrightarrow> \<forall>p \<in> set ps. snd p < a \<Longrightarrow> n \<le> a \<Longrightarrow> a < b \<Longrightarrow> pairs_after n (ps @ [(a, b)])"
  by (induction n ps rule: pairs_after.induct) auto

lemma strip_suffix_Some: "strip_suffix s p = Some t \<Longrightarrow> s = t @ p"
  by (auto simp: strip_suffix_def ends_with_iff split: if_splits)

lemma paste_id_Some: "paste_id t = Some name \<Longrightarrow> name \<noteq> [] \<and> t = OPEN_PREFIX @ name @ TAG_SUFFIX"
  by (auto simp: paste_id_def bind_eq_Some_conv strip_prefix_Some_iff split: if_splits dest!: strip_suffix_Some)

lemma scan_line_ok:
  assumes "scan_ok ls n st" "n < length ls"
  shows "scan_ok ls (Suc n) (scan_line (n, ls ! n) st)"
proof -
  obtain ps where ps: "ps_remove st = concat (map (\<lambda>(a, b). [a, b]) ps)" "pairs_after 0 ps"
      "list_all (paste_pair ls) ps"
      "\<forall>p \<in> set ps. snd p < (case ps_opening st of None \<Rightarrow> n | Some (a, _) \<Rightarrow> a)"
    and op: "case ps_opening st of None \<Rightarrow> True
      | Some (a, name) \<Rightarrow> a < n \<and> name \<noteq> [] \<and> trim (ls ! a) = OPEN_PREFIX @ name @ TAG_SUFFIX"
    using assms(1) unfolding scan_ok_def by blast
  have same: "scan_ok ls (Suc n) (st\<lparr>ps_fence := f\<rparr>)" for f
    using ps op unfolding scan_ok_def
    by (auto split: option.splits intro!: exI [of _ ps])
  show ?thesis
  proof (cases "is_fence_line (trim (ls ! n)) \<or> ps_fence st \<noteq> None")
    case True
    then show ?thesis using same same [of "ps_fence st"] by (auto simp: scan_line_def Let_def)
  next
    case False
    show ?thesis
    proof (cases "ps_opening st")
      case None
      then show ?thesis
        using False ps op assms(2) paste_id_Some [of "trim (ls ! n)"]
        by (auto simp: scan_line_def scan_ok_def Let_def split: option.split intro!: exI [of _ ps])
    next
      case (Some o')
      obtain a name where o': "o' = (a, name)" by (cases o')
      show ?thesis
      proof (cases "trim (ls ! n) = CLOSE_PREFIX @ name @ TAG_SUFFIX")
        case True
        let ?ps = "ps @ [(a, n)]"
        have "pairs_after 0 ?ps" using ps op Some o' by (auto intro: pairs_after_snoc)
        moreover have "list_all (paste_pair ls) ?ps"
          using ps op Some o' True assms(2) by (auto simp: paste_pair_def)
        moreover have "\<forall>p \<in> set ?ps. snd p < Suc n" using ps op Some o' by force
        moreover have "scan_line (n, ls ! n) st = st\<lparr>ps_remove := ps_remove st @ [a, n], ps_opening := None\<rparr>"
          using False Some o' True by (simp add: scan_line_def Let_def)
        ultimately show ?thesis using ps(1) unfolding scan_ok_def by (auto intro!: exI [of _ ?ps])
      next
        case other: False
        have "scan_line (n, ls ! n) st = st" using False other Some o' by (simp add: scan_line_def Let_def)
        then show ?thesis using same [of "ps_fence st"] by simp
      qed
    qed
  qed
qed

lemma scan_lines_ok:
  "scan_ok ls n st \<Longrightarrow> n \<le> length ls \<Longrightarrow>
    scan_ok ls (length ls) (fold scan_line (enumerate n (drop n ls)) st)"
proof (induction "length ls - n" arbitrary: n st)
  case (Suc k)
  then have n: "n < length ls" by simp
  then have "enumerate n (drop n ls) = (n, ls ! n) # enumerate (Suc n) (drop (Suc n) ls)"
    by (simp add: Cons_nth_drop_Suc [symmetric])
  then show ?case using Suc n scan_line_ok by simp
qed simp


end
