(* ===== verification/Ingest_Events.thy ===== *)
theory Ingest_Events
  imports Canonical Timeline_Store
begin

text \<open>
  One transcript line into the database: the lineage of Codex records
  (\<^verbatim>\<open>ingester/codex_lineage.rs\<close>), the insertion of an event with its blocks
  (\<^verbatim>\<open>ingester/insert.rs\<close>) and the parent session a line names
  (\<^verbatim>\<open>ingester/canonical_backfill.rs\<close>).

  The tables are those the ingester reads back: sessions, committed offsets, events and blocks
  under their primary keys, projections and restore requests. What an inserted event hands to
  the usage, metadata, model switch and activity components is logged in order in
  \<open>ig_follow_ups\<close>; they write tables of their own. A database failure is an outcome of the
  environment, \<open>ie_db_ok\<close>: it rolls the transaction of the line back.
\<close>

section \<open>Environment and tables\<close>

datatype transcript_source = ClaudeCode | Codex

fun agent_id :: "transcript_source \<Rightarrow> string" where
  "agent_id ClaudeCode = ''claude-code''"
| "agent_id Codex = ''codex''"

record ingest_env =
  ie_lib :: syntax_lib
  ie_parse_uuid :: "string \<Rightarrow> session option"
  ie_uuid_string :: "session \<Rightarrow> string"
  ie_parse_rfc3339 :: "string \<Rightarrow> time option"
  ie_now :: time
  ie_db_ok :: "session \<Rightarrow> int \<Rightarrow> bool"
  ie_current_pty :: "session \<Rightarrow> string option"
  ie_sha256_hex :: "string \<Rightarrow> string"
  ie_jsonb_text :: "json \<Rightarrow> string"
  ie_classify :: "block \<Rightarrow> block"

record event_row =
  ev_timestamp :: time
  ev_kind :: string
  ev_payload :: json
  ev_agent :: string
  ev_speaker :: string
  ev_content_kind :: string
  ev_event_uuid :: "string option"
  ev_parent_event_uuid :: "string option"
  ev_related_tool_use_id :: "string option"
  ev_is_sidechain :: bool
  ev_is_meta :: bool
  ev_subtype :: "string option"
  ev_search_text :: string

record session_row =
  sn_agent :: string
  sn_project_hash :: "string option"
  sn_pty_session_id :: "string option"
  sn_parent_session_uuid :: "session option"
  sn_purged :: bool

record ingester_state =
  is_file_path :: string
  is_offset :: int
  is_updated_at :: time

record embedding_source =
  es_kind :: string
  es_session :: session
  es_byte_offset :: int
  es_block_ord :: int
  es_content_hash :: string
  es_deleted :: bool

datatype follow_up =
    RecordUsage session transcript_source int time json
  | UpsertMetadata session transcript_source json
  | ObserveSwitch session transcript_source json int time
  | ProjectActivity session transcript_source json int

record ingest_db =
  ig_sessions :: "session \<Rightarrow> session_row option"
  ig_states :: "(session, ingester_state) btree_map"
  ig_events :: "session \<Rightarrow> (int, event_row) btree_map"
  ig_blocks :: "session \<Rightarrow> (int \<times> int, block) btree_map"
  ig_timeline :: "session \<Rightarrow> projection option"
  ig_restores :: "session list"
  ig_sources :: "string \<Rightarrow> embedding_source option"
  ig_embeddings :: "string set"
  ig_follow_ups :: "follow_up list"

section \<open>Codex lineage\<close>

record codex_context =
  cx_session_id :: string
  cx_parent_session_id :: "string option"
  cx_current_turn_id :: "string option"
  cx_history_start_ordinal :: "int option"

definition codex_context_new :: "ingest_env \<Rightarrow> session \<Rightarrow> codex_context" where
  "codex_context_new env s = \<lparr>cx_session_id = ie_uuid_string env s, cx_parent_session_id = None,
     cx_current_turn_id = None, cx_history_start_ordinal = None\<rparr>"

definition is_inherited :: "codex_context \<Rightarrow> json \<Rightarrow> bool" where
  "is_inherited ctx value \<longleftrightarrow>
     (codex_record_kind value = Some ''session_meta''
      \<and> (case path_str value [''payload'', ''id''] of
           None \<Rightarrow> False | Some i \<Rightarrow> i \<noteq> cx_session_id ctx))
     \<or> (case (cx_history_start_ordinal ctx, Option.bind (jget value ''ordinal'') as_u64) of
          (Some start, Some ordinal) \<Rightarrow> 0 < ordinal \<and> ordinal < start
        | _ \<Rightarrow> False)"

definition codex_parent_session_string :: "json \<Rightarrow> string option" where
  "codex_parent_session_string value =
     or_else (path_str (codex_payload value) [''forked_from_id''])
       (path_str (codex_payload value) [''source'', ''subagent'', ''thread_spawn'', ''parent_thread_id''])"

definition detect_codex_parent_session :: "ingest_env \<Rightarrow> json \<Rightarrow> session \<Rightarrow> session option" where
  "detect_codex_parent_session env value current =
     (if path_str value [''payload'', ''id''] \<noteq> Some (ie_uuid_string env current) then None
      else case Option.bind (codex_parent_session_string value) (ie_parse_uuid env) of
             Some parent \<Rightarrow> if parent \<noteq> current then Some parent else None
           | None \<Rightarrow> None)"

definition update_codex_context ::
  "ingest_env \<Rightarrow> session \<Rightarrow> json \<Rightarrow> codex_context \<Rightarrow> codex_context" where
  "update_codex_context env s value ctx =
     (if is_inherited ctx value then ctx
      else
        let payload = codex_payload value; kind = unwrap_or (codex_record_kind value) [] in
        if kind = ''session_meta'' then
          ctx\<lparr>cx_session_id := unwrap_or (path_str payload [''id'']) (ie_uuid_string env s),
              cx_parent_session_id := codex_parent_session_string value,
              cx_history_start_ordinal :=
                Option.bind (jget payload ''subagent_history_start_ordinal'') as_u64\<rparr>
        else if kind = ''turn_context''
             \<or> (kind = ''event_msg'' \<and> get_str payload ''type'' = Some ''task_started'')
          then ctx\<lparr>cx_current_turn_id := path_str payload [''turn_id'']\<rparr>
        else ctx)"

definition first_tool_id :: "block list \<Rightarrow> string option" where
  "first_tool_id blocks =
     (case List.map_filter bk_tool_id blocks of [] \<Rightarrow> None | i # _ \<Rightarrow> Some i)"

definition inherited_event :: "string \<Rightarrow> bool \<Rightarrow> canonical_event \<Rightarrow> canonical_event" where
  "inherited_event synthetic_id sidechain parsed = parsed\<lparr>
     ce_event_uuid := Some synthetic_id, ce_parent_event_uuid := None,
     ce_related_tool_use_id := None, ce_is_sidechain := sidechain, ce_is_meta := True,
     ce_speaker := SpSystem, ce_content_kind := CkNone, ce_subtype := Some ''inherited_history'',
     ce_blocks := []\<rparr>"

definition response_item_uuid :: "json \<Rightarrow> string \<Rightarrow> int \<Rightarrow> string \<Rightarrow> canonical_event \<Rightarrow> string" where
  "response_item_uuid payload subtype byte_offset synthetic_id parsed =
     unwrap_or
       (if subtype = ''agent_message'' then get_str payload ''id''
        else if subtype = ''function_call'' \<or> subtype = ''custom_tool_call''
          then first_tool_id (ce_blocks parsed)
        else if subtype = ''function_call_output'' \<or> subtype = ''custom_tool_call_output''
          then map_option (\<lambda>i. i @ '':output:'' @ show_int byte_offset) (ce_related_tool_use_id parsed)
        else None) synthetic_id"

definition enrich_event_msg ::
  "json \<Rightarrow> string \<Rightarrow> string \<Rightarrow> string \<Rightarrow> string option \<Rightarrow> bool \<Rightarrow> canonical_event \<Rightarrow> canonical_event" where
  "enrich_event_msg payload subtype synthetic_id session_id current_turn sidechain parsed =
     (let parsed = parsed\<lparr>
            ce_related_tool_use_id :=
              or_else (ce_related_tool_use_id parsed) (path_str payload [''call_id'']),
            ce_is_sidechain := sidechain\<rparr>;
          turn_or_session = Some (unwrap_or current_turn session_id)
      in if subtype = ''item_completed''
            \<and> path_str payload [''item'', ''type''] = Some ''SubAgentActivity''
            \<and> path_str payload [''item'', ''kind''] = Some ''started'' then
           parsed\<lparr>
             ce_event_uuid := Some (unwrap_or (path_str payload [''item'', ''agent_thread_id'']) synthetic_id),
             ce_related_tool_use_id := path_str payload [''item'', ''id''],
             ce_parent_event_uuid := turn_or_session, ce_is_sidechain := False\<rparr>
         else if subtype = ''task_started'' then
           parsed\<lparr>ce_event_uuid := Some (unwrap_or (path_str payload [''turn_id'']) synthetic_id),
             ce_parent_event_uuid := Some session_id\<rparr>
         else if subtype = ''collab_agent_spawn_end'' then
           parsed\<lparr>ce_event_uuid := Some (unwrap_or (path_str payload [''new_thread_id'']) synthetic_id),
             ce_parent_event_uuid := turn_or_session, ce_is_sidechain := False\<rparr>
         else
           parsed\<lparr>ce_event_uuid := Some synthetic_id,
             ce_parent_event_uuid :=
               or_else (path_str payload [''turn_id'']) turn_or_session\<rparr>)"

definition enrich_codex_lineage ::
  "ingest_env \<Rightarrow> json \<Rightarrow> session \<Rightarrow> int \<Rightarrow> codex_context option \<Rightarrow> canonical_event \<Rightarrow> canonical_event" where
  "enrich_codex_lineage env value s byte_offset codex_ctx parsed =
     (let payload = codex_payload value;
          outer = unwrap_or (codex_record_kind value) [];
          subtype = unwrap_or (ce_subtype parsed) [];
          session_id = unwrap_or (map_option cx_session_id codex_ctx) (ie_uuid_string env s);
          sidechain = (Option.bind codex_ctx cx_parent_session_id \<noteq> None);
          current_turn = Option.bind codex_ctx cx_current_turn_id;
          synthetic_id = ''codex:'' @ ie_uuid_string env s @ '':'' @ show_int byte_offset
      in if (case codex_ctx of None \<Rightarrow> False | Some ctx \<Rightarrow> is_inherited ctx value) then
           inherited_event synthetic_id sidechain parsed
         else if outer = ''session_meta'' then
           parsed\<lparr>ce_event_uuid := Some (unwrap_or (path_str payload [''id'']) session_id),
             ce_parent_event_uuid := codex_parent_session_string value,
             ce_is_sidechain := (codex_parent_session_string value \<noteq> None)\<rparr>
         else if outer = ''turn_context'' then
           parsed\<lparr>ce_event_uuid := Some (unwrap_or (path_str payload [''turn_id'']) synthetic_id),
             ce_parent_event_uuid := Some session_id, ce_is_sidechain := sidechain\<rparr>
         else if outer = ''response_item'' then
           parsed\<lparr>ce_parent_event_uuid := Some (unwrap_or current_turn session_id),
             ce_is_sidechain := sidechain,
             ce_event_uuid := Some (response_item_uuid payload subtype byte_offset synthetic_id parsed)\<rparr>
         else if outer = ''event_msg'' then
           enrich_event_msg payload subtype synthetic_id session_id current_turn sidechain parsed
         else parsed)"

section \<open>Parsing a line\<close>

definition parse_canonical_event ::
  "ingest_env \<Rightarrow> string \<Rightarrow> json \<Rightarrow> session \<Rightarrow> int \<Rightarrow> codex_context option \<Rightarrow> panic + canonical_event" where
  "parse_canonical_event env agent value s byte_offset codex_ctx =
     (if agent = ''codex''
      then res_bind (codex_parse (ie_lib env) value) (\<lambda>parsed.
             Inr (enrich_codex_lineage env value s byte_offset codex_ctx parsed))
      else claude_parse (ie_lib env) value)"

definition stored_event_kind :: "transcript_source \<Rightarrow> json \<Rightarrow> string" where
  "stored_event_kind source value =
     (case source of
        ClaudeCode \<Rightarrow> unwrap_or (get_str value ''type'') ''unknown''
      | Codex \<Rightarrow>
          (let outer = unwrap_or (codex_record_kind value) [];
               subtype = (case path_str value [''payload'', ''type''] of
                            Some k \<Rightarrow> if k = [] then ''unknown'' else k | None \<Rightarrow> ''unknown'')
           in if outer = ''response_item'' \<or> outer = ''event_msg'' \<or> outer = [] then subtype
              else outer))"

definition parse_event_timestamp :: "ingest_env \<Rightarrow> json \<Rightarrow> time option" where
  "parse_event_timestamp env value =
     Option.bind (Option.bind (or_else (jget value ''timestamp'') (jget value ''ts'')) as_str)
       (ie_parse_rfc3339 env)"

text \<open>A Claude subagent's records link to the call that spawned it unless they name one.\<close>

definition link_subagent :: "string option \<Rightarrow> canonical_event \<Rightarrow> canonical_event" where
  "link_subagent tool_use_id parsed =
     (case tool_use_id of
        None \<Rightarrow> parsed
      | Some i \<Rightarrow>
          if ce_related_tool_use_id parsed = None then parsed\<lparr>ce_related_tool_use_id := Some i\<rparr>
          else parsed)"

definition event_row_of ::
  "ingest_env \<Rightarrow> transcript_source \<Rightarrow> json \<Rightarrow> time option \<Rightarrow> canonical_event \<Rightarrow> event_row" where
  "event_row_of env source value fallback parsed = \<lparr>
     ev_timestamp = unwrap_or (or_else (parse_event_timestamp env value) fallback) (ie_now env),
     ev_kind = stored_event_kind source value, ev_payload = value, ev_agent = ce_agent parsed,
     ev_speaker = speaker_as_str (ce_speaker parsed),
     ev_content_kind = content_kind_as_str (ce_content_kind parsed),
     ev_event_uuid = ce_event_uuid parsed, ev_parent_event_uuid = ce_parent_event_uuid parsed,
     ev_related_tool_use_id = ce_related_tool_use_id parsed,
     ev_is_sidechain = ce_is_sidechain parsed, ev_is_meta = ce_is_meta parsed,
     ev_subtype = ce_subtype parsed, ev_search_text = search_text (ie_lib env) parsed\<rparr>"

section \<open>Embedding sources\<close>

definition event_embedding_source :: "speaker \<Rightarrow> block \<Rightarrow> (string \<times> string) option" where
  "event_embedding_source spk b =
     (if spk = SpAssistant \<and> bk_kind b = BText then map_option (Pair ''assistant_text'') (bk_text b)
      else if spk = SpUser \<and> bk_kind b = BText then map_option (Pair ''user_prompt'') (bk_text b)
      else if spk = SpSummary \<and> bk_kind b = BText then map_option (Pair ''summary'') (bk_text b)
      else if bk_kind b = BToolResult \<and> unwrap_or (bk_is_error b) False
        then map_option (Pair ''tool_error'') (bk_text b)
      else None)"

definition embedding_source_key :: "ingest_env \<Rightarrow> session \<Rightarrow> int \<Rightarrow> int \<Rightarrow> string" where
  "embedding_source_key env s byte_offset ord =
     ''event:'' @ ie_uuid_string env s @ '':'' @ show_int byte_offset @ '':'' @ show_int ord"

definition mark_embedding_source_deleted :: "string \<Rightarrow> ingest_db \<Rightarrow> ingest_db" where
  "mark_embedding_source_deleted key db = db\<lparr>
     ig_embeddings := ig_embeddings db - {key},
     ig_sources := (ig_sources db)(key := map_option (\<lambda>r. r\<lparr>es_deleted := True\<rparr>) (ig_sources db key))\<rparr>"

definition enqueue_event_embedding_source ::
  "ingest_env \<Rightarrow> session \<Rightarrow> int \<Rightarrow> speaker \<Rightarrow> block \<Rightarrow> ingest_db \<Rightarrow> ingest_db" where
  "enqueue_event_embedding_source env s byte_offset spk b db =
     (let key = embedding_source_key env s byte_offset (bk_ord b) in
      case event_embedding_source spk b of
        None \<Rightarrow> mark_embedding_source_deleted key db
      | Some (source_kind, text) \<Rightarrow>
          (let text = trim text in
           if text = [] then mark_embedding_source_deleted key db
           else db\<lparr>ig_sources := (ig_sources db)(key \<mapsto>
             \<lparr>es_kind = source_kind, es_session = s, es_byte_offset = byte_offset,
              es_block_ord = bk_ord b, es_content_hash = ie_sha256_hex env text,
              es_deleted = False\<rparr>)\<rparr>))"

section \<open>Insertion\<close>

datatype insert_error = ParseFailed | DbFailed | Panicked panic

definition insert_block ::
  "ingest_env \<Rightarrow> session \<Rightarrow> int \<Rightarrow> speaker \<Rightarrow> block \<Rightarrow> ingest_db \<Rightarrow> ingest_db" where
  "insert_block env s byte_offset spk b db =
     enqueue_event_embedding_source env s byte_offset spk b
       (db\<lparr>ig_blocks := (ig_blocks db)(s := btm_insert (byte_offset, bk_ord b) b (ig_blocks db s))\<rparr>)"

definition insert_blocks ::
  "ingest_env \<Rightarrow> session \<Rightarrow> int \<Rightarrow> speaker \<Rightarrow> block list \<Rightarrow> ingest_db \<Rightarrow> ingest_db" where
  "insert_blocks env s byte_offset spk blocks db = fold (insert_block env s byte_offset spk) blocks db"

definition follow :: "follow_up \<Rightarrow> ingest_db \<Rightarrow> ingest_db" where
  "follow f db = db\<lparr>ig_follow_ups := ig_follow_ups db @ [f]\<rparr>"

definition insert_event_derivatives ::
  "ingest_env \<Rightarrow> session \<Rightarrow> transcript_source \<Rightarrow> int \<Rightarrow> time \<Rightarrow> json \<Rightarrow> canonical_event \<Rightarrow> ingest_db \<Rightarrow> ingest_db" where
  "insert_event_derivatives env s source byte_offset timestamp value parsed db =
     (if ce_subtype parsed = Some ''inherited_history'' then db
      else follow (RecordUsage s source byte_offset timestamp value)
             (if ce_blocks parsed \<noteq> []
              then insert_blocks env s byte_offset (ce_speaker parsed) (ce_blocks parsed) db else db))"

definition project_after_insert ::
  "session \<Rightarrow> transcript_source \<Rightarrow> json \<Rightarrow> int \<Rightarrow> time \<Rightarrow> ingest_db \<Rightarrow> ingest_db" where
  "project_after_insert s source value byte_offset timestamp db =
     follow (ProjectActivity s source value byte_offset)
       (follow (ObserveSwitch s source value byte_offset timestamp)
         (follow (UpsertMetadata s source value) db))"

definition COMPACTION_CANDIDATES :: "string list" where
  "COMPACTION_CANDIDATES = [''leafUuid'', ''parentSessionUuid'', ''parent_session_uuid'',
     ''parentSessionId'', ''parent_session_id'', ''compactedFromSessionUuid'']"

definition is_compact_record :: "json \<Rightarrow> bool" where
  "is_compact_record value \<longleftrightarrow>
     unwrap_or (get_bool value ''isCompactSummary'') False
     \<or> (case get_str value ''type'' of
          None \<Rightarrow> False
        | Some t \<Rightarrow> to_ascii_lowercase t = ''summary'' \<or> to_ascii_lowercase t = ''compact_summary'')"

fun compaction_parent :: "ingest_env \<Rightarrow> json \<Rightarrow> session \<Rightarrow> string list \<Rightarrow> session option" where
  "compaction_parent env value current [] = None"
| "compaction_parent env value current (key # keys) =
     (case Option.bind (get_str value key) (ie_parse_uuid env) of
        Some u \<Rightarrow>
          if u \<noteq> current \<and> (is_compact_record value \<or> key \<noteq> ''leafUuid'') then Some u
          else compaction_parent env value current keys
      | None \<Rightarrow> compaction_parent env value current keys)"

definition detect_compaction_parent :: "ingest_env \<Rightarrow> json \<Rightarrow> session \<Rightarrow> session option" where
  "detect_compaction_parent env value current =
     compaction_parent env value current COMPACTION_CANDIDATES"

definition set_parent_session :: "session \<Rightarrow> session \<Rightarrow> ingest_db \<Rightarrow> ingest_db" where
  "set_parent_session s parent db =
     (case ig_sessions db s of
        Some row \<Rightarrow>
          if sn_parent_session_uuid row = None
          then db\<lparr>ig_sessions := (ig_sessions db)(s \<mapsto> row\<lparr>sn_parent_session_uuid := Some parent\<rparr>)\<rparr>
          else db
      | None \<Rightarrow> db)"

definition link_parent_session ::
  "ingest_env \<Rightarrow> transcript_source \<Rightarrow> json \<Rightarrow> session \<Rightarrow> ingest_db \<Rightarrow> ingest_db" where
  "link_parent_session env source value s db =
     (case (case source of ClaudeCode \<Rightarrow> detect_compaction_parent env value s
            | Codex \<Rightarrow> detect_codex_parent_session env value s) of
        Some parent \<Rightarrow> set_parent_session s parent db
      | None \<Rightarrow> db)"

text \<open>The row of the line, on conflict nothing; then the derivatives of a new row.\<close>

definition insert_row ::
  "ingest_env \<Rightarrow> session \<Rightarrow> transcript_source \<Rightarrow> int \<Rightarrow> event_row \<Rightarrow> canonical_event \<Rightarrow> ingest_db \<Rightarrow> ingest_db" where
  "insert_row env s source byte_offset row parsed db =
     insert_event_derivatives env s source byte_offset (ev_timestamp row) (ev_payload row) parsed
       (db\<lparr>ig_events := (ig_events db)(s := btm_insert byte_offset row (ig_events db s))\<rparr>)"

definition insert_line ::
  "ingest_env \<Rightarrow> session \<Rightarrow> transcript_source \<Rightarrow> int \<Rightarrow> string \<Rightarrow> codex_context option \<Rightarrow>
   string option \<Rightarrow> time option \<Rightarrow> ingest_db \<Rightarrow>
   (insert_error + bool) \<times> codex_context option \<times> ingest_db" where
  "insert_line env s source byte_offset line codex_ctx subagent fallback db =
     (if list_all ascii_whitespace line then (Inr False, codex_ctx, db)
      else case from_str (ie_lib env) line of
        None \<Rightarrow> (Inl ParseFailed, codex_ctx, db)
      | Some value \<Rightarrow>
          case parse_canonical_event env (agent_id source) value s byte_offset codex_ctx of
            Inl p \<Rightarrow> (Inl (Panicked p), codex_ctx, db)
          | Inr parsed \<Rightarrow>
              (let parsed = link_subagent subagent parsed;
                   row = event_row_of env source value fallback parsed;
                   inserted = (map_of (ig_events db s) byte_offset = None) in
               if \<not> ie_db_ok env s byte_offset then (Inl DbFailed, codex_ctx, db)
               else
                 let db = (if inserted then insert_row env s source byte_offset row parsed db else db);
                     db = (if inserted \<and> ce_subtype parsed \<noteq> Some ''inherited_history''
                           then project_after_insert s source value byte_offset (ev_timestamp row) db
                           else db);
                     ctx = map_option (update_codex_context env s value) codex_ctx
                 in (Inr inserted, ctx, link_parent_session env source value s db)))"

section \<open>The context of a resumed transcript\<close>

definition payload_text :: "event_row \<Rightarrow> string list \<Rightarrow> string option" where
  "payload_text row ks = path_str (ev_payload row) ks"

definition load_codex_context :: "ingest_env \<Rightarrow> session \<Rightarrow> ingest_db \<Rightarrow> codex_context" where
  "load_codex_context env s db =
     (let rows = map snd (ig_events db s);
          ctx = codex_context_new env s;
          meta = find (\<lambda>r. ev_agent r = ''codex'' \<and> ev_kind r = ''session_meta''
                   \<and> payload_text r [''payload'', ''id''] = Some (ie_uuid_string env s)) rows;
          ctx = (case meta of Some r \<Rightarrow> update_codex_context env s (ev_payload r) ctx | None \<Rightarrow> ctx);
          turn = find (\<lambda>r. ev_agent r = ''codex''
                   \<and> (ev_kind r = ''turn_context'' \<or> ev_kind r = ''task_started'')
                   \<and> ev_subtype r \<noteq> Some ''inherited_history'') (rev rows)
      in (case turn of Some r \<Rightarrow> update_codex_context env s (ev_payload r) ctx | None \<Rightarrow> ctx))"

end
