(* ===== verification/Ingest_Files.thy ===== *)
theory Ingest_Files
  imports Ingest_Events Paths
begin

text \<open>
  The ingester's pass over one transcript file (\<^verbatim>\<open>ingest/ingester.rs\<close>, \<^verbatim>\<open>ingest/tail.rs\<close>), the
  discovery of files (\<^verbatim>\<open>ingest/file_scan.rs\<close>), and the replay of archived lines
  (\<^verbatim>\<open>ingester/replay.rs\<close>). The content of a file is its byte string when it is read; the
  directory walk and the clock are parameters. Statements other than the transaction of a line
  are taken to succeed: a failure of one of them only ends the pass over the file early.
\<close>

section \<open>Reading past a long line\<close>

definition MAX_READ_BYTES :: nat where "MAX_READ_BYTES = 8 * 1024 * 1024"
definition CHUNK :: nat where "CHUNK = 64 * 1024"

text \<open>
  \<open>reads\<close> is how many bytes a read at a position asks to return: any count from one to the chunk
  size, and none only at the end of the file.
\<close>

definition read_chunk :: "(nat \<Rightarrow> nat) \<Rightarrow> string \<Rightarrow> nat \<Rightarrow> string" where
  "read_chunk reads content position = take (max 1 (min CHUNK (reads position))) (drop position content)"

function next_line_boundary :: "(nat \<Rightarrow> nat) \<Rightarrow> string \<Rightarrow> nat \<Rightarrow> nat option" where
  "next_line_boundary reads content position =
     (let chunk = read_chunk reads content position in
      if chunk = [] then None
      else if newline \<in> set chunk
        then Some (position + length (takeWhile (\<lambda>b. b \<noteq> newline) chunk) + 1)
      else next_line_boundary reads content (position + length chunk))"
  by pat_completeness auto
termination
proof (relation "measure (\<lambda>(_, content, position). length content - position)", goal_cases)
  case (2 reads content position x)
  then have "position < length content" "0 < length (read_chunk reads content position)"
    by (auto simp: read_chunk_def)
  with 2(1) show ?case by (simp del: length_greater_0_conv)
qed simp

declare next_line_boundary.simps [simp del]

section \<open>The tables around a file\<close>

record transcript_file =
  tf_path :: string
  tf_session :: session
  tf_project_hash :: "string option"
  tf_committed_offset :: int
  tf_file_len :: int
  tf_subagent_parent :: "session option"

definition upsert_agent_session ::
  "ingest_env \<Rightarrow> session \<Rightarrow> string \<Rightarrow> string option \<Rightarrow> ingest_db \<Rightarrow> ingest_db" where
  "upsert_agent_session env s agent project_hash db =
     db\<lparr>ig_sessions := (ig_sessions db)(s \<mapsto>
       (case ig_sessions db s of
          None \<Rightarrow> \<lparr>sn_agent = agent, sn_project_hash = project_hash,
            sn_pty_session_id = ie_current_pty env s, sn_parent_session_uuid = None, sn_purged = False\<rparr>
        | Some row \<Rightarrow> row\<lparr>sn_agent := agent,
            sn_project_hash := or_else project_hash (sn_project_hash row),
            sn_pty_session_id := or_else (sn_pty_session_id row) (ie_current_pty env s)\<rparr>))\<rparr>"

definition set_offset :: "ingest_env \<Rightarrow> session \<Rightarrow> string \<Rightarrow> int \<Rightarrow> ingest_db \<Rightarrow> ingest_db" where
  "set_offset env s path offset db =
     db\<lparr>ig_states := btm_insert s
       \<lparr>is_file_path = path, is_offset = offset, is_updated_at = ie_now env\<rparr> (ig_states db)\<rparr>"

definition session_is_purged :: "session \<Rightarrow> ingest_db \<Rightarrow> bool" where
  "session_is_purged s db = (case ig_sessions db s of None \<Rightarrow> False | Some row \<Rightarrow> sn_purged row)"

definition enqueue_restore_if_absent :: "session \<Rightarrow> ingest_db \<Rightarrow> ingest_db" where
  "enqueue_restore_if_absent s db =
     (if s \<in> set (ig_restores db) then db else db\<lparr>ig_restores := ig_restores db @ [s]\<rparr>)"

definition defer_if_purged :: "session \<Rightarrow> ingest_db \<Rightarrow> bool \<times> ingest_db" where
  "defer_if_purged s db =
     (if \<not> session_is_purged s db then (False, db) else (True, enqueue_restore_if_absent s db))"

text \<open>The spawning call of a subagent, from the text of the sibling meta file.\<close>

definition read_subagent_tool_use_id :: "ingest_env \<Rightarrow> string option \<Rightarrow> string option" where
  "read_subagent_tool_use_id env meta =
     Option.bind (Option.bind meta (from_str (ie_lib env))) (\<lambda>v. get_str v ''toolUseId'')"

definition rebuild_if_inserted_behind :: "session \<Rightarrow> int option \<Rightarrow> ingest_db \<Rightarrow> ingest_db" where
  "rebuild_if_inserted_behind s first_inserted db =
     (case (first_inserted, ig_timeline db s) of
        (Some first, Some pj) \<Rightarrow>
          if first \<le> ss_projected_through (pj_state pj)
          then db\<lparr>ig_timeline := (ig_timeline db)(s \<mapsto> request_rebuild pj)\<rparr> else db
      | _ \<Rightarrow> db)"

section \<open>The walk over the lines\<close>

definition ADMIT_LINES_PER_TICK :: nat where "ADMIT_LINES_PER_TICK = 2000"

text \<open>\<open>spent n\<close>: the time of the tick is used up once \<open>n\<close> lines went in.\<close>

definition admission_closed :: "(nat \<Rightarrow> bool) \<Rightarrow> nat \<Rightarrow> bool" where
  "admission_closed spent admitted \<longleftrightarrow>
     admitted = ADMIT_LINES_PER_TICK \<or> (0 < admitted \<and> spent admitted)"

record line_walk =
  wk_line_start :: nat
  wk_first_inserted :: "int option"
  wk_context :: "codex_context option"
  wk_admitted :: nat
  wk_inserted :: nat
  wk_parse_errors :: nat
  wk_backlogged :: bool
  wk_panic :: "panic option"
  wk_db :: ingest_db

record walk_params =
  wp_env :: ingest_env
  wp_session :: session
  wp_source :: transcript_source
  wp_base :: int
  wp_subagent :: "string option"
  wp_spent :: "nat \<Rightarrow> bool"

definition admit_line :: "walk_params \<Rightarrow> string \<Rightarrow> line_walk \<Rightarrow> line_walk" where
  "admit_line p line w =
     (let byte_offset = wp_base p + int (wk_line_start w);
          (outcome, ctx, db) = insert_line (wp_env p) (wp_session p) (wp_source p) byte_offset line
            (wk_context w) (wp_subagent p) None (wk_db w);
          w = w\<lparr>wk_admitted := wk_admitted w + 1, wk_context := ctx, wk_db := db,
                wk_line_start := wk_line_start w + length line + 1\<rparr>
      in case outcome of
           Inr True \<Rightarrow> w\<lparr>wk_inserted := wk_inserted w + 1,
             wk_first_inserted := or_else (wk_first_inserted w) (Some byte_offset)\<rparr>
         | Inr False \<Rightarrow> w
         | Inl ParseFailed \<Rightarrow> w\<lparr>wk_parse_errors := wk_parse_errors w + 1\<rparr>
         | Inl DbFailed \<Rightarrow> w
         | Inl (Panicked e) \<Rightarrow> w\<lparr>wk_panic := Some e\<rparr>)"

text \<open>The bytes left of the buffer, and the part of the current line already seen.\<close>

fun walk_buffer :: "walk_params \<Rightarrow> string \<Rightarrow> string \<Rightarrow> line_walk \<Rightarrow> line_walk" where
  "walk_buffer p [] line w = w"
| "walk_buffer p (b # buf) line w =
     (if b \<noteq> newline then walk_buffer p buf (line @ [b]) w
      else if admission_closed (wp_spent p) (wk_admitted w) then w\<lparr>wk_backlogged := True\<rparr>
      else
        let w = admit_line p line w
        in if wk_panic w \<noteq> None then w else walk_buffer p buf [] w)"

record file_result =
  fr_events_inserted :: nat
  fr_parse_errors :: nat
  fr_committed_offset :: int
  fr_backlogged :: bool

datatype file_error = OpenFailed | FilePanic panic

definition skip_oversized_line ::
  "ingest_env \<Rightarrow> transcript_file \<Rightarrow> (nat \<Rightarrow> nat) \<Rightarrow> string \<Rightarrow> nat \<Rightarrow> file_result \<Rightarrow> ingest_db \<Rightarrow>
   file_result \<times> ingest_db" where
  "skip_oversized_line env file reads content scanned result db =
     (case next_line_boundary reads content (nat (tf_committed_offset file + int scanned)) of
        Some resume \<Rightarrow>
          (result\<lparr>fr_parse_errors := fr_parse_errors result + 1, fr_committed_offset := int resume\<rparr>,
           set_offset env (tf_session file) (tf_path file) (int resume) db)
      | None \<Rightarrow> (result, db))"

text \<open>What a pass finds on disk: the content of the file and of the sibling meta file.\<close>

record disk =
  dk_content :: "string option"
  dk_meta :: "string option"
  dk_reads :: "nat \<Rightarrow> nat"

definition prepare_session ::
  "ingest_env \<Rightarrow> transcript_file \<Rightarrow> transcript_source \<Rightarrow> ingest_db \<Rightarrow> ingest_db" where
  "prepare_session env file source db =
     (let db = upsert_agent_session env (tf_session file) (agent_id source) (tf_project_hash file) db
      in case tf_subagent_parent file of
           Some parent \<Rightarrow> set_parent_session (tf_session file) parent db
         | None \<Rightarrow> db)"

definition subagent_of :: "ingest_env \<Rightarrow> disk \<Rightarrow> transcript_file \<Rightarrow> string option" where
  "subagent_of env disk file =
     (if tf_subagent_parent file = None then None else read_subagent_tool_use_id env (dk_meta disk))"

definition file_buffer :: "transcript_file \<Rightarrow> string \<Rightarrow> string" where
  "file_buffer file content =
     take (min (nat (tf_file_len file - tf_committed_offset file)) MAX_READ_BYTES)
       (drop (nat (tf_committed_offset file)) content)"

definition start_context :: "ingest_env \<Rightarrow> transcript_source \<Rightarrow> session \<Rightarrow> ingest_db \<Rightarrow> codex_context option" where
  "start_context env source s db =
     (case source of Codex \<Rightarrow> Some (load_codex_context env s db) | ClaudeCode \<Rightarrow> None)"

definition start_walk :: "codex_context option \<Rightarrow> ingest_db \<Rightarrow> line_walk" where
  "start_walk ctx db = \<lparr>wk_line_start = 0, wk_first_inserted = None, wk_context = ctx, wk_admitted = 0,
     wk_inserted = 0, wk_parse_errors = 0, wk_backlogged = False, wk_panic = None, wk_db = db\<rparr>"

text \<open>The end of a pass: skip a line longer than the buffer, or commit what was walked.\<close>

definition finish_pass ::
  "ingest_env \<Rightarrow> disk \<Rightarrow> transcript_file \<Rightarrow> string \<Rightarrow> nat \<Rightarrow> line_walk \<Rightarrow>
   (file_error + file_result) \<times> ingest_db" where
  "finish_pass env disk file content scanned w =
     (let s = tf_session file; committed = tf_committed_offset file; db = wk_db w;
          next_committed = committed + int (wk_line_start w);
          result = \<lparr>fr_events_inserted = wk_inserted w, fr_parse_errors = wk_parse_errors w,
                    fr_committed_offset = committed, fr_backlogged = wk_backlogged w\<rparr>
      in case wk_panic w of
           Some e \<Rightarrow> (Inl (FilePanic e), db)
         | None \<Rightarrow>
             if next_committed = committed \<and> MAX_READ_BYTES \<le> scanned then
               apfst Inr (skip_oversized_line env file (dk_reads disk) content scanned result db)
             else
               let db = (if next_committed \<noteq> committed
                         then set_offset env s (tf_path file) next_committed db else db)
               in (Inr (result\<lparr>fr_committed_offset := next_committed\<rparr>),
                   rebuild_if_inserted_behind s (wk_first_inserted w) db))"

definition process_file ::
  "ingest_env \<Rightarrow> (nat \<Rightarrow> bool) \<Rightarrow> disk \<Rightarrow> transcript_file \<Rightarrow> transcript_source \<Rightarrow> ingest_db \<Rightarrow>
   (file_error + file_result) \<times> ingest_db" where
  "process_file env spent disk file source db =
     (let s = tf_session file; committed = tf_committed_offset file;
          result = \<lparr>fr_events_inserted = 0, fr_parse_errors = 0, fr_committed_offset = committed,
                    fr_backlogged = False\<rparr>;
          (deferred, db) = defer_if_purged s (prepare_session env file source db)
      in if deferred then (Inr result, db)
         else if tf_file_len file < committed then
           (Inr (result\<lparr>fr_committed_offset := 0\<rparr>), set_offset env s (tf_path file) 0 db)
         else case dk_content disk of
           None \<Rightarrow> (Inl OpenFailed, db)
         | Some content \<Rightarrow>
             (let buf = file_buffer file content
              in finish_pass env disk file content (length buf)
                   (walk_buffer
                     \<lparr>wp_env = env, wp_session = s, wp_source = source, wp_base = committed,
                      wp_subagent = subagent_of env disk file, wp_spent = spent\<rparr> buf []
                     (start_walk (start_context env source s db) db))))"

section \<open>Discovery\<close>

text \<open>\<^verbatim>\<open>file_name\<close>, \<^verbatim>\<open>file_stem\<close> and \<^verbatim>\<open>extension\<close> of a path, and its parents by components.\<close>

definition file_name_of :: "component list \<Rightarrow> string option" where
  "file_name_of cs = (if cs = [] then None else case last cs of Normal n \<Rightarrow> Some n | _ \<Rightarrow> None)"

definition split_name :: "string \<Rightarrow> string \<times> string option" where
  "split_name name =
     (case split_once (rev name) ''.'' of
        Some (after, before) \<Rightarrow>
          if before = [] then (name, None) else (rev before, Some (rev after))
      | None \<Rightarrow> (name, None))"

definition parse_codex_stem :: "ingest_env \<Rightarrow> string \<Rightarrow> session option" where
  "parse_codex_stem env stem =
     (if length stem < 36 then None
      else let raw = drop (length stem - 36) stem
           in if is_cont (hd raw) then None else ie_parse_uuid env raw)"

definition parse_session_uuid :: "ingest_env \<Rightarrow> transcript_source \<Rightarrow> component list \<Rightarrow> session option" where
  "parse_session_uuid env source cs =
     Option.bind (file_name_of cs) (\<lambda>name.
       case source of
         ClaudeCode \<Rightarrow> ie_parse_uuid env (fst (split_name name))
       | Codex \<Rightarrow> parse_codex_stem env (fst (split_name name)))"

definition parse_project_hash :: "transcript_source \<Rightarrow> component list \<Rightarrow> string option" where
  "parse_project_hash source cs =
     (case source of ClaudeCode \<Rightarrow> file_name_of (butlast cs) | Codex \<Rightarrow> None)"

text \<open>\<open>uuid_v5\<close> is the name-based id of a stem below its parent session.\<close>

definition parse_claude_subagent_file ::
  "ingest_env \<Rightarrow> (session \<Rightarrow> string \<Rightarrow> session) \<Rightarrow> transcript_source \<Rightarrow> component list \<Rightarrow>
   (session \<times> session option \<times> string option) option" where
  "parse_claude_subagent_file env uuid_v5 source cs =
     (if source \<noteq> ClaudeCode then None
      else Option.bind (file_name_of cs) (\<lambda>name.
        let stem = fst (split_name name) in
        if \<not> starts_with stem ''agent-'' \<or> file_name_of (butlast cs) \<noteq> Some ''subagents'' then None
        else Option.bind (file_name_of (butlast (butlast cs))) (\<lambda>dir.
             Option.bind (ie_parse_uuid env dir) (\<lambda>parent.
               Some (uuid_v5 parent stem, Some parent,
                     file_name_of (butlast (butlast (butlast cs))))))))"

definition discovered_transcript_file ::
  "ingest_env \<Rightarrow> (session \<Rightarrow> string \<Rightarrow> session) \<Rightarrow> transcript_source \<Rightarrow> string \<times> int \<Rightarrow>
   (session \<Rightarrow> int) \<Rightarrow> transcript_file option" where
  "discovered_transcript_file env uuid_v5 source = (\<lambda>(path, len) committed.
     (let cs = components path in
      map_option (\<lambda>(s, parent, hash).
          \<lparr>tf_path = path, tf_session = s, tf_project_hash = hash,
           tf_committed_offset = committed s, tf_file_len = len, tf_subagent_parent = parent\<rparr>)
        (case parse_session_uuid env source cs of
           Some s \<Rightarrow> Some (s, None, parse_project_hash source cs)
         | None \<Rightarrow> parse_claude_subagent_file env uuid_v5 source cs)))"

definition committed_offset :: "ingest_db \<Rightarrow> session \<Rightarrow> int" where
  "committed_offset db s = (case map_of (ig_states db) s of Some st \<Rightarrow> is_offset st | None \<Rightarrow> 0)"

text \<open>The files the walk found, in its order, with their lengths.\<close>

definition dirty_transcript_files ::
  "ingest_env \<Rightarrow> (session \<Rightarrow> string \<Rightarrow> session) \<Rightarrow> transcript_source \<Rightarrow> (string \<times> int) list \<Rightarrow>
   ingest_db \<Rightarrow> transcript_file list" where
  "dirty_transcript_files env uuid_v5 source found db =
     filter (\<lambda>f. tf_file_len f \<noteq> tf_committed_offset f)
       (List.map_filter (\<lambda>pl. discovered_transcript_file env uuid_v5 source pl (committed_offset db))
         (filter (\<lambda>(path, _). Option.bind (file_name_of (components path)) (\<lambda>n. snd (split_name n))
                    = Some ''jsonl'') found))"

section \<open>Replay\<close>

record replay_line =
  rl_byte_offset :: int
  rl_timestamp :: time
  rl_related_tool_use_id :: "string option"
  rl_payload :: string

record replay_stats =
  rs_events_inserted :: nat
  rs_parse_errors :: nat

fun replay_lines ::
  "ingest_env \<Rightarrow> session \<Rightarrow> transcript_source \<Rightarrow> replay_line list \<Rightarrow> codex_context option \<Rightarrow>
   replay_stats \<Rightarrow> ingest_db \<Rightarrow> (insert_error + replay_stats) \<times> ingest_db" where
  "replay_lines env s source [] ctx stats db = (Inr stats, db)"
| "replay_lines env s source (l # ls) ctx stats db =
     (let (outcome, ctx, db) = insert_line env s source (rl_byte_offset l) (rl_payload l) ctx
            (rl_related_tool_use_id l) (Some (rl_timestamp l)) db
      in case outcome of
           Inr True \<Rightarrow> replay_lines env s source ls ctx
             (stats\<lparr>rs_events_inserted := rs_events_inserted stats + 1\<rparr>) db
         | Inr False \<Rightarrow> replay_lines env s source ls ctx stats db
         | Inl ParseFailed \<Rightarrow> replay_lines env s source ls ctx
             (stats\<lparr>rs_parse_errors := rs_parse_errors stats + 1\<rparr>) db
         | Inl e \<Rightarrow> (Inl e, db))"

definition replay_source :: "string \<Rightarrow> transcript_source" where
  "replay_source agent = (if agent = ''codex'' then Codex else ClaudeCode)"

end
