(* ===== verification/Ingest_Tick.thy ===== *)
theory Ingest_Tick
  imports Ingest_Files
begin

text \<open>
  The ingester as a whole (\<^verbatim>\<open>ingest/ingester.rs\<close>): the queue of sessions to project, one batch for
  a session, the recovery of owed projections, and a tick over the transcript roots. Stored events
  are read back as \<^verbatim>\<open>timeline/load.rs\<close> reads them; the classification of a tool call by the rule
  table and the plan commands is the parameter \<open>ie_classify\<close>.
\<close>

section \<open>Reading stored events\<close>

definition block_kind_of_str :: "string \<Rightarrow> block_kind" where
  "block_kind_of_str k =
     (if k = ''text'' then BText else if k = ''thinking'' then BThinking
      else if k = ''tool_use'' then BToolUse else if k = ''tool_result'' then BToolResult
      else BUnknown)"

definition load_event_blocks :: "ingest_env \<Rightarrow> session \<Rightarrow> ingest_db \<Rightarrow> int \<Rightarrow> block list" where
  "load_event_blocks env s db byte_offset =
     map (\<lambda>(_, b). ie_classify env
        (b\<lparr>bk_kind := block_kind_of_str (block_kind_as_str (bk_kind b)), bk_raw := None\<rparr>))
       (filter (\<lambda>((o', _), _). o' = byte_offset) (ig_blocks db s))"

definition stored_event_of :: "ingest_env \<Rightarrow> session \<Rightarrow> ingest_db \<Rightarrow> int \<times> event_row \<Rightarrow> stored_event" where
  "stored_event_of env s db = (\<lambda>(byte_offset, r).
     \<lparr>se_byte_offset = byte_offset, se_timestamp = ev_timestamp r, se_kind = ev_kind r,
      se_agent = ev_agent r, se_speaker = Some (ev_speaker r),
      se_content_kind = Some (ev_content_kind r), se_event_uuid = ev_event_uuid r,
      se_parent_event_uuid = ev_parent_event_uuid r,
      se_related_tool_use_id = ev_related_tool_use_id r, se_is_sidechain = ev_is_sidechain r,
      se_is_meta = ev_is_meta r, se_subtype = ev_subtype r,
      se_usage_json =
        (if ev_agent r = ''codex'' then jpath (ev_payload r) [''payload'', ''info'', ''total_token_usage'']
         else jpath (ev_payload r) [''message'', ''usage'']),
      se_usage_message_id =
        (case jpath (ev_payload r) [''message'', ''id''] of
           None \<Rightarrow> None
         | Some JNull \<Rightarrow> None
         | Some (JStr i) \<Rightarrow> Some i
         | Some v \<Rightarrow> Some (ie_jsonb_text env v)),
      se_blocks = load_event_blocks env s db byte_offset\<rparr>)"

definition stored_events :: "ingest_env \<Rightarrow> session \<Rightarrow> ingest_db \<Rightarrow> stored_event list" where
  "stored_events env s db = map (stored_event_of env s db) (ig_events db s)"

section \<open>The queue\<close>

record projection_queue =
  pq_order :: "session list"
  pq_queued :: "session set"

definition empty_queue :: projection_queue where
  "empty_queue = \<lparr>pq_order = [], pq_queued = {}\<rparr>"

definition queue_push :: "session \<Rightarrow> projection_queue \<Rightarrow> projection_queue" where
  "queue_push s q =
     (if s \<in> pq_queued q then q
      else \<lparr>pq_order = pq_order q @ [s], pq_queued = insert s (pq_queued q)\<rparr>)"

definition queue_pop :: "projection_queue \<Rightarrow> (session \<times> projection_queue) option" where
  "queue_pop q =
     (case pq_order q of
        [] \<Rightarrow> None
      | s # rest \<Rightarrow> Some (s, \<lparr>pq_order = rest, pq_queued = pq_queued q - {s}\<rparr>))"

section \<open>Projecting\<close>

text \<open>The state row a session gets on its first batch: of no reducer version yet.\<close>

definition new_state_row :: projection where
  "new_state_row = \<lparr>pj_tables = empty_tables, pj_state = default_state, pj_version = 0, pj_revision = 0\<rparr>"

definition projection_of :: "session \<Rightarrow> ingest_db \<Rightarrow> projection" where
  "projection_of s db = (case ig_timeline db s of Some pj \<Rightarrow> pj | None \<Rightarrow> new_state_row)"

definition batch_env_for :: "(session \<Rightarrow> batch_env) \<Rightarrow> session \<Rightarrow> ingest_db \<Rightarrow> batch_env" where
  "batch_env_for benv s db = (benv s)\<lparr>bt_session := s, bt_purged := session_is_purged s db\<rparr>"

definition project_one_batch ::
  "ingest_env \<Rightarrow> (session \<Rightarrow> batch_env) \<Rightarrow> session \<Rightarrow> projection_queue \<times> ingest_db \<Rightarrow>
   projection_queue \<times> ingest_db" where
  "project_one_batch env benv s = (\<lambda>(q, db).
     (case project_batch (batch_env_for benv s db) (stored_events env s db) BATCH_EVENTS
         (projection_of s db) of
        Inl _ \<Rightarrow> (q, db)
      | Inr (pj, _, waiting) \<Rightarrow>
          (if waiting then queue_push s q else q,
           if session_is_purged s db then db
           else db\<lparr>ig_timeline := (ig_timeline db)(s \<mapsto> pj)\<rparr>)))"

definition owed_projection :: "ingest_db \<Rightarrow> session \<Rightarrow> bool" where
  "owed_projection db s \<longleftrightarrow>
     ig_sessions db s \<noteq> None \<and> \<not> session_is_purged s db
     \<and> (case ig_timeline db s of
          None \<Rightarrow> \<exists>e \<in> set (ig_events db s). -1 < fst e
        | Some pj \<Rightarrow> pj_version pj = REDUCER_VERSION
            \<and> (\<exists>e \<in> set (ig_events db s). ss_projected_through (pj_state pj) < fst e))"

definition recover_projections :: "ingest_db \<Rightarrow> projection_queue \<Rightarrow> projection_queue" where
  "recover_projections db q =
     fold queue_push (map fst (sort_key (\<lambda>(_, st). - is_updated_at st)
       (filter (\<lambda>(s, _). owed_projection db s) (ig_states db)))) q"

section \<open>A tick\<close>

record tick_state =
  tk_db :: ingest_db
  tk_queue :: projection_queue
  tk_recovered :: bool
  tk_inserted :: nat
  tk_parse_errors :: nat
  tk_backlogged :: bool
  tk_inserted_total :: nat
  tk_parse_errors_total :: nat
  tk_panic :: "panic option"

text \<open>A transcript root: whether it exists, the files found below it, and what reading them sees.\<close>

record transcript_root =
  rt_exists :: bool
  rt_found :: "(string \<times> int) list"
  rt_disk :: "string \<Rightarrow> disk"
  rt_spent :: "string \<Rightarrow> nat \<Rightarrow> bool"

definition tick_file ::
  "ingest_env \<Rightarrow> transcript_root \<Rightarrow> transcript_source \<Rightarrow> transcript_file \<Rightarrow> tick_state \<Rightarrow> tick_state" where
  "tick_file env root source file t =
     (if tk_panic t \<noteq> None then t
      else
        let (outcome, db) = process_file env (rt_spent root (tf_path file)) (rt_disk root (tf_path file))
              file source (tk_db t);
            t = t\<lparr>tk_db := db\<rparr>
        in case outcome of
             Inl OpenFailed \<Rightarrow> t
           | Inl (FilePanic e) \<Rightarrow> t\<lparr>tk_panic := Some e\<rparr>
           | Inr r \<Rightarrow> t\<lparr>
               tk_inserted := tk_inserted t + fr_events_inserted r,
               tk_parse_errors := tk_parse_errors t + fr_parse_errors r,
               tk_backlogged := (tk_backlogged t \<or> fr_backlogged r),
               tk_inserted_total := tk_inserted_total t + fr_events_inserted r,
               tk_parse_errors_total := tk_parse_errors_total t + fr_parse_errors r,
               tk_queue := (if fr_events_inserted r > 0 then queue_push (tf_session file) (tk_queue t)
                            else tk_queue t)\<rparr>)"

definition tick_root ::
  "ingest_env \<Rightarrow> (session \<Rightarrow> string \<Rightarrow> session) \<Rightarrow> transcript_root \<Rightarrow> transcript_source \<Rightarrow> tick_state \<Rightarrow>
   tick_state" where
  "tick_root env uuid_v5 root source t =
     (if \<not> rt_exists root then t
      else fold (tick_file env root source)
        (sort_key (\<lambda>f. tf_file_len f - tf_committed_offset f)
          (dirty_transcript_files env uuid_v5 source (rt_found root) (tk_db t))) t)"

definition ingest_pass ::
  "ingest_env \<Rightarrow> (session \<Rightarrow> string \<Rightarrow> session) \<Rightarrow> transcript_root \<Rightarrow> transcript_root option \<Rightarrow>
   tick_state \<Rightarrow> tick_state" where
  "ingest_pass env uuid_v5 claude codex t =
     (let t = t\<lparr>tk_inserted := 0, tk_parse_errors := 0, tk_backlogged := False\<rparr>;
          t = tick_root env uuid_v5 claude ClaudeCode t
      in case codex of None \<Rightarrow> t | Some root \<Rightarrow> tick_root env uuid_v5 root Codex t)"

text \<open>Projecting until the queue is empty.\<close>

partial_function (option) drain_queue ::
  "ingest_env \<Rightarrow> (session \<Rightarrow> batch_env) \<Rightarrow> projection_queue \<times> ingest_db \<Rightarrow> ingest_db option" where
  "drain_queue env benv st =
     (case queue_pop (fst st) of
        None \<Rightarrow> Some (snd st)
      | Some (s, q) \<Rightarrow> drain_queue env benv (project_one_batch env benv s (q, snd st)))"

declare drain_queue.simps [code]

definition tick ::
  "ingest_env \<Rightarrow> (session \<Rightarrow> batch_env) \<Rightarrow> (session \<Rightarrow> string \<Rightarrow> session) \<Rightarrow> transcript_root \<Rightarrow>
   transcript_root option \<Rightarrow> tick_state \<Rightarrow> tick_state option" where
  "tick env benv uuid_v5 claude codex t =
     (let t = ingest_pass env uuid_v5 claude codex t in
      if tk_panic t \<noteq> None then Some t
      else
        let q = (if tk_recovered t then tk_queue t else recover_projections (tk_db t) (tk_queue t))
        in map_option (\<lambda>db. t\<lparr>tk_db := db, tk_queue := empty_queue, tk_recovered := True\<rparr>)
             (drain_queue env benv (q, tk_db t)))"

text \<open>Replaying archived lines, then rebuilding the session from its events.\<close>

definition replay_session_lines ::
  "ingest_env \<Rightarrow> (session \<Rightarrow> batch_env) \<Rightarrow> session \<Rightarrow> string \<Rightarrow> replay_line list \<Rightarrow> ingest_db \<Rightarrow>
   ((insert_error + write_error + replay_stats) \<times> ingest_db) option" where
  "replay_session_lines env benv s agent ls db =
     (let source = replay_source agent;
          ctx = (case source of Codex \<Rightarrow> Some (load_codex_context env s db) | ClaudeCode \<Rightarrow> None)
      in case replay_lines env s source ls ctx \<lparr>rs_events_inserted = 0, rs_parse_errors = 0\<rparr> db of
           (Inl e, db) \<Rightarrow> Some (Inl e, db)
         | (Inr stats, db) \<Rightarrow>
             if session_is_purged s db then Some (Inr (Inr stats), db)
             else
               let db = db\<lparr>ig_timeline := (ig_timeline db)(s := map_option request_rebuild (ig_timeline db s))\<rparr>
               in case project_until_caught_up (batch_env_for benv s db) (stored_events env s db) 0
                      (projection_of s db) of
                    None \<Rightarrow> None
                  | Some (Inl e) \<Rightarrow> Some (Inr (Inl e), db)
                  | Some (Inr (pj, _)) \<Rightarrow>
                      Some (Inr (Inr stats), db\<lparr>ig_timeline := (ig_timeline db)(s \<mapsto> pj)\<rparr>))"

end
