(* ===== verification/Ingest_Lines.thy ===== *)
theory Ingest_Lines
  imports Ingest_Tick Canonical_Safe
begin

text \<open>
  The complete lines of a transcript and their offsets, and what the walk over a buffer does to the
  tables. The specification of a transcript is \<open>line_rows\<close>: one row for every complete line that
  is short enough, not blank and valid, at the offset the line starts at.
\<close>

section \<open>Lines and boundaries\<close>

fun complete_lines :: "string \<Rightarrow> string list" where
  "complete_lines [] = []"
| "complete_lines (b # s) =
     (if b = newline then [] # complete_lines s
      else if newline \<in> set s then (b # hd (complete_lines s)) # tl (complete_lines s)
      else [])"

definition boundary :: "string \<Rightarrow> nat \<Rightarrow> bool" where
  "boundary content k \<longleftrightarrow> k = 0 \<or> (k \<le> length content \<and> content ! (k - 1) = newline)"

abbreviation span :: "string list \<Rightarrow> nat" where
  "span ls \<equiv> sum_list (map (\<lambda>l. Suc (length l)) ls)"

lemma complete_lines_Nil_iff: "complete_lines s = [] \<longleftrightarrow> newline \<notin> set s"
  by (induction s) auto

lemma complete_lines_line [simp]:
  "newline \<notin> set l \<Longrightarrow> complete_lines (l @ newline # s) = l # complete_lines s"
  by (induction l) auto

lemma complete_lines_none [simp]: "newline \<notin> set s \<Longrightarrow> complete_lines s = []"
  by (simp add: complete_lines_Nil_iff)

lemma newline_cases:
  obtains (none) "newline \<notin> set s" | (line) l t where "newline \<notin> set l" "s = l @ newline # t"
  by (metis split_list_first)

lemma lines_induct [case_names none line]:
  assumes "\<And>s. newline \<notin> set s \<Longrightarrow> P s" "\<And>l s. newline \<notin> set l \<Longrightarrow> P s \<Longrightarrow> P (l @ newline # s)"
  shows "P s"
proof (induction "length s" arbitrary: s rule: less_induct)
  case less
  then show ?case
    by (cases rule: newline_cases [of s]) (use assms in auto)
qed

definition joined :: "string list \<Rightarrow> string" where
  "joined ls = concat (map (\<lambda>l. l @ [newline]) ls)"

lemma joined_simps [simp]:
  "joined [] = []" "joined (l # ls) = l @ newline # joined ls" "joined (xs @ ys) = joined xs @ joined ys"
  by (simp_all add: joined_def)

lemma length_joined [simp]: "length (joined ls) = span ls"
  by (induction ls) auto

lemma drop_joined: "drop (span ls) (joined ls @ u) = u"
  by (induction ls) auto

text \<open>A text is its complete lines and a tail without a line feed, in one way only.\<close>

lemma complete_lines_split:
  obtains t where "s = joined (complete_lines s) @ t" "newline \<notin> set t"
proof (induction s arbitrary: thesis rule: lines_induct)
  case (line l s)
  then show ?case by (metis append.assoc append_Cons complete_lines_line joined_simps(2))
qed simp

lemma complete_lines_no_newline: "l \<in> set (complete_lines s) \<Longrightarrow> newline \<notin> set l"
  by (induction s rule: lines_induct) auto

lemma complete_lines_joined:
  "\<forall>l \<in> set ls. newline \<notin> set l \<Longrightarrow> complete_lines (joined ls @ t) = ls @ complete_lines t"
  by (induction ls) auto

lemma split_at_line:
  obtains u where "s = joined (take n (complete_lines s)) @ u"
    "complete_lines u = drop n (complete_lines s)"
proof -
  define ls where "ls = complete_lines s"
  obtain t where s: "s = joined ls @ t" "newline \<notin> set t" unfolding ls_def by (rule complete_lines_split)
  have "joined ls = joined (take n ls) @ joined (drop n ls)" by (metis append_take_drop_id joined_simps(3))
  with s(1) have "s = joined (take n ls) @ (joined (drop n ls) @ t)" by simp
  moreover have "\<forall>l \<in> set (drop n ls). newline \<notin> set l"
    using complete_lines_no_newline by (metis in_set_dropD ls_def)
  then have "complete_lines (joined (drop n ls) @ t) = drop n ls"
    using s(2) by (simp add: complete_lines_joined)
  ultimately show thesis by (rule that [folded ls_def])
qed

lemma drop_lines:
  "complete_lines (drop (span (take n (complete_lines s))) s) = drop n (complete_lines s)"
proof -
  obtain u where u: "s = joined (take n (complete_lines s)) @ u" "complete_lines u = drop n (complete_lines s)"
    by (rule split_at_line)
  have "drop (span (take n (complete_lines s))) s = u" by (subst (2) u(1)) (rule drop_joined)
  with u(2) show ?thesis by simp
qed

lemma complete_lines_append: "\<exists>more. complete_lines (s @ t) = complete_lines s @ more"
proof -
  obtain u where "s = joined (complete_lines s) @ u" "newline \<notin> set u" by (rule complete_lines_split)
  then have "complete_lines (s @ t) = complete_lines s @ complete_lines (u @ t)"
    using complete_lines_joined [of "complete_lines s" "u @ t"] complete_lines_no_newline
    by (metis append.assoc)
  then show ?thesis by blast
qed

lemma complete_lines_take: "complete_lines (take k s) = take (length (complete_lines (take k s))) (complete_lines s)"
  using complete_lines_append [of "take k s" "drop k s"] by auto

lemma span_complete: "span (complete_lines s) \<le> length s"
  by (metis complete_lines_split le_add1 length_append length_joined)

lemma span_take_mono: "m \<le> n \<Longrightarrow> span (take m ls) \<le> span (take n ls)"
proof -
  assume "m \<le> n"
  then have "take n ls = take m ls @ take (n - m) (drop m ls)" by (metis le_add_diff_inverse take_add)
  then show ?thesis by simp
qed

lemma boundary_span: "boundary s (span (take n (complete_lines s)))"
proof (cases "take n (complete_lines s)" rule: rev_cases)
  case (snoc xs l)
  obtain u where "s = joined (take n (complete_lines s)) @ u" by (rule split_at_line)
  then obtain ls where s: "s = joined ls @ u" "ls = xs @ [l]" "take n (complete_lines s) = ls"
    using snoc by simp
  have "(joined ls @ u) ! (span ls - 1) = newline" "span ls \<le> length (joined ls @ u)"
    by (simp_all add: s(2) nth_append)
  then show ?thesis by (simp add: boundary_def s(3)) (simp add: s(1))
qed (simp add: boundary_def)

section \<open>Rows of lines\<close>

fun line_rows :: "(string \<Rightarrow> 'r option) \<Rightarrow> int \<Rightarrow> string list \<Rightarrow> (int \<times> 'r) list" where
  "line_rows f k [] = []"
| "line_rows f k (l # ls) =
     (case f l of Some r \<Rightarrow> [(k, r)] | None \<Rightarrow> []) @ line_rows f (k + int (Suc (length l))) ls"

lemma line_rows_append [simp]:
  "line_rows f k (xs @ ys) = line_rows f k xs @ line_rows f (k + int (span xs)) ys"
  by (induction xs arbitrary: k) (auto simp: algebra_simps)

lemma line_rows_bounds: "(o', r) \<in> set (line_rows f k ls) \<Longrightarrow> k \<le> o' \<and> o' < k + int (span ls)"
  by (induction ls arbitrary: k) (force split: option.splits)+

lemma line_rows_mem:
  "n < length ls \<Longrightarrow> f (ls ! n) = Some r \<Longrightarrow> (k + int (span (take n ls)), r) \<in> set (line_rows f k ls)"
proof (induction ls arbitrary: k n)
  case (Cons l ls)
  show ?case
  proof (cases n)
    case (Suc m)
    then have "(k + int (Suc (length l)) + int (span (take m ls)), r) \<in> set (line_rows f (k + int (Suc (length l))) ls)"
      using Cons by simp
    then show ?thesis by (simp add: Suc algebra_simps)
  qed (use Cons in simp)
qed simp

section \<open>Finding the end of a long line\<close>

text \<open>However the reads come in, the boundary found is the one after the first line feed.\<close>

lemma next_line_boundary_eq:
  "next_line_boundary reads content position =
     (let rest = drop position content in
      if newline \<in> set rest then Some (position + length (takeWhile (\<lambda>b. b \<noteq> newline) rest) + 1)
      else None)"
proof (induction reads content position rule: next_line_boundary.induct)
  case (1 reads content position)
  let ?k = "max 1 (min CHUNK (reads position))"
  define chunk where "chunk = read_chunk reads content position"
  have "drop position content = chunk @ drop (length chunk) (drop position content)"
    unfolding chunk_def read_chunk_def by (metis append_eq_conv_conj append_take_drop_id)
  then have rest: "drop position content = chunk @ drop (position + length chunk) content"
    by (simp add: add.commute)
  have empty: "chunk = [] \<longleftrightarrow> drop position content = []"
    by (auto simp: chunk_def read_chunk_def max_def split: if_splits)
  consider "chunk = []" | "chunk \<noteq> []" "newline \<in> set chunk" | "chunk \<noteq> []" "newline \<notin> set chunk" by blast
  then show ?case
  proof cases
    case 1
    then have "drop position content = []" using empty by simp
    then show ?thesis using 1 by (subst next_line_boundary.simps) (simp add: Let_def flip: chunk_def)
  next
    case 2
    then have "takeWhile (\<lambda>b. b \<noteq> newline) (drop position content) = takeWhile (\<lambda>b. b \<noteq> newline) chunk"
      "newline \<in> set (drop position content)"
      by (simp_all add: rest takeWhile_append1)
    then show ?thesis using 2 by (subst next_line_boundary.simps) (simp add: Let_def flip: chunk_def)
  next
    case 3
    then have "takeWhile (\<lambda>b. b \<noteq> newline) (chunk @ r) = chunk @ takeWhile (\<lambda>b. b \<noteq> newline) r" for r
      by (intro takeWhile_append2) auto
    with 3 have "takeWhile (\<lambda>b. b \<noteq> newline) (drop position content)
        = chunk @ takeWhile (\<lambda>b. b \<noteq> newline) (drop (position + length chunk) content)"
      "newline \<in> set (drop position content) \<longleftrightarrow> newline \<in> set (drop (position + length chunk) content)"
      unfolding rest by auto
    then show ?thesis
      using 3 "1.IH" [OF chunk_def] by (subst next_line_boundary.simps) (simp add: Let_def flip: chunk_def)
  qed
qed

section \<open>The walk\<close>

lemma walk_skip:
  "newline \<notin> set l \<Longrightarrow> walk_buffer p (l @ buf) acc w = walk_buffer p buf (acc @ l) w"
  by (induction l arbitrary: acc) auto

lemma admit_line_simps [simp]:
  "wk_line_start (admit_line p l w) = wk_line_start w + length l + 1"
  "wk_admitted (admit_line p l w) = wk_admitted w + 1"
  "wk_backlogged (admit_line p l w) = wk_backlogged w"
  by (simp_all add: admit_line_def Let_def split: prod.split sum.split bool.split insert_error.split)

lemma walk_buffer_lines:
  assumes "wk_panic w = None" "\<not> wk_backlogged w"
    and "\<And>l w. wk_panic w = None \<Longrightarrow> wk_panic (admit_line p l w) = None"
  shows "\<exists>n. n \<le> length (complete_lines buf)
    \<and> walk_buffer p buf [] w = (fold (admit_line p) (take n (complete_lines buf)) w)
        \<lparr>wk_backlogged := (n < length (complete_lines buf))\<rparr>
    \<and> (n = 0 \<longrightarrow> complete_lines buf = [] \<or> 0 < wk_admitted w)"
  using assms(1,2)
proof (induction buf arbitrary: w rule: lines_induct)
  case (none s)
  then show ?case using walk_skip [of s p "[]" "[]" w] by simp
next
  case (line l s)
  show ?case
  proof (cases "admission_closed (wp_spent p) (wk_admitted w)")
    case True
    then have "0 < wk_admitted w" by (auto simp: admission_closed_def ADMIT_LINES_PER_TICK_def)
    then show ?thesis using line True by (intro exI [of _ 0]) (simp add: walk_skip)
  next
    case False
    let ?w = "admit_line p l w"
    have "wk_panic ?w = None" "\<not> wk_backlogged ?w" using assms(3) line by simp_all
    from line.IH [OF this] obtain n where n: "n \<le> length (complete_lines s)"
        "walk_buffer p s [] ?w = (fold (admit_line p) (take n (complete_lines s)) ?w)
           \<lparr>wk_backlogged := (n < length (complete_lines s))\<rparr>" by blast
    then show ?thesis
      using line False \<open>wk_panic ?w = None\<close> by (intro exI [of _ "Suc n"]) (simp add: walk_skip Let_def)
  qed
qed

end
