(* ===== verification/Ingest_Run.thy ===== *)
theory Ingest_Run
  imports Ingest_Lines
begin

text \<open>
  A Claude transcript and the passes over it. The file is appended to, passes of the ingester come
  at any time, a process may die in the middle of a pass, and other work on the database goes on.
  Through all of it the stored events of the session are those of the first complete lines, and the
  committed offset is a line boundary not past them.
\<close>

section \<open>What an insertion leaves alone\<close>

lemma follow_frame [simp]:
  "ig_events (follow f db) = ig_events db" "ig_states (follow f db) = ig_states db"
  "ig_timeline (follow f db) = ig_timeline db" "ig_blocks (follow f db) = ig_blocks db"
  "ig_sessions (follow f db) = ig_sessions db"
  by (simp_all add: follow_def)

lemma enqueue_frame [simp]:
  "ig_events (enqueue_event_embedding_source env s k spk b db) = ig_events db"
  "ig_states (enqueue_event_embedding_source env s k spk b db) = ig_states db"
  "ig_timeline (enqueue_event_embedding_source env s k spk b db) = ig_timeline db"
  "ig_blocks (enqueue_event_embedding_source env s k spk b db) = ig_blocks db"
  "ig_sessions (enqueue_event_embedding_source env s k spk b db) = ig_sessions db"
  by (simp_all add: enqueue_event_embedding_source_def mark_embedding_source_deleted_def Let_def
      split: option.split)

lemma insert_blocks_frame [simp]:
  "ig_events (insert_blocks env s k spk bs db) = ig_events db"
  "ig_states (insert_blocks env s k spk bs db) = ig_states db"
  "ig_timeline (insert_blocks env s k spk bs db) = ig_timeline db"
  "ig_sessions (insert_blocks env s k spk bs db) = ig_sessions db"
  unfolding insert_blocks_def by (induction bs arbitrary: db) (simp_all add: insert_block_def)

lemma derivatives_frame [simp]:
  "ig_events (insert_event_derivatives env s src k t v e db) = ig_events db"
  "ig_states (insert_event_derivatives env s src k t v e db) = ig_states db"
  "ig_timeline (insert_event_derivatives env s src k t v e db) = ig_timeline db"
  "ig_sessions (insert_event_derivatives env s src k t v e db) = ig_sessions db"
  by (simp_all add: insert_event_derivatives_def)

lemma project_after_frame [simp]:
  "ig_events (project_after_insert s src v k t db) = ig_events db"
  "ig_states (project_after_insert s src v k t db) = ig_states db"
  "ig_timeline (project_after_insert s src v k t db) = ig_timeline db"
  "ig_blocks (project_after_insert s src v k t db) = ig_blocks db"
  "ig_sessions (project_after_insert s src v k t db) = ig_sessions db"
  by (simp_all add: project_after_insert_def)

lemma set_parent_frame [simp]:
  "ig_events (set_parent_session s q db) = ig_events db"
  "ig_states (set_parent_session s q db) = ig_states db"
  "ig_timeline (set_parent_session s q db) = ig_timeline db"
  "ig_blocks (set_parent_session s q db) = ig_blocks db"
  "session_is_purged t (set_parent_session s q db) = session_is_purged t db"
  by (simp_all add: set_parent_session_def session_is_purged_def split: option.split)

lemma link_parent_frame [simp]:
  "ig_events (link_parent_session env src v s db) = ig_events db"
  "ig_states (link_parent_session env src v s db) = ig_states db"
  "ig_timeline (link_parent_session env src v s db) = ig_timeline db"
  "ig_blocks (link_parent_session env src v s db) = ig_blocks db"
  "session_is_purged t (link_parent_session env src v s db) = session_is_purged t db"
  by (simp_all add: link_parent_session_def split: option.split)

lemma insert_row_frame [simp]:
  "ig_events (insert_row env s src k r e db) = (ig_events db)(s := btm_insert k r (ig_events db s))"
  "ig_states (insert_row env s src k r e db) = ig_states db"
  "ig_timeline (insert_row env s src k r e db) = ig_timeline db"
  "ig_sessions (insert_row env s src k r e db) = ig_sessions db"
  by (simp_all add: insert_row_def)

section \<open>Inserting a line of a Claude transcript\<close>

definition timeless :: "event_row \<Rightarrow> event_row" where
  "timeless r = r\<lparr>ev_timestamp := 0\<rparr>"

text \<open>The row a line is stored as, apart from the time it arrived.\<close>

definition claude_row :: "ingest_env \<Rightarrow> string option \<Rightarrow> string \<Rightarrow> event_row option" where
  "claude_row env sub line =
     (if MAX_READ_BYTES \<le> length line \<or> list_all ascii_whitespace line then None
      else Option.bind (from_str (ie_lib env) line) (\<lambda>v.
        case claude_parse (ie_lib env) v of
          Inl _ \<Rightarrow> None
        | Inr parsed \<Rightarrow> Some (timeless (event_row_of env ClaudeCode v None (link_subagent sub parsed)))))"

lemma claude_row_cong: "ie_lib env' = ie_lib env \<Longrightarrow> claude_row env' = claude_row env"
  by (simp add: claude_row_def fun_eq_iff event_row_of_def timeless_def cong: sum.case_cong)

abbreviation rows :: "session \<Rightarrow> ingest_db \<Rightarrow> (int, event_row) btree_map" where
  "rows s db \<equiv> column timeless (ig_events db s)"

lemma insert_line_claude:
  assumes "lib_ok (ie_lib env)" "ie_db_ok env s k" "length line < MAX_READ_BYTES"
  obtains out db' where "insert_line env s ClaudeCode k line None sub fb db = (out, None, db')"
    "\<forall>e. out \<noteq> Inl (Panicked e)"
    "rows s db' = (case claude_row env sub line of
        Some r \<Rightarrow> if map_of (rows s db) k = None then btm_insert k r (rows s db) else rows s db
      | None \<Rightarrow> rows s db)"
    "ig_states db' = ig_states db" "ig_timeline db' = ig_timeline db"
    "\<forall>t. session_is_purged t db' = session_is_purged t db"
    "\<forall>t. t \<noteq> s \<longrightarrow> ig_events db' t = ig_events db t"
proof -
  obtain out ctx db' where r: "insert_line env s ClaudeCode k line None sub fb db = (out, ctx, db')"
    by (metis prod_cases3)
  have parse: "\<exists>e. claude_parse (ie_lib env) v = Inr e" for v
    using claude_parse_runs [OF assms(1), of v] by (auto simp: runs_iff)
  have row: "timeless (event_row_of env ClaudeCode v fb e) = timeless (event_row_of env ClaudeCode v None e)" for v e
    by (simp add: event_row_of_def timeless_def)
  have purged: "session_is_purged t (insert_row env s src k' r' e d) = session_is_purged t d"
      "session_is_purged t (project_after_insert s src v k' t' d) = session_is_purged t d" for t src k' r' e d v t'
    by (simp_all add: session_is_purged_def)
  show thesis
  proof (cases "list_all ascii_whitespace line \<or> from_str (ie_lib env) line = None")
    case True
    show thesis
      by (rule that [of out db'])
        (use True r in \<open>auto simp: insert_line_def claude_row_def split: if_splits\<close>)
  next
    case False
    then obtain v e where v: "from_str (ie_lib env) line = Some v" "claude_parse (ie_lib env) v = Inr e"
      using parse by blast
    show thesis
      by (rule that [of out db'])
        (use False r v assms(2,3) in \<open>auto simp: insert_line_def parse_canonical_event_def Let_def claude_row_def
          map_of_column column_btm_insert row purged split: if_splits\<close>)
  qed
qed

section \<open>Admitting lines\<close>

definition quiet :: "walk_params \<Rightarrow> bool" where
  "quiet p \<longleftrightarrow> wp_source p = ClaudeCode \<and> lib_ok (ie_lib (wp_env p))
     \<and> (\<forall>k. ie_db_ok (wp_env p) (wp_session p) k)"

lemma admit_line_no_panic:
  assumes "quiet p"
  shows "wk_panic (admit_line p l w) = wk_panic w"
proof -
  have "\<exists>e. claude_parse (ie_lib (wp_env p)) v = Inr e" for v
    using claude_parse_runs [of "ie_lib (wp_env p)" v] assms by (auto simp: runs_iff quiet_def)
  then have "fst (insert_line (wp_env p) (wp_session p) (wp_source p) k l ctx sub fb db) \<noteq> Inl (Panicked e)"
    for k ctx sub fb db e
    using assms
    by (auto simp: insert_line_def parse_canonical_event_def quiet_def Let_def split: option.split sum.split)
      (metis Inl_Inr_False)
  then show ?thesis
    by (auto simp: admit_line_def Let_def split: prod.split sum.split bool.split insert_error.split)
      (metis fst_conv)
qed

lemma insert_next:
  fixes f :: "string \<Rightarrow> 'r option"
  assumes "m = line_rows f 0 (take j ls)" "n \<le> j" "j \<le> length ls" "n < length ls"
    "k = int (span (take n ls))"
  shows "(case f (ls ! n) of
      Some r \<Rightarrow> if map_of m k = None then btm_insert k r m else m
    | None \<Rightarrow> m) = line_rows f 0 (take (max j (Suc n)) ls)"
proof (cases "n < j")
  case True
  then have "map_of m k \<noteq> None" if "f (ls ! n) = Some r" for r
    using line_rows_mem [of n "take j ls" f r 0] that assms
    by (auto simp: map_of_eq_None_iff min_absorb1 intro: rev_image_eqI)
  then show ?thesis using True assms(1) by (auto simp: max_absorb1 Suc_leI split: option.split)
next
  case False
  then have n: "n = j" using assms(2) by simp
  have "\<forall>k' \<in> fst ` set m. k' < k"
    using assms(1,5) n line_rows_bounds [of _ _ f 0 "take j ls"] by force
  then have "map_of m k = None" "btm_insert k r m = m @ [(k, r)]" for r
    by (auto simp: map_of_eq_None_iff btm_insert_last)
  moreover have "take (max j (Suc n)) ls = take n ls @ [ls ! n]"
    using n assms(4) by (simp add: max_absorb2 take_Suc_conv_app_nth)
  ultimately show ?thesis using assms(1,5) n by (simp split: option.split)
qed

lemma admit_lines:
  assumes "quiet p" "wk_context w = None" "\<forall>l \<in> set (take k (drop n ls)). length l < MAX_READ_BYTES"
    "wp_base p + int (wk_line_start w) = int (span (take n ls))"
    "rows (wp_session p) (wk_db w) = line_rows (claude_row (wp_env p) (wp_subagent p)) 0 (take j ls)"
    "n \<le> j" "j \<le> length ls" "n + k \<le> length ls"
  shows "let w' = fold (admit_line p) (take k (drop n ls)) w in
    wp_base p + int (wk_line_start w') = int (span (take (n + k) ls))
    \<and> rows (wp_session p) (wk_db w') = line_rows (claude_row (wp_env p) (wp_subagent p)) 0 (take (max j (n + k)) ls)
    \<and> ig_states (wk_db w') = ig_states (wk_db w) \<and> ig_timeline (wk_db w') = ig_timeline (wk_db w)
    \<and> (\<forall>t. t \<noteq> wp_session p \<longrightarrow> ig_events (wk_db w') t = ig_events (wk_db w) t)"
  using assms
proof (induction k arbitrary: n j w)
  case (Suc k)
  let ?l = "ls ! n" and ?f = "claude_row (wp_env p) (wp_subagent p)" and ?s = "wp_session p"
  have n: "n < length ls" using Suc.prems by simp
  have ls: "take (Suc k) (drop n ls) = ?l # take k (drop (Suc n) ls)"
    using n by (metis Cons_nth_drop_Suc take_Suc_Cons)
  have pre: "lib_ok (ie_lib (wp_env p))" "ie_db_ok (wp_env p) ?s (wp_base p + int (wk_line_start w))"
      "length ?l < MAX_READ_BYTES"
    using Suc.prems(1,3) ls by (auto simp: quiet_def)
  obtain out db' where i: "insert_line (wp_env p) ?s ClaudeCode (wp_base p + int (wk_line_start w)) ?l None
        (wp_subagent p) None (wk_db w) = (out, None, db')"
      "\<forall>e. out \<noteq> Inl (Panicked e)"
      "rows ?s db' = (case ?f ?l of
          Some r \<Rightarrow> if map_of (rows ?s (wk_db w)) (wp_base p + int (wk_line_start w)) = None
            then btm_insert (wp_base p + int (wk_line_start w)) r (rows ?s (wk_db w)) else rows ?s (wk_db w)
        | None \<Rightarrow> rows ?s (wk_db w))"
      "ig_states db' = ig_states (wk_db w)" "ig_timeline db' = ig_timeline (wk_db w)"
      "\<forall>t. session_is_purged t db' = session_is_purged t (wk_db w)"
      "\<forall>t. t \<noteq> ?s \<longrightarrow> ig_events db' t = ig_events (wk_db w) t"
    by (rule insert_line_claude [OF pre, where sub = "wp_subagent p" and fb = None and db = "wk_db w"])
  let ?w = "admit_line p ?l w"
  have w: "wk_db ?w = db'" "wk_context ?w = None"
    using i(1) Suc.prems(1,2)
    by (simp_all add: admit_line_def quiet_def Let_def split: sum.split bool.split insert_error.split)
  have "rows ?s db' = line_rows ?f 0 (take (max j (Suc n)) ls)"
    using insert_next [OF Suc.prems(5-7) n Suc.prems(4)] i(3) by simp
  moreover have "wp_base p + int (wk_line_start ?w) = int (span (take (Suc n) ls))"
    using Suc.prems(4) n by (simp add: take_Suc_conv_app_nth)
  ultimately have "let w' = fold (admit_line p) (take k (drop (Suc n) ls)) ?w in
      wp_base p + int (wk_line_start w') = int (span (take (Suc n + k) ls))
      \<and> rows ?s (wk_db w') = line_rows ?f 0 (take (max (max j (Suc n)) (Suc n + k)) ls)
      \<and> ig_states (wk_db w') = ig_states (wk_db ?w) \<and> ig_timeline (wk_db w') = ig_timeline (wk_db ?w)
      \<and> (\<forall>t. t \<noteq> ?s \<longrightarrow> ig_events (wk_db w') t = ig_events (wk_db ?w) t)"
    using Suc.prems ls w n by (intro Suc.IH) auto
  moreover have "max (max j (Suc n)) (Suc n + k) = max j (n + Suc k)" by simp
  ultimately show ?case using i w ls by (simp add: Let_def)
qed (simp add: max_absorb1)

section \<open>A pass\<close>

definition file_walk :: "ingest_env \<Rightarrow> session \<Rightarrow> int \<Rightarrow> string option \<Rightarrow> (nat \<Rightarrow> bool) \<Rightarrow> walk_params" where
  "file_walk env s base sub spent = \<lparr>wp_env = env, wp_session = s, wp_source = ClaudeCode, wp_base = base,
     wp_subagent = sub, wp_spent = spent\<rparr>"

definition quiet_env :: "ingest_env \<Rightarrow> session \<Rightarrow> bool" where
  "quiet_env env s \<longleftrightarrow> lib_ok (ie_lib env) \<and> (\<forall>k. ie_db_ok env s k)"

text \<open>\<open>at_line content n j db\<close>: the rows are those of the first \<open>j\<close> lines, and \<open>n\<close> lines are behind.\<close>

definition stored_to :: "ingest_env \<Rightarrow> session \<Rightarrow> string option \<Rightarrow> string list \<Rightarrow> nat \<Rightarrow> ingest_db \<Rightarrow> bool" where
  "stored_to env s sub ls j db \<longleftrightarrow> j \<le> length ls \<and> rows s db = line_rows (claude_row env sub) 0 (take j ls)"

lemma line_below_span: "l \<in> set ls \<Longrightarrow> length l < span ls"
  by (induction ls) auto

lemma walk_claude:
  assumes "quiet_env env s" "stored_to env s sub (complete_lines content) j db" "n \<le> j"
    and "k \<le> MAX_READ_BYTES"
  defines "ls \<equiv> complete_lines content"
  defines "base \<equiv> span (take n ls)"
  defines "buf \<equiv> take k (drop base content)"
  shows "\<exists>i. i \<le> length (complete_lines buf) \<and> n + i \<le> length ls
    \<and> (i = 0 \<longleftrightarrow> complete_lines buf = [])
    \<and> (let w = walk_buffer (file_walk env s (int base) sub spent) buf [] (start_walk None db) in
        wk_panic w = None \<and> base + wk_line_start w = span (take (n + i) ls)
        \<and> stored_to env s sub ls (max j (n + i)) (wk_db w)
        \<and> ig_states (wk_db w) = ig_states db \<and> ig_timeline (wk_db w) = ig_timeline db)"
proof -
  let ?p = "file_walk env s (int base) sub spent" and ?w = "start_walk None db" and ?q = "complete_lines buf"
  have p: "quiet ?p" "wp_base ?p = int base" "wp_session ?p = s" "wp_env ?p = env" "wp_subagent ?p = sub"
    using assms(1) by (simp_all add: quiet_def quiet_env_def file_walk_def)
  have w: "wk_panic ?w = None" "\<not> wk_backlogged ?w" "wk_admitted ?w = 0" "wk_context ?w = None"
      "wk_line_start ?w = 0" "wk_db ?w = db"
    by (simp_all add: start_walk_def)
  have rest: "complete_lines (drop base content) = drop n ls"
    unfolding base_def ls_def by (rule drop_lines)
  have q: "?q = take (length ?q) (drop n ls)"
    using complete_lines_take [of k "drop base content"] unfolding buf_def rest .
  have short: "length l < MAX_READ_BYTES" if "l \<in> set ?q" for l
  proof -
    have "length l < span ?q" using that by (rule line_below_span)
    also have "\<dots> \<le> length buf" by (rule span_complete)
    also have "\<dots> \<le> MAX_READ_BYTES" using assms(4) by (simp add: buf_def)
    finally show ?thesis .
  qed
  obtain i where i: "i \<le> length ?q" "i = 0 \<longrightarrow> ?q = []"
      "walk_buffer ?p buf [] ?w = (fold (admit_line ?p) (take i ?q) ?w)\<lparr>wk_backlogged := (i < length ?q)\<rparr>"
    using walk_buffer_lines [OF w(1,2), of ?p buf] admit_line_no_panic [OF p(1)] w(3) by auto
  have ti: "take i ?q = take i (drop n ls)" using i(1) q by (metis min_absorb1 take_take)
  have "length ?q \<le> length ls - n" using arg_cong [OF q, of length] by simp
  then have qn: "n + length ?q \<le> length ls" if "?q \<noteq> []"
    using that by (cases "length ?q") auto
  have st: "j \<le> length ls" "rows s db = line_rows (claude_row env sub) 0 (take j ls)"
    using assms(2) by (simp_all add: stored_to_def ls_def)
  have ni: "n + i \<le> length ls" using qn i(1) assms(3) st(1) by (cases "?q = []") auto
  have shorts: "\<forall>l \<in> set (take i (drop n ls)). length l < MAX_READ_BYTES"
    using short ti by (metis in_set_takeD)
  have panic: "wk_panic (fold (admit_line ?p) xs u) = wk_panic u" for xs u
    by (induction xs arbitrary: u) (simp_all add: admit_line_no_panic [OF p(1)])
  have "let w' = fold (admit_line ?p) (take i (drop n ls)) ?w in
      wp_base ?p + int (wk_line_start w') = int (span (take (n + i) ls))
      \<and> rows (wp_session ?p) (wk_db w') = line_rows (claude_row (wp_env ?p) (wp_subagent ?p)) 0 (take (max j (n + i)) ls)
      \<and> ig_states (wk_db w') = ig_states (wk_db ?w) \<and> ig_timeline (wk_db w') = ig_timeline (wk_db ?w)
      \<and> (\<forall>t. t \<noteq> wp_session ?p \<longrightarrow> ig_events (wk_db w') t = ig_events (wk_db ?w) t)"
    by (rule admit_lines [OF p(1) w(4) shorts _ _ assms(3) st(1) ni]) (use p w st in \<open>simp_all add: base_def\<close>)
  then show ?thesis
    using i ti ni st p w panic
    by (intro exI [of _ i]) (auto simp: Let_def stored_to_def ls_def simp flip: of_nat_add)
qed

lemma set_offset_frame [simp]:
  "ig_events (set_offset env s path k db) = ig_events db" "ig_timeline (set_offset env s path k db) = ig_timeline db"
  "ig_blocks (set_offset env s path k db) = ig_blocks db" "ig_sessions (set_offset env s path k db) = ig_sessions db"
  "committed_offset (set_offset env s path k db) s = k"
  by (simp_all add: set_offset_def committed_offset_def)

lemma rebuild_frame [simp]:
  "ig_events (rebuild_if_inserted_behind s first db) = ig_events db"
  "ig_states (rebuild_if_inserted_behind s first db) = ig_states db"
  "ig_blocks (rebuild_if_inserted_behind s first db) = ig_blocks db"
  "ig_sessions (rebuild_if_inserted_behind s first db) = ig_sessions db"
  by (simp_all add: rebuild_if_inserted_behind_def split: option.split)

lemma restore_frame [simp]:
  "ig_events (enqueue_restore_if_absent s db) = ig_events db" "ig_states (enqueue_restore_if_absent s db) = ig_states db"
  "ig_timeline (enqueue_restore_if_absent s db) = ig_timeline db" "ig_blocks (enqueue_restore_if_absent s db) = ig_blocks db"
  "ig_sessions (enqueue_restore_if_absent s db) = ig_sessions db"
  by (simp_all add: enqueue_restore_if_absent_def)

lemma prepare_frame [simp]:
  "ig_events (prepare_session env file source db) = ig_events db" "ig_states (prepare_session env file source db) = ig_states db"
  "ig_timeline (prepare_session env file source db) = ig_timeline db" "ig_blocks (prepare_session env file source db) = ig_blocks db"
  "session_is_purged t (prepare_session env file source db) = session_is_purged t db"
  by (auto simp: prepare_session_def upsert_agent_session_def session_is_purged_def set_parent_session_def Let_def
      split: option.split)

lemma committed_offset_cong: "ig_states db' = ig_states db \<Longrightarrow> committed_offset db' = committed_offset db"
  by (simp add: committed_offset_def fun_eq_iff)

lemma rebuild_offset [simp]: "committed_offset (rebuild_if_inserted_behind t first db) = committed_offset db"
  by (rule committed_offset_cong) simp

lemma stored_to_cong: "ig_events db' s = ig_events db s \<Longrightarrow> stored_to env s sub ls j db' = stored_to env s sub ls j db"
  by (simp add: stored_to_def)

lemma buffer_rest:
  assumes "buf = take k (drop base content)"
  shows "drop base content = buf @ drop (base + length buf) content"
proof -
  have "drop base content = buf @ drop (length buf) (drop base content)"
    unfolding assms by (metis append_eq_conv_conj append_take_drop_id)
  then show ?thesis by (simp add: add.commute)
qed

text \<open>Past a long line the reader resumes right after it, and it stores nothing of the line.\<close>

lemma long_line:
  fixes content :: string
  defines "ls \<equiv> complete_lines content"
  assumes "newline \<notin> set buf" "buf = take k (drop base content)" "base = span (take n ls)"
    "next_line_boundary reads content (base + length buf) = Some resume"
  shows "n < length ls \<and> resume = span (take (Suc n) ls) \<and> length buf \<le> length (ls ! n)"
proof -
  let ?rest = "drop (base + length buf) content" and ?tail = "takeWhile (\<lambda>b. b \<noteq> newline)"
  note u = buffer_rest [OF assms(3)]
  have nl: "newline \<in> set ?rest" and resume: "resume = base + length buf + length (?tail ?rest) + 1"
    using assms(5) by (simp_all add: next_line_boundary_eq Let_def split: if_splits)
  obtain xs t where xs: "?rest = xs @ newline # t" "newline \<notin> set xs"
    using split_list_first [OF nl] by blast
  then have tail: "?tail ?rest = xs" by (auto simp: takeWhile_append2 takeWhile_tail)
  then have t: "?rest = ?tail ?rest @ newline # t" using xs(1) by simp
  have "newline \<notin> set (?tail ?rest)" using xs tail by simp
  then have "complete_lines (drop base content) = (buf @ ?tail ?rest) # complete_lines t"
    using assms(2) complete_lines_line [of "buf @ ?tail ?rest" t] t u by (metis append.assoc Un_iff set_append)
  moreover have "complete_lines (drop base content) = drop n ls"
    unfolding assms(4) ls_def by (rule drop_lines)
  ultimately have d: "drop n ls = (buf @ ?tail ?rest) # complete_lines t" by simp
  then have n: "n < length ls" by (metis drop_eq_Nil2 leI list.distinct(1))
  with d have "ls ! n = buf @ ?tail ?rest" by (metis Cons_nth_drop_Suc list.inject)
  with n resume show ?thesis by (simp add: take_Suc_conv_app_nth assms(4))
qed

definition pass_files :: "ingest_env \<Rightarrow> session \<Rightarrow> string option \<Rightarrow> string \<Rightarrow> disk \<Rightarrow> transcript_file \<Rightarrow> ingest_db \<Rightarrow> bool" where
  "pass_files env s sub content disk file db \<longleftrightarrow>
     tf_session file = s \<and> tf_committed_offset file = committed_offset db s
     \<and> dk_content disk = Some content \<and> subagent_of env disk file = sub"

lemma stored_to_more:
  assumes "stored_to env s sub ls j db" "claude_row env sub (ls ! j) = None" "j < length ls"
  shows "stored_to env s sub ls (Suc j) db"
  using assms by (simp add: stored_to_def take_Suc_conv_app_nth)

text \<open>
  \<open>pass_ok\<close>: a pass that started \<open>n\<close> lines in, with the rows of \<open>j\<close> lines, ended well, and when it
  read a \<open>full\<close> file it moved on unless no line was left.
\<close>

definition pass_ok ::
  "ingest_env \<Rightarrow> session \<Rightarrow> string option \<Rightarrow> string list \<Rightarrow> nat \<Rightarrow> nat \<Rightarrow> bool \<Rightarrow>
   (file_error + file_result) \<times> ingest_db \<Rightarrow> bool" where
  "pass_ok env s sub ls n j full r \<longleftrightarrow> (\<exists>res d n' j'. r = (Inr res, d)
     \<and> committed_offset d s = int (span (take n' ls)) \<and> n' \<le> j' \<and> j \<le> j' \<and> stored_to env s sub ls j' d
     \<and> (full \<longrightarrow> n \<le> n' \<and> (n < length ls \<longrightarrow> n < n')))"

lemma pass_okI:
  assumes "committed_offset d s = int (span (take n' ls))" "n' \<le> j'" "j \<le> j'"
    "stored_to env s sub ls j' d" "full \<Longrightarrow> n \<le> n' \<and> (n < length ls \<longrightarrow> n < n')"
  shows "pass_ok env s sub ls n j full (Inr res, d)"
  unfolding pass_ok_def using assms by blast

text \<open>The state at the end of a walk that admitted \<open>i\<close> lines of the buffer.\<close>

definition walked :: "ingest_env \<Rightarrow> session \<Rightarrow> string option \<Rightarrow> string list \<Rightarrow> nat \<Rightarrow> nat \<Rightarrow> nat \<Rightarrow> line_walk \<Rightarrow> bool" where
  "walked env s sub ls n i j w \<longleftrightarrow> wk_panic w = None \<and> span (take n ls) + wk_line_start w = span (take (n + i) ls)
     \<and> stored_to env s sub ls (max j (n + i)) (wk_db w) \<and> committed_offset (wk_db w) s = int (span (take n ls))"

lemma walked_still:
  assumes "walked env s sub ls n i j w" "n + i \<le> length ls"
  shows "wk_line_start w = 0 \<longleftrightarrow> i = 0"
proof
  assume "wk_line_start w = 0"
  then have "span (take (n + i) ls) = span (take n ls)" using assms(1) by (simp add: walked_def)
  moreover have "take (n + i) ls = take n ls @ take i (drop n ls)" by (rule take_add)
  ultimately have "take i (drop n ls) = []" by (cases "take i (drop n ls)") auto
  then show "i = 0" using assms(2) by auto
qed (use assms(1) in \<open>simp add: walked_def\<close>)

lemma skip_claude:
  fixes content :: string and n :: nat
  defines "ls \<equiv> complete_lines content"
  defines "base \<equiv> span (take n ls)"
  assumes "tf_session file = s" "tf_committed_offset file = int base" "walked env s sub ls n 0 j w" "n \<le> j"
    "newline \<notin> set buf" "MAX_READ_BYTES \<le> length buf" "buf = take k (drop base content)"
  shows "pass_ok env s sub ls n j True (finish_pass env disk file content (length buf) w)"
proof -
  let ?next = "next_line_boundary (dk_reads disk) content (base + length buf)"
  have still: "wk_panic w = None" "wk_line_start w = 0" "stored_to env s sub ls j (wk_db w)"
      "committed_offset (wk_db w) s = int base"
    using assms(5,6) by (simp_all add: walked_def base_def max_absorb1)
  have fin: "finish_pass env disk file content (length buf) w =
      apfst Inr (skip_oversized_line env file (dk_reads disk) content (length buf)
        \<lparr>fr_events_inserted = wk_inserted w, fr_parse_errors = wk_parse_errors w,
         fr_committed_offset = int base, fr_backlogged = wk_backlogged w\<rparr> (wk_db w))"
    using still assms(4,8) by (simp add: finish_pass_def Let_def)
  show ?thesis
  proof (cases ?next)
    case None
    have "\<not> n < length ls"
    proof
      assume "n < length ls"
      then have "newline \<in> set (drop base content)"
        using drop_lines [of n content] complete_lines_Nil_iff by (metis base_def drop_eq_Nil leD ls_def)
      then have "newline \<in> set (drop (base + length buf) content)"
        using assms(7) buffer_rest [OF assms(9)] by (metis Un_iff set_append)
      with None show False by (auto simp: next_line_boundary_eq Let_def)
    qed
    then have "pass_ok env s sub ls n j True (Inr res, wk_db w)" for res
      by (intro pass_okI [of _ _ n _ j]) (use still assms(6) in \<open>simp_all add: base_def\<close>)
    then show ?thesis
      unfolding fin using None assms(3,4) by (simp add: skip_oversized_line_def nat_int_add)
  next
    case (Some resume)
    have l: "n < length ls" "resume = span (take (Suc n) ls)" "length buf \<le> length (ls ! n)"
      using long_line [OF assms(7), of k base content n "dk_reads disk" resume] Some assms(9)
      by (simp_all add: base_def ls_def)
    then have "claude_row env sub (ls ! n) = None" using assms(8) by (simp add: claude_row_def)
    then have "stored_to env s sub ls (max j (Suc n)) (wk_db w)"
      using stored_to_more [of env s sub ls j "wk_db w"] still(3) assms(6) l(1)
      by (cases "j = n") (simp_all add: max_absorb1 max_absorb2 Suc_leI)
    then have "pass_ok env s sub ls n j True (Inr res, set_offset env s (tf_path file) (int resume) (wk_db w))" for res
      by (intro pass_okI [of _ _ "Suc n" _ "max j (Suc n)"]) (use l in \<open>simp_all add: stored_to_def\<close>)
    then show ?thesis
      unfolding fin using Some assms(3,4) by (simp add: skip_oversized_line_def nat_int_add)
  qed
qed

lemma finish_claude:
  fixes content :: string and n :: nat
  defines "ls \<equiv> complete_lines content"
  defines "base \<equiv> span (take n ls)"
  assumes "tf_session file = s" "tf_committed_offset file = int base" "walked env s sub ls n i j w" "n \<le> j"
    "n + i \<le> length ls" "i = 0 \<longleftrightarrow> complete_lines buf = []"
    "buf = take (min (nat (tf_file_len file - int base)) MAX_READ_BYTES) (drop base content)"
  shows "pass_ok env s sub ls n j (tf_file_len file = int (length content))
    (finish_pass env disk file content (length buf) w)"
proof (cases "i = 0 \<and> MAX_READ_BYTES \<le> length buf")
  case True
  then have "newline \<notin> set buf" "walked env s sub ls n 0 j w"
    using assms(5,8) by (simp_all add: complete_lines_Nil_iff)
  then have "pass_ok env s sub ls n j True (finish_pass env disk file content (length buf) w)"
    using skip_claude [where content = content and n = n and w = w and buf = buf] assms True unfolding base_def ls_def by blast
  then show ?thesis unfolding pass_ok_def by blast
next
  case False
  have w: "wk_panic w = None" "base + wk_line_start w = span (take (n + i) ls)"
      "stored_to env s sub ls (max j (n + i)) (wk_db w)" "committed_offset (wk_db w) s = int base"
    using assms(5) by (simp_all add: walked_def base_def)
  obtain r db' where fin: "finish_pass env disk file content (length buf) w = (Inr r, db')"
      "committed_offset db' s = int (span (take (n + i) ls))" "ig_events db' = ig_events (wk_db w)"
    using w False walked_still [OF assms(5,7)] assms(3,4)
    by (auto simp: finish_pass_def Let_def base_def simp flip: of_nat_add)
  have "0 < i" if "tf_file_len file = int (length content)" "n < length ls"
  proof (rule ccontr)
    assume "\<not> 0 < i"
    then have none: "newline \<notin> set buf" "length buf < MAX_READ_BYTES"
      using False assms(8) by (auto simp: complete_lines_Nil_iff)
    then have "buf = drop base content"
      using that(1) assms(9) by (auto simp: min_def split: if_splits)
    then have "complete_lines (drop base content) = []" using none by simp
    then show False using drop_lines [of n content] that(2) by (simp add: base_def ls_def)
  qed
  then show ?thesis
    unfolding fin(1)
    by (intro pass_okI [of _ _ "n + i" _ "max j (n + i)"]) (use fin w in \<open>simp_all add: stored_to_def\<close>)
qed

lemma process_file_claude:
  fixes content :: string
  defines "ls \<equiv> complete_lines content"
  assumes "quiet_env env s" "pass_files env s sub content disk file db"
    "committed_offset db s = int (span (take n ls))" "stored_to env s sub ls j db" "n \<le> j"
  shows "pass_ok env s sub ls n j
    (\<not> session_is_purged s db \<and> tf_file_len file = int (length content))
    (process_file env spent disk file ClaudeCode db)"
proof -
  let ?db = "prepare_session env file ClaudeCode db" 
    and ?full = "\<not> session_is_purged s db \<and> tf_file_len file = int (length content)"
  let ?P = "pass_ok env s sub ls n j ?full (process_file env spent disk file ClaudeCode db)"
  define base where "base = span (take n ls)"
  have fl: "tf_session file = s" "tf_committed_offset file = int base"
      "dk_content disk = Some content" "subagent_of env disk file = sub"
    using assms(3,4) by (simp_all add: pass_files_def base_def)
  define buf where "buf = take (min (nat (tf_file_len file - int base)) MAX_READ_BYTES) (drop base content)"
  define w where "w = walk_buffer (file_walk env s (int base) sub spent) buf [] (start_walk None ?db)"
  have buf: "file_buffer file content = buf" by (simp add: file_buffer_def buf_def fl(2))
  have st: "stored_to env s sub ls j ?db" "committed_offset ?db s = int base"
    using assms(4,5) by (simp_all add: stored_to_def committed_offset_def base_def)
  have pf: "process_file env spent disk file ClaudeCode db =
      (if session_is_purged s db then (Inr \<lparr>fr_events_inserted = 0, fr_parse_errors = 0, fr_committed_offset = int base, fr_backlogged = False\<rparr>,
         enqueue_restore_if_absent s ?db)
       else if tf_file_len file < int base then (Inr \<lparr>fr_events_inserted = 0, fr_parse_errors = 0, fr_committed_offset = 0, fr_backlogged = False\<rparr>,
         set_offset env s (tf_path file) 0 ?db)
       else finish_pass env disk file content (length buf) w)"
    by (simp add: process_file_def defer_if_purged_def fl buf start_context_def file_walk_def w_def Let_def)
  consider (purged) "session_is_purged s db" | (cut) "\<not> session_is_purged s db" "tf_file_len file < int base"
    | (walk) "\<not> session_is_purged s db" "int base \<le> tf_file_len file" by linarith
  then show ?P
  proof cases
    case purged
    have "pass_ok env s sub ls n j ?full (Inr res, enqueue_restore_if_absent s ?db)" for res
      by (rule pass_okI [of _ _ n _ j]) (use purged st assms(6) in \<open>simp_all add: base_def stored_to_def committed_offset_def\<close>)
    then show ?P using purged by (simp add: pf)
  next
    case cut
    have "int base \<le> int (length content)"
      using span_complete [of content] span_take_mono [of n "length ls" ls]
      by (cases "n \<le> length ls") (auto simp: base_def ls_def)
    then have "pass_ok env s sub ls n j ?full (Inr res, set_offset env s (tf_path file) 0 ?db)" for res
      by (intro pass_okI [of _ _ 0 _ j]) (use cut st in \<open>simp_all add: stored_to_def\<close>)
    then show ?P using cut by (simp add: pf)
  next
    case walk
    obtain i where i: "n + i \<le> length ls" "i = 0 \<longleftrightarrow> complete_lines buf = []" and "walked env s sub ls n i j w"
      using walk_claude [OF assms(2) st(1) [unfolded ls_def] assms(6),
          of "min (nat (tf_file_len file - int base)) MAX_READ_BYTES" spent] st(2)
      unfolding buf_def base_def ls_def walked_def w_def by (auto simp: Let_def committed_offset_def)
    then have "pass_ok env s sub ls n j (tf_file_len file = int (length content))
        (finish_pass env disk file content (length buf) w)"
      using finish_claude [where content = content and n = n and w = w and buf = buf] fl(1,2) assms(6) buf_def
      unfolding base_def ls_def by blast
    then show ?P using walk by (simp add: pf)
  qed
qed

section \<open>No pass purges a session\<close>

lemma insert_line_purged [simp]:
  "session_is_purged t (snd (snd (insert_line env s src k line ctx sub fb db))) = session_is_purged t db"
  by (auto simp: insert_line_def Let_def session_is_purged_def link_parent_session_def set_parent_session_def
      split: option.split sum.split)

lemma admit_line_purged [simp]: "session_is_purged t (wk_db (admit_line p l w)) = session_is_purged t (wk_db w)"
proof -
  have "session_is_purged t db' = session_is_purged t (wk_db w)"
    if "insert_line (wp_env p) (wp_session p) (wp_source p) k l ctx sub fb (wk_db w) = (out, ctx', db')"
    for k ctx sub fb out ctx' db'
    using insert_line_purged [of t "wp_env p" "wp_session p" "wp_source p" k l ctx sub fb "wk_db w"] that by simp
  then show ?thesis
    by (auto simp: admit_line_def Let_def split: prod.split sum.split bool.split insert_error.split)
qed

lemma walk_buffer_purged [simp]: "session_is_purged t (wk_db (walk_buffer p buf line w)) = session_is_purged t (wk_db w)"
  by (induction p buf line w rule: walk_buffer.induct) (simp_all add: Let_def)

lemma process_file_purged [simp]:
  "session_is_purged t (snd (process_file env spent disk file src db)) = session_is_purged t db"
proof -
  have frame: "session_is_purged t (set_offset env s path k d) = session_is_purged t d"
      "session_is_purged t (rebuild_if_inserted_behind s first d) = session_is_purged t d"
      "session_is_purged t (enqueue_restore_if_absent s d) = session_is_purged t d" for s path k first d
    by (simp_all add: session_is_purged_def)
  show ?thesis
    by (simp add: process_file_def finish_pass_def skip_oversized_line_def defer_if_purged_def start_walk_def frame Let_def
        split: option.split)
qed

end
