(* ===== verification/Ingest_Timeline.thy ===== *)
theory Ingest_Timeline
  imports Ingest_Run Timeline_Totals
begin

text \<open>
  From transcripts to timelines: what a pass over a file, a batch and a whole tick of the ingester
  do to the projection of every session. The invariant is that the part of the log a current
  projection has read is still what it was when it was read.
\<close>

section \<open>Stored events under insertions\<close>

abbreviation blocks_at :: "int \<Rightarrow> (int \<times> int, block) btree_map \<Rightarrow> (int \<times> int, block) btree_map" where
  "blocks_at k m \<equiv> filter (\<lambda>((k', _), _). k' = k) m"

lemma filter_btm_insert:
  "(\<And>v. \<not> P (k, v)) \<Longrightarrow> filter P (btm_insert k v m) = filter P m"
  by (induction k v m rule: btm_insert.induct) auto

lemma insert_blocks_elsewhere [simp]:
  "k' \<noteq> k \<Longrightarrow> blocks_at k' (ig_blocks (insert_blocks env s k spk bs db) t) = blocks_at k' (ig_blocks db t)"
  "t \<noteq> s \<Longrightarrow> ig_blocks (insert_blocks env s k spk bs db) t = ig_blocks db t"
  unfolding insert_blocks_def
  by (induction bs arbitrary: db) (simp_all add: insert_block_def filter_btm_insert)

lemma insert_row_elsewhere [simp]:
  "k' \<noteq> k \<Longrightarrow> blocks_at k' (ig_blocks (insert_row env s src k r e db) t) = blocks_at k' (ig_blocks db t)"
  "t \<noteq> s \<Longrightarrow> ig_blocks (insert_row env s src k r e db) t = ig_blocks db t"
  by (simp_all add: insert_row_def insert_event_derivatives_def)

text \<open>\<open>written_at s k db db'\<close>: only the event of \<open>s\<close> at \<open>k\<close> and its blocks were added.\<close>

definition written_at :: "session \<Rightarrow> int \<Rightarrow> ingest_db \<Rightarrow> ingest_db \<Rightarrow> bool" where
  "written_at s k db db' \<longleftrightarrow> ig_timeline db' = ig_timeline db \<and> ig_states db' = ig_states db
     \<and> (\<forall>t. t \<noteq> s \<longrightarrow> ig_events db' t = ig_events db t \<and> ig_blocks db' t = ig_blocks db t)
     \<and> (\<exists>r. ig_events db' s = btm_insert k r (ig_events db s))
     \<and> (\<forall>k'. k' \<noteq> k \<longrightarrow> blocks_at k' (ig_blocks db' s) = blocks_at k' (ig_blocks db s))"

definition same_log :: "ingest_db \<Rightarrow> ingest_db \<Rightarrow> bool" where
  "same_log db db' \<longleftrightarrow> ig_timeline db' = ig_timeline db \<and> ig_states db' = ig_states db
     \<and> ig_events db' = ig_events db \<and> ig_blocks db' = ig_blocks db"

lemma insert_line_writes:
  assumes "insert_line env s src k line ctx sub fb db = (out, ctx', db')"
  shows "if out = Inr True then written_at s k db db' else same_log db db'"
  using assms
  by (auto simp: insert_line_def written_at_def same_log_def Let_def split: if_splits option.splits sum.splits)

lemma stored_events_cong:
  "ig_events db' s = ig_events db s \<Longrightarrow> ig_blocks db' s = ig_blocks db s \<Longrightarrow> stored_events env s db' = stored_events env s db"
  by (simp add: stored_events_def stored_event_of_def load_event_blocks_def)

lemma stored_offset [simp]: "se_byte_offset (stored_event_of env s db x) = fst x"
  by (simp add: stored_event_of_def case_prod_beta)

lemma stored_offsets [simp]: "map se_byte_offset (stored_events env s db) = map fst (ig_events db s)"
  by (simp add: stored_events_def)

definition log_upto :: "ingest_env \<Rightarrow> session \<Rightarrow> ingest_db \<Rightarrow> int \<Rightarrow> stored_event list" where
  "log_upto env s db c = filter (\<lambda>e. se_byte_offset e \<le> c) (stored_events env s db)"

text \<open>What was stored before an offset is not affected by writing at it.\<close>

lemma written_at_log_upto:
  assumes "written_at s k db db'" "c < k"
  shows "log_upto env s db' c = log_upto env s db c"
proof -
  obtain r where r: "ig_events db' s = btm_insert k r (ig_events db s)"
    and b: "\<And>k'. k' \<noteq> k \<Longrightarrow> blocks_at k' (ig_blocks db' s) = blocks_at k' (ig_blocks db s)"
    using assms(1) by (auto simp: written_at_def)
  have e: "stored_event_of env s db' (k', x) = stored_event_of env s db (k', x)" if "k' \<noteq> k" for k' x
    using b [OF that] by (simp add: stored_event_of_def load_event_blocks_def)
  have upto: "log_upto env s d c = map (stored_event_of env s d) (filter (\<lambda>x. fst x \<le> c) (ig_events d s))" for d
    by (simp add: log_upto_def stored_events_def filter_map comp_def)
  have "filter (\<lambda>x. fst x \<le> c) (ig_events db' s) = filter (\<lambda>x. fst x \<le> c) (ig_events db s)"
    using assms(2) unfolding r by (intro filter_btm_insert) simp
  then show ?thesis unfolding upto using e assms(2) by (auto simp: upto)
qed

section \<open>The walk\<close>

text \<open>
  \<open>walk_frame\<close>: what holds of a walk that began with the tables \<open>d\<close>. The first insertion is the
  lowest, and everything stored before it is as it was.
\<close>

definition walk_frame :: "ingest_env \<Rightarrow> session \<Rightarrow> int \<Rightarrow> ingest_db \<Rightarrow> line_walk \<Rightarrow> bool" where
  "walk_frame env s base d w \<longleftrightarrow>
     ig_timeline (wk_db w) = ig_timeline d \<and> ig_states (wk_db w) = ig_states d
     \<and> (\<forall>t. t \<noteq> s \<longrightarrow> ig_events (wk_db w) t = ig_events d t \<and> ig_blocks (wk_db w) t = ig_blocks d t)
     \<and> (btm_ok (ig_events d s) \<longrightarrow> btm_ok (ig_events (wk_db w) s))
     \<and> (\<forall>k \<in> fst ` set (ig_events (wk_db w) s). k \<in> fst ` set (ig_events d s) \<or> base \<le> k)
     \<and> (case wk_first_inserted w of
          None \<Rightarrow> wk_inserted w = 0 \<and> ig_events (wk_db w) s = ig_events d s \<and> ig_blocks (wk_db w) s = ig_blocks d s
        | Some f \<Rightarrow> 0 < wk_inserted w \<and> base \<le> f \<and> f < base + int (wk_line_start w)
            \<and> (\<forall>c < f. log_upto env s (wk_db w) c = log_upto env s d c))"

lemma walk_frameD:
  assumes "walk_frame env s base d w"
  shows "ig_timeline (wk_db w) = ig_timeline d" "ig_states (wk_db w) = ig_states d"
    "t \<noteq> s \<Longrightarrow> ig_events (wk_db w) t = ig_events d t \<and> ig_blocks (wk_db w) t = ig_blocks d t"
    "wk_first_inserted w = None \<Longrightarrow> wk_inserted w = 0 \<and> ig_events (wk_db w) = ig_events d \<and> ig_blocks (wk_db w) = ig_blocks d"
proof -
  show "ig_timeline (wk_db w) = ig_timeline d" "ig_states (wk_db w) = ig_states d"
    and other: "t \<noteq> s \<Longrightarrow> ig_events (wk_db w) t = ig_events d t \<and> ig_blocks (wk_db w) t = ig_blocks d t" for t
    using assms by (simp_all add: walk_frame_def)
  assume "wk_first_inserted w = None"
  then have "wk_inserted w = 0" "ig_events (wk_db w) s = ig_events d s" "ig_blocks (wk_db w) s = ig_blocks d s"
    using assms by (simp_all add: walk_frame_def)
  with other show "wk_inserted w = 0 \<and> ig_events (wk_db w) = ig_events d \<and> ig_blocks (wk_db w) = ig_blocks d"
    by (metis ext)
qed

lemma walk_frame_start: "walk_frame env s base d (start_walk ctx d)"
  by (simp add: walk_frame_def start_walk_def)

lemma walk_frame_admit:
  assumes "walk_frame env (wp_session p) (wp_base p) d w"
  shows "walk_frame env (wp_session p) (wp_base p) d (admit_line p l w)"
proof -
  let ?s = "wp_session p" and ?k = "wp_base p + int (wk_line_start w)"
  obtain out ctx db' where i: "insert_line (wp_env p) ?s (wp_source p) ?k l (wk_context w) (wp_subagent p) None (wk_db w)
      = (out, ctx, db')"
    by (metis prod_cases3)
  show ?thesis
  proof (cases "out = Inr True")
    case True
    then have wr: "written_at ?s ?k (wk_db w) db'" using insert_line_writes [OF i] by simp
    have "log_upto env ?s db' c = log_upto env ?s (wk_db w) c" if "c < ?k" for c
      using written_at_log_upto [OF wr that] .
    moreover have "log_upto env ?s (wk_db w) c = log_upto env ?s d c" if "wk_first_inserted w = None" for c
      using assms that stored_events_cong [of "wk_db w" ?s d env] by (simp add: walk_frame_def log_upto_def)
    moreover have "fst ` set (ig_events db' ?s) = insert ?k (fst ` set (ig_events (wk_db w) ?s))"
        "btm_ok (ig_events (wk_db w) ?s) \<Longrightarrow> btm_ok (ig_events db' ?s)"
      using wr unfolding written_at_def by (metis set_keys_btm_insert, metis btm_ok_insert)
    moreover have "admit_line p l w = w\<lparr>wk_admitted := wk_admitted w + 1, wk_context := ctx, wk_db := db',
        wk_line_start := wk_line_start w + length l + 1, wk_inserted := wk_inserted w + 1,
        wk_first_inserted := or_else (wk_first_inserted w) (Some ?k)\<rparr>"
      using i True by (simp add: admit_line_def Let_def)
    ultimately show ?thesis
      using assms wr unfolding walk_frame_def written_at_def
      by (cases "wk_first_inserted w") (simp_all add: or_else_def)
  next
    case False
    then have "same_log (wk_db w) db'" using insert_line_writes [OF i] by simp
    then show ?thesis
      using assms False i stored_events_cong [of db' ?s "wk_db w" env]
      by (auto simp: walk_frame_def admit_line_def same_log_def log_upto_def Let_def
          split: option.splits sum.splits bool.splits insert_error.splits)
  qed
qed

lemma walk_frame_walk:
  "walk_frame env (wp_session p) (wp_base p) d w \<Longrightarrow>
   walk_frame env (wp_session p) (wp_base p) d (walk_buffer p buf line w)"
proof (induction p buf line w rule: walk_buffer.induct)
  case (2 p b buf line w)
  have "walk_frame env (wp_session p) (wp_base p) d (w\<lparr>wk_backlogged := True\<rparr>)"
    using "2.prems" by (simp add: walk_frame_def split: option.splits)
  then show ?case using 2 walk_frame_admit [of env p d w line] by (simp add: Let_def)
qed simp

text \<open>No line of a known library panics, so a walk does not stop early.\<close>

lemma insert_line_no_panic:
  assumes "lib_ok (ie_lib env)" "insert_line env s src k line ctx sub fb db = (out, ctx', db')"
  shows "out \<noteq> Inl (Panicked e)"
proof -
  have "\<exists>p. parse_canonical_event env (agent_id src) v s k ctx = Inr p" for v
    using claude_parse_runs [OF assms(1), of v] codex_parse_runs [OF assms(1), of v]
    by (auto simp: parse_canonical_event_def runs_iff)
  then have "parse_canonical_event env (agent_id src) v s k ctx \<noteq> Inl x" for v x
    by (metis Inl_Inr_False)
  then show ?thesis
    using assms(2) by (auto simp: insert_line_def Let_def split: if_splits option.splits sum.splits)
qed

lemma admit_keeps_panic:
  assumes "lib_ok (ie_lib (wp_env p))"
  shows "wk_panic (admit_line p l w) = wk_panic w"
  using insert_line_no_panic [OF assms]
  by (auto simp: admit_line_def Let_def split: prod.split sum.split bool.split insert_error.split) blast

lemma walk_no_panic:
  "lib_ok (ie_lib (wp_env p)) \<Longrightarrow> wk_panic w = None \<Longrightarrow> wk_panic (walk_buffer p buf line w) = None"
  by (induction p buf line w rule: walk_buffer.induct) (auto simp: Let_def admit_keeps_panic)

section \<open>The invariant\<close>

abbreviation spec_of :: "(session \<Rightarrow> batch_env) \<Rightarrow> session \<Rightarrow> stored_event list \<Rightarrow> timeline \<Rightarrow> timeline" where
  "spec_of benv s \<equiv> sp_applies (bt_reduce (benv s)) s (bt_child_of (benv s))"

text \<open>
  \<open>reads_log\<close>: a projection of the current reducer is the specification applied to the events up to its
  cursor, apart from child links that earlier builds left.
\<close>

definition reads_log :: "(session \<Rightarrow> batch_env) \<Rightarrow> ingest_env \<Rightarrow> session \<Rightarrow> ingest_db \<Rightarrow> bool" where
  "reads_log benv env s db \<longleftrightarrow> pj_ok (projection_of s db)
     \<and> (pj_version (projection_of s db) = REDUCER_VERSION \<longrightarrow>
        (\<exists>links. timeline_of (projection_of s db) = add_links links
           (spec_of benv s (log_upto env s db (cursor (projection_of s db))) (timeline_of fresh_projection))))"

definition log_ok :: "session \<Rightarrow> ingest_db \<Rightarrow> bool" where
  "log_ok s db \<longleftrightarrow> btm_ok (ig_events db s) \<and> (\<forall>k \<in> fst ` set (ig_events db s). 0 \<le> k)"

definition db_ok :: "(session \<Rightarrow> batch_env) \<Rightarrow> ingest_env \<Rightarrow> ingest_db \<Rightarrow> bool" where
  "db_ok benv env db \<longleftrightarrow> (\<forall>s. log_ok s db \<and> 0 \<le> committed_offset db s \<and> reads_log benv env s db)"

lemma projection_of_cong: "ig_timeline db' s = ig_timeline db s \<Longrightarrow> projection_of s db' = projection_of s db"
  by (simp add: projection_of_def)

lemma reads_log_cong:
  assumes "ig_timeline db' s = ig_timeline db s"
    "log_upto env s db' (cursor (projection_of s db)) = log_upto env s db (cursor (projection_of s db))"
  shows "reads_log benv env s db' = reads_log benv env s db"
  using assms projection_of_cong [OF assms(1)] by (simp add: reads_log_def)

lemma log_upto_cong:
  "ig_events db' s = ig_events db s \<Longrightarrow> ig_blocks db' s = ig_blocks db s \<Longrightarrow> log_upto env s db' c = log_upto env s db c"
  using stored_events_cong [of db' s db env] by (simp add: log_upto_def)

lemma pj_ok_rebuild [simp]: "pj_ok (request_rebuild pj) = pj_ok pj"
  by (simp add: pj_ok_def) (simp add: request_rebuild_def)

text \<open>After a rebuild was asked for where it is needed, nothing is left to remember.\<close>

lemma reads_log_rebuild:
  assumes "pj_ok (projection_of s db)"
    and "\<And>f pj. first = Some f \<Longrightarrow> ig_timeline db s = Some pj \<Longrightarrow> cursor pj < f \<Longrightarrow> reads_log benv env s db"
    and "first = None \<Longrightarrow> reads_log benv env s db"
  shows "reads_log benv env s (rebuild_if_inserted_behind s first db)"
proof (cases first)
  case (Some f)
  show ?thesis
  proof (cases "ig_timeline db s")
    case None
    then have "pj_version (projection_of s db) \<noteq> REDUCER_VERSION"
      by (simp add: projection_of_def new_state_row_def REDUCER_VERSION_def)
    then show ?thesis using assms(1) None by (simp add: rebuild_if_inserted_behind_def reads_log_def split: option.split)
  next
    case (Some pj)
    then show ?thesis
      using assms \<open>first = Some f\<close>
      by (auto simp: rebuild_if_inserted_behind_def reads_log_def projection_of_def request_rebuild_def REDUCER_VERSION_def
          pj_ok_rebuild [unfolded request_rebuild_def])
  qed
qed (use assms in \<open>simp add: rebuild_if_inserted_behind_def\<close>)

section \<open>A pass\<close>

text \<open>\<open>passed s n db db'\<close>: a pass over a file of \<open>s\<close> that inserted \<open>n\<close> events.\<close>

definition passed :: "session \<Rightarrow> nat \<Rightarrow> ingest_db \<Rightarrow> ingest_db \<Rightarrow> bool" where
  "passed s n db db' \<longleftrightarrow> (\<forall>t. t \<noteq> s \<or> n = 0 \<longrightarrow> ig_events db' t = ig_events db t \<and> ig_blocks db' t = ig_blocks db t
     \<and> ig_timeline db' t = ig_timeline db t)"

lemma committed_set_offset:
  "committed_offset (set_offset env s path k db) t = (if t = s then k else committed_offset db t)"
  by (simp add: set_offset_def committed_offset_def)

lemma rebuild_elsewhere [simp]:
  "t \<noteq> s \<Longrightarrow> ig_timeline (rebuild_if_inserted_behind s first db) t = ig_timeline db t"
  "first = None \<Longrightarrow> rebuild_if_inserted_behind s first db = db"
  by (simp_all add: rebuild_if_inserted_behind_def split: option.split)

lemma log_ok_cong: "ig_events db' s = ig_events db s \<Longrightarrow> log_ok s db' = log_ok s db"
  by (simp add: log_ok_def)

lemma db_ok_quiet:
  assumes "db_ok benv env db" "ig_events db' = ig_events db" "ig_blocks db' = ig_blocks db" "ig_timeline db' = ig_timeline db"
    "\<And>t. 0 \<le> committed_offset db' t"
  shows "db_ok benv env db'"
  using assms log_ok_cong [of db' _ db] reads_log_cong [of db' _ db env benv] log_upto_cong [of db' _ db env]
  by (simp add: db_ok_def)

lemma finish_pass_ok:
  assumes ok: "db_ok benv env d" and w: "walk_frame env (tf_session file) (tf_committed_offset file) d w"
    and "wk_panic w = None" "0 \<le> tf_committed_offset file"
    and fin: "finish_pass env' disk file content scanned w = (out, db')"
  shows "\<exists>r. out = Inr r \<and> db_ok benv env db' \<and> passed (tf_session file) (fr_events_inserted r) d db'"
proof -
  let ?s = "tf_session file" and ?db = "wk_db w"
  define next_db where "next_db = (if 0 < wk_line_start w
    then set_offset env' ?s (tf_path file) (tf_committed_offset file + int (wk_line_start w)) ?db else ?db)"
  have frame: "ig_timeline ?db = ig_timeline d" "ig_states ?db = ig_states d"
      "\<And>t. t \<noteq> ?s \<Longrightarrow> ig_events ?db t = ig_events d t \<and> ig_blocks ?db t = ig_blocks d t"
      "wk_first_inserted w = None \<Longrightarrow> wk_inserted w = 0 \<and> ig_events ?db = ig_events d \<and> ig_blocks ?db = ig_blocks d"
    using walk_frameD [OF w] by auto
  have offs: "0 \<le> committed_offset ?db t" for t
    using ok committed_offset_cong [OF frame(2)] by (simp add: db_ok_def)
  have log: "log_ok t ?db" for t
    using ok w frame(3) [of t] assms(4) log_ok_cong [of ?db t d]
    by (cases "t = ?s") (force simp: db_ok_def log_ok_def walk_frame_def)+
  show ?thesis
  proof (cases "wk_line_start w = 0 \<and> MAX_READ_BYTES \<le> scanned")
    case True
    then have none: "wk_first_inserted w = None"
      using w assms(4) by (auto simp: walk_frame_def split: option.splits)
    have "db_ok benv env ?db" "db_ok benv env (set_offset env' ?s (tf_path file) (int k) ?db)" for k
      using db_ok_quiet [OF ok, of ?db] db_ok_quiet [OF ok, of "set_offset env' ?s (tf_path file) (int k) ?db"] frame none offs
      by (simp_all add: committed_set_offset)
    moreover have "passed ?s n d ?db" "passed ?s n d (set_offset env' ?s (tf_path file) (int k) ?db)" for n k
      using frame none by (simp_all add: passed_def)
    ultimately show ?thesis
      using fin True assms(3) frame(4) [OF none]
      by (auto simp: finish_pass_def skip_oversized_line_def Let_def split: option.splits)
  next
    case False
    then have out: "\<exists>r. out = Inr r \<and> fr_events_inserted r = wk_inserted w"
        "db' = rebuild_if_inserted_behind ?s (wk_first_inserted w) next_db"
      using fin assms(3) by (auto simp: finish_pass_def next_db_def Let_def)
    have nx: "ig_events next_db = ig_events ?db" "ig_blocks next_db = ig_blocks ?db" "ig_timeline next_db = ig_timeline d"
        "\<And>t. 0 \<le> committed_offset next_db t"
      using frame offs assms(4) by (simp_all add: next_db_def committed_set_offset)
    have reads: "reads_log benv env ?s db'"
      unfolding out(2)
    proof (rule reads_log_rebuild)
      show "pj_ok (projection_of ?s next_db)"
        using ok projection_of_cong [of next_db ?s d] nx(3) by (simp add: db_ok_def reads_log_def)
    next
      fix f pj assume f: "wk_first_inserted w = Some f" "ig_timeline next_db ?s = Some pj" "cursor pj < f"
      then have "log_upto env ?s next_db (cursor (projection_of ?s d)) = log_upto env ?s d (cursor (projection_of ?s d))"
        using w nx log_upto_cong [of next_db ?s ?db env] by (simp add: walk_frame_def projection_of_def)
      then show "reads_log benv env ?s next_db"
        using ok reads_log_cong [of next_db ?s d env benv] nx(3) by (simp add: db_ok_def)
    next
      assume "wk_first_inserted w = None"
      then show "reads_log benv env ?s next_db"
        using ok frame nx reads_log_cong [of next_db ?s d env benv] log_upto_cong [of next_db ?s d env] by (simp add: db_ok_def)
    qed
    have "reads_log benv env t db'" if "t \<noteq> ?s" for t
      using ok nx that frame(3) [OF that] reads_log_cong [of db' t d env benv] log_upto_cong [of db' t d env]
      by (simp add: out(2) db_ok_def)
    moreover have "log_ok t db'" "0 \<le> committed_offset db' t" for t
      using log nx log_ok_cong [of db' t ?db] by (simp_all add: out(2))
    ultimately have "db_ok benv env db'" using reads unfolding db_ok_def by metis
    moreover have "passed ?s (wk_inserted w) d db'"
      using frame nx w by (auto simp: passed_def out(2) walk_frame_def split: option.splits)
    ultimately show ?thesis using out(1) by auto
  qed
qed

lemma db_ok_prepared:
  assumes "db_ok benv env db"
  shows "db_ok benv env (prepare_session env' file src db)"
  using assms committed_offset_cong [of "prepare_session env' file src db" db]
  by (intro db_ok_quiet [OF assms]) (simp_all add: db_ok_def)

lemma process_file_ok:
  assumes ok: "db_ok benv env db" and lib: "lib_ok (ie_lib env')" and pos: "0 \<le> tf_committed_offset file"
    and run: "process_file env' spent disk file src db = (out, db')"
  shows "db_ok benv env db' \<and> (\<forall>e. out \<noteq> Inl (FilePanic e))
    \<and> passed (tf_session file) (case out of Inr r \<Rightarrow> fr_events_inserted r | Inl _ \<Rightarrow> 0) db db'"
proof -
  let ?s = "tf_session file" and ?db = "prepare_session env' file src db"
  have ok': "db_ok benv env ?db" by (rule db_ok_prepared [OF ok])
  have offs: "0 \<le> committed_offset ?db t" for t using ok' by (simp add: db_ok_def)
  have pass: "passed ?s n db d" if "passed ?s n ?db d" for n d
    using that by (simp add: passed_def)
  have quiet: "db_ok benv env (set_offset env' ?s path 0 ?db)" "db_ok benv env (enqueue_restore_if_absent ?s ?db)" for path
    using offs committed_offset_cong [of "enqueue_restore_if_absent ?s ?db" ?db]
    by (intro db_ok_quiet [OF ok']; simp add: committed_set_offset)+
  have walk: "db_ok benv env db'" "\<exists>r. out = Inr r \<and> passed ?s (fr_events_inserted r) db db'"
    if "finish_pass env' disk file content scanned (walk_buffer
      \<lparr>wp_env = env', wp_session = ?s, wp_source = src, wp_base = tf_committed_offset file,
       wp_subagent = sub, wp_spent = spent\<rparr> buf [] (start_walk ctx ?db)) = (out, db')" for content scanned sub buf ctx
  proof -
    let ?p = "\<lparr>wp_env = env', wp_session = ?s, wp_source = src, wp_base = tf_committed_offset file,
       wp_subagent = sub, wp_spent = spent\<rparr>"
    have "walk_frame env ?s (tf_committed_offset file) ?db (walk_buffer ?p buf [] (start_walk ctx ?db))"
      using walk_frame_walk [of env ?p ?db "start_walk ctx ?db" buf "[]"] walk_frame_start by simp
    moreover have "wk_panic (walk_buffer ?p buf [] (start_walk ctx ?db)) = None"
      using walk_no_panic [of ?p] lib by (simp add: start_walk_def)
    ultimately show "db_ok benv env db'" "\<exists>r. out = Inr r \<and> passed ?s (fr_events_inserted r) db db'"
      using finish_pass_ok [OF ok' _ _ pos that] pass by blast+
  qed
  have same: "passed ?s 0 db (set_offset env' ?s path 0 ?db)" "passed ?s 0 db (enqueue_restore_if_absent ?s ?db)"
      "passed ?s 0 db ?db" for path
    by (simp_all add: passed_def)
  show ?thesis
  proof (cases "session_is_purged ?s db \<or> tf_file_len file < tf_committed_offset file \<or> dk_content disk = None")
    case True
    then show ?thesis
      using run quiet same ok' by (auto simp: process_file_def defer_if_purged_def Let_def split: if_splits option.splits)
  next
    case False
    then obtain content sub buf ctx where "finish_pass env' disk file content (length buf) (walk_buffer
        \<lparr>wp_env = env', wp_session = ?s, wp_source = src, wp_base = tf_committed_offset file,
         wp_subagent = sub, wp_spent = spent\<rparr> buf [] (start_walk ctx ?db)) = (out, db')"
      using run by (auto simp: process_file_def defer_if_purged_def Let_def split: if_splits)
    from walk [OF this] show ?thesis by auto
  qed
qed

end
