(* ===== verification/Ingest_Drain.thy ===== *)
theory Ingest_Drain
  imports Ingest_Timeline
begin

text \<open>
  The queue of sessions, batch by batch, and whole ticks. Draining the queue ends, and after every
  tick the timeline of every session is the specification applied to all of its stored events.
\<close>

section \<open>Logs in order\<close>

lemma sorted_split:
  fixes f :: "'a \<Rightarrow> int"
  assumes "sorted_wrt (<) (map f xs)"
  shows "filter (\<lambda>x. f x \<le> c) xs @ filter (\<lambda>x. c < f x) xs = xs"
  using assms
proof (induction xs)
  case (Cons x xs)
  show ?case
  proof (cases "f x \<le> c")
    case False
    then have "filter (\<lambda>x. f x \<le> c) (x # xs) = []" using Cons.prems by (auto simp: filter_empty_conv)
    moreover have "filter (\<lambda>x. c < f x) (x # xs) = x # xs"
      using False Cons.prems by (auto simp: filter_id_conv)
    ultimately show ?thesis by simp
  qed (use Cons in auto)
qed simp

lemma filter_next:
  fixes f :: "'a \<Rightarrow> int"
  assumes "sorted_wrt (<) (map f l)" "filter (\<lambda>x. c < f x) l = xs @ ys" "xs \<noteq> []"
  shows "filter (\<lambda>x. f x \<le> f (last xs)) l = filter (\<lambda>x. f x \<le> c) l @ xs"
proof -
  let ?lo = "filter (\<lambda>x. f x \<le> c) l" and ?m = "f (last xs)"
  have l: "l = ?lo @ xs @ ys" using sorted_split [OF assms(1), of c] assms(2) by simp
  then have "sorted_wrt (<) (map f (?lo @ xs @ ys))" using assms(1) by simp
  then have s: "sorted_wrt (<) (map f xs)" "\<forall>a \<in> set xs. \<forall>b \<in> set ys. f a < f b"
    by (auto simp: sorted_wrt_append)
  obtain zs z where z: "xs = zs @ [z]" using assms(3) by (metis rev_exhaust)
  have "\<forall>x \<in> set xs. f x \<le> ?m" using s(1) z by (auto simp: sorted_wrt_append)
  moreover have "\<forall>y \<in> set ys. \<not> f y \<le> ?m" using s(2) z by auto
  moreover have "z \<in> set (filter (\<lambda>x. c < f x) l)" using assms(2) z by simp
  then have "\<forall>x \<in> set ?lo. f x \<le> ?m" using z by auto
  ultimately have "filter (\<lambda>x. f x \<le> ?m) ?lo = ?lo" "filter (\<lambda>x. f x \<le> ?m) xs = xs" "filter (\<lambda>x. f x \<le> ?m) ys = []"
    by (intro filter_True filter_False; blast)+
  then have "filter (\<lambda>x. f x \<le> ?m) (?lo @ xs @ ys) = ?lo @ xs" by (simp only: filter_append append_Nil2)
  then show ?thesis using l by metis
qed

lemma stored_sorted: "log_ok s db \<Longrightarrow> sorted_wrt (<) (map se_byte_offset (stored_events env s db))"
  by (simp add: log_ok_def btm_ok_def)

lemma pending_sorted:
  assumes "sorted_wrt (<) (map se_byte_offset es)"
  shows "pending es c = filter (\<lambda>e. c < se_byte_offset e) es"
proof -
  have "sorted (map se_byte_offset es)" using assms by (simp add: strict_sorted_iff)
  then have "sorted (map se_byte_offset (filter (\<lambda>e. c < se_byte_offset e) es))"
    by (rule sorted_filter)
  then show ?thesis unfolding pending_def by (rule sort_key_id_if_sorted)
qed

section \<open>One batch\<close>

definition backlog :: "ingest_env \<Rightarrow> session \<Rightarrow> ingest_db \<Rightarrow> stored_event list" where
  "backlog env s db = pending (stored_events env s db) (cursor (clear_stale (projection_of s db)))"

lemma backlog_cong:
  "ig_events db' s = ig_events db s \<Longrightarrow> ig_blocks db' s = ig_blocks db s \<Longrightarrow> ig_timeline db' s = ig_timeline db s
    \<Longrightarrow> backlog env s db' = backlog env s db"
  using stored_events_cong [of db' s db env] projection_of_cong [of db' s db] by (simp add: backlog_def)

text \<open>Cleared or not, the rows are those of the events the cursor is past.\<close>

lemma reads_log_cleared:
  assumes "reads_log benv env s db" "log_ok s db"
  shows "\<exists>links. timeline_of (clear_stale (projection_of s db)) = add_links links
    (spec_of benv s (log_upto env s db (cursor (clear_stale (projection_of s db)))) (timeline_of fresh_projection))"
proof (cases "pj_version (projection_of s db) = REDUCER_VERSION")
  case True
  then show ?thesis using assms(1) by (simp add: reads_log_def)
next
  case False
  let ?pj = "projection_of s db"
  have c: "cursor (clear_stale ?pj) = -1" using False by (simp add: clear_stale_def default_state_def)
  have "se_byte_offset e \<ge> 0" if "e \<in> set (stored_events env s db)" for e
    using that assms(2) by (auto simp: stored_events_def log_ok_def)
  then have "log_upto env s db (-1) = []" by (force simp: log_upto_def filter_empty_conv)
  moreover have "timeline_of (clear_stale ?pj) = add_links (tb_links (pj_tables ?pj)) (timeline_of fresh_projection)"
    using False by (simp add: clear_stale_def timeline_of_def add_links_def fresh_projection_def empty_tables_def)
  ultimately show ?thesis unfolding c by (auto simp: sp_applies_def)
qed

lemma project_one_batch_ok:
  assumes ok: "db_ok benv env db" and live: "\<not> session_is_purged s db"
    and run: "project_one_batch env benv s (q, db) = (q', db')"
  shows "db_ok benv env db' \<and> (\<exists>pj. db' = db\<lparr>ig_timeline := (ig_timeline db)(s \<mapsto> pj)\<rparr>)
    \<and> backlog env s db' = drop BATCH_EVENTS (backlog env s db)
    \<and> q' = (if BATCH_EVENTS \<le> length (backlog env s db) then queue_push s q else q)"
proof -
  let ?pj = "projection_of s db" and ?stored = "stored_events env s db" and ?e = "batch_env_for benv s db"
  define todo where "todo = backlog env s db"
  have s: "log_ok s db" "reads_log benv env s db" using ok by (simp_all add: db_ok_def)
  have e: "\<not> bt_purged ?e" "bt_reduce ?e = bt_reduce (benv s)" "bt_session ?e = s" "bt_child_of ?e = bt_child_of (benv s)"
    using live by (simp_all add: batch_env_for_def)
  have sorted: "sorted_wrt (<) (map se_byte_offset ?stored)" by (rule stored_sorted [OF s(1)])
  then have dist: "distinct (map se_byte_offset ?stored)" by (simp add: strict_sorted_iff)
  have "min 5000 (max 1 BATCH_EVENTS) = BATCH_EVENTS" by (simp add: BATCH_EVENTS_def)
  then obtain pj' where p: "project_batch ?e ?stored BATCH_EVENTS ?pj =
        Inr (pj', min (length todo) BATCH_EVENTS, BATCH_EVENTS \<le> min (length todo) BATCH_EVENTS)"
      "timeline_of pj' = spec_of benv s (take BATCH_EVENTS todo) (timeline_of (clear_stale ?pj))" "pj_ok pj'"
      "pj_version pj' = REDUCER_VERSION" "pending ?stored (cursor pj') = drop BATCH_EVENTS todo"
    using project_batch_refines [OF _ e(1) dist, of ?pj todo BATCH_EVENTS BATCH_EVENTS] s(2) e
    by (auto simp: reads_log_def todo_def backlog_def)
  have db': "db' = db\<lparr>ig_timeline := (ig_timeline db)(s \<mapsto> pj')\<rparr>"
      "q' = (if BATCH_EVENTS \<le> length todo then queue_push s q else q)"
    using run p(1) live by (auto simp: project_one_batch_def split: if_splits)
  have proj: "projection_of s db' = pj'" by (simp add: db' projection_of_def)
  have stored: "stored_events env t db' = stored_events env t db" for t
    by (rule stored_events_cong) (simp_all add: db')
  obtain links where links: "timeline_of (clear_stale ?pj) = add_links links
      (spec_of benv s (log_upto env s db (cursor (clear_stale ?pj))) (timeline_of fresh_projection))"
    using reads_log_cleared [OF s(2,1)] by blast
  define es where "es = take BATCH_EVENTS todo"
  have todo: "filter (\<lambda>e. cursor (clear_stale ?pj) < se_byte_offset e) ?stored = es @ drop BATCH_EVENTS todo"
    unfolding es_def append_take_drop_id by (simp add: todo_def backlog_def pending_sorted [OF sorted])
  have "ordered_after (cursor (clear_stale ?pj)) todo"
    unfolding todo_def backlog_def by (rule pending_ordered [OF dist])
  then have "ordered_after (cursor (clear_stale ?pj)) es"
    unfolding es_def by (metis sorted_wrt_take take_Suc_Cons take_map)
  then have cur: "cursor pj' = (if es = [] then cursor (clear_stale ?pj) else se_byte_offset (last es))"
    using cursor_after [of "clear_stale ?pj" pj' ?e es] pj_ok_clear_stale [of ?pj] s(2) p(2) e
    by (simp add: reads_log_def es_def)
  have "log_upto env s db' (cursor pj') = log_upto env s db (cursor (clear_stale ?pj)) @ es"
    using filter_next [OF sorted todo] by (cases "es = []") (simp_all add: cur log_upto_def stored)
  then have "reads_log benv env s db'"
    using p(3) links unfolding reads_log_def proj
    by (auto simp: p(2) es_def [symmetric] sp_applies_links) (auto simp: sp_applies_def)
  moreover have "reads_log benv env t db'" if "t \<noteq> s" for t
    using ok that reads_log_cong [of db' t db env benv] stored [of t] by (simp add: db_ok_def log_upto_def) (simp add: db')
  ultimately have "db_ok benv env db'"
    using ok committed_offset_cong [of db' db] log_ok_cong [of db' _ db] unfolding db_ok_def
    by (metis db'(1) ingest_db.select_convs ingest_db.surjective ingest_db.update_convs(5))
  moreover have "backlog env s db' = drop BATCH_EVENTS todo"
    using p(4,5) by (simp add: backlog_def proj stored)
  ultimately show ?thesis using db' by (auto simp: todo_def)
qed

section \<open>The queue\<close>

text \<open>What a loop over a queue of tasks relies on: first in, first out, and no task twice.\<close>

locale task_queue =
  fixes push :: "'a \<Rightarrow> 'q \<Rightarrow> 'q" and pop :: "'q \<Rightarrow> ('a \<times> 'q) option" and tasks :: "'q \<Rightarrow> 'a list"
    and sound :: "'q \<Rightarrow> bool"
  assumes pop_None: "sound q \<Longrightarrow> pop q = None \<longleftrightarrow> tasks q = []"
    and pop_Some: "sound q \<Longrightarrow> pop q = Some (x, q') \<Longrightarrow> sound q' \<and> tasks q = x # tasks q' \<and> x \<notin> set (tasks q')"
    and push: "sound q \<Longrightarrow> sound (push x q)
      \<and> tasks (push x q) = (if x \<in> set (tasks q) then tasks q else tasks q @ [x])"
begin

text \<open>
  Serving the queue round robin ends when a task is put back only after some of its work was done,
  and what every step keeps holds at the end, with an empty queue.
\<close>

lemma round_robin:
  fixes left :: "'a \<Rightarrow> 's \<Rightarrow> nat"
  assumes loop: "\<And>st. drain st = (case pop (fst st) of None \<Rightarrow> Some (snd st) | Some (x, q) \<Rightarrow> drain (step x (q, snd st)))"
    and step: "\<And>x q q' s q'' s''. sound q \<Longrightarrow> P q s \<Longrightarrow> pop q = Some (x, q') \<Longrightarrow> step x (q', s) = (q'', s'') \<Longrightarrow>
      P q'' s'' \<and> (q'' = q' \<or> q'' = push x q' \<and> left x s'' < left x s) \<and> (\<forall>y. y \<noteq> x \<longrightarrow> left y s'' = left y s)"
    and "sound q" "P q s"
  shows "\<exists>q' s'. drain (q, s) = Some s' \<and> sound q' \<and> tasks q' = [] \<and> P q' s'"
  using assms(3,4)
proof (induction "\<Sum>x\<leftarrow>tasks q. Suc (left x s)" arbitrary: q s rule: less_induct)
  case less
  show ?case
  proof (cases "pop q")
    case None
    then have "drain (q, s) = Some s" by (simp add: loop [of "(q, s)"])
    then show ?thesis using None less.prems pop_None by blast
  next
    case (Some r)
    then obtain x q' where r: "pop q = Some (x, q')" by (cases r) auto
    obtain q'' s'' where st: "step x (q', s) = (q'', s'')" by fastforce
    have q': "sound q'" "tasks q = x # tasks q'" "x \<notin> set (tasks q')" using pop_Some [OF less.prems(1) r] by auto
    have k: "P q'' s''" "q'' = q' \<or> q'' = push x q' \<and> left x s'' < left x s" "\<forall>y. y \<noteq> x \<longrightarrow> left y s'' = left y s"
      using step [OF less.prems r st] by auto
    have "(\<Sum>y\<leftarrow>tasks q'. Suc (left y s'')) = (\<Sum>y\<leftarrow>tasks q'. Suc (left y s))"
      using k(3) q'(3) by (intro arg_cong [where f = sum_list] map_cong) auto
    then have "(\<Sum>y\<leftarrow>tasks q''. Suc (left y s'')) < (\<Sum>y\<leftarrow>tasks q. Suc (left y s))"
      using k(2) push [OF q'(1), of x] q'(2,3) by auto
    moreover have "sound q''" using k(2) push [OF q'(1), of x] q'(1) by auto
    moreover have "drain (q, s) = drain (q'', s'')" using r st by (simp add: loop [of "(q, s)"])
    ultimately show ?thesis using less.hyps [of s'' q''] k(1) by simp
  qed
qed

end

definition queue_ok :: "projection_queue \<Rightarrow> bool" where
  "queue_ok q \<longleftrightarrow> distinct (pq_order q) \<and> pq_queued q = set (pq_order q)"

interpretation pq: task_queue queue_push queue_pop pq_order queue_ok
  by unfold_locales (auto simp: queue_ok_def queue_push_def queue_pop_def split: list.splits)

lemma queue_push_tasks [simp]: "queue_ok q \<Longrightarrow> set (pq_order (queue_push s q)) = insert s (set (pq_order q))"
  using pq.push [of q s] by auto

lemma queue_push_ok [simp]: "queue_ok q \<Longrightarrow> queue_ok (queue_push s q)"
  using pq.push [of q s] by blast

section \<open>Draining\<close>

text \<open>Nothing but timelines differs, and every live session that is not queued is up to date.\<close>

definition drained :: "(session \<Rightarrow> batch_env) \<Rightarrow> ingest_env \<Rightarrow> ingest_db \<Rightarrow> projection_queue \<Rightarrow> ingest_db \<Rightarrow> bool" where
  "drained benv env db0 q db \<longleftrightarrow> db_ok benv env db \<and> (\<exists>tl. db = db0\<lparr>ig_timeline := tl\<rparr>)
     \<and> (\<forall>t. \<not> session_is_purged t db \<and> t \<notin> set (pq_order q) \<longrightarrow> backlog env t db = [])"

lemma drained_step:
  assumes "drained benv env db0 q db" "queue_ok q" "queue_pop q = Some (s, q')"
    and run: "project_one_batch env benv s (q', db) = (q'', db'')"
  shows "drained benv env db0 q'' db'' \<and> (q'' = q' \<or> q'' = queue_push s q' \<and> length (backlog env s db'') < length (backlog env s db))
    \<and> (\<forall>t. t \<noteq> s \<longrightarrow> length (backlog env t db'') = length (backlog env t db))"
proof -
  have q: "queue_ok q'" "pq_order q = s # pq_order q'" using pq.pop_Some [OF assms(2,3)] by auto
  show ?thesis
  proof (cases "session_is_purged s db")
    case True
    then have "q'' = q'" "db'' = db"
      using run by (auto simp: project_one_batch_def project_batch_def batch_env_for_def)
    then show ?thesis using assms(1) True q by (auto simp: drained_def)
  next
    case False
    note batch = project_one_batch_ok [OF _ False run]
    have ok: "db_ok benv env db" using assms(1) by (simp add: drained_def)
    obtain pj where pj: "db'' = db\<lparr>ig_timeline := (ig_timeline db)(s \<mapsto> pj)\<rparr>" using batch [OF ok] by blast
    have other: "backlog env t db'' = backlog env t db" if "t \<noteq> s" for t
      using that by (intro backlog_cong) (simp_all add: pj)
    have purged: "session_is_purged t db'' = session_is_purged t db" for t by (simp add: pj session_is_purged_def)
    have b: "backlog env s db'' = drop BATCH_EVENTS (backlog env s db)"
        "q'' = (if BATCH_EVENTS \<le> length (backlog env s db) then queue_push s q' else q')" "db_ok benv env db''"
      using batch [OF ok] by auto
    have "0 < BATCH_EVENTS" by (simp add: BATCH_EVENTS_def)
    then have "q'' = q' \<and> backlog env s db'' = [] \<or> q'' = queue_push s q' \<and> length (backlog env s db'') < length (backlog env s db)"
      using b by auto
    moreover have "\<exists>tl. db'' = db0\<lparr>ig_timeline := tl\<rparr>" using assms(1) pj by (auto simp: drained_def)
    moreover have "backlog env t db'' = []" if "\<not> session_is_purged t db''" "t \<notin> set (pq_order q'')" for t
      using assms(1) that other [of t] purged [of t] calculation(1) q by (cases "t = s") (auto simp: drained_def)
    ultimately show ?thesis using b(3) other by (auto simp: drained_def)
  qed
qed

lemma drain_ends:
  assumes "queue_ok q" "drained benv env db0 q db"
  shows "\<exists>q' db'. drain_queue env benv (q, db) = Some db' \<and> queue_ok q' \<and> pq_order q' = [] \<and> drained benv env db0 q' db'"
  by (rule pq.round_robin [where step = "project_one_batch env benv" and left = "\<lambda>s db. length (backlog env s db)"])
    (use assms drained_step in \<open>auto simp: drain_queue.simps [of env benv] split: option.split\<close>)

section \<open>Ticks\<close>

definition serving :: "(session \<Rightarrow> batch_env) \<Rightarrow> ingest_env \<Rightarrow> tick_state \<Rightarrow> bool" where
  "serving benv env t \<longleftrightarrow> db_ok benv env (tk_db t) \<and> queue_ok (tk_queue t) \<and> tk_panic t = None
     \<and> (\<forall>s. \<not> session_is_purged s (tk_db t) \<and> s \<notin> set (pq_order (tk_queue t)) \<longrightarrow> backlog env s (tk_db t) = [])"

lemma serving_file:
  assumes "serving benv env t" "lib_ok (ie_lib env)" "0 \<le> tf_committed_offset file"
  shows "serving benv env (tick_file env root src file t)"
proof -
  obtain out db' where run: "process_file env (rt_spent root (tf_path file)) (rt_disk root (tf_path file)) file src (tk_db t)
      = (out, db')" by fastforce
  have ok: "db_ok benv env db'" "\<And>e. out \<noteq> Inl (FilePanic e)"
      "passed (tf_session file) (case out of Inr r \<Rightarrow> fr_events_inserted r | Inl _ \<Rightarrow> 0) (tk_db t) db'"
    using process_file_ok [OF _ assms(2,3) run] assms(1) by (auto simp: serving_def)
  have purged: "session_is_purged s db' = session_is_purged s (tk_db t)" for s
    using process_file_purged [of s env "rt_spent root (tf_path file)" "rt_disk root (tf_path file)" "file" src "tk_db t"]
    by (simp add: run)
  have idle: "backlog env s db' = backlog env s (tk_db t)"
    if "s \<noteq> tf_session file \<or> (case out of Inr r \<Rightarrow> fr_events_inserted r | Inl _ \<Rightarrow> 0) = 0" for s
    using ok(3) that by (intro backlog_cong) (auto simp: passed_def)
  show ?thesis
    using assms(1) ok(1,2) purged idle run
    by (auto simp: serving_def tick_file_def Let_def split: sum.split file_error.split)
qed

lemma serving_root:
  assumes "serving benv env t" "lib_ok (ie_lib env)"
  shows "serving benv env (tick_root env uuid_v5 root src t)"
proof -
  have "serving benv env (fold (tick_file env root src) fs t)" if "\<forall>f \<in> set fs. 0 \<le> tf_committed_offset f" for fs
    using assms(1) that
  proof (induction fs arbitrary: t)
    case (Cons f fs)
    then show ?case using serving_file [OF _ assms(2), of benv t f root src] by simp
  qed simp
  moreover have "0 \<le> tf_committed_offset f" if "f \<in> set (dirty_transcript_files env uuid_v5 src found (tk_db t))" for f found
    using that assms(1)
    by (auto simp: dirty_transcript_files_def discovered_transcript_file_def map_filter_def serving_def db_ok_def Let_def
        split: option.splits)
  ultimately show ?thesis using assms(1) by (simp add: tick_root_def)
qed

lemma serving_ingest:
  assumes "serving benv env t" "lib_ok (ie_lib env)"
  shows "serving benv env (ingest_pass env uuid_v5 claude codex t)"
proof -
  have "serving benv env (t\<lparr>tk_inserted := 0, tk_parse_errors := 0, tk_backlogged := False\<rparr>)"
    using assms(1) by (simp add: serving_def)
  from serving_root [OF serving_root [OF this assms(2)] assms(2)] serving_root [OF this assms(2)]
  show ?thesis by (simp add: ingest_pass_def Let_def split: option.split)
qed

lemma recover_grows:
  assumes "queue_ok q"
  shows "queue_ok (recover_projections db q) \<and> set (pq_order q) \<subseteq> set (pq_order (recover_projections db q))"
proof -
  have "queue_ok (fold queue_push xs q) \<and> set (pq_order q) \<subseteq> set (pq_order (fold queue_push xs q))" for xs
    using assms
  proof (induction xs arbitrary: q)
    case (Cons x xs)
    then show ?case using Cons.IH [of "queue_push x q"] by auto
  qed simp
  then show ?thesis by (simp add: recover_projections_def)
qed

lemma tick_file_purged: "session_is_purged s (tk_db (tick_file env root src f t)) = session_is_purged s (tk_db t)"
proof -
  obtain out db where r: "process_file env (rt_spent root (tf_path f)) (rt_disk root (tf_path f)) f src (tk_db t) = (out, db)"
    by fastforce
  then have "session_is_purged s db = session_is_purged s (tk_db t)" by (metis process_file_purged snd_conv)
  then show ?thesis by (simp add: tick_file_def r Let_def split: sum.split file_error.split)
qed

lemma tick_root_purged: "session_is_purged s (tk_db (tick_root env uuid_v5 root src t)) = session_is_purged s (tk_db t)"
proof -
  have "session_is_purged s (tk_db (fold (tick_file env root src) fs t)) = session_is_purged s (tk_db t)" for fs
    by (induction fs arbitrary: t) (simp_all add: tick_file_purged)
  then show ?thesis by (simp add: tick_root_def)
qed

lemma ingest_pass_purged: "session_is_purged s (tk_db (ingest_pass env uuid_v5 claude codex t)) = session_is_purged s (tk_db t)"
  by (simp add: ingest_pass_def tick_root_purged Let_def split: option.split)

text \<open>A tick returns, and leaves no live session with work.\<close>

lemma tick_ok:
  assumes "serving benv env t" "lib_ok (ie_lib env)"
  shows "\<exists>t'. tick env benv uuid_v5 claude codex t = Some t' \<and> serving benv env t' \<and> pq_order (tk_queue t') = []
    \<and> ig_events (tk_db t') = ig_events (tk_db (ingest_pass env uuid_v5 claude codex t))
    \<and> (\<forall>s. session_is_purged s (tk_db t') = session_is_purged s (tk_db t))"
proof -
  define u where "u = ingest_pass env uuid_v5 claude codex t"
  define q where "q = (if tk_recovered u then tk_queue u else recover_projections (tk_db u) (tk_queue u))"
  have u: "serving benv env u" unfolding u_def by (rule serving_ingest [OF assms])
  then have q: "queue_ok q" "set (pq_order (tk_queue u)) \<subseteq> set (pq_order q)"
    using recover_grows [of "tk_queue u" "tk_db u"] by (auto simp: serving_def q_def)
  have "tk_db u = (tk_db u)\<lparr>ig_timeline := ig_timeline (tk_db u)\<rparr>" by simp
  then have "drained benv env (tk_db u) q (tk_db u)"
    using u q(2) unfolding drained_def serving_def by blast
  then obtain q' db' where d: "drain_queue env benv (q, tk_db u) = Some db'" "queue_ok q'" "pq_order q' = []"
      "drained benv env (tk_db u) q' db'"
    using drain_ends [OF q(1)] by blast
  have "tick env benv uuid_v5 claude codex t = Some (u\<lparr>tk_db := db', tk_queue := empty_queue, tk_recovered := True\<rparr>)"
    using u d(1) by (simp add: tick_def u_def [symmetric] q_def [symmetric] serving_def Let_def)
  moreover have "serving benv env (u\<lparr>tk_db := db', tk_queue := empty_queue, tk_recovered := True\<rparr>)"
    using u d(3,4) by (auto simp: serving_def drained_def queue_ok_def empty_queue_def)
  moreover have "ig_events db' = ig_events (tk_db u)" "session_is_purged s db' = session_is_purged s (tk_db u)" for s
    using d(4) by (auto simp: drained_def session_is_purged_def)
  moreover have "session_is_purged s (tk_db u) = session_is_purged s (tk_db t)" for s
    by (simp add: u_def ingest_pass_purged)
  ultimately show ?thesis by (simp add: empty_queue_def u_def)
qed

section \<open>The ingester over time\<close>

text \<open>
  The ingester starts with no events, ticks over whatever it finds under the transcript roots, and may
  be restarted between ticks; other work touches neither events, blocks, offsets nor timelines, and may
  purge sessions. How blocks are read back does not change.
\<close>

definition same_reading :: "ingest_env \<Rightarrow> ingest_env \<Rightarrow> bool" where
  "same_reading env env' \<longleftrightarrow> ie_classify env' = ie_classify env \<and> ie_jsonb_text env' = ie_jsonb_text env"

inductive ingester_run :: "(session \<Rightarrow> batch_env) \<Rightarrow> ingest_env \<Rightarrow> tick_state \<Rightarrow> bool" for benv env where
  started: "ingester_run benv env t"
    if "\<And>s. ig_events (tk_db t) s = []" "\<And>s. ig_timeline (tk_db t) s = None" "ig_states (tk_db t) = []"
      "tk_queue t = empty_queue" "tk_panic t = None"
| ticked: "ingester_run benv env t'"
    if "ingester_run benv env t" "same_reading env env'" "lib_ok (ie_lib env')"
      "tick env' benv uuid_v5 claude codex t = Some t'"
| restarted: "ingester_run benv env (t\<lparr>tk_queue := empty_queue, tk_recovered := False\<rparr>)"
    if "ingester_run benv env t"
| elsewhere: "ingester_run benv env (t\<lparr>tk_db := db'\<rparr>)"
    if "ingester_run benv env t" "ig_events db' = ig_events (tk_db t)" "ig_blocks db' = ig_blocks (tk_db t)"
      "ig_timeline db' = ig_timeline (tk_db t)" "ig_states db' = ig_states (tk_db t)"
      "\<And>s. session_is_purged s (tk_db t) \<Longrightarrow> session_is_purged s db'"

lemma same_reading_events: "same_reading env env' \<Longrightarrow> stored_events env' s db = stored_events env s db"
  by (simp add: same_reading_def stored_events_def stored_event_of_def load_event_blocks_def cong: option.case_cong json.case_cong)

lemma same_reading_serving: "same_reading env env' \<Longrightarrow> serving benv env' t = serving benv env t"
  by (simp add: serving_def db_ok_def reads_log_def log_upto_def backlog_def same_reading_events)

lemma fresh_db_ok:
  assumes "\<And>s. ig_events db s = []" "\<And>s. ig_timeline db s = None" "ig_states db = []"
  shows "db_ok benv env db \<and> backlog env s db = []"
  using assms empty_timeline_ok [of "{}" 0 0]
  by (simp add: db_ok_def log_ok_def reads_log_def projection_of_def committed_offset_def new_state_row_def backlog_def
      stored_events_def pending_def REDUCER_VERSION_def empty_tables_def)

lemma run_serving: "ingester_run benv env t \<Longrightarrow> serving benv env t \<and> pq_order (tk_queue t) = []"
proof (induction rule: ingester_run.induct)
  case (started t)
  then show ?case
    using fresh_db_ok [of "tk_db t" benv env] by (auto simp: serving_def queue_ok_def empty_queue_def)
next
  case (ticked t env' uuid_v5 claude codex t')
  then show ?case
    using tick_ok [of benv env' t uuid_v5 claude codex] same_reading_serving [of env env' benv] by auto
next
  case (restarted t)
  then show ?case by (simp add: serving_def empty_queue_def queue_ok_def)
next
  case (elsewhere t db')
  then show ?case
    using db_ok_quiet [of benv env "tk_db t" db'] committed_offset_cong [of db' "tk_db t"] backlog_cong [of db' _ "tk_db t" env]
    by (auto simp: serving_def db_ok_def) blast
qed

end
