(* ===== verification/Ingest_Props.thy ===== *)
theory Ingest_Props
  imports Ingest_Run
begin

text \<open>
  What the ingester keeps true of a Claude transcript, whatever the passes, restarts and other work
  on the database: \<open>transcript_run\<close> is the file and the database over time.
\<close>

section \<open>The file, the passes and the database\<close>

text \<open>
  The file only grows. A pass sees the content and some length the directory scan reported, so the
  file may have grown in between. A process that dies leaves the lines it admitted and no new
  offset. Anything else may happen to the database as long as it keeps the events and the offset of
  the session.
\<close>

inductive transcript_run ::
  "ingest_env \<Rightarrow> session \<Rightarrow> string option \<Rightarrow> string \<Rightarrow> ingest_db \<Rightarrow> bool" for env s sub where
  opened: "transcript_run env s sub [] db"
    if "ig_events db s = []" "committed_offset db s = 0"
| grown: "transcript_run env s sub (content @ written) db"
    if "transcript_run env s sub content db"
| passed: "transcript_run env s sub content db'"
    if "transcript_run env s sub content db" "quiet_env env' s" "ie_lib env' = ie_lib env"
      "pass_files env' s sub content disk file db"
      "process_file env' spent disk file ClaudeCode db = (r, db')"
| died: "transcript_run env s sub content (wk_db w)"
    if "transcript_run env s sub content db" "quiet_env env' s" "ie_lib env' = ie_lib env"
      "pass_files env' s sub content disk file db" "k \<le> MAX_READ_BYTES"
      "w = walk_buffer (file_walk env' s (committed_offset db s) sub spent)
        (take k (drop (nat (committed_offset db s)) content)) []
        (start_walk None (prepare_session env' file ClaudeCode db))"
| elsewhere: "transcript_run env s sub content db'"
    if "transcript_run env s sub content db" "ig_events db' s = ig_events db s"
      "committed_offset db' s = committed_offset db s"

definition settled :: "ingest_env \<Rightarrow> session \<Rightarrow> string option \<Rightarrow> string list \<Rightarrow> ingest_db \<Rightarrow> bool" where
  "settled env s sub ls db \<longleftrightarrow> (\<exists>n j. n \<le> j \<and> committed_offset db s = int (span (take n ls))
     \<and> stored_to env s sub ls j db)"

lemma stored_to_lib: "ie_lib env' = ie_lib env \<Longrightarrow> stored_to env' s sub ls j db = stored_to env s sub ls j db"
  by (simp add: stored_to_def claude_row_cong [of env' env])

lemma settled_pass:
  assumes "settled env s sub (complete_lines content) db" "quiet_env env' s" "ie_lib env' = ie_lib env"
    "pass_files env' s sub content disk file db" "process_file env' spent disk file ClaudeCode db = (r, db')"
  shows "settled env s sub (complete_lines content) db'"
proof -
  let ?ls = "complete_lines content"
  obtain n j where "n \<le> j" "committed_offset db s = int (span (take n ?ls))" "stored_to env' s sub ?ls j db"
    using assms(1) by (auto simp: settled_def stored_to_lib [OF assms(3)])
  then obtain n' j' where "committed_offset db' s = int (span (take n' ?ls))" "n' \<le> j'" "stored_to env' s sub ?ls j' db'"
    using process_file_claude [OF assms(2,4), of n j spent] assms(5) by (auto simp: pass_ok_def)
  then show ?thesis unfolding settled_def stored_to_lib [OF assms(3)] by blast
qed

lemma settled_walk:
  assumes "settled env s sub (complete_lines content) db" "quiet_env env' s" "ie_lib env' = ie_lib env"
    "k \<le> MAX_READ_BYTES"
    "w = walk_buffer (file_walk env' s (committed_offset db s) sub spent)
      (take k (drop (nat (committed_offset db s)) content)) []
      (start_walk None (prepare_session env' file ClaudeCode db))"
  shows "settled env s sub (complete_lines content) (wk_db w)"
proof -
  let ?ls = "complete_lines content" and ?db = "prepare_session env' file ClaudeCode db"
  obtain n j where nj: "n \<le> j" "committed_offset db s = int (span (take n ?ls))" "stored_to env' s sub ?ls j ?db"
    using assms(1,3) stored_to_cong [of ?db s db env' sub ?ls] by (auto simp: settled_def stored_to_lib [of env' env])
  obtain i where "stored_to env' s sub ?ls (max j (n + i)) (wk_db w)" "ig_states (wk_db w) = ig_states ?db"
    using walk_claude [OF assms(2) nj(3,1) assms(4), of spent] nj(2) assms(5) by (auto simp: Let_def)
  moreover from this(2) have "committed_offset (wk_db w) = committed_offset db"
    by (intro committed_offset_cong) simp
  ultimately show ?thesis
    using nj assms(3) unfolding settled_def
    by (metis le_max_iff_disj stored_to_lib)
qed

lemma settled_grown:
  assumes "settled env s sub (complete_lines content) db"
  shows "settled env s sub (complete_lines (content @ written)) db"
proof -
  obtain n j where nj: "n \<le> j" "committed_offset db s = int (span (take n (complete_lines content)))"
      "stored_to env s sub (complete_lines content) j db"
    using assms by (auto simp: settled_def)
  obtain ys where "complete_lines (content @ written) = complete_lines content @ ys"
    using complete_lines_append by blast
  then show ?thesis
    using nj unfolding settled_def stored_to_def by (intro exI [of _ n] exI [of _ j]) simp
qed

lemma transcript_run_settled:
  "transcript_run env s sub content db \<Longrightarrow> settled env s sub (complete_lines content) db"
proof (induction rule: transcript_run.induct)
  case (opened db)
  then show ?case by (auto simp: settled_def stored_to_def column_def intro: exI [of _ 0])
next
  case passed
  then show ?case using settled_pass by blast
next
  case elsewhere
  then show ?case by (simp add: settled_def stored_to_def)
qed (use settled_grown settled_walk in blast)+

section \<open>Passes in a row\<close>

text \<open>Passes over a file that no longer grows, each discovering the offset the last one committed.\<close>

primrec passes ::
  "ingest_env \<Rightarrow> (nat \<Rightarrow> nat \<Rightarrow> bool) \<Rightarrow> disk \<Rightarrow> transcript_file \<Rightarrow> ingest_db \<Rightarrow> nat \<Rightarrow> ingest_db" where
  "passes env spent disk file db 0 = db"
| "passes env spent disk file db (Suc k) =
     (let d = passes env spent disk file db k in
      snd (process_file env (spent k) disk (file\<lparr>tf_committed_offset := committed_offset d (tf_session file)\<rparr>)
        ClaudeCode d))"

lemma passes_purged: "session_is_purged t (passes env spent disk file db k) = session_is_purged t db"
  by (induction k) (simp_all add: Let_def)

text \<open>One pass moves on by a line at least, so as many passes as there are lines are enough.\<close>

lemma passes_reach:
  fixes content :: string
  defines "ls \<equiv> complete_lines content"
  assumes "settled env s sub ls db" "quiet_env env s" "\<not> session_is_purged s db"
    "pass_files env s sub content disk file db" "tf_file_len file = int (length content)"
  shows "\<exists>n j. min k (length ls) \<le> n \<and> n \<le> j \<and> committed_offset (passes env spent disk file db k) s = int (span (take n ls))
    \<and> stored_to env s sub ls j (passes env spent disk file db k)"
proof (induction k)
  case 0
  then show ?case using assms(2) by (auto simp: settled_def)
next
  case (Suc k)
  define d where "d = passes env spent disk file db k"
  define f where "f = file\<lparr>tf_committed_offset := committed_offset d (tf_session file)\<rparr>"
  obtain n j where nj: "min k (length ls) \<le> n" "n \<le> j" "committed_offset d s = int (span (take n ls))" "stored_to env s sub ls j d"
    using Suc unfolding d_def by blast
  have f: "pass_files env s sub content disk f d" "tf_file_len f = int (length content)" "\<not> session_is_purged s d"
    using assms(4-6) by (simp_all add: pass_files_def f_def d_def passes_purged subagent_of_def)
  obtain res d' n' j' where p: "process_file env (spent k) disk f ClaudeCode d = (Inr res, d')"
      "committed_offset d' s = int (span (take n' ls))" "n' \<le> j'" "stored_to env s sub ls j' d'" "n \<le> n'" "n < length ls \<Longrightarrow> n < n'"
    using process_file_claude [OF assms(3) f(1) nj(3) [unfolded ls_def] nj(4) [unfolded ls_def] nj(2), of "spent k"] f
    unfolding pass_ok_def ls_def by blast
  then have step: "passes env spent disk file db (Suc k) = d'" by (simp add: Let_def d_def f_def)
  have "min (Suc k) (length ls) \<le> n'" using nj(1) p(5,6) by (cases "n < length ls") auto
  then show ?case unfolding step using p(2-4) by blast
qed

section \<open>Properties\<close>

text \<open>A library that reads one record, and a session with nothing stored.\<close>

definition sample_ingest_lib :: syntax_lib where
  "sample_ingest_lib = \<lparr>js_parse = (\<lambda>_. None),
     from_str = (\<lambda>x. if x = ''{}'' then Some (JObj []) else None), to_json_string = (\<lambda>_. ''{}'')\<rparr>"

definition sample_ingest_env :: ingest_env where
  "sample_ingest_env = \<lparr>ie_lib = sample_ingest_lib, ie_parse_uuid = (\<lambda>_. None), ie_uuid_string = (\<lambda>_. ''u''),
     ie_parse_rfc3339 = (\<lambda>_. None), ie_now = 7, ie_db_ok = (\<lambda>_ _. True), ie_current_pty = (\<lambda>_. None),
     ie_sha256_hex = (\<lambda>_. []), ie_jsonb_text = (\<lambda>_. []), ie_classify = (\<lambda>b. b)\<rparr>"

definition sample_ingest_db :: ingest_db where
  "sample_ingest_db = \<lparr>ig_sessions = (\<lambda>_. None), ig_states = [], ig_events = (\<lambda>_. []), ig_blocks = (\<lambda>_. []),
     ig_timeline = (\<lambda>_. None), ig_restores = [], ig_sources = (\<lambda>_. None), ig_embeddings = {},
     ig_follow_ups = []\<rparr>"

definition sample_transcript :: string where
  "sample_transcript = ''{}'' @ newline # ''not json'' @ newline # ''{}'' @ newline # ''{''"

definition sample_disk :: disk where
  "sample_disk = \<lparr>dk_content = Some sample_transcript, dk_meta = None, dk_reads = (\<lambda>_. 1)\<rparr>"

definition sample_file :: transcript_file where
  "sample_file = \<lparr>tf_path = ''f'', tf_session = 5, tf_project_hash = None, tf_committed_offset = 0,
     tf_file_len = int (length sample_transcript), tf_subagent_parent = None\<rparr>"

lemma sample_quiet: "quiet_env sample_ingest_env s"
  by (auto simp: quiet_env_def lib_ok_def json_text_ok_def sample_ingest_env_def sample_ingest_lib_def)

lemma sample_pass_files: "pass_files sample_ingest_env 5 None sample_transcript sample_disk sample_file sample_ingest_db"
  by (simp add: pass_files_def sample_disk_def sample_file_def sample_ingest_db_def subagent_of_def committed_offset_def)

lemma sample_run: "transcript_run sample_ingest_env 5 None sample_transcript sample_ingest_db"
  using transcript_run.grown [OF transcript_run.opened, of sample_ingest_db 5 sample_ingest_env None sample_transcript]
  by (simp add: sample_ingest_db_def committed_offset_def)





end
