(* ===== verification/Ingest_System.thy ===== *)
theory Ingest_System
  imports Ingest_Drain Ingest_Props Timeline_Props
begin

text \<open>
  The ingester as a system: ticks return, and the timelines they leave are those of the stored
  transcripts.
\<close>

section \<open>A tick that stores two records\<close>

definition sample_start :: tick_state where
  "sample_start = \<lparr>tk_db = sample_ingest_db, tk_queue = empty_queue, tk_recovered = False, tk_inserted = 0,
     tk_parse_errors = 0, tk_backlogged = False, tk_inserted_total = 0, tk_parse_errors_total = 0, tk_panic = None\<rparr>"

definition sample_uuid_env :: ingest_env where
  "sample_uuid_env = sample_ingest_env\<lparr>ie_parse_uuid := (\<lambda>x. if x = ''u'' then Some 5 else None)\<rparr>"

definition sample_root :: transcript_root where
  "sample_root = \<lparr>rt_exists = True, rt_found = [(''/p/u.jsonl'', int (length sample_transcript))],
     rt_disk = (\<lambda>_. sample_disk), rt_spent = (\<lambda>_ _. False)\<rparr>"

definition sample_found :: transcript_file where
  "sample_found = sample_file\<lparr>tf_path := ''/p/u.jsonl'', tf_project_hash := Some ''p''\<rparr>"

lemma sample_dirty:
  "dirty_transcript_files sample_uuid_env (\<lambda>s _. s) ClaudeCode (rt_found sample_root) sample_ingest_db = [sample_found]"
  by code_simp

lemma sample_uuid_quiet: "quiet_env sample_uuid_env s" "lib_ok (ie_lib sample_uuid_env)"
  using sample_quiet [of s] by (simp_all add: quiet_env_def sample_uuid_env_def)

lemma sample_first_line: "claude_row sample_uuid_env None ''{}'' \<noteq> None"
  using claude_parse_runs [OF sample_uuid_quiet(2), of "JObj []"]
  by (auto simp: claude_row_def sample_uuid_env_def sample_ingest_env_def sample_ingest_lib_def ascii_whitespace_def
      MAX_READ_BYTES_def runs_iff)

lemma sample_events: "ig_events (tk_db (ingest_pass sample_uuid_env (\<lambda>s _. s) sample_root None sample_start)) 5 \<noteq> []"
proof -
  let ?ls = "complete_lines sample_transcript"
  have lines: "?ls = [''{}'', ''not json'', ''{}'']" by code_simp
  have "pass_files sample_uuid_env 5 None sample_transcript sample_disk sample_found sample_ingest_db"
    by (simp add: pass_files_def sample_found_def sample_disk_def sample_file_def sample_ingest_db_def subagent_of_def committed_offset_def)
  then have "pass_ok sample_uuid_env 5 None ?ls 0 0 (\<not> session_is_purged 5 sample_ingest_db \<and> tf_file_len sample_found = int (length sample_transcript))
      (process_file sample_uuid_env (\<lambda>_. False) sample_disk sample_found ClaudeCode sample_ingest_db)"
    by (intro process_file_claude sample_uuid_quiet)
      (simp_all add: stored_to_def sample_ingest_db_def committed_offset_def column_def)
  moreover have "\<not> session_is_purged 5 sample_ingest_db" "tf_file_len sample_found = int (length sample_transcript)"
    by (simp_all add: session_is_purged_def sample_ingest_db_def sample_file_def sample_found_def)
  ultimately obtain r db n j where r: "process_file sample_uuid_env (\<lambda>_. False) sample_disk sample_found ClaudeCode sample_ingest_db = (Inr r, db)"
      "0 < n" "n \<le> j" "stored_to sample_uuid_env 5 None ?ls j db"
    by (auto simp: pass_ok_def lines)
  have "take j ?ls = ''{}'' # take (j - 1) [''not json'', ''{}'']" using r(2,3) by (cases j) (simp_all add: lines)
  then have "rows 5 db \<noteq> []" using r(4) sample_first_line by (auto simp: stored_to_def)
  then have "ig_events db 5 \<noteq> []" by (auto simp: column_def)
  moreover have "tk_db (ingest_pass sample_uuid_env (\<lambda>s _. s) sample_root None sample_start) = db"
    using r(1) sample_dirty
    by (simp add: ingest_pass_def tick_root_def tick_file_def sample_start_def Let_def) (simp add: sample_root_def)
  ultimately show ?thesis by simp
qed

lemma sample_started: "ingester_run benv env sample_start"
  by (rule ingester_run.started) (simp_all add: sample_start_def sample_ingest_db_def)

section \<open>Properties\<close>

text \<open>
  C31: a tick of the ingester returns, whatever is found under the transcript roots: no line makes it
  panic, and projecting the queued sessions batch by batch in turn comes to an end with an empty queue.
\<close>

theorem tick_returns:
  assumes "ingester_run benv env t" "same_reading env env'" "lib_ok (ie_lib env')"
  shows "\<exists>t'. tick env' benv uuid_v5 claude codex t = Some t' \<and> tk_panic t' = None \<and> pq_order (tk_queue t') = []"
proof -
  have "serving benv env' t" using run_serving [OF assms(1)] same_reading_serving [OF assms(2)] by blast
  from tick_ok [OF this assms(3), of uuid_v5 claude codex] show ?thesis by (auto simp: serving_def)
qed

theorem tick_returns_witness:
  "\<exists>t'. tick sample_uuid_env (\<lambda>_. sample_env) (\<lambda>s _. s) sample_root None sample_start = Some t'
    \<and> tk_panic t' = None \<and> pq_order (tk_queue t') = []"
  by (rule tick_returns [OF sample_started [of _ sample_uuid_env] _ sample_uuid_quiet(2)]) (simp add: same_reading_def)

text \<open>
  C32: between ticks the timeline of every live session is the specification applied to all of its
  stored events in the order of their offsets: none is missing, none is applied twice, also when a
  rewritten transcript inserted events behind the cursor, and however the sessions took turns. Only
  links to child sessions may be left from before such a rewrite.
\<close>

theorem timelines_follow_events:
  assumes "ingester_run benv env t" "\<not> session_is_purged s (tk_db t)" "ig_events (tk_db t) s \<noteq> []"
  shows "\<exists>pj links. ig_timeline (tk_db t) s = Some pj \<and> pending (stored_events env s (tk_db t)) (cursor pj) = []
    \<and> timeline_of pj = add_links links (sp_applies (bt_reduce (benv s)) s (bt_child_of (benv s))
        (stored_events env s (tk_db t)) (timeline_of fresh_projection))"
proof -
  let ?db = "tk_db t" and ?es = "stored_events env s (tk_db t)" and ?pj = "projection_of s (tk_db t)"
  have ok: "log_ok s ?db" "reads_log benv env s ?db" "backlog env s ?db = []"
    using run_serving [OF assms(1)] assms(2) by (auto simp: serving_def db_ok_def)
  have pend: "filter (\<lambda>e. cursor (clear_stale ?pj) < se_byte_offset e) ?es = []"
    using ok(3) pending_sorted [OF stored_sorted [OF ok(1)]] by (simp add: backlog_def)
  have "?es \<noteq> []" "\<forall>e \<in> set ?es. 0 \<le> se_byte_offset e"
    using assms(3) ok(1) by (auto simp: stored_events_def log_ok_def)
  with pend have v: "pj_version ?pj = REDUCER_VERSION"
    by (cases ?es) (auto simp: clear_stale_def default_state_def split: if_splits)
  then obtain pj where pj: "ig_timeline ?db s = Some pj" "?pj = pj"
    by (cases "ig_timeline ?db s") (auto simp: projection_of_def new_state_row_def REDUCER_VERSION_def)
  have "log_upto env s ?db (cursor pj) = ?es"
    using pend v pj(2) by (auto simp: log_upto_def filter_empty_conv not_less intro!: filter_True)
  then show ?thesis using ok(2,3) v pj by (auto simp: reads_log_def backlog_def)
qed

theorem timelines_follow_events_witness:
  "\<exists>(t :: tick_state) pj links. ig_events (tk_db t) 5 \<noteq> [] \<and> ig_timeline (tk_db t) 5 = Some pj
    \<and> timeline_of pj = add_links links (sp_applies (bt_reduce sample_env) 5 (bt_child_of sample_env)
        (stored_events sample_uuid_env 5 (tk_db t)) (timeline_of fresh_projection))"
proof -
  let ?env = sample_uuid_env and ?benv = "\<lambda>_ :: session. sample_env"
  have "serving ?benv ?env sample_start" using run_serving [OF sample_started] by blast
  then obtain t where t: "tick ?env ?benv (\<lambda>s _. s) sample_root None sample_start = Some t" "ig_events (tk_db t) 5 \<noteq> []"
      "\<not> session_is_purged 5 (tk_db t)"
    using tick_ok [OF _ sample_uuid_quiet(2), of ?benv sample_start "\<lambda>s _. s" sample_root None] sample_events
    by (auto simp: sample_start_def sample_ingest_db_def session_is_purged_def)
  have "ingester_run ?benv ?env t"
    by (rule ingester_run.ticked [OF sample_started _ sample_uuid_quiet(2) t(1)]) (simp add: same_reading_def)
  then show ?thesis using timelines_follow_events [of ?benv ?env t 5] t(2,3) by blast
qed

end
