(* ===== verification/Usage.thy ===== *)
theory Usage
  imports Ingest_Events
begin

text \<open>
  Usage accounting (\<^verbatim>\<open>ingest/usage.rs\<close>, \<^verbatim>\<open>ingest/usage/\<close>): what an event says about tokens, the
  rows of one session that the ingester keeps up to date event by event, and the rebuild of a Codex
  session from its stored events. The tables are those of one session: every statement names it.
  A token column is a \<^verbatim>\<open>BIGINT\<close> that must not be negative; a statement that breaks this fails, and
  with it the insertion of the event. The running sums of a replay are unbounded and checked when they
  are stored.
\<close>

section \<open>Numbers\<close>

definition i64_max :: int where
  "i64_max = 2 ^ 63 - 1"

definition clamp_i64 :: "int \<Rightarrow> int" where
  "clamp_i64 n = max (- (2 ^ 63)) (min n i64_max)"

definition saturating_add :: "int \<Rightarrow> int \<Rightarrow> int" where
  "saturating_add a b = clamp_i64 (a + b)"

definition saturating_sub :: "int \<Rightarrow> int \<Rightarrow> int" where
  "saturating_sub a b = clamp_i64 (a - b)"

definition positive_i64_at :: "json \<Rightarrow> string list \<Rightarrow> int option" where
  "positive_i64_at value path =
     Option.bind (jpath value path) (\<lambda>current.
     Option.bind (or_else (as_i64 current) (Option.bind (as_u64 current) (\<lambda>n. if n \<le> i64_max then Some n else None))) (\<lambda>parsed.
       if 0 < parsed then Some parsed else None))"

definition token_at :: "json \<Rightarrow> string \<Rightarrow> int" where
  "token_at value key = unwrap_or (positive_i64_at value [key]) 0"

definition total_token_count :: "json \<Rightarrow> int" where
  "total_token_count value =
     unwrap_or (positive_i64_at value [''total_tokens''])
       (saturating_add (token_at value ''input_tokens'') (token_at value ''output_tokens''))"

text \<open>The day of a time, in UTC.\<close>

definition date_naive :: "time \<Rightarrow> int" where
  "date_naive t = t div 86400000000"

section \<open>What an event reports\<close>

datatype usage_mode = Cumulative | Delta

record usage_components =
  uc_input :: int
  uc_cached :: int
  uc_cache_write :: int
  uc_cache_write_1h :: int
  uc_output :: int

record usage_update =
  uu_mode :: usage_mode
  uu_message_id :: "string option"
  uu_model :: "string option"
  uu_spend :: usage_components
  uu_reasoning :: int
  uu_total :: int
  uu_context :: "int option"
  uu_window :: "int option"

definition map_components :: "(int \<Rightarrow> int) \<Rightarrow> usage_components \<Rightarrow> usage_components" where
  "map_components f a = \<lparr>uc_input = f (uc_input a), uc_cached = f (uc_cached a),
     uc_cache_write = f (uc_cache_write a), uc_cache_write_1h = f (uc_cache_write_1h a), uc_output = f (uc_output a)\<rparr>"

definition zip_components ::
  "(int \<Rightarrow> int \<Rightarrow> int) \<Rightarrow> usage_components \<Rightarrow> usage_components \<Rightarrow> usage_components" where
  "zip_components f a b = \<lparr>uc_input = f (uc_input a) (uc_input b), uc_cached = f (uc_cached a) (uc_cached b),
     uc_cache_write = f (uc_cache_write a) (uc_cache_write b),
     uc_cache_write_1h = f (uc_cache_write_1h a) (uc_cache_write_1h b), uc_output = f (uc_output a) (uc_output b)\<rparr>"

definition no_components :: usage_components where
  "no_components = \<lparr>uc_input = 0, uc_cached = 0, uc_cache_write = 0, uc_cache_write_1h = 0, uc_output = 0\<rparr>"

definition all_components :: "(int \<Rightarrow> bool) \<Rightarrow> usage_components \<Rightarrow> bool" where
  "all_components P a \<longleftrightarrow> P (uc_input a) \<and> P (uc_cached a) \<and> P (uc_cache_write a) \<and> P (uc_cache_write_1h a) \<and> P (uc_output a)"

definition extract_response :: "json \<Rightarrow> usage_update option" where
  "extract_response payload =
     Option.bind (Option.bind (jget payload ''response_id'') as_str) (\<lambda>response_id.
       if response_id = [] then None else
     Option.bind (jget payload ''usage'') (\<lambda>usage.
       if \<not> is_object usage then None
       else if \<exists>key \<in> {''input_tokens'', ''output_tokens''}.
            (case Option.bind (jget usage key) as_i64 of None \<Rightarrow> True | Some n \<Rightarrow> n < 0) then None
       else
         let cached = token_at usage ''cached_input_tokens''; writes = token_at usage ''cache_write_input_tokens''
         in Some \<lparr>uu_mode = Delta, uu_message_id = Some response_id, uu_model = path_str payload [''model''],
              uu_spend = \<lparr>uc_input = max (saturating_sub (saturating_sub (token_at usage ''input_tokens'') cached) writes) 0,
                uc_cached = cached, uc_cache_write = writes, uc_cache_write_1h = 0,
                uc_output = token_at usage ''output_tokens''\<rparr>,
              uu_reasoning = token_at usage ''reasoning_output_tokens'', uu_total = total_token_count usage,
              uu_context = None, uu_window = None\<rparr>))"

definition extract_token_count :: "json \<Rightarrow> usage_update option" where
  "extract_token_count payload =
     Option.bind (jget payload ''info'') (\<lambda>info.
     Option.bind (jget info ''total_token_usage'') (\<lambda>total.
       let last = (case jget info ''last_token_usage'' of
                     Some u \<Rightarrow> if is_object u then Some u else None | None \<Rightarrow> None);
           cached = token_at total ''cached_input_tokens'';
           writes = token_at total ''cache_write_input_tokens'';
           last_total = (case last of None \<Rightarrow> 0 | Some u \<Rightarrow> total_token_count u);
           last_reasoning = (case last of None \<Rightarrow> 0 | Some u \<Rightarrow> token_at u ''reasoning_output_tokens'')
       in Some \<lparr>uu_mode = Cumulative, uu_message_id = None, uu_model = None,
            uu_spend = \<lparr>uc_input = max (saturating_sub (saturating_sub (token_at total ''input_tokens'') cached) writes) 0,
              uc_cached = cached, uc_cache_write = writes, uc_cache_write_1h = 0,
              uc_output = token_at total ''output_tokens''\<rparr>,
            uu_reasoning = token_at total ''reasoning_output_tokens'', uu_total = total_token_count total,
            uu_context = map_option (\<lambda>_. saturating_sub last_total last_reasoning) last,
            uu_window = positive_i64_at info [''model_context_window'']\<rparr>))"

definition extract_codex_usage :: "json \<Rightarrow> usage_update option" where
  "extract_codex_usage value =
     Option.bind (jget value ''payload'') (\<lambda>payload.
       if codex_record_kind value = Some ''token_usage_record'' then extract_response payload
       else if codex_record_kind value \<noteq> Some ''event_msg'' \<or> path_str payload [''type''] \<noteq> Some ''token_count'' then None
       else extract_token_count payload)"

definition claude_usage_object :: "json \<Rightarrow> json option" where
  "claude_usage_object value =
     or_else (Option.bind (jget value ''message'') (\<lambda>m. jget m ''usage'')) (jget value ''usage'')"

definition claude_update :: "json \<Rightarrow> json \<Rightarrow> usage_update" where
  "claude_update value usage =
     (let message = jget value ''message'';
          cache_creation = token_at usage ''cache_creation_input_tokens'';
          write_5m = unwrap_or (positive_i64_at usage [''cache_creation'', ''ephemeral_5m_input_tokens'']) 0;
          write_1h = unwrap_or (positive_i64_at usage [''cache_creation'', ''ephemeral_1h_input_tokens'']) 0;
          write = max (saturating_sub cache_creation write_1h) write_5m;
          read = token_at usage ''cache_read_input_tokens'';
          input = token_at usage ''input_tokens'';
          output = token_at usage ''output_tokens'';
          total = saturating_add (saturating_add (saturating_add (saturating_add input write) write_1h) read) output
      in \<lparr>uu_mode = Delta,
           uu_message_id = Option.bind (Option.bind message (\<lambda>m. jget m ''id'')) as_str,
           uu_model = Option.bind (Option.bind message (\<lambda>m. jget m ''model'')) as_str,
           uu_spend = \<lparr>uc_input = input, uc_cached = read, uc_cache_write = write, uc_cache_write_1h = write_1h, uc_output = output\<rparr>,
           uu_reasoning = 0, uu_total = total, uu_context = Some total,
           uu_window = or_else (positive_i64_at usage [''model_context_window'']) (positive_i64_at value [''model_context_window''])\<rparr>)"

definition extract_claude_usage :: "json \<Rightarrow> usage_update option" where
  "extract_claude_usage value =
     (if path_str value [''type''] \<noteq> Some ''assistant'' then None
      else Option.bind (claude_usage_object value) (\<lambda>usage.
        if is_object usage then Some (claude_update value usage) else None))"

definition extract_usage :: "transcript_source \<Rightarrow> json \<Rightarrow> usage_update option" where
  "extract_usage source value = (case source of Codex \<Rightarrow> extract_codex_usage value | ClaudeCode \<Rightarrow> extract_claude_usage value)"

section \<open>Rows\<close>

record session_usage =
  su_agent :: string
  su_spend :: usage_components
  su_reasoning :: int
  su_total :: int
  su_context :: "int option"
  su_window :: "int option"
  su_last_byte_offset :: int
  su_observed_at :: time
  su_last_message_id :: "string option"
  su_response_records :: bool

record day_usage =
  dy_agent :: string
  dy_spend :: usage_components
  dy_reasoning :: int
  dy_total :: int

record model_day =
  md_agent :: string
  md_spend :: usage_components
  md_last_message_id :: "string option"

record usage_tables =
  ut_session :: "session_usage option"
  ut_days :: "(int, day_usage) btree_map"
  ut_models :: "(int \<times> string, model_day) btree_map"
  ut_responses :: "string set"

definition empty_usage :: usage_tables where
  "empty_usage = \<lparr>ut_session = None, ut_days = [], ut_models = [], ut_responses = {}\<rparr>"

datatype usage_error = BigintOutOfRange | CheckViolated

definition check_session :: "session_usage \<Rightarrow> usage_error + unit" where
  "check_session r =
     res_bind (guard (all_components (\<lambda>n. n \<le> i64_max) (su_spend r) \<and> su_reasoning r \<le> i64_max \<and> su_total r \<le> i64_max) BigintOutOfRange) (\<lambda>_.
       guard (all_components ((\<le>) 0) (su_spend r) \<and> 0 \<le> su_reasoning r \<and> 0 \<le> su_total r
         \<and> (case su_context r of None \<Rightarrow> True | Some n \<Rightarrow> 0 \<le> n)
         \<and> (case su_window r of None \<Rightarrow> True | Some n \<Rightarrow> 0 < n)) CheckViolated)"

definition check_components :: "usage_components \<Rightarrow> usage_error + unit" where
  "check_components c =
     res_bind (guard (all_components (\<lambda>n. n \<le> i64_max) c) BigintOutOfRange) (\<lambda>_.
       guard (all_components ((\<le>) 0) c) CheckViolated)"

section \<open>Event by event\<close>

definition daily_delta :: "usage_update \<Rightarrow> session_usage option \<Rightarrow> usage_components" where
  "daily_delta u previous =
     (if uu_mode u = Delta then
        (if uu_message_id u \<noteq> None \<and> Option.bind previous su_last_message_id = uu_message_id u then no_components
         else map_components (\<lambda>n. max n 0) (uu_spend u))
      else zip_components (\<lambda>n p. max (saturating_sub n p) 0) (uu_spend u)
        (case previous of None \<Rightarrow> no_components | Some r \<Rightarrow> su_spend r))"

definition new_session_usage :: "transcript_source \<Rightarrow> int \<Rightarrow> time \<Rightarrow> usage_update \<Rightarrow> bool \<Rightarrow> session_usage" where
  "new_session_usage source byte_offset observed_at u response_record = \<lparr>su_agent = agent_id source,
     su_spend = uu_spend u, su_reasoning = uu_reasoning u, su_total = uu_total u, su_context = uu_context u,
     su_window = uu_window u, su_last_byte_offset = byte_offset, su_observed_at = observed_at,
     su_last_message_id = uu_message_id u, su_response_records = response_record\<rparr>"

definition merged_session_usage :: "usage_update \<Rightarrow> session_usage \<Rightarrow> session_usage \<Rightarrow> session_usage" where
  "merged_session_usage u excluded r =
     (let column = (\<lambda>n old. if uu_mode u \<noteq> Delta then n
            else if uu_message_id u \<noteq> None \<and> uu_message_id u = su_last_message_id r then old else old + n)
      in excluded\<lparr>su_spend := zip_components column (su_spend excluded) (su_spend r),
           su_reasoning := column (su_reasoning excluded) (su_reasoning r),
           su_total := column (su_total excluded) (su_total r),
           su_context := or_else (su_context excluded) (su_context r),
           su_window := or_else (su_window excluded) (su_window r),
           su_last_message_id := or_else (su_last_message_id excluded) (su_last_message_id r),
           su_response_records := (su_response_records r \<or> su_response_records excluded)\<rparr>)"

definition store_usage ::
  "transcript_source \<Rightarrow> int \<Rightarrow> time \<Rightarrow> usage_update \<Rightarrow> bool \<Rightarrow> usage_tables \<Rightarrow> usage_error + usage_tables" where
  "store_usage source byte_offset observed_at u response_record t =
     (let excluded = new_session_usage source byte_offset observed_at u response_record in
      res_bind (check_session excluded) (\<lambda>_.
        case ut_session t of
          None \<Rightarrow> Inr (t\<lparr>ut_session := Some excluded\<rparr>)
        | Some r \<Rightarrow>
            if su_last_byte_offset r < byte_offset then
              (let row = merged_session_usage u excluded r in
               res_bind (check_session row) (\<lambda>_. Inr (t\<lparr>ut_session := Some row\<rparr>)))
            else Inr t))"

definition add_model_daily ::
  "string \<Rightarrow> string \<Rightarrow> time \<Rightarrow> usage_components \<Rightarrow> string option \<Rightarrow> usage_tables \<Rightarrow> usage_error + usage_tables" where
  "add_model_daily agent model observed_at c message_id t =
     (let key = (date_naive observed_at, model) in
      res_bind (check_components c) (\<lambda>_.
        case map_of (ut_models t) key of
          None \<Rightarrow> Inr (t\<lparr>ut_models := btm_insert key \<lparr>md_agent = agent, md_spend = c, md_last_message_id = message_id\<rparr> (ut_models t)\<rparr>)
        | Some r \<Rightarrow>
            (let sum = zip_components (+) (md_spend r) c in
             res_bind (check_components sum) (\<lambda>_.
               Inr (t\<lparr>ut_models := btm_insert key
                 \<lparr>md_agent = agent, md_spend = sum, md_last_message_id = or_else message_id (md_last_message_id r)\<rparr> (ut_models t)\<rparr>)))))"

definition day_of_session :: "session_usage \<Rightarrow> day_usage" where
  "day_of_session r = \<lparr>dy_agent = su_agent r, dy_spend = su_spend r, dy_reasoning = su_reasoning r, dy_total = su_total r\<rparr>"

definition snapshot_daily :: "time \<Rightarrow> usage_tables \<Rightarrow> usage_tables" where
  "snapshot_daily observed_at t =
     (case ut_session t of
        None \<Rightarrow> t
      | Some r \<Rightarrow> t\<lparr>ut_days := btm_insert (date_naive observed_at) (day_of_session r) (ut_days t)\<rparr>)"

definition update_context :: "int \<Rightarrow> time \<Rightarrow> usage_update \<Rightarrow> usage_tables \<Rightarrow> usage_error + usage_tables" where
  "update_context byte_offset observed_at u t =
     (case ut_session t of
        Some r \<Rightarrow>
          if su_last_byte_offset r < byte_offset then
            (let row = r\<lparr>su_context := or_else (uu_context u) (su_context r), su_window := or_else (uu_window u) (su_window r),
                   su_last_byte_offset := byte_offset, su_observed_at := observed_at\<rparr>
             in res_bind (check_session row) (\<lambda>_. Inr (snapshot_daily observed_at (t\<lparr>ut_session := Some row\<rparr>))))
          else Inr (snapshot_daily observed_at t)
      | None \<Rightarrow> Inr t)"

text \<open>Text of a member as SQL reads it (\<^verbatim>\<open>#>>\<close>): null for a null, the text of a string without its quotes.\<close>

definition text_at :: "(json \<Rightarrow> string) \<Rightarrow> json \<Rightarrow> string list \<Rightarrow> string option" where
  "text_at txt value path =
     (case jpath value path of
        None \<Rightarrow> None
      | Some v \<Rightarrow> (case v of JNull \<Rightarrow> None | JStr s \<Rightarrow> Some s | _ \<Rightarrow> Some (txt v)))"

text \<open>The model named by the last turn context up to an offset.\<close>

definition recorded_model ::
  "(json \<Rightarrow> string) \<Rightarrow> (int, event_row) btree_map \<Rightarrow> int \<Rightarrow> string option" where
  "recorded_model txt events byte_offset =
     (case filter (\<lambda>(o', r). o' \<le> byte_offset \<and> ev_kind r = ''turn_context'' \<and> ev_subtype r \<noteq> Some ''inherited_history''
         \<and> text_at txt (ev_payload r) [''payload'', ''model''] \<noteq> None) events of
        [] \<Rightarrow> None
      | rows \<Rightarrow> text_at txt (ev_payload (snd (last rows))) [''payload'', ''model''])"

definition UNKNOWN_MODEL :: string where
  "UNKNOWN_MODEL = ''(unknown model)''"

section \<open>Claude responses\<close>

definition has_usage_object :: "event_row \<Rightarrow> bool" where
  "has_usage_object r \<longleftrightarrow> (case claude_usage_object (ev_payload r) of Some u \<Rightarrow> is_object u | None \<Rightarrow> False)"

definition claude_receipt_row :: "event_row \<Rightarrow> bool" where
  "claude_receipt_row r \<longleftrightarrow> ev_agent r = ''claude-code'' \<and> ev_kind r = ''assistant'' \<and> has_usage_object r"

definition prior_receipt ::
  "(json \<Rightarrow> string) \<Rightarrow> (int, event_row) btree_map \<Rightarrow> string option \<Rightarrow> int \<Rightarrow> event_row option" where
  "prior_receipt txt events message_id byte_offset =
     (case message_id of
        None \<Rightarrow> None
      | Some i \<Rightarrow>
          (case filter (\<lambda>(o', r). claude_receipt_row r \<and> o' < byte_offset
              \<and> text_at txt (ev_payload r) [''message'', ''id''] = Some i) events of
             [] \<Rightarrow> None
           | rows \<Rightarrow> Some (snd (last rows))))"

text \<open>One receipt for each response: the last row of a message, and every row without one.\<close>

definition receipt_key :: "(json \<Rightarrow> string) \<Rightarrow> int \<times> event_row \<Rightarrow> string" where
  "receipt_key txt = (\<lambda>(byte_offset, r). unwrap_or (text_at txt (ev_payload r) [''message'', ''id'']) (show_int byte_offset))"

fun last_of_each :: "('a \<Rightarrow> 'k) \<Rightarrow> 'a list \<Rightarrow> 'a list" where
  "last_of_each f [] = []"
| "last_of_each f (x # xs) = (if f x \<in> f ` set xs then last_of_each f xs else x # last_of_each f xs)"

definition receipts :: "(json \<Rightarrow> string) \<Rightarrow> (int, event_row) btree_map \<Rightarrow> (int \<times> event_row) list" where
  "receipts txt events = last_of_each (receipt_key txt) (filter (\<lambda>(_, r). claude_receipt_row r) events)"

definition receipt_bucket :: "(json \<Rightarrow> string) \<Rightarrow> int \<times> event_row \<Rightarrow> int \<times> string" where
  "receipt_bucket txt = (\<lambda>(_, r).
     (date_naive (ev_timestamp r), unwrap_or (text_at txt (ev_payload r) [''message'', ''model'']) UNKNOWN_MODEL))"

definition claude_response_delta :: "usage_update \<Rightarrow> usage_update option \<Rightarrow> usage_update" where
  "claude_response_delta u previous =
     (case previous of
        None \<Rightarrow> u
      | Some p \<Rightarrow> u\<lparr>uu_spend := zip_components (-) (uu_spend u) (uu_spend p),
          uu_reasoning := uu_reasoning u - uu_reasoning p, uu_total := uu_total u - uu_total p\<rparr>)"

definition add_response ::
  "int \<Rightarrow> time \<Rightarrow> usage_update \<Rightarrow> usage_update \<Rightarrow> usage_tables \<Rightarrow> usage_error + usage_tables" where
  "add_response byte_offset observed_at u delta t =
     (let r = (case ut_session t of
            Some r \<Rightarrow> r
          | None \<Rightarrow> \<lparr>su_agent = ''claude-code'', su_spend = no_components, su_reasoning = 0, su_total = 0, su_context = None,
              su_window = None, su_last_byte_offset = byte_offset, su_observed_at = observed_at,
              su_last_message_id = None, su_response_records = False\<rparr>);
          row = r\<lparr>su_spend := zip_components (+) (su_spend r) (uu_spend delta),
            su_reasoning := su_reasoning r + uu_reasoning delta, su_total := su_total r + uu_total delta,
            su_context := uu_context u, su_window := or_else (uu_window u) (su_window r),
            su_last_byte_offset := byte_offset, su_observed_at := observed_at, su_last_message_id := uu_message_id u\<rparr>
      in res_bind (check_session row) (\<lambda>_. Inr (t\<lparr>ut_session := Some row\<rparr>)))"

definition remove_contribution :: "int \<Rightarrow> usage_update \<Rightarrow> usage_tables \<Rightarrow> usage_error + usage_tables" where
  "remove_contribution day p t =
     (let key = (day, unwrap_or (uu_model p) UNKNOWN_MODEL) in
      case map_of (ut_models t) key of
        None \<Rightarrow> Inr t
      | Some r \<Rightarrow>
          (let c = zip_components (-) (md_spend r) (uu_spend p) in
           res_bind (check_components c) (\<lambda>_. Inr (t\<lparr>ut_models := btm_insert key (r\<lparr>md_spend := c\<rparr>) (ut_models t)\<rparr>))))"

definition drop_empty_buckets ::
  "(json \<Rightarrow> string) \<Rightarrow> (int, event_row) btree_map \<Rightarrow> usage_tables \<Rightarrow> usage_tables" where
  "drop_empty_buckets txt events t =
     t\<lparr>ut_models := filter (\<lambda>(key, _). key \<in> receipt_bucket txt ` set (receipts txt events)) (ut_models t)\<rparr>"

text \<open>Running sums over the days of the session.\<close>

fun running_days :: "usage_components \<Rightarrow> (int \<times> usage_components) list \<Rightarrow> (int, day_usage) btree_map" where
  "running_days acc [] = []"
| "running_days acc ((day, c) # days) =
     (let sum = zip_components (+) acc c in
      (day, \<lparr>dy_agent = ''claude-code'', dy_spend = sum, dy_reasoning = 0,
        dy_total = uc_input sum + uc_cached sum + uc_cache_write sum + uc_cache_write_1h sum + uc_output sum\<rparr>)
      # running_days sum days)"

definition spend_by_day :: "(int \<times> string, model_day) btree_map \<Rightarrow> (int \<times> usage_components) list" where
  "spend_by_day models =
     map (\<lambda>day. (day, foldr (zip_components (+)) (map (md_spend \<circ> snd) (filter (\<lambda>((d, _), _). d = day) models)) no_components))
       (remdups (map (fst \<circ> fst) models))"

definition rebuild_daily_snapshots :: "usage_tables \<Rightarrow> usage_tables" where
  "rebuild_daily_snapshots t = t\<lparr>ut_days := running_days no_components (spend_by_day (ut_models t))\<rparr>"

definition apply_response ::
  "(json \<Rightarrow> string) \<Rightarrow> (int, event_row) btree_map \<Rightarrow> int \<Rightarrow> time \<Rightarrow> usage_update \<Rightarrow> usage_tables \<Rightarrow>
   usage_error + usage_tables" where
  "apply_response txt events byte_offset observed_at u t =
     (let prior = prior_receipt txt events (uu_message_id u) byte_offset;
          previous = Option.bind prior (\<lambda>r. extract_claude_usage (ev_payload r));
          replaced = (case (prior, previous) of (Some r, Some p) \<Rightarrow> Some (date_naive (ev_timestamp r), p) | _ \<Rightarrow> None)
      in res_bind (add_response byte_offset observed_at u (claude_response_delta u previous) t) (\<lambda>t.
         res_bind (case replaced of Some (day, p) \<Rightarrow> remove_contribution day p t | None \<Rightarrow> Inr t) (\<lambda>t.
         res_bind (add_model_daily ''claude-code'' (unwrap_or (uu_model u) UNKNOWN_MODEL) observed_at
             (daily_delta u None) (uu_message_id u) t) (\<lambda>t.
           let t = (case replaced of
                      Some (day, p) \<Rightarrow>
                        if day \<noteq> date_naive observed_at \<or> uu_model p \<noteq> uu_model u then drop_empty_buckets txt events t else t
                    | None \<Rightarrow> t)
           in Inr (case prior of
                     Some r \<Rightarrow> if date_naive (ev_timestamp r) \<noteq> date_naive observed_at
                       then rebuild_daily_snapshots t else snapshot_daily observed_at t
                   | None \<Rightarrow> snapshot_daily observed_at t)))))"

section \<open>The update of one event\<close>

definition claim_response :: "string \<Rightarrow> usage_tables \<Rightarrow> bool \<times> usage_tables" where
  "claim_response i t = (i \<notin> ut_responses t, t\<lparr>ut_responses := insert i (ut_responses t)\<rparr>)"

definition record_spend ::
  "(json \<Rightarrow> string) \<Rightarrow> (int, event_row) btree_map \<Rightarrow> transcript_source \<Rightarrow> int \<Rightarrow> time \<Rightarrow> usage_update \<Rightarrow> bool \<Rightarrow>
   session_usage option \<Rightarrow> usage_tables \<Rightarrow> usage_error + usage_tables" where
  "record_spend txt events source byte_offset observed_at u response_record previous t =
     (let delta = daily_delta u previous;
          recorded = (if source = Codex \<and> uu_model u = None then recorded_model txt events byte_offset else None);
          model = unwrap_or (or_else (uu_model u) recorded) UNKNOWN_MODEL
      in res_bind (store_usage source byte_offset observed_at u response_record t) (\<lambda>t.
         res_bind (add_model_daily (agent_id source) model observed_at delta (uu_message_id u) t) (\<lambda>t.
           Inr (snapshot_daily observed_at t))))"

definition upsert_from_event ::
  "(json \<Rightarrow> string) \<Rightarrow> (int, event_row) btree_map \<Rightarrow> transcript_source \<Rightarrow> int \<Rightarrow> time \<Rightarrow> json \<Rightarrow> usage_tables \<Rightarrow>
   usage_error + usage_tables" where
  "upsert_from_event txt events source byte_offset observed_at value t =
     (case extract_usage source value of
        None \<Rightarrow> Inr t
      | Some u \<Rightarrow>
          let previous = ut_session t; response_record = (source = Codex \<and> uu_mode u = Delta) in
          if (case previous of None \<Rightarrow> False | Some r \<Rightarrow> byte_offset \<le> su_last_byte_offset r) then Inr t
          else if source = ClaudeCode then apply_response txt events byte_offset observed_at u t
          else if \<not> response_record \<and> (case previous of None \<Rightarrow> False | Some r \<Rightarrow> su_response_records r)
            then update_context byte_offset observed_at u t
          else if response_record then
            (case uu_message_id u of
               None \<Rightarrow> Inr t
             | Some i \<Rightarrow>
                 let (fresh, t) = claim_response i t in
                 if fresh then record_spend txt events source byte_offset observed_at u True previous t else Inr t)
          else record_spend txt events source byte_offset observed_at u False previous t)"

section \<open>Rebuilding a Codex session\<close>

record replay_state =
  rp_model :: "string option"
  rp_total :: "usage_update option"
  rp_responses :: "string set"
  rp_days :: "(int, int \<times> time \<times> usage_update \<times> bool) btree_map"
  rp_models :: "(int \<times> string, usage_components) btree_map"

definition empty_replay :: replay_state where
  "empty_replay = \<lparr>rp_model = None, rp_total = None, rp_responses = {}, rp_days = [], rp_models = []\<rparr>"

definition accumulate :: "usage_update \<Rightarrow> usage_update \<Rightarrow> bool \<Rightarrow> usage_update" where
  "accumulate before u context_only =
     (let base = (if context_only then before
            else if uu_mode u = Cumulative then u
            else before\<lparr>uu_spend := zip_components saturating_add (uu_spend before) (uu_spend u),
                   uu_reasoning := saturating_add (uu_reasoning before) (uu_reasoning u),
                   uu_total := saturating_add (uu_total before) (uu_total u), uu_message_id := uu_message_id u\<rparr>)
      in base\<lparr>uu_context := or_else (uu_context u) (uu_context before), uu_window := or_else (uu_window u) (uu_window before)\<rparr>)"

text \<open>The stored row of a replayed total, as far as the daily difference looks at it.\<close>

definition stored_total :: "usage_update \<Rightarrow> session_usage" where
  "stored_total u = new_session_usage Codex (- 1) 0 u False"

definition observe_spend :: "time \<Rightarrow> usage_update \<Rightarrow> replay_state \<Rightarrow> replay_state" where
  "observe_spend timestamp u rp =
     (let delta = daily_delta u (map_option stored_total (rp_total rp));
          key = (date_naive timestamp, unwrap_or (or_else (uu_model u) (rp_model rp)) UNKNOWN_MODEL);
          old = unwrap_or (map_of (rp_models rp) key) no_components
      in rp\<lparr>rp_models := btm_insert key (zip_components (+) old delta) (rp_models rp)\<rparr>)"

definition observe :: "int \<Rightarrow> time \<Rightarrow> json \<Rightarrow> replay_state \<Rightarrow> replay_state" where
  "observe byte_offset timestamp payload rp =
     (if codex_record_kind payload = Some ''turn_context'' then
        (case path_str payload [''payload'', ''model''] of Some m \<Rightarrow> rp\<lparr>rp_model := Some m\<rparr> | None \<Rightarrow> rp)
      else case extract_codex_usage payload of
        None \<Rightarrow> rp
      | Some u \<Rightarrow>
          let is_response = (uu_mode u = Delta) in
          if is_response \<and> (case uu_message_id u of None \<Rightarrow> False | Some i \<Rightarrow> i \<in> rp_responses rp) then rp
          else
            let rp = (if is_response then rp\<lparr>rp_responses := rp_responses rp \<union> set_option (uu_message_id u)\<rparr> else rp);
                context_only = (\<not> is_response \<and> rp_responses rp \<noteq> {});
                rp = (if context_only then rp else observe_spend timestamp u rp);
                now = (case rp_total rp of Some before \<Rightarrow> accumulate before u context_only | None \<Rightarrow> u)
            in rp\<lparr>rp_total := Some now,
                 rp_days := btm_insert (date_naive timestamp)
                   (byte_offset, timestamp, now\<lparr>uu_mode := Cumulative\<rparr>, rp_responses rp \<noteq> {}) (rp_days rp)\<rparr>)"

text \<open>The columns the rebuild selects from an event.\<close>

definition replay_payload :: "(json \<Rightarrow> string) \<Rightarrow> event_row \<Rightarrow> json" where
  "replay_payload txt r =
     JObj [(''type'', case or_else (text_at txt (ev_payload r) [''type'']) (text_at txt (ev_payload r) [''kind'']) of
              Some k \<Rightarrow> JStr k | None \<Rightarrow> JNull),
           (''payload'',
              if ev_kind r = ''turn_context''
              then JObj [(''model'', unwrap_or (jpath (ev_payload r) [''payload'', ''model'']) JNull)]
              else unwrap_or (jget (ev_payload r) ''payload'') JNull)]"

definition replay_rows :: "(int, event_row) btree_map \<Rightarrow> (int, event_row) btree_map" where
  "replay_rows events = filter (\<lambda>(_, r). ev_subtype r \<noteq> Some ''inherited_history''
     \<and> ev_kind r \<in> {''token_count'', ''token_usage_record'', ''turn_context''}) events"

definition replay_usage :: "(json \<Rightarrow> string) \<Rightarrow> (int, event_row) btree_map \<Rightarrow> replay_state" where
  "replay_usage txt events =
     fold (\<lambda>(byte_offset, r). observe byte_offset (ev_timestamp r) (replay_payload txt r)) (replay_rows events) empty_replay"

definition persist_day ::
  "int \<times> time \<times> usage_update \<times> bool \<Rightarrow> usage_tables \<Rightarrow> usage_error + usage_tables" where
  "persist_day = (\<lambda>(byte_offset, timestamp, u, modern) t.
     res_bind (store_usage Codex byte_offset timestamp u modern t) (\<lambda>t. Inr (snapshot_daily timestamp t)))"

definition persist_replay :: "replay_state \<Rightarrow> usage_tables \<Rightarrow> usage_error + usage_tables" where
  "persist_replay rp t =
     res_bind (res_fold persist_day (sort_key fst (map snd (rp_days rp)))
         (t\<lparr>ut_session := None, ut_days := [], ut_models := []\<rparr>)) (\<lambda>t.
     res_bind (res_fold (\<lambda>((day, model), c). add_model_daily ''codex'' model (day * 86400000000) c None) (rp_models rp) t) (\<lambda>t.
       Inr (t\<lparr>ut_responses := ut_responses t \<union> rp_responses rp\<rparr>)))"

text \<open>The rebuild clears the response ids of all sessions first and replaces sessions that have response records.\<close>

definition rebuild_codex ::
  "(json \<Rightarrow> string) \<Rightarrow> (int, event_row) btree_map \<Rightarrow> usage_tables \<Rightarrow> usage_error + usage_tables" where
  "rebuild_codex txt events t =
     (let t = t\<lparr>ut_responses := {}\<rparr> in
      if \<not> list_ex (\<lambda>(_, r). ev_agent r = ''codex'' \<and> ev_kind r = ''token_usage_record'') events then Inr t
      else
        let rp = replay_usage txt events in
        if rp_responses rp = {} then Inr t else persist_replay rp t)"

end
