(* ===== verification/Usage_Codex.thy ===== *)
theory Usage_Codex
  imports Usage "HOL-Library.Multiset"
begin

text \<open>
  Usage of a Codex session: rebuilding it from the stored events gives the rows that ingesting the
  events one by one has left. \<open>agrees\<close> relates the tables and the state of the replay after the same
  events.
\<close>

section \<open>Ingesting a log\<close>

text \<open>Usage is updated when an event has been inserted and is not inherited history.\<close>

fun ingest_usage ::
  "(json \<Rightarrow> string) \<Rightarrow> transcript_source \<Rightarrow> (int \<times> event_row) list \<Rightarrow> (int \<times> event_row) list \<Rightarrow> usage_tables \<Rightarrow>
   usage_error + usage_tables" where
  "ingest_usage txt source seen [] t = Inr t"
| "ingest_usage txt source seen ((byte_offset, r) # rest) t =
     res_bind (if ev_subtype r = Some ''inherited_history'' then Inr t
         else upsert_from_event txt (seen @ [(byte_offset, r)]) source byte_offset (ev_timestamp r) (ev_payload r) t)
       (ingest_usage txt source (seen @ [(byte_offset, r)]) rest)"

text \<open>
  Records as Codex writes them: the kind of a record reads the same in the code and in SQL, and the
  model of a turn context is text.
\<close>

definition codex_record_ok :: "(json \<Rightarrow> string) \<Rightarrow> event_row \<Rightarrow> bool" where
  "codex_record_ok txt r \<longleftrightarrow> ev_agent r = ''codex'' \<and> ev_kind r = stored_event_kind Codex (ev_payload r)
     \<and> or_else (text_at txt (ev_payload r) [''type'']) (text_at txt (ev_payload r) [''kind'']) = codex_record_kind (ev_payload r)
     \<and> (ev_kind r = ''turn_context'' \<longrightarrow> codex_record_kind (ev_payload r) = Some ''turn_context''
          \<and> text_at txt (ev_payload r) [''payload'', ''model''] = path_str (ev_payload r) [''payload'', ''model''])"

definition codex_log :: "(json \<Rightarrow> string) \<Rightarrow> (int, event_row) btree_map \<Rightarrow> bool" where
  "codex_log txt events \<longleftrightarrow> btm_ok events \<and> list_all (\<lambda>(_, r). codex_record_ok txt r) events"

section \<open>Extraction\<close>

lemma or_else_simps [simp]: "or_else None b = b" "or_else (Some x) b = Some x" "or_else a None = a"
  by (simp_all add: or_else_def split: option.split)

lemma extract_response_mode:
  "extract_response p = Some u \<Longrightarrow> uu_mode u = Delta \<and> uu_message_id u \<noteq> None"
  by (auto simp: extract_response_def Let_def split: Option.bind_splits if_splits)

lemma extract_token_count_mode:
  "extract_token_count p = Some u \<Longrightarrow> uu_mode u = Cumulative \<and> uu_message_id u = None \<and> uu_model u = None"
  by (auto simp: extract_token_count_def Let_def split: Option.bind_splits)

lemma extract_codex_mode:
  assumes "extract_codex_usage v = Some u"
  shows "(uu_mode u = Delta \<and> (\<exists>i. uu_message_id u = Some i))
    \<or> (uu_mode u = Cumulative \<and> uu_message_id u = None \<and> uu_model u = None)"
  using assms extract_response_mode extract_token_count_mode
  by (fastforce simp: extract_codex_usage_def split: Option.bind_splits if_splits)

lemma extract_codex_kind:
  assumes "extract_codex_usage v = Some u"
  shows "stored_event_kind Codex v \<in> {''token_count'', ''token_usage_record''} \<and> codex_record_kind v \<noteq> Some ''turn_context''"
proof -
  obtain p where p: "jget v ''payload'' = Some p"
    and k: "codex_record_kind v = Some ''token_usage_record''
      \<or> codex_record_kind v = Some ''event_msg'' \<and> path_str p [''type''] = Some ''token_count''"
    using assms by (auto simp: extract_codex_usage_def split: Option.bind_splits if_splits)
  have "path_str v [''payload'', ''type''] = path_str p [''type'']" by (simp add: path_str_def p)
  then show ?thesis using k by (auto simp: stored_event_kind_def)
qed

lemma jget_two: "jget (JObj [(a, x), (b, y)]) k = (if k = a then Some x else if k = b then Some y else None)"
  by simp

lemma replay_payload_kind:
  assumes "codex_record_ok txt r"
  shows "codex_record_kind (replay_payload txt r) = codex_record_kind (ev_payload r)"
  using assms unfolding codex_record_ok_def replay_payload_def
  by (auto simp: codex_record_kind_def get_str_def or_else_def jget_two split: option.splits)

lemma replay_payload_extract:
  assumes "codex_record_ok txt r" "ev_kind r \<noteq> ''turn_context''"
  shows "extract_codex_usage (replay_payload txt r) = extract_codex_usage (ev_payload r)"
proof -
  have get: "jget (replay_payload txt r) ''payload'' = Some (unwrap_or (jget (ev_payload r) ''payload'') JNull)"
    using assms(2) by (simp add: replay_payload_def)
  show ?thesis
  proof (cases "jget (ev_payload r) ''payload''")
    case None
    then show ?thesis
      unfolding extract_codex_usage_def get
      by (simp add: extract_response_def path_str_def)
  next
    case (Some p)
    then show ?thesis unfolding extract_codex_usage_def get replay_payload_kind [OF assms(1)] by simp
  qed
qed

lemma replay_payload_model:
  assumes "codex_record_ok txt r" "ev_kind r = ''turn_context''"
  shows "path_str (replay_payload txt r) [''payload'', ''model''] = text_at txt (ev_payload r) [''payload'', ''model'']"
proof -
  have "path_str (replay_payload txt r) [''payload'', ''model''] = path_str (ev_payload r) [''payload'', ''model'']"
    using assms(2)
    by (cases "jget (ev_payload r) ''payload''"; cases "Option.bind (jget (ev_payload r) ''payload'') (\<lambda>p. jget p ''model'')")
      (auto simp: replay_payload_def path_str_def)
  then show ?thesis using assms by (simp add: codex_record_ok_def)
qed

section \<open>Rows\<close>

text \<open>The row the rebuild stores for a replayed total.\<close>

definition row_of :: "int \<times> time \<times> usage_update \<times> bool \<Rightarrow> session_usage" where
  "row_of = (\<lambda>(byte_offset, timestamp, u, modern). new_session_usage Codex byte_offset timestamp u modern)"

lemma row_of_parts [simp]:
  "su_agent (row_of e) = ''codex''" "su_last_byte_offset (row_of e) = fst e"
  "su_last_byte_offset (new_session_usage source k ts u m) = k"
  "row_of (k, ts, u\<lparr>uu_mode := md\<rparr>, m) = row_of (k, ts, u, m)"
  by (simp_all add: row_of_def new_session_usage_def split_beta)

text \<open>What a later row may fill in and never empties again.\<close>

definition fills :: "session_usage \<Rightarrow> session_usage \<Rightarrow> bool" where
  "fills a b \<longleftrightarrow> (su_context b = None \<longrightarrow> su_context a = None) \<and> (su_window b = None \<longrightarrow> su_window a = None)
     \<and> (su_last_message_id b = None \<longrightarrow> su_last_message_id a = None) \<and> (su_response_records a \<longrightarrow> su_response_records b)"

lemma fills_refl [simp]: "fills a a" by (simp add: fills_def)

lemma fills_trans: "fills a b \<Longrightarrow> fills b c \<Longrightarrow> fills a c" by (auto simp: fills_def)

lemma merged_cumulative:
  assumes "uu_mode u = Cumulative" "fills r ex"
  shows "merged_session_usage u ex r = ex"
proof -
  have "or_else (su_context ex) (su_context r) = su_context ex" "or_else (su_window ex) (su_window r) = su_window ex"
      "or_else (su_last_message_id ex) (su_last_message_id r) = su_last_message_id ex"
      "(su_response_records r \<or> su_response_records ex) = su_response_records ex"
    using assms(2) by (auto simp: fills_def or_else_def split: option.splits)
  moreover have "zip_components (\<lambda>n old. n) (su_spend ex) (su_spend r) = su_spend ex" by (simp add: zip_components_def)
  ultimately show ?thesis using assms(1) by (simp add: merged_session_usage_def)
qed

section \<open>Storing a replay\<close>

definition day_entry_ok :: "int \<times> time \<times> usage_update \<times> bool \<Rightarrow> bool" where
  "day_entry_ok e \<longleftrightarrow> check_session (row_of e) = Inr () \<and> uu_mode (fst (snd (snd e))) = Cumulative"

lemma persist_day_first:
  assumes "day_entry_ok e" "ut_session t = None \<or> (\<exists>r. ut_session t = Some r \<and> su_last_byte_offset r < fst e \<and> fills r (row_of e))"
  shows "persist_day e t = Inr (t\<lparr>ut_session := Some (row_of e),
    ut_days := btm_insert (date_naive (fst (snd e))) (day_of_session (row_of e)) (ut_days t)\<rparr>)"
proof -
  obtain k ts u m where e: "e = (k, ts, u, m)" by (metis prod_cases4)
  have u: "uu_mode u = Cumulative" and ok: "check_session (new_session_usage Codex k ts u m) = Inr ()"
    using assms(1) by (auto simp: e day_entry_ok_def row_of_def)
  from assms(2) show ?thesis
    using u ok merged_cumulative [OF u]
    by (auto simp: e persist_day_def store_usage_def Let_def row_of_def snapshot_daily_def)
qed

lemma persist_days:
  assumes "\<forall>e \<in> set es. day_entry_ok e" "sorted_wrt (\<lambda>a b. fst a < fst b \<and> fills (row_of a) (row_of b)) es"
    "ut_session t = None \<or> (\<exists>r. ut_session t = Some r \<and> (\<forall>e \<in> set es. su_last_byte_offset r < fst e \<and> fills r (row_of e)))"
  shows "res_fold persist_day es t = Inr (t\<lparr>ut_session := (if es = [] then ut_session t else Some (row_of (last es))),
    ut_days := fold (\<lambda>e. btm_insert (date_naive (fst (snd e))) (day_of_session (row_of e))) es (ut_days t)\<rparr>)"
  using assms
proof (induction es arbitrary: t)
  case (Cons e es)
  let ?t = "t\<lparr>ut_session := Some (row_of e), ut_days := btm_insert (date_naive (fst (snd e))) (day_of_session (row_of e)) (ut_days t)\<rparr>"
  have "persist_day e t = Inr ?t" using Cons.prems by (intro persist_day_first) auto
  moreover have "res_fold persist_day es ?t = Inr (?t\<lparr>ut_session := (if es = [] then ut_session ?t else Some (row_of (last es))),
      ut_days := fold (\<lambda>e. btm_insert (date_naive (fst (snd e))) (day_of_session (row_of e))) es (ut_days ?t)\<rparr>)"
    using Cons.prems by (intro Cons.IH) auto
  ultimately show ?case by simp
qed simp

lemma map_of_fold_insert:
  assumes "distinct (map k xs)"
  shows "map_of (fold (\<lambda>x. btm_insert (k x) (v x)) xs m) = map_of m ++ map_of (map (\<lambda>x. (k x, v x)) xs)"
  using assms
proof (induction xs arbitrary: m)
  case (Cons x xs)
  then have "map_of (map (\<lambda>x. (k x, v x)) xs) (k x) = None" by (auto simp: map_of_eq_None_iff)
  with Cons show ?case by (auto simp: fun_eq_iff map_add_def split: option.splits)
qed simp

lemma btm_ok_fold_insert: "btm_ok m \<Longrightarrow> btm_ok (fold (\<lambda>x. btm_insert (k x) (v x)) xs m)"
  by (induction xs arbitrary: m) auto

lemma fold_insert_all:
  assumes "btm_ok m" "mset xs = mset (map snd m)" "\<forall>(d, e) \<in> set m. k e = d"
  shows "fold (\<lambda>x. btm_insert (k x) (v x)) xs [] = column v m"
proof (rule btm_ext)
  have keys: "map k (map snd m) = map fst m" using assms(3) by auto
  have "mset (map k xs) = mset (map fst m)" using assms(2) keys by (metis mset_map)
  then have dist: "distinct (map k xs)" using btm_ok_distinct [OF assms(1)] by (metis mset_eq_imp_distinct_iff)
  have "set xs = set (map snd m)" using assms(2) by (metis set_mset_mset)
  then have "set (map (\<lambda>x. (k x, v x)) xs) = set (column v m)"
    using assms(3) by (force simp: column_def image_image)
  moreover have "map fst (map (\<lambda>x. (k x, v x)) xs) = map k xs" by simp
  ultimately have "map_of (map (\<lambda>x. (k x, v x)) xs) = map_of (column v m)"
    using dist btm_ok_distinct [OF assms(1)] by (subst map_of_inject_set) (auto simp: comp_def)
  then show "map_of (fold (\<lambda>x. btm_insert (k x) (v x)) xs []) = map_of (column v m)"
    by (simp add: map_of_fold_insert [OF dist])
qed (use assms(1) btm_ok_fold_insert [of "[]"] in auto)

text \<open>The model rows of a replay, written into an empty table.\<close>

lemma date_of_day [simp]: "date_naive (d * 86400000000) = d"
  by (simp add: date_naive_def)

definition model_row :: "usage_components \<Rightarrow> model_day" where
  "model_row c = \<lparr>md_agent = ''codex'', md_spend = c, md_last_message_id = None\<rparr>"

lemma persist_models:
  assumes "\<forall>(k, c) \<in> set ms. check_components c = Inr ()" "distinct (map fst ms)"
    "fst ` set ms \<inter> fst ` set (ut_models t) = {}"
  shows "res_fold (\<lambda>((day, model), c). add_model_daily ''codex'' model (day * 86400000000) c None) ms t
    = Inr (t\<lparr>ut_models := fold (\<lambda>(k, c). btm_insert k (model_row c)) ms (ut_models t)\<rparr>)"
  using assms
proof (induction ms arbitrary: t)
  case (Cons x ms)
  obtain day model c where x: "x = ((day, model), c)" by (metis prod.exhaust)
  have "map_of (ut_models t) (day, model) = None" using Cons.prems(3) by (auto simp: x map_of_eq_None_iff)
  then have step: "add_model_daily ''codex'' model (day * 86400000000) c None t
      = Inr (t\<lparr>ut_models := btm_insert (day, model) (model_row c) (ut_models t)\<rparr>)"
    using Cons.prems(1) by (auto simp: x add_model_daily_def Let_def model_row_def)
  have "res_fold (\<lambda>((day, model), c). add_model_daily ''codex'' model (day * 86400000000) c None) ms
      (t\<lparr>ut_models := btm_insert (day, model) (model_row c) (ut_models t)\<rparr>)
    = Inr (t\<lparr>ut_models := fold (\<lambda>(k, c). btm_insert k (model_row c)) ms (btm_insert (day, model) (model_row c) (ut_models t))\<rparr>)"
    using Cons.prems Cons.IH [of "t\<lparr>ut_models := btm_insert (day, model) (model_row c) (ut_models t)\<rparr>"] by (auto simp: x)
  with step show ?case by (simp add: x)
qed simp

lemma fold_models:
  assumes "btm_ok ms"
  shows "fold (\<lambda>(k, c). btm_insert k (model_row c)) ms [] = column model_row ms"
proof -
  have "fold (\<lambda>x. btm_insert (fst x) (model_row (snd x))) ms [] = column (\<lambda>x. model_row (snd x)) (map (\<lambda>x. (fst x, x)) ms)"
    using assms by (intro fold_insert_all) (auto simp: btm_ok_def comp_def)
  then show ?thesis by (simp add: split_def column_def comp_def)
qed

section \<open>The simulation\<close>

text \<open>The days of a replay: entries under their day that could be stored, growing with their offsets, the last one of the session.\<close>

definition days_ok :: "session_usage \<Rightarrow> (int, int \<times> time \<times> usage_update \<times> bool) btree_map \<Rightarrow> bool" where
  "days_ok r days \<longleftrightarrow> btm_ok days \<and> (\<forall>(d, e) \<in> set days. date_naive (fst (snd e)) = d \<and> day_entry_ok e)
     \<and> (\<forall>(d, e) \<in> set days. fst e \<le> su_last_byte_offset r \<and> fills (row_of e) r)
     \<and> (\<forall>(d, e) \<in> set days. \<forall>(d', e') \<in> set days. fst e < fst e' \<longrightarrow> fills (row_of e) (row_of e'))
     \<and> (\<forall>(d, e) \<in> set days. \<forall>(d', e') \<in> set days. fst e = fst e' \<longrightarrow> d = d')
     \<and> (\<exists>(d, e) \<in> set days. row_of e = r)"

definition agrees :: "(json \<Rightarrow> string) \<Rightarrow> (int \<times> event_row) list \<Rightarrow> usage_tables \<Rightarrow> replay_state \<Rightarrow> bool" where
  "agrees txt seen t rp \<longleftrightarrow>
     (\<forall>k. (\<forall>x \<in> set seen. fst x \<le> k) \<longrightarrow> recorded_model txt seen k = rp_model rp)
     \<and> rp_responses rp = ut_responses t
     \<and> btm_ok (ut_models t) \<and> column md_spend (ut_models t) = rp_models rp \<and> (\<forall>(k, m) \<in> set (ut_models t). md_agent m = ''codex'')
     \<and> (\<forall>(k, m) \<in> set (ut_models t). check_components (md_spend m) = Inr ())
     \<and> column (day_of_session \<circ> row_of) (rp_days rp) = ut_days t
     \<and> (case ut_session t of
          None \<Rightarrow> rp_total rp = None \<and> rp_days rp = [] \<and> ut_responses t = {}
        | Some r \<Rightarrow> \<exists>u. rp_total rp = Some u
            \<and> r = new_session_usage Codex (su_last_byte_offset r) (su_observed_at r) u (ut_responses t \<noteq> {})
            \<and> set_option (uu_message_id u) \<subseteq> ut_responses t \<and> days_ok r (rp_days rp)
            \<and> check_session r = Inr () \<and> su_last_byte_offset r \<in> fst ` set seen)"

text \<open>Two tables with the same rows, apart from the message id that a model row remembers.\<close>

definition same_usage :: "usage_tables \<Rightarrow> usage_tables \<Rightarrow> bool" where
  "same_usage t t' \<longleftrightarrow> ut_session t = ut_session t' \<and> ut_days t = ut_days t' \<and> ut_responses t = ut_responses t'
     \<and> column (\<lambda>m. (md_agent m, md_spend m)) (ut_models t) = column (\<lambda>m. (md_agent m, md_spend m)) (ut_models t')"

lemma sorted_days:
  assumes "days_ok r days"
  shows "sorted_wrt (\<lambda>a b. fst a < fst b \<and> fills (row_of a) (row_of b)) (sort_key fst (map snd days))"
    "\<forall>e \<in> set (sort_key fst (map snd days)). day_entry_ok e"
    "row_of (last (sort_key fst (map snd days))) = r"
proof -
  let ?es = "sort_key fst (map snd days)"
  have ok: "btm_ok days" "\<forall>(d, e) \<in> set days. fst e \<le> su_last_byte_offset r"
      "\<forall>(d, e) \<in> set days. \<forall>(d', e') \<in> set days. fst e < fst e' \<longrightarrow> fills (row_of e) (row_of e')"
      "\<forall>(d, e) \<in> set days. \<forall>(d', e') \<in> set days. fst e = fst e' \<longrightarrow> d = d'"
    using assms by (auto simp: days_ok_def)
  have inj: "inj_on (fst \<circ> snd) (set days)"
  proof (rule inj_onI)
    fix x y assume xy: "x \<in> set days" "y \<in> set days" "(fst \<circ> snd) x = (fst \<circ> snd) y"
    then have "fst x = fst y" using ok(4) by (fastforce simp: split_beta)
    then show "x = y" using xy(1,2) btm_in_set_iff [OF ok(1)] by (metis option.inject prod.collapse)
  qed
  have "distinct (map fst (map snd days))"
    using inj btm_ok_distinct [OF ok(1)] by (simp add: distinct_map)
  moreover have "mset (map fst ?es) = mset (map fst (map snd days))" by (simp add: multiset.map_comp)
  ultimately have "distinct (map fst ?es)" using mset_eq_imp_distinct_iff by blast
  then have "sorted_wrt (<) (map fst ?es)" by (simp add: strict_sorted_iff)
  then have strict: "sorted_wrt (\<lambda>a b. fst a < fst b) ?es" by (simp add: sorted_wrt_map)
  then show "sorted_wrt (\<lambda>a b. fst a < fst b \<and> fills (row_of a) (row_of b)) ?es"
    by (rule sorted_wrt_mono_rel [rotated]) (use ok(3) in fastforce)
  show "\<forall>e \<in> set ?es. day_entry_ok e" using assms by (auto simp: days_ok_def)
  obtain d e where e: "(d, e) \<in> set days" "row_of e = r" using assms by (auto simp: days_ok_def)
  then have "su_last_byte_offset r = fst e" by (metis row_of_parts(2))
  then have max: "\<forall>e' \<in> set ?es. fst e' \<le> fst e" using ok(2) by auto
  have mem: "e \<in> set ?es" using e(1) by force
  have "last ?es = e"
  proof (rule ccontr)
    assume ne: "last ?es \<noteq> e"
    obtain xs ys where split: "?es = xs @ e # ys" using mem by (meson split_list)
    then have "ys \<noteq> []" using ne by auto
    then have "last ?es \<in> set ys" by (simp add: split)
    then have "fst e < fst (last ?es)" using strict by (simp add: split sorted_wrt_append)
    moreover have "last ?es \<in> set ?es" using mem by (metis empty_iff last_in_set list.set(1))
    ultimately show False using max by fastforce
  qed
  then show "row_of (last ?es) = r" using e(2) by simp
qed

lemma persist_agrees:
  assumes a: "agrees txt seen t rp" and r: "ut_responses t \<noteq> {}"
  shows "\<exists>t'. persist_replay rp (t0\<lparr>ut_responses := {}\<rparr>) = Inr t' \<and> same_usage t' t"
proof -
  obtain row where row: "ut_session t = Some row" "days_ok row (rp_days rp)"
    using a r by (auto simp: agrees_def split: option.splits)
  let ?es = "sort_key fst (map snd (rp_days rp))" and ?t0 = "t0\<lparr>ut_responses := {}, ut_session := None, ut_days := [], ut_models := []\<rparr>"
  have days: "fold (\<lambda>e. btm_insert (date_naive (fst (snd e))) (day_of_session (row_of e))) ?es [] = ut_days t"
  proof -
    have "fold (\<lambda>e. btm_insert (date_naive (fst (snd e))) ((day_of_session \<circ> row_of) e)) ?es [] = column (day_of_session \<circ> row_of) (rp_days rp)"
      using row(2) by (intro fold_insert_all) (auto simp: days_ok_def)
    then show ?thesis using a by (simp add: agrees_def)
  qed
  have "rp_days rp \<noteq> []" using row(2) by (auto simp: days_ok_def)
  then have "?es \<noteq> []" by (metis length_0_conv length_map length_sort)
  then have d: "res_fold persist_day ?es ?t0 = Inr (?t0\<lparr>ut_session := Some row, ut_days := ut_days t\<rparr>)"
    using persist_days [OF sorted_days(2,1) [OF row(2)], of ?t0] sorted_days(3) [OF row(2)] days by simp
  have models: "column md_spend (ut_models t) = rp_models rp" "btm_ok (ut_models t)"
      "\<forall>(k, m) \<in> set (ut_models t). md_agent m = ''codex'' \<and> check_components (md_spend m) = Inr ()"
    using a by (auto simp: agrees_def)
  then have ms: "btm_ok (rp_models rp)" by (metis btm_ok_column)
  have "\<forall>(k, c) \<in> set (rp_models rp). check_components c = Inr ()"
    using models(3) by (auto simp: models(1) [symmetric] column_def)
  then have m: "res_fold (\<lambda>((day, model), c). add_model_daily ''codex'' model (day * 86400000000) c None) (rp_models rp)
      (?t0\<lparr>ut_session := Some row, ut_days := ut_days t\<rparr>)
    = Inr (?t0\<lparr>ut_session := Some row, ut_days := ut_days t, ut_models := column model_row (rp_models rp)\<rparr>)"
    using persist_models [of "rp_models rp"] btm_ok_distinct [OF ms] fold_models [OF ms] by simp
  have "column (\<lambda>m. (md_agent m, md_spend m)) (column model_row (rp_models rp)) = column (\<lambda>m. (md_agent m, md_spend m)) (ut_models t)"
    unfolding models(1) [symmetric] column_comp using models(3) by (auto simp: column_def model_row_def)
  moreover have "rp_responses rp = ut_responses t" using a by (simp add: agrees_def)
  ultimately show ?thesis using d m row(1) by (simp add: persist_replay_def same_usage_def)
qed

section \<open>One event\<close>

lemma recorded_model_alt:
  "recorded_model txt events byte_offset =
     (let rows = filter (\<lambda>(o', r). o' \<le> byte_offset \<and> ev_kind r = ''turn_context'' \<and> ev_subtype r \<noteq> Some ''inherited_history''
         \<and> text_at txt (ev_payload r) [''payload'', ''model''] \<noteq> None) events
      in if rows = [] then None else text_at txt (ev_payload (snd (last rows))) [''payload'', ''model''])"
  by (simp add: recorded_model_def split: list.split)

lemma recorded_model_other:
  assumes "ev_kind r \<noteq> ''turn_context'' \<or> ev_subtype r = Some ''inherited_history''"
  shows "recorded_model txt (seen @ [(k, r)]) k' = recorded_model txt seen k'"
  using assms by (auto simp: recorded_model_def)

lemma recorded_model_cong:
  assumes "\<forall>x \<in> set seen. fst x \<le> k" "\<forall>x \<in> set seen. fst x \<le> k'"
  shows "recorded_model txt seen k = recorded_model txt seen k'"
proof -
  have "filter (\<lambda>(o', r). o' \<le> k \<and> P r) seen = filter (\<lambda>(o', r). o' \<le> k' \<and> P r) seen" for P
    using assms by (intro filter_cong) auto
  from this [of "\<lambda>r. ev_kind r = ''turn_context'' \<and> ev_subtype r \<noteq> Some ''inherited_history''
      \<and> text_at txt (ev_payload r) [''payload'', ''model''] \<noteq> None"]
  show ?thesis by (simp add: recorded_model_def)
qed

text \<open>What both sides do with an event that reports no usage.\<close>

lemma agrees_silent:
  assumes "agrees txt seen t rp" "ev_kind r \<noteq> ''turn_context'' \<or> ev_subtype r = Some ''inherited_history''"
    "\<forall>x \<in> set seen. fst x < k"
  shows "agrees txt (seen @ [(k, r)]) t rp"
  using assms by (auto simp: agrees_def recorded_model_other split: option.splits)

lemma agrees_context:
  assumes a: "agrees txt seen t rp" and ok: "codex_record_ok txt r"
    and k: "ev_kind r = ''turn_context''" "ev_subtype r \<noteq> Some ''inherited_history''"
    and o: "\<forall>x \<in> set seen. fst x < byte_offset"
  shows "agrees txt (seen @ [(byte_offset, r)]) t (observe byte_offset (ev_timestamp r) (replay_payload txt r) rp)"
proof -
  let ?m = "text_at txt (ev_payload r) [''payload'', ''model'']"
  have kind: "codex_record_kind (replay_payload txt r) = Some ''turn_context''"
    using ok k(1) replay_payload_kind [OF ok] by (simp add: codex_record_ok_def)
  have obs: "observe byte_offset (ev_timestamp r) (replay_payload txt r) rp = (case ?m of Some m \<Rightarrow> rp\<lparr>rp_model := Some m\<rparr> | None \<Rightarrow> rp)"
    unfolding observe_def kind replay_payload_model [OF ok k(1)] by simp
  have rec: "recorded_model txt (seen @ [(byte_offset, r)]) k' = or_else ?m (rp_model rp)"
    if "\<forall>x \<in> set (seen @ [(byte_offset, r)]). fst x \<le> k'" for k'
  proof -
    have "recorded_model txt (seen @ [(byte_offset, r)]) k' = or_else ?m (recorded_model txt seen k')"
      using that k by (cases ?m) (auto simp: recorded_model_alt Let_def)
    then show ?thesis using a that by (simp add: agrees_def)
  qed
  have "rp_model (observe byte_offset (ev_timestamp r) (replay_payload txt r) rp) = or_else ?m (rp_model rp)"
    unfolding obs by (cases ?m) auto
  then show ?thesis using a rec unfolding obs by (cases ?m) (auto simp: agrees_def split: option.splits)
qed

section \<open>Usage\<close>

lemma set_btm_insert: "btm_ok m \<Longrightarrow> set (btm_insert k v m) = insert (k, v) {x \<in> set m. fst x \<noteq> k}"
proof (induction k v m rule: btm_insert.induct)
  case (2 k v k' v' m)
  then show ?case by (auto simp: btm_ok_Cons)
qed simp

lemma days_ok_next:
  assumes days: "days = [] \<or> (\<exists>r0. days_ok r0 days \<and> su_last_byte_offset r0 < k \<and> fills r0 r)"
    and r: "r = row_of (k, ts, u, m)" and ok: "check_session r = Inr ()"
  shows "days_ok r (btm_insert (date_naive ts) (k, ts, u\<lparr>uu_mode := Cumulative\<rparr>, m) days)"
proof -
  let ?e = "(k, ts, u\<lparr>uu_mode := Cumulative\<rparr>, m)"
  have "btm_ok days" using days by (auto simp: days_ok_def)
  note set = set_btm_insert [OF this, of "date_naive ts" ?e]
  have row: "row_of ?e = r" by (simp add: r)
  have old: "date_naive (fst (snd e)) = d \<and> day_entry_ok e \<and> fst e < k \<and> fills (row_of e) r" if "(d, e) \<in> set days" for d e
    using days that by (fastforce simp: days_ok_def intro: fills_trans)
  have new: "day_entry_ok ?e" using ok by (simp add: day_entry_ok_def r)
  have pair: "(fst e < fst e' \<longrightarrow> fills (row_of e) (row_of e')) \<and> (fst e = fst e' \<longrightarrow> d = d')"
    if "(d, e) \<in> set days" "(d', e') \<in> set days" for d e d' e'
    using days that by (auto simp: days_ok_def)
  show ?thesis
    unfolding days_ok_def set using old new pair row days \<open>btm_ok days\<close> by (fastforce simp: r)
qed

lemma agrees_next:
  assumes a: "agrees txt seen t rp" and o: "\<forall>x \<in> set seen. fst x < k" and kind: "ev_kind e \<noteq> ''turn_context''"
    and row: "ut_session t' = Some r" "r = new_session_usage Codex k ts now (ut_responses t' \<noteq> {})" "check_session r = Inr ()"
    and msg: "set_option (uu_message_id now) \<subseteq> ut_responses t'"
    and fills: "\<And>r0. ut_session t = Some r0 \<Longrightarrow> fills r0 r"
    and days: "ut_days t' = btm_insert (date_naive ts) (day_of_session r) (ut_days t)"
    and rp': "rp_total rp' = Some now" "rp_model rp' = rp_model rp" "rp_responses rp' = ut_responses t'"
      "rp_days rp' = btm_insert (date_naive ts) (k, ts, now\<lparr>uu_mode := Cumulative\<rparr>, ut_responses t' \<noteq> {}) (rp_days rp)"
    and models: "btm_ok (ut_models t')" "column md_spend (ut_models t') = rp_models rp'"
      "\<forall>(k, m) \<in> set (ut_models t'). md_agent m = ''codex'' \<and> check_components (md_spend m) = Inr ()"
  shows "agrees txt (seen @ [(k, e)]) t' rp'"
proof -
  have r: "r = row_of (k, ts, now, ut_responses t' \<noteq> {})" using row(2) by (simp add: row_of_def)
  have "rp_days rp = [] \<or> (\<exists>r0. days_ok r0 (rp_days rp) \<and> su_last_byte_offset r0 < k \<and> fills r0 r)"
    using a o fills by (cases "ut_session t") (auto simp: agrees_def)
  from days_ok_next [OF this r row(3)] have dok: "days_ok r (rp_days rp')" unfolding rp'(4) .
  have "column (day_of_session \<circ> row_of) (rp_days rp') = ut_days t'"
    using a unfolding rp'(4) days column_btm_insert by (simp add: agrees_def r)
  moreover have "recorded_model txt (seen @ [(k, e)]) k' = rp_model rp'" if "\<forall>x \<in> set (seen @ [(k, e)]). fst x \<le> k'" for k'
    using that a kind rp'(2) by (auto simp: agrees_def recorded_model_other)
  moreover have "su_last_byte_offset r = k" "su_observed_at r = ts" by (simp_all add: row(2) new_session_usage_def)
  ultimately show ?thesis
    using row msg dok rp'(1,3) models by (auto simp: agrees_def)
qed

lemma store_usage_Inr:
  assumes "store_usage source k ts u m t = Inr t'"
    "\<And>r0. ut_session t = Some r0 \<Longrightarrow> su_last_byte_offset r0 < k"
  shows "\<exists>r. t' = t\<lparr>ut_session := Some r\<rparr> \<and> check_session r = Inr ()
    \<and> r = (case ut_session t of None \<Rightarrow> new_session_usage source k ts u m
         | Some r0 \<Rightarrow> merged_session_usage u (new_session_usage source k ts u m) r0)"
  using assms by (cases "ut_session t") (auto simp: store_usage_def Let_def)

lemma add_model_daily_Inr:
  assumes "add_model_daily agent model ts c i t = Inr t'"
  shows "\<exists>row. t' = t\<lparr>ut_models := btm_insert (date_naive ts, model) row (ut_models t)\<rparr> \<and> md_agent row = agent
    \<and> check_components (md_spend row) = Inr ()
    \<and> md_spend row = zip_components (+) (unwrap_or (map_option md_spend (map_of (ut_models t) (date_naive ts, model))) no_components) c"
proof (cases "map_of (ut_models t) (date_naive ts, model)")
  case None
  have "zip_components (+) no_components c = c" by (simp add: zip_components_def no_components_def)
  then show ?thesis using None assms by (auto simp: add_model_daily_def Let_def)
next
  case (Some r)
  then show ?thesis using assms by (auto simp: add_model_daily_def Let_def)
qed

lemma daily_delta_cong:
  assumes "map_option su_spend p = map_option su_spend q" "Option.bind p su_last_message_id = Option.bind q su_last_message_id"
  shows "daily_delta u p = daily_delta u q"
  using assms by (cases p; cases q) (auto simp: daily_delta_def)

lemma saturating_add_exact: "0 \<le> a + b \<Longrightarrow> a + b \<le> i64_max \<Longrightarrow> saturating_add a b = a + b"
  by (simp add: saturating_add_def clamp_i64_def i64_max_def)

lemma check_sessionD:
  assumes "check_session r = Inr ()"
  shows "all_components (\<lambda>n. 0 \<le> n \<and> n \<le> i64_max) (su_spend r)" "0 \<le> su_reasoning r \<and> su_reasoning r \<le> i64_max"
    "0 \<le> su_total r \<and> su_total r \<le> i64_max"
  using assms by (auto simp: check_session_def all_components_def)

lemma merged_fills: "fills r (merged_session_usage u ex r)"
  by (auto simp: fills_def merged_session_usage_def Let_def or_else_def split: option.splits)

text \<open>The stored row after an update is that of the replayed total.\<close>

lemma merged_accumulate:
  assumes r0: "r0 = new_session_usage Codex k0 ts0 before m0"
    and u: "uu_mode u = Delta \<and> uu_message_id u = Some i \<and> uu_message_id before \<noteq> Some i
      \<or> uu_mode u = Cumulative \<and> uu_message_id u = None \<and> uu_message_id before = None"
    and ok: "check_session (merged_session_usage u (new_session_usage Codex k ts u m) r0) = Inr ()"
  shows "merged_session_usage u (new_session_usage Codex k ts u m) r0 = new_session_usage Codex k ts (accumulate before u False) (m0 \<or> m)"
  using u
proof
  assume d: "uu_mode u = Delta \<and> uu_message_id u = Some i \<and> uu_message_id before \<noteq> Some i"
  let ?ex = "new_session_usage Codex k ts u m"
  have parts: "su_spend (merged_session_usage u ?ex r0) = zip_components (\<lambda>n old. old + n) (uu_spend u) (uu_spend before)"
      "su_reasoning (merged_session_usage u ?ex r0) = uu_reasoning before + uu_reasoning u"
      "su_total (merged_session_usage u ?ex r0) = uu_total before + uu_total u"
    using d by (auto simp: merged_session_usage_def r0 new_session_usage_def Let_def)
  have "zip_components saturating_add (uu_spend before) (uu_spend u) = zip_components (\<lambda>n old. old + n) (uu_spend u) (uu_spend before)"
    using check_sessionD(1) [OF ok, unfolded parts]
    by (simp add: zip_components_def all_components_def saturating_add_exact)
  moreover have "saturating_add (uu_reasoning before) (uu_reasoning u) = uu_reasoning before + uu_reasoning u"
      "saturating_add (uu_total before) (uu_total u) = uu_total before + uu_total u"
    using check_sessionD(2,3) [OF ok, unfolded parts] by (auto intro: saturating_add_exact)
  ultimately show ?thesis
    using d by (auto simp: merged_session_usage_def r0 new_session_usage_def accumulate_def Let_def)
next
  assume c: "uu_mode u = Cumulative \<and> uu_message_id u = None \<and> uu_message_id before = None"
  have "zip_components (\<lambda>n old. n) (uu_spend u) b = uu_spend u" for b by (simp add: zip_components_def)
  then show ?thesis
    using c by (simp add: merged_session_usage_def r0 new_session_usage_def accumulate_def Let_def disj_commute)
qed

text \<open>The replay state after an event that counts.\<close>

definition replayed :: "int \<Rightarrow> time \<Rightarrow> usage_update \<Rightarrow> bool \<Rightarrow> replay_state \<Rightarrow> replay_state" where
  "replayed k ts u context_only rp =
     (let now = (case rp_total rp of Some before \<Rightarrow> accumulate before u context_only | None \<Rightarrow> u)
      in rp\<lparr>rp_total := Some now,
           rp_days := btm_insert (date_naive ts) (k, ts, now\<lparr>uu_mode := Cumulative\<rparr>, rp_responses rp \<noteq> {}) (rp_days rp)\<rparr>)"

lemma observe_spend_parts [simp]:
  "rp_total (observe_spend ts u rp) = rp_total rp" "rp_responses (observe_spend ts u rp) = rp_responses rp"
  "rp_days (observe_spend ts u rp) = rp_days rp" "rp_model (observe_spend ts u rp) = rp_model rp"
  by (simp_all add: observe_spend_def Let_def)

lemma agrees_row:
  assumes "agrees txt seen t rp" "ut_session t = Some r"
  obtains before where "rp_total rp = Some before" "set_option (uu_message_id before) \<subseteq> ut_responses t"
    "r = new_session_usage Codex (su_last_byte_offset r) (su_observed_at r) before (ut_responses t \<noteq> {})"
    "su_spend r = uu_spend before" "su_last_message_id r = uu_message_id before" "su_last_byte_offset r \<in> fst ` set seen"
    "su_response_records r = (ut_responses t \<noteq> {})" "check_session r = Inr ()"
proof -
  obtain before where b: "rp_total rp = Some before" "set_option (uu_message_id before) \<subseteq> ut_responses t"
      "r = new_session_usage Codex (su_last_byte_offset r) (su_observed_at r) before (ut_responses t \<noteq> {})"
      "su_last_byte_offset r \<in> fst ` set seen" "check_session r = Inr ()"
    using assms by (auto simp: agrees_def)
  then show thesis using that [OF b(1-3)] by (metis new_session_usage_def session_usage.select_convs(2,9,10))
qed

lemma agrees_no_row:
  "agrees txt seen t rp \<Longrightarrow> ut_session t = None \<Longrightarrow> rp_total rp = None \<and> rp_days rp = [] \<and> ut_responses t = {}"
  by (simp add: agrees_def)

lemma agrees_spend:
  assumes a: "agrees txt seen t rp" and o: "\<forall>x \<in> set seen. fst x < k" and kind: "ev_kind e \<noteq> ''turn_context''"
    and spend: "record_spend txt (seen @ [(k, e)]) Codex k ts u m (ut_session t) (t\<lparr>ut_responses := R\<rparr>) = Inr t'"
    and u: "uu_mode u = Delta \<and> uu_message_id u = Some i \<and> i \<notin> ut_responses t \<and> R = insert i (ut_responses t) \<and> m
      \<or> uu_mode u = Cumulative \<and> uu_message_id u = None \<and> ut_responses t = {} \<and> R = {} \<and> \<not> m"
  shows "agrees txt (seen @ [(k, e)]) t' (replayed k ts u False (observe_spend ts u (rp\<lparr>rp_responses := R\<rparr>)))"
proof -
  let ?rp = "rp\<lparr>rp_responses := R\<rparr>"
  define model where "model = unwrap_or (or_else (uu_model u) (rp_model rp)) UNKNOWN_MODEL"
  have rec: "recorded_model txt (seen @ [(k, e)]) k = rp_model rp"
    using a o kind by (simp add: agrees_def recorded_model_other order_less_imp_le)
  have model: "unwrap_or (or_else (uu_model u) (if Codex = Codex \<and> uu_model u = None then recorded_model txt (seen @ [(k, e)]) k else None)) UNKNOWN_MODEL = model"
    unfolding model_def rec by (cases "uu_model u") simp_all
  obtain t1 t2 where t1: "store_usage Codex k ts u m (t\<lparr>ut_responses := R\<rparr>) = Inr t1"
    and t2: "add_model_daily ''codex'' model ts (daily_delta u (ut_session t)) (uu_message_id u) t1 = Inr t2"
    and t': "t' = snapshot_daily ts t2"
    using spend unfolding record_spend_def Let_def model by auto
  have last: "su_last_byte_offset r0 < k" if "ut_session t = Some r0" for r0
    using a o that by (auto simp: agrees_def)
  from store_usage_Inr [OF t1] obtain r where r: "t1 = t\<lparr>ut_responses := R, ut_session := Some r\<rparr>" "check_session r = Inr ()"
      "r = (case ut_session t of None \<Rightarrow> new_session_usage Codex k ts u m
         | Some r0 \<Rightarrow> merged_session_usage u (new_session_usage Codex k ts u m) r0)"
    using last by auto
  obtain row where row: "t2 = t1\<lparr>ut_models := btm_insert (date_naive ts, model) row (ut_models t1)\<rparr>" "md_agent row = ''codex''"
      "check_components (md_spend row) = Inr ()"
      "md_spend row = zip_components (+) (unwrap_or (map_option md_spend (map_of (ut_models t1) (date_naive ts, model))) no_components)
         (daily_delta u (ut_session t))"
    using add_model_daily_Inr [OF t2] by blast
  have t'_eq: "t' = t\<lparr>ut_responses := R, ut_session := Some r, ut_models := btm_insert (date_naive ts, model) row (ut_models t),
      ut_days := btm_insert (date_naive ts) (day_of_session r) (ut_days t)\<rparr>"
    by (simp add: t' row(1) r(1) snapshot_daily_def)
  have m: "m = (R \<noteq> {})" using u by auto
  define now where "now = (case rp_total rp of Some before \<Rightarrow> accumulate before u False | None \<Rightarrow> u)"
  have now: "r = new_session_usage Codex k ts now (R \<noteq> {})" "set_option (uu_message_id now) \<subseteq> R"
    "\<And>r0. ut_session t = Some r0 \<Longrightarrow> fills r0 r"
  proof -
    show "r = new_session_usage Codex k ts now (R \<noteq> {})"
    proof (cases "ut_session t")
      case None
      then show ?thesis using a m by (auto simp: r(3) now_def agrees_def)
    next
      case (Some r0)
      then obtain before where b: "rp_total rp = Some before" "set_option (uu_message_id before) \<subseteq> ut_responses t"
          "r0 = new_session_usage Codex (su_last_byte_offset r0) (su_observed_at r0) before (ut_responses t \<noteq> {})"
        using agrees_row [OF a Some] by metis
      have "uu_mode u = Delta \<and> uu_message_id u = Some i \<and> uu_message_id before \<noteq> Some i
          \<or> uu_mode u = Cumulative \<and> uu_message_id u = None \<and> uu_message_id before = None"
        using u b(2) by (cases "uu_message_id before") auto
      from merged_accumulate [OF b(3) this] r(2,3) Some have "r = new_session_usage Codex k ts (accumulate before u False) (ut_responses t \<noteq> {} \<or> m)"
        by simp
      moreover have "(ut_responses t \<noteq> {} \<or> m) = (R \<noteq> {})" using u by auto
      ultimately show ?thesis by (simp add: now_def b(1))
    qed
    show "set_option (uu_message_id now) \<subseteq> R" using u by (auto simp: now_def accumulate_def Let_def split: option.splits)
    show "fills r0 r" if "ut_session t = Some r0" for r0 using that merged_fills by (simp add: r(3))
  qed
  have delta: "daily_delta u (ut_session t) = daily_delta u (map_option stored_total (rp_total rp))"
  proof (cases "ut_session t")
    case None
    then show ?thesis using agrees_no_row [OF a] by simp
  next
    case (Some r0)
    then show ?thesis
      by (rule agrees_row [OF a]) (intro daily_delta_cong, simp_all add: stored_total_def new_session_usage_def Some)
  qed
  have models: "column md_spend (ut_models t') = rp_models (observe_spend ts u ?rp)"
    using a row(4) r(1) by (auto simp: t'_eq column_btm_insert observe_spend_def Let_def agrees_def delta model_def map_of_column [symmetric])
  have rows: "\<forall>(k, m) \<in> set (ut_models t'). md_agent m = ''codex'' \<and> check_components (md_spend m) = Inr ()"
    using a row(2,3) set_btm_insert [of "ut_models t" "(date_naive ts, model)" row] by (auto simp: t'_eq agrees_def)
  show ?thesis
  proof (rule agrees_next [OF a o kind, where r = r and now = now and ts = ts])
    show "rp_total (replayed k ts u False (observe_spend ts u ?rp)) = Some now" by (simp add: replayed_def now_def Let_def)
    show "rp_days (replayed k ts u False (observe_spend ts u ?rp)) =
        btm_insert (date_naive ts) (k, ts, now\<lparr>uu_mode := Cumulative\<rparr>, ut_responses t' \<noteq> {}) (rp_days rp)"
      by (simp add: replayed_def now_def Let_def t'_eq)
    show "column md_spend (ut_models t') = rp_models (replayed k ts u False (observe_spend ts u ?rp))"
      using models by (simp add: replayed_def Let_def)
  qed (use now r(2) rows a in \<open>auto simp: t'_eq replayed_def Let_def agrees_def\<close>)
qed

lemma agrees_context_only:
  assumes a: "agrees txt seen t rp" and o: "\<forall>x \<in> set seen. fst x < k" and kind: "ev_kind e \<noteq> ''turn_context''"
    and up: "update_context k ts u t = Inr t'" and R: "ut_responses t \<noteq> {}"
  shows "agrees txt (seen @ [(k, e)]) t' (replayed k ts u True rp)"
proof -
  obtain r0 where r0: "ut_session t = Some r0" using agrees_no_row [OF a] R by (cases "ut_session t") auto
  obtain before where b: "rp_total rp = Some before" "set_option (uu_message_id before) \<subseteq> ut_responses t"
      "r0 = new_session_usage Codex (su_last_byte_offset r0) (su_observed_at r0) before (ut_responses t \<noteq> {})"
      "su_last_byte_offset r0 \<in> fst ` set seen"
    using agrees_row [OF a r0] by metis
  define r where "r = r0\<lparr>su_context := or_else (uu_context u) (su_context r0), su_window := or_else (uu_window u) (su_window r0),
     su_last_byte_offset := k, su_observed_at := ts\<rparr>"
  define now where "now = accumulate before u True"
  have "su_last_byte_offset r0 < k" using b(4) o by auto
  then have t': "t' = t\<lparr>ut_session := Some r, ut_days := btm_insert (date_naive ts) (day_of_session r) (ut_days t)\<rparr>" and ok: "check_session r = Inr ()"
    using up by (auto simp: update_context_def r0 Let_def r_def snapshot_daily_def)
  have r: "r = new_session_usage Codex k ts now (ut_responses t \<noteq> {})"
    unfolding r_def now_def by (subst (1 2 3) b(3)) (simp add: new_session_usage_def accumulate_def Let_def)
  have fills: "fills r0 r" by (auto simp: r_def fills_def or_else_def split: option.splits)
  have now: "uu_message_id now = uu_message_id before" by (simp add: now_def accumulate_def Let_def)
  have rp: "rp_responses rp = ut_responses t" using a by (simp add: agrees_def)
  show ?thesis
    by (rule agrees_next [OF a o kind, where r = r and now = now and ts = ts])
      (use r ok fills r0 now b(2) rp a in \<open>auto simp: t' replayed_def Let_def b(1) now_def [symmetric] agrees_def\<close>)
qed

lemma observe_usage:
  assumes kind: "codex_record_kind payload \<noteq> Some ''turn_context''" and ex: "extract_codex_usage payload = Some u"
  shows "observe k ts payload rp =
    (if uu_mode u = Delta \<and> (\<exists>i. uu_message_id u = Some i \<and> i \<in> rp_responses rp) then rp
     else if uu_mode u = Delta then
       replayed k ts u False (observe_spend ts u (rp\<lparr>rp_responses := rp_responses rp \<union> set_option (uu_message_id u)\<rparr>))
     else if rp_responses rp \<noteq> {} then replayed k ts u True rp
     else replayed k ts u False (observe_spend ts u rp))"
  using extract_codex_mode [OF ex] kind
  by (cases "rp_total rp") (auto simp: observe_def ex replayed_def Let_def)

lemma agrees_usage:
  assumes a: "agrees txt seen t rp" and o: "\<forall>x \<in> set seen. fst x < k" and kind: "ev_kind e \<noteq> ''turn_context''"
    and ex: "extract_codex_usage payload = Some u" and rk: "codex_record_kind payload' \<noteq> Some ''turn_context''"
    and ex': "extract_codex_usage payload' = Some u"
    and up: "upsert_from_event txt (seen @ [(k, e)]) Codex k ts payload t = Inr t'"
  shows "agrees txt (seen @ [(k, e)]) t' (observe k ts payload' rp)"
proof -
  have R: "rp_responses rp = ut_responses t" using a by (simp add: agrees_def)
  have fresh: "\<not> (case ut_session t of None \<Rightarrow> False | Some r \<Rightarrow> k \<le> su_last_byte_offset r)"
  proof (cases "ut_session t")
    case (Some r)
    then show ?thesis by (rule agrees_row [OF a]) (use o Some in auto)
  qed simp
  have records: "(case ut_session t of None \<Rightarrow> False | Some r \<Rightarrow> su_response_records r) = (ut_responses t \<noteq> {})"
  proof (cases "ut_session t")
    case None
    then show ?thesis using agrees_no_row [OF a] by simp
  next
    case (Some r)
    then show ?thesis by (rule agrees_row [OF a]) (use Some in simp)
  qed
  note up' = up [unfolded upsert_from_event_def extract_usage_def, simplified ex transcript_source.case option.case Let_def fresh records]
  show ?thesis
  proof (cases "uu_mode u")
    case Delta
    then obtain i where i: "uu_message_id u = Some i" using extract_codex_mode [OF ex] by auto
    show ?thesis
    proof (cases "i \<in> ut_responses t")
      case True
      then have "t' = t" using up' Delta i by (auto simp: claim_response_def insert_absorb)
      then show ?thesis using agrees_silent [OF a _ o] kind True Delta i R by (simp add: observe_usage [OF rk ex'])
    next
      case False
      then have "record_spend txt (seen @ [(k, e)]) Codex k ts u True (ut_session t) (t\<lparr>ut_responses := insert i (ut_responses t)\<rparr>) = Inr t'"
        using up' Delta i by (simp add: claim_response_def)
      from agrees_spend [OF a o kind this, of i] show ?thesis
        using False Delta i R by (simp add: observe_usage [OF rk ex'])
    qed
  next
    case Cumulative
    then have i: "uu_message_id u = None" using extract_codex_mode [OF ex] by auto
    show ?thesis
    proof (cases "ut_responses t = {}")
      case True
      then have "record_spend txt (seen @ [(k, e)]) Codex k ts u False (ut_session t) (t\<lparr>ut_responses := {}\<rparr>) = Inr t'"
        using up' Cumulative by (cases t) simp
      from agrees_spend [OF a o kind this] True Cumulative i
      have "agrees txt (seen @ [(k, e)]) t' (replayed k ts u False (observe_spend ts u (rp\<lparr>rp_responses := {}\<rparr>)))" by simp
      moreover have "rp\<lparr>rp_responses := {}\<rparr> = rp" using R True by (cases rp) simp
      ultimately have "agrees txt (seen @ [(k, e)]) t' (replayed k ts u False (observe_spend ts u rp))" by metis
      then show ?thesis using True Cumulative R by (simp add: observe_usage [OF rk ex'])
    next
      case False
      then have "update_context k ts u t = Inr t'" using up' Cumulative by simp
      from agrees_context_only [OF a o kind this False] show ?thesis
        using False Cumulative R by (simp add: observe_usage [OF rk ex'])
    qed
  qed
qed

lemma agrees_event:
  assumes a: "agrees txt seen t rp" and o: "\<forall>x \<in> set seen. fst x < k" and ok: "codex_record_ok txt r"
    and up: "(if ev_subtype r = Some ''inherited_history'' then Inr t
      else upsert_from_event txt (seen @ [(k, r)]) Codex k (ev_timestamp r) (ev_payload r) t) = Inr t'"
  shows "agrees txt (seen @ [(k, r)]) t'
    (fold (\<lambda>(k, r). observe k (ev_timestamp r) (replay_payload txt r)) (replay_rows [(k, r)]) rp)"
proof (cases "ev_subtype r = Some ''inherited_history''")
  case True
  then show ?thesis using up agrees_silent [OF a _ o] by (simp add: replay_rows_def)
next
  case sub: False
  then have up: "upsert_from_event txt (seen @ [(k, r)]) Codex k (ev_timestamp r) (ev_payload r) t = Inr t'" using up by simp
  have kind: "ev_kind r = stored_event_kind Codex (ev_payload r)" using ok by (simp add: codex_record_ok_def)
  show ?thesis
  proof (cases "extract_codex_usage (ev_payload r)")
    case None
    then have t': "t' = t" using up by (simp add: upsert_from_event_def extract_usage_def)
    show ?thesis
    proof (cases "ev_kind r = ''turn_context''")
      case True
      then show ?thesis using agrees_context [OF a ok True sub o] sub by (simp add: t' replay_rows_def)
    next
      case False
      have "codex_record_kind (ev_payload r) \<noteq> Some ''turn_context''" using False kind by (auto simp: stored_event_kind_def)
      then have "observe k (ev_timestamp r) (replay_payload txt r) rp = rp"
        using None replay_payload_kind [OF ok] replay_payload_extract [OF ok False] by (simp add: observe_def)
      then show ?thesis using agrees_silent [OF a _ o] False by (simp add: t' replay_rows_def)
    qed
  next
    case (Some u)
    note k = extract_codex_kind [OF Some]
    have nk: "ev_kind r \<noteq> ''turn_context''" and rows: "replay_rows [(k, r)] = [(k, r)]"
      using k kind sub by (auto simp: replay_rows_def)
    have rk: "codex_record_kind (replay_payload txt r) \<noteq> Some ''turn_context''" using k replay_payload_kind [OF ok] by simp
    have ex: "extract_codex_usage (replay_payload txt r) = Some u" using Some replay_payload_extract [OF ok nk] by simp
    show ?thesis using agrees_usage [OF a o nk Some rk ex up] by (simp add: rows)
  qed
qed

lemma agrees_log:
  assumes "agrees txt seen t rp" "ingest_usage txt Codex seen rest t = Inr t'" "codex_log txt (seen @ rest)"
  shows "agrees txt (seen @ rest) t'
    (fold (\<lambda>(k, r). observe k (ev_timestamp r) (replay_payload txt r)) (replay_rows rest) rp)"
  using assms
proof (induction rest arbitrary: seen t rp)
  case (Cons x rest)
  obtain k r where x: "x = (k, r)" by fastforce
  obtain t1 where t1: "(if ev_subtype r = Some ''inherited_history'' then Inr t
      else upsert_from_event txt (seen @ [(k, r)]) Codex k (ev_timestamp r) (ev_payload r) t) = Inr t1"
      "ingest_usage txt Codex (seen @ [(k, r)]) rest t1 = Inr t'"
    using Cons.prems(2) by (auto simp: x)
  have log: "\<forall>y \<in> set seen. fst y < k" "codex_record_ok txt r"
    using Cons.prems(3) by (auto simp: codex_log_def x btm_ok_def sorted_wrt_append)
  have split: "replay_rows (x # rest) = replay_rows [(k, r)] @ replay_rows rest" by (simp add: replay_rows_def x)
  have "codex_log txt ((seen @ [(k, r)]) @ rest)" using Cons.prems(3) by (simp add: x)
  from Cons.IH [OF agrees_event [OF Cons.prems(1) log t1(1)] t1(2) this] show ?case
    unfolding split by (simp add: x)
qed (simp add: replay_rows_def)

lemma observe_responses:
  assumes "codex_record_kind payload \<noteq> Some ''token_usage_record''"
  shows "rp_responses (observe k ts payload rp) = rp_responses rp"
proof -
  have "uu_mode u = Cumulative" if "extract_codex_usage payload = Some u" for u
    using that assms extract_token_count_mode by (auto simp: extract_codex_usage_def split: Option.bind_splits if_splits)
  then show ?thesis by (auto simp: observe_def Let_def split: option.split)
qed

lemma replay_responses:
  assumes "\<forall>(_, r) \<in> set rows. codex_record_kind (replay_payload txt r) \<noteq> Some ''token_usage_record''"
  shows "rp_responses (fold (\<lambda>(k, r). observe k (ev_timestamp r) (replay_payload txt r)) rows rp) = rp_responses rp"
  using assms by (induction rows arbitrary: rp) (auto simp: observe_responses)

lemma agrees_empty: "agrees txt [] empty_usage empty_replay"
  by (simp add: agrees_def empty_usage_def empty_replay_def recorded_model_def column_def)

text \<open>
  C39: rebuilding the usage of a Codex session from its stored events gives what ingesting the events
  has left, whatever the tables held before the rebuild: the totals of the session, the snapshot of
  each day, the tokens of each model and day, and the responses already counted.
\<close>

theorem codex_rebuild_agrees:
  assumes "codex_log txt events" "ingest_usage txt Codex [] events empty_usage = Inr t" "ut_responses t \<noteq> {}"
  shows "\<exists>t'. rebuild_codex txt events t0 = Inr t' \<and> same_usage t' t"
proof -
  have a: "agrees txt events t (replay_usage txt events)"
    using agrees_log [OF agrees_empty assms(2)] assms(1) by (simp add: replay_usage_def)
  then have R: "rp_responses (replay_usage txt events) \<noteq> {}" using assms(3) by (simp add: agrees_def)
  have "list_ex (\<lambda>(_, r). ev_agent r = ''codex'' \<and> ev_kind r = ''token_usage_record'') events"
  proof (rule ccontr)
    assume "\<not> list_ex (\<lambda>(_, r). ev_agent r = ''codex'' \<and> ev_kind r = ''token_usage_record'') events"
    then have none: "\<forall>(_, r) \<in> set events. ev_kind r \<noteq> ''token_usage_record'' \<and> codex_record_ok txt r"
      using assms(1) by (fastforce simp: list_ex_iff codex_log_def list_all_iff codex_record_ok_def)
    have "codex_record_kind (replay_payload txt r) \<noteq> Some ''token_usage_record''" if "(k, r) \<in> set events" for k r
    proof -
      have ok: "codex_record_ok txt r" and k: "ev_kind r \<noteq> ''token_usage_record''" using none that by auto
      have "ev_kind r = stored_event_kind Codex (ev_payload r)" using ok by (simp add: codex_record_ok_def)
      then have "codex_record_kind (ev_payload r) \<noteq> Some ''token_usage_record''" using k by (auto simp: stored_event_kind_def)
      then show ?thesis using replay_payload_kind [OF ok] by simp
    qed
    then have "\<forall>(_, r) \<in> set (replay_rows events). codex_record_kind (replay_payload txt r) \<noteq> Some ''token_usage_record''"
      by (auto simp: replay_rows_def)
    from replay_responses [OF this, of empty_replay] R show False by (simp add: replay_usage_def empty_replay_def)
  qed
  then show ?thesis using persist_agrees [OF a assms(3), of t0] R by (simp add: rebuild_codex_def Let_def)
qed

text \<open>Two responses, the first one reported twice, with a turn context between them and a context report after them.\<close>

definition sample_record :: "string \<Rightarrow> json \<Rightarrow> event_row" where
  "sample_record kind value = \<lparr>ev_timestamp = 0, ev_kind = kind, ev_payload = value, ev_agent = ''codex'', ev_speaker = ''system'',
     ev_content_kind = ''none'', ev_event_uuid = None, ev_parent_event_uuid = None, ev_related_tool_use_id = None,
     ev_is_sidechain = False, ev_is_meta = False, ev_subtype = None, ev_search_text = []\<rparr>"

definition sample_response :: "string \<Rightarrow> int \<Rightarrow> event_row" where
  "sample_response i n = sample_record ''token_usage_record'' (JObj [(''type'', JStr ''token_usage_record''),
     (''payload'', JObj [(''response_id'', JStr i), (''usage'', JObj [(''input_tokens'', JInt n), (''output_tokens'', JInt 5)])])])"

definition sample_usage_log :: "(int, event_row) btree_map" where
  "sample_usage_log =
     [(0, sample_response ''a'' 100), (10, sample_response ''a'' 100),
      (20, sample_record ''turn_context'' (JObj [(''type'', JStr ''turn_context''), (''payload'', JObj [(''model'', JStr ''gpt'')])])),
      (30, sample_response ''b'' 40),
      (40, sample_record ''token_count'' (JObj [(''type'', JStr ''event_msg''), (''payload'', JObj [(''type'', JStr ''token_count''),
         (''info'', JObj [(''total_token_usage'', JObj [(''input_tokens'', JInt 9)]), (''model_context_window'', JInt 1000)])])]))]"

theorem codex_rebuild_agrees_witness:
  "\<exists>t t'. ingest_usage (\<lambda>_. []) Codex [] sample_usage_log empty_usage = Inr t \<and> map_option su_total (ut_session t) = Some 150
    \<and> map fst (ut_models t) = [(0, ''(unknown model)''), (0, ''gpt'')]
    \<and> rebuild_codex (\<lambda>_. []) sample_usage_log empty_usage = Inr t' \<and> same_usage t' t"
proof -
  have log: "codex_log (\<lambda>_. []) sample_usage_log" by code_simp
  have run: "ut_session (projr (ingest_usage (\<lambda>_. []) Codex [] sample_usage_log empty_usage)) \<noteq> None
      \<and> map_option su_total (ut_session (projr (ingest_usage (\<lambda>_. []) Codex [] sample_usage_log empty_usage))) = Some 150
      \<and> map fst (ut_models (projr (ingest_usage (\<lambda>_. []) Codex [] sample_usage_log empty_usage))) = [(0, ''(unknown model)''), (0, ''gpt'')]
      \<and> ''a'' \<in> ut_responses (projr (ingest_usage (\<lambda>_. []) Codex [] sample_usage_log empty_usage))
      \<and> \<not> isl (ingest_usage (\<lambda>_. []) Codex [] sample_usage_log empty_usage)"
    by code_simp
  then obtain t where t: "ingest_usage (\<lambda>_. []) Codex [] sample_usage_log empty_usage = Inr t"
    by (cases "ingest_usage (\<lambda>_. []) Codex [] sample_usage_log empty_usage") auto
  with run have facts: "map_option su_total (ut_session t) = Some 150" "map fst (ut_models t) = [(0, ''(unknown model)''), (0, ''gpt'')]"
      "ut_responses t \<noteq> {}" by auto
  obtain t' where "rebuild_codex (\<lambda>_. []) sample_usage_log empty_usage = Inr t'" "same_usage t' t"
    using codex_rebuild_agrees [OF log t facts(3), of empty_usage] by blast
  with t facts show ?thesis by (intro exI [of _ t] exI [of _ t']) simp
qed

end
