(* ===== verification/Usage_Claude.thy ===== *)
theory Usage_Claude
  imports Usage_Codex
begin

text \<open>
  Usage of a Claude session: each response counts once, with the tokens, day and model of its last
  receipt, although the receipts of a response come one by one and replace each other.
\<close>

section \<open>Printed offsets\<close>

lemma show_nat_nonempty: "show_nat n \<noteq> []"
  by (subst show_nat.simps) simp

lemma digit_inject: "m < 10 \<Longrightarrow> n < 10 \<Longrightarrow> (char_of (48 + m) :: char) = char_of (48 + n) \<Longrightarrow> m = n" for m n :: nat
  by (drule arg_cong [where f = "of_char :: char \<Rightarrow> nat"]) simp

lemma show_nat_inject: "show_nat m = show_nat n \<Longrightarrow> m = n"
proof (induction m arbitrary: n rule: less_induct)
  case (less m)
  have long: "show_nat k = show_nat (k div 10) @ [char_of (48 + k mod 10)]" if "\<not> k < 10" for k
    using that by (subst show_nat.simps) simp
  have short: "show_nat k = [char_of (48 + k)]" if "k < 10" for k
    using that by (subst show_nat.simps) simp
  consider "m < 10" "n < 10" | "m < 10" "\<not> n < 10" | "\<not> m < 10" "n < 10" | "\<not> m < 10" "\<not> n < 10" by blast
  then show ?case
  proof cases
    case 1
    then show ?thesis using less.prems digit_inject by (simp add: short)
  next
    case 2
    then show ?thesis using less.prems show_nat_nonempty [of "m div 10"] show_nat_nonempty [of "n div 10"] by (auto simp: short long)
  next
    case 3
    then show ?thesis using less.prems show_nat_nonempty [of "m div 10"] show_nat_nonempty [of "n div 10"] by (auto simp: short long)
  next
    case 4
    then have "m div 10 = n div 10" "m mod 10 = n mod 10"
      using less.prems less.IH [of "m div 10" "n div 10"] digit_inject [of "m mod 10" "n mod 10"] by (simp_all add: long)
    then show ?thesis by (metis div_mult_mod_eq)
  qed
qed

lemma show_int_inject: "show_int j = show_int k \<Longrightarrow> 0 \<le> j \<Longrightarrow> 0 \<le> k \<Longrightarrow> j = k"
  by (auto simp: show_int_def dest: show_nat_inject)

section \<open>Receipts\<close>

definition claude_record_ok :: "(json \<Rightarrow> string) \<Rightarrow> event_row \<Rightarrow> bool" where
  "claude_record_ok txt r \<longleftrightarrow> ev_agent r = ''claude-code'' \<and> ev_kind r = stored_event_kind ClaudeCode (ev_payload r)
     \<and> ev_subtype r \<noteq> Some ''inherited_history''
     \<and> text_at txt (ev_payload r) [''message'', ''id''] = path_str (ev_payload r) [''message'', ''id'']
     \<and> text_at txt (ev_payload r) [''message'', ''model''] = path_str (ev_payload r) [''message'', ''model'']"

text \<open>Records as Claude writes them: ids and models are text, and no message id is the number of an offset.\<close>

definition claude_log :: "(json \<Rightarrow> string) \<Rightarrow> (int, event_row) btree_map \<Rightarrow> bool" where
  "claude_log txt events \<longleftrightarrow> btm_ok events \<and> list_all (\<lambda>(k, r). 0 \<le> k \<and> claude_record_ok txt r) events
     \<and> list_all (\<lambda>(_, r). list_all (\<lambda>(k, _). path_str (ev_payload r) [''message'', ''id''] \<noteq> Some (show_int k)) events) events"

definition row_usage :: "int \<times> event_row \<Rightarrow> usage_update" where
  "row_usage e = the (extract_claude_usage (ev_payload (snd e)))"

lemma claude_receipt_iff:
  assumes "claude_record_ok txt r"
  shows "claude_receipt_row r \<longleftrightarrow> extract_claude_usage (ev_payload r) \<noteq> None"
proof -
  have "ev_kind r = ''assistant'' \<longleftrightarrow> path_str (ev_payload r) [''type''] = Some ''assistant''"
    using assms by (auto simp: claude_record_ok_def stored_event_kind_def get_str_def path_str_def unwrap_or_def split: option.splits)
  then show ?thesis
    using assms
    by (auto simp: claude_receipt_row_def claude_record_ok_def has_usage_object_def extract_claude_usage_def Let_def
        split: option.splits Option.bind_splits if_splits)
qed

lemma positive_range: "positive_i64_at v path = Some n \<Longrightarrow> 0 < n \<and> n \<le> i64_max"
proof -
  have "x \<le> i64_max" if "as_i64 w = Some x" for w x using that by (cases w) (auto simp: i64_max_def split: if_splits)
  then show "positive_i64_at v path = Some n \<Longrightarrow> ?thesis"
    by (auto simp: positive_i64_at_def or_else_def split: Option.bind_splits option.splits if_splits)
qed

lemma unwrap_range: "0 \<le> unwrap_or (positive_i64_at v path) 0 \<and> unwrap_or (positive_i64_at v path) 0 \<le> i64_max"
  using positive_range [of v path] by (cases "positive_i64_at v path") (auto simp: i64_max_def)

lemma token_range: "0 \<le> token_at v key \<and> token_at v key \<le> i64_max"
  using unwrap_range by (simp add: token_at_def)

lemma saturating_add_bounds:
  "0 \<le> a \<Longrightarrow> 0 \<le> b \<Longrightarrow> a \<le> i64_max \<Longrightarrow> b \<le> i64_max \<Longrightarrow>
    a \<le> saturating_add a b \<and> b \<le> saturating_add a b \<and> saturating_add a b \<le> i64_max"
  by (simp add: saturating_add_def clamp_i64_def i64_max_def)

lemma saturating_sub_upper: "a \<le> i64_max \<Longrightarrow> 0 \<le> b \<Longrightarrow> saturating_sub a b \<le> i64_max"
  by (simp add: saturating_sub_def clamp_i64_def i64_max_def)

lemma sum_bounds:
  assumes "\<forall>x \<in> {a, b, c, d, e}. 0 \<le> x \<and> x \<le> i64_max"
    and t: "t = saturating_add (saturating_add (saturating_add (saturating_add a b) c) d) e"
  shows "\<forall>x \<in> {a, b, c, d, e}. x \<le> t" "t \<le> i64_max"
proof -
  have 1: "a \<le> saturating_add a b \<and> b \<le> saturating_add a b \<and> saturating_add a b \<le> i64_max"
    using assms(1) by (intro saturating_add_bounds) auto
  have 2: "saturating_add a b \<le> saturating_add (saturating_add a b) c \<and> c \<le> saturating_add (saturating_add a b) c
      \<and> saturating_add (saturating_add a b) c \<le> i64_max"
    using assms(1) 1 by (intro saturating_add_bounds) auto
  have 3: "saturating_add (saturating_add a b) c \<le> saturating_add (saturating_add (saturating_add a b) c) d
      \<and> d \<le> saturating_add (saturating_add (saturating_add a b) c) d \<and> saturating_add (saturating_add (saturating_add a b) c) d \<le> i64_max"
    using assms(1) 1 2 by (intro saturating_add_bounds) auto
  have 4: "saturating_add (saturating_add (saturating_add a b) c) d \<le> t \<and> e \<le> t \<and> t \<le> i64_max"
    unfolding t using assms(1) 1 2 3 by (intro saturating_add_bounds) auto
  show "\<forall>x \<in> {a, b, c, d, e}. x \<le> t" using 1 2 3 4 by auto
  show "t \<le> i64_max" using 4 by simp
qed

lemma extract_claude_parts:
  assumes "extract_claude_usage v = Some u"
  shows "uu_mode u = Delta" "uu_message_id u = path_str v [''message'', ''id'']" "uu_model u = path_str v [''message'', ''model'']"
    "uu_reasoning u = 0" "all_components (\<lambda>n. 0 \<le> n \<and> n \<le> uu_total u) (uu_spend u)" "uu_total u \<le> i64_max"
    "uu_context u = Some (uu_total u)" "\<And>w. uu_window u = Some w \<Longrightarrow> 0 < w"
proof -
  obtain usage where e: "u = claude_update v usage"
    using assms by (auto simp: extract_claude_usage_def split: if_splits Option.bind_splits)
  let ?w5 = "unwrap_or (positive_i64_at usage [''cache_creation'', ''ephemeral_5m_input_tokens'']) 0"
  let ?w1 = "unwrap_or (positive_i64_at usage [''cache_creation'', ''ephemeral_1h_input_tokens'']) 0"
  let ?w = "max (saturating_sub (token_at usage ''cache_creation_input_tokens'') ?w1) ?w5"
  have u: "uu_mode u = Delta" "uu_reasoning u = 0" "uu_context u = Some (uu_total u)"
      "uu_message_id u = Option.bind (Option.bind (jget v ''message'') (\<lambda>m. jget m ''id'')) as_str"
      "uu_model u = Option.bind (Option.bind (jget v ''message'') (\<lambda>m. jget m ''model'')) as_str"
      "uu_spend u = \<lparr>uc_input = token_at usage ''input_tokens'', uc_cached = token_at usage ''cache_read_input_tokens'',
         uc_cache_write = ?w, uc_cache_write_1h = ?w1, uc_output = token_at usage ''output_tokens''\<rparr>"
      "uu_total u = saturating_add (saturating_add (saturating_add (saturating_add (token_at usage ''input_tokens'') ?w) ?w1)
         (token_at usage ''cache_read_input_tokens'')) (token_at usage ''output_tokens'')"
      "uu_window u = or_else (positive_i64_at usage [''model_context_window'']) (positive_i64_at v [''model_context_window''])"
    unfolding e claude_update_def Let_def usage_update.select_convs by (rule refl)+
  then show "uu_mode u = Delta" "uu_reasoning u = 0" "uu_context u = Some (uu_total u)" by simp_all
  show "uu_message_id u = path_str v [''message'', ''id'']" "uu_model u = path_str v [''message'', ''model'']"
    unfolding u by (simp_all add: path_str_def split: Option.bind_split)
  have "0 \<le> ?w \<and> ?w \<le> i64_max"
    using unwrap_range [of usage] token_range [of usage] saturating_sub_upper
    by (simp add: le_max_iff_disj)
  then have range: "\<forall>x \<in> {token_at usage ''input_tokens'', ?w, ?w1, token_at usage ''cache_read_input_tokens'', token_at usage ''output_tokens''}.
      0 \<le> x \<and> x \<le> i64_max"
    using unwrap_range token_range by simp
  show "all_components (\<lambda>n. 0 \<le> n \<and> n \<le> uu_total u) (uu_spend u)"
    unfolding u(6) all_components_def using sum_bounds(1) [OF range u(7)] range by simp
  show "uu_total u \<le> i64_max" using sum_bounds(2) [OF range u(7)] .
  show "0 < w" if "uu_window u = Some w" for w
    using that positive_range unfolding u(8) by (auto simp: or_else_def split: option.splits)
qed

section \<open>The last receipt of each response\<close>

lemma last_of_each_snoc: "last_of_each f (xs @ [e]) = filter (\<lambda>x. f x \<noteq> f e) (last_of_each f xs) @ [e]"
  by (induction xs) auto

lemma set_last_of_each: "set (last_of_each f xs) \<subseteq> set xs"
  by (induction xs) auto

lemma keys_last_of_each: "f ` set (last_of_each f xs) = f ` set xs"
  by (induction xs) auto

text \<open>The one element with a key is the last one that has it.\<close>

lemma last_of_each_filter:
  "filter (\<lambda>x. f x = k) (last_of_each f xs) = (if filter (\<lambda>x. f x = k) xs = [] then [] else [last (filter (\<lambda>x. f x = k) xs)])"
proof (induction xs rule: rev_induct)
  case (snoc e xs)
  have "(\<lambda>x. f x \<noteq> f e \<and> f x = k) = (\<lambda>x. f x = k)" if "f e \<noteq> k" using that by auto
  with snoc show ?case by (cases "f e = k") (auto simp: last_of_each_snoc filter_empty_conv)
qed simp

section \<open>Sums\<close>

definition sum_components :: "usage_components list \<Rightarrow> usage_components" where
  "sum_components cs = \<lparr>uc_input = sum_list (map uc_input cs), uc_cached = sum_list (map uc_cached cs),
     uc_cache_write = sum_list (map uc_cache_write cs), uc_cache_write_1h = sum_list (map uc_cache_write_1h cs),
     uc_output = sum_list (map uc_output cs)\<rparr>"

definition spend_of :: "(int \<times> event_row) list \<Rightarrow> usage_components" where
  "spend_of es = sum_components (map (uu_spend \<circ> row_usage) es)"

definition total_of :: "(int \<times> event_row) list \<Rightarrow> int" where
  "total_of es = sum_list (map (uu_total \<circ> row_usage) es)"

lemma sum_list_partition: "sum_list (map g xs) = sum_list (map g (filter P xs)) + sum_list (map g (filter (\<lambda>x. \<not> P x) xs))"
  for g :: "'a \<Rightarrow> int"
  by (induction xs) auto

lemma spend_of_Nil [simp]: "spend_of [] = no_components"
  by (simp add: spend_of_def sum_components_def no_components_def)

lemma zip_add_0 [simp]: "zip_components (+) no_components c = c" "zip_components (+) c no_components = c"
  by (simp_all add: zip_components_def no_components_def)

lemma spend_of_snoc [simp]: "spend_of (es @ [e]) = zip_components (+) (spend_of es) (uu_spend (row_usage e))"
  by (simp add: spend_of_def sum_components_def zip_components_def)

lemma spend_of_without:
  "filter P es = [p] \<Longrightarrow> spend_of (filter (\<lambda>e. \<not> P e) es) = zip_components (-) (spend_of es) (uu_spend (row_usage p))"
  using sum_list_partition [of "uc_input \<circ> uu_spend \<circ> row_usage" es P] sum_list_partition [of "uc_cached \<circ> uu_spend \<circ> row_usage" es P]
    sum_list_partition [of "uc_cache_write \<circ> uu_spend \<circ> row_usage" es P]
    sum_list_partition [of "uc_cache_write_1h \<circ> uu_spend \<circ> row_usage" es P]
    sum_list_partition [of "uc_output \<circ> uu_spend \<circ> row_usage" es P]
  by (simp add: spend_of_def sum_components_def zip_components_def comp_def)

lemma total_of_without:
  "filter P es = [p] \<Longrightarrow> total_of (filter (\<lambda>e. \<not> P e) es) = total_of es - uu_total (row_usage p)"
  using sum_list_partition [of "uu_total \<circ> row_usage" es P] by (simp add: total_of_def)

section \<open>What the tables say\<close>

definition bucket_spend :: "(json \<Rightarrow> string) \<Rightarrow> (int \<times> event_row) list \<Rightarrow> int \<times> string \<Rightarrow> usage_components option" where
  "bucket_spend txt rs key =
     (if key \<in> receipt_bucket txt ` set rs then Some (spend_of (filter (\<lambda>e. receipt_bucket txt e = key) rs)) else None)"

definition counted :: "(json \<Rightarrow> string) \<Rightarrow> (int, event_row) btree_map \<Rightarrow> usage_tables \<Rightarrow> bool" where
  "counted txt events t \<longleftrightarrow>
     (case ut_session t of
        None \<Rightarrow> receipts txt events = []
      | Some r \<Rightarrow> receipts txt events \<noteq> [] \<and> su_spend r = spend_of (receipts txt events) \<and> su_total r = total_of (receipts txt events)
          \<and> su_reasoning r = 0 \<and> su_last_byte_offset r \<in> fst ` set events \<and> (\<forall>w. su_window r = Some w \<longrightarrow> 0 < w))
     \<and> btm_ok (ut_models t)
     \<and> (\<forall>key. map_option md_spend (map_of (ut_models t) key) = bucket_spend txt (receipts txt events) key)"

lemma receipts_other:
  assumes "\<not> claude_receipt_row r"
  shows "receipts txt (events @ [(k, r)]) = receipts txt events"
  using assms by (simp add: receipts_def)

lemma receipts_next:
  assumes "claude_receipt_row r"
  shows "receipts txt (events @ [(k, r)]) =
    filter (\<lambda>e. receipt_key txt e \<noteq> receipt_key txt (k, r)) (receipts txt events) @ [(k, r)]"
  using assms by (simp add: receipts_def last_of_each_snoc)

text \<open>The receipt that a new one replaces is the prior one the code looks up.\<close>

lemma claude_log_snoc:
  assumes "claude_log txt (events @ [(k, r)])"
  shows "\<forall>(k', r') \<in> set events. 0 \<le> k' \<and> k' < k \<and> claude_record_ok txt r' \<and> path_str (ev_payload r') [''message'', ''id''] \<noteq> Some (show_int k)
      \<and> path_str (ev_payload r) [''message'', ''id''] \<noteq> Some (show_int k')"
    "0 \<le> k" "claude_record_ok txt r" "claude_log txt events"
  using assms by (auto simp: claude_log_def list_all_iff btm_ok_def sorted_wrt_append)

lemma receipt_key_ok:
  "claude_record_ok txt r \<Longrightarrow> receipt_key txt (k, r) = unwrap_or (path_str (ev_payload r) [''message'', ''id'']) (show_int k)"
  by (simp add: receipt_key_def claude_record_ok_def)

lemma same_key_rows:
  assumes log: "claude_log txt (events @ [(k, r)])"
  shows "filter (\<lambda>e. receipt_key txt e = receipt_key txt (k, r)) (filter (\<lambda>(_, r). claude_receipt_row r) events) =
    (case path_str (ev_payload r) [''message'', ''id''] of
       None \<Rightarrow> []
     | Some i \<Rightarrow> filter (\<lambda>(o', r). claude_receipt_row r \<and> o' < k \<and> text_at txt (ev_payload r) [''message'', ''id''] = Some i) (events @ [(k, r)]))"
proof -
  note l = claude_log_snoc [OF log]
  have key: "receipt_key txt (k', r') = unwrap_or (path_str (ev_payload r') [''message'', ''id'']) (show_int k')"
      "text_at txt (ev_payload r') [''message'', ''id''] = path_str (ev_payload r') [''message'', ''id'']"
      "0 \<le> k'" "k' < k" "path_str (ev_payload r') [''message'', ''id''] \<noteq> Some (show_int k)"
      "path_str (ev_payload r) [''message'', ''id''] \<noteq> Some (show_int k')" if "(k', r') \<in> set events" for k' r'
    using l(1) that receipt_key_ok [of "txt" r' k'] by (auto simp: claude_record_ok_def)
  show ?thesis
  proof (cases "path_str (ev_payload r) [''message'', ''id'']")
    case None
    have "receipt_key txt (k', r') \<noteq> show_int k" if "(k', r') \<in> set events" for k' r'
      using key [OF that] show_int_inject [of k' k] l(2) by (auto simp: unwrap_or_def split: option.splits)
    then show ?thesis using None receipt_key_ok [OF l(3)] by (auto simp: filter_empty_conv)
  next
    case (Some i)
    have eq: "receipt_key txt (k', r') = i \<longleftrightarrow> k' < k \<and> text_at txt (ev_payload r') [''message'', ''id''] = Some i" if "(k', r') \<in> set events" for k' r'
      using key [OF that] Some by (auto simp: unwrap_or_def split: option.splits)
    have "filter (\<lambda>e. receipt_key txt e = i) (filter (\<lambda>(_, r). claude_receipt_row r) events) =
        filter (\<lambda>(o', r). claude_receipt_row r \<and> o' < k \<and> text_at txt (ev_payload r) [''message'', ''id''] = Some i) events"
      unfolding filter_filter by (rule filter_cong) (use eq in auto)
    then show ?thesis using Some receipt_key_ok [OF l(3)] by simp
  qed
qed

lemma replaced_receipt:
  assumes log: "claude_log txt (events @ [(k, r)])"
  obtains (fresh) "prior_receipt txt (events @ [(k, r)]) (path_str (ev_payload r) [''message'', ''id'']) k = None"
      "filter (\<lambda>e. receipt_key txt e = receipt_key txt (k, r)) (receipts txt events) = []"
  | (again) k' p where "prior_receipt txt (events @ [(k, r)]) (path_str (ev_payload r) [''message'', ''id'']) k = Some p"
      "filter (\<lambda>e. receipt_key txt e = receipt_key txt (k, r)) (receipts txt events) = [(k', p)]" "(k', p) \<in> set events" "claude_receipt_row p"
proof -
  let ?rows = "filter (\<lambda>e. receipt_key txt e = receipt_key txt (k, r)) (filter (\<lambda>(_, r). claude_receipt_row r) events)"
  have prior: "prior_receipt txt (events @ [(k, r)]) (path_str (ev_payload r) [''message'', ''id'']) k = (if ?rows = [] then None else Some (snd (last ?rows)))"
    unfolding same_key_rows [OF log] by (auto simp: prior_receipt_def split: option.split list.split)
  have rs: "filter (\<lambda>e. receipt_key txt e = receipt_key txt (k, r)) (receipts txt events) = (if ?rows = [] then [] else [last ?rows])"
    unfolding receipts_def by (rule last_of_each_filter)
  show thesis
  proof (cases "?rows = []")
    case True
    then show thesis using fresh prior rs by simp
  next
    case False
    then have "last ?rows \<in> set ?rows" by (rule last_in_set)
    then show thesis using again [of "snd (last ?rows)" "fst (last ?rows)"] prior rs False by auto
  qed
qed

section \<open>Ranges\<close>

definition usage_rows :: "(int \<times> event_row) list \<Rightarrow> (int \<times> event_row) list" where
  "usage_rows events = filter (\<lambda>(_, r). claude_receipt_row r) events"

definition usage_ok :: "int \<times> event_row \<Rightarrow> bool" where
  "usage_ok e \<longleftrightarrow> all_components (\<lambda>n. 0 \<le> n \<and> n \<le> uu_total (row_usage e)) (uu_spend (row_usage e)) \<and> 0 \<le> uu_total (row_usage e)"

lemma usage_rows_ok:
  assumes "claude_log txt events" "e \<in> set (usage_rows events)"
  shows "usage_ok e"
proof -
  obtain k r where e: "e = (k, r)" "(k, r) \<in> set events" "claude_receipt_row r" using assms(2) by (auto simp: usage_rows_def)
  then have "claude_record_ok txt r" using assms(1) by (auto simp: claude_log_def list_all_iff)
  then obtain u where "extract_claude_usage (ev_payload r) = Some u" using e(3) claude_receipt_iff by blast
  with extract_claude_parts(5) [OF this] show ?thesis by (auto simp: usage_ok_def row_usage_def e all_components_def)
qed

lemma sum_sub_le:
  fixes g h :: "'a \<Rightarrow> int"
  shows "\<forall>x \<in> set xs. 0 \<le> g x \<and> g x \<le> h x \<Longrightarrow> 0 \<le> sum_list (map g (filter P xs)) \<and> sum_list (map g (filter P xs)) \<le> sum_list (map h xs)"
  by (induction xs) auto

lemma spend_range:
  assumes "\<forall>e \<in> set es. usage_ok e" "total_of es \<le> i64_max"
  shows "all_components (\<lambda>n. 0 \<le> n \<and> n \<le> i64_max) (spend_of (filter P es))" "0 \<le> total_of es"
proof -
  have "0 \<le> sum_list (map (g \<circ> uu_spend \<circ> row_usage) (filter P es)) \<and> sum_list (map (g \<circ> uu_spend \<circ> row_usage) (filter P es)) \<le> i64_max"
    if "g \<in> {uc_input, uc_cached, uc_cache_write, uc_cache_write_1h, uc_output}" for g
  proof -
    have "\<forall>x \<in> set es. 0 \<le> (g \<circ> uu_spend \<circ> row_usage) x \<and> (g \<circ> uu_spend \<circ> row_usage) x \<le> (uu_total \<circ> row_usage) x"
      using assms(1) that by (auto simp: usage_ok_def all_components_def)
    from sum_sub_le [OF this, of P] assms(2) show ?thesis by (simp add: total_of_def comp_def)
  qed
  then show "all_components (\<lambda>n. 0 \<le> n \<and> n \<le> i64_max) (spend_of (filter P es))"
    by (simp add: all_components_def spend_of_def sum_components_def comp_def)
  show "0 \<le> total_of es" using assms(1) unfolding total_of_def by (induction es) (auto simp: usage_ok_def)
qed

lemma receipts_sub: "set (receipts txt events) \<subseteq> set (usage_rows events)"
  using set_last_of_each by (force simp: receipts_def usage_rows_def)

lemma total_receipts_le:
  assumes "\<forall>e \<in> set (usage_rows events). usage_ok e"
  shows "total_of (receipts txt events) \<le> total_of (usage_rows events)"
proof -
  have "sum_list (map g (last_of_each f xs)) \<le> sum_list (map g xs)" if "\<forall>x \<in> set xs. 0 \<le> g x" for g :: "int \<times> event_row \<Rightarrow> int" and f :: "int \<times> event_row \<Rightarrow> string" and xs
    using that by (induction xs) auto
  then show ?thesis using assms by (auto simp: receipts_def usage_rows_def total_of_def usage_ok_def)
qed

section \<open>One receipt\<close>

lemma check_components_ok: "all_components (\<lambda>n. 0 \<le> n \<and> n \<le> i64_max) c \<Longrightarrow> check_components c = Inr ()"
  by (simp add: check_components_def all_components_def)

lemma check_session_ok:
  assumes "all_components (\<lambda>n. 0 \<le> n \<and> n \<le> i64_max) (su_spend r)" "su_reasoning r = 0" "0 \<le> su_total r" "su_total r \<le> i64_max"
    "\<forall>n. su_context r = Some n \<longrightarrow> 0 \<le> n" "\<forall>w. su_window r = Some w \<longrightarrow> 0 < w"
  shows "check_session r = Inr ()"
  using assms by (auto simp: check_session_def all_components_def i64_max_def split: option.split)

lemma map_of_filter_keys: "map_of (filter (\<lambda>(key, _). key \<in> S) m) key = (if key \<in> S then map_of m key else None)"
  by (induction m) auto

lemma btm_ok_filter_rows: "btm_ok m \<Longrightarrow> btm_ok (filter P m)"
  by (induction m) (auto simp: btm_ok_Cons)

lemma add_model_daily_ok:
  assumes "all_components (\<lambda>n. 0 \<le> n \<and> n \<le> i64_max) c"
    "all_components (\<lambda>n. 0 \<le> n \<and> n \<le> i64_max) (zip_components (+) (unwrap_or (map_option md_spend (map_of (ut_models t) (date_naive ts, model))) no_components) c)"
  shows "\<exists>row. add_model_daily agent model ts c i t = Inr (t\<lparr>ut_models := btm_insert (date_naive ts, model) row (ut_models t)\<rparr>)
    \<and> md_spend row = zip_components (+) (unwrap_or (map_option md_spend (map_of (ut_models t) (date_naive ts, model))) no_components) c"
  using assms check_components_ok
  by (cases "map_of (ut_models t) (date_naive ts, model)") (auto simp: add_model_daily_def Let_def)

text \<open>The buckets while one receipt takes the place of another: the tokens of the old one are gone, its bucket is still there.\<close>

definition removed_spend ::
  "(json \<Rightarrow> string) \<Rightarrow> (int \<times> event_row) list \<Rightarrow> (int \<times> event_row) option \<Rightarrow> int \<times> string \<Rightarrow> usage_components option" where
  "removed_spend txt rest old key =
     (if key \<in> receipt_bucket txt ` set rest then Some (spend_of (filter (\<lambda>x. receipt_bucket txt x = key) rest))
      else if map_option (receipt_bucket txt) old = Some key then Some no_components else None)"

lemma in_bucket: "key \<in> bucket ` set xs \<longleftrightarrow> filter (\<lambda>x. bucket x = key) xs \<noteq> []"
  by (auto simp: filter_empty_conv)

lemma no_bucket: "key \<notin> bucket ` set xs \<Longrightarrow> filter (\<lambda>x. bucket x = key) xs = []"
  by (auto simp: filter_empty_conv)

lemma replaced_bucket:
  assumes rest: "rest = filter (\<lambda>x. \<not> K x) rs" and old: "filter K rs = (case old of None \<Rightarrow> [] | Some p \<Rightarrow> [p])"
  shows "removed_spend txt rest old key = (if map_option (receipt_bucket txt) old = Some key
      then Some (zip_components (-) (the (bucket_spend txt rs key)) (uu_spend (row_usage (the old)))) else bucket_spend txt rs key)"
    "map_option (receipt_bucket txt) old = Some key \<Longrightarrow> bucket_spend txt rs key \<noteq> None"
proof -
  let ?B = "receipt_bucket txt" and ?in = "filter (\<lambda>x. receipt_bucket txt x = key)"
  have swap: "?in rest = filter (\<lambda>x. \<not> K x) (?in rs)" "filter K (?in rs) = ?in (filter K rs)"
    by (simp_all add: rest conj_commute)
  have set: "set rs = set rest \<union> set (filter K rs)" by (auto simp: rest)
  show some: "bucket_spend txt rs key \<noteq> None" if "map_option ?B old = Some key"
    using that set old by (auto simp: bucket_spend_def)
  show "removed_spend txt rest old key = (if map_option ?B old = Some key
      then Some (zip_components (-) (the (bucket_spend txt rs key)) (uu_spend (row_usage (the old)))) else bucket_spend txt rs key)"
  proof (cases "map_option ?B old = Some key")
    case True
    then obtain p where p: "old = Some p" "?B p = key" by auto
    then have "filter K (?in rs) = [p]" using swap(2) old by simp
    from spend_of_without [OF this] have "spend_of (?in rest) = zip_components (-) (spend_of (?in rs)) (uu_spend (row_usage p))"
      using swap(1) by simp
    then show ?thesis using some [OF True] p no_bucket [of key ?B rest]
      by (cases "key \<in> ?B ` set rest") (auto simp: removed_spend_def bucket_spend_def)
  next
    case False
    then have "filter K (?in rs) = []" using swap(2) old by (auto split: option.splits)
    then have "?in rest = ?in rs" unfolding swap(1) by (metis (mono_tags, lifting) filter_True filter_empty_conv)
    then have "removed_spend txt rest old key = bucket_spend txt rs key"
      unfolding removed_spend_def bucket_spend_def in_bucket using False by (simp only: if_False simp_thms split: if_split)
    then show ?thesis by (subst if_not_P [OF False])
  qed
qed

lemma removed_plus:
  "unwrap_or (removed_spend txt rest old key) no_components = spend_of (filter (\<lambda>x. receipt_bucket txt x = key) rest)"
  using no_bucket [of key "receipt_bucket txt" rest] by (auto simp: removed_spend_def)

lemma bucket_spend_next:
  "bucket_spend txt (rest @ [e]) key =
     (if key = receipt_bucket txt e
      then Some (zip_components (+) (spend_of (filter (\<lambda>x. receipt_bucket txt x = key) rest)) (uu_spend (row_usage e)))
      else if key \<in> receipt_bucket txt ` set (rest @ [e]) then removed_spend txt rest old key else None)"
  by (auto simp: bucket_spend_def removed_spend_def)

lemma remove_contribution_ok:
  assumes m: "\<And>key. map_option md_spend (map_of (ut_models t) key) = bucket_spend txt rs key" "btm_ok (ut_models t)"
    and rest: "rest = filter (\<lambda>x. \<not> K x) rs" and old: "filter K rs = [(k, p)]"
    and key: "receipt_bucket txt (k, p) = (day, unwrap_or (uu_model (row_usage (k, p))) UNKNOWN_MODEL)"
    and range: "\<And>key. all_components (\<lambda>n. 0 \<le> n \<and> n \<le> i64_max) (spend_of (filter (\<lambda>x. receipt_bucket txt x = key) rest))"
  shows "\<exists>ms. remove_contribution day (row_usage (k, p)) t = Inr (t\<lparr>ut_models := ms\<rparr>) \<and> btm_ok ms
    \<and> (\<forall>key. map_option md_spend (map_of ms key) = removed_spend txt rest (Some (k, p)) key)"
proof -
  let ?key = "(day, unwrap_or (uu_model (row_usage (k, p))) UNKNOWN_MODEL)"
  note r = replaced_bucket [OF rest, of "Some (k, p)"]
  have "bucket_spend txt rs ?key \<noteq> None" by (rule r(2)) (use old key in simp_all)
  then obtain row where row: "map_of (ut_models t) ?key = Some row" "bucket_spend txt rs ?key = Some (md_spend row)"
    using m(1) [of ?key] by (cases "map_of (ut_models t) ?key") auto
  let ?c = "zip_components (-) (md_spend row) (uu_spend (row_usage (k, p)))"
  have removed: "removed_spend txt rest (Some (k, p)) ?key = Some ?c"
    using r(1) [of "txt" ?key] old key row(2) by simp
  then have "?c = spend_of (filter (\<lambda>x. receipt_bucket txt x = ?key) rest)"
    using removed_plus [of "txt" rest "Some (k, p)" ?key] by simp
  then have "check_components ?c = Inr ()" using range check_components_ok by simp
  then have "remove_contribution day (row_usage (k, p)) t = Inr (t\<lparr>ut_models := btm_insert ?key (row\<lparr>md_spend := ?c\<rparr>) (ut_models t)\<rparr>)"
    using row(1) by (simp add: remove_contribution_def Let_def)
  moreover have "map_option md_spend (map_of (btm_insert ?key (row\<lparr>md_spend := ?c\<rparr>) (ut_models t)) key) = removed_spend txt rest (Some (k, p)) key" for key
  proof (cases "key = ?key")
    case True
    then show ?thesis using removed by simp
  next
    case False
    then show ?thesis using r(1) [of "txt" key] old key m(1) by simp
  qed
  ultimately show ?thesis using m(2) by blast
qed

lemma daily_delta_claude:
  assumes "extract_claude_usage v = Some u"
  shows "daily_delta u None = uu_spend u"
  using extract_claude_parts(1,5) [OF assms]
  by (auto simp: daily_delta_def map_components_def all_components_def)

lemma add_response_ok:
  assumes u: "extract_claude_usage v = Some u"
    and s: "case ut_session t of None \<Rightarrow> rs = []
      | Some r \<Rightarrow> su_spend r = spend_of rs \<and> su_total r = total_of rs \<and> su_reasoning r = 0 \<and> (\<forall>w. su_window r = Some w \<longrightarrow> 0 < w)"
    and d: "zip_components (+) (spend_of rs) (uu_spend delta) = spend_of rs'" "total_of rs + uu_total delta = total_of rs'" "uu_reasoning delta = 0"
    and range: "all_components (\<lambda>n. 0 \<le> n \<and> n \<le> i64_max) (spend_of rs')" "0 \<le> total_of rs'" "total_of rs' \<le> i64_max"
  shows "\<exists>r. add_response k ts u delta t = Inr (t\<lparr>ut_session := Some r\<rparr>) \<and> su_spend r = spend_of rs' \<and> su_total r = total_of rs'
    \<and> su_reasoning r = 0 \<and> su_last_byte_offset r = k \<and> (\<forall>w. su_window r = Some w \<longrightarrow> 0 < w)"
proof -
  define r0 where "r0 = (case ut_session t of Some r \<Rightarrow> r
    | None \<Rightarrow> \<lparr>su_agent = ''claude-code'', su_spend = no_components, su_reasoning = 0, su_total = 0, su_context = None,
        su_window = None, su_last_byte_offset = k, su_observed_at = ts, su_last_message_id = None, su_response_records = False\<rparr>)"
  define r where "r = r0\<lparr>su_spend := zip_components (+) (su_spend r0) (uu_spend delta),
    su_reasoning := su_reasoning r0 + uu_reasoning delta, su_total := su_total r0 + uu_total delta,
    su_context := uu_context u, su_window := or_else (uu_window u) (su_window r0),
    su_last_byte_offset := k, su_observed_at := ts, su_last_message_id := uu_message_id u\<rparr>"
  have base: "su_spend r0 = spend_of rs" "su_total r0 = total_of rs" "su_reasoning r0 = 0" "\<forall>w. su_window r0 = Some w \<longrightarrow> 0 < w"
    using s by (auto simp: r0_def total_of_def split: option.splits)
  have row: "su_spend r = spend_of rs'" "su_total r = total_of rs'" "su_reasoning r = 0" "su_last_byte_offset r = k"
      "\<forall>w. su_window r = Some w \<longrightarrow> 0 < w" "su_context r = Some (uu_total u)"
    using base d extract_claude_parts(7,8) [OF u] by (auto simp: r_def or_else_def split: option.splits)
  have "0 \<le> uu_total u" using extract_claude_parts(5) [OF u] by (auto simp: all_components_def)
  then have "check_session r = Inr ()" using row range by (intro check_session_ok) auto
  moreover have "add_response k ts u delta t = res_bind (check_session r) (\<lambda>_. Inr (t\<lparr>ut_session := Some r\<rparr>))"
    unfolding add_response_def Let_def r_def r0_def ..
  ultimately show ?thesis using row by auto
qed

text \<open>One receipt, as the code applies it: what it replaces, and the rows afterwards.\<close>

lemma receipt_replaces:
  assumes log: "claude_log txt (events @ [(k, r)])" and u: "extract_claude_usage (ev_payload r) = Some u"
  obtains rest old where "receipts txt (events @ [(k, r)]) = rest @ [(k, r)]"
    "rest = filter (\<lambda>e. \<not> receipt_key txt e = receipt_key txt (k, r)) (receipts txt events)"
    "filter (\<lambda>e. receipt_key txt e = receipt_key txt (k, r)) (receipts txt events) = (case old of None \<Rightarrow> [] | Some p \<Rightarrow> [p])"
    "prior_receipt txt (events @ [(k, r)]) (uu_message_id u) k = map_option snd old"
    "\<And>p. old = Some p \<Longrightarrow> extract_claude_usage (ev_payload (snd p)) = Some (row_usage p)"
    "\<And>p. old = Some p \<Longrightarrow> receipt_bucket txt p = (date_naive (ev_timestamp (snd p)), unwrap_or (uu_model (row_usage p)) UNKNOWN_MODEL)"
proof -
  note rec = claude_log_snoc(3) [OF log] and parts = extract_claude_parts [OF u]
  have receipt: "claude_receipt_row r" using claude_receipt_iff [OF rec] u by simp
  have upd: "receipts txt (events @ [(k, r)]) = filter (\<lambda>e. \<not> receipt_key txt e = receipt_key txt (k, r)) (receipts txt events) @ [(k, r)]"
    using receipts_next [OF receipt] by simp
  show thesis
  proof (rule replaced_receipt [OF log])
    assume "prior_receipt txt (events @ [(k, r)]) (path_str (ev_payload r) [''message'', ''id'']) k = None"
      "filter (\<lambda>e. receipt_key txt e = receipt_key txt (k, r)) (receipts txt events) = []"
    then show thesis using that [OF upd refl, of None] parts(2) by simp
  next
    fix k' p
    assume p: "prior_receipt txt (events @ [(k, r)]) (path_str (ev_payload r) [''message'', ''id'']) k = Some p"
      "filter (\<lambda>e. receipt_key txt e = receipt_key txt (k, r)) (receipts txt events) = [(k', p)]" "(k', p) \<in> set events" "claude_receipt_row p"
    have ok: "claude_record_ok txt p" using claude_log_snoc(1) [OF log] p(3) by auto
    then have ex: "extract_claude_usage (ev_payload p) = Some (row_usage (k', p))"
      using claude_receipt_iff [OF ok] p(4) by (auto simp: row_usage_def)
    have "receipt_bucket txt (k', p) = (date_naive (ev_timestamp p), unwrap_or (uu_model (row_usage (k', p))) UNKNOWN_MODEL)"
      using ok extract_claude_parts(3) [OF ex] by (simp add: receipt_bucket_def claude_record_ok_def)
    then show thesis using that [OF upd refl, of "Some (k', p)"] p(1,2) ex parts(2) by simp
  qed
qed

text \<open>The sums of the session after a receipt.\<close>

lemma receipt_sums:
  assumes rest: "rest = filter (\<lambda>x. \<not> K x) rs" and old: "filter K rs = (case old of None \<Rightarrow> [] | Some p \<Rightarrow> [p])"
    and e: "row_usage e = u" "uu_reasoning u = 0" "\<And>p. old = Some p \<Longrightarrow> uu_reasoning (row_usage p) = 0"
    and d: "delta = claude_response_delta u (map_option row_usage old)"
  shows "zip_components (+) (spend_of rs) (uu_spend delta) = spend_of (rest @ [e])" "total_of rs + uu_total delta = total_of (rest @ [e])"
    "uu_reasoning delta = 0"
proof -
  have "zip_components (+) (spend_of rs) (uu_spend delta) = spend_of (rest @ [e]) \<and> total_of rs + uu_total delta = total_of (rest @ [e])
      \<and> uu_reasoning delta = 0"
  proof (cases old)
    case None
    then have "filter K rs = []" using old by simp
    then have "rest = rs" by (simp add: rest filter_empty_conv)
    then show ?thesis using None e by (simp add: d claude_response_delta_def total_of_def)
  next
    case (Some p)
    then have "filter K rs = [p]" using old by simp
    from spend_of_without [OF this] total_of_without [OF this]
    have "spend_of rest = zip_components (-) (spend_of rs) (uu_spend (row_usage p))" "total_of rest = total_of rs - uu_total (row_usage p)"
      by (simp_all add: rest)
    then show ?thesis using Some e by (simp add: d claude_response_delta_def total_of_def zip_components_def)
  qed
  then show "zip_components (+) (spend_of rs) (uu_spend delta) = spend_of (rest @ [e])" "total_of rs + uu_total delta = total_of (rest @ [e])"
    "uu_reasoning delta = 0" by simp_all
qed


text \<open>The buckets once the old receipt has been taken out and the new one added.\<close>

lemma bucket_step:
  assumes m: "\<And>key. map_option md_spend (map_of (ut_models t) key) = bucket_spend txt rs key" "btm_ok (ut_models t)"
    and rest: "rest = filter (\<lambda>x. \<not> K x) rs" and old: "filter K rs = (case old of None \<Rightarrow> [] | Some p \<Rightarrow> [p])"
    and key: "\<And>p. old = Some p \<Longrightarrow> receipt_bucket txt p = (date_naive (ev_timestamp (snd p)), unwrap_or (uu_model (row_usage p)) UNKNOWN_MODEL)"
    and e: "receipt_bucket txt e = (date_naive ts, model)" "c = uu_spend (row_usage e)" "all_components (\<lambda>n. 0 \<le> n \<and> n \<le> i64_max) c"
    and range: "\<And>P. all_components (\<lambda>n. 0 \<le> n \<and> n \<le> i64_max) (spend_of (filter P rest))"
      "\<And>P. all_components (\<lambda>n. 0 \<le> n \<and> n \<le> i64_max) (spend_of (filter P (rest @ [e])))"
  shows "\<exists>ms. res_bind (case map_option (\<lambda>p. (date_naive (ev_timestamp (snd p)), row_usage p)) old of
        Some (day, p) \<Rightarrow> remove_contribution day p t | None \<Rightarrow> Inr t) (add_model_daily agent model ts c i) = Inr (t\<lparr>ut_models := ms\<rparr>)
    \<and> btm_ok ms
    \<and> (\<forall>key. map_option md_spend (map_of ms key) = (if key = receipt_bucket txt e
          then Some (zip_components (+) (spend_of (filter (\<lambda>x. receipt_bucket txt x = key) rest)) c) else removed_spend txt rest old key))"
proof -
  obtain ms0 where ms0: "(case map_option (\<lambda>p. (date_naive (ev_timestamp (snd p)), row_usage p)) old of
        Some (day, p) \<Rightarrow> remove_contribution day p t | None \<Rightarrow> Inr t) = Inr (t\<lparr>ut_models := ms0\<rparr>)"
      "btm_ok ms0" "\<And>key. map_option md_spend (map_of ms0 key) = removed_spend txt rest old key"
  proof (cases old)
    case None
    have "removed_spend txt rest old key = bucket_spend txt rs key" for key
      using replaced_bucket(1) [OF rest old, of "txt" key] None by simp
    then show thesis using that [of "ut_models t"] None m by simp
  next
    case (Some q)
    obtain k p where q: "q = (k, p)" by fastforce
    have "filter K rs = [(k, p)]" using old Some q by simp
    from remove_contribution_ok [OF m rest this, of "date_naive (ev_timestamp p)"] key [of q] range(1) Some q
    show thesis using that by auto
  qed
  let ?t = "t\<lparr>ut_models := ms0\<rparr>" and ?key = "(date_naive ts, model)"
  have base: "unwrap_or (map_option md_spend (map_of (ut_models ?t) ?key)) no_components = spend_of (filter (\<lambda>x. receipt_bucket txt x = ?key) rest)"
    using ms0(3) removed_plus by simp
  have "all_components (\<lambda>n. 0 \<le> n \<and> n \<le> i64_max) (zip_components (+) (spend_of (filter (\<lambda>x. receipt_bucket txt x = ?key) rest)) c)"
    using range(2) [of "\<lambda>x. receipt_bucket txt x = ?key"] e by simp
  with add_model_daily_ok [of c ?t ts model agent i, unfolded base, OF e(3)]
  obtain row where "add_model_daily agent model ts c i ?t = Inr (?t\<lparr>ut_models := btm_insert ?key row (ut_models ?t)\<rparr>)"
      "md_spend row = zip_components (+) (spend_of (filter (\<lambda>x. receipt_bucket txt x = ?key) rest)) c" by blast
  then show ?thesis using ms0 e(1) by (intro exI [of _ "btm_insert ?key row ms0"]) auto
qed

lemma bucket_drop:
  assumes ms: "\<And>key. map_option md_spend (map_of ms key) = (if key = receipt_bucket txt e
          then Some (zip_components (+) (spend_of (filter (\<lambda>x. receipt_bucket txt x = key) rest)) (uu_spend (row_usage e)))
          else removed_spend txt rest old key)"
  shows "map_option md_spend (map_of (filter (\<lambda>(key, _). key \<in> receipt_bucket txt ` set (rest @ [e])) ms) key) = bucket_spend txt (rest @ [e]) key"
    "(\<And>p. old = Some p \<Longrightarrow> receipt_bucket txt p = receipt_bucket txt e) \<Longrightarrow>
      map_option md_spend (map_of ms key) = bucket_spend txt (rest @ [e]) key"
proof -
  show "map_option md_spend (map_of (filter (\<lambda>(key, _). key \<in> receipt_bucket txt ` set (rest @ [e])) ms) key) = bucket_spend txt (rest @ [e]) key"
    unfolding map_of_filter_keys bucket_spend_next [where old = old] using ms by auto
  assume "\<And>p. old = Some p \<Longrightarrow> receipt_bucket txt p = receipt_bucket txt e"
  then have "removed_spend txt rest old key = None" if "key \<notin> receipt_bucket txt ` set (rest @ [e])"
    using that by (auto simp: removed_spend_def)
  then show "map_option md_spend (map_of ms key) = bucket_spend txt (rest @ [e]) key"
    unfolding bucket_spend_next [where old = old] ms by auto
qed


lemma daily_keeps [simp]:
  "ut_session (snapshot_daily ts t) = ut_session t" "ut_models (snapshot_daily ts t) = ut_models t"
  "ut_session (rebuild_daily_snapshots t) = ut_session t" "ut_models (rebuild_daily_snapshots t) = ut_models t"
  by (simp_all add: snapshot_daily_def rebuild_daily_snapshots_def split: option.split)

lemma apply_response_parts:
  assumes prior: "prior_receipt txt events (uu_message_id u) k = map_option snd old"
    and ex: "\<And>p. old = Some p \<Longrightarrow> extract_claude_usage (ev_payload (snd p)) = Some (row_usage p)"
    and add: "add_response k ts u (claude_response_delta u (map_option row_usage old)) t = Inr t1"
    and step: "res_bind (case map_option (\<lambda>p. (date_naive (ev_timestamp (snd p)), row_usage p)) old of
        Some (day, p) \<Rightarrow> remove_contribution day p t1 | None \<Rightarrow> Inr t1)
        (add_model_daily ''claude-code'' (unwrap_or (uu_model u) UNKNOWN_MODEL) ts (daily_delta u None) (uu_message_id u)) = Inr t2"
  shows "\<exists>t'. apply_response txt events k ts u t = Inr t' \<and> ut_session t' = ut_session t2 \<and>
    (ut_models t' = ut_models (drop_empty_buckets txt events t2)
     \<or> ut_models t' = ut_models t2 \<and> (\<forall>p. old = Some p \<longrightarrow> date_naive (ev_timestamp (snd p)) = date_naive ts \<and> uu_model (row_usage p) = uu_model u))"
proof -
  have keeps: "ut_session (drop_empty_buckets txt events t2) = ut_session t2" by (simp add: drop_empty_buckets_def)
  show ?thesis
  proof (cases old)
    case None
    then show ?thesis using prior add step by (simp add: apply_response_def Let_def)
  next
    case (Some p)
    obtain t3 where "remove_contribution (date_naive (ev_timestamp (snd p))) (row_usage p) t1 = Inr t3"
        "add_model_daily ''claude-code'' (unwrap_or (uu_model u) UNKNOWN_MODEL) ts (daily_delta u None) (uu_message_id u) t3 = Inr t2"
      using step Some by (cases "remove_contribution (date_naive (ev_timestamp (snd p))) (row_usage p) t1") auto
    then show ?thesis using prior add Some ex [OF Some] keeps
      by (auto simp: apply_response_def Let_def)
  qed
qed

lemma counted_receipt:
  assumes c: "counted txt events t" and log: "claude_log txt (events @ [(k, r)])" and u: "extract_claude_usage (ev_payload r) = Some u"
    and bound: "total_of (usage_rows (events @ [(k, r)])) \<le> i64_max"
  shows "\<exists>t'. apply_response txt (events @ [(k, r)]) k (ev_timestamp r) u t = Inr t' \<and> counted txt (events @ [(k, r)]) t'"
proof -
  let ?events = "events @ [(k, r)]" and ?e = "(k, r)" and ?range = "all_components (\<lambda>n. 0 \<le> n \<and> n \<le> i64_max)"
  obtain rest old where rs': "receipts txt ?events = rest @ [?e]"
    and rest: "rest = filter (\<lambda>e. \<not> receipt_key txt e = receipt_key txt ?e) (receipts txt events)"
    and old: "filter (\<lambda>e. receipt_key txt e = receipt_key txt ?e) (receipts txt events) = (case old of None \<Rightarrow> [] | Some p \<Rightarrow> [p])"
    and prior: "prior_receipt txt ?events (uu_message_id u) k = map_option snd old"
    and ex: "\<And>p. old = Some p \<Longrightarrow> extract_claude_usage (ev_payload (snd p)) = Some (row_usage p)"
    and key: "\<And>p. old = Some p \<Longrightarrow> receipt_bucket txt p = (date_naive (ev_timestamp (snd p)), unwrap_or (uu_model (row_usage p)) UNKNOWN_MODEL)"
    by (rule receipt_replaces [OF log u]) blast
  have row: "row_usage ?e = u" using u by (simp add: row_usage_def)
  have bucket: "receipt_bucket txt ?e = (date_naive (ev_timestamp r), unwrap_or (uu_model u) UNKNOWN_MODEL)"
    using claude_log_snoc(3) [OF log] extract_claude_parts(3) [OF u] by (simp add: receipt_bucket_def claude_record_ok_def)
  have ok: "\<forall>e \<in> set (rest @ [?e]). usage_ok e" using usage_rows_ok [OF log] receipts_sub [of "txt" ?events] rs' by auto
  have le: "total_of (rest @ [?e]) \<le> i64_max"
    using total_receipts_le [of ?events "txt"] usage_rows_ok [OF log] bound rs' by simp
  note range = spend_range [OF ok le]
  have "total_of rest \<le> total_of (rest @ [?e])" using ok by (simp add: total_of_def usage_ok_def)
  then have "total_of rest \<le> i64_max" using le by simp
  from spend_range(1) [OF _ this] ok have range_rest: "?range (spend_of (filter P rest))" for P by simp
  have range_u: "?range (uu_spend u)"
    using extract_claude_parts(5,6) [OF u] by (auto simp: all_components_def)
  let ?delta = "claude_response_delta u (map_option row_usage old)"
  have sums: "zip_components (+) (spend_of (receipts txt events)) (uu_spend ?delta) = spend_of (rest @ [?e])"
      "total_of (receipts txt events) + uu_total ?delta = total_of (rest @ [?e])" "uu_reasoning ?delta = 0"
    using receipt_sums [OF rest old row extract_claude_parts(4) [OF u] _ refl] extract_claude_parts(4) [OF ex] by blast+
  have s: "case ut_session t of None \<Rightarrow> receipts txt events = []
      | Some r \<Rightarrow> su_spend r = spend_of (receipts txt events) \<and> su_total r = total_of (receipts txt events) \<and> su_reasoning r = 0
          \<and> (\<forall>w. su_window r = Some w \<longrightarrow> 0 < w)"
    using c by (auto simp: counted_def split: option.splits)
  obtain row' where add: "add_response k (ev_timestamp r) u ?delta t = Inr (t\<lparr>ut_session := Some row'\<rparr>)"
    and row': "su_spend row' = spend_of (rest @ [?e])" "su_total row' = total_of (rest @ [?e])" "su_reasoning row' = 0"
      "su_last_byte_offset row' = k" "\<forall>w. su_window row' = Some w \<longrightarrow> 0 < w"
    using add_response_ok [OF u s sums _ range(2) le] range(1) [of "\<lambda>_. True", unfolded filter_True [OF ballI [OF TrueI]]] by blast
  let ?t1 = "t\<lparr>ut_session := Some row'\<rparr>"
  have m: "\<And>key. map_option md_spend (map_of (ut_models ?t1) key) = bucket_spend txt (receipts txt events) key" "btm_ok (ut_models ?t1)"
    using c by (simp_all add: counted_def del: split_paired_All)
  have c': "daily_delta u None = uu_spend (row_usage ?e)" "?range (daily_delta u None)" using daily_delta_claude [OF u] row range_u by simp_all
  obtain ms where step: "res_bind (case map_option (\<lambda>p. (date_naive (ev_timestamp (snd p)), row_usage p)) old of
        Some (day, p) \<Rightarrow> remove_contribution day p ?t1 | None \<Rightarrow> Inr ?t1)
        (add_model_daily ''claude-code'' (unwrap_or (uu_model u) UNKNOWN_MODEL) (ev_timestamp r) (daily_delta u None) (uu_message_id u))
        = Inr (?t1\<lparr>ut_models := ms\<rparr>)" and ms: "btm_ok ms"
      "\<And>key. map_option md_spend (map_of ms key) = (if key = receipt_bucket txt ?e
          then Some (zip_components (+) (spend_of (filter (\<lambda>x. receipt_bucket txt x = key) rest)) (daily_delta u None)) else removed_spend txt rest old key)"
    using bucket_step [OF m rest old key bucket c' range_rest range(1)] by blast
  obtain t' where t': "apply_response txt ?events k (ev_timestamp r) u t = Inr t'" "ut_session t' = Some row'"
      "ut_models t' = filter (\<lambda>(key, _). key \<in> receipt_bucket txt ` set (rest @ [?e])) ms
       \<or> ut_models t' = ms \<and> (\<forall>p. old = Some p \<longrightarrow> receipt_bucket txt p = receipt_bucket txt ?e)"
    using apply_response_parts [OF prior ex add step] key bucket by (auto simp: drop_empty_buckets_def rs')
  note drop = bucket_drop [OF ms(2) [unfolded c'(1)]]
  have "btm_ok (ut_models t')" using t'(3) ms(1) btm_ok_filter_rows by metis
  moreover have "map_option md_spend (map_of (ut_models t') key) = bucket_spend txt (rest @ [?e]) key" for key
    using t'(3) drop(1) drop(2) by metis
  ultimately have "counted txt ?events t'" using t'(2) row' by (simp add: counted_def rs')
  with t'(1) show ?thesis by blast
qed

section \<open>A log\<close>

lemma claude_log_prefix:
  assumes "claude_log txt (seen @ rest)"
  shows "claude_log txt seen"
proof -
  have "btm_ok seen" using assms by (simp add: claude_log_def btm_ok_def sorted_wrt_append)
  moreover have "list_all (\<lambda>(k, r). 0 \<le> k \<and> claude_record_ok txt r) seen" using assms by (simp add: claude_log_def)
  moreover have "list_all (\<lambda>(_, r). list_all (\<lambda>(k, _). path_str (ev_payload r) [''message'', ''id''] \<noteq> Some (show_int k)) (seen @ rest)) seen"
    using assms by (simp add: claude_log_def case_prod_unfold)
  ultimately show ?thesis by (simp add: claude_log_def list_all_iff case_prod_unfold)
qed

lemma total_of_prefix:
  assumes "claude_log txt (seen @ rest)"
  shows "total_of (usage_rows seen) \<le> total_of (usage_rows (seen @ rest))"
proof -
  have "\<forall>e \<in> set (usage_rows rest). usage_ok e" using usage_rows_ok [OF assms] by (auto simp: usage_rows_def)
  then have "0 \<le> sum_list (map (uu_total \<circ> row_usage) (usage_rows rest))" by (intro sum_list_nonneg) (auto simp: usage_ok_def)
  then show ?thesis by (simp add: total_of_def usage_rows_def)
qed

lemma counted_event:
  assumes c: "counted txt seen t" and log: "claude_log txt (seen @ [(k, r)])" and bound: "total_of (usage_rows (seen @ [(k, r)])) \<le> i64_max"
  shows "\<exists>t'. upsert_from_event txt (seen @ [(k, r)]) ClaudeCode k (ev_timestamp r) (ev_payload r) t = Inr t' \<and> counted txt (seen @ [(k, r)]) t'"
proof (cases "extract_claude_usage (ev_payload r)")
  case None
  then have "\<not> claude_receipt_row r" using claude_receipt_iff [OF claude_log_snoc(3) [OF log]] by simp
  from receipts_other [OF this] c have "counted txt (seen @ [(k, r)]) t"
    by (auto simp: counted_def split: option.splits)
  then show ?thesis using None by (simp add: upsert_from_event_def extract_usage_def)
next
  case (Some u)
  have "\<not> (case ut_session t of None \<Rightarrow> False | Some r \<Rightarrow> k \<le> su_last_byte_offset r)"
    using c claude_log_snoc(1) [OF log] by (force simp: counted_def split: option.splits)
  then show ?thesis using counted_receipt [OF c log Some bound] Some
    by (simp add: upsert_from_event_def extract_usage_def Let_def)
qed

lemma counted_log:
  assumes "counted txt seen t" "claude_log txt (seen @ rest)" "total_of (usage_rows (seen @ rest)) \<le> i64_max"
  shows "\<exists>t'. ingest_usage txt ClaudeCode seen rest t = Inr t' \<and> counted txt (seen @ rest) t'"
  using assms
proof (induction rest arbitrary: seen t)
  case (Cons x rest)
  obtain k r where x: "x = (k, r)" by fastforce
  have split: "seen @ x # rest = (seen @ [(k, r)]) @ rest" by (simp add: x)
  note log = Cons.prems(2) [unfolded split] and bound = Cons.prems(3) [unfolded split]
  have now: "claude_log txt (seen @ [(k, r)])" using claude_log_prefix [OF log] .
  have own: "ev_subtype r \<noteq> Some ''inherited_history''" using claude_log_snoc(3) [OF now] by (simp add: claude_record_ok_def)
  have "total_of (usage_rows (seen @ [(k, r)])) \<le> i64_max" using total_of_prefix [OF log] bound by simp
  from counted_event [OF Cons.prems(1) now this] obtain t1
    where t1: "upsert_from_event txt (seen @ [(k, r)]) ClaudeCode k (ev_timestamp r) (ev_payload r) t = Inr t1" "counted txt (seen @ [(k, r)]) t1" by blast
  from Cons.IH [OF t1(2) log bound] t1(1) own show ?case by (simp add: x)
qed simp

lemma counted_empty: "counted txt [] empty_usage"
  by (simp add: counted_def empty_usage_def receipts_def bucket_spend_def)

text \<open>
  C40: when the responses of a Claude session have been ingested, each of them counts once, with the
  tokens, the day and the model of its last receipt, however often it was reported before: the row of
  the session holds the sums over the last receipts, and each row of a day and model the sums over the
  last receipts of that day and model, and there is no other such row.
\<close>

theorem claude_responses_counted_once:
  assumes "claude_log txt events" "total_of (usage_rows events) \<le> i64_max"
  shows "\<exists>t. ingest_usage txt ClaudeCode [] events empty_usage = Inr t
    \<and> map_option (\<lambda>r. (su_spend r, su_total r)) (ut_session t)
        = (if receipts txt events = [] then None else Some (spend_of (receipts txt events), total_of (receipts txt events)))
    \<and> (\<forall>key. map_option md_spend (map_of (ut_models t) key)
        = (if key \<in> receipt_bucket txt ` set (receipts txt events)
           then Some (spend_of (filter (\<lambda>e. receipt_bucket txt e = key) (receipts txt events))) else None))"
proof -
  obtain t where t: "ingest_usage txt ClaudeCode [] events empty_usage = Inr t" and c: "counted txt events t"
    using counted_log [OF counted_empty, of "txt" events] assms by auto
  have "map_option (\<lambda>r. (su_spend r, su_total r)) (ut_session t)
      = (if receipts txt events = [] then None else Some (spend_of (receipts txt events), total_of (receipts txt events)))"
    using c by (auto simp: counted_def split: option.splits)
  moreover have "\<forall>key. map_option md_spend (map_of (ut_models t) key) = bucket_spend txt (receipts txt events) key"
    using c unfolding counted_def by blast
  ultimately show ?thesis using t unfolding bucket_spend_def by blast
qed

text \<open>A response reported on two days, the second time with more output and another model, and a response without an id.\<close>

definition sample_receipt :: "time \<Rightarrow> (string \<times> json) list \<Rightarrow> int \<Rightarrow> event_row" where
  "sample_receipt ts names n = (sample_record ''assistant'' (JObj [(''type'', JStr ''assistant''),
     (''message'', JObj (names @ [(''usage'', JObj [(''input_tokens'', JInt 10), (''output_tokens'', JInt n)])]))]))
     \<lparr>ev_agent := ''claude-code'', ev_timestamp := ts\<rparr>"

definition sample_receipts :: "(int, event_row) btree_map" where
  "sample_receipts =
     [(0, sample_receipt 0 [(''id'', JStr ''m1''), (''model'', JStr ''a'')] 5),
      (10, sample_receipt 86400000000 [(''id'', JStr ''m1''), (''model'', JStr ''b'')] 20),
      (20, sample_receipt 86400000000 [] 7)]"

theorem claude_responses_counted_once_witness:
  "\<exists>t. ingest_usage (\<lambda>_. []) ClaudeCode [] sample_receipts empty_usage = Inr t
    \<and> map_option su_total (ut_session t) = Some 47 \<and> map_of (ut_models t) (0, ''a'') = None
    \<and> map_option (uc_output \<circ> md_spend) (map_of (ut_models t) (1, ''b'')) = Some 20
    \<and> map_option (uc_output \<circ> md_spend) (map_of (ut_models t) (1, ''(unknown model)'')) = Some 7"
proof -
  have log: "claude_log (\<lambda>_. []) sample_receipts" "total_of (usage_rows sample_receipts) \<le> i64_max" by code_simp+
  have sums: "receipts (\<lambda>_. []) sample_receipts = tl sample_receipts" "tl sample_receipts \<noteq> []" "total_of (tl sample_receipts) = 47"
      "receipt_bucket (\<lambda>_. []) ` set (tl sample_receipts) = {(1, ''b''), (1, ''(unknown model)'')}"
      "uc_output (spend_of (filter (\<lambda>e. receipt_bucket (\<lambda>_. []) e = (1, ''b'')) (tl sample_receipts))) = 20"
      "uc_output (spend_of (filter (\<lambda>e. receipt_bucket (\<lambda>_. []) e = (1, ''(unknown model)'')) (tl sample_receipts))) = 7"
    by code_simp+
  obtain t where t: "ingest_usage (\<lambda>_. []) ClaudeCode [] sample_receipts empty_usage = Inr t"
      "map_option (\<lambda>r. (su_spend r, su_total r)) (ut_session t) = Some (spend_of (tl sample_receipts), 47)"
      "\<forall>key. map_option md_spend (map_of (ut_models t) key)
        = (if key \<in> {(1, ''b''), (1, ''(unknown model)'')}
           then Some (spend_of (filter (\<lambda>e. receipt_bucket (\<lambda>_. []) e = key) (tl sample_receipts))) else None)"
    using claude_responses_counted_once [OF log] unfolding sums(1,3,4) if_not_P [OF sums(2)] by blast
  have "map_option su_total (ut_session t) = Some 47" using t(2) by auto
  moreover have "map_of (ut_models t) (0, ''a'') = None" using t(3) [rule_format, of "(0, ''a'')"] by simp
  moreover have "map_option (uc_output \<circ> md_spend) (map_of (ut_models t) (1, ''b'')) = Some 20"
    using t(3) [rule_format, of "(1, ''b'')"] sums(5) by auto
  moreover have "map_option (uc_output \<circ> md_spend) (map_of (ut_models t) (1, ''(unknown model)'')) = Some 7"
    using t(3) [rule_format, of "(1, ''(unknown model)'')"] sums(6) by auto
  ultimately show ?thesis using t(1) by blast
qed

end
