(* ===== verification/Archive_Model.thy ===== *)
theory Archive_Model
  imports Ingest_Tick Usage_Codex
begin

text \<open>
  The transcript archive (\<^verbatim>\<open>archive/\<close>): export of a session to the object store, the purge of an
  exported session down to its digest with the daily totals it leaves behind, the restore of a purged
  session by replaying its archived lines, and the cycle that exports and purges.

  The database is the tables of the ingester, the usage tables of every session, the columns and tables
  of the archive, and what the purge reads of terminals and repositories. The object store is a map from
  keys to content and metadata; an upload may fail. Compression, JSON text, the text of times and the
  markdown of a turn are parameters.
\<close>

section \<open>Environment and tables\<close>

record archive_env =
  ar_ingest :: ingest_env
  ar_batch :: "session \<Rightarrow> batch_env"
  ar_show_time :: "time \<Rightarrow> string"
  ar_parse_time :: "string \<Rightarrow> time option"
  ar_month :: "time \<Rightarrow> string"
  ar_compress :: "string \<Rightarrow> string"
  ar_decompress :: "string \<Rightarrow> string option"
  ar_put_ok :: "string \<Rightarrow> bool"
  ar_dump_ok :: bool
  ar_markdown :: "timeline_tables \<Rightarrow> int \<Rightarrow> string"

record archived_object =
  ob_content :: string
  ob_metadata :: "(string, string) btree_map"

type_synonym object_store = "string \<Rightarrow> archived_object option"

record archive_columns =
  ac_archived_at :: "time option"
  ac_key :: "string option"
  ac_sha256 :: "string option"
  ac_bytes :: "int option"
  ac_events :: "int option"

definition no_archive :: archive_columns where
  "no_archive = \<lparr>ac_archived_at = None, ac_key = None, ac_sha256 = None, ac_bytes = None, ac_events = None\<rparr>"

record pty_session =
  pt_id :: string
  pt_repo :: string
  pt_current_session :: "session option"
  pt_live :: bool

text \<open>Day, repository, agent and model of a daily total; repository, path and day of file activity.\<close>

type_synonym rollup_key = "int \<times> string \<times> string \<times> string"
type_synonym activity_key = "string \<times> string \<times> int"

record archive_db =
  ad_ingest :: ingest_db
  ad_sessions :: "session list"
  ad_usage :: "session \<Rightarrow> usage_tables"
  ad_columns :: "session \<Rightarrow> archive_columns"
  ad_contributions :: "session \<Rightarrow> (rollup_key, usage_components) btree_map"
  ad_rollup :: "(rollup_key, usage_components) btree_map"
  ad_file_contributions :: "session \<Rightarrow> (activity_key, int \<times> int) btree_map"
  ad_file_daily :: "(activity_key, int \<times> int) btree_map"
  ad_markdown :: "session \<Rightarrow> (int, string) btree_map"
  ad_turn_files :: "session \<Rightarrow> (int, file_touch set) btree_map"
  ad_digest_sources :: "session \<Rightarrow> (int, string \<times> string option) btree_map"
  ad_ptys :: "pty_session list"
  ad_repos :: "(string \<times> string) list"
  ad_versions :: "string \<Rightarrow> int option"
  ad_last_dump :: "time option"
  ad_cycle_started :: "time option"
  ad_cycle_completed :: "time option"

datatype archive_error =
    NoEvents session
  | UploadFailed string
  | ObjectMissing string
  | LengthMismatch string
  | HashMismatch string
  | CannotDecompress string
  | BadEnvelope nat
  | ArchiveEmpty string
  | NoSuchSession session
  | AlreadyPurged session
  | NotExported session
  | GrewSinceExport session
  | LiveSession session
  | RepairPending "string list"
  | TimelineBehind session
  | NotPurged session
  | NoArchiveKey session
  | NoArchiveHash session
  | ReplayFailed insert_error
  | ProjectionFailed write_error
  | UsageRefused usage_error
  | DumpFailed
  | ColumnMissing session
  | EmptyScope
  | BadScope
  | UnknownKind string
  | Interrupted

definition day_span :: "int \<Rightarrow> time" where
  "day_span n = n * 86400000000"

section \<open>The envelope of an archived line\<close>

record archive_line =
  al_o :: int
  al_t :: time
  al_k :: string
  al_r :: "string option"
  al_p :: json

definition line_of_row :: "int \<times> event_row \<Rightarrow> archive_line" where
  "line_of_row = (\<lambda>(byte_offset, r). \<lparr>al_o = byte_offset, al_t = ev_timestamp r, al_k = ev_kind r,
     al_r = ev_related_tool_use_id r, al_p = ev_payload r\<rparr>)"

definition line_to_value :: "archive_env \<Rightarrow> archive_line \<Rightarrow> json" where
  "line_to_value env l = JObj ([(''o'', JInt (al_o l)), (''t'', JStr (ar_show_time env (al_t l))), (''k'', JStr (al_k l))]
     @ (case al_r l of None \<Rightarrow> [] | Some r \<Rightarrow> [(''r'', JStr r)]) @ [(''p'', al_p l)])"

definition value_to_line :: "archive_env \<Rightarrow> json \<Rightarrow> archive_line option" where
  "value_to_line env v =
     (if \<not> is_object v then None
      else Option.bind (Option.bind (jget v ''o'') as_i64) (\<lambda>byte_offset.
        Option.bind (Option.bind (Option.bind (jget v ''t'') as_str) (ar_parse_time env)) (\<lambda>t.
        Option.bind (Option.bind (jget v ''k'') as_str) (\<lambda>k.
        Option.bind (case jget v ''r'' of
                       None \<Rightarrow> Some None | Some JNull \<Rightarrow> Some None | Some (JStr r) \<Rightarrow> Some (Some r) | Some _ \<Rightarrow> None) (\<lambda>r.
        Option.bind (jget v ''p'') (\<lambda>p.
          Some \<lparr>al_o = byte_offset, al_t = t, al_k = k, al_r = r, al_p = p\<rparr>))))))"

definition encode_line :: "archive_env \<Rightarrow> archive_line \<Rightarrow> string" where
  "encode_line env l = to_json_string (ie_lib (ar_ingest env)) (line_to_value env l) @ [newline]"

text \<open>The pieces between the occurrences of a byte.\<close>

fun split_byte :: "char \<Rightarrow> string \<Rightarrow> string list" where
  "split_byte c [] = [[]]"
| "split_byte c (x # xs) =
     (if x = c then [] # split_byte c xs
      else case split_byte c xs of [] \<Rightarrow> [[x]] | piece # pieces \<Rightarrow> (x # piece) # pieces)"

fun read_envelopes :: "archive_env \<Rightarrow> nat \<Rightarrow> string list \<Rightarrow> archive_error + archive_line list" where
  "read_envelopes env index [] = Inr []"
| "read_envelopes env index (raw # rest) =
     (if list_all ascii_whitespace raw then read_envelopes env (index + 1) rest
      else case Option.bind (from_str (ie_lib (ar_ingest env)) raw) (value_to_line env) of
             None \<Rightarrow> Inl (BadEnvelope (index + 1))
           | Some l \<Rightarrow> res_bind (read_envelopes env (index + 1) rest) (\<lambda>ls. Inr (l # ls)))"

definition sha256_of :: "archive_env \<Rightarrow> string \<Rightarrow> string" where
  "sha256_of env raw = ie_sha256_hex (ar_ingest env) raw"

definition read_session_lines ::
  "archive_env \<Rightarrow> object_store \<Rightarrow> string \<Rightarrow> string \<Rightarrow> archive_error + archive_line list" where
  "read_session_lines env store key expected_sha256 =
     res_bind (ok_or (store key) (ObjectMissing key)) (\<lambda>object.
     res_bind (ok_or (ar_decompress env (ob_content object)) (CannotDecompress key)) (\<lambda>raw.
     res_bind (guard (sha256_of env raw = expected_sha256) (HashMismatch key)) (\<lambda>_.
       read_envelopes env 0 (split_byte newline raw))))"

section \<open>Export\<close>

record eligible_session =
  el_session :: session
  el_agent :: string
  el_event_count :: int
  el_first_event_at :: time

definition event_count :: "archive_db \<Rightarrow> session \<Rightarrow> int" where
  "event_count db s = int (length (ig_events (ad_ingest db) s))"

definition event_times :: "archive_db \<Rightarrow> session \<Rightarrow> time list" where
  "event_times db s = map (ev_timestamp \<circ> snd) (ig_events (ad_ingest db) s)"

definition in_live_pty :: "archive_db \<Rightarrow> session \<Rightarrow> bool" where
  "in_live_pty db s \<longleftrightarrow> list_ex (\<lambda>p. pt_current_session p = Some s \<and> pt_live p) (ad_ptys db)"

definition eligible_session_of ::
  "archive_env \<Rightarrow> int \<Rightarrow> archive_db \<Rightarrow> session \<Rightarrow> eligible_session option" where
  "eligible_session_of env min_idle_days db s =
     (case ig_sessions (ad_ingest db) s of
        None \<Rightarrow> None
      | Some row \<Rightarrow>
          if \<not> sn_purged row \<and> 0 < event_count db s
             \<and> Max (set (event_times db s)) < ie_now (ar_ingest env) - day_span min_idle_days
             \<and> (ac_archived_at (ad_columns db s) = None \<or> ac_events (ad_columns db s) \<noteq> Some (event_count db s))
             \<and> \<not> in_live_pty db s
          then Some \<lparr>el_session = s, el_agent = sn_agent row, el_event_count = event_count db s,
                 el_first_event_at = Min (set (event_times db s))\<rparr>
          else None)"

definition eligible_sessions :: "archive_env \<Rightarrow> int \<Rightarrow> archive_db \<Rightarrow> eligible_session list" where
  "eligible_sessions env min_idle_days db =
     sort_key el_first_event_at (List.map_filter (eligible_session_of env min_idle_days db) (ad_sessions db))"

definition object_key :: "archive_env \<Rightarrow> string \<Rightarrow> time \<Rightarrow> session \<Rightarrow> string" where
  "object_key env agent first_event_at s =
     ''sessions/'' @ agent @ ''/'' @ ar_month env first_event_at @ ''/'' @ ie_uuid_string (ar_ingest env) s @ ''.jsonl.zst''"

text \<open>The bytes of the lines, in the order of their offsets, and how many they are.\<close>

definition write_session_lines :: "archive_env \<Rightarrow> archive_db \<Rightarrow> session \<Rightarrow> string \<times> int" where
  "write_session_lines env db s =
     (concat (map (encode_line env \<circ> line_of_row) (ig_events (ad_ingest db) s)), event_count db s)"

definition put_file :: "archive_env \<Rightarrow> string \<Rightarrow> archived_object \<Rightarrow> object_store \<Rightarrow> archive_error + object_store" where
  "put_file env key object store =
     (if ar_put_ok env key then Inr (store(key \<mapsto> object)) else Inl (UploadFailed key))"

definition export_metadata ::
  "archive_env \<Rightarrow> eligible_session \<Rightarrow> int \<Rightarrow> string \<Rightarrow> int \<Rightarrow> (string, string) btree_map" where
  "export_metadata env session events sha256 bytes =
     btm_insert ''bytes'' (show_int bytes) (btm_insert ''sha256'' sha256 (btm_insert ''events'' (show_int events)
       (btm_insert ''agent'' (el_agent session) (btm_insert ''session-uuid'' (ie_uuid_string (ar_ingest env) (el_session session)) []))))"

text \<open>What \<^verbatim>\<open>HEAD\<close> reports after the upload is compared with what was sent.\<close>

definition check_upload :: "string \<Rightarrow> archived_object \<Rightarrow> string \<Rightarrow> object_store \<Rightarrow> archive_error + unit" where
  "check_upload key object sha256 store =
     res_bind (ok_or (store key) (ObjectMissing key)) (\<lambda>head.
     res_bind (guard (length (ob_content head) = length (ob_content object)) (LengthMismatch key)) (\<lambda>_.
       guard (map_of (ob_metadata head) ''sha256'' = Some sha256) (HashMismatch key)))"

definition record_archive :: "archive_env \<Rightarrow> session \<Rightarrow> string \<Rightarrow> string \<Rightarrow> int \<Rightarrow> int \<Rightarrow> archive_db \<Rightarrow> archive_db" where
  "record_archive env s key sha256 bytes events db =
     (if ig_sessions (ad_ingest db) s = None then db
      else db\<lparr>ad_columns := (ad_columns db)(s := \<lparr>ac_archived_at = Some (ie_now (ar_ingest env)), ac_key = Some key,
        ac_sha256 = Some sha256, ac_bytes = Some bytes, ac_events = Some events\<rparr>)\<rparr>)"

definition export_session ::
  "archive_env \<Rightarrow> eligible_session \<Rightarrow> archive_db \<times> object_store \<Rightarrow> (archive_error + unit) \<times> archive_db \<times> object_store" where
  "export_session env session = (\<lambda>(db, store).
     (let s = el_session session;
          key = object_key env (el_agent session) (el_first_event_at session) s;
          (raw, events) = write_session_lines env db s;
          sha256 = sha256_of env raw;
          object = \<lparr>ob_content = ar_compress env raw, ob_metadata = export_metadata env session events sha256 (int (length raw))\<rparr>
      in if events = 0 then (Inl (NoEvents s), db, store)
         else case put_file env key object store of
           Inl e \<Rightarrow> (Inl e, db, store)
         | Inr store \<Rightarrow>
             (case check_upload key object sha256 store of
                Inl e \<Rightarrow> (Inl e, db, store)
              | Inr _ \<Rightarrow> (Inr (), record_archive env s key sha256 (int (length raw)) events db, store))))"

section \<open>Purge\<close>

definition PROJECTION_TARGETS :: "(string \<times> int) list" where
  "PROJECTION_TARGETS = [(''canonical_blocks'', 7), (''usage_projection'', 3), (''timeline_projection'', 17)]"

definition projections_behind :: "archive_db \<Rightarrow> string list" where
  "projections_behind db =
     map fst (filter (\<lambda>(key, target). unwrap_or (ad_versions db key) 0 < target) PROJECTION_TARGETS)"

definition purge_candidate :: "archive_env \<Rightarrow> int \<Rightarrow> archive_db \<Rightarrow> session \<Rightarrow> (time \<times> session) option" where
  "purge_candidate env purge_after_days db s =
     (case (ig_sessions (ad_ingest db) s, ac_archived_at (ad_columns db s)) of
        (Some row, Some archived_at) \<Rightarrow>
          if \<not> sn_purged row \<and> archived_at < ie_now (ar_ingest env) - day_span purge_after_days
             \<and> ac_events (ad_columns db s) = Some (event_count db s) \<and> \<not> in_live_pty db s
          then Some (archived_at, s) else None
      | _ \<Rightarrow> None)"

definition purge_candidates :: "archive_env \<Rightarrow> int \<Rightarrow> archive_db \<Rightarrow> session list" where
  "purge_candidates env purge_after_days db =
     map snd (sort_key fst (List.map_filter (purge_candidate env purge_after_days db) (ad_sessions db)))"

definition lock_and_check :: "session \<Rightarrow> archive_db \<Rightarrow> archive_error + session_row" where
  "lock_and_check s db =
     res_bind (ok_or (ig_sessions (ad_ingest db) s) (NoSuchSession s)) (\<lambda>row.
     res_bind (guard (\<not> sn_purged row) (AlreadyPurged s)) (\<lambda>_.
     res_bind (guard (ac_archived_at (ad_columns db s) \<noteq> None) (NotExported s)) (\<lambda>_.
     res_bind (guard (ac_events (ad_columns db s) = Some (event_count db s)) (GrewSinceExport s)) (\<lambda>_.
     res_bind (guard (\<not> in_live_pty db s) (LiveSession s)) (\<lambda>_. Inr row)))))"

definition session_projection_current :: "session \<Rightarrow> ingest_db \<Rightarrow> bool" where
  "session_projection_current s db \<longleftrightarrow>
     ig_events db s = []
     \<or> (case ig_timeline db s of
          None \<Rightarrow> False
        | Some pj \<Rightarrow> pj_version pj = REDUCER_VERSION
            \<and> Max (fst ` set (ig_events db s)) \<le> ss_projected_through (pj_state pj))"

text \<open>The terminal of the session or of the nearest ancestor that has one, at most sixteen levels up.\<close>

fun lineage_pty :: "archive_db \<Rightarrow> nat \<Rightarrow> session \<Rightarrow> string option" where
  "lineage_pty db depth s =
     Option.bind (ig_sessions (ad_ingest db) s) (\<lambda>row.
       case sn_pty_session_id row of
         Some p \<Rightarrow> Some p
       | None \<Rightarrow> (case depth of
           0 \<Rightarrow> None
         | Suc n \<Rightarrow> Option.bind (sn_parent_session_uuid row) (lineage_pty db n)))"

definition project_hash_of :: "string \<Rightarrow> string" where
  "project_hash_of path =
     concat (map (\<lambda>c. case c of
         [x] \<Rightarrow> if CHR ''A'' \<le> x \<and> x \<le> CHR ''Z'' \<or> CHR ''a'' \<le> x \<and> x \<le> CHR ''z'' \<or> CHR ''0'' \<le> x \<and> x \<le> CHR ''9'' then c else ''-''
       | _ \<Rightarrow> ''-'') (chars path))"

definition attributed_repo :: "session \<Rightarrow> archive_db \<Rightarrow> string option" where
  "attributed_repo s db =
     Option.bind (ig_sessions (ad_ingest db) s) (\<lambda>row.
       or_else (Option.bind (lineage_pty db 16 s) (\<lambda>p. map_option pt_repo (find (\<lambda>t. pt_id t = p) (ad_ptys db))))
       (or_else (map_option pt_repo (find (\<lambda>t. pt_current_session t = Some s) (ad_ptys db)))
         (Option.bind (sn_project_hash row) (\<lambda>h. map_option fst (find (\<lambda>(_, path). project_hash_of path = h) (ad_repos db))))))"

text \<open>The daily rows of the session become its contributions, and these are added to the totals.\<close>

definition usage_contributions :: "string \<Rightarrow> usage_tables \<Rightarrow> (rollup_key \<times> usage_components) list" where
  "usage_contributions repo t = map (\<lambda>((day, model), r). ((day, repo, md_agent r, model), md_spend r)) (ut_models t)"

definition add_rollup ::
  "rollup_key \<times> usage_components \<Rightarrow> (rollup_key, usage_components) btree_map \<Rightarrow>
   archive_error + (rollup_key, usage_components) btree_map" where
  "add_rollup = (\<lambda>(key, c) rollup.
     (let sum = zip_components (+) (unwrap_or (map_of rollup key) no_components) c in
      case check_components sum of
        Inl e \<Rightarrow> Inl (UsageRefused e)
      | Inr _ \<Rightarrow> Inr (btm_insert key sum rollup)))"

definition roll_up_usage :: "session \<Rightarrow> string \<Rightarrow> archive_db \<Rightarrow> archive_error + archive_db" where
  "roll_up_usage s repo_key db =
     (let contributions = fold (\<lambda>(key, c). btm_insert key c) (usage_contributions repo_key (ad_usage db s)) (ad_contributions db s)
      in res_bind (res_fold add_rollup contributions (ad_rollup db)) (\<lambda>rollup.
           Inr (db\<lparr>ad_contributions := (ad_contributions db)(s := contributions), ad_rollup := rollup\<rparr>)))"

text \<open>The touches of the session by repository, path and the day their turn ended.\<close>

definition tables_of :: "session \<Rightarrow> ingest_db \<Rightarrow> timeline_tables" where
  "tables_of s db = pj_tables (projection_of s db)"

definition touch_days :: "timeline_tables \<Rightarrow> (activity_key \<times> int \<times> bool) list" where
  "touch_days tables =
     List.map_filter (\<lambda>((turn_id, _), (_, touch)). map_option (\<lambda>turn.
         ((ft_repo touch, ft_path touch, date_naive (tr_end_timestamp turn)), turn_id, ft_is_write touch))
       (map_of (tb_turns tables) turn_id)) (tb_touches tables)"

definition distinct_turns :: "(activity_key \<times> int \<times> bool \<Rightarrow> bool) \<Rightarrow> timeline_tables \<Rightarrow> int" where
  "distinct_turns P tables = int (length (remdups (map (fst \<circ> snd) (filter P (touch_days tables)))))"

definition file_activity :: "timeline_tables \<Rightarrow> (activity_key \<times> int \<times> int) list" where
  "file_activity tables =
     map (\<lambda>key. (key,
         distinct_turns (\<lambda>(k, _, is_write). k = key \<and> is_write) tables,
         distinct_turns (\<lambda>(k, _, is_write). k = key \<and> \<not> is_write) tables))
       (remdups (map fst (touch_days tables)))"

definition add_activity :: "activity_key \<times> int \<times> int \<Rightarrow> (activity_key, int \<times> int) btree_map \<Rightarrow> (activity_key, int \<times> int) btree_map" where
  "add_activity = (\<lambda>(key, w, r) daily.
     btm_insert key (case map_of daily key of None \<Rightarrow> (w, r) | Some (w', r') \<Rightarrow> (w' + w, r' + r)) daily)"

definition roll_up_file_activity :: "session \<Rightarrow> archive_db \<Rightarrow> archive_db" where
  "roll_up_file_activity s db =
     (let contributions = fold (\<lambda>(key, c). btm_insert key c) (file_activity (tables_of s (ad_ingest db))) (ad_file_contributions db s)
      in db\<lparr>ad_file_contributions := (ad_file_contributions db)(s := contributions),
           ad_file_daily := fold add_activity contributions (ad_file_daily db)\<rparr>)"

definition store_turn_digests :: "archive_env \<Rightarrow> session \<Rightarrow> archive_db \<Rightarrow> archive_db" where
  "store_turn_digests env s db =
     (let tables = tables_of s (ad_ingest db) in
      db\<lparr>ad_markdown := (ad_markdown db)(s := map (\<lambda>(turn_id, _). (turn_id,
        case map_of (ad_markdown db s) turn_id of
          Some (x # xs) \<Rightarrow> x # xs | _ \<Rightarrow> ar_markdown env tables turn_id)) (tb_turns tables))\<rparr>)"

definition fold_touches_into_digest :: "session \<Rightarrow> archive_db \<Rightarrow> archive_db" where
  "fold_touches_into_digest s db =
     (let tables = tables_of s (ad_ingest db) in
      db\<lparr>ad_turn_files := (ad_turn_files db)(s := map (\<lambda>(turn_id, _). (turn_id,
        set (map (snd \<circ> snd) (filter (\<lambda>((turn, _), _). turn = turn_id) (tb_touches tables))))) (tb_turns tables))\<rparr>)"

definition delete_sources :: "session \<Rightarrow> ingest_db \<Rightarrow> ingest_db" where
  "delete_sources s db = db\<lparr>
     ig_embeddings := {key \<in> ig_embeddings db. case ig_sources db key of Some r \<Rightarrow> es_session r \<noteq> s | None \<Rightarrow> True},
     ig_sources := (\<lambda>key. case ig_sources db key of Some r \<Rightarrow> if es_session r = s then None else Some r | None \<Rightarrow> None)\<rparr>"

definition replace_embedding_sources :: "archive_env \<Rightarrow> session \<Rightarrow> string option \<Rightarrow> archive_db \<Rightarrow> archive_db" where
  "replace_embedding_sources env s repo db = db\<lparr>
     ad_ingest := delete_sources s (ad_ingest db),
     ad_digest_sources := (ad_digest_sources db)(s :=
       map (\<lambda>(turn_id, markdown). (turn_id, ie_sha256_hex (ar_ingest env) markdown, repo))
         (filter (\<lambda>(_, markdown). list_ex (\<lambda>c. c \<noteq> CHR '' '') markdown) (ad_markdown db s)))\<rparr>"

definition delete_session_rows :: "session \<Rightarrow> archive_db \<Rightarrow> archive_db" where
  "delete_session_rows s db =
     (let ig = ad_ingest db in
      db\<lparr>ad_usage := (ad_usage db)(s := empty_usage),
         ad_ingest := ig\<lparr>
           ig_timeline := (ig_timeline ig)(s := map_option (\<lambda>pj.
             pj\<lparr>pj_tables := empty_tables\<lparr>tb_turns := tb_turns (pj_tables pj)\<rparr>\<rparr>) (ig_timeline ig s)),
           ig_blocks := (ig_blocks ig)(s := []), ig_events := (ig_events ig)(s := [])\<rparr>\<rparr>)"

definition set_purged :: "bool \<Rightarrow> session \<Rightarrow> ingest_db \<Rightarrow> ingest_db" where
  "set_purged purged s db =
     db\<lparr>ig_sessions := (ig_sessions db)(s := map_option (\<lambda>row. row\<lparr>sn_purged := purged\<rparr>) (ig_sessions db s))\<rparr>"

definition purge_session :: "archive_env \<Rightarrow> session \<Rightarrow> archive_db \<Rightarrow> archive_error + archive_db" where
  "purge_session env s db =
     res_bind (guard (projections_behind db = []) (RepairPending (projections_behind db))) (\<lambda>_.
     res_bind (lock_and_check s db) (\<lambda>_.
     res_bind (guard (session_projection_current s (ad_ingest db)) (TimelineBehind s)) (\<lambda>_.
       let repo = attributed_repo s db in
       res_bind (roll_up_usage s (unwrap_or repo []) db) (\<lambda>db.
         let db = roll_up_file_activity s db;
             db = store_turn_digests env s db;
             db = fold_touches_into_digest s db;
             db = replace_embedding_sources env s repo db;
             db = delete_session_rows s db
         in Inr (db\<lparr>ad_ingest := set_purged True s (ad_ingest db)\<rparr>)))))"

end
