(* ===== verification/Archive_Cycle.thy ===== *)
theory Archive_Cycle
  imports Archive_Model
begin

text \<open>
  Restoring a purged session (\<^verbatim>\<open>archive/restore.rs\<close>) and the cycle over all sessions
  (\<^verbatim>\<open>archive/mod.rs\<close>). The replay goes through the insertion of the ingester, here together with the
  update of usage that belongs to the same transaction.
\<close>

section \<open>Restore\<close>

definition subtract_rollup ::
  "rollup_key \<times> usage_components \<Rightarrow> (rollup_key, usage_components) btree_map \<Rightarrow> (rollup_key, usage_components) btree_map" where
  "subtract_rollup = (\<lambda>(key, c) rollup.
     (case map_of rollup key of
        None \<Rightarrow> rollup
      | Some r \<Rightarrow> btm_insert key (zip_components (\<lambda>n m. max (n - m) 0) r c) rollup))"

definition subtract_activity ::
  "activity_key \<times> int \<times> int \<Rightarrow> (activity_key, int \<times> int) btree_map \<Rightarrow> (activity_key, int \<times> int) btree_map" where
  "subtract_activity = (\<lambda>(key, w, r) daily.
     (case map_of daily key of
        None \<Rightarrow> daily
      | Some (w', r') \<Rightarrow> btm_insert key (max (w' - w) 0, max (r' - r) 0) daily))"

definition component_total :: "usage_components \<Rightarrow> int" where
  "component_total c = uc_input c + uc_cached c + uc_cache_write c + uc_cache_write_1h c + uc_output c"

text \<open>Deleting the turns of a session deletes the rows that refer to them.\<close>

definition delete_turns :: "timeline_tables \<Rightarrow> timeline_tables" where
  "delete_turns tables = tables\<lparr>tb_turns := [], tb_items := [], tb_ops := [], tb_touches := []\<rparr>"

definition clear_before_replay :: "session \<Rightarrow> archive_db \<Rightarrow> archive_db" where
  "clear_before_replay s db =
     (let ig = delete_sources s (ad_ingest db) in
      db\<lparr>ad_markdown := (ad_markdown db)(s := []), ad_turn_files := (ad_turn_files db)(s := []),
         ad_digest_sources := (ad_digest_sources db)(s := []), ad_usage := (ad_usage db)(s := empty_usage),
         ad_ingest := ig\<lparr>
           ig_timeline := (ig_timeline ig)(s := map_option (\<lambda>pj.
             pj\<lparr>pj_tables := delete_turns (pj_tables pj), pj_version := 0\<rparr>) (ig_timeline ig s)),
           ig_blocks := (ig_blocks ig)(s := []), ig_events := (ig_events ig)(s := [])\<rparr>\<rparr>)"

definition withdraw_and_clear :: "session \<Rightarrow> archive_db \<Rightarrow> int \<times> archive_db" where
  "withdraw_and_clear s db =
     (let tokens_before = sum_list (map (component_total \<circ> snd) (ad_contributions db s));
          db = db\<lparr>ad_rollup := fold subtract_rollup (ad_contributions db s) (ad_rollup db),
                 ad_contributions := (ad_contributions db)(s := []),
                 ad_file_daily := fold subtract_activity (ad_file_contributions db s) (ad_file_daily db),
                 ad_file_contributions := (ad_file_contributions db)(s := [])\<rparr>;
          db = clear_before_replay s db
      in (tokens_before, db\<lparr>ad_ingest := set_purged False s (ad_ingest db)\<rparr>))"

text \<open>The insertion of a line with the update of usage; a refused update rolls the insertion back.\<close>

definition count_usage ::
  "archive_env \<Rightarrow> session \<Rightarrow> transcript_source \<Rightarrow> int \<Rightarrow> ingest_db \<Rightarrow> usage_tables \<Rightarrow> usage_error + usage_tables" where
  "count_usage env s source byte_offset db t =
     (case map_of (ig_events db s) byte_offset of
        None \<Rightarrow> Inr t
      | Some r \<Rightarrow>
          if ev_subtype r = Some ''inherited_history'' then Inr t
          else upsert_from_event (ie_jsonb_text (ar_ingest env)) (ig_events db s) source byte_offset
                 (ev_timestamp r) (ev_payload r) t)"

definition insert_counted ::
  "archive_env \<Rightarrow> session \<Rightarrow> transcript_source \<Rightarrow> int \<Rightarrow> string \<Rightarrow> codex_context option \<Rightarrow> string option \<Rightarrow> time option \<Rightarrow>
   archive_db \<Rightarrow> (insert_error + bool) \<times> codex_context option \<times> archive_db" where
  "insert_counted env s source byte_offset line ctx subagent fallback db =
     (case insert_line (ar_ingest env) s source byte_offset line ctx subagent fallback (ad_ingest db) of
        (Inr True, ctx', ig) \<Rightarrow>
          (case count_usage env s source byte_offset ig (ad_usage db s) of
             Inl _ \<Rightarrow> (Inl DbFailed, ctx, db)
           | Inr t \<Rightarrow> (Inr True, ctx', db\<lparr>ad_ingest := ig, ad_usage := (ad_usage db)(s := t)\<rparr>))
      | (outcome, ctx', ig) \<Rightarrow> (outcome, ctx', db\<lparr>ad_ingest := ig\<rparr>))"

definition replay_line_of :: "archive_env \<Rightarrow> archive_line \<Rightarrow> replay_line" where
  "replay_line_of env l = \<lparr>rl_byte_offset = al_o l, rl_timestamp = al_t l, rl_related_tool_use_id = al_r l,
     rl_payload = to_json_string (ie_lib (ar_ingest env)) (al_p l)\<rparr>"

fun replay_counted ::
  "archive_env \<Rightarrow> session \<Rightarrow> transcript_source \<Rightarrow> replay_line list \<Rightarrow> codex_context option \<Rightarrow> replay_stats \<Rightarrow>
   archive_db \<Rightarrow> (insert_error + replay_stats) \<times> archive_db" where
  "replay_counted env s source [] ctx stats db = (Inr stats, db)"
| "replay_counted env s source (l # ls) ctx stats db =
     (let (outcome, ctx, db) = insert_counted env s source (rl_byte_offset l) (rl_payload l) ctx
            (rl_related_tool_use_id l) (Some (rl_timestamp l)) db
      in case outcome of
           Inr True \<Rightarrow> replay_counted env s source ls ctx
             (stats\<lparr>rs_events_inserted := rs_events_inserted stats + 1\<rparr>) db
         | Inr False \<Rightarrow> replay_counted env s source ls ctx stats db
         | Inl ParseFailed \<Rightarrow> replay_counted env s source ls ctx
             (stats\<lparr>rs_parse_errors := rs_parse_errors stats + 1\<rparr>) db
         | Inl e \<Rightarrow> (Inl e, db))"

definition rebuild_session_projection ::
  "archive_env \<Rightarrow> session \<Rightarrow> archive_db \<Rightarrow> ((archive_error + unit) \<times> archive_db) option" where
  "rebuild_session_projection env s db =
     (let ig = ad_ingest db in
      if session_is_purged s ig then Some (Inr (), db)
      else
        let ig = ig\<lparr>ig_timeline := (ig_timeline ig)(s := map_option request_rebuild (ig_timeline ig s))\<rparr>
        in case project_until_caught_up (batch_env_for (ar_batch env) s ig) (stored_events (ar_ingest env) s ig) 0
               (projection_of s ig) of
             None \<Rightarrow> None
           | Some (Inl e) \<Rightarrow> Some (Inl (ProjectionFailed e), db\<lparr>ad_ingest := ig\<rparr>)
           | Some (Inr (pj, _)) \<Rightarrow> Some (Inr (), db\<lparr>ad_ingest := ig\<lparr>ig_timeline := (ig_timeline ig)(s \<mapsto> pj)\<rparr>\<rparr>))"

record restore_outcome =
  ro_lines :: nat
  ro_events_inserted :: nat
  ro_tokens_before :: int
  ro_tokens_after :: int
  ro_purged_again :: bool

text \<open>What the restore needs to know of the session, and the lines of its object.\<close>

definition load_purged ::
  "archive_env \<Rightarrow> session \<Rightarrow> archive_db \<Rightarrow> object_store \<Rightarrow> archive_error + (string \<times> archive_line list)" where
  "load_purged env s db store =
     res_bind (case ig_sessions (ad_ingest db) s of
         Some row \<Rightarrow> if sn_purged row then Inr row else Inl (NotPurged s) | None \<Rightarrow> Inl (NotPurged s)) (\<lambda>row.
     res_bind (ok_or (ac_key (ad_columns db s)) (NoArchiveKey s)) (\<lambda>key.
     res_bind (ok_or (ac_sha256 (ad_columns db s)) (NoArchiveHash s)) (\<lambda>sha256.
     res_bind (read_session_lines env store key sha256) (\<lambda>ls.
     res_bind (guard (ls \<noteq> []) (ArchiveEmpty key)) (\<lambda>_. Inr (sn_agent row, ls))))))"

definition replay_archive ::
  "archive_env \<Rightarrow> session \<Rightarrow> string \<Rightarrow> archive_line list \<Rightarrow> archive_db \<Rightarrow> ((archive_error + replay_stats) \<times> archive_db) option" where
  "replay_archive env s agent ls db =
     (let source = replay_source agent;
          ctx = (case source of Codex \<Rightarrow> Some (load_codex_context (ar_ingest env) s (ad_ingest db)) | ClaudeCode \<Rightarrow> None)
      in case replay_counted env s source (map (replay_line_of env) ls) ctx \<lparr>rs_events_inserted = 0, rs_parse_errors = 0\<rparr> db of
           (Inl e, db) \<Rightarrow> Some (Inl (ReplayFailed e), db)
         | (Inr stats, db) \<Rightarrow>
             map_option (\<lambda>(outcome, db). (res_bind outcome (\<lambda>_. Inr stats), db)) (rebuild_session_projection env s db))"

definition restore_session ::
  "archive_env \<Rightarrow> object_store \<Rightarrow> session \<Rightarrow> bool \<Rightarrow> archive_db \<Rightarrow> ((archive_error + restore_outcome) \<times> archive_db) option" where
  "restore_session env store s purge_after db =
     (case load_purged env s db store of
        Inl e \<Rightarrow> Some (Inl e, db)
      | Inr (agent, ls) \<Rightarrow>
          (let (tokens_before, db) = withdraw_and_clear s db in
           case replay_archive env s agent ls db of
             None \<Rightarrow> None
           | Some (Inl e, db) \<Rightarrow> Some (Inl e, db)
           | Some (Inr stats, db) \<Rightarrow>
               (let outcome = \<lparr>ro_lines = length ls, ro_events_inserted = rs_events_inserted stats,
                      ro_tokens_before = tokens_before,
                      ro_tokens_after = sum_list (map (component_total \<circ> md_spend \<circ> snd) (ut_models (ad_usage db s))),
                      ro_purged_again = purge_after\<rparr>
                in Some (if purge_after then
                           (case purge_session env s db of Inl e \<Rightarrow> (Inl e, db) | Inr db \<Rightarrow> (Inr outcome, db))
                         else (Inr outcome, db)))))"

section \<open>The cycle\<close>

record archive_config =
  cf_min_idle_days :: int
  cf_purge_after_days :: int
  cf_interval_days :: int
  cf_purge_enabled :: bool
  cf_dump_enabled :: bool

record cycle_outcome =
  cy_exported :: nat
  cy_export_failures :: nat
  cy_purged :: nat
  cy_purge_failures :: nat
  cy_deferred_for :: "string list"

definition cycle_due :: "archive_env \<Rightarrow> archive_config \<Rightarrow> archive_db \<Rightarrow> bool" where
  "cycle_due env cfg db \<longleftrightarrow>
     (let now = ie_now (ar_ingest env) in
      \<not> (case ad_cycle_completed db of None \<Rightarrow> False | Some at \<Rightarrow> now - at < day_span (cf_interval_days cfg))
      \<and> \<not> (case ad_cycle_started db of
             None \<Rightarrow> False
           | Some started \<Rightarrow>
               (case ad_cycle_completed db of None \<Rightarrow> True | Some at \<Rightarrow> at < started) \<and> now - started < 3600000000))"

definition export_one ::
  "archive_env \<Rightarrow> eligible_session \<Rightarrow> cycle_outcome \<times> archive_db \<times> object_store \<Rightarrow> cycle_outcome \<times> archive_db \<times> object_store" where
  "export_one env session = (\<lambda>(outcome, state).
     (case export_session env session state of
        (Inr _, state) \<Rightarrow> (outcome\<lparr>cy_exported := cy_exported outcome + 1\<rparr>, state)
      | (Inl _, state) \<Rightarrow> (outcome\<lparr>cy_export_failures := cy_export_failures outcome + 1\<rparr>, state)))"

definition purge_one :: "archive_env \<Rightarrow> session \<Rightarrow> cycle_outcome \<times> archive_db \<Rightarrow> cycle_outcome \<times> archive_db" where
  "purge_one env s = (\<lambda>(outcome, db).
     (case purge_session env s db of
        Inr db \<Rightarrow> (outcome\<lparr>cy_purged := cy_purged outcome + 1\<rparr>, db)
      | Inl _ \<Rightarrow> (outcome\<lparr>cy_purge_failures := cy_purge_failures outcome + 1\<rparr>, db)))"

definition run_cycle_phases ::
  "archive_env \<Rightarrow> archive_config \<Rightarrow> eligible_session list \<Rightarrow> archive_db \<times> object_store \<Rightarrow>
   (archive_error + cycle_outcome) \<times> archive_db \<times> object_store" where
  "run_cycle_phases env cfg export_set = (\<lambda>(db, store).
     (if cf_dump_enabled cfg \<and> \<not> ar_dump_ok env then (Inl DumpFailed, db, store)
      else
        let db = (if cf_dump_enabled cfg then db\<lparr>ad_last_dump := Some (ie_now (ar_ingest env))\<rparr> else db);
            outcome = \<lparr>cy_exported = 0, cy_export_failures = 0, cy_purged = 0, cy_purge_failures = 0, cy_deferred_for = []\<rparr>;
            (outcome, db, store) = fold (export_one env) export_set (outcome, db, store);
            outcome = outcome\<lparr>cy_deferred_for := (if cf_purge_enabled cfg then projections_behind db else [])\<rparr>;
            purge_set = (if cy_deferred_for outcome \<noteq> [] then []
              else if cf_purge_enabled cfg then purge_candidates env (cf_purge_after_days cfg) db else []);
            (outcome, db) = fold (purge_one env) purge_set (outcome, db)
        in (Inr outcome, db, store)))"

text \<open>A dry run only counts what is eligible.\<close>

definition run_cycle ::
  "archive_env \<Rightarrow> archive_config \<Rightarrow> bool \<Rightarrow> archive_db \<times> object_store \<Rightarrow> (archive_error + cycle_outcome) \<times> archive_db \<times> object_store" where
  "run_cycle env cfg dry_run = (\<lambda>(db, store).
     (let export_set = eligible_sessions env (cf_min_idle_days cfg) db in
      if dry_run then (Inr \<lparr>cy_exported = 0, cy_export_failures = 0, cy_purged = 0, cy_purge_failures = 0, cy_deferred_for = []\<rparr>, db, store)
      else
        let db = db\<lparr>ad_cycle_started := Some (ie_now (ar_ingest env))\<rparr> in
        case run_cycle_phases env cfg export_set (db, store) of
          (Inl e, state) \<Rightarrow> (Inl e, state)
        | (Inr outcome, db, store) \<Rightarrow> (Inr outcome, db\<lparr>ad_cycle_completed := Some (ie_now (ar_ingest env))\<rparr>, store)))"

end
