(* ===== verification/Archive_Codec.thy ===== *)
theory Archive_Codec
  imports Archive_Cycle
begin

text \<open>
  What is written into an object reads back: the envelope of a line, the lines of a session, and the
  object under the key of its session, which no other session shares.
\<close>

section \<open>What the libraries promise\<close>

text \<open>
  JSON text reads back, has no line feed and is not blank; the text of a time reads back; a compressed
  text decompresses; identifiers are distinct and have no slash.
\<close>

definition codec_ok :: "archive_env \<Rightarrow> bool" where
  "codec_ok env \<longleftrightarrow>
     (\<forall>v. from_str (ie_lib (ar_ingest env)) (to_json_string (ie_lib (ar_ingest env)) v) = Some v
        \<and> newline \<notin> set (to_json_string (ie_lib (ar_ingest env)) v)
        \<and> \<not> list_all ascii_whitespace (to_json_string (ie_lib (ar_ingest env)) v))
     \<and> (\<forall>t. ar_parse_time env (ar_show_time env t) = Some t)
     \<and> (\<forall>raw. ar_decompress env (ar_compress env raw) = Some raw)
     \<and> inj (ie_uuid_string (ar_ingest env)) \<and> (\<forall>s. CHR ''/'' \<notin> set (ie_uuid_string (ar_ingest env) s))"

lemma codec_json:
  assumes "codec_ok env"
  shows "from_str (ie_lib (ar_ingest env)) (to_json_string (ie_lib (ar_ingest env)) v) = Some v"
    "newline \<notin> set (to_json_string (ie_lib (ar_ingest env)) v)"
    "\<not> list_all ascii_whitespace (to_json_string (ie_lib (ar_ingest env)) v)"
  using assms by (simp_all add: codec_ok_def)

section \<open>One line\<close>

definition offset_ok :: "int \<Rightarrow> bool" where
  "offset_ok n \<longleftrightarrow> 0 \<le> n \<and> n \<le> i64_max"

lemma value_of_line:
  assumes "codec_ok env" "offset_ok (al_o l)"
  shows "value_to_line env (line_to_value env l) = Some l"
proof -
  have "as_i64 (JInt (al_o l)) = Some (al_o l)" using assms(2) by (simp add: offset_ok_def i64_max_def)
  moreover have "ar_parse_time env (ar_show_time env (al_t l)) = Some (al_t l)" using assms(1) by (simp add: codec_ok_def)
  ultimately show ?thesis
    by (cases l) (auto simp: value_to_line_def line_to_value_def is_object_def split: option.split)
qed

section \<open>The lines of a session\<close>

lemma split_byte_append:
  assumes "c \<notin> set xs"
  shows "split_byte c (xs @ c # ys) = xs # split_byte c ys"
  using assms by (induction xs) auto

lemma split_encoded:
  assumes "codec_ok env"
  shows "split_byte newline (concat (map (encode_line env) ls))
    = map (\<lambda>l. to_json_string (ie_lib (ar_ingest env)) (line_to_value env l)) ls @ [[]]"
proof (induction ls)
  case (Cons l ls)
  have "split_byte newline (encode_line env l @ concat (map (encode_line env) ls))
      = to_json_string (ie_lib (ar_ingest env)) (line_to_value env l) # split_byte newline (concat (map (encode_line env) ls))"
    unfolding encode_line_def using split_byte_append [OF codec_json(2) [OF assms]] by simp
  with Cons show ?case by simp
qed simp

lemma read_encoded:
  assumes "codec_ok env" "\<forall>l \<in> set ls. offset_ok (al_o l)"
  shows "read_envelopes env i (map (\<lambda>l. to_json_string (ie_lib (ar_ingest env)) (line_to_value env l)) ls @ [[]]) = Inr ls"
  using assms(2) by (induction ls arbitrary: i) (simp_all add: codec_json [OF assms(1)] value_of_line [OF assms(1)])

text \<open>The object under a key holds these lines.\<close>

definition holds_lines :: "archive_env \<Rightarrow> object_store \<Rightarrow> string \<Rightarrow> string \<Rightarrow> archive_line list \<Rightarrow> bool" where
  "holds_lines env store key sha256 ls \<longleftrightarrow>
     (\<exists>object. store key = Some object
        \<and> ar_decompress env (ob_content object) = Some (concat (map (encode_line env) ls))
        \<and> sha256 = sha256_of env (concat (map (encode_line env) ls)))"

lemma read_holds:
  assumes "codec_ok env" "\<forall>l \<in> set ls. offset_ok (al_o l)" "holds_lines env store key sha256 ls"
  shows "read_session_lines env store key sha256 = Inr ls"
  using assms(3) read_encoded [OF assms(1,2)] split_encoded [OF assms(1)]
  by (auto simp: holds_lines_def read_session_lines_def simp del: res_bind_eq_Inr_iff)

section \<open>Keys\<close>

definition own_key :: "archive_env \<Rightarrow> session \<Rightarrow> string \<Rightarrow> bool" where
  "own_key env s key \<longleftrightarrow> (\<exists>agent t. key = object_key env agent t s)"

lemma rev_prefix_unique:
  assumes "xs @ c # ys = xs' @ c # ys'" "c \<notin> set ys" "c \<notin> set ys'"
  shows "ys = ys'"
  using assms
proof (induction xs arbitrary: xs')
  case Nil
  then show ?case by (cases xs') auto
next
  case (Cons x xs)
  then show ?case by (cases xs') auto
qed

lemma own_key_unique:
  assumes "codec_ok env" "own_key env s key" "own_key env s' key"
  shows "s = s'"
proof -
  let ?u = "ie_uuid_string (ar_ingest env)"
  obtain a t where "key = object_key env a t s" using assms(2) by (auto simp: own_key_def)
  then have 1: "key = (''sessions/'' @ a @ ''/'' @ ar_month env t) @ CHR ''/'' # (?u s @ ''.jsonl.zst'')"
    by (simp add: object_key_def)
  obtain a' t' where "key = object_key env a' t' s'" using assms(3) by (auto simp: own_key_def)
  then have 2: "key = (''sessions/'' @ a' @ ''/'' @ ar_month env t') @ CHR ''/'' # (?u s' @ ''.jsonl.zst'')"
    by (simp add: object_key_def)
  have "CHR ''/'' \<notin> set (?u s @ ''.jsonl.zst'')" "CHR ''/'' \<notin> set (?u s' @ ''.jsonl.zst'')"
    using assms(1) by (simp_all add: codec_ok_def)
  from rev_prefix_unique [OF trans [OF 2 [symmetric] 1] this(2,1)] have "?u s' = ?u s" by simp
  then show ?thesis using assms(1) by (auto simp: codec_ok_def inj_def)
qed

end
