(* ===== verification/Archive_Runs.thy ===== *)
theory Archive_Runs
  imports Archive_Codec Ingest_Run
begin

text \<open>
  The archive over time. The ingester stores lines of sessions that are not purged, cycles export and
  purge, purged sessions are restored, and other work goes on that leaves the tables of the archive
  alone. What all of it keeps is stated once, as a locale.
\<close>

section \<open>Moments\<close>

text \<open>Time passes, uploads, dumps and statements may fail; the libraries stay the same.\<close>

definition moment ::
  "archive_env \<Rightarrow> time \<Rightarrow> (session \<Rightarrow> int \<Rightarrow> bool) \<Rightarrow> (string \<Rightarrow> bool) \<Rightarrow> bool \<Rightarrow> archive_env" where
  "moment env now db_ok put_ok dump_ok = env\<lparr>ar_put_ok := put_ok, ar_dump_ok := dump_ok,
     ar_ingest := (ar_ingest env)\<lparr>ie_now := now, ie_db_ok := db_ok\<rparr>\<rparr>"

lemma moment_parts [simp]:
  "ie_lib (ar_ingest (moment env now db_ok put_ok dump_ok)) = ie_lib (ar_ingest env)"
  "ie_uuid_string (ar_ingest (moment env now db_ok put_ok dump_ok)) = ie_uuid_string (ar_ingest env)"
  "ie_sha256_hex (ar_ingest (moment env now db_ok put_ok dump_ok)) = ie_sha256_hex (ar_ingest env)"
  "ie_parse_rfc3339 (ar_ingest (moment env now db_ok put_ok dump_ok)) = ie_parse_rfc3339 (ar_ingest env)"
  "ar_show_time (moment env now db_ok put_ok dump_ok) = ar_show_time env"
  "ar_parse_time (moment env now db_ok put_ok dump_ok) = ar_parse_time env"
  "ar_month (moment env now db_ok put_ok dump_ok) = ar_month env"
  "ar_compress (moment env now db_ok put_ok dump_ok) = ar_compress env"
  "ar_decompress (moment env now db_ok put_ok dump_ok) = ar_decompress env"
  by (simp_all add: moment_def)

lemma moment_codec [simp]:
  "encode_line (moment env now db_ok put_ok dump_ok) = encode_line env"
  "sha256_of (moment env now db_ok put_ok dump_ok) = sha256_of env"
  "object_key (moment env now db_ok put_ok dump_ok) = object_key env"
  "value_to_line (moment env now db_ok put_ok dump_ok) = value_to_line env"
  by (simp_all add: encode_line_def line_to_value_def sha256_of_def object_key_def value_to_line_def fun_eq_iff)

lemma moment_read [simp]:
  "read_session_lines (moment env now db_ok put_ok dump_ok) = read_session_lines env"
proof -
  have "read_envelopes (moment env now db_ok put_ok dump_ok) i raw = read_envelopes env i raw" for i raw
    by (induction raw arbitrary: i) (simp_all split: option.split)
  then show ?thesis by (simp add: read_session_lines_def fun_eq_iff)
qed

section \<open>Steps\<close>

definition source_of :: "session_row \<Rightarrow> transcript_source" where
  "source_of row = replay_source (sn_agent row)"

text \<open>What other work leaves alone.\<close>

definition archive_untouched :: "archive_db \<Rightarrow> archive_db \<Rightarrow> bool" where
  "archive_untouched db db' \<longleftrightarrow>
     ig_events (ad_ingest db') = ig_events (ad_ingest db) \<and> ad_usage db' = ad_usage db \<and> ad_columns db' = ad_columns db
     \<and> ad_contributions db' = ad_contributions db \<and> ad_rollup db' = ad_rollup db
     \<and> (\<exists>new. ad_sessions db' = ad_sessions db @ new) \<and> (distinct (ad_sessions db) \<longrightarrow> distinct (ad_sessions db'))
     \<and> (\<forall>s row. ig_sessions (ad_ingest db) s = Some row \<longrightarrow>
          (\<exists>row'. ig_sessions (ad_ingest db') s = Some row' \<and> sn_agent row' = sn_agent row \<and> sn_purged row' = sn_purged row))
     \<and> (\<forall>s row. ig_sessions (ad_ingest db) s = None \<longrightarrow> ig_sessions (ad_ingest db') s = Some row \<longrightarrow>
          \<not> sn_purged row \<and> s \<in> set (ad_sessions db'))"

inductive archive_step :: "archive_env \<Rightarrow> archive_db \<times> object_store \<Rightarrow> archive_db \<times> object_store \<Rightarrow> bool" for env where
  line: "ig_sessions (ad_ingest db) s = Some row \<Longrightarrow> \<not> sn_purged row \<Longrightarrow> offset_ok byte_offset \<Longrightarrow>
    insert_counted (moment env now db_ok put_ok dump_ok) s (source_of row) byte_offset line ctx subagent fallback db = (outcome, ctx', db') \<Longrightarrow>
    archive_step env (db, store) (db', store)"
| cycle: "run_cycle (moment env now db_ok put_ok dump_ok) cfg dry_run (db, store) = (outcome, db', store') \<Longrightarrow>
    archive_step env (db, store) (db', store')"
| restore: "restore_session (moment env now db_ok put_ok dump_ok) store s purge_after db = Some (Inr out, db') \<Longrightarrow>
    archive_step env (db, store) (db', store)"
| refused: "load_purged (moment env now db_ok put_ok dump_ok) s db store = Inl e \<Longrightarrow>
    restore_session (moment env now db_ok put_ok dump_ok) store s purge_after db = Some (r, db') \<Longrightarrow>
    archive_step env (db, store) (db', store)"
| other: "archive_untouched db db' \<Longrightarrow> archive_step env (db, store) (db', store)"

inductive_cases archive_stepE: "archive_step env (db, store) (db', store')"

abbreviation archive_run :: "archive_env \<Rightarrow> archive_db \<times> object_store \<Rightarrow> archive_db \<times> object_store \<Rightarrow> bool" where
  "archive_run env \<equiv> (archive_step env)\<^sup>*\<^sup>*"

section \<open>What every step keeps\<close>

text \<open>
  An assertion on the database and the store that exports, purges and the clock of the archive keep, each
  on its own: then a cycle keeps it.
\<close>

locale kept_by_cycle =
  fixes env :: archive_env and P :: "archive_db \<times> object_store \<Rightarrow> bool"
  assumes keeps_export: "P (db, store) \<Longrightarrow> ig_sessions (ad_ingest db) (el_session el) = Some row \<Longrightarrow> \<not> sn_purged row \<Longrightarrow>
      export_session (moment env n g f b) el (db, store) = (ex, db', store') \<Longrightarrow> P (db', store')"
    and keeps_purge: "P (db, store) \<Longrightarrow> purge_session (moment env n g f b) s db = Inr db' \<Longrightarrow> P (db', store)"
    and keeps_clock: "P (db, store) \<Longrightarrow> P (db\<lparr>ad_last_dump := t\<rparr>, store)" "P (db, store) \<Longrightarrow> P (db\<lparr>ad_cycle_started := t\<rparr>, store)"
      "P (db, store) \<Longrightarrow> P (db\<lparr>ad_cycle_completed := t\<rparr>, store)"
begin

lemma keeps_exports:
  assumes "P (db, store)" "\<forall>el \<in> set els. \<exists>row. ig_sessions (ad_ingest db) (el_session el) = Some row \<and> \<not> sn_purged row"
    "fold (export_one (moment env n g f b)) els (oc, db, store) = (oc', db', store')"
  shows "P (db', store')"
  using assms
proof (induction els arbitrary: oc db store)
  case (Cons el els)
  obtain out db1 store1 where e: "export_session (moment env n g f b) el (db, store) = (out, db1, store1)" by (metis prod_cases3)
  obtain row where row: "ig_sessions (ad_ingest db) (el_session el) = Some row" "\<not> sn_purged row" using Cons.prems(2) by auto
  have same: "ad_ingest db1 = ad_ingest db"
    using e by (auto simp: export_session_def record_archive_def Let_def split: prod.splits if_splits sum.splits)
  obtain oc1 where "export_one (moment env n g f b) el (oc, db, store) = (oc1, db1, store1)"
    using e by (cases out) (auto simp: export_one_def)
  then show ?case using Cons.IH [OF keeps_export [OF Cons.prems(1) row e], of oc1] Cons.prems(2,3) same by simp
qed simp

lemma keeps_purges:
  assumes "P (db, store)" "fold (purge_one (moment env n g f b)) ss (oc, db) = (oc', db')"
  shows "P (db', store)"
  using assms
proof (induction ss arbitrary: oc db)
  case (Cons s ss)
  show ?case
  proof (cases "purge_session (moment env n g f b) s db")
    case (Inl e)
    then show ?thesis using Cons.IH [OF Cons.prems(1)] Cons.prems(2) by (simp add: purge_one_def)
  next
    case (Inr db1)
    then show ?thesis using Cons.IH [OF keeps_purge [OF Cons.prems(1) Inr]] Cons.prems(2) by (simp add: purge_one_def)
  qed
qed simp

lemma keeps_phases:
  assumes "P (db, store)" "\<forall>el \<in> set els. \<exists>row. ig_sessions (ad_ingest db) (el_session el) = Some row \<and> \<not> sn_purged row"
    "run_cycle_phases (moment env n g f b) cfg els (db, store) = (out, db', store')"
  shows "P (db', store')"
proof (cases "cf_dump_enabled cfg \<and> \<not> ar_dump_ok (moment env n g f b)")
  case True
  then show ?thesis using assms by (simp add: run_cycle_phases_def)
next
  case False
  define db0 where "db0 = (if cf_dump_enabled cfg then db\<lparr>ad_last_dump := Some (ie_now (ar_ingest (moment env n g f b)))\<rparr> else db)"
  define oc0 :: cycle_outcome where "oc0 = \<lparr>cy_exported = 0, cy_export_failures = 0, cy_purged = 0, cy_purge_failures = 0, cy_deferred_for = []\<rparr>"
  have P0: "P (db0, store)" using keeps_clock(1) [OF assms(1)] assms(1) by (simp add: db0_def)
  obtain oc1 db1 store1 where e: "fold (export_one (moment env n g f b)) els (oc0, db0, store) = (oc1, db1, store1)" by (metis prod_cases3)
  have "ad_ingest db0 = ad_ingest db" by (simp add: db0_def)
  then have P1: "P (db1, store1)" using keeps_exports [OF P0 _ e] assms(2) by simp
  obtain oc ss oc' where "fold (purge_one (moment env n g f b)) ss (oc, db1) = (oc', db')" "store' = store1"
    using assms(3) False e unfolding db0_def oc0_def by (auto simp: run_cycle_phases_def Let_def split: prod.splits)
  then show ?thesis using keeps_purges [OF P1] by simp
qed

lemma keeps_cycle:
  assumes "P (db, store)" "run_cycle (moment env n g f b) cfg dry (db, store) = (out, db', store')"
  shows "P (db', store')"
proof (cases dry)
  case True
  then show ?thesis using assms by (simp add: run_cycle_def)
next
  case False
  let ?env = "moment env n g f b"
  let ?db = "db\<lparr>ad_cycle_started := Some (ie_now (ar_ingest ?env))\<rparr>" and ?els = "eligible_sessions ?env (cf_min_idle_days cfg) db"
  have P0: "P (?db, store)" by (rule keeps_clock(2) [OF assms(1)])
  have els: "\<exists>row. ig_sessions (ad_ingest ?db) (el_session el) = Some row \<and> \<not> sn_purged row" if "el \<in> set ?els" for el
    using that by (auto simp: eligible_sessions_def map_filter_def eligible_session_of_def split: option.splits if_splits)
  obtain ph db1 store1 where ph: "run_cycle_phases ?env cfg ?els (?db, store) = (ph, db1, store1)" by (metis prod_cases3)
  have P1: "P (db1, store1)" using keeps_phases [OF P0 _ ph] els by blast
  from keeps_clock(3) [OF P1] P1 ph False assms(2) show ?thesis
    by (auto simp: run_cycle_def Let_def split: sum.splits)
qed

end

text \<open>
  An assertion that all steps keep: also the insertion of a line, the replay of the lines of a purged
  session, and work elsewhere. The clock is work elsewhere, so a cycle keeps it too.
\<close>

locale kept_by_archive =
  fixes env :: archive_env and P :: "archive_db \<times> object_store \<Rightarrow> bool"
  assumes keeps_line: "P (db, store) \<Longrightarrow> ig_sessions (ad_ingest db) s = Some row \<Longrightarrow> \<not> sn_purged row \<Longrightarrow> offset_ok k \<Longrightarrow>
      insert_counted (moment env n g f b) s (source_of row) k l ctx sub fb db = (out, ctx', db') \<Longrightarrow> P (db', store)"
    and keeps_export: "P (db, store) \<Longrightarrow> ig_sessions (ad_ingest db) (el_session el) = Some row \<Longrightarrow> \<not> sn_purged row \<Longrightarrow>
      export_session (moment env n g f b) el (db, store) = (ex, db', store') \<Longrightarrow> P (db', store')"
    and keeps_purge: "P (db, store) \<Longrightarrow> purge_session (moment env n g f b) s db = Inr db' \<Longrightarrow> P (db', store)"
    and keeps_replay: "P (db, store) \<Longrightarrow> load_purged (moment env n g f b) s db store = Inr (agent, ls) \<Longrightarrow>
      replay_archive (moment env n g f b) s agent ls (snd (withdraw_and_clear s db)) = Some (Inr stats, db') \<Longrightarrow> P (db', store)"
    and keeps_other: "P (db, store) \<Longrightarrow> archive_untouched db db' \<Longrightarrow> P (db', store)"

sublocale kept_by_archive < cycle: kept_by_cycle env P
proof
  show "P (db\<lparr>ad_last_dump := t\<rparr>, store)" "P (db\<lparr>ad_cycle_started := t\<rparr>, store)" "P (db\<lparr>ad_cycle_completed := t\<rparr>, store)"
    if "P (db, store)" for db store t
    by (rule keeps_other [OF that]; auto simp: archive_untouched_def)+
qed (fact keeps_export keeps_purge)+

context kept_by_archive
begin

lemma keeps_restore:
  assumes "P (db, store)" "restore_session (moment env n g f b) store s purge_after db = Some (Inr out, db')"
  shows "P (db', store)"
proof -
  let ?env = "moment env n g f b"
  obtain agent ls where l: "load_purged ?env s db store = Inr (agent, ls)"
    using assms(2) by (cases "load_purged ?env s db store") (auto simp: restore_session_def)
  obtain tokens db1 where w: "withdraw_and_clear s db = (tokens, db1)" by fastforce
  obtain stats db2 where r: "replay_archive ?env s agent ls db1 = Some (Inr stats, db2)"
    using assms(2) by (auto simp: restore_session_def l w split: option.splits sum.splits)
  have P2: "P (db2, store)" using keeps_replay [OF assms(1) l] r w by simp
  show ?thesis
    using assms(2) keeps_purge [OF P2] P2 by (auto simp: restore_session_def l w r Let_def split: if_splits sum.splits)
qed

lemma keeps_step:
  assumes "archive_step env st st'" "P st"
  shows "P st'"
  using assms
proof cases
  case (line db s row byte_offset now db_ok put_ok dump_ok line ctx subagent fallback outcome ctx' db' store)
  then show ?thesis using keeps_line assms(2) by blast
next
  case (cycle now db_ok put_ok dump_ok cfg dry_run db store outcome db' store')
  then show ?thesis using cycle.keeps_cycle assms(2) by blast
next
  case (restore now db_ok put_ok dump_ok store s purge_after db out db')
  then show ?thesis using keeps_restore assms(2) by blast
next
  case (refused now db_ok put_ok dump_ok s db store e purge_after r db')
  then show ?thesis using assms(2) by (simp add: restore_session_def)
next
  case (other db db' store)
  then show ?thesis using keeps_other assms(2) by blast
qed

lemma keeps_run: "archive_run env st st' \<Longrightarrow> P st \<Longrightarrow> P st'"
  by (induction rule: rtranclp_induct) (use keeps_step in blast)+

end

end
