(* ===== verification/Archive_History.thy ===== *)
theory Archive_History
  imports Archive_Runs
begin

text \<open>
  The history of a session: the offset, time, kind and payload of its events, taken from its rows or,
  once it is purged, from its object. Exporting, purging and restoring keep it, and a new line adds to it.
\<close>

section \<open>Facts\<close>

definition event_fact :: "archive_line \<Rightarrow> int \<times> time \<times> string \<times> json" where
  "event_fact l = (al_o l, al_t l, al_k l, al_p l)"

abbreviation row_facts :: "(int, event_row) btree_map \<Rightarrow> (int \<times> time \<times> string \<times> json) list" where
  "row_facts m \<equiv> map (event_fact \<circ> line_of_row) m"

lemma fact_of_row [simp]: "event_fact (line_of_row (k, r)) = (k, ev_timestamp r, ev_kind r, ev_payload r)"
  by (simp add: event_fact_def line_of_row_def)

lemma offset_of_row [simp]: "al_o (line_of_row e) = fst e"
  by (simp add: line_of_row_def split_beta)

lemma fst_fact: "fst (event_fact l) = al_o l"
  by (simp add: event_fact_def)

text \<open>A fact that the insertion derives again from the payload and the time it has.\<close>

definition fact_ok :: "archive_env \<Rightarrow> transcript_source \<Rightarrow> int \<times> time \<times> string \<times> json \<Rightarrow> bool" where
  "fact_ok env source = (\<lambda>(k, t, kind, p). offset_ok k
     \<and> unwrap_or (parse_event_timestamp (ar_ingest env) p) t = t \<and> kind = stored_event_kind source p)"

definition standing :: "archive_db \<Rightarrow> session \<Rightarrow> (string \<times> bool) option" where
  "standing db s = map_option (\<lambda>row. (sn_agent row, sn_purged row)) (ig_sessions (ad_ingest db) s)"

definition history :: "archive_env \<Rightarrow> archive_db \<times> object_store \<Rightarrow> session \<Rightarrow> (int \<times> time \<times> string \<times> json) list" where
  "history env = (\<lambda>(db, store) s.
     (if session_is_purged s (ad_ingest db) then
        (case (ac_key (ad_columns db s), ac_sha256 (ad_columns db s)) of
           (Some key, Some sha256) \<Rightarrow>
             (case read_session_lines env store key sha256 of Inr ls \<Rightarrow> map event_fact ls | Inl _ \<Rightarrow> [])
         | _ \<Rightarrow> [])
      else row_facts (ig_events (ad_ingest db) s)))"

lemma purged_standing: "session_is_purged s (ad_ingest db) \<longleftrightarrow> (\<exists>agent. standing db s = Some (agent, True))"
  by (auto simp: session_is_purged_def standing_def split: option.split)

section \<open>The invariant\<close>

definition archived_lines :: "archive_env \<Rightarrow> archive_db \<Rightarrow> object_store \<Rightarrow> session \<Rightarrow> archive_line list \<Rightarrow> bool" where
  "archived_lines env db store s ls \<longleftrightarrow>
     (\<exists>key sha256. ac_key (ad_columns db s) = Some key \<and> ac_sha256 (ad_columns db s) = Some sha256
        \<and> ac_events (ad_columns db s) = Some (int (length ls)) \<and> own_key env s key \<and> holds_lines env store key sha256 ls)
     \<and> sorted_wrt (<) (map al_o ls)"

definition session_sound :: "archive_env \<Rightarrow> archive_db \<Rightarrow> object_store \<Rightarrow> session \<Rightarrow> bool" where
  "session_sound env db store s \<longleftrightarrow> btm_ok (ig_events (ad_ingest db) s) \<and>
     (case standing db s of
        None \<Rightarrow> ig_events (ad_ingest db) s = [] \<and> ac_archived_at (ad_columns db s) = None
      | Some (agent, purged) \<Rightarrow>
          (\<forall>f \<in> set (row_facts (ig_events (ad_ingest db) s)). fact_ok env (replay_source agent) f)
          \<and> (purged \<longrightarrow> ig_events (ad_ingest db) s = [] \<and> ac_archived_at (ad_columns db s) \<noteq> None)
          \<and> (ac_archived_at (ad_columns db s) \<noteq> None \<longrightarrow>
               (\<exists>ls. archived_lines env db store s ls \<and> (\<forall>l \<in> set ls. fact_ok env (replay_source agent) (event_fact l))
                  \<and> (\<not> purged \<longrightarrow> event_fact ` set ls \<subseteq> set (row_facts (ig_events (ad_ingest db) s))))))"

definition archive_sound :: "archive_env \<Rightarrow> archive_db \<times> object_store \<Rightarrow> bool" where
  "archive_sound env = (\<lambda>(db, store). \<forall>s. session_sound env db store s)"

lemma archive_sound_iff: "archive_sound env (db, store) \<longleftrightarrow> (\<forall>s. session_sound env db store s)"
  by (simp add: archive_sound_def)

lemma live_sound_iff:
  assumes "standing db s = Some (agent, False)"
  shows "session_sound env db store s \<longleftrightarrow> btm_ok (ig_events (ad_ingest db) s)
    \<and> (\<forall>f \<in> set (row_facts (ig_events (ad_ingest db) s)). fact_ok env (replay_source agent) f)
    \<and> (ac_archived_at (ad_columns db s) \<noteq> None \<longrightarrow>
         (\<exists>ls. archived_lines env db store s ls \<and> (\<forall>l \<in> set ls. fact_ok env (replay_source agent) (event_fact l))
            \<and> event_fact ` set ls \<subseteq> set (row_facts (ig_events (ad_ingest db) s))))"
  by (simp only: session_sound_def assms option.case prod.case simp_thms)

lemma purged_sound_iff:
  assumes "standing db s = Some (agent, True)"
  shows "session_sound env db store s \<longleftrightarrow> ig_events (ad_ingest db) s = [] \<and> ac_archived_at (ad_columns db s) \<noteq> None
    \<and> (\<exists>ls. archived_lines env db store s ls \<and> (\<forall>l \<in> set ls. fact_ok env (replay_source agent) (event_fact l)))"
  by (auto simp: session_sound_def assms)

lemma history_live:
  "standing db s \<noteq> Some (agent, True) \<Longrightarrow> standing db s = Some (agent, p) \<Longrightarrow> history env (db, store) s = row_facts (ig_events (ad_ingest db) s)"
  using purged_standing [of s db] by (auto simp: history_def)

lemma offsets_in_range:
  "\<forall>l \<in> set ls. fact_ok env source (event_fact l) \<Longrightarrow> \<forall>l \<in> set ls. offset_ok (al_o l)"
  by (auto simp: fact_ok_def event_fact_def)

lemma history_purged:
  assumes "codec_ok env" "standing db s = Some (agent, True)" "archived_lines env db store s ls"
    "\<forall>l \<in> set ls. fact_ok env source (event_fact l)"
  shows "history env (db, store) s = map event_fact ls"
proof -
  obtain key sha256 where "ac_key (ad_columns db s) = Some key" "ac_sha256 (ad_columns db s) = Some sha256"
      "holds_lines env store key sha256 ls"
    using assms(3) by (auto simp: archived_lines_def)
  then show ?thesis
    using read_holds [OF assms(1) offsets_in_range [OF assms(4)]] assms(2) purged_standing [of s db]
    by (auto simp: history_def)
qed

text \<open>A session is sound and keeps its history where its rows, its columns and its object stay as they were.\<close>

lemma sound_frame:
  assumes "session_sound env db store s" "ig_events (ad_ingest db') s = ig_events (ad_ingest db) s"
    "ad_columns db' s = ad_columns db s" "standing db' s = standing db s" "\<And>key. own_key env s key \<Longrightarrow> store' key = store key"
  shows "session_sound env db' store' s" "history env (db', store') s = history env (db, store) s"
proof -
  have "holds_lines env store' key sha256 ls = holds_lines env store key sha256 ls" if "own_key env s key" for key sha256 ls
    using assms(5) [OF that] by (simp add: holds_lines_def)
  then have lines: "archived_lines env db' store' s ls = archived_lines env db store s ls" for ls
    using assms(3) by (auto simp: archived_lines_def)
  then show "session_sound env db' store' s"
    using assms(1) by (simp only: session_sound_def assms(2-4) lines)
  have "session_is_purged s (ad_ingest db') = session_is_purged s (ad_ingest db)" using assms(4) by (simp add: purged_standing)
  moreover have "read_session_lines env store' key sha256 = read_session_lines env store key sha256"
    if p: "session_is_purged s (ad_ingest db)" "ac_key (ad_columns db s) = Some key" for key sha256
  proof -
    obtain ls where "archived_lines env db store s ls" using assms(1) p(1) by (auto simp: session_sound_def purged_standing)
    then have "store' key = store key" using p(2) assms(5) by (auto simp: archived_lines_def)
    then show ?thesis by (simp add: read_session_lines_def)
  qed
  ultimately show "history env (db', store') s = history env (db, store) s"
    using assms(2,3) by (auto simp: history_def split: option.splits sum.splits)
qed

definition moves :: "archive_env \<Rightarrow> archive_db \<times> object_store \<Rightarrow> archive_db \<times> object_store \<Rightarrow> bool" where
  "moves env st st' \<longleftrightarrow> archive_sound env st' \<and> (\<forall>s. set (history env st s) \<subseteq> set (history env st' s))"

lemma moves_refl: "archive_sound env st \<Longrightarrow> moves env st st"
  by (simp add: moves_def)

text \<open>A step that concerns one session.\<close>

lemma moves_session:
  assumes "archive_sound env (db, store)"
    "session_sound env db' store' s" "set (history env (db, store) s) \<subseteq> set (history env (db', store') s)"
    "\<And>t. t \<noteq> s \<Longrightarrow> ig_events (ad_ingest db') t = ig_events (ad_ingest db) t \<and> ad_columns db' t = ad_columns db t \<and> standing db' t = standing db t"
    "\<And>t key. t \<noteq> s \<Longrightarrow> own_key env t key \<Longrightarrow> store' key = store key"
  shows "moves env (db, store) (db', store')"
proof -
  have "session_sound env db' store' t \<and> set (history env (db, store) t) \<subseteq> set (history env (db', store') t)" for t
  proof (cases "t = s")
    case False
    have "session_sound env db store t" using assms(1) by (simp add: archive_sound_iff)
    then show ?thesis using sound_frame [of env db store t db' store'] assms(4,5) False by simp
  qed (use assms(2,3) in simp)
  then show ?thesis unfolding moves_def archive_sound_iff by blast
qed

section \<open>Other work\<close>

lemma standing_untouched:
  assumes "archive_untouched db db'"
  shows "standing db' s = standing db s \<or> (standing db s = None \<and> (\<exists>agent. standing db' s = Some (agent, False)))"
proof (cases "ig_sessions (ad_ingest db) s")
  case None
  then show ?thesis using assms by (cases "ig_sessions (ad_ingest db') s") (auto simp: archive_untouched_def standing_def)
next
  case (Some row)
  then obtain row' where "ig_sessions (ad_ingest db') s = Some row'" "sn_agent row' = sn_agent row" "sn_purged row' = sn_purged row"
    using assms unfolding archive_untouched_def by blast
  then show ?thesis using Some by (simp add: standing_def)
qed

lemma other_moves:
  assumes "archive_sound env (db, store)" "archive_untouched db db'"
  shows "moves env (db, store) (db', store)"
proof -
  have "session_sound env db' store s \<and> history env (db', store) s = history env (db, store) s" for s
  proof -
    have sound: "session_sound env db store s" using assms(1) by (simp add: archive_sound_iff)
    have same: "ig_events (ad_ingest db') s = ig_events (ad_ingest db) s" "ad_columns db' s = ad_columns db s"
      using assms(2) by (simp_all add: archive_untouched_def)
    from standing_untouched [OF assms(2), of s] show ?thesis
    proof
      assume "standing db' s = standing db s"
      then show ?thesis using sound_frame [OF sound same] by simp
    next
      assume new: "standing db s = None \<and> (\<exists>agent. standing db' s = Some (agent, False))"
      then have "session_sound env db' store s" using sound same by (auto simp: session_sound_def)
      moreover have "\<not> session_is_purged s (ad_ingest db)" "\<not> session_is_purged s (ad_ingest db')"
        using new by (auto simp: purged_standing)
      ultimately show ?thesis using same by (simp add: history_def)
    qed
  qed
  then show ?thesis unfolding moves_def archive_sound_iff by (metis subset_refl)
qed

section \<open>A line\<close>

lemma set_btm_insert_new:
  "map_of m k = None \<Longrightarrow> set (btm_insert k v m) = insert (k, v) (set m)"
  by (induction m) (auto split: if_splits)

definition sessions_alike :: "ingest_db \<Rightarrow> ingest_db \<Rightarrow> bool" where
  "sessions_alike db db' \<longleftrightarrow> (\<forall>t. map_option (\<lambda>row. (sn_agent row, sn_purged row)) (ig_sessions db' t)
     = map_option (\<lambda>row. (sn_agent row, sn_purged row)) (ig_sessions db t))"

lemma link_parent_alike: "sessions_alike db (link_parent_session env source v s db)"
  by (simp add: sessions_alike_def link_parent_session_def set_parent_session_def split: option.split)

lemma sessions_alike_cong: "ig_sessions db1 = ig_sessions db \<Longrightarrow> sessions_alike db1 db' \<Longrightarrow> sessions_alike db db'"
  by (simp add: sessions_alike_def)

lemma insert_line_effect:
  assumes "insert_line env s source k l ctx sub fb db = (out, ctx', db')"
  shows "sessions_alike db db'"
    "(out \<noteq> Inr True \<and> ig_events db' = ig_events db)
     \<or> (out = Inr True \<and> map_of (ig_events db s) k = None
        \<and> (\<exists>v e. from_str (ie_lib env) l = Some v
             \<and> ig_events db' = (ig_events db)(s := btm_insert k (event_row_of env source v fb e) (ig_events db s))))"
proof -
  have refl: "sessions_alike db db" by (simp add: sessions_alike_def)
  have "sessions_alike db db' \<and> ((out \<noteq> Inr True \<and> ig_events db' = ig_events db)
     \<or> (out = Inr True \<and> map_of (ig_events db s) k = None
        \<and> (\<exists>v e. from_str (ie_lib env) l = Some v
             \<and> ig_events db' = (ig_events db)(s := btm_insert k (event_row_of env source v fb e) (ig_events db s)))))"
  proof (cases "list_all ascii_whitespace l \<or> from_str (ie_lib env) l = None")
    case True
    then show ?thesis using assms refl by (auto simp: insert_line_def split: if_splits)
  next
    case False
    then obtain v where v: "from_str (ie_lib env) l = Some v" by blast
    show ?thesis
    proof (cases "parse_canonical_event env (agent_id source) v s k ctx")
      case (Inl p)
      then show ?thesis using assms refl False v by (auto simp: insert_line_def)
    next
      case (Inr parsed)
      show ?thesis
      proof (cases "ie_db_ok env s k")
        case ok: False
        then show ?thesis using assms refl False v Inr by (auto simp: insert_line_def Let_def)
      next
        case True
        then show ?thesis using assms False v Inr
          by (auto simp: insert_line_def Let_def intro!: sessions_alike_cong [OF _ link_parent_alike] split: if_splits)
      qed
    qed
  qed
  then show "sessions_alike db db'" and "(out \<noteq> Inr True \<and> ig_events db' = ig_events db)
     \<or> (out = Inr True \<and> map_of (ig_events db s) k = None
        \<and> (\<exists>v e. from_str (ie_lib env) l = Some v
             \<and> ig_events db' = (ig_events db)(s := btm_insert k (event_row_of env source v fb e) (ig_events db s))))" by simp_all
qed

text \<open>The tables of the archive that the insertion of a line does not write.\<close>

definition archive_alike :: "archive_db \<Rightarrow> archive_db \<Rightarrow> bool" where
  "archive_alike db db' \<longleftrightarrow> ad_columns db' = ad_columns db \<and> ad_sessions db' = ad_sessions db
     \<and> ad_contributions db' = ad_contributions db \<and> ad_rollup db' = ad_rollup db \<and> (\<forall>s. standing db' s = standing db s)
     \<and> (\<forall>s. (ig_sessions (ad_ingest db') s = None) = (ig_sessions (ad_ingest db) s = None))"

lemma archive_alike_refl [simp]: "archive_alike db db"
  by (simp add: archive_alike_def)

lemma archive_alike_trans: "archive_alike a b \<Longrightarrow> archive_alike b c \<Longrightarrow> archive_alike a c"
  by (simp add: archive_alike_def)

lemma archive_alike_ingest:
  assumes "sessions_alike (ad_ingest db) ig"
  shows "archive_alike db (db\<lparr>ad_ingest := ig, ad_usage := u\<rparr>)" "archive_alike db (db\<lparr>ad_ingest := ig\<rparr>)"
proof -
  have "(ig_sessions ig s = None) = (ig_sessions (ad_ingest db) s = None)" for s
    using assms [unfolded sessions_alike_def, rule_format, of s] by (cases "ig_sessions ig s"; cases "ig_sessions (ad_ingest db) s") auto
  then show "archive_alike db (db\<lparr>ad_ingest := ig, ad_usage := u\<rparr>)" "archive_alike db (db\<lparr>ad_ingest := ig\<rparr>)"
    using assms by (simp_all add: archive_alike_def standing_def sessions_alike_def)
qed

lemma insert_counted_effect:
  assumes "insert_counted env s source k l ctx sub fb db = (out, ctx', db')"
  shows "archive_alike db db'"
    "(out \<noteq> Inr True \<and> ig_events (ad_ingest db') = ig_events (ad_ingest db) \<and> ad_usage db' = ad_usage db)
     \<or> (out = Inr True \<and> map_of (ig_events (ad_ingest db) s) k = None
        \<and> (\<exists>v e t. from_str (ie_lib (ar_ingest env)) l = Some v
             \<and> ig_events (ad_ingest db') = (ig_events (ad_ingest db))(s := btm_insert k (event_row_of (ar_ingest env) source v fb e) (ig_events (ad_ingest db) s))
             \<and> count_usage env s source k (ad_ingest db') (ad_usage db s) = Inr t \<and> ad_usage db' = (ad_usage db)(s := t)))"
proof -
  obtain out1 ctx1 ig where i: "insert_line (ar_ingest env) s source k l ctx sub fb (ad_ingest db) = (out1, ctx1, ig)" by (metis prod_cases3)
  note e = insert_line_effect [OF i]
  have "archive_alike db db' \<and> ((out \<noteq> Inr True \<and> ig_events (ad_ingest db') = ig_events (ad_ingest db) \<and> ad_usage db' = ad_usage db)
     \<or> (out = Inr True \<and> map_of (ig_events (ad_ingest db) s) k = None
        \<and> (\<exists>v e t. from_str (ie_lib (ar_ingest env)) l = Some v
             \<and> ig_events (ad_ingest db') = (ig_events (ad_ingest db))(s := btm_insert k (event_row_of (ar_ingest env) source v fb e) (ig_events (ad_ingest db) s))
             \<and> count_usage env s source k (ad_ingest db') (ad_usage db s) = Inr t \<and> ad_usage db' = (ad_usage db)(s := t))))"
  proof (cases "out1 = Inr True")
    case True
    show ?thesis
    proof (cases "count_usage env s source k ig (ad_usage db s)")
      case (Inl x)
      then show ?thesis using assms i True by (auto simp: insert_counted_def)
    next
      case (Inr t)
      then have "db' = db\<lparr>ad_ingest := ig, ad_usage := (ad_usage db)(s := t)\<rparr>" "out = Inr True"
        using assms i True by (auto simp: insert_counted_def)
      then show ?thesis using e(2) True Inr archive_alike_ingest(1) [OF e(1)] by auto
    qed
  next
    case False
    then have "db' = db\<lparr>ad_ingest := ig\<rparr>" "out = out1"
      using assms i by (auto simp: insert_counted_def split: sum.splits bool.splits)
    then show ?thesis using e(2) False archive_alike_ingest(2) [OF e(1)] by auto
  qed
  then show "archive_alike db db'"
    "(out \<noteq> Inr True \<and> ig_events (ad_ingest db') = ig_events (ad_ingest db) \<and> ad_usage db' = ad_usage db)
     \<or> (out = Inr True \<and> map_of (ig_events (ad_ingest db) s) k = None
        \<and> (\<exists>v e t. from_str (ie_lib (ar_ingest env)) l = Some v
             \<and> ig_events (ad_ingest db') = (ig_events (ad_ingest db))(s := btm_insert k (event_row_of (ar_ingest env) source v fb e) (ig_events (ad_ingest db) s))
             \<and> count_usage env s source k (ad_ingest db') (ad_usage db s) = Inr t \<and> ad_usage db' = (ad_usage db)(s := t)))" by simp_all
qed

end
