(* ===== verification/Archive_Moves.thy ===== *)
theory Archive_Moves
  imports Archive_History
begin

text \<open>Each operation of the archive keeps the history of every session, and a new line adds to it.\<close>

section \<open>A line\<close>

lemma parse_moment [simp]:
  "parse_event_timestamp (ar_ingest (moment env n g f b)) = parse_event_timestamp (ar_ingest env)"
  by (simp add: parse_event_timestamp_def fun_eq_iff)

lemma new_row_fact:
  assumes "offset_ok k"
  shows "fact_ok env source (event_fact (line_of_row (k, event_row_of (ar_ingest (moment env n g f b)) source v fb e)))"
  using assms
  by (cases "parse_event_timestamp (ar_ingest env) v") (simp_all add: fact_ok_def event_row_of_def)

lemma standing_row: "ig_sessions (ad_ingest db) s = Some row \<Longrightarrow> standing db s = Some (sn_agent row, sn_purged row)"
  by (simp add: standing_def)

lemma alike_standing: "archive_alike db db' \<Longrightarrow> standing db' = standing db"
  by (auto simp: archive_alike_def)

lemma line_moves:
  assumes sound: "archive_sound env (db, store)" and row: "ig_sessions (ad_ingest db) s = Some row" "\<not> sn_purged row" and k: "offset_ok k"
    and i: "insert_counted (moment env n g f b) s (source_of row) k l ctx sub fb db = (out, ctx', db')"
  shows "moves env (db, store) (db', store)"
proof -
  note e = insert_counted_effect [OF i]
  have st: "standing db s = Some (sn_agent row, False)" "standing db' = standing db" "ad_columns db' = ad_columns db"
    using standing_row [OF row(1)] row(2) alike_standing [OF e(1)] e(1) by (auto simp: archive_alike_def)
  have ss: "session_sound env db store s" using sound by (simp add: archive_sound_iff)
  show ?thesis
  proof (cases "out = Inr True")
    case False
    then have same: "ig_events (ad_ingest db') = ig_events (ad_ingest db)" using e(2) by auto
    show ?thesis by (rule moves_session [OF sound, of db' store s]) (use sound_frame [OF ss, of db' store] st same in simp_all)
  next
    case True
    then obtain v x where new: "map_of (ig_events (ad_ingest db) s) k = None"
        "ig_events (ad_ingest db') = (ig_events (ad_ingest db))(s :=
           btm_insert k (event_row_of (ar_ingest (moment env n g f b)) (source_of row) v fb x) (ig_events (ad_ingest db) s))"
      using e(2) by auto
    let ?r = "event_row_of (ar_ingest (moment env n g f b)) (source_of row) v fb x"
    have facts: "set (row_facts (ig_events (ad_ingest db') s)) = insert (event_fact (line_of_row (k, ?r))) (set (row_facts (ig_events (ad_ingest db) s)))"
      using new by (simp add: set_btm_insert_new image_image)
    have fact: "fact_ok env (replay_source (sn_agent row)) (event_fact (line_of_row (k, ?r)))"
      using new_row_fact [OF k] by (simp add: source_of_def)
    have lines: "archived_lines env db' store s = archived_lines env db store s" by (simp add: archived_lines_def st fun_eq_iff)
    have st': "standing db' s = Some (sn_agent row, False)" using st by simp
    have "btm_ok (ig_events (ad_ingest db') s)" using ss new(2) by (simp add: session_sound_def)
    moreover have "\<forall>f \<in> set (row_facts (ig_events (ad_ingest db') s)). fact_ok env (replay_source (sn_agent row)) f"
      unfolding facts using ss fact unfolding live_sound_iff [OF st(1)] by simp
    moreover have "\<exists>ls. archived_lines env db' store s ls \<and> (\<forall>l \<in> set ls. fact_ok env (replay_source (sn_agent row)) (event_fact l))
        \<and> event_fact ` set ls \<subseteq> set (row_facts (ig_events (ad_ingest db') s))" if "ac_archived_at (ad_columns db' s) \<noteq> None"
      unfolding facts lines using ss that unfolding live_sound_iff [OF st(1)] st(3) by (meson subset_insertI2)
    ultimately have "session_sound env db' store s" unfolding live_sound_iff [OF st'] by blast
    moreover have "history env (db', store) s = row_facts (ig_events (ad_ingest db') s)" "history env (db, store) s = row_facts (ig_events (ad_ingest db) s)"
      using st(1,2) by (auto intro: history_live)
    then have "set (history env (db, store) s) \<subseteq> set (history env (db', store) s)" using facts by auto
    ultimately show ?thesis
      by (intro moves_session [OF sound, of db' store s]) (use st new(2) in simp_all)
  qed
qed

section \<open>Export\<close>

lemma export_moves:
  assumes codec: "codec_ok env" and sound: "archive_sound env (db, store)"
    and row: "ig_sessions (ad_ingest db) (el_session el) = Some row" "\<not> sn_purged row"
    and x: "export_session (moment env n g f b) el (db, store) = (out, db', store')"
  shows "moves env (db, store) (db', store')"
proof -
  let ?s = "el_session el" and ?env = "moment env n g f b"
  let ?rows = "ig_events (ad_ingest db) ?s"
  let ?key = "object_key env (el_agent el) (el_first_event_at el) ?s" and ?ls = "map line_of_row ?rows"
  let ?raw = "concat (map (encode_line env) ?ls)"
  let ?object = "\<lparr>ob_content = ar_compress env ?raw, ob_metadata = export_metadata ?env el (event_count db ?s) (sha256_of env ?raw) (int (length ?raw))\<rparr>"
  have ss: "session_sound env db store ?s" using sound by (simp add: archive_sound_iff)
  have st: "standing db ?s = Some (sn_agent row, False)" using standing_row [OF row(1)] row(2) by simp
  have meta: "map_of (export_metadata e el m sha n) ''sha256'' = Some sha" for e m sha n
    by (simp add: export_metadata_def)
  consider "db' = db" "store' = store"
    | "store' = store(?key \<mapsto> ?object)" "db' = record_archive ?env ?s ?key (sha256_of env ?raw) (int (length ?raw)) (event_count db ?s) db"
  proof (cases "event_count db ?s = 0")
    case True
    then show thesis using that(1) x by (simp add: export_session_def write_session_lines_def Let_def)
  next
    case count: False
    show thesis
    proof (cases "ar_put_ok ?env ?key")
      case False
      then show thesis using count that(1) x by (simp add: export_session_def write_session_lines_def Let_def put_file_def)
    next
      case True
      then show thesis using count that(2) x meta
        by (simp add: export_session_def write_session_lines_def Let_def put_file_def check_upload_def comp_def)
    qed
  qed
  then show ?thesis
  proof cases
    case 1
    then show ?thesis using moves_refl sound by simp
  next
    case 2
    have own: "own_key env ?s ?key" by (auto simp: own_key_def)
    have ig: "ad_ingest db' = ad_ingest db" and cols: "ad_columns db' = (ad_columns db)(?s := \<lparr>ac_archived_at = Some (ie_now (ar_ingest ?env)),
        ac_key = Some ?key, ac_sha256 = Some (sha256_of env ?raw), ac_bytes = Some (int (length ?raw)), ac_events = Some (event_count db ?s)\<rparr>)"
      using 2(2) row(1) by (simp_all add: record_archive_def)
    have st': "standing db' = standing db" by (simp add: standing_def ig fun_eq_iff)
    have "holds_lines env store' ?key (sha256_of env ?raw) ?ls" using 2(1) codec by (simp add: holds_lines_def codec_ok_def)
    moreover have "sorted_wrt (<) (map al_o ?ls)" using ss by (simp add: session_sound_def btm_ok_def comp_def)
    ultimately have lines: "archived_lines env db' store' ?s ?ls" using own cols by (simp add: archived_lines_def event_count_def)
    have live: "standing db' ?s = Some (sn_agent row, False)" using st st' by simp
    have facts: "\<forall>l \<in> set ?ls. fact_ok env (replay_source (sn_agent row)) (event_fact l)" "event_fact ` set ?ls \<subseteq> set (row_facts ?rows)"
      using ss unfolding live_sound_iff [OF st] by auto
    have "session_sound env db' store' ?s"
      using ss lines facts unfolding live_sound_iff [OF live] live_sound_iff [OF st] ig by blast
    moreover have "history env (db', store') ?s = history env (db, store) ?s"
      using st st' ig by (simp add: history_def purged_standing)
    moreover have "store' key = store key" if "t \<noteq> ?s" "own_key env t key" for t key
      using that own own_key_unique [OF codec] 2(1) by auto
    ultimately show ?thesis by (intro moves_session [OF sound, of db' store' ?s]) (use ig cols st' in simp_all)
  qed
qed

section \<open>Purge\<close>

lemma purge_effect:
  assumes "purge_session env s db = Inr db'"
  obtains row db1 where "ig_sessions (ad_ingest db) s = Some row" "\<not> sn_purged row" "ac_archived_at (ad_columns db s) \<noteq> None"
    "ac_events (ad_columns db s) = Some (event_count db s)"
    "roll_up_usage s (unwrap_or (attributed_repo s db) []) db = Inr db1"
    "ad_contributions db' = ad_contributions db1" "ad_rollup db' = ad_rollup db1" "ad_usage db' = (ad_usage db)(s := empty_usage)"
    "ad_columns db' = ad_columns db" "ad_sessions db' = ad_sessions db"
    "ig_events (ad_ingest db') = (ig_events (ad_ingest db))(s := [])"
    "ig_sessions (ad_ingest db') = (ig_sessions (ad_ingest db))(s \<mapsto> row\<lparr>sn_purged := True\<rparr>)"
proof -
  obtain row where row: "lock_and_check s db = Inr row" using assms by (auto simp: purge_session_def)
  obtain db1 where u: "roll_up_usage s (unwrap_or (attributed_repo s db) []) db = Inr db1" using assms by (auto simp: purge_session_def Let_def)
  have same: "ad_usage db1 = ad_usage db" "ad_columns db1 = ad_columns db" "ad_sessions db1 = ad_sessions db" "ad_ingest db1 = ad_ingest db"
    using u by (auto simp: roll_up_usage_def Let_def)
  have ops: "ad_ingest (roll_up_file_activity s d) = ad_ingest d" "ad_ingest (store_turn_digests env s d) = ad_ingest d"
      "ad_ingest (fold_touches_into_digest s d) = ad_ingest d" for d
    by (simp_all add: roll_up_file_activity_def store_turn_digests_def fold_touches_into_digest_def Let_def)
  define db2 where "db2 = replace_embedding_sources env s (attributed_repo s db) (fold_touches_into_digest s (store_turn_digests env s (roll_up_file_activity s db1)))"
  have d2: "ad_contributions db2 = ad_contributions db1" "ad_rollup db2 = ad_rollup db1" "ad_usage db2 = ad_usage db"
      "ad_columns db2 = ad_columns db" "ad_sessions db2 = ad_sessions db" "ad_ingest db2 = delete_sources s (ad_ingest db)"
    using same by (simp_all add: db2_def replace_embedding_sources_def ops)
      (simp_all add: roll_up_file_activity_def store_turn_digests_def fold_touches_into_digest_def Let_def)
  have db': "db' = (delete_session_rows s db2)\<lparr>ad_ingest := set_purged True s (ad_ingest (delete_session_rows s db2))\<rparr>"
    using assms u by (auto simp: purge_session_def Let_def db2_def)
  show thesis
    by (rule that [OF _ _ _ _ u]) (use row in \<open>auto simp: lock_and_check_def db' delete_session_rows_def set_purged_def d2 delete_sources_def Let_def\<close>)
qed

lemma facts_unique:
  fixes xs ys :: "(int \<times> 'v) list"
  assumes "btm_ok xs" "btm_ok ys" "set xs \<subseteq> set ys" "length xs = length ys"
  shows "xs = ys"
proof (rule btm_ext [OF assms(1,2)])
  have d: "distinct (map fst xs)" "distinct (map fst ys)" using btm_ok_distinct assms(1,2) by blast+
  then have "card (set xs) = card (set ys)" using assms(4) by (simp add: distinct_map distinct_card)
  then have "set xs = set ys" using assms(3) by (simp add: card_subset_eq)
  then show "map_of xs = map_of ys" using d map_of_inject_set by blast
qed

lemma lines_are_rows:
  assumes "btm_ok m" "sorted_wrt (<) (map al_o ls)" "event_fact ` set ls \<subseteq> set (row_facts m)" "length ls = length m"
  shows "map event_fact ls = row_facts m"
proof (rule facts_unique)
  show "btm_ok (map event_fact ls)" using assms(2) by (simp add: btm_ok_def comp_def fst_fact)
  have "map fst (row_facts m) = map fst m" by (simp add: comp_def fst_fact)
  then show "btm_ok (row_facts m)" using assms(1) by (simp only: btm_ok_def)
qed (use assms in simp_all)

lemma purge_moves:
  assumes codec: "codec_ok env" and sound: "archive_sound env (db, store)" and p: "purge_session (moment env n g f b) s db = Inr db'"
  shows "moves env (db, store) (db', store)"
proof -
  obtain row where e: "ig_sessions (ad_ingest db) s = Some row" "\<not> sn_purged row" "ac_archived_at (ad_columns db s) \<noteq> None"
      "ac_events (ad_columns db s) = Some (event_count db s)" "ad_columns db' = ad_columns db"
      "ig_events (ad_ingest db') = (ig_events (ad_ingest db))(s := [])"
      "ig_sessions (ad_ingest db') = (ig_sessions (ad_ingest db))(s \<mapsto> row\<lparr>sn_purged := True\<rparr>)"
    by (rule purge_effect [OF p])
  have st: "standing db s = Some (sn_agent row, False)" "standing db' s = Some (sn_agent row, True)" using e(1,2,7) by (simp_all add: standing_def)
  have ss: "session_sound env db store s" using sound by (simp add: archive_sound_iff)
  then obtain ls where ls: "archived_lines env db store s ls" "\<forall>l \<in> set ls. fact_ok env (replay_source (sn_agent row)) (event_fact l)"
      "event_fact ` set ls \<subseteq> set (row_facts (ig_events (ad_ingest db) s))"
    using e(3) unfolding live_sound_iff [OF st(1)] by blast
  have "length ls = length (ig_events (ad_ingest db) s)" using ls(1) e(4) by (auto simp: archived_lines_def event_count_def)
  then have rows: "map event_fact ls = row_facts (ig_events (ad_ingest db) s)"
    using lines_are_rows ls(1,3) ss by (auto simp: archived_lines_def session_sound_def)
  have ls': "archived_lines env db' store s ls" using ls(1) e(5) by (simp add: archived_lines_def)
  have "session_sound env db' store s" using ls' ls(2) e(3,5,6) unfolding purged_sound_iff [OF st(2)] by auto
  moreover have "history env (db', store) s = history env (db, store) s"
    using history_purged [OF codec st(2) ls' ls(2)] history_live [of db s _ False] st(1) rows by simp
  ultimately show ?thesis
    by (intro moves_session [OF sound, of db' store s]) (use e(5-7) in \<open>simp_all add: standing_def\<close>)
qed

section \<open>Restore\<close>

lemma insert_line_stores:
  assumes "insert_line env s source k l ctx sub fb db = (out, ctx', db')" "from_str (ie_lib env) l = Some v"
    "\<not> list_all ascii_whitespace l" "map_of (ig_events db s) k = None"
  shows "out \<noteq> Inr False \<and> out \<noteq> Inl ParseFailed"
  using assms by (auto simp: insert_line_def Let_def split: sum.splits if_splits)

lemma insert_counted_stores:
  assumes "insert_counted env s source k l ctx sub fb db = (out, ctx', db')" "from_str (ie_lib (ar_ingest env)) l = Some v"
    "\<not> list_all ascii_whitespace l" "map_of (ig_events (ad_ingest db) s) k = None"
  shows "out \<noteq> Inr False \<and> out \<noteq> Inl ParseFailed"
proof -
  obtain out1 ctx1 ig where i: "insert_line (ar_ingest env) s source k l ctx sub fb (ad_ingest db) = (out1, ctx1, ig)" by (metis prod_cases3)
  have "out1 \<noteq> Inr False \<and> out1 \<noteq> Inl ParseFailed" using insert_line_stores [OF i assms(2-4)] .
  then show ?thesis using assms(1) i by (auto simp: insert_counted_def split: sum.splits bool.splits)
qed

lemma replay_step:
  assumes "replay_counted env s source (l # ls) ctx stats db = (Inr stats', db')"
    "insert_counted env s source (rl_byte_offset l) (rl_payload l) ctx (rl_related_tool_use_id l) (Some (rl_timestamp l)) db = (out, ctx1, db1)"
    "out \<noteq> Inr False" "out \<noteq> Inl ParseFailed"
  obtains stats1 where "out = Inr True" "replay_counted env s source ls ctx1 stats1 db1 = (Inr stats', db')"
  using assms by (auto split: sum.splits bool.splits insert_error.splits)

lemma replay_facts:
  assumes "codec_ok env" "replay_counted (moment env n g f b) s source (map (replay_line_of (moment env n g f b)) ls) ctx stats db = (Inr stats', db')"
    "\<forall>l \<in> set ls. fact_ok env source (event_fact l)" "sorted_wrt (<) (map al_o ls)"
    "\<forall>e \<in> set (ig_events (ad_ingest db) s). \<forall>l \<in> set ls. fst e < al_o l" "btm_ok (ig_events (ad_ingest db) s)"
  shows "archive_alike db db' \<and> btm_ok (ig_events (ad_ingest db') s)
    \<and> row_facts (ig_events (ad_ingest db') s) = row_facts (ig_events (ad_ingest db) s) @ map event_fact ls
    \<and> (\<forall>t. t \<noteq> s \<longrightarrow> ig_events (ad_ingest db') t = ig_events (ad_ingest db) t)"
  using assms(2-)
proof (induction ls arbitrary: ctx stats db)
  case Nil
  then show ?case by simp
next
  case (Cons l ls)
  let ?env = "moment env n g f b" and ?r = "replay_line_of (moment env n g f b) l"
  obtain out ctx1 db1 where i: "insert_counted ?env s source (rl_byte_offset ?r) (rl_payload ?r) ctx (rl_related_tool_use_id ?r) (Some (rl_timestamp ?r)) db = (out, ctx1, db1)"
    by (metis prod_cases3)
  have js: "from_str (ie_lib (ar_ingest ?env)) (rl_payload ?r) = Some (al_p l)" "\<not> list_all ascii_whitespace (rl_payload ?r)"
    using codec_json [OF assms(1)] by (simp_all add: replay_line_of_def)
  have below: "\<forall>k' \<in> fst ` set (ig_events (ad_ingest db) s). k' < al_o l" using Cons.prems(4) by auto
  then have free: "map_of (ig_events (ad_ingest db) s) (rl_byte_offset ?r) = None" by (auto simp: replay_line_of_def map_of_eq_None_iff)
  note stored = insert_counted_stores [OF i js free]
  obtain stats1 where t: "out = Inr True" and rest: "replay_counted ?env s source (map (replay_line_of ?env) ls) ctx1 stats1 db1 = (Inr stats', db')"
    by (rule replay_step [OF Cons.prems(1) [unfolded list.map] i]) (use stored in auto)
  note e = insert_counted_effect [OF i]
  let ?rows = "ig_events (ad_ingest db) s"
  obtain x where ev: "ig_events (ad_ingest db1) = (ig_events (ad_ingest db))(s :=
      ?rows @ [(al_o l, event_row_of (ar_ingest ?env) source (al_p l) (Some (al_t l)) x)])"
    using e(2) t js(1) btm_insert_last [OF below] by (auto simp: replay_line_of_def)
  have fact: "event_fact (line_of_row (al_o l, event_row_of (ar_ingest ?env) source (al_p l) (Some (al_t l)) x)) = event_fact l"
    using Cons.prems(2) by (cases "parse_event_timestamp (ar_ingest env) (al_p l)") (simp_all add: event_row_of_def fact_ok_def event_fact_def line_of_row_def)
  have "archive_alike db1 db' \<and> btm_ok (ig_events (ad_ingest db') s)
      \<and> row_facts (ig_events (ad_ingest db') s) = row_facts (ig_events (ad_ingest db1) s) @ map event_fact ls
      \<and> (\<forall>t. t \<noteq> s \<longrightarrow> ig_events (ad_ingest db') t = ig_events (ad_ingest db1) t)"
  proof (rule Cons.IH [OF rest])
    show "\<forall>e \<in> set (ig_events (ad_ingest db1) s). \<forall>l \<in> set ls. fst e < al_o l" using Cons.prems(3,4) ev by auto
    show "btm_ok (ig_events (ad_ingest db1) s)" using Cons.prems(5) below ev by (auto simp: btm_ok_def sorted_wrt_append)
  qed (use Cons.prems(2,3) in auto)
  then show ?case using archive_alike_trans [OF e(1)] ev fact by (simp add: comp_def)
qed

lemma withdraw_effect:
  fixes db :: archive_db
  assumes "snd (withdraw_and_clear s db) = db1"
  shows "ad_columns db1 = ad_columns db" "ad_sessions db1 = ad_sessions db"
    "ad_contributions db1 = (ad_contributions db)(s := [])" "ad_rollup db1 = fold subtract_rollup (ad_contributions db s) (ad_rollup db)"
    "ad_usage db1 = (ad_usage db)(s := empty_usage)" "ig_events (ad_ingest db1) = (ig_events (ad_ingest db))(s := [])"
    "ig_sessions (ad_ingest db1) = (ig_sessions (ad_ingest db))(s := map_option (\<lambda>row. row\<lparr>sn_purged := False\<rparr>) (ig_sessions (ad_ingest db) s))"
  using assms by (auto simp: withdraw_and_clear_def clear_before_replay_def set_purged_def delete_sources_def Let_def)

lemma rebuild_effect:
  assumes "rebuild_session_projection env s db = Some (r, db')"
  shows "archive_alike db db'" "ig_events (ad_ingest db') = ig_events (ad_ingest db)" "ad_usage db' = ad_usage db"
proof -
  have "\<exists>tl. db' = db\<lparr>ad_ingest := (ad_ingest db)\<lparr>ig_timeline := tl\<rparr>\<rparr>"
    using assms by (cases db; cases "ad_ingest db") (auto simp: rebuild_session_projection_def Let_def split: if_splits option.splits sum.splits)
  then show "archive_alike db db'" "ig_events (ad_ingest db') = ig_events (ad_ingest db)" "ad_usage db' = ad_usage db"
    by (auto simp: archive_alike_def standing_def)
qed

lemma load_purged_parts:
  assumes "load_purged env s db store = Inr (agent, ls)"
  obtains key sha256 where "standing db s = Some (agent, True)" "ac_key (ad_columns db s) = Some key" "ac_sha256 (ad_columns db s) = Some sha256"
    "read_session_lines env store key sha256 = Inr ls" "ls \<noteq> []"
  using assms by (auto simp: load_purged_def standing_def split: option.splits if_splits)

lemma replay_parts:
  assumes "replay_archive env s agent ls db = Some (Inr stats, db')"
  obtains ctx db1 where "replay_counted env s (replay_source agent) (map (replay_line_of env) ls) ctx \<lparr>rs_events_inserted = 0, rs_parse_errors = 0\<rparr> db = (Inr stats, db1)"
    "rebuild_session_projection env s db1 = Some (Inr (), db')"
  using assms by (auto simp: replay_archive_def Let_def split: sum.splits prod.splits)

lemma replay_moves:
  assumes codec: "codec_ok env" and sound: "archive_sound env (db, store)" and l: "load_purged (moment env n g f b) s db store = Inr (agent, ls)"
    and r: "replay_archive (moment env n g f b) s agent ls (snd (withdraw_and_clear s db)) = Some (Inr stats, db')"
  shows "moves env (db, store) (db', store)"
proof -
  let ?env = "moment env n g f b" and ?db = "snd (withdraw_and_clear s db)"
  note w = withdraw_effect [OF refl, of s db]
  obtain key sha256 where p: "standing db s = Some (agent, True)" "ac_key (ad_columns db s) = Some key" "ac_sha256 (ad_columns db s) = Some sha256"
      "read_session_lines env store key sha256 = Inr ls"
    by (rule load_purged_parts [OF l]) simp
  have ss: "session_sound env db store s" using sound by (simp add: archive_sound_iff)
  then obtain ls0 where ls0: "archived_lines env db store s ls0" "\<forall>l \<in> set ls0. fact_ok env (replay_source agent) (event_fact l)"
    unfolding purged_sound_iff [OF p(1)] by blast
  have "ls0 = ls" using read_holds [OF codec offsets_in_range [OF ls0(2)]] ls0(1) p(2-4) by (auto simp: archived_lines_def)
  note ls = ls0 [unfolded this]
  obtain ctx db1 where c: "replay_counted ?env s (replay_source agent) (map (replay_line_of ?env) ls) ctx \<lparr>rs_events_inserted = 0, rs_parse_errors = 0\<rparr> ?db = (Inr stats, db1)"
      "rebuild_session_projection ?env s db1 = Some (Inr (), db')"
    by (rule replay_parts [OF r])
  have sorted: "sorted_wrt (<) (map al_o ls)" using ls(1) by (simp add: archived_lines_def)
  have e: "archive_alike ?db db1" "btm_ok (ig_events (ad_ingest db1) s)" "row_facts (ig_events (ad_ingest db1) s) = map event_fact ls"
      "\<And>t. t \<noteq> s \<Longrightarrow> ig_events (ad_ingest db1) t = ig_events (ad_ingest ?db) t"
    using replay_facts [OF codec c(1) ls(2) sorted] w(6) by (auto simp: btm_ok_def)
  note b = rebuild_effect [OF c(2)]
  have st: "standing db' = standing ?db" "ad_columns db' = ad_columns db"
    using archive_alike_trans [OF e(1) b(1)] w(1) by (auto simp: archive_alike_def)
  have st': "standing db' s = Some (agent, False)" using p(1) w(7) by (auto simp: st standing_def)
  have ls': "archived_lines env db' store s ls" using ls(1) st(2) by (simp add: archived_lines_def)
  have facts: "set (row_facts (ig_events (ad_ingest db') s)) = event_fact ` set ls" using e(3) b(2) by (metis list.set_map)
  have "session_sound env db' store s"
    unfolding live_sound_iff [OF st'] facts using ls' ls(2) e(2) b(2) by auto
  moreover have "history env (db', store) s = history env (db, store) s"
    using history_purged [OF codec p(1) ls] history_live [of db' s _ False] st' e(3) b(2) by simp
  ultimately show ?thesis
    by (intro moves_session [OF sound, of db' store s]) (use st(2) e(4) b(2) w(6,7) in \<open>simp_all add: st(1) standing_def\<close>)
qed

end
