(* ===== verification/Archive_Props.thy ===== *)
theory Archive_Props
  imports Archive_Moves Timeline_Props "HOL-Library.Countable"
begin

text \<open>No event is lost by archiving.\<close>

section \<open>Interpretation\<close>

definition history_kept :: "archive_env \<Rightarrow> archive_db \<times> object_store \<Rightarrow> archive_db \<times> object_store \<Rightarrow> bool" where
  "history_kept env st0 st \<longleftrightarrow> codec_ok env \<and> archive_sound env st \<and> (\<forall>s. set (history env st0 s) \<subseteq> set (history env st s))"

lemma history_kept_moves: "history_kept env st0 st \<Longrightarrow> moves env st st' \<Longrightarrow> history_kept env st0 st'"
  unfolding history_kept_def moves_def by blast

lemma history_keptD: "history_kept env st0 st \<Longrightarrow> codec_ok env \<and> archive_sound env st"
  by (simp add: history_kept_def)

interpretation past: kept_by_archive env "history_kept env st0" for env st0
proof
  show "history_kept env st0 (db', store)"
    if "history_kept env st0 (db, store)" "ig_sessions (ad_ingest db) s = Some row" "\<not> sn_purged row" "offset_ok k"
      "insert_counted (moment env n g f b) s (source_of row) k l ctx sub fb db = (out, ctx', db')"
    for db store s row k n g f b l ctx sub fb out ctx' db'
    using history_kept_moves [OF that(1)] line_moves [OF _ that(2-5)] history_keptD [OF that(1)] by blast
  show "history_kept env st0 (db', store')"
    if "history_kept env st0 (db, store)" "ig_sessions (ad_ingest db) (el_session el) = Some row" "\<not> sn_purged row"
      "export_session (moment env n g f b) el (db, store) = (ex, db', store')"
    for db store el row n g f b ex db' store'
    using history_kept_moves [OF that(1)] export_moves [OF _ _ that(2-4)] history_keptD [OF that(1)] by blast
  show "history_kept env st0 (db', store)"
    if "history_kept env st0 (db, store)" "purge_session (moment env n g f b) s db = Inr db'" for db store n g f b s db'
    using history_kept_moves [OF that(1)] purge_moves [OF _ _ that(2)] history_keptD [OF that(1)] by blast
  show "history_kept env st0 (db', store)"
    if "history_kept env st0 (db, store)" "load_purged (moment env n g f b) s db store = Inr (agent, ls)"
      "replay_archive (moment env n g f b) s agent ls (snd (withdraw_and_clear s db)) = Some (Inr stats, db')"
    for db store n g f b s agent ls stats db'
    using history_kept_moves [OF that(1)] replay_moves [OF _ _ that(2,3)] history_keptD [OF that(1)] by blast
  show "history_kept env st0 (db', store)"
    if "history_kept env st0 (db, store)" "archive_untouched db db'" for db store db'
    using history_kept_moves [OF that(1)] other_moves [OF _ that(2)] history_keptD [OF that(1)] by blast
qed

section \<open>A fresh start\<close>

text \<open>Before the first cycle nothing is archived or purged, and the rows of a session are those of its agent.\<close>

definition unarchived :: "archive_env \<Rightarrow> archive_db \<Rightarrow> bool" where
  "unarchived env db \<longleftrightarrow>
     (\<forall>s. btm_ok (ig_events (ad_ingest db) s) \<and> ad_columns db s = no_archive
        \<and> (case ig_sessions (ad_ingest db) s of
             None \<Rightarrow> ig_events (ad_ingest db) s = []
           | Some row \<Rightarrow> \<not> sn_purged row \<and> (\<forall>f \<in> set (row_facts (ig_events (ad_ingest db) s)). fact_ok env (source_of row) f)))"

lemma unarchived_sound:
  assumes "unarchived env db"
  shows "archive_sound env (db, store)"
  unfolding archive_sound_iff
proof
  fix s
  have s: "btm_ok (ig_events (ad_ingest db) s)" "ad_columns db s = no_archive"
    and row: "case ig_sessions (ad_ingest db) s of None \<Rightarrow> ig_events (ad_ingest db) s = []
       | Some row \<Rightarrow> \<not> sn_purged row \<and> (\<forall>f \<in> set (row_facts (ig_events (ad_ingest db) s)). fact_ok env (source_of row) f)"
    using assms unfolding unarchived_def by blast+
  show "session_sound env db store s"
    using s row by (cases "ig_sessions (ad_ingest db) s") (auto simp: session_sound_def standing_def no_archive_def source_of_def)
qed


section \<open>An instance\<close>

text \<open>JSON values numbered and written in decimal, times and identifiers in decimal, no compression.\<close>

instance json :: countable
  by countable_datatype

definition read_digits :: "string \<Rightarrow> nat" where
  "read_digits s = foldl (\<lambda>n c. 10 * n + (of_char c - 48)) 0 s"

lemma read_show_nat: "read_digits (show_nat n) = n"
proof (induction n rule: less_induct)
  case (less n)
  show ?case
  proof (cases "n < 10")
    case True
    then show ?thesis by (subst show_nat.simps) (simp add: read_digits_def)
  next
    case False
    then have "read_digits (show_nat (n div 10)) = n div 10" using less by simp
    then show ?thesis using False by (subst show_nat.simps) (simp add: read_digits_def)
  qed
qed

lemma show_nat_digits: "c \<in> set (show_nat n) \<Longrightarrow> (of_char c :: nat) \<in> {48 .. 57}"
proof (induction n rule: less_induct)
  case (less n)
  show ?case
  proof (cases "n < 10")
    case True
    then show ?thesis using less.prems by (subst (asm) show_nat.simps) simp
  next
    case False
    then show ?thesis using less.prems less.IH [of "n div 10"] by (subst (asm) show_nat.simps) auto
  qed
qed

definition sample_json_text :: "json \<Rightarrow> string" where
  "sample_json_text v = show_nat (to_nat v)"

definition sample_json_read :: "string \<Rightarrow> json option" where
  "sample_json_read s = (let v = from_nat (read_digits s) in if sample_json_text v = s then Some v else None)"

lemma sample_json_codec: "sample_json_read (sample_json_text v) = Some v"
  by (simp add: sample_json_read_def sample_json_text_def read_show_nat)

definition sample_archive_env :: archive_env where
  "sample_archive_env = \<lparr>
     ar_ingest = \<lparr>ie_lib = \<lparr>js_parse = (\<lambda>_. None), from_str = sample_json_read, to_json_string = sample_json_text\<rparr>,
       ie_parse_uuid = (\<lambda>_. None), ie_uuid_string = show_nat, ie_parse_rfc3339 = (\<lambda>_. None), ie_now = 0,
       ie_db_ok = (\<lambda>_ _. True), ie_current_pty = (\<lambda>_. None), ie_sha256_hex = id, ie_jsonb_text = (\<lambda>_. []), ie_classify = id\<rparr>,
     ar_batch = (\<lambda>_. sample_env), ar_show_time = (\<lambda>t. show_nat (to_nat t)), ar_parse_time = (\<lambda>s. Some (from_nat (read_digits s))),
     ar_month = (\<lambda>_. ''2026/01''), ar_compress = id, ar_decompress = Some, ar_put_ok = (\<lambda>_. True), ar_dump_ok = True,
     ar_markdown = (\<lambda>_ _. [])\<rparr>"

lemma sample_codec: "codec_ok sample_archive_env"
proof -
  have "newline \<notin> set (show_nat n)" "CHR ''/'' \<notin> set (show_nat n)" for n
    using show_nat_digits [of newline n] show_nat_digits [of "CHR ''/''" n] by auto
  moreover have "\<not> list_all ascii_whitespace (show_nat n)" for n
  proof -
    have "show_nat n \<noteq> []" by (subst show_nat.simps) simp
    then obtain c where "c \<in> set (show_nat n)" by (cases "show_nat n") auto
    moreover from show_nat_digits [OF this] have "\<not> ascii_whitespace c"
      by (auto simp: ascii_whitespace_def)
    ultimately show ?thesis by (auto simp: list_all_iff)
  qed
  moreover have "inj show_nat" by (metis injI read_show_nat)
  ultimately show ?thesis
    by (simp add: codec_ok_def sample_archive_env_def sample_json_codec read_show_nat) (simp add: sample_json_text_def)
qed

text \<open>One session with one event, projected, with the tokens of a day.\<close>

definition sample_event :: event_row where
  "sample_event = (sample_record ''unknown'' (JObj []))\<lparr>ev_agent := ''claude-code''\<rparr>"

definition sample_archive_db :: archive_db where
  "sample_archive_db = \<lparr>
     ad_ingest = \<lparr>
       ig_sessions = [1 \<mapsto> \<lparr>sn_agent = ''claude-code'', sn_project_hash = None, sn_pty_session_id = None,
         sn_parent_session_uuid = None, sn_purged = False\<rparr>],
       ig_states = [], ig_events = (\<lambda>s. if s = 1 then [(0, sample_event)] else []), ig_blocks = (\<lambda>_. []),
       ig_timeline = [1 \<mapsto> new_state_row\<lparr>pj_version := REDUCER_VERSION, pj_state := default_state\<lparr>ss_projected_through := 0\<rparr>\<rparr>],
       ig_restores = [], ig_sources = (\<lambda>_. None), ig_embeddings = {}, ig_follow_ups = []\<rparr>,
     ad_sessions = [1],
     ad_usage = (\<lambda>s. if s = 1 then empty_usage\<lparr>ut_models := [((0, ''m''),
         \<lparr>md_agent = ''claude-code'', md_spend = no_components\<lparr>uc_input := 5\<rparr>, md_last_message_id = None\<rparr>)]\<rparr> else empty_usage),
     ad_columns = (\<lambda>_. no_archive), ad_contributions = (\<lambda>_. []), ad_rollup = [],
     ad_file_contributions = (\<lambda>_. []), ad_file_daily = [], ad_markdown = (\<lambda>_. []), ad_turn_files = (\<lambda>_. []),
     ad_digest_sources = (\<lambda>_. []), ad_ptys = [], ad_repos = [],
     ad_versions = map_of PROJECTION_TARGETS, ad_last_dump = None, ad_cycle_started = None, ad_cycle_completed = None\<rparr>"

definition sample_archive_config :: archive_config where
  "sample_archive_config = \<lparr>cf_min_idle_days = 0, cf_purge_after_days = 0, cf_interval_days = 0, cf_purge_enabled = True, cf_dump_enabled = False\<rparr>"

abbreviation sample_moment :: "time \<Rightarrow> archive_env" where
  "sample_moment now \<equiv> moment sample_archive_env now (\<lambda>_ _. True) (\<lambda>_. True) True"

definition sample_exported :: "archive_db \<times> object_store" where
  "sample_exported = snd (run_cycle (sample_moment 1) (sample_archive_config\<lparr>cf_purge_enabled := False\<rparr>) False (sample_archive_db, Map.empty))"

definition sample_purged :: "archive_db \<times> object_store" where
  "sample_purged = snd (run_cycle (sample_moment 2) sample_archive_config False sample_exported)"

lemma sample_unarchived: "unarchived sample_archive_env sample_archive_db"
  by (simp add: unarchived_def sample_archive_db_def btm_ok_def no_archive_def fact_ok_def sample_event_def sample_record_def
      source_of_def replay_source_def offset_ok_def i64_max_def parse_event_timestamp_def stored_event_kind_def get_str_def or_else_def)

lemma sample_steps:
  "archive_step sample_archive_env (sample_archive_db, Map.empty) sample_exported" "archive_step sample_archive_env sample_exported sample_purged"
proof -
  have "archive_step env st (snd (run_cycle (moment env n g f b) cfg dry st))" for env st n g f b cfg dry
  proof -
    obtain db store out db' store' where "st = (db, store)" "run_cycle (moment env n g f b) cfg dry (db, store) = (out, db', store')"
      by (metis prod.exhaust)
    then show ?thesis using archive_step.cycle by simp
  qed
  then show "archive_step sample_archive_env (sample_archive_db, Map.empty) sample_exported" "archive_step sample_archive_env sample_exported sample_purged"
    unfolding sample_exported_def sample_purged_def by blast+
qed

lemma sample_now [simp]: "ie_now (ar_ingest (moment env n g f b)) = n" "ar_put_ok (moment env n g f b) = f"
  by (simp_all add: moment_def)

lemma sample_parts [simp]:
  "ig_sessions (ad_ingest sample_archive_db) (Suc 0) = Some \<lparr>sn_agent = ''claude-code'', sn_project_hash = None, sn_pty_session_id = None,
     sn_parent_session_uuid = None, sn_purged = False\<rparr>"
  "ig_events (ad_ingest sample_archive_db) (Suc 0) = [(0, sample_event)]" "ad_columns sample_archive_db s = no_archive"
  "ad_ptys sample_archive_db = []" "ad_sessions sample_archive_db = [Suc 0]" "ev_timestamp sample_event = 0"
  "projections_behind (sample_archive_db\<lparr>ad_cycle_started := t\<rparr>) = []"
  by (simp_all add: sample_archive_db_def sample_event_def sample_record_def projections_behind_def PROJECTION_TARGETS_def)

definition sample_eligible :: eligible_session where
  "sample_eligible = \<lparr>el_session = 1, el_agent = ''claude-code'', el_event_count = 1, el_first_event_at = 0\<rparr>"

lemma sample_is_eligible: "eligible_sessions (sample_moment 1) 0 sample_archive_db = [sample_eligible]"
  by (simp add: eligible_sessions_def eligible_session_of_def map_filter_simps event_count_def event_times_def day_span_def
      in_live_pty_def no_archive_def sample_eligible_def)

lemma sample_export:
  "\<exists>columns store. export_session (sample_moment 1) sample_eligible (sample_archive_db\<lparr>ad_cycle_started := t\<rparr>, Map.empty)
     = (Inr (), sample_archive_db\<lparr>ad_cycle_started := t, ad_columns := (ad_columns sample_archive_db)(1 := columns)\<rparr>, store)
     \<and> ac_archived_at columns = Some 1 \<and> ac_events columns = Some 1"
  by (simp add: export_session_def write_session_lines_def event_count_def sample_eligible_def put_file_def check_upload_def
      export_metadata_def record_archive_def Let_def) (rule exI, rule conjI, rule refl, simp)

lemma sample_after_export:
  obtains columns store where
    "sample_exported = (sample_archive_db\<lparr>ad_cycle_started := Some 1, ad_cycle_completed := Some 1,
       ad_columns := (ad_columns sample_archive_db)(1 := columns)\<rparr>, store)"
    "ac_archived_at columns = Some 1" "ac_events columns = Some 1"
proof -
  obtain columns store where e: "export_session (sample_moment 1) sample_eligible (sample_archive_db\<lparr>ad_cycle_started := Some 1\<rparr>, Map.empty)
      = (Inr (), sample_archive_db\<lparr>ad_cycle_started := Some 1, ad_columns := (ad_columns sample_archive_db)(1 := columns)\<rparr>, store)"
      "ac_archived_at columns = Some 1" "ac_events columns = Some 1"
    using sample_export by blast
  show thesis
    by (rule that [OF _ e(2,3), of store])
      (simp add: sample_exported_def run_cycle_def run_cycle_phases_def sample_archive_config_def sample_is_eligible export_one_def
        e(1) [unfolded One_nat_def] Let_def)
qed

lemma sample_purge:
  assumes "ac_archived_at columns = Some 1" "ac_events columns = Some 1"
    and db: "db = sample_archive_db\<lparr>ad_cycle_started := x, ad_cycle_completed := y, ad_columns := (ad_columns sample_archive_db)(1 := columns)\<rparr>"
  shows "\<exists>db'. purge_session (sample_moment 2) 1 db = Inr db'" "purge_candidates (sample_moment 2) 0 db = [1]"
    "eligible_sessions (sample_moment 2) 0 db = []" "projections_behind db = []"
proof -
  have behind: "projections_behind db = []" by (simp add: db sample_archive_db_def projections_behind_def PROJECTION_TARGETS_def)
  have timeline: "session_projection_current 1 (ad_ingest db)"
    by (simp add: db session_projection_current_def sample_archive_db_def new_state_row_def)
  have rollup: "\<exists>d. roll_up_usage 1 repo db = Inr d" for repo
    by (simp add: roll_up_usage_def db sample_archive_db_def usage_contributions_def add_rollup_def zip_components_def
        no_components_def check_components_def all_components_def i64_max_def Let_def empty_usage_def)
  show "\<exists>db'. purge_session (sample_moment 2) 1 db = Inr db'"
    using behind timeline rollup [of "unwrap_or (attributed_repo 1 db) []"] assms(1,2)
    by (auto simp: purge_session_def lock_and_check_def db event_count_def in_live_pty_def Let_def)
  show "purge_candidates (sample_moment 2) 0 db = [1]"
    using assms(1,2) by (simp add: purge_candidates_def purge_candidate_def db map_filter_simps event_count_def in_live_pty_def day_span_def)
  show "eligible_sessions (sample_moment 2) 0 db = []"
    using assms(1,2) by (simp add: eligible_sessions_def eligible_session_of_def db map_filter_simps event_count_def)
  show "projections_behind db = []" by (rule behind)
qed

lemma sample_after_purge: "ig_events (ad_ingest (fst sample_purged)) 1 = []"
proof -
  obtain columns store where e: "sample_exported = (sample_archive_db\<lparr>ad_cycle_started := Some 1, ad_cycle_completed := Some 1,
       ad_columns := (ad_columns sample_archive_db)(1 := columns)\<rparr>, store)" "ac_archived_at columns = Some 1" "ac_events columns = Some 1"
    by (rule sample_after_export)
  let ?db = "sample_archive_db\<lparr>ad_cycle_completed := Some 1, ad_columns := (ad_columns sample_archive_db)(1 := columns), ad_cycle_started := Some 2\<rparr>"
  have order: "?db = sample_archive_db\<lparr>ad_cycle_started := Some 2, ad_cycle_completed := Some 1, ad_columns := (ad_columns sample_archive_db)(1 := columns)\<rparr>"
    by simp
  note p = sample_purge [OF e(2,3) order]
    and el = sample_purge(3) [OF e(2,3), where x = "Some 1" and y = "Some 1", OF refl]
  obtain db' where db': "purge_session (sample_moment 2) 1 ?db = Inr db'" using p(1) by blast
  have "ig_events (ad_ingest db') 1 = []" by (rule purge_effect [OF db']) simp
  moreover have "ad_ingest (fst sample_purged) = ad_ingest db'"
    using p(2,4) db' el by (simp add: sample_purged_def e(1) run_cycle_def run_cycle_phases_def sample_archive_config_def purge_one_def Let_def)
  ultimately show ?thesis by simp
qed


end
