(* ===== verification/Archive_Rollup.thy ===== *)
theory Archive_Rollup
  imports Archive_Props Usage_Claude
begin

text \<open>
  The daily totals that purging leaves behind. In every run of the archive the totals are the sums of
  what the purged sessions have contributed, so that a restore takes out exactly what the purge had put
  in, and a cycle moves tokens from the rows of sessions to the totals without changing the cost report.
\<close>

section \<open>Token columns\<close>

definition token_columns :: "(usage_components \<Rightarrow> int) set" where
  "token_columns = {uc_input, uc_cached, uc_cache_write, uc_cache_write_1h, uc_output}"

lemma column_zip: "f \<in> token_columns \<Longrightarrow> f (zip_components g a b) = g (f a) (f b)"
  by (auto simp: token_columns_def zip_components_def)

lemma column_none [simp]: "f \<in> token_columns \<Longrightarrow> f no_components = 0"
  by (auto simp: token_columns_def no_components_def)

lemma column_checked: "f \<in> token_columns \<Longrightarrow> check_components c = Inr () \<Longrightarrow> 0 \<le> f c"
  by (auto simp: token_columns_def check_components_def all_components_def)

lemma components_eq: "(\<And>f. f \<in> token_columns \<Longrightarrow> f a = f b) \<Longrightarrow> a = b"
  by (rule usage_components.equality) (simp_all add: token_columns_def)

text \<open>The tokens a table of totals has under a key.\<close>

definition tokens :: "(usage_components \<Rightarrow> int) \<Rightarrow> (rollup_key, usage_components) btree_map \<Rightarrow> rollup_key \<Rightarrow> int" where
  "tokens f m key = f (unwrap_or (map_of m key) no_components)"

lemma tokens_Nil [simp]: "f \<in> token_columns \<Longrightarrow> tokens f [] key = 0"
  by (simp add: tokens_def)

lemma tokens_absent: "f \<in> token_columns \<Longrightarrow> key \<notin> fst ` set m \<Longrightarrow> tokens f m key = 0"
  by (simp add: tokens_def map_of_eq_None_iff [THEN iffD2])

lemma add_rollup_tokens:
  assumes "f \<in> token_columns" "add_rollup (k, c) m = Inr m'"
  shows "tokens f m' key = tokens f m key + (if key = k then f c else 0)"
  using assms by (auto simp: add_rollup_def tokens_def column_zip Let_def split: sum.splits)

lemma add_rollups_tokens:
  assumes "f \<in> token_columns" "res_fold add_rollup cs m = Inr m'" "distinct (map fst cs)"
  shows "tokens f m' key = tokens f m key + tokens f cs key"
  using assms(2,3)
proof (induction cs arbitrary: m)
  case (Cons e cs)
  obtain k c where e: "e = (k, c)" by fastforce
  obtain m1 where m1: "add_rollup (k, c) m = Inr m1" "res_fold add_rollup cs m1 = Inr m'" using Cons.prems(1) e by auto
  have "tokens f m' key = tokens f m1 key + tokens f cs key" using Cons m1 by simp
  moreover have "tokens f (e # cs) key = (if key = k then f c else 0) + tokens f cs key"
    using Cons.prems(2) tokens_absent [OF assms(1), of k cs] e by (auto simp: tokens_def)
  ultimately show ?case using add_rollup_tokens [OF assms(1) m1(1)] by simp
qed (use assms(1) in simp)

text \<open>Taking tokens out never goes below zero, and takes out all where there are enough.\<close>

lemma subtract_rollups_tokens:
  assumes "f \<in> token_columns" "distinct (map fst cs)" "\<forall>(k, c) \<in> set cs. 0 \<le> f c" "\<forall>key. 0 \<le> tokens f m key"
  shows "tokens f (fold subtract_rollup cs m) key = max (tokens f m key - tokens f cs key) 0"
  using assms(2-4)
proof (induction cs arbitrary: m)
  case Nil
  then have "0 \<le> tokens f m key" by blast
  then show ?case using assms(1) by simp
next
  case (Cons e cs)
  obtain k c where e: "e = (k, c)" by fastforce
  let ?m = "subtract_rollup (k, c) m"
  have step: "tokens f ?m key = (if key = k then max (tokens f m key - f c) 0 else tokens f m key)" for key
    using assms(1) Cons.prems(2) e by (cases "map_of m k") (auto simp: subtract_rollup_def tokens_def column_zip max_def)
  have "\<forall>key. 0 \<le> tokens f ?m key" using Cons.prems(3) by (simp add: step)
  then have "tokens f (fold subtract_rollup cs ?m) key = max (tokens f ?m key - tokens f cs key) 0"
    using Cons.IH Cons.prems(1,2) by simp
  moreover have "tokens f cs k = 0" using Cons.prems(1) tokens_absent [OF assms(1), of k cs] e by simp
  moreover have "tokens f (e # cs) key = (if key = k then f c else tokens f cs key)" by (simp add: tokens_def e)
  ultimately show ?case using Cons.prems(3) by (auto simp: e step)
qed

lemma subtract_rollups_ok:
  assumes "btm_ok m"
  shows "btm_ok (fold subtract_rollup cs m)"
proof -
  have "btm_ok (subtract_rollup e m)" if "btm_ok m" for e m
    using that by (cases e) (simp add: subtract_rollup_def split: option.split)
  then show ?thesis using assms by (induction cs arbitrary: m) simp_all
qed

section \<open>The rows of a session\<close>

definition models_ok :: "usage_tables \<Rightarrow> bool" where
  "models_ok t \<longleftrightarrow> btm_ok (ut_models t) \<and> (\<forall>(key, r) \<in> set (ut_models t). check_components (md_spend r) = Inr ())"

lemma models_ok_empty [simp]: "models_ok empty_usage" "ut_models empty_usage = []"
  by (simp_all add: models_ok_def empty_usage_def)

lemma models_ok_same: "models_ok t \<Longrightarrow> ut_models t' = ut_models t \<Longrightarrow> models_ok t'"
  by (simp add: models_ok_def)

lemma models_ok_insert:
  assumes "models_ok t" "check_components (md_spend r) = Inr ()"
  shows "models_ok (t\<lparr>ut_models := btm_insert key r (ut_models t)\<rparr>)"
  using assms by (auto simp: models_ok_def set_btm_insert)

lemma models_ok_add: "models_ok t \<Longrightarrow> add_model_daily agent model ts c i t = Inr t' \<Longrightarrow> models_ok t'"
  using add_model_daily_Inr models_ok_insert by metis

lemma models_ok_remove: "models_ok t \<Longrightarrow> remove_contribution day p t = Inr t' \<Longrightarrow> models_ok t'"
  using models_ok_insert by (auto simp: remove_contribution_def Let_def split: option.splits)

lemma models_ok_drop: "models_ok t \<Longrightarrow> models_ok (drop_empty_buckets txt events t)"
  by (auto simp: models_ok_def drop_empty_buckets_def btm_ok_filter_rows)

lemma models_ok_snapshot [simp]: "models_ok (snapshot_daily ts t) = models_ok t" "models_ok (rebuild_daily_snapshots t) = models_ok t"
  by (simp_all add: models_ok_def)

lemma models_ok_response:
  assumes "models_ok t" "apply_response txt events k ts u t = Inr t'"
  shows "models_ok t'"
proof -
  let ?prior = "prior_receipt txt events (uu_message_id u) k"
  let ?previous = "Option.bind ?prior (\<lambda>r. extract_claude_usage (ev_payload r))"
  let ?replaced = "case (?prior, ?previous) of (Some r, Some p) \<Rightarrow> Some (date_naive (ev_timestamp r), p) | _ \<Rightarrow> None"
  let ?drop = "\<lambda>t. case ?replaced of
      Some (day, p) \<Rightarrow> if day \<noteq> date_naive ts \<or> uu_model p \<noteq> uu_model u then drop_empty_buckets txt events t else t | None \<Rightarrow> t"
  obtain t1 t2 t3 t4 where t: "add_response k ts u (claude_response_delta u ?previous) t = Inr t1"
      "(case ?replaced of Some (day, p) \<Rightarrow> remove_contribution day p t1 | None \<Rightarrow> Inr t1) = Inr t2"
      "add_model_daily ''claude-code'' (unwrap_or (uu_model u) UNKNOWN_MODEL) ts (daily_delta u None) (uu_message_id u) t2 = Inr t3"
      "t4 = ?drop t3" "t' = (case ?prior of Some r \<Rightarrow> if date_naive (ev_timestamp r) \<noteq> date_naive ts then rebuild_daily_snapshots t4
          else snapshot_daily ts t4 | None \<Rightarrow> snapshot_daily ts t4)"
    using assms(2) unfolding apply_response_def Let_def res_bind_eq_Inr_iff sum.inject by blast
  have "models_ok t1" by (rule models_ok_same [OF assms(1)]) (use t(1) in \<open>auto simp: add_response_def Let_def\<close>)
  then have "models_ok t2" using t(2) models_ok_remove by (auto split: option.splits)
  then have "models_ok t3" using t(3) by (rule models_ok_add)
  then have "models_ok t4" using models_ok_drop t(4) by (auto split: option.splits if_splits)
  then show ?thesis unfolding t(5) by (simp split: option.split)
qed

lemma models_ok_upsert:
  assumes "models_ok t" "upsert_from_event txt events source k ts v t = Inr t'"
  shows "models_ok t'"
proof -
  have spend: "models_ok t2" if "models_ok t1" "record_spend txt events source k ts u b p t1 = Inr t2" for t1 t2 u b p
  proof -
    note r = that
    obtain t3 t4 m where "store_usage source k ts u b t1 = Inr t3"
        "add_model_daily (agent_id source) m ts (daily_delta u p) (uu_message_id u) t3 = Inr t4" "t2 = snapshot_daily ts t4"
      using r(2) by (auto simp: record_spend_def Let_def)
    moreover from this(1) have "ut_models t3 = ut_models t1" by (auto simp: store_usage_def Let_def split: option.splits if_splits)
    ultimately show ?thesis using r(1) models_ok_add models_ok_same models_ok_snapshot(1) by metis
  qed
  have ctx: "models_ok t2" if "update_context k ts u t = Inr t2" for t2 u
    by (rule models_ok_same [OF assms(1)]) (use that in \<open>auto simp: update_context_def Let_def split: option.splits if_splits\<close>)
  have claim: "models_ok (snd (claim_response i t))" for i
    by (rule models_ok_same [OF assms(1)]) (simp add: claim_response_def)
  show ?thesis
    using assms(2) spend [OF assms(1)] spend [OF claim] ctx models_ok_response [OF assms(1)] assms(1) claim
    by (auto simp: upsert_from_event_def Let_def split_beta split: option.splits if_splits)
qed

lemma models_ok_count: "models_ok t \<Longrightarrow> count_usage env s source k ig t = Inr t' \<Longrightarrow> models_ok t'"
  using models_ok_upsert by (auto simp: count_usage_def split: option.splits if_splits)

section \<open>The invariant\<close>

definition session_rollup_ok :: "archive_db \<Rightarrow> session \<Rightarrow> bool" where
  "session_rollup_ok db s \<longleftrightarrow> models_ok (ad_usage db s) \<and> btm_ok (ad_contributions db s)
     \<and> (\<forall>(key, c) \<in> set (ad_contributions db s). check_components c = Inr ())
     \<and> (if session_is_purged s (ad_ingest db) then ut_models (ad_usage db s) = [] else ad_contributions db s = [])"

definition rollup_ok :: "archive_db \<Rightarrow> bool" where
  "rollup_ok db \<longleftrightarrow> distinct (ad_sessions db) \<and> dom (ig_sessions (ad_ingest db)) \<subseteq> set (ad_sessions db)
     \<and> btm_ok (ad_rollup db) \<and> (\<forall>s. session_rollup_ok db s)
     \<and> (\<forall>f \<in> token_columns. \<forall>key. tokens f (ad_rollup db) key = (\<Sum>s \<in> set (ad_sessions db). tokens f (ad_contributions db s) key))"

lemma rollup_okD:
  "rollup_ok db \<Longrightarrow> f \<in> token_columns \<Longrightarrow>
     tokens f (ad_rollup db) key = (\<Sum>s \<in> set (ad_sessions db). tokens f (ad_contributions db s) key)"
  "rollup_ok db \<Longrightarrow> session_rollup_ok db s" "rollup_ok db \<Longrightarrow> dom (ig_sessions (ad_ingest db)) \<subseteq> set (ad_sessions db)"
  "rollup_ok db \<Longrightarrow> distinct (ad_sessions db)" "rollup_ok db \<Longrightarrow> btm_ok (ad_rollup db)"
  unfolding rollup_ok_def by blast+

lemma rollup_okI:
  assumes "distinct (ad_sessions db)" "dom (ig_sessions (ad_ingest db)) \<subseteq> set (ad_sessions db)" "btm_ok (ad_rollup db)"
    "\<And>s. session_rollup_ok db s"
    "\<And>f key. f \<in> token_columns \<Longrightarrow> tokens f (ad_rollup db) key = (\<Sum>s \<in> set (ad_sessions db). tokens f (ad_contributions db s) key)"
  shows "rollup_ok db"
  using assms unfolding rollup_ok_def by blast

lemma contributions_nonneg:
  assumes "session_rollup_ok db s" "f \<in> token_columns"
  shows "\<forall>(key, c) \<in> set (ad_contributions db s). 0 \<le> f c" "0 \<le> tokens f (ad_contributions db s) key"
proof -
  show entries: "\<forall>(key, c) \<in> set (ad_contributions db s). 0 \<le> f c"
    using assms column_checked by (auto simp: session_rollup_ok_def)
  show "0 \<le> tokens f (ad_contributions db s) key"
    using assms(2) entries by (cases "map_of (ad_contributions db s) key") (auto simp: tokens_def dest: map_of_SomeD)
qed

lemma purged_known: "session_is_purged s ig \<Longrightarrow> s \<in> dom (ig_sessions ig)"
  by (auto simp: session_is_purged_def split: option.splits)

lemma rollup_nonneg:
  assumes "rollup_ok db" "f \<in> token_columns"
  shows "0 \<le> tokens f (ad_rollup db) key"
proof -
  have "0 \<le> (\<Sum>s \<in> set (ad_sessions db). tokens f (ad_contributions db s) key)"
    using assms contributions_nonneg(2) rollup_okD(2) by (intro sum_nonneg) blast
  then show ?thesis using rollup_okD(1) [OF assms] by simp
qed

text \<open>A step that writes nothing of the totals.\<close>

lemma alike_purged: "archive_alike db db' \<Longrightarrow> session_is_purged s (ad_ingest db') = session_is_purged s (ad_ingest db)"
  by (simp add: purged_standing archive_alike_def)

lemma rollup_alike:
  assumes "rollup_ok db" "archive_alike db db'"
    "\<And>t. ad_usage db' t = ad_usage db t \<or> (models_ok (ad_usage db' t) \<and> \<not> session_is_purged t (ad_ingest db))"
  shows "rollup_ok db'"
proof -
  have "session_rollup_ok db' t" for t
  proof -
    have "session_rollup_ok db t" using assms(1) by (simp add: rollup_ok_def)
    moreover have "ad_contributions db' = ad_contributions db" using assms(2) by (simp add: archive_alike_def)
    ultimately show ?thesis
      using alike_purged [OF assms(2), of t] assms(3) [of t] by (auto simp: session_rollup_ok_def)
  qed
  moreover have "dom (ig_sessions (ad_ingest db')) = dom (ig_sessions (ad_ingest db))"
    using assms(2) by (simp add: archive_alike_def dom_def)
  moreover have "ad_sessions db' = ad_sessions db" "ad_contributions db' = ad_contributions db" "ad_rollup db' = ad_rollup db"
    using assms(2) by (simp_all add: archive_alike_def)
  ultimately show ?thesis using assms(1) by (simp add: rollup_ok_def)
qed

lemma rollup_line:
  assumes "rollup_ok db" "\<not> session_is_purged s (ad_ingest db)" "insert_counted env s source k l ctx sub fb db = (out, ctx', db')"
  shows "rollup_ok db'" "\<not> session_is_purged s (ad_ingest db')"
proof -
  note e = insert_counted_effect [OF assms(3)]
  have m: "models_ok (ad_usage db s)" using assms(1) by (auto simp: rollup_ok_def session_rollup_ok_def)
  have "ad_usage db' t = ad_usage db t \<or> (models_ok (ad_usage db' t) \<and> \<not> session_is_purged t (ad_ingest db))" for t
    using e(2) models_ok_count [OF m] assms(2) by (cases "t = s") auto
  then show "rollup_ok db'" by (rule rollup_alike [OF assms(1) e(1)])
  show "\<not> session_is_purged s (ad_ingest db')" using alike_purged [OF e(1)] assms(2) by simp
qed

lemma rollup_replay:
  assumes "rollup_ok db" "\<not> session_is_purged s (ad_ingest db)" "replay_counted env s source ls ctx stats db = (Inr stats', db')"
  shows "rollup_ok db'"
  using assms
proof (induction ls arbitrary: ctx stats db)
  case (Cons l ls)
  obtain out ctx1 db1 where i: "insert_counted env s source (rl_byte_offset l) (rl_payload l) ctx (rl_related_tool_use_id l) (Some (rl_timestamp l)) db = (out, ctx1, db1)"
    by (metis prod_cases3)
  note p = rollup_line [OF Cons.prems(1,2) i]
  obtain stats1 where "replay_counted env s source ls ctx1 stats1 db1 = (Inr stats', db')"
    using Cons.prems(3) i by (auto split: sum.splits bool.splits insert_error.splits)
  then show ?case using Cons.IH [OF p] by blast
qed simp

section \<open>Purge\<close>

lemma contributions_of:
  assumes "btm_ok m"
  shows "distinct (map fst (map (\<lambda>((day, model), r). ((day, repo, md_agent r, model), md_spend r)) m))"
    "map_of (map (\<lambda>((day, model), r). ((day, repo, md_agent r, model), md_spend r)) m) (day, repo', agent, model)
       = (case map_of m (day, model) of Some r \<Rightarrow> if repo' = repo \<and> md_agent r = agent then Some (md_spend r) else None | None \<Rightarrow> None)"
proof -
  let ?cs = "map (\<lambda>((day, model), r). ((day, repo, md_agent r, model), md_spend r)) m"
  have d: "distinct (map fst m)" by (rule btm_ok_distinct [OF assms])
  have "map fst m = map (\<lambda>(day, _, _, model). (day, model)) (map fst ?cs)" by (simp add: split_beta comp_def)
  with d have "distinct (map (\<lambda>(day, _, _, model). (day, model)) (map fst ?cs))" by (simp only:)
  then show "distinct (map fst ?cs)" by (rule distinct_map [THEN iffD1, THEN conjunct1])
  then have in_cs: "map_of ?cs (day, repo', agent, model) = Some c \<longleftrightarrow> ((day, repo', agent, model), c) \<in> set ?cs" for c
    by (simp only: map_of_eq_Some_iff)
  have "((day, repo', agent, model), c) \<in> set ?cs \<longleftrightarrow>
      (\<exists>r. map_of m (day, model) = Some r \<and> repo' = repo \<and> md_agent r = agent \<and> c = md_spend r)" for c
    using d by (force simp: map_of_eq_Some_iff)
  then have rows: "\<forall>c. map_of ?cs (day, repo', agent, model) = Some c \<longleftrightarrow>
      (\<exists>r. map_of m (day, model) = Some r \<and> (repo' = repo \<and> md_agent r = agent) \<and> c = md_spend r)"
    unfolding in_cs by blast
  have "x = (case y of Some r \<Rightarrow> if P r then Some (g r) else None | None \<Rightarrow> None)"
    if "\<forall>c. x = Some c \<longleftrightarrow> (\<exists>r. y = Some r \<and> P r \<and> c = g r)" for x :: "'x option" and y :: "'y option" and P g
    using that by (cases x; cases y) auto
  from this [OF rows] show "map_of ?cs (day, repo', agent, model)
       = (case map_of m (day, model) of Some r \<Rightarrow> if repo' = repo \<and> md_agent r = agent then Some (md_spend r) else None | None \<Rightarrow> None)" .
qed

lemma add_rollups_rows:
  assumes "res_fold add_rollup cs m = Inr m'" "btm_ok m"
  shows "btm_ok m' \<and> fst ` set m' = fst ` set m \<union> fst ` set cs"
  using assms
proof (induction cs arbitrary: m)
  case (Cons e cs)
  obtain k c where e: "e = (k, c)" by fastforce
  obtain m1 where m1: "add_rollup (k, c) m = Inr m1" "res_fold add_rollup cs m1 = Inr m'" using Cons.prems(1) e by auto
  from m1(1) obtain v where "m1 = btm_insert k v m" by (auto simp: add_rollup_def Let_def split: sum.splits)
  then have "btm_ok m1" "fst ` set m1 = insert k (fst ` set m)" using Cons.prems(2) by simp_all
  then show ?case using Cons.IH [OF m1(2)] e by auto
qed simp

text \<open>The contributions of a session that had none, and the totals with them.\<close>

lemma roll_up_effect:
  assumes "roll_up_usage s repo db = Inr db1" "ad_contributions db s = []" "models_ok (ad_usage db s)" "btm_ok (ad_rollup db)"
  defines "new \<equiv> usage_contributions repo (ad_usage db s)"
  obtains cs where "ad_contributions db1 = (ad_contributions db)(s := cs)" "btm_ok cs" "map_of cs = map_of new" "set cs = set new"
    "btm_ok (ad_rollup db1)" "fst ` set (ad_rollup db1) = fst ` set (ad_rollup db) \<union> fst ` set new"
    "\<forall>f \<in> token_columns. \<forall>key. tokens f (ad_rollup db1) key = tokens f (ad_rollup db) key + tokens f new key"
proof -
  define cs where "cs = fold (\<lambda>(key, c). btm_insert key c) new []"
  have dist: "distinct (map fst new)"
    unfolding new_def usage_contributions_def by (rule contributions_of(1)) (use assms(3) in \<open>simp add: models_ok_def\<close>)
  have cs: "cs = fold (\<lambda>x. btm_insert (fst x) (snd x)) new []" by (simp add: cs_def split_beta')
  have ok: "btm_ok cs" unfolding cs by (rule btm_ok_fold_insert) simp
  have of: "map_of cs = map_of new" unfolding cs using map_of_fold_insert [OF dist, of snd "[]"] by simp
  have set: "set cs = set new" using of map_of_inject_set btm_ok_distinct [OF ok] dist by blast
  obtain m where m: "res_fold add_rollup cs (ad_rollup db) = Inr m"
      "db1 = db\<lparr>ad_contributions := (ad_contributions db)(s := cs), ad_rollup := m\<rparr>"
    using assms(1,2) by (auto simp: roll_up_usage_def Let_def cs_def new_def)
  have "tokens f m key = tokens f (ad_rollup db) key + tokens f new key" if "f \<in> token_columns" for f key
    using add_rollups_tokens [OF that m(1) btm_ok_distinct [OF ok]] of by (simp add: tokens_def)
  then show thesis
    using that [of cs] m(2) ok of set add_rollups_rows [OF m(1) assms(4)] by (simp del: split_paired_All)
qed

lemma sum_replace:
  fixes g h :: "'a \<Rightarrow> int"
  assumes "finite A" "s \<in> A" "\<And>t. t \<in> A - {s} \<Longrightarrow> h t = g t"
  shows "sum h A = sum g A - g s + h s"
proof -
  have "sum h (A - {s}) = sum g (A - {s})" using assms(3) by (rule sum.cong [OF refl])
  then show ?thesis using sum.remove [OF assms(1,2), of g] sum.remove [OF assms(1,2), of h] by simp
qed

lemma rollup_purge:
  assumes ok: "rollup_ok db" and p: "purge_session env s db = Inr db'"
  shows "rollup_ok db'"
proof -
  obtain row db1 where e: "ig_sessions (ad_ingest db) s = Some row" "\<not> sn_purged row"
      "roll_up_usage s (unwrap_or (attributed_repo s db) []) db = Inr db1"
      "ad_contributions db' = ad_contributions db1" "ad_rollup db' = ad_rollup db1" "ad_usage db' = (ad_usage db)(s := empty_usage)"
      "ad_sessions db' = ad_sessions db" "ig_sessions (ad_ingest db') = (ig_sessions (ad_ingest db))(s \<mapsto> row\<lparr>sn_purged := True\<rparr>)"
    by (rule purge_effect [OF p])
  have live: "\<not> session_is_purged s (ad_ingest db)" using e(1,2) by (simp add: session_is_purged_def)
  have so: "session_rollup_ok db t" for t by (rule rollup_okD(2) [OF ok])
  have s: "ad_contributions db s = []" "models_ok (ad_usage db s)" using so [of s] live by (auto simp: session_rollup_ok_def)
  let ?rows = "usage_contributions (unwrap_or (attributed_repo s db) []) (ad_usage db s)"
  obtain cs where cs: "ad_contributions db1 = (ad_contributions db)(s := cs)" "btm_ok cs" "map_of cs = map_of ?rows" "set cs = set ?rows"
      "btm_ok (ad_rollup db1)" "fst ` set (ad_rollup db1) = fst ` set (ad_rollup db) \<union> fst ` set ?rows"
      "\<forall>f \<in> token_columns. \<forall>key. tokens f (ad_rollup db1) key = tokens f (ad_rollup db) key + tokens f ?rows key"
    by (rule roll_up_effect [OF e(3) s rollup_okD(5) [OF ok]])
  have checked: "\<forall>(key, c) \<in> set cs. check_components c = Inr ()"
    using s(2) unfolding cs(4) by (auto simp: models_ok_def usage_contributions_def)
  have purged: "session_is_purged t (ad_ingest db') \<longleftrightarrow> t = s \<or> session_is_purged t (ad_ingest db)" for t
    using e(8) by (simp add: session_is_purged_def)
  have "session_rollup_ok db' t" for t
    using so [of t] e(4,6) cs(1,2) checked purged [of t] live by (cases "t = s") (auto simp: session_rollup_ok_def)
  moreover have "tokens f (ad_rollup db') key = (\<Sum>t \<in> set (ad_sessions db'). tokens f (ad_contributions db' t) key)" if f: "f \<in> token_columns" for f key
  proof -
    have "s \<in> set (ad_sessions db)" using rollup_okD(3) [OF ok] e(1) by blast
    then have "(\<Sum>t \<in> set (ad_sessions db). tokens f (ad_contributions db' t) key)
        = (\<Sum>t \<in> set (ad_sessions db). tokens f (ad_contributions db t) key) - tokens f (ad_contributions db s) key + tokens f (ad_contributions db' s) key"
      by (intro sum_replace) (simp_all add: e(4) cs(1))
    then show ?thesis using rollup_okD(1) [OF ok f] cs(7) [rule_format, OF f] f by (simp add: e(4,5,7) cs(1,3) s(1) tokens_def)
  qed
  ultimately show ?thesis
    using rollup_okD(3,4) [OF ok] cs(5) e(1,5,7,8) unfolding rollup_ok_def by auto
qed

section \<open>Restore\<close>

lemma rollup_withdraw:
  assumes ok: "rollup_ok db" and purged: "session_is_purged s (ad_ingest db)"
  shows "rollup_ok (snd (withdraw_and_clear s db))" "\<not> session_is_purged s (ad_ingest (snd (withdraw_and_clear s db)))"
proof -
  let ?db = "snd (withdraw_and_clear s db)" and ?cs = "ad_contributions db s"
  note w = withdraw_effect [OF refl, of s db]
  have so: "session_rollup_ok db t" for t by (rule rollup_okD(2) [OF ok])
  have known: "s \<in> set (ad_sessions db)" using rollup_okD(3) [OF ok] purged_known [OF purged] by blast
  have purged': "session_is_purged t (ad_ingest ?db) \<longleftrightarrow> t \<noteq> s \<and> session_is_purged t (ad_ingest db)" for t
    using w(7) by (auto simp: session_is_purged_def split: option.splits)
  then show "\<not> session_is_purged s (ad_ingest ?db)" by simp
  have "session_rollup_ok ?db t" for t
    using so [of t] purged' [of t] w(3,5) by (cases "t = s") (auto simp: session_rollup_ok_def)
  moreover have "tokens f (ad_rollup ?db) key = (\<Sum>t \<in> set (ad_sessions ?db). tokens f (ad_contributions ?db t) key)" if f: "f \<in> token_columns" for f key
  proof -
    have part: "tokens f ?cs key \<le> tokens f (ad_rollup db) key"
      unfolding rollup_okD(1) [OF ok f]
      by (rule member_le_sum) (use known contributions_nonneg(2) [OF so f] in auto)
    have "distinct (map fst ?cs)" using so [of s] by (simp add: session_rollup_ok_def btm_ok_distinct)
    then have "tokens f (ad_rollup ?db) key = max (tokens f (ad_rollup db) key - tokens f ?cs key) 0"
      using subtract_rollups_tokens [OF f _ contributions_nonneg(1) [OF so f]] rollup_nonneg [OF ok f] by (simp add: w(4))
    then have "tokens f (ad_rollup ?db) key = tokens f (ad_rollup db) key - tokens f ?cs key" using part by simp
    moreover have "(\<Sum>t \<in> set (ad_sessions db). tokens f (ad_contributions ?db t) key)
        = (\<Sum>t \<in> set (ad_sessions db). tokens f (ad_contributions db t) key) - tokens f ?cs key + tokens f (ad_contributions ?db s) key"
      by (intro sum_replace) (use known in \<open>simp_all add: w(3)\<close>)
    ultimately show ?thesis using rollup_okD(1) [OF ok f] f by (simp add: w(2,3))
  qed
  moreover have "btm_ok (ad_rollup ?db)" using subtract_rollups_ok [OF rollup_okD(5) [OF ok]] by (simp add: w(4))
  moreover have "dom (ig_sessions (ad_ingest ?db)) = dom (ig_sessions (ad_ingest db))" by (auto simp: w(7) split: if_splits)
  ultimately show "rollup_ok ?db"
    using rollup_okD(3,4) [OF ok] by (intro rollup_okI) (simp_all add: w(2))
qed

lemma rollup_restored:
  assumes "rollup_ok db" "load_purged env s db store = Inr (agent, ls)"
    "replay_archive env s agent ls (snd (withdraw_and_clear s db)) = Some (Inr stats, db')"
  shows "rollup_ok db'"
proof -
  have "session_is_purged s (ad_ingest db)"
    using load_purged_parts [OF assms(2)] by (metis purged_standing)
  note w = rollup_withdraw [OF assms(1) this]
  obtain ctx db1 where c: "replay_counted env s (replay_source agent) (map (replay_line_of env) ls) ctx
      \<lparr>rs_events_inserted = 0, rs_parse_errors = 0\<rparr> (snd (withdraw_and_clear s db)) = (Inr stats, db1)"
      "rebuild_session_projection env s db1 = Some (Inr (), db')"
    by (rule replay_parts [OF assms(3)])
  show ?thesis
    by (rule rollup_alike [OF rollup_replay [OF w c(1)] rebuild_effect(1) [OF c(2)]]) (simp add: rebuild_effect(3) [OF c(2)])
qed

lemma rollup_other:
  assumes ok: "rollup_ok db" and u: "archive_untouched db db'"
  shows "rollup_ok db'"
proof -
  have same: "ad_usage db' = ad_usage db" "ad_contributions db' = ad_contributions db" "ad_rollup db' = ad_rollup db"
    using u by (simp_all add: archive_untouched_def)
  have purged: "session_is_purged t (ad_ingest db') = session_is_purged t (ad_ingest db)" for t
    using standing_untouched [OF u, of t] unfolding purged_standing by (elim disjE conjE exE) simp_all
  have so: "session_rollup_ok db' t" for t
    using rollup_okD(2) [OF ok, of t] purged [of t] by (simp add: session_rollup_ok_def same)
  have sub: "set (ad_sessions db) \<subseteq> set (ad_sessions db')" using u by (auto simp: archive_untouched_def)
  have none: "tokens f (ad_contributions db t) key = 0" if "f \<in> token_columns" "t \<notin> set (ad_sessions db)" for f t key
  proof -
    have "\<not> session_is_purged t (ad_ingest db)" using that(2) rollup_okD(3) [OF ok] purged_known by blast
    then show ?thesis using rollup_okD(2) [OF ok, of t] that(1) by (simp add: session_rollup_ok_def)
  qed
  have "tokens f (ad_rollup db') key = (\<Sum>t \<in> set (ad_sessions db'). tokens f (ad_contributions db' t) key)" if "f \<in> token_columns" for f key
    unfolding same rollup_okD(1) [OF ok that]
    by (rule sum.mono_neutral_left) (use sub none that in auto)
  moreover have "dom (ig_sessions (ad_ingest db')) \<subseteq> set (ad_sessions db')"
  proof
    fix t
    assume "t \<in> dom (ig_sessions (ad_ingest db'))"
    then show "t \<in> set (ad_sessions db')"
      using u rollup_okD(3) [OF ok] sub by (cases "ig_sessions (ad_ingest db) t") (auto simp: archive_untouched_def)
  qed
  moreover have "distinct (ad_sessions db')" using u rollup_okD(4) [OF ok] by (auto simp: archive_untouched_def)
  ultimately show ?thesis using so rollup_okD(5) [OF ok] same(3) by (intro rollup_okI) simp_all
qed

lemma rollup_ok_columns [simp]: "rollup_ok (db\<lparr>ad_columns := c\<rparr>) = rollup_ok db"
  by (simp add: rollup_ok_def session_rollup_ok_def)

lemma export_columns:
  assumes "export_session env el (db, store) = (ex, db', store')"
  shows "db' = db \<or> (\<exists>c. db' = db\<lparr>ad_columns := c\<rparr>)"
  using assms by (auto simp: export_session_def record_archive_def Let_def split: prod.splits if_splits sum.splits)

interpretation totals: kept_by_archive env "\<lambda>st. rollup_ok (fst st)" for env
proof (unfold_locales, goal_cases)
  case (1 db store s row k n g f b l ctx sub fb out ctx' db')
  then have "rollup_ok db" "\<not> session_is_purged s (ad_ingest db)" by (simp_all add: session_is_purged_def)
  with rollup_line(1) 1(5) show ?case by simp
next
  case (2 db store el row n g f b ex db' store')
  then show ?case using export_columns [OF 2(4)] by auto
next
  case (3 db store n g f b s db')
  then show ?case using rollup_purge by simp
next
  case (4 db store n g f b s agent ls stats db')
  then show ?case using rollup_restored by simp
next
  case (5 db store db')
  then show ?case using rollup_other by simp
qed

end
