(* ===== verification/Archive_Report.thy ===== *)
theory Archive_Report
  imports Archive_Rollup
begin

text \<open>
  The query behind the cost report (\<^verbatim>\<open>metrics/usage.sql\<close>): the daily rows of the sessions that have
  them, attributed to repositories, together with the totals of the purged ones. A cycle of the archive
  moves rows from one part to the other and the report stays the same. The sums of the report are
  unbounded here.
\<close>

section \<open>The query\<close>

type_synonym report_key = "int \<times> string option \<times> string \<times> string"

definition session_rows :: "'r \<Rightarrow> usage_tables \<Rightarrow> ((int \<times> 'r \<times> string \<times> string) \<times> usage_components) list" where
  "session_rows repo t = map (\<lambda>((day, model), r). ((day, repo, md_agent r, model), md_spend r)) (ut_models t)"

definition live_rows :: "archive_db \<Rightarrow> (report_key \<times> usage_components) list" where
  "live_rows db = concat (map (\<lambda>s. session_rows (attributed_repo s db) (ad_usage db s)) (ad_sessions db))"

definition report_repo :: "string \<Rightarrow> string option" where
  "report_repo repo = (if repo = [] then None else Some repo)"

definition archived_rows :: "(rollup_key, usage_components) btree_map \<Rightarrow> (report_key \<times> usage_components) list" where
  "archived_rows rollup = map (\<lambda>((day, repo, agent, model), c). ((day, report_repo repo, agent, model), c)) rollup"

definition combined_rows :: "archive_db \<Rightarrow> (report_key \<times> usage_components) list" where
  "combined_rows db = live_rows db @ archived_rows (ad_rollup db)"

definition usage_report :: "archive_db \<Rightarrow> (report_key \<times> usage_components) list" where
  "usage_report db =
     (let rows = combined_rows db in
      sort_key (fst \<circ> fst) (map (\<lambda>key. (key, sum_components (map snd (filter (\<lambda>r. fst r = key) rows)))) (remdups (map fst rows))))"

section \<open>Totals of rows\<close>

definition rows_total :: "(usage_components \<Rightarrow> int) \<Rightarrow> ('k \<times> usage_components) list \<Rightarrow> 'k \<Rightarrow> int" where
  "rows_total f xs key = sum_list (map (f \<circ> snd) (filter (\<lambda>r. fst r = key) xs))"

lemma rows_total_append [simp]: "rows_total f (xs @ ys) key = rows_total f xs key + rows_total f ys key"
  by (simp add: rows_total_def)

lemma rows_total_Nil [simp]: "rows_total f [] key = 0"
  by (simp add: rows_total_def)

lemma rows_total_concat: "rows_total f (concat (map g ss)) key = (\<Sum>s \<leftarrow> ss. rows_total f (g s) key)"
  by (induction ss) simp_all

lemma rows_total_keyed:
  assumes "f \<in> token_columns" "distinct (map fst xs)"
  shows "rows_total f xs key = f (unwrap_or (map_of xs key) no_components)"
  using assms(2)
proof (induction xs)
  case (Cons x xs)
  have "filter (\<lambda>r. fst r = fst x) xs = []" using Cons.prems by (auto simp: filter_empty_conv image_iff)
  then show ?case using Cons by (auto simp: rows_total_def)
qed (use assms(1) in simp)

lemma column_sum: "f \<in> token_columns \<Longrightarrow> f (sum_components cs) = sum_list (map f cs)"
  by (auto simp: token_columns_def sum_components_def)

lemma report_same:
  assumes "fst ` set (combined_rows db') = fst ` set (combined_rows db)"
    "\<And>f key. f \<in> token_columns \<Longrightarrow> rows_total f (combined_rows db') key = rows_total f (combined_rows db) key"
  shows "set (usage_report db') = set (usage_report db)"
proof -
  have "sum_components (map snd (filter (\<lambda>r. fst r = key) (combined_rows db'))) = sum_components (map snd (filter (\<lambda>r. fst r = key) (combined_rows db)))" for key
    by (rule components_eq) (use assms(2) [of _ key] in \<open>simp add: column_sum rows_total_def\<close>)
  then show ?thesis using assms(1) by (simp add: usage_report_def Let_def)
qed

lemma session_rows_total:
  assumes "f \<in> token_columns" "models_ok t"
  shows "rows_total f (session_rows repo t) (day, repo', agent, model)
    = (case map_of (ut_models t) (day, model) of
         Some r \<Rightarrow> if repo' = repo \<and> md_agent r = agent then f (md_spend r) else 0 | None \<Rightarrow> 0)"
proof -
  have "btm_ok (ut_models t)" using assms(2) by (simp add: models_ok_def)
  note c = contributions_of [OF this, folded session_rows_def]
  show ?thesis unfolding rows_total_keyed [OF assms(1) c(1)] c(2) using assms(1) by (simp split: option.split)
qed

lemma contributions_are_rows: "usage_contributions repo t = session_rows repo t"
  by (simp add: usage_contributions_def session_rows_def)

lemma tokens_of_rows:
  assumes "f \<in> token_columns" "models_ok t"
  shows "tokens f (session_rows repo t) key = rows_total f (session_rows repo t) key"
proof -
  have "distinct (map fst (session_rows repo t))"
    unfolding session_rows_def by (rule contributions_of(1)) (use assms(2) in \<open>simp add: models_ok_def\<close>)
  then show ?thesis by (simp add: rows_total_keyed [OF assms(1)] tokens_def)
qed

definition report_key_of :: "rollup_key \<Rightarrow> report_key" where
  "report_key_of = (\<lambda>(day, repo, agent, model). (day, report_repo repo, agent, model))"

lemma report_key_inj: "inj report_key_of"
  by (auto simp: report_key_of_def report_repo_def inj_def split: if_splits)

lemma archived_alt: "archived_rows m = map (\<lambda>(k, c). (report_key_of k, c)) m"
  by (auto simp: archived_rows_def report_key_of_def)

lemma archived_total:
  assumes "f \<in> token_columns" "btm_ok m"
  shows "rows_total f (archived_rows m) (report_key_of k) = tokens f m k"
    "rows_total f (archived_rows m) (day, Some [], agent, model) = 0"
proof -
  have "map fst (archived_rows m) = map report_key_of (map fst m)" by (auto simp: archived_alt)
  then have d: "distinct (map fst (archived_rows m))"
    using btm_ok_distinct [OF assms(2)] report_key_inj by (simp only: distinct_map) (meson inj_on_subset subset_UNIV)
  have "map_of (archived_rows m) (report_key_of k) = map_of m k"
    unfolding archived_alt by (induction m) (auto simp: inj_eq [OF report_key_inj])
  then show "rows_total f (archived_rows m) (report_key_of k) = tokens f m k"
    by (simp add: rows_total_keyed [OF assms(1) d] tokens_def)
  have "filter (\<lambda>r. fst r = (day, Some [], agent, model)) (archived_rows m) = []"
    by (auto simp: filter_empty_conv archived_rows_def report_repo_def split: if_splits)
  then show "rows_total f (archived_rows m) (day, Some [], agent, model) = 0" by (simp add: rows_total_def)
qed

section \<open>Attribution\<close>

declare lineage_pty.simps [simp del]

definition attribution :: "session_row \<Rightarrow> string option \<times> session option \<times> string option" where
  "attribution row = (sn_pty_session_id row, sn_parent_session_uuid row, sn_project_hash row)"

definition attributed_alike :: "archive_db \<Rightarrow> archive_db \<Rightarrow> bool" where
  "attributed_alike db db' \<longleftrightarrow> ad_ptys db' = ad_ptys db \<and> ad_repos db' = ad_repos db
     \<and> (\<forall>s. map_option attribution (ig_sessions (ad_ingest db') s) = map_option attribution (ig_sessions (ad_ingest db) s))"

lemma attributed_cases:
  assumes "attributed_alike db db'"
  obtains "ig_sessions (ad_ingest db) s = None" "ig_sessions (ad_ingest db') s = None"
  | row row' where "ig_sessions (ad_ingest db) s = Some row" "ig_sessions (ad_ingest db') s = Some row'" "attribution row' = attribution row"
  using assms unfolding attributed_alike_def
  by (cases "ig_sessions (ad_ingest db) s"; cases "ig_sessions (ad_ingest db') s") (metis option.map option.sel option.distinct(1))+

lemma lineage_alike:
  assumes "attributed_alike db db'"
  shows "lineage_pty db' n s = lineage_pty db n s"
proof (induction n arbitrary: s)
  case 0
  show ?case by (rule attributed_cases [OF assms, of s]; subst (1 2) lineage_pty.simps) (simp_all add: attribution_def split: option.split)
next
  case (Suc n)
  then have eq: "lineage_pty db' n = lineage_pty db n" by (intro ext)
  show ?case
    by (rule attributed_cases [OF assms, of s]; subst (1 2) lineage_pty.simps) (simp_all add: attribution_def eq split: option.split)
qed

lemma attributed_repo_alike:
  assumes "attributed_alike db db'"
  shows "attributed_repo s db' = attributed_repo s db"
  by (rule attributed_cases [OF assms, of s])
    (use assms lineage_alike [OF assms] in \<open>simp_all add: attributed_repo_def attribution_def attributed_alike_def\<close>)

definition named_repos :: "archive_db \<Rightarrow> bool" where
  "named_repos db \<longleftrightarrow> (\<forall>p \<in> set (ad_ptys db). pt_repo p \<noteq> []) \<and> (\<forall>(name, _) \<in> set (ad_repos db). name \<noteq> [])"

lemma find_in: "find P xs = Some x \<Longrightarrow> x \<in> set xs \<and> P x"
  by (auto simp: find_Some_iff)

lemma attributed_named: "named_repos db \<Longrightarrow> attributed_repo s db \<noteq> Some []"
  by (auto simp: attributed_repo_def named_repos_def or_else_def bind_eq_Some_conv split: option.splits dest!: find_in)

section \<open>A purge\<close>

lemma purge_attribution:
  assumes "purge_session env s db = Inr db'"
  shows "attributed_alike db db'"
proof -
  obtain row where row: "ig_sessions (ad_ingest db) s = Some row"
      "ig_sessions (ad_ingest db') = (ig_sessions (ad_ingest db))(s \<mapsto> row\<lparr>sn_purged := True\<rparr>)"
    by (rule purge_effect [OF assms])
  have "ad_ptys db' = ad_ptys db" "ad_repos db' = ad_repos db"
    using assms by (auto simp: purge_session_def roll_up_usage_def roll_up_file_activity_def store_turn_digests_def
        fold_touches_into_digest_def replace_embedding_sources_def delete_session_rows_def Let_def)
  then show ?thesis using row by (simp add: attributed_alike_def attribution_def)
qed

lemma live_total:
  assumes "rollup_ok db"
  shows "rows_total f (live_rows db) key
    = (\<Sum>s \<in> set (ad_sessions db). rows_total f (session_rows (attributed_repo s db) (ad_usage db s)) key)"
  unfolding live_rows_def rows_total_concat using rollup_okD(4) [OF assms] by (rule sum_list_distinct_conv_sum_set)

lemma live_keys:
  "fst ` set (live_rows db) = (\<Union>s \<in> set (ad_sessions db). fst ` set (session_rows (attributed_repo s db) (ad_usage db s)))"
  by (auto simp: live_rows_def)

lemma repo_keys:
  assumes "repo \<noteq> Some []"
  shows "report_repo (unwrap_or repo []) = repo" "repo' \<noteq> Some [] \<Longrightarrow> unwrap_or repo' [] = unwrap_or repo [] \<longleftrightarrow> repo' = repo"
  using assms by (cases repo; cases repo'; auto simp: report_repo_def)+

lemma session_keys: "fst ` set (archived_rows (session_rows (unwrap_or repo []) t)) = fst ` set (session_rows repo t)" if "repo \<noteq> Some []"
  using repo_keys(1) [OF that] by (force simp: archived_rows_def session_rows_def)

text \<open>A purge takes the rows of its session out of the live part of the report.\<close>

lemma purge_live_rows:
  assumes ok: "rollup_ok db" and p: "purge_session env s db = Inr db'"
  defines "gone \<equiv> session_rows (attributed_repo s db) (ad_usage db s)"
  shows "fst ` set (live_rows db) = fst ` set (live_rows db') \<union> fst ` set gone"
    "rows_total f (live_rows db) key = rows_total f (live_rows db') key + rows_total f gone key"
proof -
  let ?rows = "\<lambda>t. session_rows (attributed_repo t db) (ad_usage db t)"
  obtain row where e: "ig_sessions (ad_ingest db) s = Some row" "ad_usage db' = (ad_usage db)(s := empty_usage)" "ad_sessions db' = ad_sessions db"
    by (rule purge_effect [OF p])
  note attr = attributed_repo_alike [OF purge_attribution [OF p]]
  have known: "s \<in> set (ad_sessions db)" using rollup_okD(3) [OF ok] e(1) by blast
  have left: "session_rows (attributed_repo t db') (ad_usage db' t) = (if t = s then [] else ?rows t)" for t
    by (simp add: e(2) attr session_rows_def)
  have "(\<Union>t \<in> A. K t) = (\<Union>t \<in> A. if t = s then {} else K t) \<union> K s" if "s \<in> A" for A and K :: "session \<Rightarrow> report_key set"
    using that by (auto split: if_splits)
  from this [OF known, of "\<lambda>t. fst ` set (?rows t)"] show "fst ` set (live_rows db) = fst ` set (live_rows db') \<union> fst ` set gone"
    unfolding live_keys left e(3) gone_def by (simp add: if_distrib [of "\<lambda>xs. fst ` set xs"] cong: if_cong)
  have "(\<Sum>t \<in> set (ad_sessions db). rows_total f (session_rows (attributed_repo t db') (ad_usage db' t)) key)
      = (\<Sum>t \<in> set (ad_sessions db). rows_total f (?rows t) key) - rows_total f (?rows s) key
        + rows_total f (session_rows (attributed_repo s db') (ad_usage db' s)) key"
    by (intro sum_replace) (use known in \<open>simp_all add: left\<close>)
  then show "rows_total f (live_rows db) key = rows_total f (live_rows db') key + rows_total f gone key"
    by (simp add: live_total [OF ok] live_total [OF rollup_purge [OF ok p]] e(3) left gone_def)
qed

text \<open>It adds the same rows to the archived part.\<close>

lemma purge_archived_rows:
  assumes ok: "rollup_ok db" and named: "named_repos db" and p: "purge_session env s db = Inr db'"
  defines "added \<equiv> session_rows (attributed_repo s db) (ad_usage db s)"
  shows "fst ` set (archived_rows (ad_rollup db')) = fst ` set (archived_rows (ad_rollup db)) \<union> fst ` set added"
    "f \<in> token_columns \<Longrightarrow> rows_total f (archived_rows (ad_rollup db')) key = rows_total f (archived_rows (ad_rollup db)) key + rows_total f added key"
proof -
  let ?repo = "attributed_repo s db" and ?t = "ad_usage db s"
  let ?new = "usage_contributions (unwrap_or ?repo []) ?t"
  obtain row db1 where e: "ig_sessions (ad_ingest db) s = Some row" "\<not> sn_purged row" "roll_up_usage s (unwrap_or ?repo []) db = Inr db1"
      "ad_rollup db' = ad_rollup db1"
    by (rule purge_effect [OF p])
  have "\<not> session_is_purged s (ad_ingest db)" using e(1,2) by (simp add: session_is_purged_def)
  then have s: "ad_contributions db s = []" "models_ok ?t" using rollup_okD(2) [OF ok, of s] by (auto simp: session_rollup_ok_def)
  obtain cs where "ad_contributions db1 = (ad_contributions db)(s := cs)" "btm_ok cs" "map_of cs = map_of ?new" "set cs = set ?new" and
      m: "btm_ok (ad_rollup db1)" "fst ` set (ad_rollup db1) = fst ` set (ad_rollup db) \<union> fst ` set ?new"
      "\<forall>f \<in> token_columns. \<forall>key. tokens f (ad_rollup db1) key = tokens f (ad_rollup db) key + tokens f ?new key"
    by (rule roll_up_effect [OF e(3) s rollup_okD(5) [OF ok]])
  have repo: "?repo \<noteq> Some []" by (rule attributed_named [OF named])
  have "fst ` set (archived_rows m) = report_key_of ` fst ` set m" for m by (auto simp: archived_alt image_image split_beta)
  then show "fst ` set (archived_rows (ad_rollup db')) = fst ` set (archived_rows (ad_rollup db)) \<union> fst ` set added"
    using session_keys [OF repo, of ?t] by (simp add: e(4) m(2) contributions_are_rows image_Un added_def)
  assume f: "f \<in> token_columns"
  obtain day repo' agent model where key: "key = (day, repo', agent, model)" by (cases key)
  show "rows_total f (archived_rows (ad_rollup db')) key = rows_total f (archived_rows (ad_rollup db)) key + rows_total f added key"
  proof (cases "repo' = Some []")
    case True
    then show ?thesis
      using archived_total(2) [OF f m(1)] archived_total(2) [OF f rollup_okD(5) [OF ok]] repo
      by (simp add: key e(4) added_def session_rows_total [OF f s(2)] split: option.split)
  next
    case False
    let ?k = "(day, unwrap_or repo' [], agent, model)"
    have k: "key = report_key_of ?k" using repo_keys(1) [OF False] by (simp add: key report_key_of_def)
    have "tokens f ?new ?k = rows_total f added key"
      using repo_keys(2) [OF repo False]
      by (simp add: key added_def contributions_are_rows tokens_of_rows [OF f s(2)] session_rows_total [OF f s(2)] split: option.split)
    then show ?thesis
      using archived_total(1) [OF f m(1), of ?k] archived_total(1) [OF f rollup_okD(5) [OF ok], of ?k] m(3) [rule_format, OF f, of ?k]
      by (simp add: k [symmetric] e(4))
  qed
qed

lemma purge_report:
  assumes "rollup_ok db" "named_repos db" "purge_session env s db = Inr db'"
  shows "set (usage_report db') = set (usage_report db)"
proof (rule report_same)
  show "fst ` set (combined_rows db') = fst ` set (combined_rows db)"
    by (simp only: combined_rows_def set_append image_Un Un_ac purge_live_rows(1) [OF assms(1,3)] purge_archived_rows(1) [OF assms])
  show "rows_total f (combined_rows db') key = rows_total f (combined_rows db) key" if "f \<in> token_columns" for f key
    by (simp add: combined_rows_def purge_live_rows(2) [OF assms(1,3)] purge_archived_rows(2) [OF assms that])
qed

section \<open>A cycle\<close>

lemma report_frame:
  assumes "attributed_alike db db'" "ad_usage db' = ad_usage db" "ad_rollup db' = ad_rollup db" "ad_sessions db' = ad_sessions db"
  shows "usage_report db' = usage_report db" "named_repos db' = named_repos db"
  using assms(1) attributed_repo_alike [OF assms(1)]
  by (simp_all add: usage_report_def combined_rows_def live_rows_def assms(2-4) named_repos_def attributed_alike_def)

lemma rollup_ok_frame:
  assumes "ad_ingest db' = ad_ingest db" "ad_usage db' = ad_usage db" "ad_rollup db' = ad_rollup db" "ad_sessions db' = ad_sessions db"
    "ad_contributions db' = ad_contributions db"
  shows "rollup_ok db' = rollup_ok db"
  by (simp add: rollup_ok_def session_rollup_ok_def assms)

definition report_kept :: "(report_key \<times> usage_components) set \<Rightarrow> archive_db \<times> object_store \<Rightarrow> bool" where
  "report_kept R st \<longleftrightarrow> rollup_ok (fst st) \<and> named_repos (fst st) \<and> set (usage_report (fst st)) = R"

lemma report_kept_frame:
  assumes "report_kept R (db, store)" "ad_ingest db' = ad_ingest db" "ad_usage db' = ad_usage db" "ad_rollup db' = ad_rollup db"
    "ad_sessions db' = ad_sessions db" "ad_contributions db' = ad_contributions db" "ad_ptys db' = ad_ptys db" "ad_repos db' = ad_repos db"
  shows "report_kept R (db', store')"
proof -
  have "attributed_alike db db'" by (simp add: attributed_alike_def assms)
  then show ?thesis using assms(1) report_frame [OF _ assms(3-5)] rollup_ok_frame [OF assms(2-6)] by (simp add: report_kept_def)
qed

interpretation report: kept_by_cycle env "report_kept R" for env R
proof (unfold_locales, goal_cases)
  case (1 db store el row n g f b ex db' store')
  from export_columns [OF 1(4)] show ?case by (elim disjE exE) (rule report_kept_frame [OF 1(1)]; simp)+
next
  case (2 db store n g f b s db')
  then have ok: "rollup_ok db" "named_repos db" "set (usage_report db) = R" by (simp_all add: report_kept_def)
  have "named_repos db'"
    using ok(2) purge_attribution [OF 2(2)] by (simp add: named_repos_def attributed_alike_def)
  then show ?case using rollup_purge [OF ok(1) 2(2)] purge_report [OF ok(1,2) 2(2)] ok(3) by (simp add: report_kept_def)
qed (rule report_kept_frame, assumption, simp_all)+

section \<open>The property\<close>

definition no_totals :: "archive_db \<Rightarrow> bool" where
  "no_totals db \<longleftrightarrow> distinct (ad_sessions db) \<and> dom (ig_sessions (ad_ingest db)) \<subseteq> set (ad_sessions db) \<and> ad_rollup db = []
     \<and> (\<forall>s. ad_contributions db s = [] \<and> models_ok (ad_usage db s) \<and> \<not> session_is_purged s (ad_ingest db))"

lemma no_totals_ok: "no_totals db \<Longrightarrow> rollup_ok db"
  by (intro rollup_okI) (auto simp: no_totals_def session_rollup_ok_def)

definition contributed :: "archive_db \<Rightarrow> rollup_key \<Rightarrow> usage_components" where
  "contributed db key = sum_components (map (\<lambda>s. unwrap_or (map_of (ad_contributions db s) key) no_components) (ad_sessions db))"

text \<open>
  C24: purging changes no number of the cost report. Whatever lines were ingested and sessions purged and
  restored before, a cycle leaves the report as it was, and the daily totals are afterwards exactly what
  the sessions purged by then have contributed, so that a restore takes out what the purge put in.
\<close>

theorem cycle_keeps_report:
  assumes "no_totals db0" "archive_run env (db0, store0) (db, store)" "named_repos db"
    "run_cycle (moment env now db_ok put_ok dump_ok) cfg dry_run (db, store) = (outcome, db', store')"
  shows "set (usage_report db') = set (usage_report db) \<and> unwrap_or (map_of (ad_rollup db') key) no_components = contributed db' key"
proof
  have ok: "rollup_ok db" using totals.keeps_run [OF assms(2)] no_totals_ok [OF assms(1)] by simp
  then have "report_kept (set (usage_report db)) (db, store)" using assms(3) by (simp add: report_kept_def)
  from report.keeps_cycle [OF this assms(4)] have ok': "rollup_ok db'" and same: "set (usage_report db') = set (usage_report db)"
    by (simp_all add: report_kept_def)
  show "set (usage_report db') = set (usage_report db)" by (rule same)
  show "unwrap_or (map_of (ad_rollup db') key) no_components = contributed db' key"
  proof (rule components_eq)
    fix f
    assume f: "f \<in> token_columns"
    have "f (contributed db' key) = (\<Sum>s \<leftarrow> ad_sessions db'. tokens f (ad_contributions db' s) key)"
      by (simp add: contributed_def column_sum [OF f] tokens_def comp_def)
    also have "\<dots> = (\<Sum>s \<in> set (ad_sessions db'). tokens f (ad_contributions db' s) key)"
      by (rule sum_list_distinct_conv_sum_set [OF rollup_okD(4) [OF ok']])
    also have "\<dots> = f (unwrap_or (map_of (ad_rollup db') key) no_components)"
      using rollup_okD(1) [OF ok' f, of key, symmetric] unfolding tokens_def .
    finally show "f (unwrap_or (map_of (ad_rollup db') key) no_components) = f (contributed db' key)" by simp
  qed
qed

theorem cycle_keeps_report_witness:
  "ig_events (ad_ingest (fst sample_purged)) 1 = []
    \<and> ((0, None, ''claude-code'', ''m''), no_components\<lparr>uc_input := 5\<rparr>) \<in> set (usage_report (fst sample_purged))"
proof -
  obtain db2 store2 where st2: "sample_purged = (db2, store2)" by fastforce
  obtain db1 store1 where st1: "sample_exported = (db1, store1)" by fastforce
  have step: "archive_step sample_archive_env (sample_archive_db, Map.empty) (db1, store1)" using sample_steps(1) st1 by simp
  have none: "no_totals sample_archive_db"
    by (auto simp: no_totals_def sample_archive_db_def session_is_purged_def models_ok_def btm_ok_def check_components_def all_components_def
        no_components_def i64_max_def empty_usage_def)
  have named: "named_repos sample_archive_db" by (simp add: named_repos_def sample_archive_db_def)
  obtain o1 where c1: "run_cycle (sample_moment 1) (sample_archive_config\<lparr>cf_purge_enabled := False\<rparr>) False (sample_archive_db, Map.empty) = (o1, db1, store1)"
    using st1 unfolding sample_exported_def by (metis prod.collapse)
  obtain o2 where c2: "run_cycle (sample_moment 2) sample_archive_config False (db1, store1) = (o2, db2, store2)"
    using st1 st2 unfolding sample_purged_def by (metis prod.collapse)
  have "named_repos db1"
  proof -
    obtain columns store where e: "sample_exported = (sample_archive_db\<lparr>ad_cycle_started := Some 1, ad_cycle_completed := Some 1,
        ad_columns := (ad_columns sample_archive_db)(1 := columns)\<rparr>, store)" "ac_archived_at columns = Some 1" "ac_events columns = Some 1"
      by (rule sample_after_export)
    have "ad_ptys db1 = ad_ptys sample_archive_db" "ad_repos db1 = ad_repos sample_archive_db" using e(1) [unfolded st1] by simp_all
    then show ?thesis using named unfolding named_repos_def by (simp only:)
  qed
  from cycle_keeps_report [OF none rtranclp.rtrancl_refl named c1, of "(0, [], [], [])"]
    cycle_keeps_report [OF none r_into_rtranclp [of "archive_step sample_archive_env", OF step] this c2, of "(0, [], [], [])"]
  have "set (usage_report db2) = set (usage_report sample_archive_db)" by simp
  moreover have "((0, None, ''claude-code'', ''m''), no_components\<lparr>uc_input := 5\<rparr>) \<in> set (usage_report sample_archive_db)"
  proof -
    have "lineage_pty sample_archive_db 16 1 = None" by (subst lineage_pty.simps) (simp split: nat.split)
    then have "attributed_repo 1 sample_archive_db = None" by (simp add: attributed_repo_def or_else_def)
    moreover have "ut_models (ad_usage sample_archive_db 1) = [((0, ''m''), \<lparr>md_agent = ''claude-code'', md_spend = no_components\<lparr>uc_input := 5\<rparr>, md_last_message_id = None\<rparr>)]"
      "ad_rollup sample_archive_db = []" by (simp_all add: sample_archive_db_def)
    ultimately have "combined_rows sample_archive_db = [((0, None, ''claude-code'', ''m''), no_components\<lparr>uc_input := 5\<rparr>)]"
      by (simp add: combined_rows_def live_rows_def session_rows_def archived_rows_def)
    then show ?thesis by (simp add: usage_report_def sum_components_def no_components_def)
  qed
  ultimately show ?thesis using sample_after_purge unfolding st2 by simp
qed

end
