(* ===== verification/Archive_Requests.thy ===== *)
theory Archive_Requests
  imports Archive_Moves
begin

text \<open>
  Work for the archive loop that somebody asked for (\<^verbatim>\<open>archive/requests.rs\<close>) and the loop itself
  (\<^verbatim>\<open>archive/mod.rs\<close>): the queue of requests, restores of a whole scope, the verification of archived
  objects, and one round of the loop. The working directory a session recorded is read from a table that
  is not modelled and comes as a parameter; job rows and log lines are left out.
\<close>

section \<open>Requests\<close>

record restore_scope =
  sc_session :: "session option"
  sc_month :: "string option"
  sc_repo :: "string option"
  sc_all :: bool
  sc_purge_after :: bool

definition default_scope :: restore_scope where
  "default_scope = \<lparr>sc_session = None, sc_month = None, sc_repo = None, sc_all = False, sc_purge_after = False\<rparr>"

definition scope_is_empty :: "restore_scope \<Rightarrow> bool" where
  "scope_is_empty scope \<longleftrightarrow> sc_session scope = None \<and> sc_month scope = None \<and> sc_repo scope = None \<and> \<not> sc_all scope"

definition scope_to_value :: "archive_env \<Rightarrow> restore_scope \<Rightarrow> json" where
  "scope_to_value env scope = JObj (
     (case sc_session scope of None \<Rightarrow> [] | Some s \<Rightarrow> [(''session_uuid'', JStr (ie_uuid_string (ar_ingest env) s))])
     @ (case sc_month scope of None \<Rightarrow> [] | Some m \<Rightarrow> [(''month'', JStr m)])
     @ (case sc_repo scope of None \<Rightarrow> [] | Some r \<Rightarrow> [(''repo'', JStr r)])
     @ [(''all'', JBool (sc_all scope)), (''purge_after'', JBool (sc_purge_after scope))])"

text \<open>A member that is absent has its default; one of the wrong type is an error.\<close>

definition optional_text :: "json \<Rightarrow> string \<Rightarrow> string option option" where
  "optional_text v key =
     (case jget v key of None \<Rightarrow> Some None | Some JNull \<Rightarrow> Some None | Some (JStr s) \<Rightarrow> Some (Some s) | Some _ \<Rightarrow> None)"

definition default_bool :: "json \<Rightarrow> string \<Rightarrow> bool option" where
  "default_bool v key = (case jget v key of None \<Rightarrow> Some False | Some b \<Rightarrow> as_bool b)"

definition scope_of_value :: "archive_env \<Rightarrow> json \<Rightarrow> restore_scope option" where
  "scope_of_value env v =
     (if \<not> is_object v then None
      else Option.bind (optional_text v ''session_uuid'') (\<lambda>u.
        Option.bind (case u of None \<Rightarrow> Some None | Some u \<Rightarrow> map_option Some (ie_parse_uuid (ar_ingest env) u)) (\<lambda>session.
        Option.bind (optional_text v ''month'') (\<lambda>month.
        Option.bind (optional_text v ''repo'') (\<lambda>repo.
        Option.bind (default_bool v ''all'') (\<lambda>all.
        Option.bind (default_bool v ''purge_after'') (\<lambda>purge_after.
          Some \<lparr>sc_session = session, sc_month = month, sc_repo = repo, sc_all = all, sc_purge_after = purge_after\<rparr>)))))))"

datatype request_status = Pending | Running | Completed | Failed

record restore_run =
  rr_sessions :: nat
  rr_restored :: nat
  rr_failures :: nat
  rr_purged_again :: nat
  rr_outcomes :: "restore_outcome list"
  rr_errors :: "(session \<times> archive_error) list"
  rr_purging_disabled :: bool

datatype verify_problem = MissingObject session string | Mismatch session string "string list"

record verify_outcome =
  vf_deep :: bool
  vf_sessions :: nat
  vf_ok :: nat
  vf_missing :: nat
  vf_mismatched :: nat
  vf_stale :: nat
  vf_problems :: "verify_problem list"

datatype request_result = CycleDone cycle_outcome | RestoreDone restore_run | VerifyDone verify_outcome

record archive_request =
  rq_id :: int
  rq_kind :: string
  rq_scope :: json
  rq_status :: request_status
  rq_requested_by :: "string option"
  rq_requested_at :: time
  rq_started_at :: "time option"
  rq_finished_at :: "time option"
  rq_error :: "archive_error option"
  rq_result :: "request_result option"
  rq_job :: "int option"

record request_table =
  rt_rows :: "archive_request list"
  rt_next_id :: int

definition insert_request ::
  "archive_env \<Rightarrow> string \<Rightarrow> json \<Rightarrow> string option \<Rightarrow> request_table \<Rightarrow> archive_request \<times> request_table" where
  "insert_request env kind scope requested_by rt =
     (let row = \<lparr>rq_id = rt_next_id rt, rq_kind = kind, rq_scope = scope, rq_status = Pending, rq_requested_by = requested_by,
            rq_requested_at = ie_now (ar_ingest env), rq_started_at = None, rq_finished_at = None, rq_error = None,
            rq_result = None, rq_job = None\<rparr>
      in (row, rt\<lparr>rt_rows := rt_rows rt @ [row], rt_next_id := rt_next_id rt + 1\<rparr>))"

definition enqueue_run :: "archive_env \<Rightarrow> bool \<Rightarrow> string option \<Rightarrow> request_table \<Rightarrow> archive_request \<times> request_table" where
  "enqueue_run env dry_run = insert_request env ''run'' (JObj [(''dry_run'', JBool dry_run)])"

definition enqueue_verify :: "archive_env \<Rightarrow> bool \<Rightarrow> string option \<Rightarrow> request_table \<Rightarrow> archive_request \<times> request_table" where
  "enqueue_verify env deep = insert_request env ''verify'' (JObj [(''deep'', JBool deep)])"

definition enqueue_restore ::
  "archive_env \<Rightarrow> restore_scope \<Rightarrow> string option \<Rightarrow> request_table \<Rightarrow> archive_error + archive_request \<times> request_table" where
  "enqueue_restore env scope requested_by rt =
     (if scope_is_empty scope then Inl EmptyScope
      else Inr (insert_request env ''restore'' (scope_to_value env scope) requested_by rt))"

definition open_restore :: "archive_env \<Rightarrow> session \<Rightarrow> archive_request \<Rightarrow> bool" where
  "open_restore env s r \<longleftrightarrow> rq_kind r = ''restore'' \<and> rq_status r \<in> {Pending, Running}
     \<and> text_at (ie_jsonb_text (ar_ingest env)) (rq_scope r) [''session_uuid''] = Some (ie_uuid_string (ar_ingest env) s)"

definition request_restore_if_absent ::
  "archive_env \<Rightarrow> session \<Rightarrow> string \<Rightarrow> request_table \<Rightarrow> archive_error + bool \<times> request_table" where
  "request_restore_if_absent env s requested_by rt =
     (if list_ex (open_restore env s) (rt_rows rt) then Inr (False, rt)
      else res_bind (enqueue_restore env (default_scope\<lparr>sc_session := Some s\<rparr>) (Some requested_by) rt) (\<lambda>(_, rt). Inr (True, rt)))"

text \<open>The oldest pending request, now running.\<close>

definition next_pending :: "archive_env \<Rightarrow> request_table \<Rightarrow> (archive_request \<times> request_table) option" where
  "next_pending env rt =
     (case sort_key (\<lambda>r. (rq_requested_at r, rq_id r)) (filter (\<lambda>r. rq_status r = Pending) (rt_rows rt)) of
        [] \<Rightarrow> None
      | r # _ \<Rightarrow>
          (let start = (\<lambda>r. r\<lparr>rq_status := Running, rq_started_at := Some (ie_now (ar_ingest env))\<rparr>)
           in Some (start r, rt\<lparr>rt_rows := update_where (\<lambda>x. rq_id x = rq_id r) start (rt_rows rt)\<rparr>)))"

definition attach_job :: "int \<Rightarrow> int \<Rightarrow> request_table \<Rightarrow> request_table" where
  "attach_job i job rt = rt\<lparr>rt_rows := update_where (\<lambda>r. rq_id r = i) (\<lambda>r. r\<lparr>rq_job := Some job\<rparr>) (rt_rows rt)\<rparr>"

definition finish_request :: "archive_env \<Rightarrow> int \<Rightarrow> archive_error + request_result \<Rightarrow> request_table \<Rightarrow> request_table" where
  "finish_request env i result rt = rt\<lparr>rt_rows := update_where (\<lambda>r. rq_id r = i) (\<lambda>r.
     (case result of
        Inr v \<Rightarrow> r\<lparr>rq_status := Completed, rq_error := None, rq_result := Some v\<rparr>
      | Inl e \<Rightarrow> r\<lparr>rq_status := Failed, rq_error := Some e, rq_result := None\<rparr>)
     \<lparr>rq_finished_at := Some (ie_now (ar_ingest env))\<rparr>) (rt_rows rt)\<rparr>"

definition fail_stale_running :: "archive_env \<Rightarrow> request_table \<Rightarrow> nat \<times> request_table" where
  "fail_stale_running env rt = (length (filter (\<lambda>r. rq_status r = Running) (rt_rows rt)),
     rt\<lparr>rt_rows := update_where (\<lambda>r. rq_status r = Running)
       (\<lambda>r. r\<lparr>rq_status := Failed, rq_error := Some Interrupted, rq_finished_at := Some (ie_now (ar_ingest env))\<rparr>) (rt_rows rt)\<rparr>)"

definition recent_requests :: "int \<Rightarrow> request_table \<Rightarrow> archive_request list" where
  "recent_requests limit rt =
     take (nat (max 1 (min limit 200))) (rev (sort_key (\<lambda>r. (rq_requested_at r, rq_id r)) (rt_rows rt)))"

section \<open>Restores of a scope\<close>

text \<open>SQL \<^verbatim>\<open>LIKE\<close> on characters; the patterns here do not end in an escape.\<close>

fun sql_like :: "string list \<Rightarrow> string list \<Rightarrow> bool" where
  "sql_like [] t = (t = [])"
| "sql_like (p # ps) [] = (p = ''%'' \<and> sql_like ps [])"
| "sql_like (p # ps) (c # t) =
     (if p = ''%'' then sql_like ps (c # t) \<or> sql_like (p # ps) t
      else if p = [CHR 92] then (case ps of [] \<Rightarrow> False | q # qs \<Rightarrow> c = q \<and> sql_like qs t)
      else (p = ''_'' \<or> p = c) \<and> sql_like ps t)"

definition cwd_repo :: "string \<Rightarrow> string option" where
  "cwd_repo cwd =
     (case strip_prefix ''/home/sulion/repos/'' cwd of
        Some rest \<Rightarrow> Some (takeWhile (\<lambda>c. c \<noteq> CHR ''/'') rest)
      | None \<Rightarrow> (case strip_prefix ''/home/sulion/workspaces/'' cwd of
          Some rest \<Rightarrow> Some (takeWhile (\<lambda>c. c \<noteq> CHR ''/'') rest)
        | None \<Rightarrow> None))"

definition scope_key :: "(session \<Rightarrow> string option) \<Rightarrow> restore_scope \<Rightarrow> archive_db \<Rightarrow> session \<Rightarrow> (string \<times> session) option" where
  "scope_key cwd scope db s =
     (case (ig_sessions (ad_ingest db) s, ac_key (ad_columns db s)) of
        (Some row, Some key) \<Rightarrow>
          let pattern = map_option (\<lambda>m. ''sessions/%/'' @ map (\<lambda>c. if c = CHR ''-'' then CHR ''/'' else c) m @ ''/%'') (sc_month scope);
              pty_repo = Option.bind (sn_pty_session_id row) (\<lambda>p. map_option pt_repo (find (\<lambda>t. pt_id t = p) (ad_ptys db)))
          in if sn_purged row
                \<and> (case pattern of None \<Rightarrow> True | Some p \<Rightarrow> sql_like (chars p) (chars key))
                \<and> (case sc_repo scope of None \<Rightarrow> True | Some r \<Rightarrow> or_else pty_repo (Option.bind (cwd s) cwd_repo) = Some r)
             then Some (key, s) else None
      | _ \<Rightarrow> None)"

definition sessions_in_scope :: "(session \<Rightarrow> string option) \<Rightarrow> restore_scope \<Rightarrow> archive_db \<Rightarrow> session list" where
  "sessions_in_scope cwd scope db =
     (case sc_session scope of
        Some s \<Rightarrow> [s]
      | None \<Rightarrow> map snd (sort_key fst (List.map_filter (scope_key cwd scope db) (ad_sessions db))))"

text \<open>The sessions are restored one by one; a failure does not stop the others.\<close>

fun restore_each ::
  "archive_env \<Rightarrow> object_store \<Rightarrow> bool \<Rightarrow> session list \<Rightarrow> restore_run \<Rightarrow> archive_db \<Rightarrow> (restore_run \<times> archive_db) option" where
  "restore_each env store purge_after [] run db = Some (run, db)"
| "restore_each env store purge_after (s # rest) run db =
     Option.bind (restore_session env store s purge_after db) (\<lambda>(outcome, db).
       restore_each env store purge_after rest
         (case outcome of
            Inr restored \<Rightarrow> run\<lparr>rr_restored := rr_restored run + 1,
              rr_purged_again := rr_purged_again run + (if ro_purged_again restored then 1 else 0),
              rr_outcomes := rr_outcomes run @ [restored]\<rparr>
          | Inl e \<Rightarrow> run\<lparr>rr_failures := rr_failures run + 1, rr_errors := rr_errors run @ [(s, e)]\<rparr>) db)"

definition run_restore ::
  "archive_env \<Rightarrow> archive_config \<Rightarrow> (session \<Rightarrow> string option) \<Rightarrow> object_store \<Rightarrow> restore_scope \<Rightarrow> archive_db \<Rightarrow>
   (restore_run \<times> archive_db) option" where
  "run_restore env cfg cwd store scope db =
     (let sessions = sessions_in_scope cwd scope db;
          purge_after = (sc_purge_after scope \<or> sc_all scope) \<and> cf_purge_enabled cfg
      in restore_each env store purge_after sessions \<lparr>rr_sessions = length sessions, rr_restored = 0, rr_failures = 0,
           rr_purged_again = 0, rr_outcomes = [], rr_errors = [],
           rr_purging_disabled = ((sc_purge_after scope \<or> sc_all scope) \<and> \<not> cf_purge_enabled cfg)\<rparr> db)"

section \<open>Verification\<close>

text \<open>\<^verbatim>\<open>str::parse::<i64>\<close>.\<close>

definition decimal_value :: "string \<Rightarrow> int" where
  "decimal_value ds = foldl (\<lambda>n c. 10 * n + (of_char c - 48)) 0 ds"

definition parse_i64 :: "string \<Rightarrow> int option" where
  "parse_i64 text =
     (let (negative, ds) = (case text of
            c # rest \<Rightarrow> if c = CHR ''-'' then (True, rest) else if c = CHR ''+'' then (False, rest) else (False, text)
          | [] \<Rightarrow> (False, []));
          n = (if negative then - decimal_value ds else decimal_value ds)
      in if ds \<noteq> [] \<and> list_all ascii_digit ds \<and> - (2 ^ 63) \<le> n \<and> n < 2 ^ 63 then Some n else None)"

record archived_session =
  as_session :: session
  as_key :: string
  as_sha256 :: string
  as_bytes :: int
  as_events :: int
  as_purged :: bool
  as_event_count :: int

definition archived_session_of :: "archive_db \<Rightarrow> session \<Rightarrow> (archive_error + archived_session) option" where
  "archived_session_of db s =
     (let c = ad_columns db s in
      case (ig_sessions (ad_ingest db) s, ac_archived_at c, ac_key c) of
        (Some row, Some _, Some key) \<Rightarrow>
          (case (ac_sha256 c, ac_bytes c, ac_events c) of
             (Some sha256, Some bytes, Some events) \<Rightarrow> Some (Inr \<lparr>as_session = s, as_key = key, as_sha256 = sha256,
               as_bytes = bytes, as_events = events, as_purged = sn_purged row, as_event_count = event_count db s\<rparr>)
           | _ \<Rightarrow> Some (Inl (ColumnMissing s)))
      | _ \<Rightarrow> None)"

definition archived_sessions :: "archive_db \<Rightarrow> archive_error + archived_session list" where
  "archived_sessions db =
     res_bind (res_map id (List.map_filter (archived_session_of db) (ad_sessions db))) (\<lambda>sessions.
       Inr (sort_key as_key sessions))"

definition metadata_number :: "archived_object \<Rightarrow> string \<Rightarrow> int option" where
  "metadata_number head name = Option.bind (map_of (ob_metadata head) name) parse_i64"

definition object_mismatch :: "archive_env \<Rightarrow> object_store \<Rightarrow> bool \<Rightarrow> archived_session \<Rightarrow> archived_object \<Rightarrow> string list" where
  "object_mismatch env store deep a head =
     (let mismatch =
        (if map_of (ob_metadata head) ''sha256'' \<noteq> Some (as_sha256 a) then [''stored sha256 differs from the session row''] else [])
        @ (if metadata_number head ''events'' \<noteq> Some (as_events a) then [''stored event count differs from the session row''] else [])
        @ (if metadata_number head ''bytes'' \<noteq> Some (as_bytes a) then [''stored byte count differs from the session row''] else [])
      in if deep \<and> mismatch = [] then
           (case read_session_lines env store (as_key a) (as_sha256 a) of
              Inr ls \<Rightarrow> if int (length ls) = as_events a then []
                else [''object holds '' @ show_int (int (length ls)) @ '' lines, session row says '' @ show_int (as_events a)]
            | Inl _ \<Rightarrow> [''content check failed''])
         else mismatch)"

definition verify_one :: "archive_env \<Rightarrow> object_store \<Rightarrow> archived_session \<Rightarrow> verify_outcome \<Rightarrow> verify_outcome" where
  "verify_one env store a v =
     (let v = (if \<not> as_purged a \<and> as_event_count a \<noteq> as_events a then v\<lparr>vf_stale := vf_stale v + 1\<rparr> else v) in
      case store (as_key a) of
        None \<Rightarrow> v\<lparr>vf_missing := vf_missing v + 1, vf_problems := vf_problems v @ [MissingObject (as_session a) (as_key a)]\<rparr>
      | Some head \<Rightarrow>
          (case object_mismatch env store (vf_deep v) a head of
             [] \<Rightarrow> v\<lparr>vf_ok := vf_ok v + 1\<rparr>
           | ms \<Rightarrow> v\<lparr>vf_mismatched := vf_mismatched v + 1, vf_problems := vf_problems v @ [Mismatch (as_session a) (as_key a) ms]\<rparr>))"

definition verify_archives :: "archive_env \<Rightarrow> bool \<Rightarrow> archive_db \<times> object_store \<Rightarrow> archive_error + verify_outcome" where
  "verify_archives env deep = (\<lambda>(db, store).
     res_bind (archived_sessions db) (\<lambda>sessions.
       Inr (fold (verify_one env store) sessions \<lparr>vf_deep = deep, vf_sessions = length sessions, vf_ok = 0, vf_missing = 0,
         vf_mismatched = 0, vf_stale = 0, vf_problems = []\<rparr>)))"

section \<open>The loop\<close>

definition scope_flag :: "json \<Rightarrow> string \<Rightarrow> bool" where
  "scope_flag v key = unwrap_or (Option.bind (jget v key) as_bool) False"

definition handle_request ::
  "archive_env \<Rightarrow> archive_config \<Rightarrow> (session \<Rightarrow> string option) \<Rightarrow> archive_request \<Rightarrow> archive_db \<times> object_store \<Rightarrow>
   ((archive_error + request_result) \<times> archive_db \<times> object_store) option" where
  "handle_request env cfg cwd r = (\<lambda>(db, store).
     if rq_kind r = ''run'' then
       (case run_cycle env cfg (scope_flag (rq_scope r) ''dry_run'') (db, store) of
          (outcome, state) \<Rightarrow> Some (map_sum id CycleDone outcome, state))
     else if rq_kind r = ''restore'' then
       (case scope_of_value env (rq_scope r) of
          None \<Rightarrow> Some (Inl BadScope, db, store)
        | Some scope \<Rightarrow> map_option (\<lambda>(run, db). (Inr (RestoreDone run), db, store)) (run_restore env cfg cwd store scope db))
     else if rq_kind r = ''verify'' then
       Some (map_sum id VerifyDone (verify_archives env (scope_flag (rq_scope r) ''deep'') (db, store)), db, store)
     else Some (Inl (UnknownKind (rq_kind r)), db, store))"

definition pending_count :: "request_table \<Rightarrow> nat" where
  "pending_count rt = length (filter (\<lambda>r. rq_status r = Pending) (rt_rows rt))"

lemma count_update:
  assumes "\<And>r. rq_status r \<noteq> Pending \<Longrightarrow> rq_status (f r) \<noteq> Pending"
  shows "length (filter (\<lambda>r. rq_status r = Pending) (update_where P f rs)) \<le> length (filter (\<lambda>r. rq_status r = Pending) rs)"
  using assms by (induction rs) (auto simp: update_where_def le_SucI)

lemma count_update_less:
  assumes "\<And>r. rq_status (f r) \<noteq> Pending" "r \<in> set rs" "P r" "rq_status r = Pending"
  shows "length (filter (\<lambda>r. rq_status r = Pending) (update_where P f rs)) < length (filter (\<lambda>r. rq_status r = Pending) rs)"
  using assms(2)
proof (induction rs)
  case (Cons x rs)
  have "length (filter (\<lambda>r. rq_status r = Pending) (update_where P f rs)) \<le> length (filter (\<lambda>r. rq_status r = Pending) rs)"
    by (rule count_update) (simp add: assms(1))
  then show ?case using Cons assms by (auto simp: update_where_def less_Suc_eq_le less_SucI)
qed simp

lemma finish_count: "pending_count (finish_request env i result rt) \<le> pending_count rt"
  unfolding pending_count_def finish_request_def by (simp, rule count_update) (simp split: sum.split)

lemma next_pending_parts:
  assumes "next_pending env rt = Some (r, rt')"
  obtains r0 where "r0 \<in> set (rt_rows rt)" "rq_status r0 = Pending" "r = r0\<lparr>rq_status := Running, rq_started_at := Some (ie_now (ar_ingest env))\<rparr>"
    "rt' = rt\<lparr>rt_rows := update_where (\<lambda>x. rq_id x = rq_id r0) (\<lambda>r. r\<lparr>rq_status := Running, rq_started_at := Some (ie_now (ar_ingest env))\<rparr>) (rt_rows rt)\<rparr>"
    "\<forall>x \<in> set (rt_rows rt). rq_status x = Pending \<longrightarrow> (rq_requested_at r0, rq_id r0) \<le> (rq_requested_at x, rq_id x)"
proof -
  let ?key = "\<lambda>r. (rq_requested_at r, rq_id r)" and ?pending = "filter (\<lambda>r. rq_status r = Pending) (rt_rows rt)"
  obtain r0 rest where s: "sort_key ?key ?pending = r0 # rest"
    using assms by (cases "sort_key ?key ?pending") (auto simp: next_pending_def)
  have set: "set (r0 # rest) = set ?pending" unfolding s [symmetric] by simp
  have "sorted (map ?key (r0 # rest))" unfolding s [symmetric] by simp
  then have "\<forall>x \<in> set (r0 # rest). ?key r0 \<le> ?key x" by auto
  then have least: "\<forall>x \<in> set (rt_rows rt). rq_status x = Pending \<longrightarrow> ?key r0 \<le> ?key x" unfolding set by simp
  have "r0 \<in> set ?pending" using set by auto
  then show thesis by (intro that [of r0]) (use assms s least in \<open>auto simp: next_pending_def Let_def\<close>)
qed

lemma next_pending_count: "next_pending env rt = Some (r, rt') \<Longrightarrow> pending_count rt' < pending_count rt"
  by (erule next_pending_parts) (auto simp: pending_count_def intro!: count_update_less)

function drain_requests ::
  "archive_env \<Rightarrow> archive_config \<Rightarrow> (session \<Rightarrow> string option) \<Rightarrow> request_table \<Rightarrow> archive_db \<times> object_store \<Rightarrow>
   (request_table \<times> archive_db \<times> object_store) option" where
  "drain_requests env cfg cwd rt state =
     (case next_pending env rt of
        None \<Rightarrow> Some (rt, state)
      | Some (r, rt') \<Rightarrow>
          (case handle_request env cfg cwd r state of
             None \<Rightarrow> None
           | Some (result, state') \<Rightarrow> drain_requests env cfg cwd (finish_request env (rq_id r) result rt') state'))"
  by pat_completeness auto
termination
proof (relation "measure (\<lambda>(env, cfg, cwd, rt, state). pending_count rt)", simp)
  fix env rt p r rt' result and cfg :: archive_config and cwd :: "session \<Rightarrow> string option" and state state' :: "archive_db \<times> object_store"
  assume "next_pending env rt = Some p" "(r, rt') = p"
  then have "pending_count rt' < pending_count rt" using next_pending_count by auto
  then show "((env, cfg, cwd, finish_request env (rq_id r) result rt', state'), env, cfg, cwd, rt, state) \<in> measure (\<lambda>(env, cfg, cwd, rt, state). pending_count rt)"
    using finish_count [of env "rq_id r" result rt'] by simp
qed

declare drain_requests.simps [simp del]

text \<open>One round: requests first, then a cycle when it is due.\<close>

definition archive_round ::
  "archive_env \<Rightarrow> archive_config \<Rightarrow> (session \<Rightarrow> string option) \<Rightarrow> request_table \<times> archive_db \<times> object_store \<Rightarrow>
   (request_table \<times> archive_db \<times> object_store) option" where
  "archive_round env cfg cwd = (\<lambda>(rt, state).
     Option.bind (drain_requests env cfg cwd rt state) (\<lambda>(rt, db, store).
       if cycle_due env cfg db then Some (rt, snd (run_cycle env cfg False (db, store))) else Some (rt, db, store)))"

section \<open>What the queue keeps\<close>

text \<open>A request that was closed or running stays as it is; one that was pending is closed, with the same question.\<close>

definition handled :: "archive_request \<Rightarrow> archive_request \<Rightarrow> bool" where
  "handled r r' \<longleftrightarrow>
     (if rq_status r = Pending then rq_id r' = rq_id r \<and> rq_kind r' = rq_kind r \<and> rq_scope r' = rq_scope r
        \<and> rq_requested_at r' = rq_requested_at r \<and> rq_status r' \<in> {Completed, Failed} \<and> (rq_status r' = Completed \<longleftrightarrow> rq_result r' \<noteq> None)
      else r' = r)"

definition handled_or_same :: "archive_request \<Rightarrow> archive_request \<Rightarrow> bool" where
  "handled_or_same r r' \<longleftrightarrow> r' = r \<or> (rq_status r = Pending \<and> handled r r')"

lemma handled_later: "handled_or_same r r' \<Longrightarrow> handled r' r'' \<Longrightarrow> handled r r''"
  by (auto simp: handled_or_same_def handled_def split: if_splits)

lemma one_request:
  assumes "next_pending env rt = Some (r, rt')" "distinct (map rq_id (rt_rows rt))"
  shows "list_all2 handled_or_same (rt_rows rt) (rt_rows (finish_request env (rq_id r) result rt'))"
    "map rq_id (rt_rows (finish_request env (rq_id r) result rt')) = map rq_id (rt_rows rt)"
proof -
  obtain r0 where r0: "r0 \<in> set (rt_rows rt)" "rq_status r0 = Pending" "rq_id r = rq_id r0"
      "rt_rows rt' = update_where (\<lambda>x. rq_id x = rq_id r0) (\<lambda>r. r\<lparr>rq_status := Running, rq_started_at := Some (ie_now (ar_ingest env))\<rparr>) (rt_rows rt)"
    by (rule next_pending_parts [OF assms(1)]) simp
  have waits: "rq_status x = Pending" if "x \<in> set (rt_rows rt)" "rq_id x = rq_id r0" for x
    using that r0(1,2) assms(2) by (metis distinct_map inj_onD)
  show "map rq_id (rt_rows (finish_request env (rq_id r) result rt')) = map rq_id (rt_rows rt)"
    by (simp add: finish_request_def r0(3,4) update_where_def split: sum.split)
  show "list_all2 handled_or_same (rt_rows rt) (rt_rows (finish_request env (rq_id r) result rt'))"
    using waits by (auto simp: finish_request_def r0(3,4) update_where_def list.rel_map list_all2_same handled_or_same_def handled_def split: sum.split)
qed

theorem round_closes_requests:
  assumes "drain_requests env cfg cwd rt state = Some (rt', state')" "distinct (map rq_id (rt_rows rt))"
  shows "list_all2 handled (rt_rows rt) (rt_rows rt')"
  using assms
proof (induction env cfg cwd rt state rule: drain_requests.induct)
  case (1 env cfg cwd rt state)
  show ?case
  proof (cases "next_pending env rt")
    case None
    then have "sort_key (\<lambda>r. (rq_requested_at r, rq_id r)) (filter (\<lambda>r. rq_status r = Pending) (rt_rows rt)) = []"
      by (auto simp: next_pending_def Let_def split: list.splits)
    then have "filter (\<lambda>r. rq_status r = Pending) (rt_rows rt) = []" by (metis length_0_conv length_sort)
    moreover have "rt' = rt" using 1(2) None by (simp add: drain_requests.simps)
    ultimately show ?thesis by (auto simp: list_all2_conv_all_nth handled_def filter_empty_conv)
  next
    case (Some p)
    obtain r rt1 where p: "p = (r, rt1)" by fastforce
    obtain result state1 where h: "handle_request env cfg cwd r state = Some (result, state1)"
      using 1(2) Some p by (cases "handle_request env cfg cwd r state") (auto simp: drain_requests.simps)
    let ?rt = "finish_request env (rq_id r) result rt1"
    note one = one_request [OF Some [unfolded p] 1(3), of result]
    have "drain_requests env cfg cwd ?rt state1 = Some (rt', state')"
      using 1(2) Some p h by (subst (asm) drain_requests.simps) simp
    then have "list_all2 handled (rt_rows ?rt) (rt_rows rt')"
      using 1(1) [OF Some p [symmetric] h refl] one(2) 1(3) by simp
    then show ?thesis using list_all2_trans [of handled_or_same handled handled, OF _ one(1)] handled_later by metis
  qed
qed

lemma absent_restore_once:
  assumes "request_restore_if_absent env s who rt = Inr (new, rt')"
  shows "list_ex (open_restore env s) (rt_rows rt')" "new \<longleftrightarrow> \<not> list_ex (open_restore env s) (rt_rows rt)"
    "length (filter (open_restore env s) (rt_rows rt')) \<le> max 1 (length (filter (open_restore env s) (rt_rows rt)))"
proof -
  have "open_restore env s (fst (insert_request env ''restore'' (scope_to_value env (default_scope\<lparr>sc_session := Some s\<rparr>)) w rt))" for w
    by (simp add: insert_request_def open_restore_def scope_to_value_def default_scope_def text_at_def Let_def)
  moreover have "filter (open_restore env s) (rt_rows rt) = []" if "\<not> list_ex (open_restore env s) (rt_rows rt)"
    using that by (auto simp: list_ex_iff filter_empty_conv)
  ultimately show "list_ex (open_restore env s) (rt_rows rt')" "new \<longleftrightarrow> \<not> list_ex (open_restore env s) (rt_rows rt)"
    "length (filter (open_restore env s) (rt_rows rt')) \<le> max 1 (length (filter (open_restore env s) (rt_rows rt)))"
    using assms by (auto simp: request_restore_if_absent_def enqueue_restore_def insert_request_def Let_def split: if_splits)
qed

lemma scope_reads_back:
  assumes "\<And>s. ie_parse_uuid (ar_ingest env) (ie_uuid_string (ar_ingest env) s) = Some s"
  shows "scope_of_value env (scope_to_value env scope) = Some scope"
  by (cases scope; cases "sc_session scope"; cases "sc_month scope"; cases "sc_repo scope")
    (simp_all add: scope_of_value_def scope_to_value_def optional_text_def default_bool_def is_object_def assms)

section \<open>What the verification says\<close>

definition intact :: "archive_env \<Rightarrow> object_store \<Rightarrow> archived_session \<Rightarrow> bool" where
  "intact env store a \<longleftrightarrow> (\<exists>head ls. store (as_key a) = Some head \<and> map_of (ob_metadata head) ''sha256'' = Some (as_sha256 a)
     \<and> metadata_number head ''events'' = Some (as_events a) \<and> metadata_number head ''bytes'' = Some (as_bytes a)
     \<and> read_session_lines env store (as_key a) (as_sha256 a) = Inr ls \<and> int (length ls) = as_events a)"

lemma mismatch_intact:
  "store (as_key a) = Some head \<Longrightarrow> object_mismatch env store True a head = [] \<longleftrightarrow> intact env store a"
  by (auto simp: object_mismatch_def intact_def Let_def split: sum.splits)

lemma verify_folds:
  assumes "vf_deep v" "fold (verify_one env store) sessions v = v'"
  shows "vf_ok v' + vf_missing v' + vf_mismatched v' = vf_ok v + vf_missing v + vf_mismatched v + length sessions
    \<and> (vf_problems v' = [] \<longleftrightarrow> vf_problems v = [] \<and> list_all (intact env store) sessions)
    \<and> vf_ok v' = vf_ok v + length (filter (intact env store) sessions)"
  using assms
proof (induction sessions arbitrary: v)
  case (Cons a sessions)
  let ?v = "verify_one env store a v"
  have deep: "vf_deep ?v" using Cons.prems(1) by (auto simp: verify_one_def Let_def split: option.splits list.splits)
  have not_there: "\<not> intact env store a" if "store (as_key a) = None" using that by (simp add: intact_def)
  have "vf_ok ?v + vf_missing ?v + vf_mismatched ?v = vf_ok v + vf_missing v + vf_mismatched v + 1"
    "vf_problems ?v = [] \<longleftrightarrow> vf_problems v = [] \<and> intact env store a" "vf_ok ?v = vf_ok v + (if intact env store a then 1 else 0)"
    using Cons.prems(1) not_there mismatch_intact [of store a _ env]
    by (auto simp: verify_one_def Let_def split: option.splits list.splits)
  then show ?case using Cons.IH [OF deep] Cons.prems(2) by auto
qed simp

theorem deep_verification_exact:
  assumes "verify_archives env True (db, store) = Inr v" "archived_sessions db = Inr sessions"
  shows "vf_ok v + vf_missing v + vf_mismatched v = length sessions \<and> (vf_problems v = [] \<longleftrightarrow> list_all (intact env store) sessions)
    \<and> vf_ok v = length (filter (intact env store) sessions)"
proof -
  let ?v = "\<lparr>vf_deep = True, vf_sessions = length sessions, vf_ok = 0, vf_missing = 0, vf_mismatched = 0, vf_stale = 0, vf_problems = []\<rparr>"
  have "fold (verify_one env store) sessions ?v = v" using assms by (simp add: verify_archives_def)
  from verify_folds [OF _ this] show ?thesis by simp
qed

section \<open>A restore that fails\<close>

lemma replay_alike: "replay_counted env s source ls ctx stats db = (out, db') \<Longrightarrow> archive_alike db db'"
proof (induction ls arbitrary: ctx stats db)
  case (Cons l ls)
  obtain out1 ctx1 db1 where i: "insert_counted env s source (rl_byte_offset l) (rl_payload l) ctx (rl_related_tool_use_id l) (Some (rl_timestamp l)) db = (out1, ctx1, db1)"
    by (metis prod_cases3)
  have "archive_alike db1 db'" if "replay_counted env s source ls c st db1 = (out, db')" for c st using Cons.IH that by blast
  then show ?case
    using Cons.prems i archive_alike_trans [OF insert_counted_effect(1) [OF i]] insert_counted_effect(1) [OF i]
    by (auto split: sum.splits bool.splits insert_error.splits)
qed simp

lemma purge_no_replay_error: "purge_session env s db \<noteq> Inl (ReplayFailed e)"
proof -
  have "res_fold add_rollup cs m = Inl x \<Longrightarrow> \<exists>u. x = UsageRefused u" for cs m x
    by (induction cs arbitrary: m) (auto simp: add_rollup_def Let_def split: sum.splits)
  then have "roll_up_usage s repo db \<noteq> Inl (ReplayFailed e)" for repo
    by (auto simp: roll_up_usage_def Let_def res_bind_eq_Inl_iff)
  then show ?thesis by (auto simp: purge_session_def lock_and_check_def Let_def guard_def ok_or_def res_bind_eq_Inl_iff split: if_splits option.splits)
qed

text \<open>
  A restore whose replay fails leaves the session marked as no longer purged, with whatever part of its
  events the replay had inserted; asking again is refused, because the session is not purged.
\<close>

theorem failed_restore_not_repeatable:
  assumes "restore_session env store s purge_after db = Some (Inl (ReplayFailed e), db')" "load_purged env s db store = Inr (agent, ls)"
  shows "\<not> session_is_purged s (ad_ingest db')" "restore_session env' store' s purge_after' db' = Some (Inl (NotPurged s), db')"
proof -
  let ?db = "snd (withdraw_and_clear s db)"
  have "replay_archive env s agent ls ?db = Some (Inl (ReplayFailed e), db')"
    using assms purge_no_replay_error [of env s] by (auto simp: restore_session_def split_beta Let_def split: option.splits sum.splits if_splits)
  then obtain ctx where "replay_counted env s (replay_source agent) (map (replay_line_of env) ls) ctx
      \<lparr>rs_events_inserted = 0, rs_parse_errors = 0\<rparr> ?db = (Inl e, db')"
    by (auto simp: replay_archive_def rebuild_session_projection_def Let_def split: sum.splits prod.splits option.splits if_splits)
  then have "archive_alike ?db db'" by (rule replay_alike)
  then have "standing db' s = standing ?db s" by (simp add: archive_alike_def)
  moreover have "standing ?db s \<noteq> Some (a, True)" for a
    using withdraw_effect(7) [OF refl, of s db] by (cases "ig_sessions (ad_ingest db) s") (auto simp: standing_def)
  ultimately show "\<not> session_is_purged s (ad_ingest db')" by (simp add: purged_standing)
  then show "restore_session env' store' s purge_after' db' = Some (Inl (NotPurged s), db')"
    by (auto simp: restore_session_def load_purged_def session_is_purged_def split: option.splits)
qed

end
