(* ===== verification/Broker_Model.thy ===== *)
theory Broker_Model
  imports Text_Ops "HOL-Library.Word"
begin

text \<open>
  The secret broker (\<^verbatim>\<open>secret_broker.rs\<close>, \<^verbatim>\<open>secret_broker/redeem.rs\<close>, \<^verbatim>\<open>browser_auth.rs\<close>,
  \<^verbatim>\<open>secret_protocol.rs\<close>, \<^verbatim>\<open>auth/revocation.rs\<close>): its tables, its handlers and the routes with their
  authentication layers. A \<^verbatim>\<open>HashMap\<close> is an association list with distinct keys in the order an
  iteration gives; a time of the database is in microseconds, the clock of the process in seconds.
  The cipher, the signature check, JSON and Base64 are parameters. Row ids, which nothing reads, are
  left out. A handler is one step; the statements of a handler see one time.
\<close>

section \<open>Rows\<close>

type_synonym hash_map = "(string \<times> string) list"

fun hm_insert :: "string \<Rightarrow> string \<Rightarrow> hash_map \<Rightarrow> hash_map" where
  "hm_insert k v [] = [(k, v)]"
| "hm_insert k v ((k', v') # m) = (if k' = k then (k, v) # m else (k', v') # hm_insert k v m)"

lemma map_of_hm_insert [simp]: "map_of (hm_insert k v m) = (map_of m)(k \<mapsto> v)"
  by (induction k v m rule: hm_insert.induct) (auto simp: fun_eq_iff)

record secret_row =
  sr_id :: string
  sr_description :: string
  sr_scope :: string
  sr_repo :: "string option"
  sr_ciphertext :: string
  sr_nonce :: string
  sr_updated_at :: int

datatype grant_scope = Terminal | Repository | AllTerminals

fun grant_scope_str :: "grant_scope \<Rightarrow> string" where
  "grant_scope_str Terminal = ''terminal''"
| "grant_scope_str Repository = ''repository''"
| "grant_scope_str AllTerminals = ''all_terminals''"

record grant_row =
  gr_scope :: grant_scope
  gr_pty :: "nat option"
  gr_repo :: "string option"
  gr_secret :: string
  gr_granted_by_sub :: string
  gr_granted_by_username :: "string option"
  gr_expires_at :: "int option"
  gr_programs :: "string list option"
  gr_revoked_at :: "int option"

record pty_credential =
  pc_pty :: nat
  pc_public_key :: string
  pc_repo :: "string option"
  pc_created_at :: int
  pc_revoked_at :: "int option"

record use_nonce =
  un_pty :: nat
  un_nonce :: string
  un_seen_at :: int

record use_audit =
  ua_pty :: nat
  ua_secret :: string
  ua_used_at :: int

record broker_db =
  bd_secrets :: "secret_row list"
  bd_grants :: "grant_row list"
  bd_credentials :: "pty_credential list"
  bd_nonces :: "use_nonce list"
  bd_audit :: "use_audit list"
  bd_revocations :: "(string \<times> int) list"

record broker_env =
  bv_now :: int
  bv_clock :: "64 word"
  bv_nonce :: string
  bv_encrypt :: "string \<Rightarrow> string \<Rightarrow> string option"
  bv_decrypt :: "string \<Rightarrow> string \<Rightarrow> string option"
  bv_to_vec :: "hash_map \<Rightarrow> string"
  bv_from_slice :: "string \<Rightarrow> hash_map option"
  bv_base64_decode :: "string \<Rightarrow> string option"
  bv_verify :: "string \<Rightarrow> string \<Rightarrow> string \<Rightarrow> bool"
  bv_uuid_string :: "nat \<Rightarrow> string"
  bv_debug :: "string \<Rightarrow> string"

datatype broker_error =
    BadRequest string
  | Unauthorized string
  | Forbidden string
  | NotFound string
  | Internal

section \<open>Secrets\<close>

definition validate_secret_id :: "string \<Rightarrow> broker_error + unit" where
  "validate_secret_id i =
     guard (i \<noteq> [] \<and> list_all (\<lambda>ch. ascii_alphanumeric ch \<or> ch \<in> {CHR ''-'', CHR ''_'', CHR ''.''}) i)
       (BadRequest ''invalid secret id'')"

definition encrypt_env :: "broker_env \<Rightarrow> hash_map \<Rightarrow> broker_error + (string \<times> string)" where
  "encrypt_env env m =
     res_bind (ok_or (bv_encrypt env (bv_nonce env) (bv_to_vec env m)) Internal) (\<lambda>ciphertext.
       Inr (ciphertext, bv_nonce env))"

definition decrypt_env :: "broker_env \<Rightarrow> string \<Rightarrow> string \<Rightarrow> broker_error + hash_map" where
  "decrypt_env env ciphertext nonce =
     res_bind (guard (length nonce = 12) Internal) (\<lambda>_.
     res_bind (ok_or (bv_decrypt env nonce ciphertext) Internal) (\<lambda>plaintext.
       ok_or (bv_from_slice env plaintext) Internal))"

definition find_secret :: "string \<Rightarrow> broker_db \<Rightarrow> secret_row option" where
  "find_secret i db = find (\<lambda>s. sr_id s = i) (bd_secrets db)"

definition load_secret_env :: "broker_env \<Rightarrow> string \<Rightarrow> broker_db \<Rightarrow> broker_error + hash_map option" where
  "load_secret_env env i db =
     (case find_secret i db of
        None \<Rightarrow> Inr None
      | Some s \<Rightarrow> res_bind (decrypt_env env (sr_ciphertext s) (sr_nonce s)) (\<lambda>m. Inr (Some m)))"

record secret_envelope =
  se_description :: string
  se_scope :: string
  se_repo :: "string option"
  se_env :: hash_map

text \<open>A blank value keeps the stored one; a new variable needs a value.\<close>

definition upsert_value :: "hash_map option \<Rightarrow> string \<times> string \<Rightarrow> hash_map \<Rightarrow> broker_error + hash_map" where
  "upsert_value existing = (\<lambda>(key, v) out.
     if v = [] then
       (case Option.bind existing (\<lambda>m. map_of m key) of
          Some old \<Rightarrow> Inr (hm_insert key old out)
        | None \<Rightarrow> Inl (BadRequest (''value for new env var '' @ key @ '' must not be empty'')))
     else Inr (hm_insert key v out))"

definition put_secret_row :: "secret_row \<Rightarrow> secret_row list \<Rightarrow> secret_row list" where
  "put_secret_row s rows =
     (if sr_id s \<in> sr_id ` set rows then update_where (\<lambda>r. sr_id r = sr_id s) (\<lambda>_. s) rows else rows @ [s])"

definition upsert_secret ::
  "broker_env \<Rightarrow> string \<Rightarrow> secret_envelope \<Rightarrow> broker_db \<Rightarrow> broker_error + broker_db" where
  "upsert_secret env i body db =
     res_bind (validate_secret_id i) (\<lambda>_.
     res_bind (guard (se_env body \<noteq> []) (BadRequest ''env set must not be empty'')) (\<lambda>_.
     res_bind (load_secret_env env i db) (\<lambda>existing.
     res_bind (res_fold (upsert_value existing) (se_env body) []) (\<lambda>m.
     res_bind (guard (m \<noteq> []) (BadRequest ''env set must not be empty'')) (\<lambda>_.
     res_bind (encrypt_env env m) (\<lambda>(ciphertext, nonce).
       Inr (db\<lparr>bd_secrets := put_secret_row
         \<lparr>sr_id = i, sr_description = se_description body, sr_scope = se_scope body, sr_repo = se_repo body,
          sr_ciphertext = ciphertext, sr_nonce = nonce, sr_updated_at = bv_now env\<rparr> (bd_secrets db)\<rparr>)))))))"

definition get_secret :: "broker_env \<Rightarrow> string \<Rightarrow> broker_db \<Rightarrow> broker_error + secret_envelope" where
  "get_secret env i db =
     res_bind (validate_secret_id i) (\<lambda>_.
     res_bind (ok_or (find_secret i db) (NotFound ''secret not found'')) (\<lambda>s.
     res_bind (decrypt_env env (sr_ciphertext s) (sr_nonce s)) (\<lambda>m.
       Inr \<lparr>se_description = sr_description s, se_scope = sr_scope s, se_repo = sr_repo s,
         se_env = map (\<lambda>(k, _). (k, [])) m\<rparr>)))"

text \<open>Grants of a deleted secret go with it.\<close>

definition delete_secret :: "string \<Rightarrow> broker_db \<Rightarrow> broker_db" where
  "delete_secret i db =
     db\<lparr>bd_secrets := filter (\<lambda>s. sr_id s \<noteq> i) (bd_secrets db),
        bd_grants := filter (\<lambda>g. gr_secret g \<noteq> i) (bd_grants db)\<rparr>"

record secret_metadata =
  sm_id :: string
  sm_description :: string
  sm_scope :: string
  sm_repo :: "string option"
  sm_env_keys :: "string list"
  sm_updated_at :: int
  sm_all_terminal_programs :: "string list option"

text \<open>One row for each secret and live all-terminals grant, by id.\<close>

definition secret_metadata_rows ::
  "broker_env \<Rightarrow> broker_db \<Rightarrow> secret_row \<Rightarrow> broker_error + secret_metadata list" where
  "secret_metadata_rows env db s =
     (let live = filter (\<lambda>g. gr_secret g = sr_id s \<and> gr_scope g = AllTerminals \<and> gr_revoked_at g = None) (bd_grants db)
      in res_bind (decrypt_env env (sr_ciphertext s) (sr_nonce s)) (\<lambda>m.
           Inr (map (\<lambda>programs. \<lparr>sm_id = sr_id s, sm_description = sr_description s, sm_scope = sr_scope s,
                sm_repo = sr_repo s, sm_env_keys = sort (map fst m), sm_updated_at = sr_updated_at s,
                sm_all_terminal_programs = programs\<rparr>)
             (if live = [] then [None] else map gr_programs live))))"

definition list_secrets :: "broker_env \<Rightarrow> broker_db \<Rightarrow> broker_error + secret_metadata list" where
  "list_secrets env db =
     res_bind (res_map (secret_metadata_rows env db) (sort_key sr_id (bd_secrets db))) (\<lambda>rows. Inr (concat rows))"

section \<open>Grants\<close>

text \<open>
  The view \<^verbatim>\<open>effective_grants\<close>: a terminal grant until it expires, a repository grant for each live
  credential of the repository, an all-terminals grant for each live credential.
\<close>

record effective_grant =
  eg_pty :: nat
  eg_secret :: string
  eg_granted_by_sub :: string
  eg_granted_by_username :: "string option"
  eg_expires_at :: "int option"
  eg_repo :: "string option"
  eg_scope :: grant_scope
  eg_programs :: "string list option"
  eg_precedence :: int

definition effective_row :: "grant_row \<Rightarrow> nat \<Rightarrow> effective_grant" where
  "effective_row g pty = \<lparr>eg_pty = pty, eg_secret = gr_secret g, eg_granted_by_sub = gr_granted_by_sub g,
     eg_granted_by_username = gr_granted_by_username g, eg_expires_at = gr_expires_at g, eg_repo = gr_repo g,
     eg_scope = gr_scope g, eg_programs = gr_programs g,
     eg_precedence = (if gr_scope g = AllTerminals then 0 else 1)\<rparr>"

definition grant_ptys :: "int \<Rightarrow> broker_db \<Rightarrow> grant_row \<Rightarrow> nat list" where
  "grant_ptys now db g =
     (let live = filter (\<lambda>p. pc_revoked_at p = None) (bd_credentials db) in
      if gr_revoked_at g \<noteq> None then []
      else case gr_scope g of
        Terminal \<Rightarrow>
          (case (gr_pty g, gr_expires_at g) of
             (Some pty, Some t) \<Rightarrow> if now < t then [pty] else []
           | _ \<Rightarrow> [])
      | Repository \<Rightarrow>
          (case gr_repo g of
             None \<Rightarrow> []
           | Some repo \<Rightarrow> map pc_pty (filter (\<lambda>p. pc_repo p = Some repo) live))
      | AllTerminals \<Rightarrow> map pc_pty live)"

definition effective_grants :: "int \<Rightarrow> broker_db \<Rightarrow> effective_grant list" where
  "effective_grants now db = concat (map (\<lambda>g. map (effective_row g) (grant_ptys now db g)) (bd_grants db))"

text \<open>The order of \<^verbatim>\<open>expires_at DESC\<close>: no expiry first, then the latest.\<close>

definition expires_desc :: "effective_grant \<Rightarrow> int \<times> int" where
  "expires_desc g = (case eg_expires_at g of None \<Rightarrow> (0, 0) | Some t \<Rightarrow> (1, - t))"

fun distinct_on :: "('a \<Rightarrow> 'k) \<Rightarrow> 'k set \<Rightarrow> 'a list \<Rightarrow> 'a list" where
  "distinct_on f seen [] = []"
| "distinct_on f seen (x # xs) =
     (if f x \<in> seen then distinct_on f seen xs else x # distinct_on f (insert (f x) seen) xs)"

definition list_grants :: "int \<Rightarrow> nat \<Rightarrow> broker_db \<Rightarrow> effective_grant list" where
  "list_grants now pty db =
     sort_key expires_desc
       (distinct_on (\<lambda>g. (eg_secret g, eg_scope g)) {}
         (sort_key (\<lambda>g. (eg_secret g, grant_scope_str (eg_scope g), expires_desc g))
           (filter (\<lambda>g. eg_pty g = pty) (effective_grants now db))))"

record grant_target =
  gt_scope :: grant_scope
  gt_pty :: "nat option"
  gt_repo :: "string option"

definition registered_repo :: "nat \<Rightarrow> broker_db \<Rightarrow> broker_error + string" where
  "registered_repo pty db =
     (case find (\<lambda>p. pc_pty p = pty \<and> pc_revoked_at p = None \<and> pc_repo p \<noteq> None) (bd_credentials db) of
        Some p \<Rightarrow> ok_or (pc_repo p) (BadRequest ''terminal has no registered repository'')
      | None \<Rightarrow> Inl (BadRequest ''terminal has no registered repository''))"

definition resolve_target :: "grant_scope \<Rightarrow> nat option \<Rightarrow> broker_db \<Rightarrow> broker_error + grant_target" where
  "resolve_target scope pty db =
     (let required = ok_or pty (BadRequest ''pty_session_id is required'') in
      case scope of
        Terminal \<Rightarrow> res_bind required (\<lambda>p. Inr \<lparr>gt_scope = scope, gt_pty = Some p, gt_repo = None\<rparr>)
      | Repository \<Rightarrow> res_bind required (\<lambda>p. res_bind (registered_repo p db) (\<lambda>repo.
            Inr \<lparr>gt_scope = scope, gt_pty = None, gt_repo = Some repo\<rparr>))
      | AllTerminals \<Rightarrow> Inr \<lparr>gt_scope = scope, gt_pty = None, gt_repo = None\<rparr>)"

definition target_match :: "grant_target \<Rightarrow> string \<Rightarrow> grant_row \<Rightarrow> bool" where
  "target_match t secret g \<longleftrightarrow> gr_secret g = secret \<and> gr_scope g = gt_scope t \<and> gr_revoked_at g = None
     \<and> gr_pty g = gt_pty t \<and> gr_repo g = gt_repo t"

definition revoke_target :: "int \<Rightarrow> grant_target \<Rightarrow> string \<Rightarrow> broker_db \<Rightarrow> broker_db" where
  "revoke_target now t secret db =
     db\<lparr>bd_grants := update_where (target_match t secret) (\<lambda>g. g\<lparr>gr_revoked_at := Some now\<rparr>) (bd_grants db)\<rparr>"

record grant_request =
  rq_pty :: "nat option"
  rq_secret :: string
  rq_ttl_seconds :: "int option"
  rq_scope :: grant_scope
  rq_programs :: "string list option"

definition grant_ttl :: "grant_request \<Rightarrow> broker_error + int option" where
  "grant_ttl body =
     (case (rq_scope body, rq_ttl_seconds body) of
        (Terminal, Some ttl) \<Rightarrow>
          if 60 \<le> ttl \<and> ttl \<le> 86400 then Inr (Some ttl)
          else Inl (BadRequest ''ttl_seconds must be between 60 and 86400'')
      | (Terminal, None) \<Rightarrow> Inl (BadRequest ''ttl_seconds must be between 60 and 86400'')
      | (_, None) \<Rightarrow> Inr None
      | (_, Some _) \<Rightarrow> Inl (BadRequest ''only terminal grants expire; omit ttl_seconds''))"

definition valid_program :: "broker_env \<Rightarrow> string \<Rightarrow> string list \<Rightarrow> broker_error + string list" where
  "valid_program env raw valid =
     (let program = trim raw in
      if program = [] \<or> CHR ''/'' \<in> set program \<or> list_ex is_whitespace (chars program)
      then Inl (BadRequest (''program must be a command name such as gh: '' @ bv_debug env program))
      else Inr (if program \<in> set valid then valid else valid @ [program]))"

definition validate_programs :: "broker_env \<Rightarrow> string list \<Rightarrow> broker_error + string list" where
  "validate_programs env programs =
     res_bind (res_fold (valid_program env) programs []) (\<lambda>valid.
     res_bind (guard (valid \<noteq> []) (BadRequest ''an all-terminals grant needs at least one program'')) (\<lambda>_.
       Inr valid))"

definition grant_programs :: "broker_env \<Rightarrow> grant_request \<Rightarrow> broker_error + string list option" where
  "grant_programs env body =
     (case (rq_scope body, rq_programs body) of
        (AllTerminals, Some programs) \<Rightarrow> res_bind (validate_programs env programs) (\<lambda>v. Inr (Some v))
      | (AllTerminals, None) \<Rightarrow> Inl (BadRequest ''an all-terminals grant needs at least one program'')
      | (_, None) \<Rightarrow> Inr None
      | (_, Some _) \<Rightarrow> Inl (BadRequest ''only all-terminals grants take programs''))"

record user =
  us_sub :: string
  us_username :: "string option"
  us_auth_time :: int
  us_expires_at :: int

text \<open>The foreign key on the secret is what refuses a grant for a secret that does not exist.\<close>

definition unlock_grant ::
  "broker_env \<Rightarrow> user \<Rightarrow> grant_request \<Rightarrow> broker_db \<Rightarrow> broker_error + broker_db" where
  "unlock_grant env u body db =
     res_bind (validate_secret_id (rq_secret body)) (\<lambda>_.
     res_bind (grant_ttl body) (\<lambda>ttl.
     res_bind (grant_programs env body) (\<lambda>programs.
     res_bind (resolve_target (rq_scope body) (rq_pty body) db) (\<lambda>t.
       let db = revoke_target (bv_now env) t (rq_secret body) db in
       res_bind (guard (rq_secret body \<in> sr_id ` set (bd_secrets db)) Internal) (\<lambda>_.
         Inr (db\<lparr>bd_grants := bd_grants db @
           [\<lparr>gr_scope = gt_scope t, gr_pty = gt_pty t, gr_repo = gt_repo t, gr_secret = rq_secret body,
             gr_granted_by_sub = us_sub u, gr_granted_by_username = us_username u,
             gr_expires_at = map_option (\<lambda>s. bv_now env + s * 1000000) ttl, gr_programs = programs,
             gr_revoked_at = None\<rparr>]\<rparr>))))))"

definition revoke_grant ::
  "broker_env \<Rightarrow> nat option \<Rightarrow> string \<Rightarrow> grant_scope \<Rightarrow> broker_db \<Rightarrow> broker_error + broker_db" where
  "revoke_grant env pty secret scope db =
     res_bind (resolve_target scope pty db) (\<lambda>t. Inr (revoke_target (bv_now env) t secret db))"

section \<open>Credentials\<close>

definition register_pty_credential ::
  "broker_env \<Rightarrow> nat \<Rightarrow> string \<Rightarrow> string option \<Rightarrow> broker_db \<Rightarrow> broker_error + broker_db" where
  "register_pty_credential env pty public_key repo db =
     res_bind (ok_or (bv_base64_decode env public_key) (BadRequest ''invalid public key'')) (\<lambda>k.
     res_bind (guard (length k = 32) (BadRequest ''invalid public key length'')) (\<lambda>_.
     res_bind (guard (case repo of None \<Rightarrow> True | Some r \<Rightarrow> trim r \<noteq> []) (BadRequest ''repository must not be empty'')) (\<lambda>_.
       let row = \<lparr>pc_pty = pty, pc_public_key = public_key, pc_repo = repo, pc_created_at = bv_now env,
                  pc_revoked_at = None\<rparr>
       in Inr (db\<lparr>bd_credentials :=
            (if pty \<in> pc_pty ` set (bd_credentials db)
             then update_where (\<lambda>p. pc_pty p = pty) (\<lambda>_. row) (bd_credentials db)
             else bd_credentials db @ [row])\<rparr>))))"

definition revoke_pty_credential :: "broker_env \<Rightarrow> nat \<Rightarrow> broker_db \<Rightarrow> broker_db" where
  "revoke_pty_credential env pty db =
     db\<lparr>bd_credentials := update_where (\<lambda>p. pc_pty p = pty \<and> pc_revoked_at p = None)
       (\<lambda>p. p\<lparr>pc_revoked_at := Some (bv_now env)\<rparr>) (bd_credentials db)\<rparr>"

end
