(* ===== verification/Broker_Redeem.thy ===== *)
theory Broker_Redeem
  imports Broker_Model
begin

text \<open>
  Redemption of secrets (\<^verbatim>\<open>secret_broker/redeem.rs\<close>), the authority of a browser
  (\<^verbatim>\<open>auth/revocation.rs\<close>) and the routes of the broker with their authentication. The clock of the
  process is a 64-bit signed count, and its differences wrap around as in a release build.
\<close>

section \<open>Signed requests\<close>

record signed_request =
  sq_pty :: nat
  sq_program :: string
  sq_timestamp :: "64 word"
  sq_nonce :: string
  sq_signature :: string

definition canonical_use_payload :: "broker_env \<Rightarrow> nat \<Rightarrow> string \<Rightarrow> 64 word \<Rightarrow> string \<Rightarrow> string" where
  "canonical_use_payload env pty program timestamp nonce =
     ''sulion-secret-use-v2'' @ [newline] @ bv_uuid_string env pty @ [newline] @ program @ [newline]
     @ show_int (sint timestamp) @ [newline] @ nonce @ [newline]"

definition abs_i64 :: "64 word \<Rightarrow> 64 word" where
  "abs_i64 w = (if sint w < 0 then - w else w)"

definition stale_request :: "64 word \<Rightarrow> 64 word \<Rightarrow> bool" where
  "stale_request timestamp now \<longleftrightarrow> 60 < sint (abs_i64 (timestamp - now))"

text \<open>Nonces live for five minutes.\<close>

definition forget_nonces :: "int \<Rightarrow> broker_db \<Rightarrow> broker_db" where
  "forget_nonces now db = db\<lparr>bd_nonces := filter (\<lambda>n. \<not> un_seen_at n < now - 300000000) (bd_nonces db)\<rparr>"

definition verify_signed_use_request ::
  "broker_env \<Rightarrow> signed_request \<Rightarrow> broker_db \<Rightarrow> (broker_error + unit) \<times> broker_db" where
  "verify_signed_use_request env body db =
     (case res_bind (guard (trim (sq_nonce body) \<noteq> [] \<and> length (sq_nonce body) \<le> 128)
              (Unauthorized ''invalid nonce'')) (\<lambda>_.
           res_bind (guard (\<not> stale_request (sq_timestamp body) (bv_clock env))
              (Unauthorized ''stale secret-use request'')) (\<lambda>_.
           res_bind (ok_or (find (\<lambda>p. pc_pty p = sq_pty body \<and> pc_revoked_at p = None) (bd_credentials db))
              (Unauthorized ''unknown PTY credential'')) (\<lambda>p.
           res_bind (ok_or (bv_base64_decode env (pc_public_key p)) (Unauthorized ''invalid registered PTY key'')) (\<lambda>key.
           res_bind (ok_or (bv_base64_decode env (sq_signature body)) (Unauthorized ''invalid request signature'')) (\<lambda>sig.
             guard (bv_verify env key
               (canonical_use_payload env (sq_pty body) (sq_program body) (sq_timestamp body) (sq_nonce body)) sig)
               (Unauthorized ''invalid request signature'')))))) of
        Inl e \<Rightarrow> (Inl e, db)
      | Inr _ \<Rightarrow>
          (let db = forget_nonces (bv_now env) db in
           if \<exists>n \<in> set (bd_nonces db). un_pty n = sq_pty body \<and> un_nonce n = sq_nonce body
           then (Inl (Unauthorized ''replayed secret-use request''), db)
           else (Inr (), db\<lparr>bd_nonces := bd_nonces db @
             [\<lparr>un_pty = sq_pty body, un_nonce = sq_nonce body, un_seen_at = bv_now env\<rparr>]\<rparr>)))"

section \<open>Redemption\<close>

record redeemed =
  rd_secret :: string
  rd_precedence :: int
  rd_env :: hash_map

text \<open>The variables of one secret: a variable of a higher rank stays, one of the same rank collides.\<close>

record merge_state =
  ms_env :: hash_map
  ms_ranks :: "(string \<times> int) list"
  ms_contributors :: "string list"

fun merge_vars :: "int \<Rightarrow> hash_map \<Rightarrow> hash_map \<Rightarrow> (string \<times> int) list \<Rightarrow> bool \<Rightarrow>
    string + (hash_map \<times> (string \<times> int) list \<times> bool)" where
  "merge_vars precedence [] env ranks contributed = Inr (env, ranks, contributed)"
| "merge_vars precedence ((key, v) # vars) env ranks contributed =
     (case map_of ranks key of
        Some rank \<Rightarrow>
          if precedence < rank then merge_vars precedence vars env ranks contributed else Inl key
      | None \<Rightarrow> merge_vars precedence vars (hm_insert key v env) ((key, precedence) # ranks) True)"

definition merge_secret :: "redeemed \<Rightarrow> merge_state \<Rightarrow> string + merge_state" where
  "merge_secret s st =
     res_bind (merge_vars (rd_precedence s) (rd_env s) (ms_env st) (ms_ranks st) False) (\<lambda>(env, ranks, contributed).
       Inr \<lparr>ms_env = env, ms_ranks = ranks,
            ms_contributors = (if contributed then ms_contributors st @ [rd_secret s] else ms_contributors st)\<rparr>)"

definition merge_by_precedence :: "redeemed list \<Rightarrow> string + (hash_map \<times> string list)" where
  "merge_by_precedence rs =
     res_bind (res_fold merge_secret (sort_key (\<lambda>r. - rd_precedence r) rs)
         \<lparr>ms_env = [], ms_ranks = [], ms_contributors = []\<rparr>) (\<lambda>st.
       Inr (ms_env st, ms_contributors st))"

definition applicable :: "broker_env \<Rightarrow> signed_request \<Rightarrow> broker_db \<Rightarrow> effective_grant list" where
  "applicable env body db =
     filter (\<lambda>g. eg_pty g = sq_pty body
         \<and> (case eg_programs g of None \<Rightarrow> True | Some ps \<Rightarrow> sq_program body \<in> set ps))
       (effective_grants (bv_now env) db)"

text \<open>Each granted secret once, by id, with the highest rank it is granted at.\<close>

definition redeemed_rows :: "broker_env \<Rightarrow> signed_request \<Rightarrow> broker_db \<Rightarrow> (secret_row \<times> int) list" where
  "redeemed_rows env body db =
     concat (map (\<lambda>s.
       case sort_key (\<lambda>g. (- eg_precedence g, expires_desc g))
              (filter (\<lambda>g. eg_secret g = sr_id s) (applicable env body db)) of
         [] \<Rightarrow> []
       | g # _ \<Rightarrow> [(s, eg_precedence g)])
     (sort_key sr_id (bd_secrets db)))"

definition redeem_secret :: "broker_env \<Rightarrow> secret_row \<times> int \<Rightarrow> broker_error + redeemed" where
  "redeem_secret env = (\<lambda>(s, precedence).
     res_bind (decrypt_env env (sr_ciphertext s) (sr_nonce s)) (\<lambda>m.
       Inr \<lparr>rd_secret = sr_id s, rd_precedence = precedence, rd_env = m\<rparr>))"

definition use_secret ::
  "broker_env \<Rightarrow> signed_request \<Rightarrow> broker_db \<Rightarrow> (broker_error + hash_map) \<times> broker_db" where
  "use_secret env body db =
     (case verify_signed_use_request env body db of
        (Inl e, db) \<Rightarrow> (Inl e, db)
      | (Inr _, db) \<Rightarrow>
          (case res_bind (res_map (redeem_secret env) (redeemed_rows env body db)) (\<lambda>rs.
                case merge_by_precedence rs of
                  Inl key \<Rightarrow> Inl (BadRequest (''conflicting env var '' @ key @ '' across unlocked secrets''))
                | Inr (m, ids) \<Rightarrow>
                    res_bind (guard (ids \<noteq> []) (Forbidden ''no secret is unlocked for this terminal'')) (\<lambda>_. Inr (m, ids))) of
             Inl e \<Rightarrow> (Inl e, db)
           | Inr (m, ids) \<Rightarrow>
               (Inr m, db\<lparr>bd_audit := bd_audit db @
                  map (\<lambda>i. \<lparr>ua_pty = sq_pty body, ua_secret = i, ua_used_at = bv_now env\<rparr>) ids\<rparr>)))"

section \<open>Browser authority\<close>

record authority =
  au_sub :: string
  au_auth_time :: int
  au_expires_at :: int

definition authority_of :: "user \<Rightarrow> authority" where
  "authority_of u = \<lparr>au_sub = us_sub u, au_auth_time = us_auth_time u, au_expires_at = us_expires_at u\<rparr>"

definition authority_allowed :: "broker_env \<Rightarrow> authority \<Rightarrow> broker_db \<Rightarrow> bool" where
  "authority_allowed env a db \<longleftrightarrow> sint (bv_clock env) < au_expires_at a
     \<and> (case map_of (bd_revocations db) (au_sub a) of None \<Rightarrow> True | Some cutoff \<Rightarrow> cutoff < au_auth_time a)"

definition revoke_principal :: "broker_env \<Rightarrow> string \<Rightarrow> broker_db \<Rightarrow> broker_db option" where
  "revoke_principal env sub db =
     (if trim sub = [] then None
      else
        let cutoff = bv_now env div 1000000 in
        Some (db\<lparr>bd_revocations :=
          (case map_of (bd_revocations db) sub of
             None \<Rightarrow> bd_revocations db @ [(sub, cutoff)]
           | Some old \<Rightarrow> map (\<lambda>(s, c). if s = sub then (s, max c cutoff) else (s, c)) (bd_revocations db))\<rparr>))"

section \<open>Routes\<close>

datatype user_route =
    RevokeSession
  | ListSecrets
  | GetSecret string
  | PutSecret string secret_envelope
  | DeleteSecret string
  | ListGrants nat
  | UnlockGrant grant_request
  | RevokeGrant "nat option" string grant_scope

datatype registration_route =
    AuthCheck authority
  | AuthRevoke string
  | RegisterPty nat string "string option"
  | RevokePty nat

datatype broker_route =
    Health
  | UserRoute user_route
  | UseRoute signed_request
  | RegistrationRoute registration_route

datatype response =
    Done nat
  | Failed broker_error
  | SecretsBody "secret_metadata list"
  | SecretBody secret_envelope
  | GrantsBody "effective_grant list"
  | EnvBody hash_map
  | Rejected
  | Unavailable

text \<open>
  The value after \<^verbatim>\<open>Bearer\<close>, and its validation by the token library: a user, a token that is not
  good, or keys that could not be fetched.
\<close>

definition bearer_of :: "string option \<Rightarrow> string option" where
  "bearer_of header =
     Option.bind header (\<lambda>h. Option.bind (strip_prefix h ''Bearer '') (\<lambda>token.
       if trim token \<noteq> [] then Some token else None))"

datatype bearer_result = BearerUser user | BearerInvalid | BearerUnavailable

definition result_of :: "(broker_db \<Rightarrow> response) \<Rightarrow> broker_db \<Rightarrow> broker_error + broker_db \<Rightarrow> response \<times> broker_db" where
  "result_of f db r = (case r of Inl e \<Rightarrow> (Failed e, db) | Inr db' \<Rightarrow> (f db', db'))"

definition read_of :: "('a \<Rightarrow> response) \<Rightarrow> broker_db \<Rightarrow> broker_error + 'a \<Rightarrow> response \<times> broker_db" where
  "read_of f db r = (case r of Inl e \<Rightarrow> (Failed e, db) | Inr x \<Rightarrow> (f x, db))"

definition revoke_response :: "broker_env \<Rightarrow> string \<Rightarrow> broker_db \<Rightarrow> response \<times> broker_db" where
  "revoke_response env sub db =
     (case revoke_principal env sub db of Some db' \<Rightarrow> (Done 204, db') | None \<Rightarrow> (Done 503, db))"

fun user_handler :: "broker_env \<Rightarrow> user \<Rightarrow> user_route \<Rightarrow> broker_db \<Rightarrow> response \<times> broker_db" where
  "user_handler env u RevokeSession db = revoke_response env (us_sub u) db"
| "user_handler env u ListSecrets db = read_of SecretsBody db (list_secrets env db)"
| "user_handler env u (GetSecret i) db = read_of SecretBody db (get_secret env i db)"
| "user_handler env u (PutSecret i body) db = result_of (\<lambda>_. Done 204) db (upsert_secret env i body db)"
| "user_handler env u (DeleteSecret i) db = (Done 204, delete_secret i db)"
| "user_handler env u (ListGrants pty) db = (GrantsBody (list_grants (bv_now env) pty db), db)"
| "user_handler env u (UnlockGrant body) db = result_of (\<lambda>_. Done 201) db (unlock_grant env u body db)"
| "user_handler env u (RevokeGrant pty secret scope) db = result_of (\<lambda>_. Done 204) db (revoke_grant env pty secret scope db)"

fun registration_handler :: "broker_env \<Rightarrow> registration_route \<Rightarrow> broker_db \<Rightarrow> response \<times> broker_db" where
  "registration_handler env (AuthCheck a) db = (if authority_allowed env a db then Done 204 else Rejected, db)"
| "registration_handler env (AuthRevoke sub) db = revoke_response env sub db"
| "registration_handler env (RegisterPty pty key repo) db =
     result_of (\<lambda>_. Done 201) db (register_pty_credential env pty key repo db)"
| "registration_handler env (RevokePty pty) db = (Done 204, revoke_pty_credential env pty db)"

definition require_user_auth ::
  "broker_env \<Rightarrow> (string \<Rightarrow> bearer_result) \<Rightarrow> string option \<Rightarrow> user_route \<Rightarrow> broker_db \<Rightarrow> response \<times> broker_db" where
  "require_user_auth env validate header route db =
     (case bearer_of header of
        None \<Rightarrow> (Rejected, db)
      | Some token \<Rightarrow>
          case validate token of
            BearerInvalid \<Rightarrow> (Rejected, db)
          | BearerUnavailable \<Rightarrow> (Unavailable, db)
          | BearerUser u \<Rightarrow>
              if authority_allowed env (authority_of u) db then user_handler env u route db
              else if route = RevokeSession then (Done 204, db)
              else (Rejected, db))"

definition require_registration_auth ::
  "broker_env \<Rightarrow> string \<Rightarrow> string option \<Rightarrow> registration_route \<Rightarrow> broker_db \<Rightarrow> response \<times> broker_db" where
  "require_registration_auth env registration_token header route db =
     (if bearer_of header \<noteq> Some registration_token then (Rejected, db)
      else registration_handler env route db)"

fun broker_app ::
  "broker_env \<Rightarrow> (string \<Rightarrow> bearer_result) \<Rightarrow> string \<Rightarrow> string option \<Rightarrow> broker_route \<Rightarrow> broker_db \<Rightarrow>
   response \<times> broker_db" where
  "broker_app env validate token header Health db = (Done 200, db)"
| "broker_app env validate token header (UserRoute r) db = require_user_auth env validate header r db"
| "broker_app env validate token header (UseRoute body) db =
     (case use_secret env body db of (Inl e, db') \<Rightarrow> (Failed e, db') | (Inr m, db') \<Rightarrow> (EnvBody m, db'))"
| "broker_app env validate token header (RegistrationRoute r) db = require_registration_auth env token header r db"

end
