(* ===== verification/Broker_Sample.thy ===== *)
theory Broker_Sample
  imports Broker_Redeem
begin

text \<open>
  A concrete instance of the broker's parameters, to run it on: a codec for variables, a cipher that
  leaves its text as it is, and a signature that is the key followed by the message.
\<close>

definition frame :: "string \<Rightarrow> string" where
  "frame s = concat (map (\<lambda>c. [CHR ''+'', c]) s) @ ''.''"

fun unframe :: "string \<Rightarrow> (string \<times> string) option" where
  "unframe [] = None"
| "unframe [t] = (if t = CHR ''.'' then Some ([], []) else None)"
| "unframe (t # c # s) =
     (if t = CHR ''.'' then Some ([], c # s) else map_option (\<lambda>(x, r). (c # x, r)) (unframe s))"

lemma unframe_frame [simp]: "unframe (frame x @ r) = Some (x, r)"
proof (induction x)
  case Nil
  then show ?case by (cases r) (auto simp: frame_def)
qed (simp add: frame_def)

definition write_vars :: "hash_map \<Rightarrow> string" where
  "write_vars m = concat (map (\<lambda>(k, v). frame k @ frame v) m)"

fun read_pairs :: "nat \<Rightarrow> string \<Rightarrow> hash_map option" where
  "read_pairs fuel [] = Some []"
| "read_pairs 0 s = None"
| "read_pairs (Suc n) s =
     Option.bind (unframe s) (\<lambda>(k, s). Option.bind (unframe s) (\<lambda>(v, s).
       Option.bind (read_pairs n s) (\<lambda>m. Some ((k, v) # m))))"

lemma read_pairs_step: "s \<noteq> [] \<Longrightarrow> read_pairs (Suc n) s =
    Option.bind (unframe s) (\<lambda>(k, s). Option.bind (unframe s) (\<lambda>(v, s).
      Option.bind (read_pairs n s) (\<lambda>m. Some ((k, v) # m))))"
  by (cases s) simp_all

lemma read_pairs_write: "length m \<le> n \<Longrightarrow> read_pairs n (write_vars m) = Some m"
proof (induction m arbitrary: n)
  case Nil
  then show ?case by (simp add: write_vars_def)
next
  case (Cons x m)
  obtain k v where x: "x = (k, v)" by fastforce
  obtain n' where n: "n = Suc n'" "length m \<le> n'" using Cons.prems by (cases n) auto
  have "read_pairs n' (write_vars m) = Some m" using Cons.IH n(2) .
  moreover have "write_vars (x # m) = frame k @ frame v @ write_vars m" by (simp add: write_vars_def x)
  moreover have "frame k @ frame v @ write_vars m \<noteq> []" by (simp add: frame_def)
  ultimately show ?case by (simp add: n x read_pairs_step del: read_pairs.simps)
qed

definition read_vars :: "string \<Rightarrow> hash_map option" where
  "read_vars s = Option.bind (read_pairs (length s) s) (\<lambda>m. if distinct (map fst m) then Some m else None)"

lemma length_write_vars: "length m \<le> length (write_vars m)"
  by (induction m) (auto simp: write_vars_def frame_def split_beta)

lemma read_write_vars: "distinct (map fst m) \<Longrightarrow> read_vars (write_vars m) = Some m"
  by (simp add: read_vars_def read_pairs_write length_write_vars)

lemma read_vars_distinct: "read_vars s = Some m \<Longrightarrow> distinct (map fst m)"
  by (auto simp: read_vars_def split: Option.bind_splits if_splits)

definition sample_broker :: "int \<Rightarrow> broker_env" where
  "sample_broker now = \<lparr>bv_now = now * 1000000, bv_clock = word_of_int now, bv_nonce = ''abcdefghijkl'',
     bv_encrypt = (\<lambda>_ x. Some x), bv_decrypt = (\<lambda>_ x. Some x), bv_to_vec = write_vars, bv_from_slice = read_vars,
     bv_base64_decode = Some, bv_verify = (\<lambda>key message signature. signature = key @ message),
     bv_uuid_string = show_nat, bv_debug = id\<rparr>"

definition sample_key :: string where
  "sample_key = ''0123456789abcdef0123456789abcdef''"

definition sample_user :: user where
  "sample_user = \<lparr>us_sub = ''ada'', us_username = None, us_auth_time = 990, us_expires_at = 5000\<rparr>"

definition sample_request :: "int \<Rightarrow> string \<Rightarrow> signed_request" where
  "sample_request time nonce = \<lparr>sq_pty = 7, sq_program = ''gh'', sq_timestamp = word_of_int time, sq_nonce = nonce,
     sq_signature = sample_key @
       canonical_use_payload (sample_broker time) 7 ''gh'' (word_of_int time) nonce\<rparr>"

text \<open>A stored secret, a terminal, and a grant to every terminal for one program.\<close>

definition sample_vault :: broker_db where
  "sample_vault = \<lparr>
     bd_secrets = [\<lparr>sr_id = ''gh'', sr_description = [], sr_scope = ''shared'', sr_repo = None,
       sr_ciphertext = write_vars [(''GH_TOKEN'', ''t'')], sr_nonce = ''abcdefghijkl'', sr_updated_at = 0\<rparr>],
     bd_grants = [\<lparr>gr_scope = AllTerminals, gr_pty = None, gr_repo = None, gr_secret = ''gh'', gr_granted_by_sub = ''ada'',
       gr_granted_by_username = None, gr_expires_at = None, gr_programs = Some [''gh''], gr_revoked_at = None\<rparr>],
     bd_credentials = [\<lparr>pc_pty = 7, pc_public_key = sample_key, pc_repo = Some ''r'', pc_created_at = 0, pc_revoked_at = None\<rparr>],
     bd_nonces = [], bd_audit = [], bd_revocations = []\<rparr>"

end
