(* ===== verification/Broker_Secrets.thy ===== *)
theory Broker_Secrets
  imports Broker_Sample
begin

text \<open>Storing a secret and reading it back (\<^verbatim>\<open>upsert_secret\<close>, \<^verbatim>\<open>load_secret_env\<close>, \<^verbatim>\<open>get_secret\<close>).\<close>

section \<open>Variables of an update\<close>

lemma hm_insert_keys: "fst ` set (hm_insert k v m) = insert k (fst ` set m)"
  by (induction k v m rule: hm_insert.induct) auto

lemma distinct_hm_insert: "distinct (map fst m) \<Longrightarrow> distinct (map fst (hm_insert k v m))"
  by (induction k v m rule: hm_insert.induct) (auto simp: hm_insert_keys)

text \<open>What a variable becomes: the value given, or the stored one when the value given is blank.\<close>

definition kept_value :: "hash_map option \<Rightarrow> string \<Rightarrow> string \<Rightarrow> string option" where
  "kept_value existing k v = (if v = [] then Option.bind existing (\<lambda>m. map_of m k) else Some v)"

lemma upsert_value_Inr:
  "upsert_value existing (k, v) out = Inr out' \<longleftrightarrow> (\<exists>w. kept_value existing k v = Some w \<and> out' = hm_insert k w out)"
  by (auto simp: upsert_value_def kept_value_def split: option.splits)

lemma upsert_values:
  assumes "res_fold (upsert_value existing) vars out = Inr m" "distinct (map fst vars)" "distinct (map fst out)"
  shows "distinct (map fst m) \<and> fst ` set m = fst ` set out \<union> fst ` set vars
    \<and> map_of m k = (case map_of vars k of None \<Rightarrow> map_of out k | Some v \<Rightarrow> kept_value existing k v)"
  using assms
proof (induction vars arbitrary: out)
  case (Cons x vars)
  obtain key v where x: "x = (key, v)" by fastforce
  obtain w where w: "kept_value existing key v = Some w" "res_fold (upsert_value existing) vars (hm_insert key w out) = Inr m"
    using Cons.prems(1) by (auto simp: x upsert_value_Inr)
  have "map_of vars key = None" using Cons.prems(2) by (simp add: x map_of_eq_None_iff)
  then show ?case
    using Cons.IH [OF w(2)] Cons.prems(2,3) w(1) by (auto simp: x distinct_hm_insert map_of_hm_insert hm_insert_keys split: option.split)
qed simp

lemma find_put_secret_row:
  "find (\<lambda>s. sr_id s = j) (put_secret_row s rows) = (if j = sr_id s then Some s else find (\<lambda>s. sr_id s = j) rows)"
proof -
  have "find (\<lambda>r. sr_id r = j) (rows @ [s]) = (if j = sr_id s then Some s else find (\<lambda>s. sr_id s = j) rows)"
    if "sr_id s \<notin> sr_id ` set rows"
    using that by (induction rows) auto
  moreover have "find (\<lambda>r. sr_id r = j) (update_where (\<lambda>r. sr_id r = sr_id s) (\<lambda>_. s) rows)
      = find (\<lambda>s. sr_id s = j) rows" if "j \<noteq> sr_id s"
    using that by (induction rows) (simp_all add: update_where_def)
  moreover have "find (\<lambda>r. sr_id r = sr_id s) (update_where (\<lambda>r. sr_id r = sr_id s) (\<lambda>_. s) rows) = Some s"
    if "sr_id s \<in> sr_id ` set rows"
    using that by (induction rows) (auto simp add: update_where_def)
  ultimately show ?thesis by (cases "j = sr_id s") (auto simp: put_secret_row_def)
qed

section \<open>Round trip\<close>

text \<open>
  The cipher opens with a nonce what it sealed with that nonce, and JSON reads back the variables it
  wrote, in some order.
\<close>

definition sealed :: "broker_env \<Rightarrow> broker_env \<Rightarrow> bool" where
  "sealed env env' \<longleftrightarrow> length (bv_nonce env) = 12
     \<and> (\<forall>x c. bv_encrypt env (bv_nonce env) x = Some c \<longrightarrow> bv_decrypt env' (bv_nonce env) c = Some x)
     \<and> (\<forall>m. distinct (map fst m) \<longrightarrow>
          (\<exists>m'. bv_from_slice env' (bv_to_vec env m) = Some m' \<and> distinct (map fst m') \<and> map_of m' = map_of m))"

text \<open>
  C38: a stored secret can be read back. After an update has been accepted, the variables of the secret
  are those of the update, a blank value standing for the value stored before; other secrets read as
  before, and the management view shows the names of the variables without their values.
\<close>

theorem secret_roundtrip:
  assumes "sealed env env'" "distinct (map fst (se_env body))"
    and "upsert_secret env i body db = Inr db'" "load_secret_env env i db = Inr existing"
  shows "\<exists>m. load_secret_env env' i db' = Inr (Some m)
      \<and> (\<forall>k. map_of m k = Option.bind (map_of (se_env body) k) (kept_value existing k))
      \<and> fst ` set m = fst ` set (se_env body)
      \<and> get_secret env' i db' = Inr \<lparr>se_description = se_description body, se_scope = se_scope body,
          se_repo = se_repo body, se_env = map (\<lambda>(k, _). (k, [])) m\<rparr>
      \<and> (\<forall>j. j \<noteq> i \<longrightarrow> load_secret_env env' j db' = load_secret_env env' j db)"
proof -
  obtain m c where v: "validate_secret_id i = Inr ()"
    and m: "res_fold (upsert_value existing) (se_env body) [] = Inr m"
    and c: "bv_encrypt env (bv_nonce env) (bv_to_vec env m) = Some c"
    and db': "db' = db\<lparr>bd_secrets := put_secret_row
         \<lparr>sr_id = i, sr_description = se_description body, sr_scope = se_scope body, sr_repo = se_repo body,
          sr_ciphertext = c, sr_nonce = bv_nonce env, sr_updated_at = bv_now env\<rparr> (bd_secrets db)\<rparr>"
    using assms(3,4) by (auto simp: upsert_secret_def encrypt_env_def)
  have vals: "distinct (map fst m)" "fst ` set m = fst ` set (se_env body)"
      "map_of m k = Option.bind (map_of (se_env body) k) (kept_value existing k)" for k
    using upsert_values [OF m assms(2), of k] by (auto split: option.splits)
  obtain m' where m': "bv_from_slice env' (bv_to_vec env m) = Some m'" "map_of m' = map_of m"
    using assms(1) vals(1) unfolding sealed_def by blast
  have dec: "decrypt_env env' c (bv_nonce env) = Inr m'"
    using assms(1) c m'(1) by (simp add: decrypt_env_def sealed_def)
  have keys: "fst ` set m' = fst ` set (se_env body)"
    using m'(2) vals(2) by (metis dom_map_of_conv_image_fst)
  have found: "find_secret j db' = (if j = i then find_secret i db' else find_secret j db)"
    "find_secret i db' = Some \<lparr>sr_id = i, sr_description = se_description body, sr_scope = se_scope body,
       sr_repo = se_repo body, sr_ciphertext = c, sr_nonce = bv_nonce env, sr_updated_at = bv_now env\<rparr>" for j
    by (simp_all add: find_secret_def db' find_put_secret_row)
  have "load_secret_env env' j db' = load_secret_env env' j db" if "j \<noteq> i" for j
    using found(1) [of j] that by (simp add: load_secret_env_def)
  moreover have "load_secret_env env' i db' = Inr (Some m')"
    using dec unfolding load_secret_env_def found(2) by simp
  moreover have "get_secret env' i db' = Inr \<lparr>se_description = se_description body, se_scope = se_scope body,
      se_repo = se_repo body, se_env = map (\<lambda>(k, _). (k, [])) m'\<rparr>"
    using dec v unfolding get_secret_def found(2) by simp
  ultimately show ?thesis using keys m'(2) vals(3) by metis
qed

definition sample_body :: secret_envelope where
  "sample_body = \<lparr>se_description = [], se_scope = ''shared'', se_repo = None,
     se_env = [(''GH_TOKEN'', []), (''GH_HOST'', ''h'')]\<rparr>"

theorem secret_roundtrip_witness:
  "\<exists>db' m. upsert_secret (sample_broker 1000) ''gh'' sample_body sample_vault = Inr db'
    \<and> load_secret_env (sample_broker 2000) ''gh'' db' = Inr (Some m)
    \<and> map_of m ''GH_TOKEN'' = Some ''t'' \<and> map_of m ''GH_HOST'' = Some ''h''"
proof -
  have sealed: "sealed (sample_broker 1000) (sample_broker 2000)"
    by (auto simp: sealed_def sample_broker_def read_write_vars)
  have old: "load_secret_env (sample_broker 1000) ''gh'' sample_vault = Inr (Some [(''GH_TOKEN'', ''t'')])" by code_simp
  have "\<not> isl (upsert_secret (sample_broker 1000) ''gh'' sample_body sample_vault)" by code_simp
  then obtain db' where db': "upsert_secret (sample_broker 1000) ''gh'' sample_body sample_vault = Inr db'"
    by (cases "upsert_secret (sample_broker 1000) ''gh'' sample_body sample_vault") auto
  have "distinct (map fst (se_env sample_body))" by code_simp
  from secret_roundtrip [OF sealed this db' old] obtain m
    where m: "load_secret_env (sample_broker 2000) ''gh'' db' = Inr (Some m)"
      "\<And>k. map_of m k = Option.bind (map_of (se_env sample_body) k) (kept_value (Some [(''GH_TOKEN'', ''t'')]) k)"
    by (elim exE conjE) (rule that, assumption, erule spec)
  show ?thesis using db' m by (intro exI [of _ db'] exI [of _ m]) (simp add: sample_body_def kept_value_def)
qed

end
