(* ===== verification/Broker_Merge.thy ===== *)
theory Broker_Merge
  imports Broker_Redeem "HOL-Library.Multiset"
begin

text \<open>
  What merging redeemed secrets means, without an order: a variable has the value of the one secret of
  the highest rank that sets it, and merging fails when there are several.
\<close>

abbreviation sets_var :: "string \<Rightarrow> redeemed \<Rightarrow> bool" where
  "sets_var k r \<equiv> k \<in> fst ` set (rd_env r)"

definition owners :: "string \<Rightarrow> redeemed list \<Rightarrow> redeemed list" where
  "owners k rs = filter (\<lambda>r. sets_var k r \<and> (\<forall>r' \<in> set rs. sets_var k r' \<longrightarrow> rd_precedence r' \<le> rd_precedence r)) rs"

lemma merge_vars_spec:
  assumes "distinct (map fst vars)"
  shows "case merge_vars p vars env ranks c of
      Inl k \<Rightarrow> k \<in> fst ` set vars \<and> (\<exists>r. map_of ranks k = Some r \<and> r \<le> p)
    | Inr (env', ranks', c') \<Rightarrow>
        (\<forall>k \<in> fst ` set vars. \<forall>r. map_of ranks k = Some r \<longrightarrow> p < r)
        \<and> (\<forall>k. map_of ranks' k = (if map_of ranks k = None \<and> k \<in> fst ` set vars then Some p else map_of ranks k))
        \<and> (\<forall>k. map_of env' k = (if map_of ranks k = None \<and> k \<in> fst ` set vars then map_of vars k else map_of env k))
        \<and> (c' \<longleftrightarrow> c \<or> (\<exists>k \<in> fst ` set vars. map_of ranks k = None))"
  using assms
proof (induction vars arbitrary: env ranks c)
  case (Cons kv vars)
  obtain k v where kv: "kv = (k, v)" by (cases kv)
  have k: "k \<notin> fst ` set vars" "map_of vars k = None" "distinct (map fst vars)"
    using Cons.prems kv by (auto simp: map_of_eq_None_iff)
  define K where "K = fst ` set vars"
  have K: "k \<notin> K" "fst ` set (kv # vars) = insert k K" using k(1) by (simp_all add: K_def kv)
  show ?case
  proof (cases "map_of ranks k")
    case None
    note IH = Cons.IH [OF k(3), of "(k, p) # ranks" "hm_insert k v env" True, folded K_def]
    have step: "merge_vars p (kv # vars) env ranks c = merge_vars p vars (hm_insert k v env) ((k, p) # ranks) True"
      using None by (simp add: kv)
    show ?thesis
    proof (cases "merge_vars p vars (hm_insert k v env) ((k, p) # ranks) True")
      case (Inl x)
      then show ?thesis unfolding step K(2) using IH K(1) None by (auto split: if_splits)
    next
      case (Inr t)
      obtain e' r' c' where t: "t = (e', r', c')" by (cases t)
      then show ?thesis unfolding step K(2) using IH K(1) None k(2) Inr by (auto simp: kv split: if_splits)
    qed
  next
    case (Some r)
    note IH = Cons.IH [OF k(3), of ranks env c, folded K_def]
    show ?thesis
    proof (cases "merge_vars p vars env ranks c")
      case (Inl x)
      then show ?thesis unfolding K(2) using IH K(1) Some by (auto simp: kv)
    next
      case (Inr t)
      obtain e' r' c' where t: "t = (e', r', c')" by (cases t)
      then show ?thesis unfolding K(2) using IH K(1) Some k(2) Inr by (simp add: kv) blast
    qed
  qed
qed simp

text \<open>The state of a merge after the secrets \<open>rs\<close>, in the order of falling ranks.\<close>

definition merged :: "redeemed list \<Rightarrow> merge_state \<Rightarrow> bool" where
  "merged rs st \<longleftrightarrow>
     (\<forall>k. case owners k rs of
        [] \<Rightarrow> map_of (ms_ranks st) k = None \<and> map_of (ms_env st) k = None
      | [r] \<Rightarrow> map_of (ms_ranks st) k = Some (rd_precedence r) \<and> map_of (ms_env st) k = map_of (rd_env r) k
      | _ \<Rightarrow> False)
     \<and> ms_contributors st = map rd_secret (filter (\<lambda>r. \<exists>k. owners k rs = [r]) rs)"

lemma owners_sub: "r \<in> set (owners k rs) \<Longrightarrow> r \<in> set rs \<and> sets_var k r"
  by (simp add: owners_def)

lemma owners_None: "owners k rs = [] \<longleftrightarrow> (\<forall>r \<in> set rs. \<not> sets_var k r)"
proof
  assume none: "owners k rs = []"
  show "\<forall>r \<in> set rs. \<not> sets_var k r"
  proof (rule ccontr)
    let ?S = "rd_precedence ` {r \<in> set rs. sets_var k r}"
    assume "\<not> (\<forall>r \<in> set rs. \<not> sets_var k r)"
    then have "?S \<noteq> {}" "finite ?S" by auto
    then have "Max ?S \<in> ?S" by (intro Max_in)
    then obtain r where "Max ?S = rd_precedence r" "r \<in> {r \<in> set rs. sets_var k r}" by (rule imageE)
    then have r: "r \<in> set rs" "sets_var k r" "rd_precedence r = Max ?S" by simp_all
    have "\<forall>r' \<in> set rs. sets_var k r' \<longrightarrow> rd_precedence r' \<le> rd_precedence r"
      using Max_ge [OF \<open>finite ?S\<close>] r(3) by auto
    then have "r \<in> set (owners k rs)" using r by (simp add: owners_def)
    with none show False by simp
  qed
qed (auto simp: owners_def filter_empty_conv)

lemma owners_snoc_other: "\<not> sets_var k s \<Longrightarrow> owners k (rs @ [s]) = owners k rs"
  by (auto simp: owners_def intro!: filter_cong)

lemma owners_snoc_first:
  assumes "sets_var k s" "owners k rs = []"
  shows "owners k (rs @ [s]) = [s]"
  using assms(1) assms(2) [unfolded owners_None] by (auto simp: owners_def filter_empty_conv)

lemma owners_snoc_below:
  assumes "r \<in> set (owners k rs)" "rd_precedence s < rd_precedence r"
  shows "owners k (rs @ [s]) = owners k rs"
  using assms by (auto simp: owners_def intro!: filter_cong)

lemma owners_snoc_same:
  assumes "r \<in> set (owners k rs)" "rd_precedence s = rd_precedence r" "sets_var k s"
  shows "owners k (rs @ [s]) = owners k rs @ [s]"
  using assms by (auto simp: owners_def intro!: filter_cong)

lemma owners_grow:
  assumes "r \<in> set (owners k rs)" "rd_precedence s \<le> rd_precedence r"
  shows "\<exists>more. owners k (rs @ [s]) = owners k rs @ more"
  using owners_snoc_other [of k s rs] owners_snoc_below [OF assms(1), of s] owners_snoc_same [OF assms(1), of s] assms(2)
  by (cases "sets_var k s"; cases "rd_precedence s = rd_precedence r") auto

lemma owners_grow_list:
  assumes "r \<in> set (owners k rs)" "\<forall>s \<in> set ss. rd_precedence s \<le> rd_precedence r"
  shows "\<exists>more. owners k (rs @ ss) = owners k rs @ more"
  using assms(2)
proof (induction ss rule: rev_induct)
  case (snoc s ss)
  then obtain more where m: "owners k (rs @ ss) = owners k rs @ more" by auto
  then have "r \<in> set (owners k (rs @ ss))" using assms(1) by simp
  from owners_grow [OF this, of s] snoc.prems m show ?case by auto
qed simp

lemma merge_step:
  assumes m: "merged rs st" and below: "\<forall>r \<in> set rs. rd_precedence s \<le> rd_precedence r" and d: "distinct (map fst (rd_env s))"
  shows "case merge_secret s st of Inl k \<Rightarrow> 2 \<le> length (owners k (rs @ [s])) | Inr st' \<Rightarrow> merged (rs @ [s]) st'"
proof -
  let ?p = "rd_precedence s"
  have rank: "owners k rs = [] \<and> map_of (ms_ranks st) k = None \<and> map_of (ms_env st) k = None
      \<or> (\<exists>r. owners k rs = [r] \<and> r \<in> set rs \<and> map_of (ms_ranks st) k = Some (rd_precedence r)
          \<and> map_of (ms_env st) k = map_of (rd_env r) k)" for k
  proof -
    have c: "case owners k rs of
        [] \<Rightarrow> map_of (ms_ranks st) k = None \<and> map_of (ms_env st) k = None
      | [r] \<Rightarrow> map_of (ms_ranks st) k = Some (rd_precedence r) \<and> map_of (ms_env st) k = map_of (rd_env r) k
      | _ \<Rightarrow> False"
      using m by (simp add: merged_def)
    show ?thesis
    proof (cases "owners k rs")
      case (Cons r tail)
      then show ?thesis using c owners_sub [of r k rs] by (cases tail) auto
    qed (use c in simp)
  qed
  note spec = merge_vars_spec [OF d, where p = ?p and env = "ms_env st" and ranks = "ms_ranks st" and c = False]
  show ?thesis
  proof (cases "merge_vars ?p (rd_env s) (ms_env st) (ms_ranks st) False")
    case (Inl k)
    then obtain r where r: "sets_var k s" "owners k rs = [r]" "r \<in> set rs" "rd_precedence r \<le> ?p"
      using spec rank [of k] by auto
    then have "owners k (rs @ [s]) = [r, s]" using owners_snoc_same [of r k rs s] below by auto
    then show ?thesis using Inl by (simp add: merge_secret_def)
  next
    case (Inr t)
    obtain e' r' c' where t: "t = (e', r', c')" by (cases t)
    have vs: "\<forall>k. sets_var k s \<longrightarrow> (\<forall>r. map_of (ms_ranks st) k = Some r \<longrightarrow> ?p < r)"
        "\<forall>k. map_of r' k = (if map_of (ms_ranks st) k = None \<and> sets_var k s then Some ?p else map_of (ms_ranks st) k)"
        "\<forall>k. map_of e' k = (if map_of (ms_ranks st) k = None \<and> sets_var k s then map_of (rd_env s) k else map_of (ms_env st) k)"
        "c' \<longleftrightarrow> (\<exists>k. sets_var k s \<and> map_of (ms_ranks st) k = None)"
      using spec Inr t by auto
    have own: "owners k (rs @ [s]) = (if owners k rs = [] \<and> sets_var k s then [s] else owners k rs)" for k
      using rank [of k] vs(1) owners_snoc_other [of k s rs] owners_snoc_first [of k s rs] owners_snoc_below [of _ k rs s]
      by (cases "sets_var k s") auto
    have "(\<exists>k. owners k (rs @ [s]) = [r]) \<longleftrightarrow> (\<exists>k. owners k rs = [r])" if "r \<in> set rs" for r
      using own owners_None that by (metis list.inject list.distinct(1))
    moreover have "(\<exists>k. owners k (rs @ [s]) = [s]) \<longleftrightarrow> c' \<or> (\<exists>k. owners k rs = [s])"
    proof -
      have "map_of (ms_ranks st) k = None \<longleftrightarrow> owners k rs = []" for k using rank [of k] by auto
      then show ?thesis unfolding own vs(4) by auto
    qed
    moreover have "owners k rs \<noteq> [s]" for k
    proof
      assume s: "owners k rs = [s]"
      then have "sets_var k s" using owners_sub [of s k rs] by simp
      with s rank [of k] vs(1) show False by auto
    qed
    ultimately have "map rd_secret (filter (\<lambda>r. \<exists>k. owners k (rs @ [s]) = [r]) (rs @ [s])) =
        (if c' then ms_contributors st @ [rd_secret s] else ms_contributors st)"
      using m by (auto simp: merged_def cong: filter_cong)
    moreover have "case owners k (rs @ [s]) of
        [] \<Rightarrow> map_of r' k = None \<and> map_of e' k = None
      | [r] \<Rightarrow> map_of r' k = Some (rd_precedence r) \<and> map_of e' k = map_of (rd_env r) k
      | _ \<Rightarrow> False" for k
      using own [of k] rank [of k] vs(2,3) by auto
    ultimately have "merged (rs @ [s]) \<lparr>ms_env = e', ms_ranks = r',
        ms_contributors = (if c' then ms_contributors st @ [rd_secret s] else ms_contributors st)\<rparr>"
      unfolding merged_def merge_state.select_convs by (intro conjI allI) (assumption, rule sym)
    then show ?thesis using Inr t by (simp add: merge_secret_def)
  qed
qed

text \<open>Merging all secrets, in the order of falling ranks.\<close>

lemma merge_fold:
  assumes "merged rs st" "sorted_wrt (\<lambda>a b. rd_precedence b \<le> rd_precedence a) (rs @ ss)"
    "\<forall>s \<in> set ss. distinct (map fst (rd_env s))"
  shows "case res_fold merge_secret ss st of Inl k \<Rightarrow> 2 \<le> length (owners k (rs @ ss)) | Inr st' \<Rightarrow> merged (rs @ ss) st'"
  using assms
proof (induction ss arbitrary: rs st)
  case (Cons s ss)
  have below: "\<forall>r \<in> set rs. rd_precedence s \<le> rd_precedence r" "\<forall>r \<in> set ss. rd_precedence r \<le> rd_precedence s"
    using Cons.prems(2) by (auto simp: sorted_wrt_append)
  note step = merge_step [OF Cons.prems(1) below(1), of]
  show ?case
  proof (cases "merge_secret s st")
    case (Inl k)
    then have two: "2 \<le> length (owners k (rs @ [s]))" using step Cons.prems(3) by simp
    then obtain r where r: "r \<in> set (owners k (rs @ [s]))" by (cases "owners k (rs @ [s])") auto
    then have "rd_precedence s \<le> rd_precedence r" using below(1) owners_sub [OF r] by auto
    then obtain more where "owners k ((rs @ [s]) @ ss) = owners k (rs @ [s]) @ more"
      using owners_grow_list [OF r, of ss] below(2) by fastforce
    then show ?thesis using two Inl by simp
  next
    case (Inr st')
    then have "merged (rs @ [s]) st'" using step Cons.prems(3) by simp
    moreover have "(rs @ [s]) @ ss = rs @ s # ss" by simp
    ultimately show ?thesis using Cons.IH [of "rs @ [s]" st'] Cons.prems Inr by (simp only: res_fold.simps res_bind_simps) simp
  qed
qed simp

lemma owners_perm:
  assumes "mset rs' = mset rs"
  shows "mset (owners k rs') = mset (owners k rs)"
  using assms mset_eq_setD [OF assms] by (simp only: owners_def mset_filter)

end
