(* ===== verification/Broker_Props.thy ===== *)
theory Broker_Props
  imports Broker_Merge Broker_Sample
begin

text \<open>
  What the secret broker guarantees: how secrets are merged, who gets them, that a signed request is
  good for one use, what the tables keep, and that a revoked browser stays out.
\<close>

section \<open>Merging\<close>

lemma merge_spec:
  assumes "\<forall>r \<in> set rs. distinct (map fst (rd_env r))"
  shows "case merge_by_precedence rs of
      Inl k \<Rightarrow> 2 \<le> length (owners k rs)
    | Inr (m, ids) \<Rightarrow> (\<forall>k. length (owners k rs) \<le> 1
          \<and> map_of m k = (case owners k rs of [] \<Rightarrow> None | r # _ \<Rightarrow> map_of (rd_env r) k))
        \<and> set ids = rd_secret ` {r \<in> set rs. \<exists>k. owners k rs = [r]}"
proof -
  let ?ss = "sort_key (\<lambda>r. - rd_precedence r) rs" and ?st = "\<lparr>ms_env = [], ms_ranks = [], ms_contributors = []\<rparr>"
  have perm: "mset (owners k ?ss) = mset (owners k rs)" for k by (rule owners_perm) simp
  then have len: "length (owners k ?ss) = length (owners k rs)" for k by (metis size_mset)
  have same: "owners k ?ss = owners k rs" if "length (owners k rs) \<le> 1" for k
    using perm [of k] len [of k] that by (cases "owners k rs"; cases "owners k ?ss") auto
  have "sorted (map (\<lambda>r. - rd_precedence r) ?ss)" by simp
  then have sorted: "sorted_wrt (\<lambda>a b. rd_precedence b \<le> rd_precedence a) ?ss" by (simp add: sorted_wrt_map)
  have "merged [] ?st" by (simp add: merged_def owners_def)
  then have fold: "case res_fold merge_secret ?ss ?st of Inl k \<Rightarrow> 2 \<le> length (owners k ?ss) | Inr st' \<Rightarrow> merged ?ss st'"
    using merge_fold [of "[]" ?st ?ss, unfolded append_Nil] sorted assms by simp
  show ?thesis
  proof (cases "res_fold merge_secret ?ss ?st")
    case (Inl k)
    then show ?thesis using fold len by (simp add: merge_by_precedence_def)
  next
    case (Inr st)
    then have m: "merged ?ss st" using fold by simp
    have one: "length (owners k rs) \<le> 1
        \<and> map_of (ms_env st) k = (case owners k rs of [] \<Rightarrow> None | r # _ \<Rightarrow> map_of (rd_env r) k)" for k
    proof -
      have c: "case owners k ?ss of
          [] \<Rightarrow> map_of (ms_ranks st) k = None \<and> map_of (ms_env st) k = None
        | [r] \<Rightarrow> map_of (ms_ranks st) k = Some (rd_precedence r) \<and> map_of (ms_env st) k = map_of (rd_env r) k
        | _ \<Rightarrow> False"
        using m by (simp add: merged_def)
      then have "length (owners k ?ss) \<le> 1" by (auto split: list.splits)
      then have "length (owners k rs) \<le> 1" using len by simp
      then show ?thesis using c same [of k] by (auto split: list.splits)
    qed
    then have "owners k ?ss = owners k rs" for k using same by blast
    then have "set (ms_contributors st) = rd_secret ` {r \<in> set rs. \<exists>k. owners k rs = [r]}"
      using m by (auto simp: merged_def)
    with one Inr show ?thesis by (simp add: merge_by_precedence_def)
  qed
qed

text \<open>
  C33: merging redeemed secrets does not depend on the order they come in. It succeeds exactly when no
  variable is set by two secrets of the highest rank among those that set it; then each variable has
  the value of that one secret, and the secrets reported as used are those that gave a variable.
\<close>

theorem merge_takes_highest:
  assumes "\<forall>r \<in> set rs. distinct (map fst (rd_env r))"
  shows "((\<exists>r. merge_by_precedence rs = Inr r) \<longleftrightarrow> (\<forall>k. length (owners k rs) \<le> 1))
    \<and> (\<forall>m ids. merge_by_precedence rs = Inr (m, ids) \<longrightarrow>
        (\<forall>k. map_of m k = (case owners k rs of [] \<Rightarrow> None | r # _ \<Rightarrow> map_of (rd_env r) k))
        \<and> set ids = rd_secret ` {r \<in> set rs. \<exists>k. owners k rs = [r]})"
  using merge_spec [OF assms] by (cases "merge_by_precedence rs") (auto simp: not_le Suc_le_eq numeral_2_eq_2)

definition sample_redeemed :: "redeemed list" where
  "sample_redeemed = [\<lparr>rd_secret = ''gh-read'', rd_precedence = 0, rd_env = [(''GH_TOKEN'', ''read''), (''GH_HOST'', ''h'')]\<rparr>,
     \<lparr>rd_secret = ''gh-write'', rd_precedence = 1, rd_env = [(''GH_TOKEN'', ''write'')]\<rparr>]"

theorem merge_takes_highest_witness:
  "\<exists>m ids. merge_by_precedence sample_redeemed = Inr (m, ids)
    \<and> map_of m ''GH_TOKEN'' = Some ''write'' \<and> map_of m ''GH_HOST'' = Some ''h'' \<and> set ids = {''gh-read'', ''gh-write''}"
proof -
  have run: "merge_by_precedence sample_redeemed = Inr ([(''GH_TOKEN'', ''write''), (''GH_HOST'', ''h'')], [''gh-write'', ''gh-read''])"
    by code_simp
  have "\<forall>r \<in> set sample_redeemed. distinct (map fst (rd_env r))" by code_simp
  from merge_takes_highest [OF this] have
    "map_of [(''GH_TOKEN'', ''write''), (''GH_HOST'', ''h'')] ''GH_TOKEN'' =
      (case owners ''GH_TOKEN'' sample_redeemed of [] \<Rightarrow> None | r # _ \<Rightarrow> map_of (rd_env r) ''GH_TOKEN'')"
    using run by blast
  then show ?thesis using run by auto
qed

section \<open>Redeeming\<close>

definition signed_by_credential :: "broker_env \<Rightarrow> signed_request \<Rightarrow> broker_db \<Rightarrow> bool" where
  "signed_by_credential env body db \<longleftrightarrow> (\<exists>p key sig. p \<in> set (bd_credentials db) \<and> pc_pty p = sq_pty body
     \<and> pc_revoked_at p = None \<and> bv_base64_decode env (pc_public_key p) = Some key
     \<and> bv_base64_decode env (sq_signature body) = Some sig
     \<and> bv_verify env key (canonical_use_payload env (sq_pty body) (sq_program body) (sq_timestamp body) (sq_nonce body)) sig)"

lemma verify_accepts:
  assumes "verify_signed_use_request env body db = (Inr u, db')"
  shows "signed_by_credential env body db" "\<not> stale_request (sq_timestamp body) (bv_clock env)"
    "\<forall>n \<in> set (bd_nonces (forget_nonces (bv_now env) db)). \<not> (un_pty n = sq_pty body \<and> un_nonce n = sq_nonce body)"
    "db' = db\<lparr>bd_nonces := bd_nonces (forget_nonces (bv_now env) db) @
       [\<lparr>un_pty = sq_pty body, un_nonce = sq_nonce body, un_seen_at = bv_now env\<rparr>]\<rparr>"
  using assms
  by (auto simp: verify_signed_use_request_def signed_by_credential_def forget_nonces_def Let_def
      split: sum.splits if_splits dest!: find_Some_in)

lemma redeemed_rows_mem:
  assumes "(s, p) \<in> set (redeemed_rows env body db)"
  shows "s \<in> set (bd_secrets db) \<and> (\<exists>g \<in> set (applicable env body db). eg_secret g = sr_id s \<and> eg_precedence g = p)"
proof -
  let ?gs = "\<lambda>s. filter (\<lambda>g. eg_secret g = sr_id s) (applicable env body db)"
  obtain g gs where "s \<in> set (bd_secrets db)" "sort_key (\<lambda>g. (- eg_precedence g, expires_desc g)) (?gs s) = g # gs" "p = eg_precedence g"
    using assms by (auto simp: redeemed_rows_def split: list.splits) metis
  moreover from this(2) have "g \<in> set (?gs s)" by (metis list.set_intros(1) set_sort)
  ultimately show ?thesis by auto
qed

lemma redeemed_rows_all:
  assumes "s \<in> set (bd_secrets db)" "g \<in> set (applicable env body db)" "eg_secret g = sr_id s"
  shows "\<exists>p \<ge> eg_precedence g. (s, p) \<in> set (redeemed_rows env body db)"
proof -
  let ?f = "\<lambda>g. (- eg_precedence g, expires_desc g)" and ?gs = "filter (\<lambda>g. eg_secret g = sr_id s) (applicable env body db)"
  have g: "g \<in> set ?gs" using assms by simp
  then obtain h hs where h: "sort_key ?f ?gs = h # hs" by (cases "sort_key ?f ?gs") (auto dest: arg_cong [where f = set])
  have "sorted (map ?f (h # hs))" using h by (metis sorted_sort_key)
  moreover have "g \<in> set (h # hs)" using g h by (metis set_sort)
  ultimately have "?f h \<le> ?f g" by auto
  then have "eg_precedence g \<le> eg_precedence h" by (auto simp: less_eq_prod_def)
  moreover have "(s, eg_precedence h) \<in> set (redeemed_rows env body db)"
    using assms(1) h by (auto simp: redeemed_rows_def intro!: bexI [of _ s])
  ultimately show ?thesis by blast
qed

text \<open>The tables redemption reads are not those verification writes.\<close>

lemma redeemed_rows_nonces [simp]:
  "redeemed_rows env body (db\<lparr>bd_nonces := ns\<rparr>) = redeemed_rows env body db"
  by (simp add: redeemed_rows_def applicable_def effective_grants_def grant_ptys_def)

lemma use_secret_Inr:
  assumes "use_secret env body db = (Inr m, db')"
  obtains rs ids db1 where "verify_signed_use_request env body db = (Inr (), db1)"
    "res_map (redeem_secret env) (redeemed_rows env body db) = Inr rs" "merge_by_precedence rs = Inr (m, ids)" "ids \<noteq> []"
    "db' = db1\<lparr>bd_audit := bd_audit db1 @ map (\<lambda>i. \<lparr>ua_pty = sq_pty body, ua_secret = i, ua_used_at = bv_now env\<rparr>) ids\<rparr>"
proof -
  obtain out db1 where v: "verify_signed_use_request env body db = (out, db1)" by fastforce
  then have "out = Inr ()" using assms by (cases out) (auto simp: use_secret_def)
  then have v': "verify_signed_use_request env body db = (Inr (), db1)" using v by simp
  have "redeemed_rows env body db1 = redeemed_rows env body db" using verify_accepts(4) [OF v'] by simp
  then show thesis
    using assms v' by (auto simp: use_secret_def res_bind_def split: sum.splits if_splits intro: that)
qed

lemma list_all2_from:
  "list_all2 P xs ys \<Longrightarrow> y \<in> set ys \<Longrightarrow> \<exists>x \<in> set xs. P x y"
  "list_all2 P xs ys \<Longrightarrow> x \<in> set xs \<Longrightarrow> \<exists>y \<in> set ys. P x y"
  by (induction rule: list_all2_induct) auto



end
