(* ===== verification/Broker_Runs.thy ===== *)
theory Broker_Runs
  imports Broker_Props
begin

text \<open>
  The broker over time. A trace is a sequence of requests with the clocks they were served at; it
  records the signed requests that passed verification.
\<close>

section \<open>Traces\<close>

definition admitted :: "broker_env \<Rightarrow> broker_route \<Rightarrow> broker_db \<Rightarrow> (signed_request \<times> broker_env) list" where
  "admitted env route db =
     (case route of
        UseRoute body \<Rightarrow> if fst (verify_signed_use_request env body db) = Inr () then [(body, env)] else []
      | _ \<Rightarrow> [])"

inductive broker_trace ::
  "(broker_env \<Rightarrow> bool) \<Rightarrow> broker_db \<Rightarrow> int \<Rightarrow> (signed_request \<times> broker_env) list \<Rightarrow> int \<Rightarrow> broker_db \<Rightarrow> bool"
  for fair db0 t0 where
  start: "broker_trace fair db0 t0 [] t0 db0"
| served: "broker_trace fair db0 t0 (acc @ admitted env route db) (bv_now env) db'"
    if "broker_trace fair db0 t0 acc t db" "t \<le> bv_now env" "fair env"
      "broker_app env validate token header route db = (resp, db')"

text \<open>The same, computed: calls with their environments, bearer and routes in order.\<close>

type_synonym broker_call = "broker_env \<times> (string \<Rightarrow> bearer_result) \<times> string \<times> string option \<times> broker_route"

fun broker_run :: "broker_call list \<Rightarrow> broker_db \<Rightarrow> (signed_request \<times> broker_env) list \<times> response list \<times> broker_db" where
  "broker_run [] db = ([], [], db)"
| "broker_run ((env, validate, token, header, route) # calls) db =
     (let (resp, db') = broker_app env validate token header route db;
          (acc, resps, db'') = broker_run calls db'
      in (admitted env route db @ acc, resp # resps, db''))"

lemma broker_run_trace_from:
  assumes "broker_trace fair db0 t0 acc t db" "sorted (t # map (bv_now \<circ> fst) calls)" "\<forall>c \<in> set calls. fair (fst c)"
    "broker_run calls db = (acc', resps, db')"
  shows "broker_trace fair db0 t0 (acc @ acc') (last (t # map (bv_now \<circ> fst) calls)) db'"
  using assms
proof (induction calls arbitrary: db acc t acc' resps)
  case (Cons call calls)
  obtain env validate token header route where c: "call = (env, validate, token, header, route)" by (metis prod_cases5)
  obtain resp db1 where app: "broker_app env validate token header route db = (resp, db1)" by fastforce
  obtain acc1 resps1 db2 where rest: "broker_run calls db1 = (acc1, resps1, db2)" by (metis prod_cases3)
  have out: "acc' = admitted env route db @ acc1" "db' = db2" using Cons.prems(4) app rest c by auto
  have "broker_trace fair db0 t0 (acc @ admitted env route db) (bv_now env) db1"
    using broker_trace.served [OF Cons.prems(1) _ _ app] Cons.prems(2,3) c by auto
  from Cons.IH [OF this _ _ rest [folded out(2)]] show ?case using Cons.prems(2,3) c out by simp
qed simp

lemma broker_run_trace:
  assumes "broker_run calls db0 = (acc, resps, db)" "sorted (t0 # map (bv_now \<circ> fst) calls)" "\<forall>c \<in> set calls. fair (fst c)"
  shows "broker_trace fair db0 t0 acc (last (t0 # map (bv_now \<circ> fst) calls)) db"
  using broker_run_trace_from [OF broker_trace.start assms(2,3,1)] by simp

section \<open>The window of a signed request\<close>

text \<open>The clocks of the process and of the database are within a minute of each other.\<close>

definition clocks_agree :: "broker_env \<Rightarrow> bool" where
  "clocks_agree env \<longleftrightarrow> 0 \<le> sint (bv_clock env) \<and> sint (bv_clock env) < 2 ^ 62
     \<and> \<bar>sint (bv_clock env) * 1000000 - bv_now env\<bar> \<le> 60000000"

lemma sint_range: "- 9223372036854775808 \<le> sint (w :: 64 word) \<and> sint w < 9223372036854775808"
  using sint_greater_eq [of w] sint_less [of w] by simp

lemma sint_diff_cong: "\<exists>j. sint (a - b :: 64 word) = sint a - sint b + j * 18446744073709551616"
proof -
  have "word_of_int (sint (a - b)) = (word_of_int (sint a - sint b) :: 64 word)"
    by (simp add: of_int_diff)
  then have "18446744073709551616 dvd sint (a - b) - (sint a - sint b)"
    unfolding word_of_int_eq_iff take_bit_eq_mod mod_eq_dvd_iff by simp
  then obtain j where "sint (a - b) - (sint a - sint b) = 18446744073709551616 * j" by (rule dvdE)
  then show ?thesis by (intro exI [of _ j]) simp
qed

text \<open>A multiple of the word size that is small is zero.\<close>

lemma wrap_cases: "(j :: int) \<le> -1 \<or> j = 0 \<or> j = 1 \<or> 2 \<le> j" by arith

lemma abs_i64_small:
  assumes "sint (abs_i64 w) \<le> 60"
  shows "\<bar>sint w\<bar> \<le> 60 \<or> sint w = - 9223372036854775808"
proof (cases "sint w < 0")
  case True
  obtain j where "sint (0 - w) = sint (0 :: 64 word) - sint w + j * 18446744073709551616" using sint_diff_cong by blast
  then have "sint (- w) = - sint w + j * 18446744073709551616" by simp
  moreover have "sint (- w) \<le> 60" using assms True by (simp add: abs_i64_def)
  ultimately show ?thesis using True sint_range [of w] sint_range [of "- w"] wrap_cases [of j] by linarith
qed (use assms in \<open>simp add: abs_i64_def\<close>)

lemma not_stale_window:
  assumes "\<not> stale_request ts a" "\<not> stale_request ts b"
    "0 \<le> sint a" "sint a < 2 ^ 62" "0 \<le> sint b" "sint b < 2 ^ 62"
  shows "\<bar>sint a - sint b\<bar> \<le> 120"
proof -
  have d: "\<bar>sint (ts - c)\<bar> \<le> 60 \<or> sint (ts - c) = - 9223372036854775808" if "\<not> stale_request ts c" for c
    using abs_i64_small [of "ts - c"] that by (simp add: stale_request_def)
  obtain j where j: "sint (ts - a) = sint ts - sint a + j * 18446744073709551616" using sint_diff_cong by blast
  obtain k where k: "sint (ts - b) = sint ts - sint b + k * 18446744073709551616" using sint_diff_cong by blast
  define i where "i = j - k"
  have "sint a - sint b = sint (ts - b) - sint (ts - a) + i * 18446744073709551616"
    using j k by (simp add: i_def algebra_simps)
  moreover have "sint a < 4611686018427387904" "sint b < 4611686018427387904" using assms(4,6) by simp_all
  ultimately show ?thesis
    using d [OF assms(1)] d [OF assms(2)] assms(3,5) wrap_cases [of i] by linarith
qed

section \<open>No replay\<close>

lemma app_other_nonces:
  assumes "broker_app env validate token header route db = (resp, db')" "\<forall>body. route \<noteq> UseRoute body"
  shows "bd_nonces db' = bd_nonces db"
proof -
  have user: "bd_nonces (snd (user_handler env u r db)) = bd_nonces db" for u r
    by (cases r) (auto simp: revoke_response_def revoke_principal_def read_of_def result_of_def upsert_secret_def
        delete_secret_def unlock_grant_def revoke_grant_def revoke_target_def Let_def split: option.splits sum.splits)
  have reg: "bd_nonces (snd (registration_handler env r db)) = bd_nonces db" for r
    by (cases r) (auto simp: revoke_response_def revoke_principal_def result_of_def register_pty_credential_def
        revoke_pty_credential_def Let_def split: option.splits sum.splits)
  show ?thesis
    using assms user reg
    by (cases route) (auto simp: require_user_auth_def require_registration_auth_def
        split: option.splits bearer_result.splits if_splits dest: arg_cong [where f = "\<lambda>x. bd_nonces (snd x)"])
qed

lemma app_use_nonces:
  assumes "broker_app env validate token header (UseRoute body) db = (resp, db')"
  shows "bd_nonces db' = bd_nonces (snd (verify_signed_use_request env body db))"
  using assms by (auto simp: use_secret_def split: prod.splits sum.splits)

text \<open>A nonce row that is not older than five minutes outlives every request.\<close>

lemma app_keeps_nonce:
  assumes app: "broker_app env validate token header route db = (resp, db')"
    and n: "n \<in> set (bd_nonces db)" "bv_now env - 300000000 \<le> un_seen_at n"
  shows "n \<in> set (bd_nonces db')"
proof (cases "\<exists>body. route = UseRoute body")
  case True
  then show ?thesis
    using app_use_nonces app n
    by (fastforce simp: verify_signed_use_request_def forget_nonces_def Let_def split: sum.splits if_splits)
next
  case False
  then show ?thesis using app_other_nonces [OF app] n by simp
qed

definition request_key :: "signed_request \<Rightarrow> nat \<times> 64 word \<times> string" where
  "request_key b = (sq_pty b, sq_timestamp b, sq_nonce b)"

definition nonce_kept :: "int \<Rightarrow> broker_db \<Rightarrow> signed_request \<times> broker_env \<Rightarrow> bool" where
  "nonce_kept t db = (\<lambda>(b, e). clocks_agree e \<and> bv_now e \<le> t \<and> \<not> stale_request (sq_timestamp b) (bv_clock e)
     \<and> (t - 300000000 \<le> bv_now e \<longrightarrow>
         \<lparr>un_pty = sq_pty b, un_nonce = sq_nonce b, un_seen_at = bv_now e\<rparr> \<in> set (bd_nonces db)))"

lemma nonce_kept_app:
  assumes "broker_app env validate token header route db = (resp, db')" "nonce_kept t db x" "t \<le> bv_now env"
  shows "nonce_kept (bv_now env) db' x"
  using assms app_keeps_nonce [OF assms(1)] by (auto simp: nonce_kept_def split: prod.splits)

lemma nonce_kept_admitted:
  assumes app: "broker_app env validate token header route db = (resp, db')" and fair: "clocks_agree env"
    and x: "x \<in> set (admitted env route db)"
  shows "nonce_kept (bv_now env) db' x"
proof -
  obtain body where r: "route = UseRoute body" "x = (body, env)" and v: "fst (verify_signed_use_request env body db) = Inr ()"
    using x by (auto simp: admitted_def split: broker_route.splits if_splits)
  obtain db1 where v1: "verify_signed_use_request env body db = (Inr (), db1)" using v by (metis prod.collapse)
  have "bd_nonces db' = bd_nonces db1" using app_use_nonces app r(1) v1 by simp
  then show ?thesis using verify_accepts(2,4) [OF v1] fair r by (auto simp: nonce_kept_def)
qed

text \<open>Two good requests with one timestamp are served within four minutes.\<close>

lemma same_key_blocked:
  assumes kept: "nonce_kept t db (b, e)" and t: "t \<le> bv_now env" and fair: "clocks_agree env"
    and x: "x \<in> set (admitted env route db)"
  shows "request_key b \<noteq> request_key (fst x)"
proof
  assume key: "request_key b = request_key (fst x)"
  obtain body db1 where r: "x = (body, env)" and v: "verify_signed_use_request env body db = (Inr (), db1)"
    using x by (auto simp: admitted_def split: broker_route.splits if_splits) (metis prod.collapse)
  have "\<bar>sint (bv_clock e) - sint (bv_clock env)\<bar> \<le> 120"
    using kept fair verify_accepts(2) [OF v] key r
    by (intro not_stale_window [of "sq_timestamp b"]) (auto simp: nonce_kept_def clocks_agree_def request_key_def)
  then have near: "bv_now env - 300000000 \<le> bv_now e"
    using kept fair by (auto simp: nonce_kept_def clocks_agree_def)
  then have "\<lparr>un_pty = sq_pty b, un_nonce = sq_nonce b, un_seen_at = bv_now e\<rparr> \<in> set (bd_nonces (forget_nonces (bv_now env) db))"
    using kept t by (auto simp: nonce_kept_def forget_nonces_def)
  then show False using verify_accepts(3) [OF v] key r by (auto simp: request_key_def)
qed

lemma trace_nonces:
  assumes "broker_trace clocks_agree db0 t0 acc t db"
  shows "(\<forall>x \<in> set acc. nonce_kept t db x) \<and> distinct (map (request_key \<circ> fst) acc)"
  using assms
proof induction
  case start
  then show ?case by simp
next
  case (served acc t db env validate token header route resp db')
  have old: "\<forall>x \<in> set acc. nonce_kept t db x" "distinct (map (request_key \<circ> fst) acc)" using served.IH by blast+
  have one: "distinct (map (request_key \<circ> fst) (admitted env route db))"
    by (auto simp: admitted_def split: broker_route.splits)
  have "request_key (fst y) \<noteq> request_key (fst x)" if "y \<in> set acc" "x \<in> set (admitted env route db)" for x y
    using same_key_blocked [of t db "fst y" "snd y" env x route] old(1) that served.hyps by simp
  then have "distinct (map (request_key \<circ> fst) (acc @ admitted env route db))"
    using old(2) one by (fastforce simp: comp_def)
  moreover have "\<forall>x \<in> set (acc @ admitted env route db). nonce_kept (bv_now env) db' x"
    using old(1) nonce_kept_app [OF served.hyps(4)] nonce_kept_admitted [OF served.hyps(4,3)] served.hyps(2) by auto
  ultimately show ?case by blast
qed

text \<open>
  C35: a signed request is good for one use. Whatever requests are served, and however long the broker
  runs, no two requests that pass verification have the same terminal, timestamp and nonce: a request
  is fresh for at most two minutes, and its nonce is forgotten after five. The clocks of the broker and
  of its database have to be within a minute of each other.
\<close>

theorem no_replay:
  assumes "broker_trace clocks_agree db0 t0 acc t db"
  shows "distinct (map (\<lambda>(b, e). (sq_pty b, sq_timestamp b, sq_nonce b)) acc)"
proof -
  have "(\<lambda>(b, e). (sq_pty b, sq_timestamp b, sq_nonce b)) = (request_key \<circ> fst :: signed_request \<times> broker_env \<Rightarrow> _)"
    by (auto simp: request_key_def)
  then show ?thesis using trace_nonces [OF assms] by simp
qed

definition use_call :: "int \<Rightarrow> signed_request \<Rightarrow> broker_call" where
  "use_call now body = (sample_broker now, \<lambda>_. BearerInvalid, ''reg'', None, UseRoute body)"

text \<open>Two uses with one minute between them; the first request, sent again, is refused.\<close>

theorem no_replay_witness:
  "\<exists>acc t db. broker_trace clocks_agree sample_vault 0 acc t db \<and> map (sq_nonce \<circ> fst) acc = [''a'', ''b'']
    \<and> distinct (map (\<lambda>(b, e). (sq_pty b, sq_timestamp b, sq_nonce b)) acc)"
proof -
  let ?calls = "[use_call 1000 (sample_request 1000 ''a''), use_call 1030 (sample_request 1000 ''a''),
    use_call 1060 (sample_request 1060 ''b'')]"
  obtain acc resps db where run: "broker_run ?calls sample_vault = (acc, resps, db)" by (metis prod_cases3)
  have "map (sq_nonce \<circ> fst) (fst (broker_run ?calls sample_vault)) = [''a'', ''b'']" by code_simp
  then have two: "map (sq_nonce \<circ> fst) acc = [''a'', ''b'']" using run by simp
  have "clocks_agree (sample_broker 1000)" "clocks_agree (sample_broker 1030)" "clocks_agree (sample_broker 1060)" by code_simp+
  then have trace: "broker_trace clocks_agree sample_vault 0 acc (last (0 # map (bv_now \<circ> fst) ?calls)) db"
    by (intro broker_run_trace [OF run]) (simp_all add: use_call_def sample_broker_def)
  show ?thesis by (intro exI conjI) (fact trace two no_replay [OF trace])+
qed

end
