(* ===== verification/Broker_Tables.thy ===== *)
theory Broker_Tables
  imports Broker_Runs
begin

text \<open>
  What every request of the broker keeps: the keys and constraints of its tables
  (\<^verbatim>\<open>broker_migrations/\<close>) and the cutoffs of revoked browsers. The locale \<open>kept_by_broker\<close> is the
  interface between a handler and an invariant; a trace keeps what each handler keeps.
\<close>

section \<open>Invariants of the handlers\<close>

locale kept_by_broker =
  fixes keeps :: "broker_db \<Rightarrow> bool"
  assumes keeps_use: "keeps db \<Longrightarrow> keeps (snd (use_secret env body db))"
    and keeps_revoke: "keeps db \<Longrightarrow> revoke_principal env sub db = Some db' \<Longrightarrow> keeps db'"
    and keeps_upsert: "keeps db \<Longrightarrow> upsert_secret env i envelope db = Inr db' \<Longrightarrow> keeps db'"
    and keeps_delete: "keeps db \<Longrightarrow> keeps (delete_secret i db)"
    and keeps_unlock: "keeps db \<Longrightarrow> unlock_grant env u request db = Inr db' \<Longrightarrow> keeps db'"
    and keeps_revoke_grant: "keeps db \<Longrightarrow> revoke_grant env pty i scope db = Inr db' \<Longrightarrow> keeps db'"
    and keeps_register: "keeps db \<Longrightarrow> register_pty_credential env p key repo db = Inr db' \<Longrightarrow> keeps db'"
    and keeps_revoke_pty: "keeps db \<Longrightarrow> keeps (revoke_pty_credential env p db)"
begin

lemma keeps_revoke_response: "keeps db \<Longrightarrow> keeps (snd (revoke_response env sub db))"
  by (auto simp: revoke_response_def dest: keeps_revoke split: option.splits)

lemma keeps_user: "keeps db \<Longrightarrow> keeps (snd (user_handler env u r db))"
  by (cases r) (auto simp: read_of_def result_of_def keeps_revoke_response keeps_delete
      dest: keeps_upsert keeps_unlock keeps_revoke_grant split: sum.splits)

lemma keeps_registration: "keeps db \<Longrightarrow> keeps (snd (registration_handler env r db))"
  by (cases r) (auto simp: result_of_def keeps_revoke_response keeps_revoke_pty dest: keeps_register split: sum.splits)

lemma keeps_app:
  assumes "keeps db"
  shows "keeps (snd (broker_app env validate token header route db))"
proof (cases route)
  case (UseRoute body)
  then show ?thesis using keeps_use [OF assms, of env body] by (auto split: prod.splits sum.splits)
qed (use assms in \<open>auto simp: require_user_auth_def require_registration_auth_def keeps_user keeps_registration keeps_revoke_response
    split: option.splits bearer_result.splits\<close>)

lemma keeps_trace: "broker_trace fair db0 t0 acc t db \<Longrightarrow> keeps db0 \<Longrightarrow> keeps db"
proof (induction rule: broker_trace.induct)
  case (served acc t db env validate token header route resp db')
  then show ?case using keeps_app [of db env validate token header route] by simp
qed

end

section \<open>The tables\<close>

text \<open>The constraint \<^verbatim>\<open>grant_scope\<close>, with the expiry and the programs a request has to give.\<close>

definition named :: "string option \<Rightarrow> bool" where
  "named repo \<longleftrightarrow> (case repo of None \<Rightarrow> True | Some r \<Rightarrow> trim r \<noteq> [])"

fun grant_shape :: "grant_scope \<Rightarrow> nat option \<Rightarrow> string option \<Rightarrow> int option \<Rightarrow> string list option \<Rightarrow> bool" where
  "grant_shape Terminal pty repo expires programs \<longleftrightarrow> pty \<noteq> None \<and> repo = None \<and> expires \<noteq> None \<and> programs = None"
| "grant_shape Repository pty repo expires programs \<longleftrightarrow> pty = None \<and> repo \<noteq> None \<and> named repo \<and> expires = None \<and> programs = None"
| "grant_shape AllTerminals pty repo expires programs \<longleftrightarrow>
     pty = None \<and> repo = None \<and> expires = None \<and> programs \<noteq> None \<and> programs \<noteq> Some []"

definition shaped :: "grant_row \<Rightarrow> bool" where
  "shaped g \<longleftrightarrow> grant_shape (gr_scope g) (gr_pty g) (gr_repo g) (gr_expires_at g) (gr_programs g)"

definition grant_key :: "grant_row \<Rightarrow> string \<times> grant_scope \<times> nat option \<times> string option" where
  "grant_key g = (gr_secret g, gr_scope g, gr_pty g, gr_repo g)"

definition live_grants :: "grant_row list \<Rightarrow> grant_row list" where
  "live_grants gs = filter (\<lambda>g. gr_revoked_at g = None) gs"

definition broker_tables :: "broker_db \<Rightarrow> bool" where
  "broker_tables db \<longleftrightarrow> distinct (map sr_id (bd_secrets db)) \<and> distinct (map pc_pty (bd_credentials db))
     \<and> distinct (map (\<lambda>n. (un_pty n, un_nonce n)) (bd_nonces db)) \<and> distinct (map fst (bd_revocations db))
     \<and> list_all (\<lambda>p. named (pc_repo p)) (bd_credentials db)
     \<and> list_all (\<lambda>g. gr_secret g \<in> sr_id ` set (bd_secrets db) \<and> shaped g) (bd_grants db)
     \<and> distinct (map grant_key (live_grants (bd_grants db)))"

lemma distinct_put_row:
  assumes "distinct (map k rows)" "k row = x"
  shows "distinct (map k (if x \<in> k ` set rows then update_where (\<lambda>r. k r = x) (\<lambda>_. row) rows else rows @ [row]))"
proof -
  have "map k (update_where (\<lambda>r. k r = x) (\<lambda>_. row) rows) = map k rows"
    using assms(2) by (intro map_update_where) simp
  then show ?thesis using assms by auto
qed

lemma verify_tables:
  assumes "broker_tables db"
  shows "broker_tables (snd (verify_signed_use_request env body db))"
proof -
  have "distinct (map (\<lambda>n. (un_pty n, un_nonce n)) (bd_nonces (forget_nonces (bv_now env) db)))"
    using assms by (simp add: broker_tables_def forget_nonces_def distinct_map_filter)
  then show ?thesis
    using assms by (auto simp: verify_signed_use_request_def broker_tables_def Let_def forget_nonces_def split: sum.splits)
qed

lemma use_tables: "broker_tables db \<Longrightarrow> broker_tables (snd (use_secret env body db))"
  using verify_tables [of db env body]
  by (auto simp: use_secret_def broker_tables_def split: prod.splits sum.splits)

lemma revoke_principal_tables:
  assumes "broker_tables db" "revoke_principal env sub db = Some db'"
  shows "broker_tables db'"
proof -
  have "map fst (map (\<lambda>(s, c). if s = sub then (s, max c x) else (s, c)) rs) = map fst rs" for x :: int and rs
    by (auto simp: split_beta)
  then show ?thesis
    using assms by (auto simp: revoke_principal_def broker_tables_def Let_def map_of_eq_None_iff
        simp del: map_map split: if_splits option.splits)
qed

lemma put_secret_row_ids:
  "sr_id ` set (put_secret_row s rows) = insert (sr_id s) (sr_id ` set rows)"
  by (auto simp: put_secret_row_def set_update_where)

lemma upsert_tables:
  assumes "broker_tables db" "upsert_secret env i body db = Inr db'"
  shows "broker_tables db'"
proof -
  obtain s where db': "db' = db\<lparr>bd_secrets := put_secret_row s (bd_secrets db)\<rparr>"
    using assms(2) by (auto simp: upsert_secret_def)
  have "distinct (map sr_id (put_secret_row s (bd_secrets db)))"
    using assms(1) distinct_put_row [of sr_id "bd_secrets db" s "sr_id s"] by (simp add: broker_tables_def put_secret_row_def)
  then show ?thesis
    using assms(1) by (auto simp: db' broker_tables_def put_secret_row_ids list_all_iff)
qed

lemma live_grants_append: "live_grants (xs @ ys) = live_grants xs @ live_grants ys"
  by (simp add: live_grants_def)

lemma delete_tables:
  assumes "broker_tables db"
  shows "broker_tables (delete_secret i db)"
proof -
  have "live_grants (filter P gs) = filter P (live_grants gs)" for P gs
    by (simp add: live_grants_def conj_commute)
  then show ?thesis
    using assms by (auto simp: broker_tables_def delete_secret_def list_all_iff distinct_map_filter)
qed

lemma live_after_revoke:
  "live_grants (bd_grants (revoke_target now t i db)) = filter (\<lambda>g. \<not> target_match t i g) (live_grants (bd_grants db))"
proof -
  have "live_grants (update_where P (\<lambda>g. g\<lparr>gr_revoked_at := Some now\<rparr>) gs) = filter (\<lambda>g. \<not> P g) (live_grants gs)" for P gs
    by (induction gs) (auto simp: live_grants_def update_where_def)
  then show ?thesis by (simp add: revoke_target_def)
qed

lemma revoke_target_tables:
  assumes "broker_tables db"
  shows "broker_tables (revoke_target now t i db)"
proof -
  have "distinct (map grant_key (live_grants (bd_grants (revoke_target now t i db))))"
    unfolding live_after_revoke using assms by (simp add: broker_tables_def distinct_map_filter)
  moreover have "list_all (\<lambda>g. gr_secret g \<in> S \<and> shaped g) (bd_grants db)
      \<Longrightarrow> list_all (\<lambda>g. gr_secret g \<in> S \<and> shaped g) (bd_grants (revoke_target now t i db))" for S
    by (auto simp: list_all_iff revoke_target_def update_where_def shaped_def)
  ultimately show ?thesis using assms by (simp add: broker_tables_def) (simp add: revoke_target_def)
qed

lemma unlock_shape:
  assumes "list_all (\<lambda>p. named (pc_repo p)) (bd_credentials db)"
    "grant_ttl request = Inr ttl" "grant_programs env request = Inr programs"
    "resolve_target (rq_scope request) (rq_pty request) db = Inr t"
  shows "grant_shape (gt_scope t) (gt_pty t) (gt_repo t) (map_option f ttl) programs"
  using assms
  by (cases "rq_scope request")
    (auto simp: grant_ttl_def grant_programs_def resolve_target_def validate_programs_def registered_repo_def list_all_iff
      split: option.splits if_splits dest: sym dest!: find_Some_in)

lemma unlock_tables:
  assumes tables: "broker_tables db" and unlock: "unlock_grant env u request db = Inr db'"
  shows "broker_tables db'"
proof -
  obtain ttl programs t where parts: "grant_ttl request = Inr ttl" "grant_programs env request = Inr programs"
      "resolve_target (rq_scope request) (rq_pty request) db = Inr t"
    and db': "rq_secret request \<in> sr_id ` set (bd_secrets db)"
      "db' = revoke_target (bv_now env) t (rq_secret request) db\<lparr>bd_grants :=
         bd_grants (revoke_target (bv_now env) t (rq_secret request) db) @
           [\<lparr>gr_scope = gt_scope t, gr_pty = gt_pty t, gr_repo = gt_repo t, gr_secret = rq_secret request,
             gr_granted_by_sub = us_sub u, gr_granted_by_username = us_username u,
             gr_expires_at = map_option (\<lambda>s. bv_now env + s * 1000000) ttl, gr_programs = programs,
             gr_revoked_at = None\<rparr>]\<rparr>"
    using unlock by (auto simp: unlock_grant_def Let_def revoke_target_def)
  let ?db = "revoke_target (bv_now env) t (rq_secret request) db"
  have old: "broker_tables ?db" using tables by (rule revoke_target_tables)
  have same: "bd_secrets ?db = bd_secrets db" by (simp add: revoke_target_def)
  have fresh: "(rq_secret request, gt_scope t, gt_pty t, gt_repo t) \<notin> grant_key ` set (live_grants (bd_grants ?db))"
    unfolding live_after_revoke by (auto simp: grant_key_def target_match_def live_grants_def)
  have "list_all (\<lambda>p. named (pc_repo p)) (bd_credentials db)" using tables by (simp add: broker_tables_def)
  note shape = unlock_shape [OF this parts]
  show ?thesis
    using old fresh shape db'(1) unfolding db'(2) broker_tables_def
    by (simp add: same live_grants_append live_grants_def [of "[_]"] shaped_def)
      (simp add: grant_key_def)
qed

lemma register_tables:
  assumes "broker_tables db" "register_pty_credential env pty key repo db = Inr db'"
  shows "broker_tables db'"
proof -
  let ?row = "\<lparr>pc_pty = pty, pc_public_key = key, pc_repo = repo, pc_created_at = bv_now env, pc_revoked_at = None\<rparr>"
  let ?rows = "if pty \<in> pc_pty ` set (bd_credentials db)
    then update_where (\<lambda>p. pc_pty p = pty) (\<lambda>_. ?row) (bd_credentials db) else bd_credentials db @ [?row]"
  have db': "db' = db\<lparr>bd_credentials := ?rows\<rparr>" "named repo"
    using assms(2) by (auto simp: register_pty_credential_def Let_def named_def)
  have "distinct (map pc_pty ?rows)"
    using assms(1) distinct_put_row [of pc_pty "bd_credentials db" ?row pty] by (simp add: broker_tables_def)
  moreover have "list_all (\<lambda>p. named (pc_repo p)) ?rows"
    using assms(1) db'(2) by (auto simp: broker_tables_def list_all_iff set_update_where)
  ultimately show ?thesis using assms(1) by (simp add: db'(1) broker_tables_def)
qed

lemma revoke_pty_tables: "broker_tables db \<Longrightarrow> broker_tables (revoke_pty_credential env pty db)"
  by (auto simp: broker_tables_def revoke_pty_credential_def map_update_where list_all_iff set_update_where)

lemma revoke_grant_tables:
  "broker_tables db \<Longrightarrow> revoke_grant env pty i scope db = Inr db' \<Longrightarrow> broker_tables db'"
  by (auto simp: revoke_grant_def revoke_target_tables)

interpretation tables: kept_by_broker broker_tables
  by unfold_locales
    (fact use_tables revoke_principal_tables upsert_tables delete_tables unlock_tables revoke_grant_tables
      register_tables revoke_pty_tables)+

text \<open>
  C36: every request keeps the tables of the broker well formed: one row for each secret, credential,
  nonce and revoked principal, grants only for stored secrets, each with the target, expiry and programs
  its scope calls for, and at most one grant in force for a secret and a target.
\<close>

theorem tables_stay_well_formed:
  assumes "broker_trace (\<lambda>_. True) db0 t0 acc t db" "broker_tables db0"
  shows "broker_tables db"
  using assms by (rule tables.keeps_trace)

text \<open>A second grant for the same program and secret takes the place of the first.\<close>

definition sample_calls :: "broker_call list" where
  "sample_calls =
     [(sample_broker 1000, \<lambda>_. BearerUser sample_user, ''reg'', Some ''Bearer x'',
        UserRoute (UnlockGrant \<lparr>rq_pty = None, rq_secret = ''gh'', rq_ttl_seconds = None, rq_scope = AllTerminals,
          rq_programs = Some [''gh'', ''hub'']\<rparr>)),
      (sample_broker 1001, \<lambda>_. BearerInvalid, ''reg'', Some ''Bearer reg'', RegistrationRoute (AuthRevoke ''ada'')),
      use_call 1002 (sample_request 1000 ''a'')]"

lemma sample_served:
  obtains acc db where "broker_trace (\<lambda>_. True) sample_vault 0 acc 1002000000 db"
    "db = snd (snd (broker_run sample_calls sample_vault))"
proof -
  obtain acc resps db where run: "broker_run sample_calls sample_vault = (acc, resps, db)" by (metis prod_cases3)
  have "broker_trace (\<lambda>_. True) sample_vault 0 acc (last (0 # map (bv_now \<circ> fst) sample_calls)) db"
    by (intro broker_run_trace [OF run]) (simp_all add: sample_calls_def use_call_def sample_broker_def)
  moreover have "last (0 # map (bv_now \<circ> fst) sample_calls) = 1002000000"
    by (simp add: sample_calls_def use_call_def sample_broker_def)
  ultimately show thesis using that run by simp
qed

theorem tables_stay_well_formed_witness:
  "broker_tables sample_vault \<and> broker_tables (snd (snd (broker_run sample_calls sample_vault)))
    \<and> map gr_revoked_at (bd_grants (snd (snd (broker_run sample_calls sample_vault)))) = [Some 1000000000, None]"
proof -
  have "broker_tables sample_vault" by code_simp
  moreover have "map gr_revoked_at (bd_grants (snd (snd (broker_run sample_calls sample_vault)))) = [Some 1000000000, None]"
    by code_simp
  ultimately show ?thesis using tables_stay_well_formed sample_served by metis
qed

section \<open>Revoked browsers\<close>

definition cut_off :: "string \<Rightarrow> int \<Rightarrow> broker_db \<Rightarrow> bool" where
  "cut_off sub c db \<longleftrightarrow> (\<exists>c' \<ge> c. map_of (bd_revocations db) sub = Some c')"

lemma map_of_raise:
  "map_of (map (\<lambda>(s, c). if s = sub then (s, max c x) else (s, c)) rs) k =
     map_option (\<lambda>c. if k = sub then max c x else c) (map_of rs k)"
  by (induction rs) auto

lemma cut_off_revocations: "bd_revocations db' = bd_revocations db \<Longrightarrow> cut_off sub c db' = cut_off sub c db"
  by (simp add: cut_off_def)

lemma verify_revocations:
  "bd_revocations (snd (verify_signed_use_request env body db)) = bd_revocations db"
  by (simp add: verify_signed_use_request_def forget_nonces_def Let_def split: sum.splits)

lemma use_revocations: "bd_revocations (snd (use_secret env body db)) = bd_revocations db"
  using verify_revocations [of env body db] by (auto simp: use_secret_def split: prod.splits sum.splits)

lemma revoke_principal_cut_off:
  assumes "cut_off sub c db" "revoke_principal env who db = Some db'"
  shows "cut_off sub c db'"
  using assms by (auto simp: revoke_principal_def cut_off_def Let_def map_of_raise map_add_def
      split: if_splits option.splits)

interpretation cutoff: kept_by_broker "cut_off sub c" for sub c
proof unfold_locales
  show "cut_off sub c (snd (use_secret env body db))" if "cut_off sub c db" for db env body
    using that cut_off_revocations [OF use_revocations] by simp
  show "cut_off sub c db'" if "cut_off sub c db" "revoke_principal env who db = Some db'" for db env who db'
    using that by (rule revoke_principal_cut_off)
qed (auto simp: cut_off_def upsert_secret_def delete_secret_def unlock_grant_def revoke_grant_def revoke_target_def
    register_pty_credential_def revoke_pty_credential_def Let_def)

text \<open>
  C37: once the main service has told the broker to revoke a principal, no login of that principal from
  before the revocation gets through again: every user route refuses it and changes nothing (signing
  out again is acknowledged), and the authority check refuses it too.
\<close>

theorem revoked_stays_out:
  assumes "broker_app env0 validate0 token0 header0 (RegistrationRoute (AuthRevoke sub)) db0 = (Done 204, db1)"
    and "broker_trace (\<lambda>_. True) db1 (bv_now env0) acc t db"
    and "us_sub u = sub" "us_auth_time u \<le> bv_now env0 div 1000000"
    and "bearer_of header = Some bearer" "validate bearer = BearerUser u"
  shows "broker_app env validate token header (UserRoute r) db = (if r = RevokeSession then Done 204 else Rejected, db)
    \<and> broker_app env validate token header (RegistrationRoute (AuthCheck (authority_of u))) db = (Rejected, db)"
proof -
  have "revoke_principal env0 sub db0 = Some db1"
    using assms(1) by (auto simp: require_registration_auth_def revoke_response_def split: if_splits option.splits)
  then have "cut_off sub (bv_now env0 div 1000000) db1"
    by (auto simp: revoke_principal_def cut_off_def Let_def map_of_raise map_add_def split: if_splits option.splits)
  then have "cut_off sub (bv_now env0 div 1000000) db" using cutoff.keeps_trace [OF assms(2)] by blast
  then have "\<not> authority_allowed env (authority_of u) db"
    using assms(3,4) by (auto simp: authority_allowed_def authority_of_def cut_off_def)
  then show ?thesis using assms(5,6) by (simp add: require_user_auth_def require_registration_auth_def)
qed

theorem revoked_stays_out_witness:
  "\<exists>db1 acc t db. broker_app (sample_broker 1000) (\<lambda>_. BearerInvalid) ''reg'' (Some ''Bearer reg'')
        (RegistrationRoute (AuthRevoke ''ada'')) sample_vault = (Done 204, db1)
     \<and> broker_trace (\<lambda>_. True) db1 (bv_now (sample_broker 1000)) acc t db \<and> length acc = 1
     \<and> broker_app (sample_broker 1002) (\<lambda>_. BearerUser sample_user) ''reg'' (Some ''Bearer x'') (UserRoute ListSecrets) db = (Rejected, db)"
proof -
  let ?app = "broker_app (sample_broker 1000) (\<lambda>_. BearerInvalid) ''reg'' (Some ''Bearer reg'') (RegistrationRoute (AuthRevoke ''ada'')) sample_vault"
  let ?calls = "[use_call 1001 (sample_request 1000 ''a'')]"
  have "fst ?app = Done 204" by code_simp
  then have app: "?app = (Done 204, snd ?app)" by (metis prod.collapse)
  obtain acc resps db where run: "broker_run ?calls (snd ?app) = (acc, resps, db)" by (metis prod_cases3)
  have "length (fst (broker_run ?calls (snd ?app))) = 1" by code_simp
  then have len: "length acc = 1" using run by simp
  have trace: "broker_trace (\<lambda>_. True) (snd ?app) (bv_now (sample_broker 1000)) acc (last (bv_now (sample_broker 1000) # map (bv_now \<circ> fst) ?calls)) db"
    by (intro broker_run_trace [OF run]) (simp_all add: use_call_def sample_broker_def)
  have login: "us_sub sample_user = ''ada''" "us_auth_time sample_user \<le> bv_now (sample_broker 1000) div 1000000"
      "bearer_of (Some ''Bearer x'') = Some ''x''" "(\<lambda>_. BearerUser sample_user) ''x'' = BearerUser sample_user"
    by code_simp+
  have "broker_app (sample_broker 1002) (\<lambda>_. BearerUser sample_user) ''reg'' (Some ''Bearer x'') (UserRoute ListSecrets) db = (Rejected, db)"
    using revoked_stays_out [OF app trace login, of "sample_broker 1002" "''reg''" ListSecrets] by simp
  with app trace len show ?thesis by blast
qed

end
