(* ===== verification/Spec2Isabelle.thy ===== *)
theory Spec2Isabelle
  imports Plans_Order Timeline_Props Canonical_Props Ingest_System Usage_Claude Archive_Report Archive_Requests Broker_Secrets Broker_Tables
begin

text \<open>
  Verification of the sulion backend.

  \<^bold>\<open>The program.\<close> Sulion (\<^verbatim>\<open>src/backend/src\<close>) runs coding agents in terminals (PTYs) and keeps what
  they do in a database. Agents write transcripts, files of JSON lines. The \<^emph>\<open>ingester\<close> tails these
  files and stores each line as an event with blocks (\<^verbatim>\<open>ingest/ingester.rs\<close>), after the \<^emph>\<open>canonical
  parsers\<close> (\<^verbatim>\<open>ingest/canonical\<close>) have translated the records of both agents into one shape. The
  \<^emph>\<open>timeline projection\<close> (\<^verbatim>\<open>ingest/timeline\<close>, \<^verbatim>\<open>ingest/projection\<close>) reduces the events of a session,
  batch by batch, to turns, operations, file touches and token counts. \<^emph>\<open>Published plans\<close>
  (\<^verbatim>\<open>plans.rs\<close>, \<^verbatim>\<open>plans/\<close>) are trees of plans with phases that terminals attach to. The \<^emph>\<open>secret
  broker\<close> (\<^verbatim>\<open>secret_broker.rs\<close>, \<^verbatim>\<open>secret_broker/\<close>) is a service of its own that stores secrets and gives
  them to terminals that hold a grant.

  \<^bold>\<open>Conventions.\<close> A fallible function returns \<open>'e + 'a\<close>; a table is the list of its rows, or an ordered
  map from its key where the code only reads it by key; an SQL statement is a function on tables; a
  transaction that fails leaves the tables as they were. Text is a list of bytes in UTF-8. Identifiers
  that the code draws at random come from an environment or are natural numbers. A loop that may not
  end is a \<^verbatim>\<open>partial_function (option)\<close>, and that it returns is a theorem. \<^verbatim>\<open>Prelude\<close> has the result
  monad, folds that may fail, tables, text and printed numbers; \<^verbatim>\<open>Text_Ops\<close>, \<^verbatim>\<open>Json\<close> and \<^verbatim>\<open>Paths\<close>
  have what the code uses of \<^verbatim>\<open>str\<close>, \<^verbatim>\<open>serde_json\<close> and \<^verbatim>\<open>std::path\<close>.

  \<^bold>\<open>Published plans.\<close> \<^verbatim>\<open>Plans_Model\<close> (rows, validation) and \<^verbatim>\<open>Plans_Ops\<close> (every operation of
  \<^verbatim>\<open>plans.rs\<close>, \<^verbatim>\<open>plans/phases.rs\<close>, \<^verbatim>\<open>plans/branches.rs\<close> and the reads) are the model; \<^verbatim>\<open>Plans_Inv\<close> is the
  invariant of the tables, \<^verbatim>\<open>Plans_Steps\<close> its preservation by every operation, \<^verbatim>\<open>Plans_History\<close> what
  only grows, \<^verbatim>\<open>Plans_Closing\<close> what closing a plan does to the terminals on it. \<^verbatim>\<open>Plans_Props\<close> and
  \<^verbatim>\<open>Plans_Order\<close> have the properties C1 to C8 and C10 to C13: numbering of phases, the current plan of a terminal,
  the breadcrumb (a recursive query, at most eight levels deep), completion, closed plans, history,
  moves of phases, reading a new plan back, branches.

  \<^bold>\<open>Timelines.\<close> \<^verbatim>\<open>Timeline_Types\<close>, \<^verbatim>\<open>Timeline_Rows\<close>, \<^verbatim>\<open>File_Touches\<close> and \<^verbatim>\<open>Timeline_Reduce\<close> are the
  reducer with its caches and its reads through a backend; \<^verbatim>\<open>Timeline_Store\<close> is the database side.
  \<^verbatim>\<open>Timeline_Spec\<close> says what one event does to a timeline when every row is at hand. \<^verbatim>\<open>Timeline_Refine\<close>
  states the interface of a backend as a locale and the relation between cache and rows,
  \<^verbatim>\<open>Timeline_Sim\<close>, \<^verbatim>\<open>Timeline_Apply\<close> and \<^verbatim>\<open>Timeline_Persist\<close> are the simulation, \<^verbatim>\<open>Timeline_Inv\<close> and
  \<^verbatim>\<open>Timeline_Totals\<close> the invariants of the specification, \<^verbatim>\<open>Timeline_Batch\<close> interprets the locale on the
  queries of the code and has the loop over batches. \<^verbatim>\<open>Timeline_Props\<close> has C14 to C23: a batch refines the
  specification, the loop catches up, neither batching nor rebuilding changes the result, operations
  are numbered, counters agree, tokens are charged once, touches follow operations.

  \<^bold>\<open>Canonical parsers.\<close> \<^verbatim>\<open>Canonical_Tools\<close>, \<^verbatim>\<open>Code_Mode\<close> and \<^verbatim>\<open>Canonical\<close> are the parsers,
  \<^verbatim>\<open>Canonical_Safe\<close> shows that they return, and \<^verbatim>\<open>Canonical_Props\<close> has C25 to C28: no panic, numbering of
  blocks, patches read back, and what normalizing user text removes.

  \<^bold>\<open>Ingester.\<close> \<^verbatim>\<open>Ingest_Events\<close> (a line into the tables, Codex lineage), \<^verbatim>\<open>Ingest_Files\<close> (a pass over a
  file) and \<^verbatim>\<open>Ingest_Tick\<close> (the queue and a whole tick) are the model. \<^verbatim>\<open>Ingest_Lines\<close> and \<^verbatim>\<open>Ingest_Run\<close>
  relate passes to the complete lines of a file, through crashes and re-reads; \<^verbatim>\<open>Ingest_Props\<close> has C29
  and C30: the stored events are exactly the lines, and passes reach the end of the file.
  \<^verbatim>\<open>Ingest_Timeline\<close>, \<^verbatim>\<open>Ingest_Drain\<close> (with the queue as a locale) and \<^verbatim>\<open>Ingest_System\<close> put the ingester and
  the projection together: C31, a tick returns, and C32, the timelines are those of the stored events.

  \<^bold>\<open>Usage accounting.\<close> \<^verbatim>\<open>Usage\<close> has what a record says about tokens, the tables of a session and the
  update of one event (\<^verbatim>\<open>ingest/usage.rs\<close>, \<^verbatim>\<open>ingest/usage/claude.rs\<close>), and the rebuild of a Codex session
  (\<^verbatim>\<open>ingest/usage/records.rs\<close>). \<^verbatim>\<open>Usage_Codex\<close> shows by a simulation that the rebuild agrees with the
  ingester (C39), \<^verbatim>\<open>Usage_Claude\<close> that the receipts of a Claude response replace each other, so that
  each response counts once (C40).

  \<^bold>\<open>Session archive.\<close> \<^verbatim>\<open>Archive_Model\<close> has export and purge (\<^verbatim>\<open>archive/export.rs\<close>,
  \<^verbatim>\<open>archive/purge.rs\<close>), \<^verbatim>\<open>Archive_Cycle\<close> restore and the cycle (\<^verbatim>\<open>archive/restore.rs\<close>,
  \<^verbatim>\<open>archive/mod.rs\<close>), on top of the tables of the ingester and of usage. \<^verbatim>\<open>Archive_Codec\<close> shows that exported
  lines read back, \<^verbatim>\<open>Archive_Runs\<close> has the archive over time and, as a locale, what every step keeps,
  \<^verbatim>\<open>Archive_History\<close> the history of a session (its rows or its object), \<^verbatim>\<open>Archive_Moves\<close> what each operation
  does to it, and \<^verbatim>\<open>Archive_Props\<close> interprets the locale: no event is ever lost (C9). A restore that
  fails in the middle of its replay is not a step of these runs: the code has by then marked the session
  as no longer purged, and does not take this back. \<^verbatim>\<open>Archive_Rollup\<close> interprets the locale a second time, for
  the daily totals of purged sessions, and \<^verbatim>\<open>Archive_Report\<close> has the query of the cost report
  (\<^verbatim>\<open>metrics/usage.sql\<close>), which a cycle does not change (C24). \<^verbatim>\<open>Archive_Requests\<close> has the queue of requests,
  restores of a scope, verification and a round of the loop: a round closes every pending request and no
  other, a deep verification reports exactly the objects that are not intact, and a restore whose replay
  failed cannot be repeated.

  \<^bold>\<open>Secret broker.\<close> \<^verbatim>\<open>Broker_Model\<close> and \<^verbatim>\<open>Broker_Redeem\<close> are the tables, handlers, authentication layers
  and routes. \<^verbatim>\<open>Broker_Merge\<close> and \<^verbatim>\<open>Broker_Props\<close> have C33 and C34, merging and redemption;
  \<^verbatim>\<open>Broker_Runs\<close> has the broker over time and C35, no replay; \<^verbatim>\<open>Broker_Tables\<close> the locale of what all
  requests keep, interpreted for the constraints of the tables (C36) and for revoked principals (C37);
  \<^verbatim>\<open>Broker_Secrets\<close> the round trip of a stored secret (C38). \<^verbatim>\<open>Broker_Sample\<close> instantiates the
  parameters so that the broker can be run on examples.

  \<^bold>\<open>Bounds.\<close> The constants of the code are kept: batches of 500 events clamped to 1..5000, 1024 touches
  for an operation, reads of at most 8 MiB, 2000 lines admitted in a tick, breadcrumbs of eight plans,
  nonces kept for five minutes. Nested code-mode snippets are followed with the length of the text as
  fuel, which is enough because a nested text is shorter. Counters and positions are unbounded
  integers; where the width matters it is stated (C23) or modelled: the clock of the broker is a 64-bit
  word whose differences wrap around, and token counts saturate at 64 bits and are refused by the
  database beyond them.

  \<^bold>\<open>Parameters.\<close> Code outside the repository is an argument with its documented behaviour as a named
  hypothesis: the JavaScript syntax library, UUID and timestamp parsing, the file system, clocks,
  failures of the database during a pass, the cipher, signatures, Base64, JSON text, compression and
  hashes of archived sessions, the markdown of a turn, recorded working directories, and the validation of bearer tokens.

  \<^bold>\<open>Not modelled.\<close> Processes, sockets and terminals (PTY host, node runtime, development environments,
  container runner), programs run outside (git, language servers, agents), vector search and embeddings,
  SQL aggregations for metrics and continuous integration, HTTP handlers that only decode a request and
  call a service, and start-up code: they are input and output around the services modelled here.
  Session metadata and model switches that follow an insertion are recorded by the ingester's model and
  not interpreted, and the update of usage is a model of its own. Still to do:
  plan commands found in transcripts, the plan command line, signing keys and tokens, and the views read
  from timelines.
\<close>

end
